(* ===== verification/Prelude.thy ===== *)
theory Prelude
  imports Main "HOL-Library.Sublist"
begin

text \<open>
  Shared ground of the development: the fact collections its proofs draw on, the result type of
  fallible code, numbers as JavaScript sees them, and list lemmas several components use.
\<close>

named_theorems js_eval \<open>equations that evaluate the JavaScript string primitives\<close>
named_theorems split_facts \<open>facts about the text splitters\<close>
named_theorems map_facts \<open>facts about insertion-ordered maps\<close>
named_theorems step_defs \<open>unfoldings of the step functions of the state machines\<close>

section \<open>Numbers\<close>

text \<open>
  A JavaScript \<open>number\<close> where the code distinguishes integers from everything else:
  \<open>JInt\<close> is a number \<open>Number.isInteger\<close> accepts, \<open>JNonInt\<close> stands for a fraction, \<open>NaN\<close> or an
  infinity.
\<close>

datatype js_num = JInt int | JNonInt

section \<open>Lists\<close>

lemma dropWhile_le_length: "length (dropWhile P xs) \<le> length xs"
  by (induction xs) auto

lemma filter_dropWhile_compl [simp]:
  "filter (\<lambda>x. \<not> P x) (dropWhile P xs) = filter (\<lambda>x. \<not> P x) xs"
  by (induction xs) auto

lemma subseq_dropWhile: "subseq (dropWhile P xs) xs"
  by (metis append_Nil list_emb_append2 subseq_order.order_refl takeWhile_dropWhile_id)

lemma filter_all_iff: "(filter P xs = xs) \<longleftrightarrow> (\<forall>x\<in>set xs. P x)"
  by (simp add: filter_id_conv)

lemma take_append_filter:
  "filter P (take n xs) @ filter P (drop n xs) = filter P xs"
  by (metis append_take_drop_id filter_append)

lemma find_append:
  "find P (xs @ ys) = (case find P xs of None \<Rightarrow> find P ys | Some x \<Rightarrow> Some x)"
  by (induction xs) auto

end
