(* ===== verification/JsString.thy ===== *)
theory JsString
  imports Prelude
begin

text \<open>
  JavaScript strings: lists of UTF-16 code units, as \<open>length\<close>, \<open>slice\<close> and \<open>charCodeAt\<close> see them. A
  code unit is its number, \<open>0\<close> to \<open>0xFFFF\<close>; no code here does arithmetic on one.
  Each operation is the standard library's on the arguments the gateway passes: positions that are
  never \<open>NaN\<close>, search strings that are strings. \<open>lastIndexOf\<close> and \<open>indexOf\<close> answer \<open>-1\<close> when the
  search string does not occur.
\<close>

type_synonym cu = int
type_synonym js = "cu list"

section \<open>Literals\<close>

definition lit :: "string \<Rightarrow> js" where
  "lit s = map of_char s"

lemma lit_simps [simp, js_eval]:
  "lit [] = []"
  "lit (c # s) = of_char c # lit s"
  by (simp_all add: lit_def)

lemma lit_append [simp]: "lit (s @ t) = lit s @ lit t"
  by (simp add: lit_def)

lemma lit_inject [simp]: "lit s = lit t \<longleftrightarrow> s = t"
  unfolding lit_def by (rule inj_map_eq_map) (simp add: inj_def)

lemma length_lit [simp]: "length (lit s) = length s"
  by (simp add: lit_def)

abbreviation nl :: cu where "nl \<equiv> 10"
abbreviation sp :: cu where "sp \<equiv> 32"

section \<open>Decimal numbers\<close>

text \<open>\<open>String(n)\<close> of a non-negative integer.\<close>

fun dec :: "nat \<Rightarrow> js" where
  "dec n = (if n < 10 then [48 + int n] else dec (n div 10) @ [48 + int (n mod 10)])"

declare dec.simps [simp del]

text \<open>A letter in either case, given the lower one.\<close>

definition letter_of :: "cu \<Rightarrow> cu \<Rightarrow> bool" where
  "letter_of lower c \<longleftrightarrow> c = lower \<or> 97 \<le> lower \<and> lower \<le> 122 \<and> c = lower - 32"

text \<open>A text of lower-case letters and others that occurs in either case.\<close>

fun occurs_in :: "js \<Rightarrow> js \<Rightarrow> bool" where
  "occurs_in p [] = (p = [])"
| "occurs_in p (c # s) = (list_all2 letter_of p (take (length p) (c # s)) \<or> occurs_in p s)"

text \<open>A digit, and \<open>Number\<close> of a text of digits, as long as it is a safe integer.\<close>

definition is_digit :: "cu \<Rightarrow> bool" where
  "is_digit c \<longleftrightarrow> 48 \<le> c \<and> c \<le> 57"

definition digits_value :: "js \<Rightarrow> nat" where
  "digits_value s = foldl (\<lambda>n c. 10 * n + nat (c - 48)) 0 s"

lemma digits_value_dec [simp]: "digits_value (dec n) = n"
proof (induction n rule: dec.induct)
  case (1 n)
  then show ?case by (subst dec.simps) (auto simp: digits_value_def)
qed

lemma dec_digits: "list_all is_digit (dec n)"
proof (induction n rule: dec.induct)
  case (1 n)
  then show ?case by (subst dec.simps) (auto simp: is_digit_def [of "48 + _"])
qed

lemma dec_length_pos: "0 < length (dec n)"
  by (subst dec.simps) auto

lemma dec_length_mono: "m \<le> n \<Longrightarrow> length (dec m) \<le> length (dec n)"
proof (induction n arbitrary: m rule: less_induct)
  case (less n)
  show ?case
  proof (cases "m < 10")
    case True
    then show ?thesis using dec_length_pos [of n] by (simp add: dec.simps [of m] Suc_le_eq)
  next
    case False
    then have "length (dec (m div 10)) \<le> length (dec (n div 10))"
      using less by (auto intro!: less.IH div_le_mono)
    then show ?thesis using False less.prems
      by (simp add: dec.simps [of m] dec.simps [of n])
  qed
qed

lemma dec_length_bound: "0 < k \<Longrightarrow> n < 10 ^ k \<Longrightarrow> length (dec n) \<le> k"
proof (induction k arbitrary: n)
  case (Suc k)
  show ?case
  proof (cases "n < 10")
    case False
    then have "0 < k" "n div 10 < 10 ^ k" using Suc.prems by (auto simp: less_mult_imp_div_less mult.commute intro: gr0I)
    then show ?thesis using Suc.IH [of "n div 10"] False by (simp add: dec.simps [of n])
  qed (simp add: dec.simps [of n])
qed simp

section \<open>Whitespace\<close>

text \<open>
  The class \<open>\s\<close> of a regular expression, which is also what \<open>trim\<close> removes: ECMAScript's
  \<open>WhiteSpace\<close> and \<open>LineTerminator\<close>.
\<close>

definition is_space :: "cu \<Rightarrow> bool" where
  "is_space c \<longleftrightarrow> c \<in> set [9, 10, 11, 12, 13, 32, 0xA0, 0x1680, 0x2028, 0x2029, 0x202F,
     0x205F, 0x3000, 0xFEFF] \<or> (0x2000 \<le> c \<and> c \<le> 0x200A)"

definition trim_start :: "js \<Rightarrow> js" where
  "trim_start s = dropWhile is_space s"

definition trim_end :: "js \<Rightarrow> js" where
  "trim_end s = rev (dropWhile is_space (rev s))"

definition js_trim :: "js \<Rightarrow> js" where
  "js_trim s = trim_end (trim_start s)"

lemma trim_end_length: "length (trim_end s) \<le> length s"
  by (simp add: trim_end_def) (metis dropWhile_le_length length_rev)

lemma js_trim_length: "length (js_trim s) \<le> length s"
  unfolding js_trim_def trim_start_def
  by (meson dropWhile_le_length le_trans trim_end_length)

lemma filter_trim_end [simp]:
  "filter (\<lambda>x. \<not> is_space x) (trim_end s) = filter (\<lambda>x. \<not> is_space x) s"
  by (simp add: trim_end_def flip: rev_filter)

lemma filter_js_trim [simp]:
  "filter (\<lambda>x. \<not> is_space x) (js_trim s) = filter (\<lambda>x. \<not> is_space x) s"
  by (simp add: js_trim_def trim_start_def)

lemma trim_end_prefix: "\<exists>n \<le> length s. trim_end s = take n s"
proof -
  let ?d = "length (takeWhile is_space (rev s))"
  have "rev (dropWhile is_space (rev s)) = rev (drop ?d (rev s))"
    by (simp add: dropWhile_eq_drop)
  also have "\<dots> = take (length s - ?d) s" by (simp add: rev_drop)
  finally show ?thesis unfolding trim_end_def by (intro exI [of _ "length s - ?d"]) simp
qed

section \<open>Slices and searches\<close>

text \<open>\<open>s.slice(a, b)\<close>, with a negative position counted from the end.\<close>

definition slice_pos :: "js \<Rightarrow> int \<Rightarrow> nat" where
  "slice_pos s a = nat (if a < 0 then max 0 (int (length s) + a) else min a (int (length s)))"

definition js_slice :: "js \<Rightarrow> int \<Rightarrow> int \<Rightarrow> js" where
  "js_slice s a b = take (slice_pos s b - slice_pos s a) (drop (slice_pos s a) s)"

definition js_slice_from :: "js \<Rightarrow> int \<Rightarrow> js" where
  "js_slice_from s a = drop (slice_pos s a) s"

lemma js_slice_zero [simp]: "0 \<le> b \<Longrightarrow> js_slice s 0 b = take (nat b) s"
  by (auto simp: js_slice_def slice_pos_def min_def)

lemma js_slice_from_nonneg [simp]: "0 \<le> a \<Longrightarrow> js_slice_from s a = drop (nat a) s"
  by (auto simp: js_slice_from_def slice_pos_def min_def)

text \<open>\<open>s.lastIndexOf(b, pos)\<close>: the greatest occurrence that starts at or before \<open>pos\<close>.\<close>

fun last_at :: "js \<Rightarrow> js \<Rightarrow> nat \<Rightarrow> int" where
  "last_at s b 0 = (if prefix b s then 0 else -1)"
| "last_at s b (Suc k) =
     (if prefix b (drop (Suc k) s) then int (Suc k) else last_at s b k)"

definition last_index_of :: "js \<Rightarrow> js \<Rightarrow> int \<Rightarrow> int" where
  "last_index_of s b pos = last_at s b (nat (min (max pos 0) (int (length s))))"

lemma last_at_bounds: "-1 \<le> last_at s b k \<and> last_at s b k \<le> int k"
  by (induction k) auto

lemma last_at_occurs:
  "0 \<le> last_at s b k \<Longrightarrow> prefix b (drop (nat (last_at s b k)) s)"
  by (induction k) (auto split: if_splits simp del: nat_int of_nat_Suc simp: nat_int)

lemma last_at_greatest:
  "j \<le> k \<Longrightarrow> prefix b (drop j s) \<Longrightarrow> int j \<le> last_at s b k"
  by (induction k) (auto simp: le_Suc_eq)

lemma last_index_of_bounds:
  "-1 \<le> last_index_of s b pos" "0 \<le> pos \<Longrightarrow> last_index_of s b pos \<le> pos"
  "last_index_of s b pos \<le> int (length s)"
  using last_at_bounds [of s b "nat (min (max pos 0) (int (length s)))"]
  by (auto simp: last_index_of_def)

lemma last_index_of_occurs:
  "0 \<le> last_index_of s b pos \<Longrightarrow> prefix b (drop (nat (last_index_of s b pos)) s)"
  unfolding last_index_of_def by (rule last_at_occurs)

lemma last_index_of_greatest:
  "int j \<le> pos \<Longrightarrow> j \<le> length s \<Longrightarrow> prefix b (drop j s) \<Longrightarrow> int j \<le> last_index_of s b pos"
  unfolding last_index_of_def by (rule last_at_greatest) auto

text \<open>\<open>s.indexOf(b, pos)\<close>: the least occurrence that starts at or after \<open>pos\<close>.\<close>

fun index_in :: "js \<Rightarrow> js \<Rightarrow> nat \<Rightarrow> int" where
  "index_in b [] i = (if b = [] then int i else -1)"
| "index_in b (c # s) i = (if prefix b (c # s) then int i else index_in b s (Suc i))"

definition index_of :: "js \<Rightarrow> js \<Rightarrow> nat \<Rightarrow> int" where
  "index_of s b pos = (let p = min pos (length s) in index_in b (drop p s) p)"

section \<open>Surrogates\<close>

definition is_high :: "cu \<Rightarrow> bool" where
  "is_high c \<longleftrightarrow> 0xD800 \<le> c \<and> c \<le> 0xDBFF"

definition is_low :: "cu \<Rightarrow> bool" where
  "is_low c \<longleftrightarrow> 0xDC00 \<le> c \<and> c \<le> 0xDFFF"

text \<open>Well-formed UTF-16: every high surrogate is followed by a low one, and no low one is alone.\<close>

fun wf16 :: "js \<Rightarrow> bool" where
  "wf16 [] = True"
| "wf16 [c] = (\<not> is_high c \<and> \<not> is_low c)"
| "wf16 (c # d # s) =
     (if is_high c then is_low d \<and> wf16 s else \<not> is_low c \<and> wf16 (d # s))"

lemma high_not_low: "is_high c \<Longrightarrow> \<not> is_low c"
  by (auto simp: is_high_def is_low_def)

lemma wf16_Cons_plain: "\<not> is_high c \<Longrightarrow> wf16 (c # s) \<longleftrightarrow> \<not> is_low c \<and> wf16 s"
  by (cases s) auto

lemma wf16_hd_not_low: "wf16 (c # s) \<Longrightarrow> \<not> is_low c"
  by (cases s) (auto split: if_splits dest: high_not_low)

lemma wf16_low_pred: "wf16 s \<Longrightarrow> Suc k < length s \<Longrightarrow> is_low (s ! Suc k) \<Longrightarrow> is_high (s ! k)"
proof (induction s arbitrary: k rule: wf16.induct)
  case (3 c d s)
  show ?case
  proof (cases "is_high c")
    case high: True
    then have s: "is_low d" "wf16 s" using 3(3) by auto
    consider "k = 0" | "k = 1" | j where "k = Suc (Suc j)"
      by (metis One_nat_def not0_implies_Suc)
    then show ?thesis
    proof cases
      case 2
      with 3 s show ?thesis by (cases s) (auto dest: wf16_hd_not_low)
    qed (use 3 s high in auto)
  next
    case False
    with 3 show ?thesis by (cases k) (auto dest: wf16_hd_not_low)
  qed
qed auto

text \<open>Cutting a well-formed string before a unit that is no low surrogate leaves both halves so.\<close>

lemma wf16_split:
  assumes "wf16 s" "n < length s" "\<not> is_low (s ! n)"
  shows "wf16 (take n s)" "wf16 (drop n s)"
proof -
  have "wf16 (take n s) \<and> wf16 (drop n s)" using assms
  proof (induction s arbitrary: n rule: wf16.induct)
    case (3 c d s)
    show ?case
    proof (cases n)
      case (Suc m)
      show ?thesis
      proof (cases "is_high c")
        case True
        with 3 Suc show ?thesis by (cases m) auto
      next
        case False
        with 3 Suc have "wf16 (take m (d # s)) \<and> wf16 (drop m (d # s))" by auto
        with False 3 Suc show ?thesis by (simp add: wf16_Cons_plain)
      qed
    qed (use 3 in simp)
  qed auto
  then show "wf16 (take n s)" "wf16 (drop n s)" by auto
qed

lemma wf16_dropWhile:
  "wf16 s \<Longrightarrow> \<forall>c. P c \<longrightarrow> \<not> is_low c \<and> \<not> is_high c \<Longrightarrow> wf16 (dropWhile P s)"
  by (induction s) (auto simp: wf16_Cons_plain)

lemma space_not_surrogate: "is_space c \<Longrightarrow> \<not> is_low c \<and> \<not> is_high c"
  by (auto simp: is_space_def is_low_def is_high_def)

lemma wf16_trim_end: "wf16 s \<Longrightarrow> wf16 (trim_end s)"
proof -
  assume wf: "wf16 s"
  let ?n = "length s - length (takeWhile is_space (rev s))"
  have eq: "trim_end s = take ?n s"
    by (simp add: trim_end_def dropWhile_eq_drop rev_drop)
  show ?thesis
  proof (cases "?n < length s")
    case True
    let ?k = "length (takeWhile is_space (rev s))"
    have k: "0 < ?k" "?k \<le> length s" using True length_takeWhile_le [of is_space "rev s"] by auto
    then have "rev s ! (?k - 1) \<in> set (takeWhile is_space (rev s))"
      by (metis Suc_pred' lessI nth_mem takeWhile_nth)
    then have "is_space (rev s ! (?k - 1))" by (meson set_takeWhileD)
    moreover have "rev s ! (?k - 1) = s ! ?n"
    proof -
      have "?k - 1 < length s" "Suc (?k - 1) = ?k" using k by linarith+
      then show ?thesis by (metis rev_nth)
    qed
    ultimately have "is_space (s ! ?n)" by simp
    then show ?thesis unfolding eq using wf16_split(1) [OF wf True] space_not_surrogate by blast
  qed (simp add: eq wf)
qed

lemma wf16_js_trim: "wf16 s \<Longrightarrow> wf16 (js_trim s)"
  using space_not_surrogate
  by (auto simp: js_trim_def trim_start_def intro: wf16_trim_end wf16_dropWhile)

section \<open>Splitting at a character\<close>

text \<open>\<open>s.split(d)\<close> for a one-character separator.\<close>

fun split_on :: "cu \<Rightarrow> js \<Rightarrow> js list" where
  "split_on d [] = [[]]"
| "split_on d (c # s) =
     (if c = d then [] # split_on d s
      else case split_on d s of [] \<Rightarrow> [[c]] | f # fs \<Rightarrow> (c # f) # fs)"

lemma split_on_nonempty: "split_on d s \<noteq> []"
  by (induction s) (auto split: list.splits)

lemma split_on_field: "d \<notin> set f \<Longrightarrow> split_on d f = [f]"
  by (induction f) auto

lemma split_on_append: "d \<notin> set f \<Longrightarrow> split_on d (f @ d # s) = f # split_on d s"
  by (induction f) (auto split: list.splits)

lemma split_on_no_sep: "f \<in> set (split_on d s) \<Longrightarrow> d \<notin> set f"
  by (induction s arbitrary: f) (auto split: if_splits list.splits)

text \<open>\<open>indexOf\<close> a character and the two slices around it, when it occurs.\<close>

definition cut_at :: "cu \<Rightarrow> js \<Rightarrow> (js \<times> js) option" where
  "cut_at d s =
     (if d \<in> set s then Some (takeWhile (\<lambda>c. c \<noteq> d) s, tl (dropWhile (\<lambda>c. c \<noteq> d) s)) else None)"

lemma cut_at_found: "d \<notin> set h \<Longrightarrow> cut_at d (h @ d # t) = Some (h, t)"
  unfolding cut_at_def by (subst takeWhile_append2, force)+ (subst dropWhile_append2, force, simp)

lemma cut_at_absent: "cut_at d s = None \<longleftrightarrow> d \<notin> set s"
  by (simp add: cut_at_def)

lemma cut_at_SomeD: "cut_at d s = Some (h, t) \<Longrightarrow> s = h @ d # t \<and> d \<notin> set h"
proof -
  assume a: "cut_at d s = Some (h, t)"
  then have "d \<in> set s" by (simp add: cut_at_def split: if_splits)
  then obtain h' t' where s: "s = h' @ d # t'" "d \<notin> set h'" by (metis split_list_first)
  then show ?thesis using a cut_at_found [OF s(2), of t'] by simp
qed

lemma cut_at_shorter: "cut_at d s = Some (h, t) \<Longrightarrow> length t < length s"
  by (drule cut_at_SomeD) simp

text \<open>\<open>s.includes(sub)\<close>.\<close>

definition includes_str :: "js \<Rightarrow> js \<Rightarrow> bool" where
  "includes_str s sub \<longleftrightarrow> index_of s sub 0 \<noteq> -1"

end
