(* ===== verification/Chunk.thy ===== *)
theory Chunk
  imports JsString
begin

text \<open>
  \<open>packages/gateway/src/text/chunk.ts\<close>: the transport-agnostic text chunker. \<open>chunkText\<close> keeps the
  shape of the code, its argument checks as a sum and its \<open>while\<close> loop as a function that answers
  \<open>None\<close> when it does not return. The abstract specification is the relation \<open>chunking\<close>: some
  legal way to cut a text within a window; the loop refines it.

  \<open>stripLeading\<close> is a regular expression in the code and only ever an anchored run of one character
  class (\<open>/^\n+/\<close>, \<open>/^\s+/\<close>); it is that class here, and replacing the match by nothing is
  \<open>dropWhile\<close>.
\<close>

section \<open>Options\<close>

datatype last_resort = LastBoundary | Window

record chunk_options =
  opt_limit :: js_num
  opt_safeLimit :: "js_num option"
  opt_boundaries :: "js list option"
  opt_lastResort :: "last_resort option"
  opt_surrogateGuard :: "bool option"
  opt_stripLeading :: "(cu \<Rightarrow> bool) option"
  opt_trimParts :: "bool option"

definition limit_only :: "js_num \<Rightarrow> chunk_options" where
  "limit_only l = \<lparr>opt_limit = l, opt_safeLimit = None, opt_boundaries = None,
     opt_lastResort = None, opt_surrogateGuard = None, opt_stripLeading = None,
     opt_trimParts = None\<rparr>"

datatype range_error = NotPositiveInt string js_num | SafeAboveLimit int int

section \<open>Choosing a cut\<close>

definition nl_class :: "cu \<Rightarrow> bool" where
  "nl_class c \<longleftrightarrow> c = nl"

fun search_boundary :: "js \<Rightarrow> int \<Rightarrow> js list \<Rightarrow> int \<Rightarrow> int" where
  "search_boundary remaining window [] c = c"
| "search_boundary remaining window (b # bs) c =
     (let c' = last_index_of remaining b window
      in if window \<le> 2 * c' then c' else search_boundary remaining window bs c')"

definition searchBoundary :: "js \<Rightarrow> int \<Rightarrow> js list \<Rightarrow> int" where
  "searchBoundary remaining window boundaries = search_boundary remaining window boundaries window"

definition assertPositiveInt :: "string \<Rightarrow> js_num \<Rightarrow> range_error + int" where
  "assertPositiveInt label v =
     (case v of JNonInt \<Rightarrow> Inl (NotPositiveInt label v)
      | JInt n \<Rightarrow> if n \<le> 0 then Inl (NotPositiveInt label v) else Inr n)"

definition guardSurrogate :: "js \<Rightarrow> int \<Rightarrow> int" where
  "guardSurrogate text c =
     (if int (length text) \<le> c then c
      else if 0 \<le> c \<and> is_low (text ! nat c) then c - 1 else c)"

definition findCut :: "js \<Rightarrow> int \<Rightarrow> js list \<Rightarrow> last_resort \<Rightarrow> bool \<Rightarrow> int" where
  "findCut remaining window boundaries lastResort surrogateGuard =
     (let c0 = searchBoundary remaining window boundaries;
          c1 = (if 2 * c0 < window
                then (if lastResort = LastBoundary \<and> 0 < c0 then c0 else window) else c0);
          c2 = (if surrogateGuard then guardSurrogate remaining c1 else c1)
      in if c2 \<le> 0 then window else c2)"

section \<open>The chunker\<close>

partial_function (option) chunk_loop ::
  "int \<Rightarrow> js list \<Rightarrow> last_resort \<Rightarrow> bool \<Rightarrow> (cu \<Rightarrow> bool) \<Rightarrow> js list \<Rightarrow> js \<Rightarrow> js list option" where
  "chunk_loop safeLimit boundaries lastResort surrogateGuard stripLeading parts remaining =
     (if safeLimit < int (length remaining)
      then let c = findCut remaining safeLimit boundaries lastResort surrogateGuard
           in chunk_loop safeLimit boundaries lastResort surrogateGuard stripLeading
                (parts @ [js_slice remaining 0 c])
                (dropWhile stripLeading (js_slice_from remaining c))
      else Some (if 0 < length remaining then parts @ [remaining] else parts))"

declare chunk_loop.simps [code]

definition finalize :: "bool \<Rightarrow> js list \<Rightarrow> js list" where
  "finalize trimParts parts =
     (if trimParts then filter (\<lambda>p. 0 < length p) (map js_trim parts) else parts)"

text \<open>The destructuring defaults of \<open>chunkText\<close>.\<close>

definition safeLimit_of :: "chunk_options \<Rightarrow> js_num" where
  "safeLimit_of opts = (case opt_safeLimit opts of None \<Rightarrow> opt_limit opts | Some n \<Rightarrow> n)"

definition boundaries_of :: "chunk_options \<Rightarrow> js list" where
  "boundaries_of opts =
     (case opt_boundaries opts of None \<Rightarrow> [[nl, nl], [nl], [sp]] | Some bs \<Rightarrow> bs)"

definition lastResort_of :: "chunk_options \<Rightarrow> last_resort" where
  "lastResort_of opts = (case opt_lastResort opts of None \<Rightarrow> Window | Some r \<Rightarrow> r)"

definition surrogateGuard_of :: "chunk_options \<Rightarrow> bool" where
  "surrogateGuard_of opts = (case opt_surrogateGuard opts of None \<Rightarrow> False | Some g \<Rightarrow> g)"

definition stripLeading_of :: "chunk_options \<Rightarrow> cu \<Rightarrow> bool" where
  "stripLeading_of opts = (case opt_stripLeading opts of None \<Rightarrow> nl_class | Some c \<Rightarrow> c)"

definition trimParts_of :: "chunk_options \<Rightarrow> bool" where
  "trimParts_of opts = (case opt_trimParts opts of None \<Rightarrow> False | Some t \<Rightarrow> t)"

definition chunkText :: "js \<Rightarrow> chunk_options \<Rightarrow> (range_error + js list) option" where
  "chunkText text opts =
     (case assertPositiveInt ''chunkText: limit'' (opt_limit opts) of
        Inl e \<Rightarrow> Some (Inl e)
      | Inr limit \<Rightarrow>
     (case assertPositiveInt ''chunkText: safeLimit'' (safeLimit_of opts) of
        Inl e \<Rightarrow> Some (Inl e)
      | Inr safe \<Rightarrow>
      if limit < safe then Some (Inl (SafeAboveLimit safe limit))
      else if int (length text) \<le> limit then Some (Inr (finalize (trimParts_of opts) [text]))
      else map_option (\<lambda>parts. Inr (finalize (trimParts_of opts) parts))
             (chunk_loop safe (boundaries_of opts) (lastResort_of opts) (surrogateGuard_of opts)
                (stripLeading_of opts) [] text)))"

section \<open>The grapheme chunker\<close>

text \<open>
  \<open>Intl.Segmenter\<close> is the runtime's: \<open>chunkByGrapheme\<close> takes the function \<open>seg\<close> that splits a text into
  its grapheme clusters. What the code relies on is the documented behaviour \<open>is_segmenter\<close>: the
  segments are non-empty and spell the text.
\<close>

definition is_segmenter :: "(js \<Rightarrow> js list) \<Rightarrow> bool" where
  "is_segmenter seg \<longleftrightarrow> (\<forall>t. concat (seg t) = t \<and> [] \<notin> set (seg t))"

fun grapheme_walk :: "int \<Rightarrow> js list \<Rightarrow> js \<Rightarrow> js list \<Rightarrow> js list" where
  "grapheme_walk partLimit [] buf parts = (if 0 < length buf then parts @ [buf] else parts)"
| "grapheme_walk partLimit (segment # segs) buf parts =
     (if partLimit < int (length buf + length segment)
      then grapheme_walk partLimit segs segment (if 0 < length buf then parts @ [buf] else parts)
      else grapheme_walk partLimit segs (buf @ segment) parts)"

definition chunkByGrapheme ::
  "(js \<Rightarrow> js list) \<Rightarrow> js \<Rightarrow> js_num \<Rightarrow> js_num option \<Rightarrow> range_error + js list" where
  "chunkByGrapheme seg text limit partLimit =
     (case assertPositiveInt ''chunkByGrapheme: limit'' limit of
        Inl e \<Rightarrow> Inl e
      | Inr l \<Rightarrow>
     (case assertPositiveInt ''chunkByGrapheme: partLimit''
             (case partLimit of None \<Rightarrow> limit | Some p \<Rightarrow> p) of
        Inl e \<Rightarrow> Inl e
      | Inr pl \<Rightarrow>
      if text = [] then Inr [[]]
      else if int (length text) \<le> l then Inr [text]
      else Inr (grapheme_walk pl (seg text) [] [])))"

section \<open>What a cut promises\<close>

lemma search_boundary_le:
  "0 \<le> w \<Longrightarrow> c \<le> w \<Longrightarrow> search_boundary r w bs c \<le> w"
  by (induction bs arbitrary: c) (auto simp: Let_def last_index_of_bounds(2))

lemma searchBoundary_le: "0 \<le> w \<Longrightarrow> searchBoundary r w bs \<le> w"
  by (simp add: searchBoundary_def search_boundary_le)

lemma guardSurrogate_le: "guardSurrogate t c \<le> c"
  by (simp add: guardSurrogate_def)

lemma findCut_bounds:
  assumes "0 < w"
  shows "0 < findCut r w bs lr g" "findCut r w bs lr g \<le> w"
proof -
  have "searchBoundary r w bs \<le> w" using assms by (simp add: searchBoundary_le)
  then show "findCut r w bs lr g \<le> w"
    using guardSurrogate_le [of r "searchBoundary r w bs"] guardSurrogate_le [of r w]
    unfolding findCut_def Let_def by (auto split: if_splits)
  show "0 < findCut r w bs lr g" using assms by (auto simp: findCut_def Let_def)
qed

text \<open>
  The cut in terms of the preference order: when some boundary's last occurrence within the window
  reaches half of it, and no earlier one in the list does, that occurrence is chosen.
\<close>

lemma search_boundary_preferred:
  assumes "\<forall>b\<in>set bs1. 2 * last_index_of r b w < w" "w \<le> 2 * last_index_of r b w"
  shows "search_boundary r w (bs1 @ b # bs2) c = last_index_of r b w"
  using assms by (induction bs1 arbitrary: c) (auto simp: Let_def)

section \<open>Specification: a legal chunking\<close>

inductive chunking :: "(cu \<Rightarrow> bool) \<Rightarrow> nat \<Rightarrow> js \<Rightarrow> js list \<Rightarrow> bool" for strip w where
  chunking_rest: "length r \<le> w \<Longrightarrow> chunking strip w r (if r = [] then [] else [r])"
| chunking_cut: "w < length r \<Longrightarrow> 0 < c \<Longrightarrow> c \<le> w \<Longrightarrow>
     chunking strip w (dropWhile strip (drop c r)) ps \<Longrightarrow> chunking strip w r (take c r # ps)"

lemma chunking_parts:
  "chunking strip w r ps \<Longrightarrow> p \<in> set ps \<Longrightarrow> p \<noteq> [] \<and> length p \<le> w"
  by (induction rule: chunking.induct) (auto split: if_splits)

lemma chunking_content:
  "chunking strip w r ps \<Longrightarrow>
   filter (\<lambda>c. \<not> strip c) (concat ps) = filter (\<lambda>c. \<not> strip c) r"
proof (induction rule: chunking.induct)
  case (chunking_cut r c ps)
  then show ?case by (simp add: take_append_filter)
qed auto

lemma chunking_subseq: "chunking strip w r ps \<Longrightarrow> subseq (concat ps) r"
proof (induction rule: chunking.induct)
  case (chunking_cut r c ps)
  have "subseq (concat ps) (drop c r)"
    using chunking_cut.IH subseq_dropWhile by (rule subseq_order.order_trans)
  then have "subseq (take c r @ concat ps) (take c r @ drop c r)"
    by (rule list_emb_append_mono [OF subseq_order.order_refl])
  then show ?case by simp
qed auto

section \<open>The loop refines the specification\<close>

lemma chunk_loop_stop:
  "int (length r) \<le> w \<Longrightarrow>
   chunk_loop w bs lr g strip parts r = Some (parts @ (if r = [] then [] else [r]))"
  by (subst chunk_loop.simps) auto

lemma chunk_loop_step:
  "w < int (length r) \<Longrightarrow> 0 < w \<Longrightarrow>
   chunk_loop w bs lr g strip parts r =
     chunk_loop w bs lr g strip (parts @ [take (nat (findCut r w bs lr g)) r])
       (dropWhile strip (drop (nat (findCut r w bs lr g)) r))"
  using findCut_bounds(1) [of w r bs lr g]
  by (subst chunk_loop.simps) (simp add: Let_def)

lemma chunk_loop_refines:
  assumes "0 < w"
  shows "\<exists>ps. chunk_loop w bs lr g strip parts r = Some (parts @ ps) \<and> chunking strip (nat w) r ps"
proof (induction r arbitrary: parts rule: length_induct)
  case (1 r)
  show ?case
  proof (cases "w < int (length r)")
    case False
    then show ?thesis
      using chunking_rest [of r "nat w" strip] by (auto simp: chunk_loop_stop)
  next
    case True
    let ?c = "nat (findCut r w bs lr g)"
    have c: "0 < ?c" "?c \<le> nat w" using findCut_bounds [OF assms, of r bs lr g] by auto
    have "length (dropWhile strip (drop ?c r)) < length r"
      using c True assms dropWhile_le_length [of strip "drop ?c r"] by auto
    then obtain ps where
      "chunk_loop w bs lr g strip (parts @ [take ?c r]) (dropWhile strip (drop ?c r)) =
         Some ((parts @ [take ?c r]) @ ps)"
      and ps: "chunking strip (nat w) (dropWhile strip (drop ?c r)) ps"
      using "1.IH" by blast
    moreover have "chunking strip (nat w) r (take ?c r # ps)"
      using c True ps by (intro chunking_cut) auto
    ultimately show ?thesis using True assms by (auto simp: chunk_loop_step)
  qed
qed

section \<open>Surrogate pairs\<close>

lemma guardSurrogate_not_low:
  assumes "wf16 r" "c < int (length r)" "0 \<le> c" "0 < guardSurrogate r c"
  shows "\<not> is_low (r ! nat (guardSurrogate r c))"
proof (cases "is_low (r ! nat c)")
  case True
  then have g: "guardSurrogate r c = c - 1" using assms by (simp add: guardSurrogate_def)
  obtain k where k: "nat c = Suc k" "nat (c - 1) = k"
    using assms g by (cases "nat c") auto
  have "is_high (r ! k)" using wf16_low_pred [OF \<open>wf16 r\<close>, of k] True k assms by auto
  then show ?thesis using high_not_low k g by auto
qed (use assms in \<open>auto simp: guardSurrogate_def\<close>)

lemma searchBoundary_cases:
  "searchBoundary r w bs = w \<or> (\<exists>b\<in>set bs. searchBoundary r w bs = last_index_of r b w)"
proof -
  have "search_boundary r w bs c = c \<or> (\<exists>b\<in>set bs. search_boundary r w bs c = last_index_of r b w)"
    for c
    by (induction bs arbitrary: c) (auto simp: Let_def)
  then show ?thesis by (simp add: searchBoundary_def)
qed

definition sound_boundaries :: "js list \<Rightarrow> bool" where
  "sound_boundaries bs \<longleftrightarrow> (\<forall>b\<in>set bs. b \<noteq> [] \<and> \<not> is_low (hd b))"

lemma last_index_of_not_low:
  assumes "b \<noteq> []" "\<not> is_low (hd b)" "0 \<le> last_index_of r b w"
  shows "nat (last_index_of r b w) < length r"
    and "\<not> is_low (r ! nat (last_index_of r b w))"
proof -
  let ?i = "nat (last_index_of r b w)"
  have pre: "prefix b (drop ?i r)" using assms(3) by (rule last_index_of_occurs)
  then have ne: "drop ?i r \<noteq> []" using assms(1) by auto
  then show lt: "?i < length r" by simp
  from pre assms(1) have "hd (drop ?i r) = hd b" by (auto simp: prefix_def)
  with lt have "r ! ?i = hd b" by (simp add: hd_drop_conv_nth)
  with assms(2) show "\<not> is_low (r ! ?i)" by simp
qed

lemma findCut_not_low:
  assumes "wf16 r" "sound_boundaries bs" "2 \<le> w" "w < int (length r)"
  shows "\<not> is_low (r ! nat (findCut r w bs lr True))"
proof -
  define c0 where "c0 = searchBoundary r w bs"
  define c1 where "c1 = (if 2 * c0 < w then (if lr = LastBoundary \<and> 0 < c0 then c0 else w) else c0)"
  have le: "c0 \<le> w" using assms by (simp add: c0_def searchBoundary_le)
  have fc: "findCut r w bs lr True = (if guardSurrogate r c1 \<le> 0 then w else guardSurrogate r c1)"
    by (simp add: findCut_def Let_def c1_def c0_def)
  have c1: "c1 = w \<or> (0 < c1 \<and> \<not> is_low (r ! nat c1))"
  proof (cases "c1 = w")
    case False
    then have "c1 = c0" "0 < c0" using assms(3) by (auto simp: c1_def split: if_splits)
    moreover have "\<not> is_low (r ! nat c0)"
    proof -
      from searchBoundary_cases [of r w bs] False \<open>c1 = c0\<close>
      obtain b where b: "b \<in> set bs" "c0 = last_index_of r b w" by (auto simp: c0_def)
      with assms(2) have "b \<noteq> []" "\<not> is_low (hd b)" by (auto simp: sound_boundaries_def)
      then show ?thesis using b \<open>0 < c0\<close> last_index_of_not_low(2) [of b r w] by simp
    qed
    ultimately show ?thesis by simp
  qed auto
  have c1w: "0 < c1" "c1 \<le> w" using c1 assms(3) le by (auto simp: c1_def split: if_splits)
  have g: "0 < guardSurrogate r c1"
  proof (cases "c1 = w")
    case True
    then show ?thesis using assms by (auto simp: guardSurrogate_def)
  next
    case False
    with c1 c1w assms show ?thesis by (auto simp: guardSurrogate_def)
  qed
  with fc guardSurrogate_not_low [OF assms(1), of c1] c1w assms(4)
  show ?thesis by auto
qed

lemma chunk_loop_wf16:
  assumes "2 \<le> w" "sound_boundaries bs" "\<forall>c. strip c \<longrightarrow> \<not> is_low c \<and> \<not> is_high c"
    and "wf16 r" "chunk_loop w bs lr True strip parts r = Some ps" "\<forall>p\<in>set parts. wf16 p"
  shows "\<forall>p\<in>set ps. wf16 p"
  using assms(4-)
proof (induction r arbitrary: parts rule: length_induct)
  case (1 r)
  show ?case
  proof (cases "w < int (length r)")
    case False
    then show ?thesis using "1.prems" by (auto simp: chunk_loop_stop split: if_splits)
  next
    case True
    let ?c = "nat (findCut r w bs lr True)"
    have c: "0 < ?c" "?c \<le> nat w"
      using findCut_bounds [of w r bs lr True] assms(1) by auto
    have lt: "?c < length r" using c True by auto
    have low: "\<not> is_low (r ! ?c)"
      using findCut_not_low [OF "1.prems"(1) assms(2,1) True, of lr] .
    have less: "length (dropWhile strip (drop ?c r)) < length r"
      using c lt dropWhile_le_length [of strip "drop ?c r"] by auto
    have wf: "wf16 (take ?c r)" "wf16 (dropWhile strip (drop ?c r))"
      using wf16_split [OF "1.prems"(1) lt low] wf16_dropWhile assms(3) by auto
    have w: "0 < w" using assms(1) by simp
    have "chunk_loop w bs lr True strip (parts @ [take ?c r])
            (dropWhile strip (drop ?c r)) = Some ps"
      using "1.prems"(2) by (simp only: chunk_loop_step [OF True w])
    moreover have "\<forall>p\<in>set (parts @ [take ?c r]). wf16 p" using "1.prems"(3) wf by auto
    ultimately show ?thesis using "1.IH"[rule_format, OF less wf(2)] by blast
  qed
qed

lemma finalize_wf16: "\<forall>p\<in>set ps. wf16 p \<Longrightarrow> p \<in> set (finalize t ps) \<Longrightarrow> wf16 p"
  by (auto simp: finalize_def wf16_js_trim split: if_splits)

section \<open>The chunker as a whole\<close>

lemma assertPositiveInt_Inr_iff: "assertPositiveInt l v = Inr n \<longleftrightarrow> v = JInt n \<and> 0 < n"
  by (auto simp: assertPositiveInt_def split: js_num.splits)

text \<open>What \<open>chunkText\<close> returns when its arguments are accepted.\<close>

lemma chunkText_accepts:
  assumes "opt_limit opts = JInt l" "safeLimit_of opts = JInt w" "0 < w" "w \<le> l"
  obtains qs where "chunkText t opts = Some (Inr (finalize (trimParts_of opts) qs))"
    and "if int (length t) \<le> l then qs = [t]
         else chunking (stripLeading_of opts) (nat w) t qs \<and>
              chunk_loop w (boundaries_of opts) (lastResort_of opts) (surrogateGuard_of opts)
                (stripLeading_of opts) [] t = Some qs"
proof -
  obtain qs where qs: "chunk_loop w (boundaries_of opts) (lastResort_of opts)
      (surrogateGuard_of opts) (stripLeading_of opts) [] t = Some qs"
    "chunking (stripLeading_of opts) (nat w) t qs"
    using chunk_loop_refines [OF assms(3), of "boundaries_of opts" "lastResort_of opts"
        "surrogateGuard_of opts" "stripLeading_of opts" "[]" t] by auto
  have "assertPositiveInt x (JInt l) = Inr l" "assertPositiveInt x (JInt w) = Inr w" for x
    using assms by (simp_all add: assertPositiveInt_Inr_iff)
  then show ?thesis
    using that [of "if int (length t) \<le> l then [t] else qs"] qs assms
    by (auto simp: chunkText_def)
qed

lemma chunkText_Inr_args:
  assumes "chunkText t opts = Some (Inr ps)"
  obtains l w where "opt_limit opts = JInt l" "safeLimit_of opts = JInt w" "0 < w" "w \<le> l"
  using assms unfolding chunkText_def
  by (fastforce simp: assertPositiveInt_Inr_iff split: sum.splits if_splits)

lemma chunkText_returns: "\<exists>r. chunkText t opts = Some r"
proof (cases "\<exists>l w. opt_limit opts = JInt l \<and> safeLimit_of opts = JInt w \<and> 0 < w \<and> w \<le> l")
  case True
  then show ?thesis by (metis chunkText_accepts)
next
  case False
  then show ?thesis unfolding chunkText_def
    by (auto simp: assertPositiveInt_Inr_iff split: sum.splits)
qed

lemma chunkText_legal:
  assumes "chunkText t opts = Some (Inr ps)"
  obtains l w qs where "opt_limit opts = JInt l" "safeLimit_of opts = JInt w" "0 < w" "w \<le> l"
    "ps = finalize (trimParts_of opts) qs"
    "if int (length t) \<le> l then qs = [t] else chunking (stripLeading_of opts) (nat w) t qs"
  using assms by (metis chunkText_Inr_args chunkText_accepts option.inject sum.inject(2))

lemma finalize_length: "p \<in> set (finalize b qs) \<Longrightarrow> \<exists>q\<in>set qs. length p \<le> length q"
  using js_trim_length by (auto simp: finalize_def split: if_splits)

lemma chunkText_bounded:
  assumes "chunkText t opts = Some (Inr ps)" "opt_limit opts = JInt l" "p \<in> set ps"
  shows "int (length p) \<le> l"
proof -
  from assms(1) obtain l' w qs where *: "opt_limit opts = JInt l'" "w \<le> l'" "0 < w"
    "ps = finalize (trimParts_of opts) qs"
    "if int (length t) \<le> l' then qs = [t] else chunking (stripLeading_of opts) (nat w) t qs"
    by (rule chunkText_legal)
  with assms(2,3) obtain q where "q \<in> set qs" "length p \<le> length q"
    using finalize_length by blast
  then show ?thesis using * assms(2) chunking_parts
    by (cases "int (length t) \<le> l'") (auto, fastforce)
qed

lemma finalize_content:
  assumes "\<And>c. T \<Longrightarrow> is_space c \<Longrightarrow> \<not> P c"
  shows "filter P (concat (finalize T qs)) = filter P (concat qs)"
proof (cases T)
  case True
  have P: "filter P s = filter P (filter (\<lambda>c. \<not> is_space c) s)" for s
    using assms True by (auto simp: filter_filter intro: filter_cong)
  have "filter P (js_trim q) = filter P q" for q
    by (subst (1 2) P) simp
  moreover have "concat (filter (\<lambda>p. 0 < length p) ps) = concat ps" for ps :: "js list"
    by (induction ps) auto
  ultimately show ?thesis using True
    by (simp add: finalize_def filter_concat comp_def)
qed (simp add: finalize_def)

text \<open>Nothing but the stripped class, and white space when parts are trimmed, is ever dropped.\<close>

definition droppable :: "chunk_options \<Rightarrow> cu \<Rightarrow> bool" where
  "droppable opts c \<longleftrightarrow> stripLeading_of opts c \<or> trimParts_of opts \<and> is_space c"

lemma chunkText_content:
  assumes "chunkText t opts = Some (Inr ps)"
  shows "filter (\<lambda>c. \<not> droppable opts c) (concat ps) = filter (\<lambda>c. \<not> droppable opts c) t"
proof -
  let ?P = "\<lambda>c. \<not> droppable opts c" and ?S = "\<lambda>c. \<not> stripLeading_of opts c"
  from assms obtain l w qs where *: "ps = finalize (trimParts_of opts) qs"
    "if int (length t) \<le> l then qs = [t] else chunking (stripLeading_of opts) (nat w) t qs"
    by (rule chunkText_legal)
  have eq: "filter ?P s = filter ?P (filter ?S s)" for s
    by (auto simp: filter_filter droppable_def intro: filter_cong)
  have "filter ?S (concat qs) = filter ?S t"
    using *(2) chunking_content by (auto split: if_splits)
  then have "filter ?P (concat qs) = filter ?P t" by (metis eq)
  then show ?thesis using *(1) by (simp add: finalize_content droppable_def)
qed

text \<open>With the surrogate guard on, a window of at least two units and the boundaries the adapters use.\<close>

lemma chunkText_wf16:
  assumes "chunkText t opts = Some (Inr ps)" "wf16 t"
    and "surrogateGuard_of opts" "safeLimit_of opts = JInt w" "2 \<le> w"
    and "sound_boundaries (boundaries_of opts)"
    and "\<forall>c. stripLeading_of opts c \<longrightarrow> \<not> is_low c \<and> \<not> is_high c"
  shows "\<forall>p\<in>set ps. wf16 p"
proof -
  obtain l where l: "opt_limit opts = JInt l" "w \<le> l"
    using chunkText_Inr_args [OF assms(1)] assms(4) by auto
  obtain qs where qs: "chunkText t opts = Some (Inr (finalize (trimParts_of opts) qs))"
    "if int (length t) \<le> l then qs = [t]
     else chunking (stripLeading_of opts) (nat w) t qs \<and>
          chunk_loop w (boundaries_of opts) (lastResort_of opts) (surrogateGuard_of opts)
            (stripLeading_of opts) [] t = Some qs"
    using chunkText_accepts [OF l(1) assms(4) _ l(2)] assms(5) by auto
  have "\<forall>q\<in>set qs. wf16 q"
    using qs(2) assms(2,3,5-7) chunk_loop_wf16 [of w "boundaries_of opts" "stripLeading_of opts" t
        "lastResort_of opts" "[]" qs]
    by (auto split: if_splits)
  then show ?thesis using qs(1) assms(1) finalize_wf16 by auto
qed

section \<open>The grapheme chunker\<close>

text \<open>
  The walk groups consecutive segments: its output is \<open>map concat\<close> of a partition of the segments
  into blocks, each block within the limit or a single segment.
\<close>

lemma grapheme_walk_blocks:
  assumes "[] \<notin> set segs"
    and "buf = concat b" "[] \<notin> set b" "int (length buf) \<le> pl \<or> (\<exists>s. b = [s])"
  shows "\<exists>bs. grapheme_walk pl segs buf parts = parts @ map concat bs \<and> concat bs = b @ segs \<and>
           (\<forall>x\<in>set bs. x \<noteq> [] \<and> (int (length (concat x)) \<le> pl \<or> (\<exists>s. x = [s])))"
  using assms
proof (induction segs arbitrary: buf b parts)
  case Nil
  then show ?case by (cases b) (auto intro: exI [of _ "[b]"] exI [of _ "[]"])
next
  case (Cons s segs)
  show ?case
  proof (cases "pl < int (length buf + length s)")
    case True
    let ?parts = "if 0 < length buf then parts @ [buf] else parts"
    obtain bs where bs: "grapheme_walk pl segs s ?parts = ?parts @ map concat bs"
      "concat bs = [s] @ segs"
      "\<forall>x\<in>set bs. x \<noteq> [] \<and> (int (length (concat x)) \<le> pl \<or> (\<exists>s. x = [s]))"
      using Cons.IH [of s "[s]" ?parts] Cons.prems(1) by auto
    define bs' where "bs' = (if b = [] then bs else b # bs)"
    have "0 < length buf \<longleftrightarrow> b \<noteq> []" using Cons.prems(2,3) by (cases b) auto
    then have "grapheme_walk pl (s # segs) buf parts = parts @ map concat bs'"
      using bs(1) True Cons.prems(2) by (simp add: bs'_def split: if_splits)
    moreover have "concat bs' = b @ s # segs" using bs(2) by (simp add: bs'_def)
    moreover have "\<forall>x\<in>set bs'. x \<noteq> [] \<and> (int (length (concat x)) \<le> pl \<or> (\<exists>s. x = [s]))"
      using bs(3) Cons.prems(2,4) by (simp add: bs'_def)
    ultimately show ?thesis by blast
  next
    case False
    then show ?thesis
      using Cons.IH [of "buf @ s" "b @ [s]" parts] Cons.prems by auto
  qed
qed

lemma chunkByGrapheme_blocks:
  assumes "is_segmenter seg" "chunkByGrapheme seg t limit partLimit = Inr ps"
  obtains l pl where "limit = JInt l" "(case partLimit of None \<Rightarrow> limit | Some p \<Rightarrow> p) = JInt pl"
    "0 < l" "0 < pl"
    "int (length t) \<le> l \<and> ps = [t] \<or>
     l < int (length t) \<and> (\<exists>bs. ps = map concat bs \<and> concat bs = seg t \<and>
       (\<forall>x\<in>set bs. x \<noteq> [] \<and> (int (length (concat x)) \<le> pl \<or> (\<exists>s. x = [s]))))"
proof -
  from assms(2) obtain l pl where args: "limit = JInt l" "0 < l" "0 < pl"
    "(case partLimit of None \<Rightarrow> limit | Some p \<Rightarrow> p) = JInt pl"
    and ps: "ps = (if int (length t) \<le> l then [t] else grapheme_walk pl (seg t) [] [])"
    unfolding chunkByGrapheme_def
    by (fastforce simp: assertPositiveInt_Inr_iff split: sum.splits if_splits)
  have "\<exists>bs. grapheme_walk pl (seg t) [] [] = [] @ map concat bs \<and> concat bs = [] @ seg t \<and>
     (\<forall>x\<in>set bs. x \<noteq> [] \<and> (int (length (concat x)) \<le> pl \<or> (\<exists>s. x = [s])))"
    using assms(1) args(3) by (intro grapheme_walk_blocks) (auto simp: is_segmenter_def)
  then show ?thesis using that args ps by (auto split: if_splits)
qed

lemma chunkByGrapheme_concat:
  assumes "is_segmenter seg" "chunkByGrapheme seg t limit partLimit = Inr ps"
  shows "concat ps = t"
proof -
  have "concat (map concat bs) = concat (concat bs)" for bs :: "js list list"
    by (induction bs) auto
  moreover have "concat (seg t) = t" using assms(1) by (simp add: is_segmenter_def)
  ultimately show ?thesis
    by (rule_tac chunkByGrapheme_blocks [OF assms]) auto
qed

section \<open>Properties\<close>

text \<open>
  For every input \<open>chunkText\<close> returns, whatever the options: its argument checks leave no way for
  the cutting loop to run forever. It refuses exactly a limit or a window that is not a positive
  integer, and a window above the limit.
\<close>
theorem chunkText_total:
  "(\<exists>r. chunkText t opts = Some r) \<and>
   ((\<exists>ps. chunkText t opts = Some (Inr ps)) \<longleftrightarrow>
    (\<exists>l w. opt_limit opts = JInt l \<and> safeLimit_of opts = JInt w \<and> 0 < w \<and> w \<le> l))"
  using chunkText_returns by (metis chunkText_Inr_args chunkText_accepts)

text \<open>
  C4: no part \<open>chunkText\<close> returns is longer than the hard cap, and the parts, joined, are the text
  less nothing but units of the stripped class (and white space when parts are trimmed): nothing
  else is lost, repeated or reordered.
\<close>
theorem chunkText_bounded_and_complete:
  assumes "chunkText t opts = Some (Inr ps)" "opt_limit opts = JInt l"
  shows "(\<forall>p\<in>set ps. int (length p) \<le> l) \<and>
    filter (\<lambda>c. \<not> droppable opts c) (concat ps) = filter (\<lambda>c. \<not> droppable opts c) t"
  using assms chunkText_bounded chunkText_content by blast

theorem chunkText_bounded_and_complete_witness:
  "chunkText (lit ''ab cd'') (limit_only (JInt 4)) = Some (Inr [lit ''ab'', lit '' cd'']) \<and>
   list_all (\<lambda>p. int (length p) \<le> 4) [lit ''ab'', lit '' cd'']"
proof -
  have run: "chunkText (lit ''ab cd'') (limit_only (JInt 4)) = Some (Inr [lit ''ab'', lit '' cd''])"
    by code_simp
  show ?thesis
    using run chunkText_bounded_and_complete [OF run, of 4] by (simp add: limit_only_def)
qed

end
