(* ===== verification/Splitters.thy ===== *)
theory Splitters
  imports Chunk
begin

text \<open>
  The adapters' text splitters over the core chunkers: Discord, Slack, Teams, WhatsApp and
  Mattermost over \<open>chunkText\<close>, LINE over \<open>chunkByGrapheme\<close>, and Nextcloud Talk's own cut by code
  points. The locale \<open>splitter\<close> is what an adapter's send loop relies on: the call returns, every
  part fits the platform's cap, and nothing but droppable units is lost. It is interpreted on every
  splitter below.
\<close>

section \<open>The contract\<close>

locale splitter =
  fixes splits :: "js \<Rightarrow> js list \<Rightarrow> bool"
    and psize :: "js \<Rightarrow> int"
    and cap :: int
    and drops :: "cu \<Rightarrow> bool"
  assumes splits_total: "\<exists>ps. splits t ps"
    and splits_unique: "splits t ps \<Longrightarrow> splits t qs \<Longrightarrow> ps = qs"
    and splits_fit: "splits t ps \<Longrightarrow> p \<in> set ps \<Longrightarrow> psize p \<le> cap"
    and splits_content: "splits t ps \<Longrightarrow>
      filter (\<lambda>c. \<not> drops c) (concat ps) = filter (\<lambda>c. \<not> drops c) t"
begin

lemma splits_ex1: "\<exists>!ps. splits t ps"
  using splits_total splits_unique by blast

lemma splits_some_part:
  assumes "splits t ps" "c \<in> set t" "\<not> drops c"
  shows "\<exists>p\<in>set ps. c \<in> set p"
proof -
  have "c \<in> set (filter (\<lambda>c. \<not> drops c) (concat ps))"
    unfolding splits_content [OF assms(1)] using assms(2,3) by simp
  then show ?thesis by auto
qed

lemma splits_nonempty:
  "splits t ps \<Longrightarrow> \<exists>c\<in>set t. \<not> drops c \<Longrightarrow> ps \<noteq> []"
  using splits_some_part by fastforce

end

section \<open>Discord\<close>

definition discord_boundaries :: "js_num \<Rightarrow> js_num \<Rightarrow> chunk_options" where
  "discord_boundaries limit safe = (limit_only limit)
     \<lparr>opt_safeLimit := Some safe, opt_boundaries := Some [[nl, nl], [nl]],
      opt_lastResort := Some Window, opt_stripLeading := Some nl_class\<rparr>"

definition DISCORD_MAX_MESSAGE :: int where "DISCORD_MAX_MESSAGE = 2000"
definition SAFE_DISCORD_CHUNK :: int where "SAFE_DISCORD_CHUNK = 1900"

definition splitForDiscord :: "js \<Rightarrow> (range_error + js list) option" where
  "splitForDiscord text =
     chunkText text (discord_boundaries (JInt DISCORD_MAX_MESSAGE) (JInt SAFE_DISCORD_CHUNK))"

definition splitForEscapedDiscord :: "js \<Rightarrow> (range_error + js list) option" where
  "splitForEscapedDiscord text =
     chunkText text (discord_boundaries (JInt (DISCORD_MAX_MESSAGE div 2))
       (JInt (SAFE_DISCORD_CHUNK div 2)))"

section \<open>Slack, Teams, WhatsApp\<close>

definition slack_family :: "int \<Rightarrow> chunk_options" where
  "slack_family limit = (limit_only (JInt limit))
     \<lparr>opt_boundaries := Some [[nl, nl], [nl], [sp]], opt_lastResort := Some LastBoundary,
      opt_surrogateGuard := Some True, opt_stripLeading := Some is_space\<rparr>"

definition splitForSlack :: "js \<Rightarrow> (range_error + js list) option" where
  "splitForSlack text = chunkText text (slack_family 4000)"

definition splitForTeams :: "js \<Rightarrow> (range_error + js list) option" where
  "splitForTeams text = chunkText text ((slack_family 8000)\<lparr>opt_trimParts := Some True\<rparr>)"

definition splitForWhatsApp :: "js \<Rightarrow> (range_error + js list) option" where
  "splitForWhatsApp text = chunkText text ((slack_family 4096)\<lparr>opt_trimParts := Some True\<rparr>)"

section \<open>Mattermost\<close>

definition mattermost_boundaries :: "int \<Rightarrow> int \<Rightarrow> chunk_options" where
  "mattermost_boundaries limit safe = (limit_only (JInt limit))
     \<lparr>opt_safeLimit := Some (JInt safe), opt_boundaries := Some [[nl, nl], [nl], [sp]],
      opt_lastResort := Some LastBoundary, opt_stripLeading := Some is_space\<rparr>"

definition MATTERMOST_MAX_POST :: int where "MATTERMOST_MAX_POST = 16383"
definition MATTERMOST_SAFE_CHUNK :: int where "MATTERMOST_SAFE_CHUNK = 16000"

definition splitForMattermost :: "js \<Rightarrow> (range_error + js list) option" where
  "splitForMattermost text =
     chunkText text (mattermost_boundaries MATTERMOST_MAX_POST MATTERMOST_SAFE_CHUNK)"

definition splitForEscapedMattermost :: "js \<Rightarrow> (range_error + js list) option" where
  "splitForEscapedMattermost text =
     chunkText text (mattermost_boundaries (MATTERMOST_MAX_POST div 2)
       (MATTERMOST_SAFE_CHUNK div 2))"

section \<open>LINE\<close>

definition splitForLine :: "(js \<Rightarrow> js list) \<Rightarrow> js \<Rightarrow> js_num option \<Rightarrow> range_error + js list" where
  "splitForLine seg text limit =
     chunkByGrapheme seg text (case limit of None \<Rightarrow> JInt 5000 | Some l \<Rightarrow> l) None"

section \<open>Nextcloud Talk\<close>

text \<open>\<open>Array.from\<close> splits a string into code points: a surrogate pair is one element.\<close>

fun code_points :: "js \<Rightarrow> js list" where
  "code_points [] = []"
| "code_points [c] = [[c]]"
| "code_points (c # d # s) =
     (if is_high c \<and> is_low d then [c, d] # code_points s else [c] # code_points (d # s))"

definition TALK_MAX_LENGTH :: int where "TALK_MAX_LENGTH = 32000"

datatype talk_error = TalkLimitNotPositive js_num

function talk_cut :: "js list \<Rightarrow> nat \<Rightarrow> nat \<Rightarrow> js list" where
  "talk_cut codePoints limit at =
     (if 0 < limit \<and> at < length codePoints
      then concat (take limit (drop at codePoints)) # talk_cut codePoints limit (at + limit)
      else [])"
  by pat_completeness auto
termination
  by (relation "measure (\<lambda>(cps, limit, at). length cps - at)") auto

definition splitForTalk :: "js \<Rightarrow> js_num option \<Rightarrow> talk_error + js list" where
  "splitForTalk text limit =
     (let l = (case limit of None \<Rightarrow> JInt TALK_MAX_LENGTH | Some l \<Rightarrow> l)
      in case l of
           JNonInt \<Rightarrow> Inl (TalkLimitNotPositive l)
         | JInt n \<Rightarrow> if n < 1 then Inl (TalkLimitNotPositive l)
                     else Inr (talk_cut (code_points text) (nat n) 0))"

declare talk_cut.simps [simp del]

section \<open>The splitters over the core chunker\<close>

lemma splitter_chunkText:
  assumes f: "\<And>t. f t = chunkText t opts"
    and args: "opt_limit opts = JInt l" "safeLimit_of opts = JInt w" "0 < w" "w \<le> l"
    and d: "droppable opts = d"
  shows "splitter (\<lambda>t ps. f t = Some (Inr ps)) (\<lambda>p. int (length p)) l d"
proof
  fix t
  show "\<exists>ps. f t = Some (Inr ps)"
    unfolding f using chunkText_accepts [OF args] by blast
next
  fix t ps p assume "f t = Some (Inr ps)" "p \<in> set ps"
  then show "int (length p) \<le> l"
    unfolding f using chunkText_bounded args(1) by blast
next
  fix t ps assume "f t = Some (Inr ps)"
  then show "filter (\<lambda>c. \<not> d c) (concat ps) = filter (\<lambda>c. \<not> d c) t"
    unfolding f d [symmetric] by (rule chunkText_content)
qed simp

lemmas option_defs = discord_boundaries_def slack_family_def mattermost_boundaries_def
  limit_only_def safeLimit_of_def

lemmas cap_defs = DISCORD_MAX_MESSAGE_def SAFE_DISCORD_CHUNK_def MATTERMOST_MAX_POST_def
  MATTERMOST_SAFE_CHUNK_def TALK_MAX_LENGTH_def

lemma droppable_options [simp]:
  "droppable (discord_boundaries l w) = nl_class"
  "droppable (slack_family n) = is_space"
  "droppable ((slack_family n)\<lparr>opt_trimParts := Some True\<rparr>) = is_space"
  "droppable (mattermost_boundaries n m) = is_space"
  by (simp_all add: fun_eq_iff option_defs droppable_def stripLeading_of_def trimParts_of_def)

lemma option_fields [simp]:
  "opt_limit (discord_boundaries l w) = l" "safeLimit_of (discord_boundaries l w) = w"
  "opt_limit (slack_family n) = JInt n" "safeLimit_of (slack_family n) = JInt n"
  "safeLimit_of ((slack_family n)\<lparr>opt_trimParts := Some True\<rparr>) = JInt n"
  "opt_limit (mattermost_boundaries n m) = JInt n" "safeLimit_of (mattermost_boundaries n m) = JInt m"
  by (simp_all add: option_defs)

interpretation discord: splitter "\<lambda>t ps. splitForDiscord t = Some (Inr ps)"
  "\<lambda>p. int (length p)" DISCORD_MAX_MESSAGE nl_class
  by (rule splitter_chunkText [OF splitForDiscord_def, where w = SAFE_DISCORD_CHUNK])
    (simp_all add: cap_defs)

interpretation discord_escaped: splitter "\<lambda>t ps. splitForEscapedDiscord t = Some (Inr ps)"
  "\<lambda>p. int (length p)" "DISCORD_MAX_MESSAGE div 2" nl_class
  by (rule splitter_chunkText [OF splitForEscapedDiscord_def, where w = "SAFE_DISCORD_CHUNK div 2"])
    (simp_all add: cap_defs)

interpretation slack: splitter "\<lambda>t ps. splitForSlack t = Some (Inr ps)"
  "\<lambda>p. int (length p)" 4000 is_space
  by (rule splitter_chunkText [OF splitForSlack_def, where w = 4000])
    (simp_all add: cap_defs)

interpretation teams: splitter "\<lambda>t ps. splitForTeams t = Some (Inr ps)"
  "\<lambda>p. int (length p)" 8000 is_space
  by (rule splitter_chunkText [OF splitForTeams_def, where w = 8000])
    (simp_all add: cap_defs)

interpretation whatsapp: splitter "\<lambda>t ps. splitForWhatsApp t = Some (Inr ps)"
  "\<lambda>p. int (length p)" 4096 is_space
  by (rule splitter_chunkText [OF splitForWhatsApp_def, where w = 4096])
    (simp_all add: cap_defs)

interpretation mattermost: splitter "\<lambda>t ps. splitForMattermost t = Some (Inr ps)"
  "\<lambda>p. int (length p)" MATTERMOST_MAX_POST is_space
  by (rule splitter_chunkText [OF splitForMattermost_def, where w = MATTERMOST_SAFE_CHUNK])
    (simp_all add: cap_defs)

interpretation mattermost_escaped: splitter "\<lambda>t ps. splitForEscapedMattermost t = Some (Inr ps)"
  "\<lambda>p. int (length p)" "MATTERMOST_MAX_POST div 2" is_space
  by (rule splitter_chunkText [OF splitForEscapedMattermost_def, where w = "MATTERMOST_SAFE_CHUNK div 2"])
    (simp_all add: cap_defs)

section \<open>Nextcloud Talk cuts by code points\<close>

lemma concat_code_points: "concat (code_points s) = s"
  by (induction s rule: code_points.induct) auto

text \<open>On well-formed text \<open>Array.from\<close> undoes joining code points, so parts can be measured in them.\<close>

lemma talk_cut_concat: "0 < limit \<Longrightarrow> concat (talk_cut cps limit at) = concat (drop at cps)"
proof (induction cps limit at rule: talk_cut.induct)
  case (1 cps limit at)
  show ?case
  proof (cases "at < length cps")
    case True
    have "concat (talk_cut cps limit (at + limit)) = concat (drop (at + limit) cps)"
      using 1 True by simp
    moreover have "concat (drop at cps) =
        concat (take limit (drop at cps)) @ concat (drop (at + limit) cps)"
      by (metis append_take_drop_id concat_append drop_drop add.commute)
    ultimately show ?thesis using 1 True by (subst talk_cut.simps) simp
  qed (subst talk_cut.simps, simp)
qed

lemma talk_cut_parts:
  "p \<in> set (talk_cut cps limit at) \<Longrightarrow>
   \<exists>n. p = concat (take limit (drop n cps)) \<and> n < length cps"
proof (induction cps limit at rule: talk_cut.induct)
  case (1 cps limit at)
  then show ?case by (subst (asm) (2) talk_cut.simps) (auto split: if_splits)
qed

lemma code_points_nonempty: "cp \<in> set (code_points s) \<Longrightarrow> cp \<noteq> []"
  by (induction s rule: code_points.induct) (auto split: if_splits)

text \<open>Re-reading a run of consecutive code points gives the same run back.\<close>

lemma code_points_take: "code_points (concat (take n (code_points s))) = take n (code_points s)"
proof (induction s arbitrary: n rule: code_points.induct)
  case (3 c d s)
  show ?case
  proof (cases n)
    case (Suc m)
    show ?thesis
    proof (cases "is_high c \<and> is_low d")
      case False
      have tail: "code_points (concat (take m (code_points (d # s)))) = take m (code_points (d # s))"
        using 3(2) False by blast
      have "\<exists>r. concat (take m (code_points (d # s))) = d # r \<or> m = 0"
        by (cases s; cases m) auto
      then show ?thesis using False Suc tail by (cases m) auto
    qed (use 3 Suc in auto)
  qed simp
qed (auto simp: take_Cons')

lemma code_points_drop: "code_points (concat (drop n (code_points s))) = drop n (code_points s)"
proof (induction s arbitrary: n rule: code_points.induct)
  case (3 c d s)
  then show ?case by (cases n) (auto simp: concat_code_points)
qed (auto simp: drop_Cons')

lemma talk_cut_part_size:
  assumes "p \<in> set (talk_cut (code_points s) limit at)"
  shows "length (code_points p) \<le> limit"
proof -
  obtain n where p: "p = concat (take limit (drop n (code_points s)))"
    using talk_cut_parts [OF assms] by blast
  have "code_points p = take limit (drop n (code_points s))"
    unfolding p using code_points_take [of limit "concat (drop n (code_points s))"]
    by (simp add: code_points_drop)
  then show ?thesis by simp
qed

interpretation talk: splitter "\<lambda>t ps. splitForTalk t None = Inr ps"
  "\<lambda>p. int (length (code_points p))" TALK_MAX_LENGTH "\<lambda>c. False"
proof
  show "\<exists>ps. splitForTalk t None = Inr ps" for t
    by (simp add: splitForTalk_def cap_defs)
  show "int (length (code_points p)) \<le> TALK_MAX_LENGTH"
    if "splitForTalk t None = Inr ps" "p \<in> set ps" for t ps p
    using that talk_cut_part_size [of p t 32000 0] by (auto simp: splitForTalk_def cap_defs)
  show "filter (\<lambda>c. \<not> False) (concat ps) = filter (\<lambda>c. \<not> False) t"
    if "splitForTalk t None = Inr ps" for t ps
    using that talk_cut_concat [of 32000 "code_points t" 0]
    by (auto simp: splitForTalk_def cap_defs concat_code_points)
qed simp

lemma slack_family_boundaries: "sound_boundaries [[nl, nl], [nl], [sp]]"
  by (simp add: sound_boundaries_def is_low_def)

lemma slack_family_wf16:
  "chunkText t (slack_family n) = Some (Inr ps) \<Longrightarrow> wf16 t \<Longrightarrow> 2 \<le> n \<Longrightarrow> \<forall>p\<in>set ps. wf16 p"
  using slack_family_boundaries space_not_surrogate
  by (elim chunkText_wf16 [where w = n])
    (auto simp: slack_family_def limit_only_def surrogateGuard_of_def safeLimit_of_def
      stripLeading_of_def boundaries_of_def)

lemma slack_family_trim_wf16:
  "chunkText t ((slack_family n)\<lparr>opt_trimParts := Some True\<rparr>) = Some (Inr ps) \<Longrightarrow> wf16 t \<Longrightarrow> 2 \<le> n \<Longrightarrow>
   \<forall>p\<in>set ps. wf16 p"
  using slack_family_boundaries space_not_surrogate
  by (elim chunkText_wf16 [where w = n])
    (auto simp: slack_family_def limit_only_def surrogateGuard_of_def safeLimit_of_def
      stripLeading_of_def boundaries_of_def)

section \<open>Properties\<close>

text \<open>
  Slack, Teams and WhatsApp never cut a UTF-16 surrogate pair: every part of a well-formed
  text is well-formed.
\<close>
theorem guarded_splitters_keep_pairs:
  assumes "wf16 t"
    and "splitForSlack t = Some (Inr ps) \<or> splitForTeams t = Some (Inr ps) \<or>
      splitForWhatsApp t = Some (Inr ps)"
  shows "\<forall>p\<in>set ps. wf16 p"
  using assms slack_family_wf16 slack_family_trim_wf16
  unfolding splitForSlack_def splitForTeams_def splitForWhatsApp_def by fastforce

theorem guarded_splitters_keep_pairs_witness:
  "wf16 [97, 0xD83D, 0xDE00]"
proof -
  have "\<forall>p\<in>set [[97, 0xD83D, 0xDE00]]. wf16 p"
  proof (rule guarded_splitters_keep_pairs)
  show "wf16 [97, 0xD83D, 0xDE00]" by (simp add: is_high_def is_low_def)
  show "splitForSlack [97, 0xD83D, 0xDE00] = Some (Inr [[97, 0xD83D, 0xDE00]]) \<or>
    splitForTeams [97, 0xD83D, 0xDE00] = Some (Inr [[97, 0xD83D, 0xDE00]]) \<or>
    splitForWhatsApp [97, 0xD83D, 0xDE00] = Some (Inr [[97, 0xD83D, 0xDE00]])"
    by code_simp
  qed
  then show ?thesis by simp
qed

text \<open>A run of emoji one unit off the even positions, longer than Mattermost's cap.\<close>

definition emoji_run :: "nat \<Rightarrow> js" where
  "emoji_run n = 97 # concat (replicate n [0xD83D, 0xDE00])"

lemma emoji_run_facts:
  "wf16 (emoji_run n)" "length (emoji_run n) = 2 * n + 1" "set (emoji_run n) \<subseteq> {97, 0xD83D, 0xDE00}"
proof -
  have "wf16 (concat (replicate n [0xD83D, 0xDE00]))"
    by (induction n) (auto simp: is_high_def is_low_def)
  then show "wf16 (emoji_run n)" by (simp add: emoji_run_def wf16_Cons_plain is_high_def is_low_def)
  show "length (emoji_run n) = 2 * n + 1"
    by (simp add: emoji_run_def length_concat sum_list_replicate)
  show "set (emoji_run n) \<subseteq> {97, 0xD83D, 0xDE00}" by (auto simp: emoji_run_def)
qed

lemma emoji_run_odd: "k < n \<Longrightarrow> emoji_run n ! (2 * k + 1) = 0xD83D"
proof -
  have "k < n \<Longrightarrow> concat (replicate n [0xD83D, 0xDE00]) ! (2 * k) = (0xD83D :: cu)"
  proof (induction n arbitrary: k)
    case (Suc n)
    then show ?case by (cases k) auto
  qed simp
  then show "k < n \<Longrightarrow> ?thesis" by (simp add: emoji_run_def)
qed

lemma last_index_of_absent:
  assumes "b \<noteq> []" "hd b \<notin> set s"
  shows "last_index_of s b pos = -1"
proof -
  have "\<not> prefix b (drop k s)" for k
  proof
    assume "prefix b (drop k s)"
    then have "hd b \<in> set (drop k s)" using assms(1) by (cases b) (auto simp: prefix_def)
    then show False using assms(2) in_set_dropD by fast
  qed
  then have "last_at s b k = -1" for k
    by (induction k) (metis drop_0 last_at.simps(1), metis last_at.simps(2))
  then show ?thesis by (simp add: last_index_of_def)
qed

lemma wf16_last_not_high: "wf16 (xs @ [c]) \<Longrightarrow> \<not> is_high c"
  by (induction xs rule: wf16.induct) (auto split: if_splits dest: high_not_low)

text \<open>
  Mattermost's splitter does not split on code points: a well-formed text of emoji over the cap
  is cut inside a surrogate pair, and a part that is not well-formed UTF-16 is posted.
\<close>
theorem mattermost_severs_a_pair:
  "\<exists>t ps p. wf16 t \<and> splitForMattermost t = Some (Inr ps) \<and> p \<in> set ps \<and> \<not> wf16 p"
proof -
  define t where "t = emoji_run 8200"
  let ?o = "mattermost_boundaries MATTERMOST_MAX_POST MATTERMOST_SAFE_CHUNK"
  have o: "boundaries_of ?o = [[nl, nl], [nl], [sp]]" "lastResort_of ?o = LastBoundary"
    "\<not> surrogateGuard_of ?o" "\<not> trimParts_of ?o"
    by (simp_all add: mattermost_boundaries_def limit_only_def boundaries_of_def lastResort_of_def
        surrogateGuard_of_def trimParts_of_def)
  have len: "length t = 16401" by (simp add: t_def emoji_run_facts)
  have "last_index_of t b 16000 = -1" if "b \<in> set [[nl, nl], [nl], [sp]]" for b
    using that emoji_run_facts(3) [of 8200] by (auto simp: t_def intro!: last_index_of_absent)
  then have cut: "findCut t 16000 [[nl, nl], [nl], [sp]] LastBoundary False = 16000"
    by (simp add: findCut_def searchBoundary_def Let_def)
  obtain qs where ps: "splitForMattermost t = Some (Inr qs)"
    "chunk_loop 16000 [[nl, nl], [nl], [sp]] LastBoundary False (stripLeading_of ?o) [] t = Some qs"
    using chunkText_accepts [of ?o 16383 16000 t] len o
    by (auto simp: splitForMattermost_def finalize_def cap_defs)
  have "take 16000 t \<in> set qs"
  proof -
    have "chunk_loop 16000 [[nl, nl], [nl], [sp]] LastBoundary False (stripLeading_of ?o) [take 16000 t]
        (dropWhile (stripLeading_of ?o) (drop 16000 t)) = Some qs"
      using ps(2) len cut by (simp add: chunk_loop_step)
    then show ?thesis
      using chunk_loop_refines [of 16000 "[[nl, nl], [nl], [sp]]" LastBoundary False
          "stripLeading_of ?o" "[take 16000 t]" "dropWhile (stripLeading_of ?o) (drop 16000 t)"]
      by auto
  qed
  moreover have "\<not> wf16 (take 16000 t)"
  proof
    assume wf: "wf16 (take 16000 t)"
    have "take (Suc 15999) t = take 15999 t @ [t ! 15999]"
      using len by (intro take_Suc_conv_app_nth) simp
    moreover have "t ! 15999 = 0xD83D" using emoji_run_odd [of 7999 8200] by (simp add: t_def)
    ultimately show False using wf wf16_last_not_high [of "take 15999 t" "0xD83D"]
      by (simp add: is_high_def)
  qed
  ultimately show ?thesis using ps(1) emoji_run_facts(1) [of 8200] unfolding t_def by blast
qed

end
