(* ===== verification/TelegramSplit.thy ===== *)
theory TelegramSplit
  imports Splitters
begin

text \<open>
  \<open>packages/gateway-telegram/src/split.ts\<close>: Telegram's splitter, which does not go through
  \<open>chunkText\<close> because it trims each chunk back to before an unpaired markdown marker. The loop is a
  function that answers \<open>None\<close> when it does not return; the lemmas show that it always does.

  \<open>countOccurrences\<close> loops forever on an empty needle; it is only called with the four markers, and the
  model stops there.
\<close>

definition TELEGRAM_MAX_MESSAGE :: int where "TELEGRAM_MAX_MESSAGE = 4096"
definition SAFE_CHUNK :: int where "SAFE_CHUNK = 4000"

section \<open>Counting and balancing markers\<close>

lemma index_in_bounds: "index_in b s i = -1 \<or> int i \<le> index_in b s i \<and> index_in b s i \<le> int (i + length s)"
proof (induction s arbitrary: i)
  case (Cons c s)
  show ?case using Cons.IH [of "Suc i"] by auto
qed auto

lemma index_of_bounds:
  "index_of s b pos = -1 \<or> int (min pos (length s)) \<le> index_of s b pos \<and> index_of s b pos \<le> int (length s)"
  using index_in_bounds [of b "drop (min pos (length s)) s" "min pos (length s)"]
  by (auto simp: index_of_def Let_def)

lemma index_of_ge: "index_of s b pos \<noteq> -1 \<Longrightarrow> pos \<le> length s \<Longrightarrow> int pos \<le> index_of s b pos"
  using index_of_bounds [of s b pos] by auto

lemma index_in_nonempty_end: "b \<noteq> [] \<Longrightarrow> index_in b s i < int (i + length s)"
proof (induction s arbitrary: i)
  case (Cons c s)
  show ?case using Cons.IH [of "Suc i"] Cons.prems by auto
qed auto

function count_from :: "js \<Rightarrow> js \<Rightarrow> nat \<Rightarrow> nat \<Rightarrow> nat" where
  "count_from haystack needle count pos =
     (let found = index_of haystack needle pos
      in if found = -1 \<or> needle = [] then count
         else count_from haystack needle (count + 1) (nat found + length needle))"
  by pat_completeness auto
termination
proof (relation "measure (\<lambda>(h, n, c, pos). Suc (length h) - pos)")
  fix h n :: js and c pos :: nat and found
  assume f: "found = index_of h n pos" "\<not> (found = -1 \<or> n = [])"
  have "int (min pos (length h)) \<le> found" using index_of_bounds [of h n pos] f by auto
  moreover have "found < int (length h)"
    using index_in_nonempty_end [of n "drop (min pos (length h)) h" "min pos (length h)"] f
    by (auto simp: index_of_def Let_def min_def split: if_splits)
  moreover have "0 < length n" using f by auto
  ultimately have "int pos \<le> found" "pos \<le> length h" "0 < length n"
    by (auto simp: min_def split: if_splits)
  then have "pos < nat found + length n" "pos \<le> length h" by linarith+
  then show "((h, n, c + 1, nat found + length n), h, n, c, pos)
      \<in> measure (\<lambda>(h, n, c, pos). Suc (length h) - pos)"
    by auto
qed simp

definition countOccurrences :: "js \<Rightarrow> js \<Rightarrow> nat" where
  "countOccurrences haystack needle = count_from haystack needle 0 0"

definition markers :: "js list" where
  "markers = [lit ''**'', lit ''__'', lit ''~~'', lit ''`'']"

definition balance_one :: "js \<Rightarrow> js \<Rightarrow> js" where
  "balance_one out m =
     (if countOccurrences out m mod 2 = 1
      then trim_end (js_slice out 0 (last_index_of out m (int (length out))))
      else out)"

definition balanceMarkdownPairs :: "js \<Rightarrow> js" where
  "balanceMarkdownPairs chunk = foldl balance_one chunk markers"

section \<open>The splitter\<close>

definition telegram_boundary :: "js \<Rightarrow> int" where
  "telegram_boundary remaining =
     (let b0 = last_index_of remaining [nl, nl] SAFE_CHUNK;
          b1 = (if 2 * b0 < SAFE_CHUNK then last_index_of remaining [nl] SAFE_CHUNK else b0)
      in if 2 * b1 < SAFE_CHUNK then SAFE_CHUNK else b1)"

partial_function (option) telegram_loop :: "js list \<Rightarrow> js \<Rightarrow> js list option" where
  "telegram_loop parts remaining =
     (if 0 < length remaining
      then if int (length remaining) \<le> SAFE_CHUNK then Some (parts @ [remaining])
           else let rawChunk = js_slice remaining 0 (telegram_boundary remaining);
                    balanced = balanceMarkdownPairs rawChunk;
                    chunk = (if 0 < length balanced then balanced else rawChunk)
                in telegram_loop (parts @ [chunk])
                     (dropWhile nl_class (js_slice_from remaining (int (length chunk))))
      else Some parts)"

definition splitForTelegram :: "js \<Rightarrow> js list option" where
  "splitForTelegram text =
     (if int (length text) \<le> TELEGRAM_MAX_MESSAGE then Some [text] else telegram_loop [] text)"

declare telegram_loop.simps [code]
declare count_from.simps [simp del]

section \<open>Balancing keeps a prefix\<close>

lemma take_of_take: "\<exists>n \<le> length s. t = take n s \<Longrightarrow> \<exists>m \<le> length t. u = take m t \<Longrightarrow>
  \<exists>k \<le> length s. u = take k s"
  by (metis (no_types, lifting) length_take min.absorb_iff1 min.cobounded1 min.cobounded2 take_take)

lemma last_index_of_found_or:
  "js_slice s 0 (last_index_of s m (int (length s))) = take (slice_pos s (last_index_of s m (int (length s)))) s"
  by (simp add: js_slice_def slice_pos_def)

lemma balance_one_take: "\<exists>n \<le> length s. balance_one s m = take n s"
proof (cases "countOccurrences s m mod 2 = 1")
  case True
  let ?t = "js_slice s 0 (last_index_of s m (int (length s)))"
  have t: "\<exists>n \<le> length s. ?t = take n s"
    unfolding last_index_of_found_or by (metis nat_le_linear take_all_iff order_refl)
  show ?thesis using take_of_take [OF t trim_end_prefix] True by (simp add: balance_one_def)
qed (auto simp: balance_one_def intro: exI [of _ "length s"])

lemma foldl_balance_take: "\<exists>n \<le> length s. foldl balance_one s ms = take n s"
proof (induction ms arbitrary: s)
  case Nil
  then show ?case by (auto intro: exI [of _ "length s"])
next
  case (Cons m ms)
  then show ?case using take_of_take [OF balance_one_take [of s m] Cons.IH] by simp
qed

lemma balance_take: "\<exists>n \<le> length s. balanceMarkdownPairs s = take n s"
  unfolding balanceMarkdownPairs_def by (rule foldl_balance_take)

section \<open>The loop refines a legal chunking\<close>

lemma telegram_boundary_bounds: "0 < telegram_boundary r" "telegram_boundary r \<le> SAFE_CHUNK"
  using last_index_of_bounds(2) [of SAFE_CHUNK r "[nl, nl]"]
    last_index_of_bounds(2) [of SAFE_CHUNK r "[nl]"]
  by (auto simp: telegram_boundary_def Let_def SAFE_CHUNK_def)

lemma telegram_chunk_take:
  assumes "SAFE_CHUNK < int (length r)"
  defines "raw \<equiv> js_slice r 0 (telegram_boundary r)"
  defines "chunk \<equiv> (if 0 < length (balanceMarkdownPairs raw) then balanceMarkdownPairs raw else raw)"
  obtains c where "chunk = take c r" "0 < c" "c \<le> nat SAFE_CHUNK" "c < length r" "length chunk = c"
proof -
  let ?b = "nat (telegram_boundary r)"
  have b: "0 < ?b" "?b \<le> nat SAFE_CHUNK" "?b < length r"
    using telegram_boundary_bounds [of r] assms(1) by auto
  have raw: "raw = take ?b r" using telegram_boundary_bounds [of r] by (simp add: raw_def)
  obtain n where n: "n \<le> length raw" "balanceMarkdownPairs raw = take n raw"
    using balance_take by blast
  then have "chunk = take (if 0 < n then n else ?b) r" "n \<le> ?b"
    using b raw by (auto simp: chunk_def min_def)
  then show ?thesis using b by (intro that [of "if 0 < n then n else ?b"]) auto
qed

lemma telegram_loop_refines:
  "\<exists>ps. telegram_loop parts r = Some (parts @ ps) \<and> chunking nl_class (nat SAFE_CHUNK) r ps"
proof (induction r arbitrary: parts rule: length_induct)
  case (1 r)
  show ?case
  proof (cases "SAFE_CHUNK < int (length r)")
    case False
    then have "telegram_loop parts r = Some (parts @ (if r = [] then [] else [r]))"
      by (subst telegram_loop.simps) auto
    moreover have "length r \<le> nat SAFE_CHUNK" using False by (simp add: SAFE_CHUNK_def)
    ultimately show ?thesis using chunking_rest by blast
  next
    case True
    let ?raw = "js_slice r 0 (telegram_boundary r)"
    let ?chunk = "if 0 < length (balanceMarkdownPairs ?raw) then balanceMarkdownPairs ?raw else ?raw"
    obtain c where c: "?chunk = take c r" "0 < c" "c \<le> nat SAFE_CHUNK" "c < length r"
      "length ?chunk = c"
      using telegram_chunk_take [OF True] .
    have "telegram_loop parts r = telegram_loop (parts @ [?chunk])
        (dropWhile nl_class (js_slice_from r (int (length ?chunk))))"
    proof -
      have "0 < length r" "\<not> int (length r) \<le> SAFE_CHUNK" using True c(4) by auto
      then show ?thesis unfolding telegram_loop.simps [of parts r] Let_def by (simp only: if_True if_False)
    qed
    then have step: "telegram_loop parts r =
        telegram_loop (parts @ [take c r]) (dropWhile nl_class (drop c r))"
      using c(1,5) by simp
    have "length (dropWhile nl_class (drop c r)) < length r"
      using c dropWhile_le_length [of nl_class "drop c r"] by auto
    then obtain ps where
      "telegram_loop (parts @ [take c r]) (dropWhile nl_class (drop c r)) = Some ((parts @ [take c r]) @ ps)"
      "chunking nl_class (nat SAFE_CHUNK) (dropWhile nl_class (drop c r)) ps"
      using "1.IH" by blast
    moreover have "nat SAFE_CHUNK < length r" using True by (simp add: SAFE_CHUNK_def)
    ultimately show ?thesis using step chunking_cut c(2,3) by fastforce
  qed
qed

lemma splitForTelegram_refines:
  obtains ps where "splitForTelegram t = Some ps"
    "if int (length t) \<le> TELEGRAM_MAX_MESSAGE then ps = [t]
     else chunking nl_class (nat SAFE_CHUNK) t ps"
proof (cases "int (length t) \<le> TELEGRAM_MAX_MESSAGE")
  case True
  then show ?thesis using that [of "[t]"] by (simp add: splitForTelegram_def)
next
  case False
  obtain ps where "telegram_loop [] t = Some ps" "chunking nl_class (nat SAFE_CHUNK) t ps"
    using telegram_loop_refines [of "[]" t] by auto
  with False show ?thesis using that [of ps] by (simp add: splitForTelegram_def)
qed

lemma splitForTelegram_cases:
  assumes "splitForTelegram t = Some ps"
  shows "int (length t) \<le> TELEGRAM_MAX_MESSAGE \<and> ps = [t] \<or>
    chunking nl_class (nat SAFE_CHUNK) t ps"
  using splitForTelegram_refines [of t] assms by (metis option.inject)

interpretation telegram: splitter "\<lambda>t ps. splitForTelegram t = Some ps"
  "\<lambda>p. int (length p)" TELEGRAM_MAX_MESSAGE nl_class
proof
  show "\<exists>ps. splitForTelegram t = Some ps" for t
    by (rule splitForTelegram_refines [of t]) blast
  show "int (length p) \<le> TELEGRAM_MAX_MESSAGE"
    if "splitForTelegram t = Some ps" "p \<in> set ps" for t ps p
    using splitForTelegram_cases [OF that(1)] that(2) chunking_parts
    by (fastforce simp: TELEGRAM_MAX_MESSAGE_def SAFE_CHUNK_def)
  show "filter (\<lambda>c. \<not> nl_class c) (concat ps) = filter (\<lambda>c. \<not> nl_class c) t"
    if "splitForTelegram t = Some ps" for t ps
    using splitForTelegram_cases [OF that] chunking_content by auto
qed simp

section \<open>What balancing achieves\<close>

lemma index_in_single:
  "index_in [c] s i = (if c \<in> set s then int (i + length (takeWhile (\<lambda>x. x \<noteq> c) s)) else -1)"
  by (induction s arbitrary: i) auto

lemma takeWhile_neq_less: "c \<in> set s \<Longrightarrow> length (takeWhile (\<lambda>x. x \<noteq> c) s) < length s"
  by (induction s) auto

lemma count_list_from: "c \<in> set s \<Longrightarrow>
  count_list s c = Suc (count_list (drop (Suc (length (takeWhile (\<lambda>x. x \<noteq> c) s))) s) c)"
  by (induction s) auto

lemma count_from_single: "pos \<le> length h \<Longrightarrow> count_from h [c] n pos = n + count_list (drop pos h) c"
proof (induction h "[c]" n pos rule: count_from.induct)
  case (1 h n pos)
  let ?k = "length (takeWhile (\<lambda>x. x \<noteq> c) (drop pos h))"
  have idx: "index_of h [c] pos = (if c \<in> set (drop pos h) then int (pos + ?k) else -1)"
    using "1.prems" by (simp add: index_of_def Let_def index_in_single min_def)
  show ?case
  proof (cases "c \<in> set (drop pos h)")
    case True
    have "?k < length (drop pos h)"
      using True by (rule takeWhile_neq_less)
    then have le: "pos + ?k + 1 \<le> length h" by simp
    have "count_from h [c] n pos = count_from h [c] (n + 1) (pos + ?k + 1)"
      using idx True by (subst count_from.simps) (simp add: nat_add_distrib flip: of_nat_add)
    also have "\<dots> = n + 1 + count_list (drop (pos + ?k + 1) h) c"
      using "1.hyps" [OF refl] idx True le by (simp add: nat_add_distrib flip: of_nat_add)
    also have "drop (pos + ?k + 1) h = drop (Suc ?k) (drop pos h)" by (simp add: add.commute)
    finally show ?thesis using count_list_from [OF True] by simp
  next
    case False
    then show ?thesis using idx by (subst count_from.simps) (simp add: count_list_0_iff)
  qed
qed

lemma countOccurrences_single: "countOccurrences h [c] = count_list h c"
  by (simp add: countOccurrences_def count_from_single)

lemma last_at_single_count:
  "k < length s \<Longrightarrow> c \<in> set (take (Suc k) s) \<Longrightarrow>
   count_list (take (nat (last_at s [c] k)) s) c = count_list (take (Suc k) s) c - 1"
proof (induction k)
  case 0
  then show ?case by (cases s) auto
next
  case (Suc k)
  have nth: "prefix [c] (drop (Suc k) s) \<longleftrightarrow> s ! Suc k = c"
    using Suc.prems(1) by (auto simp: Cons_nth_drop_Suc [symmetric])
  have t: "take (Suc (Suc k)) s = take (Suc k) s @ [s ! Suc k]"
    using Suc.prems(1) by (rule take_Suc_conv_app_nth)
  show ?case
  proof (cases "s ! Suc k = c")
    case True
    moreover have "nat (1 + int k) = Suc k" by simp
    ultimately show ?thesis using nth t by simp
  next
    case False
    then show ?thesis using nth t Suc by simp
  qed
qed

lemma count_list_trim_end:
  assumes "\<not> is_space c" shows "count_list (trim_end s) c = count_list s c"
proof -
  have count: "count_list s c = length (filter (\<lambda>x. x = c) (filter (\<lambda>x. \<not> is_space x) s))" for s
    using assms by (induction s) auto
  show ?thesis unfolding count [of "trim_end s"] count [of s] filter_trim_end ..
qed

lemma balance_one_even_single:
  assumes "\<not> is_space c"
  shows "even (countOccurrences (balance_one s [c]) [c])"
proof (cases "even (count_list s c)")
  case True
  then show ?thesis by (simp add: balance_one_def countOccurrences_single even_iff_mod_2_eq_zero)
next
  case False
  then have c: "c \<in> set s" by (metis count_list_0_iff even_zero)
  then obtain k where k: "length s = Suc k" by (cases s) auto
  have at: "last_at s [c] (Suc k) = last_at s [c] k" using k by simp
  have occ: "0 \<le> last_at s [c] k"
  proof -
    obtain j where "j < length s" "s ! j = c" using c by (auto simp: in_set_conv_nth)
    then have "prefix [c] (drop j s)" "j \<le> k" using k by (auto simp: Cons_nth_drop_Suc [symmetric])
    then show ?thesis using last_at_greatest [of j k "[c]" s] by linarith
  qed
  have "count_list (take (nat (last_at s [c] k)) s) c = count_list s c - 1"
    using last_at_single_count [of k s c] k c by simp
  then have "even (count_list (take (nat (last_at s [c] k)) s) c)" using False by simp
  then show ?thesis
    using False occ k at assms
    by (simp add: balance_one_def countOccurrences_single count_list_trim_end last_index_of_def
        odd_iff_mod_2_eq_one nat_add_distrib)
qed

section \<open>Properties\<close>

text \<open>
  C32: telegram's splitter always returns: its loop makes progress on every pass even when balancing
  the markers would consume a whole chunk. Every part fits Telegram's cap, a longer text has no empty
  part, and only newlines are dropped.
\<close>
theorem splitForTelegram_total_and_complete:
  "\<exists>ps. splitForTelegram t = Some ps \<and> (\<forall>p\<in>set ps. int (length p) \<le> TELEGRAM_MAX_MESSAGE) \<and>
     (t = [] \<or> [] \<notin> set ps) \<and>
     filter (\<lambda>c. c \<noteq> nl) (concat ps) = filter (\<lambda>c. c \<noteq> nl) t"
proof -
  obtain ps where ps: "splitForTelegram t = Some ps" using telegram.splits_total by blast
  have "t = [] \<or> [] \<notin> set ps"
    using splitForTelegram_cases [OF ps] chunking_parts by fastforce
  then show ?thesis
    using ps telegram.splits_fit [OF ps] telegram.splits_content [OF ps] by (auto simp: nl_class_def)
qed

theorem splitForTelegram_total_and_complete_witness:
  "\<exists>ps. splitForTelegram (lit ''hello'') = Some ps \<and> [] \<notin> set ps"
  using splitForTelegram_total_and_complete [of "lit ''hello''"] by auto

text \<open>
  Balancing leaves an even number of backticks in every chunk, but not of the other markers:
  trimming back to before an unpaired marker can cut off the closing half of a pair of an earlier
  one, and that marker is not looked at again.
\<close>
theorem balancing_pairs_backticks_only:
  "even (countOccurrences (balanceMarkdownPairs chunk) (lit ''`'')) \<and>
   (\<exists>bad. even (countOccurrences bad (lit ''**'')) \<and>
      odd (countOccurrences (balanceMarkdownPairs bad) (lit ''**'')))"
proof
  have "balanceMarkdownPairs chunk =
      balance_one (foldl balance_one chunk [lit ''**'', lit ''__'', lit ''~~'']) (lit ''`'')"
    by (simp add: balanceMarkdownPairs_def markers_def)
  then show "even (countOccurrences (balanceMarkdownPairs chunk) (lit ''`''))"
    using balance_one_even_single [of "of_char (CHR ''`'')"] by (simp add: is_space_def)
  have "even (countOccurrences (lit ''**a `b**'') (lit ''**'')) \<and>
      odd (countOccurrences (balanceMarkdownPairs (lit ''**a `b**'')) (lit ''**''))"
    by code_simp
  then show "\<exists>bad. even (countOccurrences bad (lit ''**'')) \<and>
      odd (countOccurrences (balanceMarkdownPairs bad) (lit ''**''))" by blast
qed

end
