(* ===== verification/SmsSplit.thy ===== *)
theory SmsSplit
  imports Chunk
begin

text \<open>
  \<open>packages/gateway-sms/src/split.ts\<close>: multipart SMS. Each part carries a \<open>(i/N)\<close> prefix whose width
  depends on the number of parts, which depends on the room the prefix leaves; the code iterates to a
  fixed point in at most eight passes. \<open>limit\<close> is an integer in every call; \<open>seg\<close> is the runtime's
  grapheme segmenter, as in \<open>Chunk\<close>.
\<close>

datatype sms_error = PartTooSmall int nat | Chunking range_error | DidNotSettle nat int

definition prefixWidthFor :: "nat \<Rightarrow> nat" where
  "prefixWidthFor tot = 2 * length (dec tot) + 4"

definition sms_prefix :: "nat \<Rightarrow> nat \<Rightarrow> js" where
  "sms_prefix i tot = lit ''('' @ dec (i + 1) @ lit ''/'' @ dec tot @ lit '') ''"

definition number_parts :: "js list \<Rightarrow> js list" where
  "number_parts parts =
     map (\<lambda>(i, p). sms_prefix i (length parts) @ p) (zip [0..<length parts] parts)"

fun sms_passes :: "(js \<Rightarrow> js list) \<Rightarrow> js \<Rightarrow> int \<Rightarrow> nat \<Rightarrow> nat \<Rightarrow> sms_error + js list" where
  "sms_passes seg text limit 0 reserved = Inl (DidNotSettle (length text) limit)"
| "sms_passes seg text limit (Suc passes) reserved =
     (let partLimit = limit - int reserved
      in if partLimit \<le> 0 then Inl (PartTooSmall limit reserved)
         else case chunkByGrapheme seg text (JInt limit) (Some (JInt partLimit)) of
                Inl e \<Rightarrow> Inl (Chunking e)
              | Inr parts \<Rightarrow>
                  if length parts \<le> 1 then Inr parts
                  else let needed = prefixWidthFor (length parts)
                       in if needed \<le> reserved then Inr (number_parts parts)
                          else sms_passes seg text limit passes needed)"

definition splitForSMS :: "(js \<Rightarrow> js list) \<Rightarrow> js \<Rightarrow> int option \<Rightarrow> sms_error + js list" where
  "splitForSMS seg text limit =
     sms_passes seg text (case limit of None \<Rightarrow> 1600 | Some l \<Rightarrow> l) 8 (prefixWidthFor 1)"

section \<open>The prefix\<close>

lemma prefixWidthFor_mono: "m \<le> n \<Longrightarrow> prefixWidthFor m \<le> prefixWidthFor n"
  by (simp add: prefixWidthFor_def dec_length_mono)

lemma length_sms_prefix: "i < tot \<Longrightarrow> length (sms_prefix i tot) \<le> prefixWidthFor tot"
  using dec_length_mono [of "i + 1" tot] by (simp add: sms_prefix_def prefixWidthFor_def)

lemma number_parts_elem:
  "p \<in> set (number_parts parts) \<Longrightarrow>
   \<exists>i < length parts. p = sms_prefix i (length parts) @ parts ! i"
  by (auto simp: number_parts_def set_zip)

lemma length_number_parts [simp]: "length (number_parts parts) = length parts"
  by (simp add: number_parts_def)

section \<open>One pass\<close>

lemma blocks_le_length:
  assumes "is_segmenter seg" "concat bs = seg t" "\<forall>x\<in>set bs. x \<noteq> []"
  shows "length bs \<le> length t"
proof -
  have seg: "concat (seg t) = t" "[] \<notin> set (concat bs)"
    using assms(1,2) by (auto simp: is_segmenter_def)
  have "length bs \<le> length (concat (concat bs))"
    using seg(2) assms(3)
  proof (induction bs)
    case (Cons b bs)
    have "0 < length (concat b)" using Cons.prems by (cases b) auto
    moreover have "length bs \<le> length (concat (concat bs))" using Cons by simp
    ultimately show ?case by (simp only: concat.simps length_append concat_append list.size)
  qed simp
  then show ?thesis using seg(1) assms(2) by simp
qed

text \<open>What one pass cuts: the text's blocks of graphemes, no more of them than code units.\<close>

lemma sms_pass_parts:
  assumes "is_segmenter seg" "0 < limit" "0 < pl" "t \<noteq> []"
  obtains parts where "chunkByGrapheme seg t (JInt limit) (Some (JInt pl)) = Inr parts"
    "concat parts = t" "length parts \<le> length t"
    "parts = [t] \<and> int (length t) \<le> limit \<or>
      (\<forall>p\<in>set parts. int (length p) \<le> pl \<or> p \<in> set (seg t))"
proof -
  have "assertPositiveInt x (JInt limit) = Inr limit" "assertPositiveInt x (JInt pl) = Inr pl" for x
    using assms by (simp_all add: assertPositiveInt_Inr_iff)
  then have "\<exists>parts. chunkByGrapheme seg t (JInt limit) (Some (JInt pl)) = Inr parts"
    using assms(4) by (simp add: chunkByGrapheme_def)
  then obtain parts where run: "chunkByGrapheme seg t (JInt limit) (Some (JInt pl)) = Inr parts"
    by blast
  obtain pl' where bl: "JInt pl = JInt pl'" "int (length t) \<le> limit \<and> parts = [t] \<or>
     (\<exists>bs. parts = map concat bs \<and> concat bs = seg t \<and>
       (\<forall>x\<in>set bs. x \<noteq> [] \<and> (int (length (concat x)) \<le> pl' \<or> (\<exists>s. x = [s]))))"
    by (rule chunkByGrapheme_blocks [OF assms(1) run]) auto
  have "length parts \<le> length t"
    using bl(2)
  proof
    assume "int (length t) \<le> limit \<and> parts = [t]"
    then show ?thesis using assms(4) by (simp add: Suc_le_eq)
  next
    assume "\<exists>bs. parts = map concat bs \<and> concat bs = seg t \<and>
       (\<forall>x\<in>set bs. x \<noteq> [] \<and> (int (length (concat x)) \<le> pl' \<or> (\<exists>s. x = [s])))"
    then obtain bs where "parts = map concat bs" "concat bs = seg t" "\<forall>x\<in>set bs. x \<noteq> []"
      by blast
    then show ?thesis using blocks_le_length [OF assms(1)] by simp
  qed
  moreover have "parts = [t] \<and> int (length t) \<le> limit \<or>
      (\<forall>p\<in>set parts. int (length p) \<le> pl \<or> p \<in> set (seg t))"
  proof -
    have "p \<in> set (seg t)" if "x \<in> set bs" "x = [s]" "p = concat x" "concat bs = seg t" for x bs s p
      using that by (metis concat.simps append_Nil2 UN_I list.set_intros(1) set_concat)
    then show ?thesis using bl by fastforce
  qed
  ultimately show ?thesis
    using that [OF run chunkByGrapheme_concat [OF assms(1) run]] by blast
qed

section \<open>All passes\<close>

lemma sms_passes_spec:
  assumes "is_segmenter seg" "t \<noteq> []" "0 < limit"
    and "sms_passes seg t limit n reserved = Inr ps"
  shows "length ps = 1 \<and> concat ps = t \<and>
      (\<forall>p\<in>set ps. int (length p) \<le> limit \<or> p \<in> set (seg t)) \<or>
    (\<exists>parts. ps = number_parts parts \<and> concat parts = t \<and> length parts \<le> length t \<and>
      1 < length parts \<and>
      (\<forall>p\<in>set parts. int (length p) + int (prefixWidthFor (length parts)) \<le> limit \<or> p \<in> set (seg t)))"
  using assms(4)
proof (induction n arbitrary: reserved)
  case (Suc n)
  define pl where "pl = limit - int reserved"
  have pl: "0 < pl" using Suc.prems by (auto simp: pl_def Let_def split: if_splits)
  obtain parts where parts: "chunkByGrapheme seg t (JInt limit) (Some (JInt pl)) = Inr parts"
    "concat parts = t" "length parts \<le> length t"
    "parts = [t] \<and> int (length t) \<le> limit \<or>
      (\<forall>p\<in>set parts. int (length p) \<le> pl \<or> p \<in> set (seg t))"
    using sms_pass_parts [OF assms(1,3) pl assms(2)] by metis
  have ne: "0 < length parts" using parts(2) assms(2) by (cases parts) auto
  show ?case
  proof (cases "length parts \<le> 1")
    case True
    then have "ps = parts" using Suc.prems parts(1) pl by (simp add: pl_def)
    moreover have "length parts = 1" using True ne by linarith
    moreover have "int (length p) \<le> limit \<or> p \<in> set (seg t)" if "p \<in> set parts" for p
      using parts(4) that by (cases "parts = [t]") (auto simp: pl_def)
    ultimately show ?thesis using parts(2) by blast
  next
    case more: False
    show ?thesis
    proof (cases "prefixWidthFor (length parts) \<le> reserved")
      case True
      then have "ps = number_parts parts" using Suc.prems parts(1) pl more by (simp add: pl_def Let_def)
      moreover have "\<forall>p\<in>set parts. int (length p) + int (prefixWidthFor (length parts)) \<le> limit \<or> p \<in> set (seg t)"
        using parts(4) more True by (auto simp: pl_def)
      ultimately show ?thesis using parts(2,3) more by auto
    next
      case False
      then have "sms_passes seg t limit n (prefixWidthFor (length parts)) = Inr ps"
        using Suc.prems parts(1) pl more by (simp add: pl_def Let_def)
      then show ?thesis by (rule Suc.IH)
    qed
  qed
qed simp

text \<open>Each failed pass widens the prefix by a digit, so eight passes cover every count below \<open>10 ^ 8\<close>.\<close>

lemma sms_passes_settle:
  assumes "is_segmenter seg" "t \<noteq> []" "int (prefixWidthFor (length t)) < limit"
    and "length t < 10 ^ 8" "2 * (9 - n) + 4 \<le> reserved" "n \<le> 8" "0 < n"
    and "reserved \<le> prefixWidthFor (length t)"
  shows "\<exists>ps. sms_passes seg t limit n reserved = Inr ps"
  using assms(5-)
proof (induction n arbitrary: reserved)
  case (Suc n)
  define pl where "pl = limit - int reserved"
  have pl: "0 < pl" "0 < limit" using Suc.prems assms(3) by (auto simp: pl_def)
  obtain parts where parts: "chunkByGrapheme seg t (JInt limit) (Some (JInt pl)) = Inr parts"
    "length parts \<le> length t"
    using sms_pass_parts [OF assms(1) pl(2,1) assms(2)] by metis
  have needed: "prefixWidthFor (length parts) \<le> prefixWidthFor (length t)"
    using parts(2) by (rule prefixWidthFor_mono)
  have "prefixWidthFor (length t) \<le> 20"
    using dec_length_bound [of 8 "length t"] assms(4) by (simp add: prefixWidthFor_def)
  then have "prefixWidthFor (length parts) \<le> reserved" if "n = 0"
    using that Suc.prems(1) needed by simp
  moreover have "2 * (9 - n) + 4 \<le> prefixWidthFor (length parts)"
    if "\<not> prefixWidthFor (length parts) \<le> reserved"
    using that Suc.prems(1,2) by (auto simp: prefixWidthFor_def)
  ultimately show ?case
    using Suc.IH [of "prefixWidthFor (length parts)"] Suc.prems parts(1) pl needed
    by (cases "n = 0") (auto simp: pl_def Let_def)
qed simp

section \<open>Properties\<close>

text \<open>
  Whenever \<open>splitForSMS\<close> returns parts for a text whose graphemes each leave room for the widest
  prefix, every part fits the limit with its prefix, and the payloads in order are the text.
\<close>
theorem splitForSMS_fits_and_spells:
  assumes "is_segmenter seg" "t \<noteq> []" "0 < limit" "splitForSMS seg t (Some limit) = Inr ps"
    and "\<forall>g\<in>set (seg t). int (length g + prefixWidthFor (length t)) \<le> limit"
  shows "(\<forall>p\<in>set ps. int (length p) \<le> limit) \<and>
    (length ps = 1 \<and> concat ps = t \<or>
     (\<exists>payloads. ps = number_parts payloads \<and> concat payloads = t))"
proof -
  have "sms_passes seg t limit 8 (prefixWidthFor 1) = Inr ps"
    using assms(4) by (simp add: splitForSMS_def)
  then consider "length ps = 1 \<and> concat ps = t"
    "\<forall>p\<in>set ps. int (length p) \<le> limit \<or> p \<in> set (seg t)"
    | parts where "ps = number_parts parts" "concat parts = t" "length parts \<le> length t"
    "\<forall>p\<in>set parts. int (length p) + int (prefixWidthFor (length parts)) \<le> limit \<or> p \<in> set (seg t)"
    using sms_passes_spec [OF assms(1-3)] by blast
  then show ?thesis
  proof cases
    case 1
    then show ?thesis using assms(5) by fastforce
  next
    case 2
    have "int (length p) \<le> limit" if p: "p \<in> set ps" for p
    proof -
      obtain i where i: "i < length parts" "p = sms_prefix i (length parts) @ parts ! i"
        using number_parts_elem p 2(1) by blast
      have "int (length (parts ! i)) + int (prefixWidthFor (length parts)) \<le> limit"
        using 2(3,4) i(1) assms(5) prefixWidthFor_mono [OF 2(3)] by (fastforce simp: nth_mem)
      then show ?thesis using i length_sms_prefix [OF i(1)] by simp
    qed
    then show ?thesis using 2(1,2) by blast
  qed
qed

theorem splitForSMS_fits_and_spells_witness:
  "is_segmenter (map (\<lambda>c. [c])) \<and>
   splitForSMS (map (\<lambda>c. [c])) (lit ''abcdefghijk'') (Some 10) =
     Inr [lit ''(1/3) abcd'', lit ''(2/3) efgh'', lit ''(3/3) ijk''] \<and>
   list_all (\<lambda>p. int (length p) \<le> 10) [lit ''(1/3) abcd'', lit ''(2/3) efgh'', lit ''(3/3) ijk'']"
proof -
  have seg: "is_segmenter (map (\<lambda>c. [c]))"
    unfolding is_segmenter_def
  proof (intro allI)
    fix t :: js show "concat (map (\<lambda>c. [c]) t) = t \<and> [] \<notin> set (map (\<lambda>c. [c]) t)"
      by (induction t) auto
  qed
  have run: "splitForSMS (map (\<lambda>c. [c])) (lit ''abcdefghijk'') (Some 10) =
     Inr [lit ''(1/3) abcd'', lit ''(2/3) efgh'', lit ''(3/3) ijk'']"
    by code_simp
  have "\<forall>g\<in>set (map (\<lambda>c. [c]) (lit ''abcdefghijk'')).
      int (length g + prefixWidthFor (length (lit ''abcdefghijk''))) \<le> 10"
    by code_simp
  then show ?thesis using splitForSMS_fits_and_spells [OF seg _ _ run] seg run by simp
qed

text \<open>
  For a text below \<open>10 ^ 8\<close> code units and a limit above its widest prefix, the eight passes always
  reach the fixed point: the error after the loop is unreachable, as the code's comment says.
\<close>
theorem splitForSMS_settles:
  assumes "is_segmenter seg" "t \<noteq> []" "length t < 10 ^ 8"
    and "int (prefixWidthFor (length t)) < limit"
  shows "\<exists>ps. splitForSMS seg t (Some limit) = Inr ps"
proof -
  have "1 \<le> length t" using assms(2) by (simp add: Suc_le_eq)
  then have "prefixWidthFor 1 \<le> prefixWidthFor (length t)" by (rule prefixWidthFor_mono)
  moreover have "2 * (9 - 8) + 4 \<le> prefixWidthFor 1" by (simp add: prefixWidthFor_def dec.simps)
  ultimately show ?thesis
    using sms_passes_settle [OF assms(1,2,4,3), of 8] by (simp add: splitForSMS_def)
qed

theorem splitForSMS_settles_witness:
  "\<exists>ps. splitForSMS (map (\<lambda>c. [c])) (lit ''abc'') (Some 20) = Inr ps"
proof (rule splitForSMS_settles)
  show "is_segmenter (map (\<lambda>c. [c]))"
    unfolding is_segmenter_def
  proof (intro allI)
    fix t :: js show "concat (map (\<lambda>c. [c]) t) = t \<and> [] \<notin> set (map (\<lambda>c. [c]) t)"
      by (induction t) auto
  qed
qed (simp_all add: prefixWidthFor_def dec.simps)

end
