(* ===== verification/Messages.thy ===== *)
theory Messages
  imports JsString
begin

text \<open>
  The shapes the gateway passes around: inbound events (\<open>types/message-event.ts\<close>), outbound messages and
  send results (\<open>adapter/base.ts\<close>). A platform's event variant is an extension of the base record.
  A platform name is a string: the union of names is open, since packages outside the repository
  register their own.
\<close>

type_synonym platform = js

datatype chan_type = DM | Group | Thread

record channel =
  ch_id :: js
  ch_type :: chan_type
  ch_topicId :: "js option"

record sender =
  snd_id :: js
  snd_username :: "js option"
  snd_displayName :: "js option"

record message_event =
  ev_id :: js
  ev_platform :: platform
  ev_sender :: sender
  ev_channel :: channel
  ev_text :: js
  ev_receivedAt :: int
  ev_replyTo :: "js option"

datatype format = Plain | Markdown | Html

record outbound =
  out_channel :: channel
  out_text :: js
  out_format :: "format option"
  out_replyTo :: "js option"

record send_error =
  err_code :: js
  err_message :: js

record send_result =
  sr_ok :: bool
  sr_messageId :: "js option"
  sr_error :: "send_error option"

definition send_ok :: "js option \<Rightarrow> send_result" where
  "send_ok mid = \<lparr>sr_ok = True, sr_messageId = mid, sr_error = None\<rparr>"

definition send_refused :: "js \<Rightarrow> js \<Rightarrow> send_result" where
  "send_refused c m =
     \<lparr>sr_ok = False, sr_messageId = None, sr_error = Some \<lparr>err_code = c, err_message = m\<rparr>\<rparr>"

lemma send_result_simps [simp]:
  "sr_ok (send_ok mid)" "\<not> sr_ok (send_refused c m)"
  "sr_messageId (send_ok mid) = mid" "sr_error (send_ok mid) = None"
  "sr_error (send_refused c m) = Some \<lparr>err_code = c, err_message = m\<rparr>"
  by (simp_all add: send_ok_def send_refused_def)

definition has_code :: "send_result \<Rightarrow> string \<Rightarrow> bool" where
  "has_code r c \<longleftrightarrow> (\<exists>e. sr_error r = Some e \<and> err_code e = lit c)"

end
