(* ===== verification/Effects.thy ===== *)
theory Effects
  imports Messages
begin

text \<open>
  Effects of the asynchronous code: user code (handlers, hooks, platform clients) is a function of the
  state of the world that returns or throws; standard error is the list of lines written. A
  computation is one run of an \<open>async\<close> function, its awaits included. What other tasks do meanwhile
  is in the world the awaited call hands back.
\<close>

text \<open>
  A thrown value, as far as the code looks at it: an \<open>Error\<close> with its message; \<open>null\<close> or \<open>undefined\<close>,
  of which reading \<open>.message\<close> throws; any other value, with the text of its \<open>message\<close> property
  (\<open>undefined\<close> when it has none) and its \<open>String(...)\<close>.
\<close>

datatype thrown =
    ThrownError js
  | ThrownNullish js
  | ThrownOther js js

fun message_of :: "thrown \<Rightarrow> js option" where
  "message_of (ThrownError m) = Some m"
| "message_of (ThrownNullish s) = None"
| "message_of (ThrownOther m s) = Some m"

text \<open>\<open>err instanceof Error ? err.message : String(err)\<close>.\<close>

fun text_of :: "thrown \<Rightarrow> js" where
  "text_of (ThrownError m) = m"
| "text_of (ThrownNullish s) = s"
| "text_of (ThrownOther m s) = s"

definition nullish :: "thrown \<Rightarrow> bool" where
  "nullish t \<longleftrightarrow> message_of t = None"

definition type_error :: thrown where
  "type_error = ThrownError (lit ''Cannot read properties of undefined (reading 'message')'')"

lemma not_nullish_type_error [simp]: "\<not> nullish type_error"
  by (simp add: nullish_def type_error_def)

datatype 'a outcome = Returned 'a | Threw thrown

record 'w env =
  env_world :: 'w
  env_log :: "js list"

type_synonym ('w, 'a) comp = "'w env \<Rightarrow> 'a outcome \<times> 'w env"

definition write_line :: "js \<Rightarrow> 'w env \<Rightarrow> 'w env" where
  "write_line line env = env\<lparr>env_log := env_log env @ [line]\<rparr>"

lemma write_line_world [simp]: "env_world (write_line line env) = env_world env"
  by (simp add: write_line_def)

lemma write_line_log [simp]: "env_log (write_line line env) = env_log env @ [line]"
  by (simp add: write_line_def)

text \<open>What a JavaScript value is, as far as configuration checks look at it.\<close>

datatype jsval =
    VUndef
  | VNull
  | VBool bool
  | VNum js_num
  | VStr js
  | VFun
  | VObj "(js \<times> jsval) list"

fun typeof :: "jsval \<Rightarrow> js" where
  "typeof VUndef = lit ''undefined''"
| "typeof VNull = lit ''object''"
| "typeof (VBool b) = lit ''boolean''"
| "typeof (VNum n) = lit ''number''"
| "typeof (VStr s) = lit ''string''"
| "typeof VFun = lit ''function''"
| "typeof (VObj fs) = lit ''object''"

text \<open>\<open>v[key]\<close> on an object; absent is \<open>undefined\<close>.\<close>

fun field_of :: "jsval \<Rightarrow> js \<Rightarrow> jsval" where
  "field_of (VObj fs) k = (case map_of fs k of None \<Rightarrow> VUndef | Some v \<Rightarrow> v)"
| "field_of _ k = VUndef"

text \<open>A configuration error and a lifecycle error: the fields the constructors set.\<close>

record config_error =
  ce_code :: js
  ce_message :: js
  ce_detail :: "js option"

definition GatewayConfigurationError :: "js \<Rightarrow> js \<Rightarrow> js option \<Rightarrow> js option \<Rightarrow> config_error" where
  "GatewayConfigurationError pfx code message detail =
     \<lparr>ce_code = code,
      ce_message = (case message of None \<Rightarrow> pfx @ lit '': '' @ code | Some m \<Rightarrow> m),
      ce_detail = detail\<rparr>"

record lifecycle_error =
  le_code :: js
  le_message :: js

definition GatewayLifecycleError :: "js \<Rightarrow> js \<Rightarrow> lifecycle_error" where
  "GatewayLifecycleError code message = \<lparr>le_code = code, le_message = message\<rparr>"

definition quoted :: "js \<Rightarrow> js" where
  "quoted s = [34] @ s @ [34]"

end
