(* ===== verification/Regex.thy ===== *)
theory Regex
  imports JsString
begin

text \<open>
  The fragment of JavaScript regular expressions the core package writes: alternatives of sequences
  of single-character items, repetitions of one character class (greedy or lazy, with bounds, some of
  them captured by a named group) and negative assertions about the neighbouring character. A match is
  found by backtracking in the order ECMAScript prescribes, and \<open>replace_all\<close> is
  \<open>String.prototype.replace\<close> with the \<open>g\<close> flag. No item of a pattern distinguishes a
  surrogate from another, so matching by code unit and matching by code point (the \<open>u\<close> flag) agree.
\<close>

section \<open>Character classes\<close>

text \<open>A list of ranges, and whether the class is negated.\<close>

datatype cls = Cls bool "(cu \<times> cu) list"

fun in_ranges :: "(cu \<times> cu) list \<Rightarrow> cu \<Rightarrow> bool" where
  "in_ranges [] c = False"
| "in_ranges ((lo, hi) # rs) c = ((lo \<le> c \<and> c \<le> hi) \<or> in_ranges rs c)"

fun in_cls :: "cls \<Rightarrow> cu \<Rightarrow> bool" where
  "in_cls (Cls neg rs) c = (neg \<noteq> in_ranges rs c)"

definition only :: "char \<Rightarrow> cls" where
  "only c = Cls False [(of_char c, of_char c)]"

abbreviation "r_upper \<equiv> (65, 90) :: cu \<times> cu"
abbreviation "r_lower \<equiv> (97, 122) :: cu \<times> cu"
abbreviation "r_digit \<equiv> (48, 57) :: cu \<times> cu"

definition any_but_newline :: cls where
  "any_but_newline = Cls True [(10, 10), (13, 13), (0x2028, 0x2029)]"

definition digit :: cls where "digit = Cls False [r_digit]"

definition word_char :: cls where
  "word_char = Cls False [r_upper, r_lower, r_digit, (95, 95)]"

definition space :: cls where
  "space = Cls False [(9, 13), (32, 32), (0xA0, 0xA0), (0x1680, 0x1680), (0x2000, 0x200A),
     (0x2028, 0x2029), (0x202F, 0x202F), (0x205F, 0x205F), (0x3000, 0x3000), (0xFEFF, 0xFEFF)]"

section \<open>Patterns\<close>

text \<open>
  \<open>Rep g k lo hi greedy\<close> is \<open>k{lo,hi}\<close>, with \<open>hi = None\<close> for no upper bound, and with \<open>g\<close> the number
  of the group that captures it, if one does.
\<close>

datatype item =
    One cls
  | Rep "nat option" cls nat "nat option" bool
  | NotBehind cls
  | NotAhead cls

type_synonym alternative = "item list"
type_synonym pattern = "alternative list"
type_synonym captures = "(nat \<times> js) list"

definition chars :: "string \<Rightarrow> item list" where
  "chars s = map (\<lambda>c. One (only c)) s"

text \<open>The repetition counts in the order backtracking tries them.\<close>

definition counts :: "cls \<Rightarrow> nat \<Rightarrow> nat option \<Rightarrow> bool \<Rightarrow> js \<Rightarrow> nat list" where
  "counts k lo hi greedy s =
     (let avail = length (takeWhile (in_cls k) s);
          top = (case hi of None \<Rightarrow> avail | Some h \<Rightarrow> min avail h);
          up = [lo ..< Suc top]
      in if greedy then rev up else up)"

fun first_some :: "('a \<Rightarrow> 'b option) \<Rightarrow> 'a list \<Rightarrow> 'b option" where
  "first_some f [] = None"
| "first_some f (x # xs) = (case f x of None \<Rightarrow> first_some f xs | Some y \<Rightarrow> Some y)"

definition last_of :: "cu option \<Rightarrow> js \<Rightarrow> cu option" where
  "last_of pv s = (if s = [] then pv else Some (last s))"

text \<open>
  \<open>run items pv s\<close> matches the items at the front of \<open>s\<close>, where \<open>pv\<close> is the character before it;
  the result is the number of characters consumed and the captures.
\<close>

fun run :: "alternative \<Rightarrow> cu option \<Rightarrow> js \<Rightarrow> (nat \<times> captures) option" where
  "run [] pv s = Some (0, [])"
| "run (One k # rest) pv s =
     (case s of
        [] \<Rightarrow> None
      | c # s' \<Rightarrow>
          if in_cls k c
          then map_option (\<lambda>(n, caps). (Suc n, caps)) (run rest (Some c) s')
          else None)"
| "run (Rep g k lo hi greedy # rest) pv s =
     first_some (\<lambda>i. map_option
         (\<lambda>(n, caps). (i + n, (case g of None \<Rightarrow> caps | Some j \<Rightarrow> (j, take i s) # caps)))
         (run rest (last_of pv (take i s)) (drop i s)))
       (counts k lo hi greedy s)"
| "run (NotBehind k # rest) pv s =
     (case pv of
        None \<Rightarrow> run rest pv s
      | Some c \<Rightarrow> if in_cls k c then None else run rest pv s)"
| "run (NotAhead k # rest) pv s =
     (case s of
        [] \<Rightarrow> run rest pv s
      | c # s' \<Rightarrow> if in_cls k c then None else run rest pv s)"

definition match_at :: "pattern \<Rightarrow> cu option \<Rightarrow> js \<Rightarrow> (nat \<times> captures) option" where
  "match_at pat pv s = first_some (\<lambda>alt. run alt pv s) pat"

text \<open>
  A global replacement: the leftmost match is replaced and the search goes on after it. Every
  pattern here consumes at least one character, so an empty match is treated as none.
\<close>

function replace_all :: "pattern \<Rightarrow> (js \<Rightarrow> captures \<Rightarrow> js) \<Rightarrow> cu option \<Rightarrow> js \<Rightarrow> js" where
  "replace_all pat f pv [] = []"
| "replace_all pat f pv (c # s) =
     (case match_at pat pv (c # s) of
        Some (Suc n, caps) \<Rightarrow>
          f (c # take n s) caps @ replace_all pat f (last_of pv (c # take n s)) (drop n s)
      | _ \<Rightarrow> c # replace_all pat f (Some c) s)"
  by pat_completeness auto
termination
  by (relation "measure (\<lambda>(_, _, _, s). length s)") auto

section \<open>Facts about matches\<close>

lemma first_some_SomeD: "first_some f xs = Some y \<Longrightarrow> \<exists>x \<in> set xs. f x = Some y"
  by (induction xs) (auto split: option.splits)

lemma first_some_None: "first_some f xs = None \<longleftrightarrow> (\<forall>x \<in> set xs. f x = None)"
  by (induction xs) (auto split: option.splits)

lemma counts_bounds:
  assumes "i \<in> set (counts k lo hi greedy s)"
  shows "lo \<le> i" "i \<le> length s" "\<forall>c \<in> set (take i s). in_cls k c"
proof -
  have i: "lo \<le> i" "i \<le> length (takeWhile (in_cls k) s)"
    using assms by (auto simp: counts_def Let_def split: option.splits if_splits)
  then show "lo \<le> i" "i \<le> length s" using length_takeWhile_le [of "in_cls k" s] by auto
  have "take i s = take i (takeWhile (in_cls k) s)"
    using i(2) by (metis takeWhile_eq_take take_take min.absorb1)
  then show "\<forall>c \<in> set (take i s). in_cls k c"
    by (metis in_set_takeD set_takeWhileD)
qed

text \<open>The least number of characters an alternative consumes.\<close>

fun least_width :: "alternative \<Rightarrow> nat" where
  "least_width [] = 0"
| "least_width (One k # r) = Suc (least_width r)"
| "least_width (Rep g k lo hi b # r) = lo + least_width r"
| "least_width (NotBehind k # r) = least_width r"
| "least_width (NotAhead k # r) = least_width r"

lemma run_width: "run alt pv s = Some (n, caps) \<Longrightarrow> least_width alt \<le> n \<and> n \<le> length s"
proof (induction alt arbitrary: pv s n caps)
  case (Cons a r)
  show ?case
  proof (cases a)
    case (Rep g k lo hi b)
    then obtain i m cs where i: "i \<in> set (counts k lo hi b s)"
      and r: "run r (last_of pv (take i s)) (drop i s) = Some (m, cs)" and n: "n = i + m"
      using Cons.prems by (auto dest!: first_some_SomeD)
    then show ?thesis using Cons.IH [OF r] counts_bounds [OF i] Rep by auto
  next
    case (NotAhead k)
    then have "run r pv s = Some (n, caps)" using Cons.prems by (auto split: list.splits if_splits)
    then show ?thesis using Cons.IH NotAhead by simp
  next
    case (NotBehind k)
    then have "run r pv s = Some (n, caps)" using Cons.prems by (auto split: option.splits if_splits)
    then show ?thesis using Cons.IH NotBehind by simp
  next
    case (One k)
    then obtain c s' m where s: "s = c # s'" "n = Suc m" "run r (Some c) s' = Some (m, caps)"
      using Cons.prems by (auto split: list.splits if_splits)
    then show ?thesis using Cons.IH [OF s(3)] One by simp
  qed
qed simp

lemma match_width:
  "match_at pat pv s = Some (n, caps) \<Longrightarrow> n \<le> length s"
  by (auto simp: match_at_def dest!: first_some_SomeD run_width)

lemma match_progress:
  "match_at pat pv s = Some (n, caps) \<Longrightarrow> \<forall>alt \<in> set pat. 0 < least_width alt \<Longrightarrow> 0 < n"
  by (auto simp: match_at_def dest!: first_some_SomeD run_width)

section \<open>What a replacement keeps and what it replaces\<close>

text \<open>
  The runs of a replacement: a text is the concatenation of kept characters and replaced matches.
\<close>

datatype seg = Kept cu | Matched js captures

fun seg_in :: "seg \<Rightarrow> js" where
  "seg_in (Kept c) = [c]"
| "seg_in (Matched m caps) = m"

fun seg_out :: "(js \<Rightarrow> captures \<Rightarrow> js) \<Rightarrow> seg \<Rightarrow> js" where
  "seg_out f (Kept c) = [c]"
| "seg_out f (Matched m caps) = f m caps"

text \<open>
  \<open>scanned pat pv segs\<close>: at every kept character the pattern does not match (in the whole text that
  follows it), and every matched run is the match the pattern finds there.
\<close>

fun scanned :: "pattern \<Rightarrow> cu option \<Rightarrow> seg list \<Rightarrow> bool" where
  "scanned pat pv [] = True"
| "scanned pat pv (Kept c # segs) =
     ((case match_at pat pv (c # concat (map seg_in segs)) of None \<Rightarrow> True | Some (n, _) \<Rightarrow> n = 0)
      \<and> scanned pat (Some c) segs)"
| "scanned pat pv (Matched m caps # segs) =
     (m \<noteq> [] \<and> match_at pat pv (m @ concat (map seg_in segs)) = Some (length m, caps)
      \<and> scanned pat (last_of pv m) segs)"

lemma replace_all_segs:
  "\<exists>segs. s = concat (map seg_in segs) \<and> scanned pat pv segs
      \<and> (\<forall>f. replace_all pat f pv s = concat (map (seg_out f) segs))"
proof (induction s arbitrary: pv rule: length_induct)
  case (1 s)
  show ?case
  proof (cases s)
    case Nil
    then show ?thesis by (intro exI [of _ "[]"]) simp
  next
    case (Cons c t)
    show ?thesis
    proof (cases "\<exists>n caps. match_at pat pv s = Some (Suc n, caps)")
      case True
      then obtain n caps where m: "match_at pat pv s = Some (Suc n, caps)" by blast
      then have n: "n \<le> length t" using match_width [OF m] Cons by simp
      let ?m = "c # take n t"
      obtain segs where segs: "drop n t = concat (map seg_in segs)"
        "scanned pat (last_of pv ?m) segs"
        "\<forall>f. replace_all pat f (last_of pv ?m) (drop n t) = concat (map (seg_out f) segs)"
        using 1 Cons by (metis length_drop length_Cons less_Suc_eq_le diff_le_self)
      have "length ?m = Suc n" using n by simp
      then have "scanned pat pv (Matched ?m caps # segs)"
        using m segs(2) Cons by (simp flip: segs(1))
      moreover have "replace_all pat f pv (c # t) =
          f ?m caps @ replace_all pat f (last_of pv ?m) (drop n t)" for f
        using m Cons by simp
      ultimately show ?thesis unfolding Cons
        by (intro exI [of _ "Matched ?m caps # segs"]) (simp add: segs(1) [symmetric] segs(3))
    next
      case False
      obtain segs where segs: "t = concat (map seg_in segs)" "scanned pat (Some c) segs"
        "\<forall>f. replace_all pat f (Some c) t = concat (map (seg_out f) segs)"
        using 1 Cons by (metis length_Cons lessI)
      have no: "match_at pat pv (c # t) = None \<or> (\<exists>caps. match_at pat pv (c # t) = Some (0, caps))"
      proof (cases "match_at pat pv (c # t)")
        case (Some r)
        then show ?thesis using False Cons by (cases r; cases "fst r") auto
      qed simp
      have step: "replace_all pat f pv (c # t) = c # replace_all pat f (Some c) t" for f
        using no by (elim disjE exE) simp_all
      have "scanned pat pv (Kept c # segs)"
        using no segs(2) unfolding scanned.simps segs(1) [symmetric] by (elim disjE exE) simp_all
      then show ?thesis unfolding Cons
        by (intro exI [of _ "Kept c # segs"]) (simp add: step segs(1) [symmetric] segs(3) del: replace_all.simps)
    qed
  qed
qed

section \<open>Characters no match crosses\<close>

text \<open>A character that no item of an alternative accepts.\<close>

fun rejects :: "alternative \<Rightarrow> cu \<Rightarrow> bool" where
  "rejects [] z = True"
| "rejects (One k # r) z = (\<not> in_cls k z \<and> rejects r z)"
| "rejects (Rep g k lo hi b # r) z = (\<not> in_cls k z \<and> rejects r z)"
| "rejects (NotBehind k # r) z = (\<not> in_cls k z \<and> rejects r z)"
| "rejects (NotAhead k # r) z = (\<not> in_cls k z \<and> rejects r z)"

text \<open>A sufficient check: all classes lie within ranges that do not contain the character.\<close>

fun cls_within :: "(cu \<times> cu) list \<Rightarrow> cls \<Rightarrow> bool" where
  "cls_within allowed (Cls neg rs) \<longleftrightarrow>
     \<not> neg \<and> list_all (\<lambda>(lo, hi). list_ex (\<lambda>(lo', hi'). lo' \<le> lo \<and> hi \<le> hi') allowed) rs"

fun within :: "(cu \<times> cu) list \<Rightarrow> alternative \<Rightarrow> bool" where
  "within allowed [] = True"
| "within allowed (One k # r) = (cls_within allowed k \<and> within allowed r)"
| "within allowed (Rep g k lo hi b # r) = (cls_within allowed k \<and> within allowed r)"
| "within allowed (NotBehind k # r) = (cls_within allowed k \<and> within allowed r)"
| "within allowed (NotAhead k # r) = (cls_within allowed k \<and> within allowed r)"

lemma in_rangesI: "(lo, hi) \<in> set rs \<Longrightarrow> lo \<le> c \<Longrightarrow> c \<le> hi \<Longrightarrow> in_ranges rs c"
  by (induction rs) auto

lemma cls_within_rejects:
  assumes "cls_within allowed k" "\<not> in_ranges allowed c" shows "\<not> in_cls k c"
proof -
  obtain rs where k: "k = Cls False rs" using assms(1) by (cases k) auto
  have "in_ranges rs c \<Longrightarrow> in_ranges allowed c"
    using assms(1) unfolding k
    by (induction rs) (auto simp: list_ex_iff intro: in_rangesI [OF _ order_trans order_trans])
  then show ?thesis using assms(2) k by auto
qed

lemma within_rejects: "within allowed alt \<Longrightarrow> \<not> in_ranges allowed z \<Longrightarrow> rejects alt z"
  by (induction allowed alt rule: within.induct) (auto dest: cls_within_rejects)

definition barrier :: "pattern \<Rightarrow> cu \<Rightarrow> bool" where
  "barrier pat z \<longleftrightarrow> (\<forall>alt \<in> set pat. rejects alt z)"

lemma counts_barrier: "\<not> in_cls k z \<Longrightarrow> counts k lo hi b (s @ z # t) = counts k lo hi b s"
proof -
  assume "\<not> in_cls k z"
  then have "takeWhile (in_cls k) (s @ z # t) = takeWhile (in_cls k) s"
    by (induction s) auto
  then show ?thesis by (simp only: counts_def)
qed

lemma first_some_cong: "(\<And>x. x \<in> set xs \<Longrightarrow> f x = g x) \<Longrightarrow> first_some f xs = first_some g xs"
  by (induction xs) (auto split: option.splits)

lemma run_barrier: "rejects alt z \<Longrightarrow> run alt pv (s @ z # t) = run alt pv s"
proof (induction alt arbitrary: pv s)
  case (Cons a r)
  show ?case
  proof (cases a)
    case (Rep g k lo hi b)
    have r: "rejects r z" and c: "counts k lo hi b (s @ z # t) = counts k lo hi b s"
      using Cons.prems Rep counts_barrier by auto
    have cut: "take i (s @ z # t) = take i s" "drop i (s @ z # t) = drop i s @ z # t"
      if "i \<in> set (counts k lo hi b s)" for i
      using counts_bounds(2) [OF that] by simp_all
    show ?thesis unfolding Rep run.simps c
      by (intro first_some_cong) (simp only: cut Cons.IH [OF r])
  next
    case (NotAhead k)
    then have ih: "run r pv (s @ z # t) = run r pv s" and z: "\<not> in_cls k z" using Cons by auto
    then show ?thesis unfolding NotAhead by (cases s) simp_all
  qed (use Cons in \<open>auto split: list.splits option.splits simp: Cons_eq_append_conv\<close>)
qed simp

lemma run_after_barrier: "rejects alt z \<Longrightarrow> run alt (Some z) s = run alt None s"
proof (induction alt)
  case (Cons a r)
  show ?case
  proof (cases a)
    case (Rep g k lo hi b)
    have r: "run r (Some z) s = run r None s" using Cons Rep by simp
    have "run r (last_of (Some z) (take i s)) (drop i s) = run r (last_of None (take i s)) (drop i s)" for i
      using r by (cases "take i s = []") (auto simp: last_of_def)
    then show ?thesis unfolding Rep run.simps by simp
  qed (use Cons in \<open>auto split: list.splits\<close>)
qed simp

lemma match_barrier:
  assumes "barrier pat z"
  shows "match_at pat pv (s @ z # t) = match_at pat pv s"
    and "match_at pat (Some z) t = match_at pat None t"
proof -
  show "match_at pat pv (s @ z # t) = match_at pat pv s"
    unfolding match_at_def using assms
    by (intro first_some_cong) (simp add: barrier_def run_barrier)
  show "match_at pat (Some z) t = match_at pat None t"
    unfolding match_at_def using assms
    by (intro first_some_cong) (simp add: barrier_def run_after_barrier)
qed

lemma match_at_barrier_none:
  assumes "barrier pat z" shows "match_at pat pv (z # s) = None \<or> (\<exists>c. match_at pat pv (z # s) = Some (0, c))"
proof -
  have "match_at pat pv (z # s) = match_at pat pv []" using match_barrier(1) [OF assms, of pv "[]" s] by simp
  then show ?thesis using match_width [of pat pv "[]"] by (cases "match_at pat pv []") auto
qed

lemma replace_all_after_barrier:
  assumes "barrier pat z" shows "replace_all pat f (Some z) s = replace_all pat f None s"
proof (cases s)
  case (Cons c t)
  have "match_at pat (Some z) (c # t) = match_at pat None (c # t)" by (rule match_barrier(2) [OF assms])
  moreover have "last_of (Some z) (c # u) = last_of None (c # u)" for u by (simp add: last_of_def)
  ultimately show ?thesis unfolding Cons replace_all.simps by presburger
qed simp

lemma replace_all_barrier:
  assumes "barrier pat z"
  shows "replace_all pat f pv (s @ z # t) = replace_all pat f pv s @ z # replace_all pat f None t"
proof (induction s arbitrary: pv rule: length_induct)
  case (1 s)
  show ?case
  proof (cases s)
    case Nil
    have "replace_all pat f pv (z # t) = z # replace_all pat f (Some z) t"
      using match_at_barrier_none [OF assms, of pv t] by (elim disjE exE) simp_all
    then show ?thesis by (simp only: Nil append_Nil replace_all.simps replace_all_after_barrier [OF assms])
  next
    case (Cons c u)
    have m: "match_at pat pv (c # u @ z # t) = match_at pat pv (c # u)"
      using match_barrier(1) [OF assms, of pv "c # u" t] by simp
    have ih: "replace_all pat f pv' (u' @ z # t) = replace_all pat f pv' u' @ z # replace_all pat f None t"
      if "length u' \<le> length u" for pv' u' using 1 Cons that by simp
    show ?thesis
    proof (cases "match_at pat pv (c # u)")
      case None
      then show ?thesis using ih [of u] Cons by (simp add: m)
    next
      case (Some p)
      obtain n caps where p: "p = (n, caps)" by (cases p)
      show ?thesis
      proof (cases n)
        case 0
        then show ?thesis using ih [of u] Cons Some p by (simp add: m)
      next
        case (Suc k)
        then have "k \<le> length u" using match_width [of pat pv "c # u" n caps] Some p by simp
        then show ?thesis using ih [of "drop k u"] Cons Some p Suc by (simp add: m)
      qed
    qed
  qed
qed

section \<open>What a match spells\<close>

fun spells :: "alternative \<Rightarrow> js \<Rightarrow> captures \<Rightarrow> bool" where
  "spells [] m caps \<longleftrightarrow> m = [] \<and> caps = []"
| "spells (One k # r) m caps \<longleftrightarrow> (\<exists>c m'. m = c # m' \<and> in_cls k c \<and> spells r m' caps)"
| "spells (Rep g k lo hi b # r) m caps \<longleftrightarrow>
     (\<exists>x y cs. m = x @ y \<and> lo \<le> length x \<and> (\<forall>c \<in> set x. in_cls k c) \<and> spells r y cs
        \<and> caps = (case g of None \<Rightarrow> cs | Some j \<Rightarrow> (j, x) # cs))"
| "spells (NotBehind k # r) m caps \<longleftrightarrow> spells r m caps"
| "spells (NotAhead k # r) m caps \<longleftrightarrow> spells r m caps"

lemma run_spells: "run alt pv s = Some (n, caps) \<Longrightarrow> spells alt (take n s) caps"
proof (induction alt arbitrary: pv s n caps)
  case (Cons a r)
  show ?case
  proof (cases a)
    case (Rep g k lo hi b)
    then obtain i m cs where i: "i \<in> set (counts k lo hi b s)"
      and r: "run r (last_of pv (take i s)) (drop i s) = Some (m, cs)" and n: "n = i + m"
      and caps: "caps = (case g of None \<Rightarrow> cs | Some j \<Rightarrow> (j, take i s) # cs)"
      using Cons.prems by (auto dest!: first_some_SomeD)
    have "take n s = take i s @ take m (drop i s)" by (simp add: n take_add)
    moreover have "lo \<le> length (take i s)" "\<forall>c \<in> set (take i s). in_cls k c"
      using counts_bounds [OF i] by auto
    ultimately show ?thesis unfolding Rep spells.simps using Cons.IH [OF r] caps by blast
  next
    case (NotAhead k)
    then have "run r pv s = Some (n, caps)" using Cons.prems by (auto split: list.splits if_splits)
    then show ?thesis using Cons.IH NotAhead by simp
  next
    case (NotBehind k)
    then have "run r pv s = Some (n, caps)" using Cons.prems by (auto split: option.splits if_splits)
    then show ?thesis using Cons.IH NotBehind by simp
  next
    case (One k)
    then obtain c s' m where s: "s = c # s'" "n = Suc m" "run r (Some c) s' = Some (m, caps)" "in_cls k c"
      using Cons.prems by (auto split: list.splits if_splits)
    then show ?thesis using Cons.IH [OF s(3)] One by simp
  qed
qed simp

lemma match_spells:
  "match_at pat pv s = Some (n, caps) \<Longrightarrow> \<exists>alt \<in> set pat. spells alt (take n s) caps"
  by (auto simp: match_at_def dest!: first_some_SomeD run_spells)

lemma scanned_spells:
  "scanned pat pv segs \<Longrightarrow> Matched m caps \<in> set segs \<Longrightarrow> \<exists>alt \<in> set pat. spells alt m caps"
proof (induction pat pv segs rule: scanned.induct)
  case (3 pat pv m' caps' segs)
  then show ?case using match_spells [of pat pv "m' @ concat (map seg_in segs)" "length m'" caps'] by auto
qed auto

text \<open>A replacement that keeps the selected part of every match keeps that part of the text.\<close>

lemma replace_all_preserves:
  assumes "\<And>alt m caps. alt \<in> set pat \<Longrightarrow> spells alt m caps \<Longrightarrow> filter P (f m caps) = filter P m"
  shows "filter P (replace_all pat f pv s) = filter P s"
proof -
  obtain segs where segs: "s = concat (map seg_in segs)" "scanned pat pv segs"
    "replace_all pat f pv s = concat (map (seg_out f) segs)"
    using replace_all_segs [of s pat pv] by blast
  have "filter P (seg_out f g) = filter P (seg_in g)" if g: "g \<in> set segs" for g
  proof (cases g)
    case (Matched m caps)
    then obtain alt where "alt \<in> set pat" "spells alt m caps"
      using g scanned_spells [OF segs(2)] by blast
    then show ?thesis using assms Matched by simp
  qed simp
  then show ?thesis unfolding segs(3) unfolding segs(1)
    by (induction segs) auto
qed

lemma replace_all_subseq:
  assumes "\<And>alt m caps. alt \<in> set pat \<Longrightarrow> spells alt m caps \<Longrightarrow> subseq (f m caps) m"
  shows "subseq (replace_all pat f pv s) s"
proof -
  obtain segs where segs: "s = concat (map seg_in segs)" "scanned pat pv segs"
    "replace_all pat f pv s = concat (map (seg_out f) segs)"
    using replace_all_segs [of s pat pv] by blast
  have "subseq (seg_out f g) (seg_in g)" if g: "g \<in> set segs" for g
  proof (cases g)
    case (Matched m caps)
    then obtain alt where "alt \<in> set pat" "spells alt m caps"
      using g scanned_spells [OF segs(2)] by blast
    then show ?thesis using assms Matched by simp
  qed simp
  then show ?thesis unfolding segs(3) unfolding segs(1)
    by (induction segs) (auto intro: list_emb_append_mono)
qed

end
