(* ===== verification/Credentials.thy ===== *)
theory Credentials
  imports Regex
begin

text \<open>
  \<open>packages/gateway/src/security/credential-patterns.ts\<close>: the credential shapes masked before a text
  reaches a log. \<open>Security.redact\<close> belongs to the SDK and is the parameter \<open>sdk\<close>.
\<close>

abbreviation alnum :: "(cu \<times> cu) list" where "alnum \<equiv> [r_upper, r_lower, r_digit]"
abbreviation r_dash :: "cu \<times> cu" where "r_dash \<equiv> (45, 45)"
abbreviation r_under :: "cu \<times> cu" where "r_under \<equiv> (95, 95)"
abbreviation r_tilde :: "cu \<times> cu" where "r_tilde \<equiv> (126, 126)"
abbreviation r_dot :: "cu \<times> cu" where "r_dot \<equiv> (46, 46)"

definition url_safe :: cls where "url_safe = Cls False (alnum @ [r_under, r_dash])"
definition hex :: cls where "hex = Cls False [(97, 102), r_digit]"

definition telegramToken :: pattern where
  "telegramToken =
     [[NotBehind (Cls False alnum), Rep None digit 8 (Some 10) True] @ chars '':'' @
      [Rep None url_safe 35 (Some 35) True, NotAhead url_safe]]"

definition discordToken :: pattern where
  "discordToken =
     [[NotBehind url_safe, Rep None url_safe 23 (Some 28) True] @ chars ''.'' @
      [Rep None url_safe 6 (Some 7) True] @ chars ''.'' @
      [Rep None url_safe 27 None True, NotAhead url_safe]]"

definition slackAppToken :: pattern where
  "slackAppToken =
     [[NotBehind (Cls False (alnum @ [r_dash]))] @ chars ''xapp-'' @ [One digit] @ chars ''-'' @
      [Rep None (Cls False [r_upper, r_digit]) 1 None True] @ chars ''-'' @
      [Rep None digit 1 None True] @ chars ''-'' @ [Rep None hex 32 None True, NotAhead hex]]"

definition matrixToken :: pattern where
  "matrixToken =
     [[NotBehind (Cls False (alnum @ [r_under]))] @ chars ''syt_'' @
      [Rep None url_safe 1 None True] @ chars ''_'' @ [Rep None url_safe 1 None True] @ chars ''_'' @
      [Rep None (Cls False alnum) 1 None True, NotAhead url_safe]]"

definition whatsappToken :: pattern where
  "whatsappToken =
     [[NotBehind (Cls False alnum)] @ chars ''EAA'' @
      [Rep None (Cls False alnum) 20 None True, NotAhead (Cls False alnum)]]"

definition teamsSecret :: pattern where
  "teamsSecret =
     (let tail = Cls False (alnum @ [r_dot, r_under, r_tilde, r_dash]) in
      [[NotBehind (Cls False (alnum @ [r_tilde])), Rep None (Cls False alnum) 3 (Some 3) True, One digit,
        Rep None (Cls False alnum) 0 (Some 1) True] @ chars ''~'' @
       [Rep None tail 30 None True, NotAhead tail]])"

definition CREDENTIAL_SHAPES :: "pattern list" where
  "CREDENTIAL_SHAPES =
     [telegramToken, discordToken, slackAppToken, matrixToken, whatsappToken, teamsSecret]"

definition mask :: "js \<Rightarrow> captures \<Rightarrow> js" where
  "mask m caps = lit ''***''"

definition maskShapes :: "js \<Rightarrow> js" where
  "maskShapes text = foldl (\<lambda>out pat. replace_all pat mask None out) text CREDENTIAL_SHAPES"

definition redactSecrets :: "(js \<Rightarrow> js) \<Rightarrow> js \<Rightarrow> js" where
  "redactSecrets sdk value = sdk (maskShapes value)"

lemmas shape_defs = telegramToken_def discordToken_def slackAppToken_def matrixToken_def
  whatsappToken_def teamsSecret_def

section \<open>Masking a shape\<close>

text \<open>
  \<open>masked pat s t\<close>: \<open>t\<close> is \<open>s\<close> with every occurrence of the shape that a left-to-right scan finds
  replaced, nothing else changed, and no occurrence starting at a kept character.
\<close>

definition masked :: "pattern \<Rightarrow> js \<Rightarrow> js \<Rightarrow> bool" where
  "masked pat s t \<longleftrightarrow> (\<exists>segs. s = concat (map seg_in segs) \<and> scanned pat None segs
     \<and> t = concat (map (seg_out mask) segs))"

lemma replace_all_masked: "masked pat s (replace_all pat mask None s)"
  using replace_all_segs [of s pat None] by (auto simp: masked_def)

fun masked_through :: "pattern list \<Rightarrow> js \<Rightarrow> js \<Rightarrow> bool" where
  "masked_through [] s t \<longleftrightarrow> s = t"
| "masked_through (p # ps) s t \<longleftrightarrow> (\<exists>u. masked p s u \<and> masked_through ps u t)"

lemma foldl_masked:
  "masked_through ps s (foldl (\<lambda>out pat. replace_all pat mask None out) s ps)"
  by (induction ps arbitrary: s) (auto intro: replace_all_masked)

section \<open>Which texts a shape leaves alone\<close>

text \<open>A text in which no match exists is returned as it is.\<close>

fun has_match :: "pattern \<Rightarrow> cu option \<Rightarrow> js \<Rightarrow> bool" where
  "has_match pat pv [] = False"
| "has_match pat pv (c # s) =
     ((case match_at pat pv (c # s) of Some (Suc n, _) \<Rightarrow> True | _ \<Rightarrow> False)
      \<or> has_match pat (Some c) s)"

lemma replace_all_no_match: "\<not> has_match pat pv s \<Longrightarrow> replace_all pat f pv s = s"
  by (induction s arbitrary: pv) (auto split: option.splits nat.splits)

lemma maskShapes_no_match:
  assumes "\<forall>pat \<in> set CREDENTIAL_SHAPES. \<not> has_match pat None s"
  shows "maskShapes s = s"
  using assms by (simp add: maskShapes_def CREDENTIAL_SHAPES_def replace_all_no_match)

section \<open>Delimited credentials\<close>

text \<open>The characters no shape accepts: whitespace, quotes, brackets, \<open>=\<close>, \<open>&\<close>, \<open>/\<close> and the like.\<close>

definition credential_chars :: "(cu \<times> cu) list" where
  "credential_chars = alnum @ [r_dash, r_under, r_tilde, r_dot, (58, 58)]"

definition separator :: "cu \<Rightarrow> bool" where
  "separator c \<longleftrightarrow> \<not> in_ranges credential_chars c"

lemma shapes_within: "list_all (list_all (within credential_chars)) CREDENTIAL_SHAPES"
  by code_simp

lemma separator_barrier: "separator c \<Longrightarrow> pat \<in> set CREDENTIAL_SHAPES \<Longrightarrow> barrier pat c"
  using shapes_within by (auto simp: list_all_iff barrier_def separator_def intro: within_rejects)

lemma foldl_barrier:
  "\<forall>pat \<in> set ps. barrier pat z \<Longrightarrow>
     foldl (\<lambda>out pat. replace_all pat mask None out) (s @ z # t) ps =
     foldl (\<lambda>out pat. replace_all pat mask None out) s ps @ z #
     foldl (\<lambda>out pat. replace_all pat mask None out) t ps"
  by (induction ps arbitrary: s t) (simp_all add: replace_all_barrier)

lemma maskShapes_separator:
  "separator z \<Longrightarrow> maskShapes (s @ z # t) = maskShapes s @ z # maskShapes t"
  unfolding maskShapes_def using foldl_barrier separator_barrier by blast

lemma maskShapes_stars: "maskShapes (lit ''***'') = lit ''***''"
  by code_simp

lemma counts_exact:
  "\<forall>c \<in> set s. in_cls k c \<Longrightarrow> length s = n \<Longrightarrow> counts k n (Some n) True s = [n]"
  by (simp add: counts_def takeWhile_eq_all_conv [THEN iffD2])

lemma match_telegram:
  assumes "\<forall>c \<in> set d. in_cls digit c" "8 \<le> length d" "length d \<le> 10"
    and "\<forall>c \<in> set s. in_cls url_safe c" "length s = 35"
  shows "match_at telegramToken None (d @ 58 # s) = Some (length d + 36, [])"
proof -
  let ?rest = "[Rep None url_safe 35 (Some 35) True, NotAhead url_safe]"
  have c: "counts digit 8 (Some 10) True (d @ 58 # s) = rev [8..<Suc (length d)]"
  proof -
    have "takeWhile (in_cls digit) (d @ 58 # s) = d"
      using assms(1) by (auto simp: takeWhile_append digit_def)
    then show ?thesis using assms(3) by (simp add: counts_def min_def del: upt_Suc)
  qed
  have e: "rev [8..<Suc (length d)] = length d # rev [8..<length d]" using assms(2) by simp
  have "run ?rest (Some 58) s = Some (35, [])"
    using counts_exact [OF assms(4,5)] assms(5) by simp
  moreover have "run (Rep None digit 8 (Some 10) True # One (only CHR '':'') # rest) None (d @ 58 # s) =
      Some (length d + 36, [])" if "run rest (Some 58) s = Some (35, [])" for rest
    using that by (simp add: c e only_def del: upt_Suc)
  ultimately have "run (Rep None digit 8 (Some 10) True # One (only CHR '':'') # ?rest) None (d @ 58 # s) =
      Some (length d + 36, [])" by blast
  then show ?thesis
    unfolding telegramToken_def match_at_def chars_def
    by (simp del: run.simps(3)) 
qed

lemma maskShapes_telegram:
  assumes "\<forall>c \<in> set d. in_cls digit c" "8 \<le> length d" "length d \<le> 10"
    and "\<forall>c \<in> set s. in_cls url_safe c" "length s = 35"
  shows "maskShapes (d @ 58 # s) = lit ''***''"
proof -
  obtain c r where d: "d = c # r" using assms(2) by (cases d) auto
  have "replace_all telegramToken mask None (d @ 58 # s) = lit ''***''"
    using match_telegram [OF assms] assms(5) by (simp add: d mask_def)
  moreover have "foldl (\<lambda>out pat. replace_all pat mask None out) (lit ''***'') (tl CREDENTIAL_SHAPES) = lit ''***''"
    by code_simp
  ultimately show ?thesis by (simp add: maskShapes_def CREDENTIAL_SHAPES_def)
qed

section \<open>Properties\<close>

text \<open>
  Masking replaces, shape after shape, every occurrence a left-to-right scan of the text finds
  by \<open>***\<close> and keeps every other character, and at no kept character does an occurrence of the shape
  start.
\<close>
theorem maskShapes_masks_every_occurrence:
  "masked_through CREDENTIAL_SHAPES text (maskShapes text)"
  unfolding maskShapes_def by (rule foldl_masked)

text \<open>
  A Telegram bot token between two separators never reaches a log, whatever surrounds it: the
  whole token becomes \<open>***\<close>, and the text around it is masked as if it stood alone.
\<close>
theorem delimited_telegram_token_is_masked:
  assumes "\<forall>c \<in> set d. in_cls digit c" "8 \<le> length d" "length d \<le> 10"
    and "\<forall>c \<in> set s. in_cls url_safe c" "length s = 35"
    and "separator y" "separator z"
  shows "maskShapes (before @ y # (d @ 58 # s) @ z # after) =
     maskShapes before @ y # lit ''***'' @ z # maskShapes after"
  using maskShapes_separator [OF assms(6), of before "(d @ 58 # s) @ z # after"]
    maskShapes_separator [OF assms(7), of "d @ 58 # s" after] maskShapes_telegram [OF assms(1-5)]
  by simp

theorem delimited_telegram_token_is_masked_witness:
  "maskShapes (lit ''token'' @ 61 # (lit ''81234567'' @ 58 # replicate 35 65) @ 32 # lit ''refused'') =
     maskShapes (lit ''token'') @ 61 # lit ''***'' @ 32 # maskShapes (lit ''refused'')"
  by (rule delimited_telegram_token_is_masked) (simp_all add: digit_def url_safe_def separator_def credential_chars_def)

end
