(* ===== verification/Dialect.thy ===== *)
theory Dialect
  imports Regex Messages
begin

text \<open>
  \<open>packages/gateway/src/text/dialect.ts\<close> and \<open>channel-rendering.ts\<close>: the rewriting of four inline
  markdown markers into a platform's own, and the table that says which rewriting and which
  \<open>format\<close> a platform takes.
\<close>

record dialect =
  d_bold :: "js option"
  d_italic :: "js option"
  d_strike :: "js option"
  d_code :: "js option"

definition DIALECTS :: "(js \<times> dialect) list" where
  "DIALECTS =
    [(lit ''whatsapp'', \<lparr>d_bold = Some (lit ''*''), d_italic = Some (lit ''_''),
        d_strike = Some (lit ''~''), d_code = Some (lit ''```'')\<rparr>),
     (lit ''line'', \<lparr>d_bold = None, d_italic = None, d_strike = None, d_code = None\<rparr>),
     (lit ''sms'', \<lparr>d_bold = None, d_italic = None, d_strike = None, d_code = None\<rparr>)]"

text \<open>The groups of the pattern, by number: bold, strike, italicStar, italicUnderscore, code.\<close>

definition lazy_group :: "nat \<Rightarrow> item" where
  "lazy_group g = Rep (Some g) any_but_newline 1 None False"

definition PATTERN :: pattern where
  "PATTERN =
    [chars ''**'' @ [lazy_group 0] @ chars ''**'',
     chars ''~~'' @ [lazy_group 1] @ chars ''~~'',
     [NotBehind (Cls False [(42, 42), r_upper, r_lower, r_digit, (95, 95)])] @ chars ''*'' @
       [NotAhead space, lazy_group 2, NotBehind space] @ chars ''*'' @ [NotAhead (only CHR ''*'')],
     [NotBehind word_char] @ chars ''_'' @
       [NotAhead space, lazy_group 3, NotBehind space] @ chars ''_'' @ [NotAhead word_char],
     chars [CHR 0x60] @ [lazy_group 4] @ chars [CHR 0x60]]"

definition GROUP_MARKERS :: "(nat \<times> (dialect \<Rightarrow> js option)) list" where
  "GROUP_MARKERS = [(0, d_bold), (1, d_strike), (2, d_italic), (3, d_italic), (4, d_code)]"

definition rewrite_match :: "dialect \<Rightarrow> js \<Rightarrow> captures \<Rightarrow> js" where
  "rewrite_match dia matched groups =
     (case first_some (\<lambda>(group, marker). map_option (\<lambda>content. (content, marker dia)) (map_of groups group))
             GROUP_MARKERS of
        Some (content, None) \<Rightarrow> content
      | Some (content, Some wrap) \<Rightarrow> wrap @ content @ wrap
      | None \<Rightarrow> matched)"

definition rewriteMarkers :: "js \<Rightarrow> dialect \<Rightarrow> js" where
  "rewriteMarkers text dia = replace_all PATTERN (rewrite_match dia) None text"

definition toDialect :: "js \<Rightarrow> js \<Rightarrow> js" where
  "toDialect text platform =
     (case map_of DIALECTS platform of None \<Rightarrow> text | Some dia \<Rightarrow> rewriteMarkers text dia)"

section \<open>Channel renderings\<close>

definition SLACK :: dialect where
  "SLACK = \<lparr>d_bold = Some (lit ''*''), d_italic = Some (lit ''_''), d_strike = Some (lit ''~''),
     d_code = Some (lit [CHR 0x60])\<rparr>"

definition STRIP :: dialect where
  "STRIP = \<lparr>d_bold = None, d_italic = None, d_strike = None, d_code = None\<rparr>"

text \<open>\<open>translate\<close> is the identity (\<open>None\<close>) or a dialect's rewriting.\<close>

record channel_rendering =
  cr_format :: format
  cr_dialect :: "dialect option"

definition translate :: "channel_rendering \<Rightarrow> js \<Rightarrow> js" where
  "translate r text = (case cr_dialect r of None \<Rightarrow> text | Some dia \<Rightarrow> rewriteMarkers text dia)"

definition RENDERINGS :: "(platform \<times> channel_rendering) list" where
  "RENDERINGS =
    [(lit ''whatsapp'', \<lparr>cr_format = Plain, cr_dialect = map_of DIALECTS (lit ''whatsapp'')\<rparr>),
     (lit ''slack'', \<lparr>cr_format = Markdown, cr_dialect = Some SLACK\<rparr>),
     (lit ''discord'', \<lparr>cr_format = Markdown, cr_dialect = None\<rparr>),
     (lit ''mattermost'', \<lparr>cr_format = Markdown, cr_dialect = None\<rparr>),
     (lit ''teams'', \<lparr>cr_format = Markdown, cr_dialect = None\<rparr>),
     (lit ''signal'', \<lparr>cr_format = Markdown, cr_dialect = None\<rparr>),
     (lit ''line'', \<lparr>cr_format = Plain, cr_dialect = map_of DIALECTS (lit ''line'')\<rparr>),
     (lit ''sms'', \<lparr>cr_format = Plain, cr_dialect = map_of DIALECTS (lit ''sms'')\<rparr>),
     (lit ''telegram'', \<lparr>cr_format = Plain, cr_dialect = Some STRIP\<rparr>),
     (lit ''matrix'', \<lparr>cr_format = Plain, cr_dialect = Some STRIP\<rparr>),
     (lit ''email'', \<lparr>cr_format = Plain, cr_dialect = Some STRIP\<rparr>),
     (lit ''imessage'', \<lparr>cr_format = Plain, cr_dialect = Some STRIP\<rparr>),
     (lit ''google_chat'', \<lparr>cr_format = Plain, cr_dialect = Some STRIP\<rparr>),
     (lit ''irc'', \<lparr>cr_format = Plain, cr_dialect = Some STRIP\<rparr>),
     (lit ''nextcloud_talk'', \<lparr>cr_format = Markdown, cr_dialect = None\<rparr>)]"

definition join :: "js \<Rightarrow> js list \<Rightarrow> js" where
  "join d xs = (case xs of [] \<Rightarrow> [] | y # ys \<Rightarrow> y @ concat (map (\<lambda>z. d @ z) ys))"

definition channelRendering :: "platform \<Rightarrow> js + channel_rendering" where
  "channelRendering platform =
     (case map_of RENDERINGS platform of
        Some r \<Rightarrow> Inr r
      | None \<Rightarrow> Inl (lit ''channelRendering: unknown platform '' @ [34] @ platform @ [34] @
          lit ''; expected one of '' @ join (lit '', '') (map fst RENDERINGS)))"

section \<open>What a match of the pattern is\<close>

definition is_marker :: "cu \<Rightarrow> bool" where
  "is_marker c \<longleftrightarrow> c = 42 \<or> c = 126 \<or> c = 95 \<or> c = 96"

lemma in_only [simp]: "in_cls (only ch) c \<longleftrightarrow> c = of_char ch"
  by (auto simp: only_def)

lemma PATTERN_match:
  assumes "alt \<in> set PATTERN" "spells alt m caps"
  shows "\<exists>g content delim. m = delim @ content @ delim \<and> caps = [(g, content)] \<and> g < 5
     \<and> content \<noteq> [] \<and> list_all is_marker delim"
proof -
  consider "alt = PATTERN ! 0" | "alt = PATTERN ! 1" | "alt = PATTERN ! 2" | "alt = PATTERN ! 3"
    | "alt = PATTERN ! 4"
    using assms(1) by (auto simp: PATTERN_def)
  then show ?thesis
  proof cases
    case 1
    then obtain x where "m = [42, 42] @ x @ [42, 42]" "caps = [(0, x)]" "x \<noteq> []"
      using assms(2) by (fastforce simp: PATTERN_def chars_def lazy_group_def)
    then show ?thesis by (intro exI [of _ 0] exI [of _ x] exI [of _ "[42, 42]"]) (simp add: is_marker_def)
  next
    case 2
    then obtain x where "m = [126, 126] @ x @ [126, 126]" "caps = [(1, x)]" "x \<noteq> []"
      using assms(2) by (fastforce simp: PATTERN_def chars_def lazy_group_def)
    then show ?thesis by (intro exI [of _ 1] exI [of _ x] exI [of _ "[126, 126]"]) (simp add: is_marker_def)
  next
    case 3
    then obtain x where "m = [42] @ x @ [42]" "caps = [(2, x)]" "x \<noteq> []"
      using assms(2) by (fastforce simp: PATTERN_def chars_def lazy_group_def)
    then show ?thesis by (intro exI [of _ 2] exI [of _ x] exI [of _ "[42]"]) (simp add: is_marker_def)
  next
    case 4
    then obtain x where "m = [95] @ x @ [95]" "caps = [(3, x)]" "x \<noteq> []"
      using assms(2) by (fastforce simp: PATTERN_def chars_def lazy_group_def)
    then show ?thesis by (intro exI [of _ 3] exI [of _ x] exI [of _ "[95]"]) (simp add: is_marker_def)
  next
    case 5
    then obtain x where "m = [96] @ x @ [96]" "caps = [(4, x)]" "x \<noteq> []"
      using assms(2) by (fastforce simp: PATTERN_def chars_def lazy_group_def)
    then show ?thesis by (intro exI [of _ 4] exI [of _ x] exI [of _ "[96]"]) (simp add: is_marker_def)
  qed
qed

fun option_list :: "'a list option \<Rightarrow> 'a list" where
  "option_list None = []"
| "option_list (Some x) = x"

definition markers_of :: "dialect \<Rightarrow> js list" where
  "markers_of dia = [option_list (d_bold dia), option_list (d_strike dia),
     option_list (d_italic dia), option_list (d_code dia)]"

lemma rewrite_match_wraps:
  assumes "alt \<in> set PATTERN" "spells alt m caps"
  shows "\<exists>w content delim. m = delim @ content @ delim \<and> rewrite_match dia m caps = w @ content @ w
     \<and> w \<in> set (markers_of dia) \<and> list_all is_marker delim"
proof -
  obtain g content delim where m: "m = delim @ content @ delim" "caps = [(g, content)]" "g < 5"
    "list_all is_marker delim"
    using PATTERN_match [OF assms] by blast
  then have "g = 0 \<or> g = 1 \<or> g = 2 \<or> g = 3 \<or> g = 4" by linarith
  then have "\<exists>w \<in> set (markers_of dia). rewrite_match dia m caps = w @ content @ w"
    unfolding m(2) rewrite_match_def GROUP_MARKERS_def markers_of_def
    by (elim disjE) (auto split: option.splits)
  then show ?thesis using m by blast
qed

lemma rewriteMarkers_keeps:
  assumes "list_all (list_all is_marker) (markers_of dia)"
  shows "filter (\<lambda>c. \<not> is_marker c) (rewriteMarkers text dia) = filter (\<lambda>c. \<not> is_marker c) text"
  unfolding rewriteMarkers_def
proof (rule replace_all_preserves)
  fix alt m caps assume "alt \<in> set PATTERN" "spells alt m caps"
  then obtain w content delim where m: "m = delim @ content @ delim"
    "rewrite_match dia m caps = w @ content @ w" "w \<in> set (markers_of dia)" "list_all is_marker delim"
    using rewrite_match_wraps by meson
  have none: "filter (\<lambda>c. \<not> is_marker c) x = []" if "list_all is_marker x" for x
    using that by (auto simp: filter_empty_conv list_all_iff)
  have "list_all is_marker w" using assms m(3) by (simp add: list_all_iff)
  then show "filter (\<lambda>c. \<not> is_marker c) (rewrite_match dia m caps) = filter (\<lambda>c. \<not> is_marker c) m"
    unfolding m(2) unfolding m(1) by (simp add: none m(4))
qed

lemma rewriteMarkers_strip_subseq: "subseq (rewriteMarkers text STRIP) text"
  unfolding rewriteMarkers_def
proof (rule replace_all_subseq)
  fix alt m caps assume "alt \<in> set PATTERN" "spells alt m caps"
  then obtain w content delim where m: "m = delim @ content @ delim"
    "rewrite_match STRIP m caps = w @ content @ w" "w \<in> set (markers_of STRIP)"
    using rewrite_match_wraps by meson
  have "w = []" using m(3) by (simp add: markers_of_def STRIP_def)
  then show "subseq (rewrite_match STRIP m caps) m"
    unfolding m(2) unfolding m(1)
    by (metis append_Nil append_Nil2 list_emb_append2 subseq_order.order_refl subseq_rev_drop_many)
qed

lemma rendering_dialect:
  assumes "channelRendering platform = Inr r"
  shows "cr_dialect r = None \<or> (\<exists>dia. cr_dialect r = Some dia \<and> list_all (list_all is_marker) (markers_of dia))"
proof -
  have "list_all (\<lambda>(_, r). case cr_dialect r of None \<Rightarrow> True
      | Some dia \<Rightarrow> list_all (list_all is_marker) (markers_of dia)) RENDERINGS"
    by code_simp
  moreover have "(platform, r) \<in> set RENDERINGS"
    using assms by (auto simp: channelRendering_def split: option.splits dest: map_of_SomeD)
  ultimately show ?thesis by (auto simp: list_all_iff split: option.splits)
qed

section \<open>Properties\<close>

text \<open>
  On every platform with a rendering, translating an answer changes marker characters only: what
  is not one of the four markers reaches the user unchanged and in order.
\<close>
theorem translate_keeps_the_words:
  assumes "channelRendering platform = Inr r"
  shows "filter (\<lambda>c. \<not> is_marker c) (translate r text) = filter (\<lambda>c. \<not> is_marker c) text"
  using rendering_dialect [OF assms] rewriteMarkers_keeps by (auto simp: translate_def)

theorem translate_keeps_the_words_witness:
  "filter (\<lambda>c. \<not> is_marker c) (translate \<lparr>cr_format = Markdown, cr_dialect = Some SLACK\<rparr> (lit ''**Bom** _x_ ok'')) =
   lit ''Bom x ok''
   \<and> translate \<lparr>cr_format = Markdown, cr_dialect = Some SLACK\<rparr> (lit ''**Bom** _x_ ok'') = lit ''*Bom* _x_ ok''"
proof
  have "channelRendering (lit ''slack'') = Inr \<lparr>cr_format = Markdown, cr_dialect = Some SLACK\<rparr>"
    by code_simp
  then show "filter (\<lambda>c. \<not> is_marker c) (translate \<lparr>cr_format = Markdown, cr_dialect = Some SLACK\<rparr>
      (lit ''**Bom** _x_ ok'')) = lit ''Bom x ok''"
    by (subst translate_keeps_the_words) (assumption, simp add: is_marker_def)
  show "translate \<lparr>cr_format = Markdown, cr_dialect = Some SLACK\<rparr> (lit ''**Bom** _x_ ok'') = lit ''*Bom* _x_ ok''"
    by code_simp
qed

text \<open>
  Stripping invents nothing: on a platform whose rendering drops the markers, the text sent is
  the answer with some characters left out.
\<close>
theorem strip_only_removes:
  "subseq (rewriteMarkers text STRIP) text"
  by (rule rewriteMarkers_strip_subseq)

end
