(* ===== verification/Session.thy ===== *)
theory Session
  imports Messages
begin

text \<open>
  \<open>packages/gateway/src/session/router.ts\<close>: the key under which the SDK keeps a conversation. The
  abstract session an event belongs to is \<open>session_of\<close>; the key is a faithful name of it, for platforms
  whose name carries no hyphen.
\<close>

definition hyphen :: cu where "hyphen = 45"

definition sanitize :: "js \<Rightarrow> js" where
  "sanitize s = map (\<lambda>c. if c = hyphen then 95 else c) s"

definition defaultStrategy :: "message_event \<Rightarrow> js" where
  "defaultStrategy event =
     (let platform = ev_platform event; channel = ev_channel event;
          sid = sanitize (snd_id (ev_sender event)); cid = sanitize (ch_id channel)
      in case ch_type channel of
           DM \<Rightarrow> platform @ lit ''-dm-'' @ sid
         | Thread \<Rightarrow>
             (case ch_topicId channel of
                None \<Rightarrow> platform @ lit ''-grp-'' @ cid @ lit ''-'' @ sid
              | Some topic \<Rightarrow> platform @ lit ''-tpc-'' @ cid @ lit ''-'' @ sanitize topic)
         | Group \<Rightarrow> platform @ lit ''-grp-'' @ cid @ lit ''-'' @ sid)"

definition resolveAgentId :: "(message_event \<Rightarrow> js) option \<Rightarrow> message_event \<Rightarrow> js" where
  "resolveAgentId strategy event =
     (case strategy of None \<Rightarrow> defaultStrategy event | Some f \<Rightarrow> f event)"

section \<open>The abstract session\<close>

datatype session =
    DmSession platform js
  | GroupSession platform js js
  | TopicSession platform js js

definition session_of :: "message_event \<Rightarrow> session" where
  "session_of event =
     (let p = ev_platform event; ch = ev_channel event;
          sid = sanitize (snd_id (ev_sender event)); cid = sanitize (ch_id ch)
      in if ch_type ch = DM then DmSession p sid
         else case (ch_type ch, ch_topicId ch) of
                (Thread, Some topic) \<Rightarrow> TopicSession p cid (sanitize topic)
              | _ \<Rightarrow> GroupSession p cid sid)"

section \<open>Keys split back into their fields\<close>

lemma sanitize_no_hyphen [simp]: "hyphen \<notin> set (sanitize s)"
  by (auto simp: sanitize_def hyphen_def)

fun session_fields :: "session \<Rightarrow> js list" where
  "session_fields (DmSession p s) = [p, lit ''dm'', s]"
| "session_fields (GroupSession p c s) = [p, lit ''grp'', c, s]"
| "session_fields (TopicSession p c t) = [p, lit ''tpc'', c, t]"

lemma session_fields_inject: "session_fields a = session_fields b \<Longrightarrow> a = b"
  by (cases a; cases b) auto

lemma split_key:
  assumes "hyphen \<notin> set (ev_platform e)"
  shows "split_on hyphen (defaultStrategy e) = session_fields (session_of e)"
proof -
  have dm: "split_on 45 (p @ lit ''-dm-'' @ s) = [p, lit ''dm'', s]"
    if "45 \<notin> set p" "45 \<notin> set s" for p s
    using that by (simp add: split_on_append split_on_field)
  have three: "split_on 45 (p @ lit (''-'' @ tag @ ''-'') @ a @ lit ''-'' @ b) = [p, lit tag, a, b]"
    if "45 \<notin> set p" "45 \<notin> set (lit tag)" "45 \<notin> set a" "45 \<notin> set b" for p tag a b
    using that by (simp add: split_on_append split_on_field)
  have san: "45 \<notin> set (sanitize s)" for s using sanitize_no_hyphen [of s] by (simp add: hyphen_def)
  note grp = three [of _ "''grp''"] and tpc = three [of _ "''tpc''"]
  show ?thesis
    using assms dm [OF _ san] grp [OF _ _ san san] tpc [OF _ _ san san]
    by (auto simp: defaultStrategy_def session_of_def hyphen_def Let_def split: chan_type.splits option.splits)
qed

section \<open>Properties\<close>

text \<open>
  The default session key is a faithful name of the session: splitting it at hyphens gives back
  the platform, the kind of conversation and the sanitised ids, so two events share a key exactly
  when they belong to the same session. A thread event without a topic belongs to its group's
  session.
\<close>
theorem defaultStrategy_names_the_session:
  assumes "hyphen \<notin> set (ev_platform e)" "hyphen \<notin> set (ev_platform e')"
  shows "split_on hyphen (defaultStrategy e) = session_fields (session_of e)"
    and "defaultStrategy e = defaultStrategy e' \<longleftrightarrow> session_of e = session_of e'"
proof -
  show split: "split_on hyphen (defaultStrategy e) = session_fields (session_of e)"
    using assms(1) by (rule split_key)
  have "defaultStrategy e = defaultStrategy e'" if "session_of e = session_of e'"
    using that
    by (auto simp: defaultStrategy_def session_of_def Let_def split: chan_type.splits option.splits if_splits)
  then show "defaultStrategy e = defaultStrategy e' \<longleftrightarrow> session_of e = session_of e'"
    using split split_key [OF assms(2)] session_fields_inject by metis
qed

definition sample_event :: "string \<Rightarrow> string \<Rightarrow> message_event" where
  "sample_event platform sender = \<lparr>ev_id = lit ''1'', ev_platform = lit platform,
     ev_sender = \<lparr>snd_id = lit sender, snd_username = None, snd_displayName = None\<rparr>,
     ev_channel = \<lparr>ch_id = lit ''c'', ch_type = DM, ch_topicId = None\<rparr>,
     ev_text = lit ''hi'', ev_receivedAt = 0, ev_replyTo = None\<rparr>"

theorem defaultStrategy_names_the_session_witness:
  "split_on hyphen (defaultStrategy (sample_event ''irc'' ''bob'')) = [lit ''irc'', lit ''dm'', lit ''bob''] \<and>
   defaultStrategy (sample_event ''irc'' ''bob'') \<noteq> defaultStrategy (sample_event ''irc'' ''eve'')"
proof -
  have p: "hyphen \<notin> set (ev_platform (sample_event ''irc'' s))" for s
    by (simp add: sample_event_def hyphen_def)
  show ?thesis
    unfolding defaultStrategy_names_the_session [OF p p]
    by (simp add: session_of_def sample_event_def sanitize_def hyphen_def)
qed

text \<open>
  Sanitising merges ids: two different senders of one platform whose ids differ only by a hyphen
  against an underscore get the same session key, and with it each other's conversation.
\<close>
theorem distinct_senders_share_a_session:
  "\<exists>e e'. snd_id (ev_sender e) \<noteq> snd_id (ev_sender e') \<and> ev_platform e = ev_platform e' \<and>
     ch_type (ev_channel e) = DM \<and> ch_type (ev_channel e') = DM \<and>
     defaultStrategy e = defaultStrategy e'"
proof (intro exI conjI)
  let ?e = "sample_event ''matrix'' ''@ana-b:x''" and ?e' = "sample_event ''matrix'' ''@ana_b:x''"
  show "snd_id (ev_sender ?e) \<noteq> snd_id (ev_sender ?e')" by (simp add: sample_event_def)
  show "defaultStrategy ?e = defaultStrategy ?e'"
    by (simp add: sample_event_def defaultStrategy_def sanitize_def hyphen_def)
qed (simp_all add: sample_event_def)

end
