(* ===== verification/Hooks.thy ===== *)
theory Hooks
  imports Effects Credentials Dialect Session
begin

text \<open>
  \<open>packages/gateway/src/hooks/\<close>: the hook contract (\<open>types.ts\<close>) and the executor (\<open>executor.ts\<close>). A
  hook's methods are user code.
\<close>

record hook_decision =
  hd_block :: "bool option"
  hd_message :: "js option"

record 'w gateway_hook =
  hk_name :: js
  hk_pre_inbound :: "(message_event \<Rightarrow> ('w, hook_decision option) comp) option"
  hk_post_outbound :: "(message_event \<Rightarrow> outbound \<Rightarrow> send_result \<Rightarrow> ('w, unit) comp) option"
  hk_on_error :: "(message_event \<Rightarrow> thrown \<Rightarrow> ('w, unit) comp) option"

section \<open>Refusing what is not a hook\<close>

definition HOOK_PHASES :: "js list" where
  "HOOK_PHASES = [lit ''pre_inbound'', lit ''post_outbound'', lit ''on_error'']"

definition malformedHook :: "nat \<Rightarrow> js \<Rightarrow> config_error" where
  "malformedHook index why =
     GatewayConfigurationError (lit ''gateway'') (lit ''malformed_hook'')
       (Some (lit ''gateway: hooks['' @ dec index @ lit ''] '' @ why))
       (Some (lit ''hooks['' @ dec index @ lit '']''))"

definition is_object :: "jsval \<Rightarrow> bool" where
  "is_object v \<longleftrightarrow> (case v of VObj _ \<Rightarrow> True | _ \<Rightarrow> False)"

definition assertHook :: "jsval \<Rightarrow> nat \<Rightarrow> config_error option" where
  "assertHook entry index =
     (if \<not> is_object entry
      then Some (malformedHook index (lit ''is '' @
             (if entry = VNull then lit ''null'' else typeof entry) @ lit '', not a hook object''))
      else case field_of entry (lit ''name'') of
        VStr name \<Rightarrow>
          if name = [] then
            Some (malformedHook index (lit ''has no name'' @ [32, 0x2014, 32] @
              lit ''every hook is named so a log can say which one acted''))
          else
            (let declared = filter (\<lambda>phase. field_of entry phase \<noteq> VUndef) HOOK_PHASES in
             if declared = [] then
               Some (malformedHook index (lit ''('' @ quoted name @ lit '') declares none of '' @
                 join (lit '', '') HOOK_PHASES @ [32, 0x2014, 32] @ lit ''it would never run''))
             else case filter (\<lambda>phase. field_of entry phase \<noteq> VFun) declared of
               [] \<Rightarrow> None
             | phase # _ \<Rightarrow> Some (malformedHook index (lit ''('' @ quoted name @ lit '') declares '' @
                 phase @ lit '', which is not callable'')))
      | _ \<Rightarrow> Some (malformedHook index (lit ''has no name'' @ [32, 0x2014, 32] @
              lit ''every hook is named so a log can say which one acted'')))"

text \<open>The constructor: the first entry that is not a hook is refused.\<close>

fun assert_hooks :: "nat \<Rightarrow> jsval list \<Rightarrow> config_error option" where
  "assert_hooks i [] = None"
| "assert_hooks i (h # hs) =
     (case assertHook h i of Some e \<Rightarrow> Some e | None \<Rightarrow> assert_hooks (Suc i) hs)"

definition newHookExecutor :: "jsval list \<Rightarrow> config_error option" where
  "newHookExecutor hooks = assert_hooks 0 hooks"

section \<open>Fire points\<close>

definition pass :: hook_decision where
  "pass = \<lparr>hd_block = Some False, hd_message = None\<rparr>"

definition hook_failed :: "js \<Rightarrow> hook_decision" where
  "hook_failed name = \<lparr>hd_block = Some True,
     hd_message = Some (lit ''Request blocked: hook '' @ quoted name @ lit '' failed.'')\<rparr>"

definition blocks :: "hook_decision option \<Rightarrow> bool" where
  "blocks d \<longleftrightarrow> (case d of None \<Rightarrow> False | Some d' \<Rightarrow> hd_block d' = Some True)"

fun firePreInbound ::
    "(js \<Rightarrow> js) \<Rightarrow> 'w gateway_hook list \<Rightarrow> message_event \<Rightarrow> ('w, hook_decision) comp" where
  "firePreInbound sdk [] event env = (Returned pass, env)"
| "firePreInbound sdk (h # hs) event env =
     (case hk_pre_inbound h of
        None \<Rightarrow> firePreInbound sdk hs event env
      | Some f \<Rightarrow>
          (case f event env of
             (Threw err, env1) \<Rightarrow>
               (case message_of err of
                  None \<Rightarrow> (Threw type_error, env1)
                | Some m \<Rightarrow>
                    (Returned (hook_failed (hk_name h)),
                     write_line (lit ''[gateway] pre_inbound hook '' @ quoted (hk_name h) @
                       lit '' threw: '' @ redactSecrets sdk m) env1))
           | (Returned decision, env1) \<Rightarrow>
               if blocks decision then (Returned (the decision), env1)
               else firePreInbound sdk hs event env1))"

text \<open>\<open>firePostOutbound\<close> and \<open>fireOnError\<close> differ in the phase only.\<close>

fun fire_all ::
    "js \<Rightarrow> (js \<times> ('w, unit) comp) list \<Rightarrow> ('w, unit) comp" where
  "fire_all phase [] env = (Returned (), env)"
| "fire_all phase ((name, f) # hs) env =
     (case f env of
        (Threw err, env1) \<Rightarrow>
          (case message_of err of
             None \<Rightarrow> (Threw type_error, env1)
           | Some m \<Rightarrow>
               fire_all phase hs (write_line (lit ''[gateway] '' @ phase @ lit '' hook '' @ quoted name @
                 lit '' threw: '' @ m) env1))
      | (Returned _, env1) \<Rightarrow> fire_all phase hs env1)"

definition firePostOutbound ::
    "'w gateway_hook list \<Rightarrow> message_event \<Rightarrow> outbound \<Rightarrow> send_result \<Rightarrow> ('w, unit) comp" where
  "firePostOutbound hooks event out result =
     fire_all (lit ''post_outbound'')
       (List.map_filter (\<lambda>h. map_option (\<lambda>f. (hk_name h, f event out result)) (hk_post_outbound h)) hooks)"

definition fireOnError ::
    "'w gateway_hook list \<Rightarrow> message_event \<Rightarrow> thrown \<Rightarrow> ('w, unit) comp" where
  "fireOnError hooks event err =
     fire_all (lit ''on_error'')
       (List.map_filter (\<lambda>h. map_option (\<lambda>f. (hk_name h, f event err)) (hk_on_error h)) hooks)"

section \<open>Containment\<close>

text \<open>A computation that throws nothing of which reading \<open>.message\<close> throws.\<close>

definition throws_messages :: "('w, 'a) comp \<Rightarrow> bool" where
  "throws_messages f \<longleftrightarrow> (\<forall>env t. fst (f env) = Threw t \<longrightarrow> \<not> nullish t)"

definition polite_hook :: "'w gateway_hook \<Rightarrow> bool" where
  "polite_hook h \<longleftrightarrow>
     (\<forall>f ev. hk_pre_inbound h = Some f \<longrightarrow> throws_messages (f ev)) \<and>
     (\<forall>f ev out r. hk_post_outbound h = Some f \<longrightarrow> throws_messages (f ev out r)) \<and>
     (\<forall>f ev e. hk_on_error h = Some f \<longrightarrow> throws_messages (f ev e))"

lemma fire_all_contains:
  "\<forall>(name, f) \<in> set fs. throws_messages f \<Longrightarrow> fst (fire_all phase fs env) = Returned ()"
proof (induction fs arbitrary: env)
  case (Cons nf fs)
  obtain name f where nf: "nf = (name, f)" by (cases nf)
  obtain r env1 where r: "f env = (r, env1)" by (cases "f env")
  then show ?case using Cons nf
    by (cases r) (auto simp: throws_messages_def nullish_def split: option.splits, metis fst_conv not_None_eq)
qed simp

lemma firePostOutbound_contains:
  "\<forall>h \<in> set hooks. polite_hook h \<Longrightarrow> fst (firePostOutbound hooks ev out r env) = Returned ()"
  unfolding firePostOutbound_def
  by (rule fire_all_contains) (auto simp: List.map_filter_def polite_hook_def)

lemma fireOnError_contains:
  "\<forall>h \<in> set hooks. polite_hook h \<Longrightarrow> fst (fireOnError hooks ev e env) = Returned ()"
  unfolding fireOnError_def
  by (rule fire_all_contains) (auto simp: List.map_filter_def polite_hook_def)

lemma firePreInbound_contains:
  "\<forall>h \<in> set hooks. polite_hook h \<Longrightarrow> \<exists>d. fst (firePreInbound sdk hooks ev env) = Returned d"
proof (induction hooks arbitrary: env)
  case (Cons h hs)
  show ?case
  proof (cases "hk_pre_inbound h")
    case None
    then show ?thesis using Cons by simp
  next
    case (Some f)
    obtain r env1 where r: "f ev env = (r, env1)" by (cases "f ev env")
    have "throws_messages (f ev)" using Cons.prems Some by (auto simp: polite_hook_def)
    then have "\<not> nullish t" if "r = Threw t" for t
      using r that unfolding throws_messages_def by (metis fst_conv)
    then show ?thesis using Cons Some r
      by (cases r) (auto simp: nullish_def split: option.splits)
  qed
qed simp

section \<open>The first hook that decides\<close>

text \<open>What a hook does to the chain: nothing, a decision to block, or a failure.\<close>

lemma firePreInbound_skip:
  assumes "case hk_pre_inbound h of None \<Rightarrow> env' = env
     | Some f \<Rightarrow> (\<exists>d. f ev env = (Returned d, env') \<and> \<not> blocks d)"
  shows "firePreInbound sdk (h # hs) ev env = firePreInbound sdk hs ev env'"
  using assms by (auto split: option.splits)

lemma firePreInbound_block:
  assumes "hk_pre_inbound h = Some f" "f ev env = (Returned (Some d), env')" "hd_block d = Some True"
  shows "firePreInbound sdk (h # hs) ev env = (Returned d, env')"
  using assms by (simp add: blocks_def)

text \<open>The chain runs on through hooks that do not block.\<close>

inductive passes_all :: "'w gateway_hook list \<Rightarrow> message_event \<Rightarrow> 'w env \<Rightarrow> 'w env \<Rightarrow> bool" where
  none: "passes_all [] ev env env"
| absent: "hk_pre_inbound h = None \<Longrightarrow> passes_all hs ev env env' \<Longrightarrow> passes_all (h # hs) ev env env'"
| passed: "hk_pre_inbound h = Some f \<Longrightarrow> f ev env = (Returned d, env1) \<Longrightarrow> \<not> blocks d \<Longrightarrow>
     passes_all hs ev env1 env' \<Longrightarrow> passes_all (h # hs) ev env env'"

lemma firePreInbound_prefix:
  "passes_all hs ev env env' \<Longrightarrow> firePreInbound sdk (hs @ rest) ev env = firePreInbound sdk rest ev env'"
  by (induction rule: passes_all.induct) auto

section \<open>What a hook is\<close>

definition well_formed_hook :: "jsval \<Rightarrow> bool" where
  "well_formed_hook v \<longleftrightarrow> is_object v \<and> (\<exists>name. field_of v (lit ''name'') = VStr name \<and> name \<noteq> []) \<and>
     (\<exists>phase \<in> set HOOK_PHASES. field_of v phase \<noteq> VUndef) \<and>
     (\<forall>phase \<in> set HOOK_PHASES. field_of v phase \<in> {VUndef, VFun})"

lemma assertHook_iff: "assertHook v i = None \<longleftrightarrow> well_formed_hook v"
proof (cases "is_object v \<and> (\<exists>name. field_of v (lit ''name'') = VStr name \<and> name \<noteq> [])")
  case True
  then obtain name where name: "is_object v" "field_of v (lit ''name'') = VStr name" "name \<noteq> []" by blast
  let ?declared = "filter (\<lambda>phase. field_of v phase \<noteq> VUndef) HOOK_PHASES"
  have "assertHook v i = None \<longleftrightarrow> ?declared \<noteq> [] \<and> filter (\<lambda>phase. field_of v phase \<noteq> VFun) ?declared = []"
    using name unfolding assertHook_def by (simp only: Let_def) (simp split: list.splits)
  also have "\<dots> \<longleftrightarrow> (\<exists>phase \<in> set HOOK_PHASES. field_of v phase \<noteq> VUndef) \<and>
     (\<forall>phase \<in> set HOOK_PHASES. field_of v phase \<in> {VUndef, VFun})"
    by (auto simp: filter_empty_conv)
  finally show ?thesis using name by (simp add: well_formed_hook_def)
next
  case False
  then have "assertHook v i \<noteq> None"
    unfolding assertHook_def by (auto split: jsval.splits)
  then show ?thesis using False by (auto simp: well_formed_hook_def)
qed

lemma assert_hooks_iff: "assert_hooks i hs = None \<longleftrightarrow> (\<forall>h \<in> set hs. well_formed_hook h)"
proof (induction hs arbitrary: i)
  case (Cons h hs)
  show ?case using Cons.IH [of "Suc i"] assertHook_iff [of h i] by (cases "assertHook h i") auto
qed simp

section \<open>Properties\<close>

text \<open>
  A list of hooks is accepted exactly when every entry is an object with a non-empty name that
  declares at least one fire point, all of them callable: no entry that would never run, or that a
  fire point could not call, passes in silence.
\<close>
theorem newHookExecutor_accepts_iff:
  "newHookExecutor hooks = None \<longleftrightarrow> list_all well_formed_hook hooks"
  unfolding newHookExecutor_def list_all_iff by (rule assert_hooks_iff)

text \<open>
  The first hook that decides to block decides: once every hook before it passed, its decision
  is the result and no later hook runs.
\<close>
theorem first_block_decides:
  assumes "passes_all earlier ev env env1"
    and "hk_pre_inbound h = Some f" "f ev env1 = (Returned (Some d), env2)" "hd_block d = Some True"
  shows "firePreInbound sdk (earlier @ h # later) ev env = (Returned d, env2)"
  unfolding firePreInbound_prefix [OF assms(1)] by (rule firePreInbound_block [OF assms(2-4)])

text \<open>
  A hook that throws blocks the event, and what the user is told depends on the hook's name
  only: the text of the exception goes to the log, redacted, and nowhere else.
\<close>
theorem throwing_hook_blocks_without_its_text:
  assumes "passes_all earlier ev env env1"
    and "hk_pre_inbound h = Some f" "f ev env1 = (Threw err, env2)" "message_of err = Some m"
  shows "\<exists>env3. firePreInbound sdk (earlier @ h # later) ev env = (Returned (hook_failed (hk_name h)), env3)
     \<and> env_world env3 = env_world env2
     \<and> env_log env3 = env_log env2 @ [lit ''[gateway] pre_inbound hook '' @ quoted (hk_name h) @
         lit '' threw: '' @ redactSecrets sdk m]"
  using assms unfolding firePreInbound_prefix [OF assms(1)] by auto

section \<open>Concrete hooks\<close>

definition calm :: "nat gateway_hook" where
  "calm = \<lparr>hk_name = lit ''calm'', hk_pre_inbound = Some (\<lambda>ev env. (Returned None, env\<lparr>env_world := Suc (env_world env)\<rparr>)),
     hk_post_outbound = None, hk_on_error = None\<rparr>"

definition quota :: "nat gateway_hook" where
  "quota = \<lparr>hk_name = lit ''quota'',
     hk_pre_inbound = Some (\<lambda>ev env. (Returned (Some \<lparr>hd_block = Some True, hd_message = Some (lit ''later'')\<rparr>), env)),
     hk_post_outbound = None, hk_on_error = None\<rparr>"

definition broken :: "nat gateway_hook" where
  "broken = \<lparr>hk_name = lit ''db'',
     hk_pre_inbound = Some (\<lambda>ev env. (Threw (ThrownError (lit ''postgres://admin:pw'')), env)),
     hk_post_outbound = None, hk_on_error = None\<rparr>"

definition start_env :: "nat env" where
  "start_env = \<lparr>env_world = 0, env_log = []\<rparr>"

lemma calm_passes: "passes_all [calm] ev env (env\<lparr>env_world := Suc (env_world env)\<rparr>)"
proof (rule passes_all.passed)
  show "hk_pre_inbound calm = Some (\<lambda>ev env. (Returned None, env\<lparr>env_world := Suc (env_world env)\<rparr>))"
    by (simp add: calm_def)
  show "\<not> blocks None" by (simp add: blocks_def)
qed (rule refl, rule passes_all.none)

theorem first_block_decides_witness:
  "firePreInbound id ([calm] @ quota # [broken]) (sample_event ''irc'' ''bob'') start_env =
     (Returned \<lparr>hd_block = Some True, hd_message = Some (lit ''later'')\<rparr>, start_env\<lparr>env_world := 1\<rparr>)"
  by (rule first_block_decides [OF calm_passes]) (simp_all add: quota_def start_env_def)

theorem throwing_hook_blocks_without_its_text_witness:
  "\<exists>env3. firePreInbound id ([calm] @ broken # [quota]) (sample_event ''irc'' ''bob'') start_env =
       (Returned (hook_failed (hk_name broken)), env3)
     \<and> env_world env3 = 1
     \<and> env_log env3 = [lit ''[gateway] pre_inbound hook '' @ quoted (hk_name broken) @
         lit '' threw: '' @ redactSecrets id (lit ''postgres://admin:pw'')]"
  using throwing_hook_blocks_without_its_text
    [OF calm_passes [of "sample_event ''irc'' ''bob''" start_env], of broken _ "ThrownError (lit ''postgres://admin:pw'')"
      "start_env\<lparr>env_world := 1\<rparr>" "lit ''postgres://admin:pw''" id "[quota]"]
  by (simp add: broken_def start_env_def)

end
