(* ===== verification/JsMap.thy ===== *)
theory JsMap
  imports Prelude "HOL-Library.AList"
begin

text \<open>
  JavaScript's \<open>Map\<close> and \<open>Set\<close>: they iterate in insertion order, \<open>set\<close> on a present key keeps its
  position, and \<open>delete\<close> forgets it. The model is an association list with distinct keys. The locale
  \<open>insertion_map\<close> is the interface the stores and registries of the gateway are proved against, and
  the association lists are its interpretation. A JavaScript \<open>Set\<close> is a map to \<open>unit\<close>.
\<close>

section \<open>The interface\<close>

locale insertion_map =
  fixes get :: "'m \<Rightarrow> 'k \<Rightarrow> 'v option"
    and put :: "'k \<Rightarrow> 'v \<Rightarrow> 'm \<Rightarrow> 'm"
    and del :: "'k \<Rightarrow> 'm \<Rightarrow> 'm"
    and ks :: "'m \<Rightarrow> 'k list"
    and inv :: "'m \<Rightarrow> bool"
  assumes get_put: "inv m \<Longrightarrow> get (put k v m) = (get m)(k \<mapsto> v)"
    and get_del: "inv m \<Longrightarrow> get (del k m) = (get m)(k := None)"
    and ks_put: "inv m \<Longrightarrow> ks (put k v m) = (if k \<in> set (ks m) then ks m else ks m @ [k])"
    and ks_del: "inv m \<Longrightarrow> ks (del k m) = filter (\<lambda>x. x \<noteq> k) (ks m)"
    and ks_dom: "inv m \<Longrightarrow> set (ks m) = dom (get m)"
    and ks_distinct: "inv m \<Longrightarrow> distinct (ks m)"
    and inv_put: "inv m \<Longrightarrow> inv (put k v m)"
    and inv_del: "inv m \<Longrightarrow> inv (del k m)"
begin

lemma size_put: "inv m \<Longrightarrow> length (ks (put k v m)) \<le> Suc (length (ks m))"
  by (simp add: ks_put)

lemma size_put_same: "inv m \<Longrightarrow> k \<in> set (ks m) \<Longrightarrow> length (ks (put k v m)) = length (ks m)"
  by (simp add: ks_put)

lemma size_del: "inv m \<Longrightarrow> length (ks (del k m)) \<le> length (ks m)"
  by (simp add: ks_del)

lemma size_del_present:
  assumes "inv m" "k \<in> set (ks m)"
  shows "Suc (length (ks (del k m))) = length (ks m)"
proof -
  have "filter (\<lambda>x. x \<noteq> k) (ks m) = remove1 k (ks m)"
    using distinct_remove1_removeAll [OF ks_distinct [OF assms(1)], of k]
    by (simp add: removeAll_filter_not_eq eq_commute)
  moreover have "0 < length (ks m)" using assms(2) by (cases "ks m") auto
  ultimately show ?thesis using assms by (simp add: ks_del length_remove1)
qed

text \<open>Dropping the oldest key of a full store and inserting keeps it within its capacity.\<close>

lemma evict_then_put_bounded:
  assumes "inv m" "length (ks m) \<le> cap" "0 < cap"
  shows "length (ks (put k v (if cap \<le> length (ks m) then del (hd (ks m)) m else m))) \<le> cap"
proof (cases "cap \<le> length (ks m)")
  case True
  then have "hd (ks m) \<in> set (ks m)" using assms(3) by (cases "ks m") auto
  then have "Suc (length (ks (del (hd (ks m)) m))) = length (ks m)"
    by (rule size_del_present [OF assms(1)])
  moreover have "length (ks (put k v (del (hd (ks m)) m))) \<le> Suc (length (ks (del (hd (ks m)) m)))"
    by (rule size_put) (rule inv_del [OF assms(1)])
  ultimately show ?thesis using True assms(2) by simp
next
  case False
  then show ?thesis using size_put [OF assms(1), of k v] by simp
qed

lemma del_oldest:
  assumes "inv m" "ks m = k # rest"
  shows "ks (del k m) = rest"
  using assms ks_distinct [OF assms(1)] by (auto simp: ks_del filter_id_conv)

lemma put_again_front_free:
  "inv m \<Longrightarrow> ks (put k v (del k m)) = filter (\<lambda>x. x \<noteq> k) (ks m) @ [k]"
  by (simp add: ks_put ks_del inv_del)

end

section \<open>Association lists\<close>

type_synonym ('k, 'v) jsmap = "('k \<times> 'v) list"

definition jm_get :: "('k, 'v) jsmap \<Rightarrow> 'k \<Rightarrow> 'v option" where
  "jm_get m k = map_of m k"

definition jm_set :: "'k \<Rightarrow> 'v \<Rightarrow> ('k, 'v) jsmap \<Rightarrow> ('k, 'v) jsmap" where
  "jm_set k v m = AList.update k v m"

definition jm_delete :: "'k \<Rightarrow> ('k, 'v) jsmap \<Rightarrow> ('k, 'v) jsmap" where
  "jm_delete k m = AList.delete k m"

definition jm_keys :: "('k, 'v) jsmap \<Rightarrow> 'k list" where
  "jm_keys m = map fst m"

definition jm_values :: "('k, 'v) jsmap \<Rightarrow> 'v list" where
  "jm_values m = map snd m"

definition jm_inv :: "('k, 'v) jsmap \<Rightarrow> bool" where
  "jm_inv m \<longleftrightarrow> distinct (map fst m)"

lemma jm_keys_update:
  "map fst (AList.update k v m) = (if k \<in> set (map fst m) then map fst m else map fst m @ [k])"
  by (induction m) auto

interpretation jm: insertion_map jm_get jm_set jm_delete jm_keys jm_inv
proof
  fix m :: "('k, 'v) jsmap" and k v
  assume inv: "jm_inv m"
  show "jm_get (jm_set k v m) = (jm_get m)(k \<mapsto> v)"
    by (simp add: jm_get_def [abs_def] jm_set_def update_conv')
  show "jm_get (jm_delete k m) = (jm_get m)(k := None)"
    by (simp add: jm_get_def [abs_def] jm_delete_def delete_conv')
  show "jm_keys (jm_set k v m) = (if k \<in> set (jm_keys m) then jm_keys m else jm_keys m @ [k])"
    by (simp add: jm_keys_def jm_set_def jm_keys_update)
  show "jm_keys (jm_delete k m) = filter (\<lambda>x. x \<noteq> k) (jm_keys m)"
    by (simp add: jm_keys_def jm_delete_def delete_keys removeAll_filter_not_eq eq_commute)
  show "set (jm_keys m) = dom (jm_get m)"
    by (simp add: jm_keys_def jm_get_def [abs_def] dom_map_of_conv_image_fst)
  show "distinct (jm_keys m)" using inv by (simp add: jm_keys_def jm_inv_def)
  show "jm_inv (jm_set k v m)" using inv by (simp add: jm_inv_def jm_set_def distinct_update)
  show "jm_inv (jm_delete k m)" using inv by (simp add: jm_inv_def jm_delete_def distinct_delete)
qed

lemma jm_inv_empty [simp]: "jm_inv []" by (simp add: jm_inv_def)
lemma jm_get_empty [simp]: "jm_get [] k = None" by (simp add: jm_get_def)
lemma jm_keys_empty [simp]: "jm_keys [] = []" by (simp add: jm_keys_def)

lemma length_jm_keys [simp]: "length (jm_keys m) = length m"
  by (simp add: jm_keys_def)

lemma jm_values_get: "jm_inv m \<Longrightarrow> v \<in> set (jm_values m) \<longleftrightarrow> (\<exists>k. jm_get m k = Some v)"
  by (auto simp: jm_values_def jm_get_def jm_inv_def dest: map_of_SomeD intro: rev_image_eqI)

lemmas [map_facts] = jm.get_put jm.get_del jm.ks_put jm.ks_del jm.inv_put jm.inv_del

end
