(* ===== verification/Runner.thy ===== *)
theory Runner
  imports Hooks JsMap
begin

text \<open>
  \<open>adapter/base.ts\<close>, \<open>delivery/router.ts\<close> and the dispatch half of \<open>runner/gateway-runner.ts\<close>: an inbound
  event runs through the hook chain, a slash command or the user's handler, and every reply leaves
  through the adapter of the event's platform and is reported to \<open>post_outbound\<close>. An adapter's
  \<open>sendMessage\<close> and the handlers are arbitrary computations.
\<close>

record 'w adapter =
  ad_platform :: platform
  ad_sendMessage :: "outbound \<Rightarrow> ('w, send_result) comp"

section \<open>The base adapter\<close>

datatype delivery = DeliveredOk | NoHandler | HandlerThrew

definition runHandler ::
    "platform \<Rightarrow> ('e \<Rightarrow> ('w, unit) comp) option \<Rightarrow> 'e \<Rightarrow> ('w, delivery) comp" where
  "runHandler platform handler event env =
     (case handler of
        None \<Rightarrow> (Returned NoHandler, env)
      | Some f \<Rightarrow>
          (case f event env of
             (Threw err, env1) \<Rightarrow>
               (Returned HandlerThrew,
                write_line (lit ''['' @ platform @ lit ''] handler threw: '' @ text_of err) env1)
           | (Returned _, env1) \<Rightarrow> (Returned DeliveredOk, env1)))"

definition editMessage_default :: "platform \<Rightarrow> js \<Rightarrow> outbound \<Rightarrow> send_result" where
  "editMessage_default platform messageId out =
     send_refused (lit ''edit_unsupported'') (platform @ lit '' adapter cannot edit a sent message'')"

section \<open>Delivery by platform\<close>

type_synonym 'w registry = "(platform, 'w adapter) jsmap"

definition register :: "'w adapter \<Rightarrow> 'w registry \<Rightarrow> 'w registry" where
  "register a m = jm_set (ad_platform a) a m"

record delivery_request =
  dr_platform :: platform
  dr_channel :: channel
  dr_text :: js
  dr_format :: "format option"
  dr_replyTo :: "js option"

definition router_send :: "'w registry \<Rightarrow> delivery_request \<Rightarrow> ('w, send_result) comp" where
  "router_send m req env =
     (case jm_get m (dr_platform req) of
        None \<Rightarrow> (Returned (send_refused (lit ''no_adapter'')
                  (lit ''no adapter for platform '' @ quoted (dr_platform req))), env)
      | Some a \<Rightarrow> ad_sendMessage a
          \<lparr>out_channel = dr_channel req, out_text = dr_text req, out_format = dr_format req,
           out_replyTo = dr_replyTo req\<rparr> env)"

section \<open>The runner's state\<close>

record 'w gateway_context =
  cx_event :: message_event
  cx_reply :: "js \<Rightarrow> format option \<Rightarrow> ('w, send_result) comp"

type_synonym 'w handler = "message_event \<Rightarrow> 'w gateway_context \<Rightarrow> ('w, unit) comp"

record 'w runner =
  rn_adapters :: "'w registry"
  rn_hooks :: "'w gateway_hook list"
  rn_handler :: "'w handler"
  rn_prefixes :: "js list option"
  rn_commands :: "(js, 'w handler) jsmap"

definition newRunner ::
    "'w adapter list \<Rightarrow> 'w gateway_hook list \<Rightarrow> 'w handler \<Rightarrow> js list option \<Rightarrow> 'w runner" where
  "newRunner adapters hooks handler cmdPrefixes =
     \<lparr>rn_adapters = foldl (\<lambda>m a. register a m) [] adapters, rn_hooks = hooks,
      rn_handler = handler, rn_prefixes = cmdPrefixes, rn_commands = []\<rparr>"

definition command_set :: "js \<Rightarrow> 'w handler \<Rightarrow> 'w runner \<Rightarrow> 'w runner" where
  "command_set name handler r = r\<lparr>rn_commands := jm_set name handler (rn_commands r)\<rparr>"

section \<open>Slash commands\<close>

definition DEFAULT_COMMAND_PREFIXES :: "js list" where
  "DEFAULT_COMMAND_PREFIXES = [lit ''/'']"

fun match_commands :: "js \<Rightarrow> js \<Rightarrow> (js \<times> 'h) list \<Rightarrow> 'h option" where
  "match_commands text activePrefix [] = None"
| "match_commands text activePrefix ((name, handler) # cs) =
     (let full = activePrefix @ name in
      if text = full then Some handler
      else if prefix (full @ lit '' '') text then Some handler
      else if prefix (full @ lit ''@'') text then Some handler
      else match_commands text activePrefix cs)"

definition matchSlashCommand :: "'w runner \<Rightarrow> message_event \<Rightarrow> 'w handler option" where
  "matchSlashCommand r event =
     (let text = ev_text event;
          cmdPrefixes = (case rn_prefixes r of None \<Rightarrow> DEFAULT_COMMAND_PREFIXES | Some ps \<Rightarrow> ps)
      in case find (\<lambda>p. prefix p text) cmdPrefixes of
           None \<Rightarrow> None
         | Some activePrefix \<Rightarrow> match_commands text activePrefix (rn_commands r))"

section \<open>Replies and dispatch\<close>

definition deliver :: "'w runner \<Rightarrow> message_event \<Rightarrow> outbound \<Rightarrow> ('w, send_result) comp" where
  "deliver r event out env =
     (case (case jm_get (rn_adapters r) (ev_platform event) of
              None \<Rightarrow> (Returned (send_refused (lit ''no_adapter'') (lit ''no adapter for '' @ ev_platform event)), env)
            | Some a \<Rightarrow> ad_sendMessage a out env) of
        (Threw err, env1) \<Rightarrow> (Threw err, env1)
      | (Returned result, env1) \<Rightarrow>
          (case firePostOutbound (rn_hooks r) event out result env1 of
             (Threw err, env2) \<Rightarrow> (Threw err, env2)
           | (Returned _, env2) \<Rightarrow> (Returned result, env2)))"

definition reply_of :: "'w runner \<Rightarrow> message_event \<Rightarrow> js \<Rightarrow> format option \<Rightarrow> ('w, send_result) comp" where
  "reply_of r event text fmt =
     deliver r event \<lparr>out_channel = ev_channel event, out_text = text, out_format = fmt, out_replyTo = None\<rparr>"

definition buildContext :: "'w runner \<Rightarrow> message_event \<Rightarrow> 'w gateway_context" where
  "buildContext r event = \<lparr>cx_event = event, cx_reply = reply_of r event\<rparr>"

definition run_work :: "(js \<Rightarrow> js) \<Rightarrow> 'w runner \<Rightarrow> 'w handler \<Rightarrow> message_event \<Rightarrow> ('w, unit) comp" where
  "run_work sdk r handler event env =
     (case handler event (buildContext r event) env of
        (Returned _, env1) \<Rightarrow> (Returned (), env1)
      | (Threw err, env1) \<Rightarrow>
          (case fireOnError (rn_hooks r) event err env1 of
             (Threw e, env2) \<Rightarrow> (Threw e, env2)
           | (Returned _, env2) \<Rightarrow>
               (case message_of err of
                  None \<Rightarrow> (Threw type_error, env2)
                | Some m \<Rightarrow>
                    (Returned (), write_line (lit ''[gateway] handler error: '' @ redactSecrets sdk m) env2))))"

definition dispatch :: "(js \<Rightarrow> js) \<Rightarrow> 'w runner \<Rightarrow> message_event \<Rightarrow> ('w, unit) comp" where
  "dispatch sdk r event env =
     (case firePreInbound sdk (rn_hooks r) event env of
        (Threw err, env1) \<Rightarrow> (Threw err, env1)
      | (Returned decision, env1) \<Rightarrow>
          if hd_block decision = Some True then
            (case hd_message decision of
               None \<Rightarrow> (Returned (), env1)
             | Some m \<Rightarrow>
                 if m = [] then (Returned (), env1)
                 else (Returned (), snd (cx_reply (buildContext r event) m None env1)))
          else
            run_work sdk r
              (case matchSlashCommand r event of None \<Rightarrow> rn_handler r | Some h \<Rightarrow> h) event env1)"

section \<open>Registries\<close>

lemma register_all_inv: "jm_inv (foldl (\<lambda>m a. register a m) m as)" if "jm_inv m"
  using that by (induction as arbitrary: m) (simp_all add: register_def map_facts)

lemma register_all_get:
  "jm_inv m \<Longrightarrow> jm_get (foldl (\<lambda>m a. register a m) m as) p =
     (case find (\<lambda>a. ad_platform a = p) (rev as) of Some a \<Rightarrow> Some a | None \<Rightarrow> jm_get m p)"
proof (induction as arbitrary: m)
  case (Cons a as)
  have "jm_get (foldl (\<lambda>m a. register a m) m (a # as)) p =
      (case find (\<lambda>a. ad_platform a = p) (rev as) of Some a \<Rightarrow> Some a | None \<Rightarrow> jm_get (register a m) p)"
    using Cons.IH [of "register a m"] Cons.prems by (simp add: register_def map_facts)
  moreover have "jm_get (register a m) p = (if ad_platform a = p then Some a else jm_get m p)"
    using Cons.prems by (simp add: register_def map_facts)
  ultimately show ?case by (simp add: find_append split: option.splits)
qed simp

section \<open>Command words\<close>

text \<open>The command word of a text: what follows the prefix, up to a space or an \<open>@\<close>.\<close>

definition ends_word :: "cu \<Rightarrow> bool" where
  "ends_word c \<longleftrightarrow> c = 32 \<or> c = 64"

definition command_word :: "js \<Rightarrow> js \<Rightarrow> js" where
  "command_word p text = takeWhile (\<lambda>c. \<not> ends_word c) (drop (length p) text)"

definition proper_name :: "js \<Rightarrow> bool" where
  "proper_name n \<longleftrightarrow> (\<forall>c \<in> set n. \<not> ends_word c)"

lemma takeWhile_word:
  assumes "proper_name n"
  shows "takeWhile (\<lambda>c. \<not> ends_word c) t = n \<longleftrightarrow>
     t = n \<or> prefix (n @ [32]) t \<or> prefix (n @ [64]) t"
proof
  assume tw: "takeWhile (\<lambda>c. \<not> ends_word c) t = n"
  have t: "t = n @ dropWhile (\<lambda>c. \<not> ends_word c) t" by (metis tw takeWhile_dropWhile_id)
  show "t = n \<or> prefix (n @ [32]) t \<or> prefix (n @ [64]) t"
  proof (cases "dropWhile (\<lambda>c. \<not> ends_word c) t")
    case Nil
    then show ?thesis using t by (metis append_Nil2)
  next
    case (Cons c r)
    then have "ends_word c" by (metis dropWhile_eq_Cons_conv)
    moreover have "t = (n @ [c]) @ r" using t Cons by simp
    ultimately show ?thesis by (auto simp: ends_word_def prefix_def)
  qed
next
  assume "t = n \<or> prefix (n @ [32]) t \<or> prefix (n @ [64]) t"
  then obtain u where u: "t = n \<or> t = n @ 32 # u \<or> t = n @ 64 # u"
    by (auto simp: prefix_def)
  have "takeWhile (\<lambda>c. \<not> ends_word c) (n @ us) = n @ takeWhile (\<lambda>c. \<not> ends_word c) us" for us
    using assms by (intro takeWhile_append2) (simp add: proper_name_def)
  from this [of "[]"] this [of "32 # u"] this [of "64 # u"] show "takeWhile (\<lambda>c. \<not> ends_word c) t = n"
    using u by (elim disjE) (simp_all add: ends_word_def)
qed

lemma match_commands_word:
  assumes "prefix p text" "\<forall>(name, h) \<in> set cs. proper_name name"
  shows "match_commands text p cs = map_of cs (command_word p text)"
  using assms(2)
proof (induction cs)
  case (Cons nh cs)
  obtain name h where nh: "nh = (name, h)" by (cases nh)
  obtain t where t: "text = p @ t" using assms(1) by (auto simp: prefix_def)
  have "command_word p text = name \<longleftrightarrow> t = name \<or> prefix (name @ [32]) t \<or> prefix (name @ [64]) t"
    using takeWhile_word [of name t] Cons.prems nh by (simp add: command_word_def t)
  then show ?case using Cons nh t by (auto simp: Let_def)
qed simp

section \<open>Properties\<close>

text \<open>
  A slash command runs exactly when the text begins with a prefix (the first of the list that it
  begins with) and its command word, up to a space or an \<open>@\<close>, is the command's whole name: \<open>/skill\<close>
  never answers \<open>/skills\<close>, and the order of registration does not matter.
\<close>
theorem slash_command_is_its_word:
  assumes "find (\<lambda>p. prefix p (ev_text event)) (case rn_prefixes r of None \<Rightarrow> DEFAULT_COMMAND_PREFIXES | Some ps \<Rightarrow> ps) = Some p"
    and "\<forall>(name, h) \<in> set (rn_commands r). proper_name name"
  shows "matchSlashCommand r event = jm_get (rn_commands r) (command_word p (ev_text event))"
proof -
  have "prefix p (ev_text event)" using assms(1) by (auto simp: find_Some_iff)
  then show ?thesis
    using match_commands_word [OF _ assms(2)] assms(1) by (simp add: matchSlashCommand_def Let_def jm_get_def)
qed

text \<open>
  C24: a blocked event reaches no handler: what a blocking decision leads to is the same whatever the
  handler and the commands are, and it is the auto-reply or nothing.
\<close>
theorem blocked_event_runs_no_handler:
  assumes "firePreInbound sdk (rn_hooks r) event env = (Returned d, env1)" "hd_block d = Some True"
  shows "dispatch sdk (r\<lparr>rn_handler := h, rn_commands := cs\<rparr>) event env =
     (Returned (), case hd_message d of None \<Rightarrow> env1 | Some m \<Rightarrow>
        if m = [] then env1 else snd (reply_of r event m None env1))"
proof -
  have reply: "reply_of (r\<lparr>rn_handler := h, rn_commands := cs\<rparr>) event m None env' = reply_of r event m None env'"
    for m env'
    by (simp add: reply_of_def deliver_def cong: outcome.case_cong prod.case_cong option.case_cong)
  show ?thesis using assms by (simp add: dispatch_def buildContext_def reply split: option.splits)
qed

text \<open>
  C21: a failing handler is contained: when hooks and handlers throw what they throw as values with a
  message, every dispatch resolves, whatever the adapters do.
\<close>
theorem dispatch_contains_failures:
  assumes "\<forall>hook \<in> set (rn_hooks r). polite_hook hook"
    and "\<forall>h ctx. h = rn_handler r \<or> h \<in> snd ` set (rn_commands r) \<longrightarrow> throws_messages (h event ctx)"
  shows "fst (dispatch sdk r event env) = Returned ()"
proof -
  obtain d env1 where pre: "firePreInbound sdk (rn_hooks r) event env = (Returned d, env1)"
    using firePreInbound_contains [OF assms(1)] by (metis prod.collapse)
  have work: "fst (run_work sdk r h event env1) = Returned ()"
    if h: "h = rn_handler r \<or> h \<in> snd ` set (rn_commands r)" for h
  proof -
    obtain o1 env2 where o1: "h event (buildContext r event) env1 = (o1, env2)" by fastforce
    show ?thesis
    proof (cases o1)
      case (Threw err)
      have "throws_messages (h event (buildContext r event))" using assms(2) h by blast
      then have "\<not> nullish err" using o1 Threw unfolding throws_messages_def by (metis fst_conv)
      then obtain m where m: "message_of err = Some m" by (auto simp: nullish_def)
      obtain env3 where "fireOnError (rn_hooks r) event err env2 = (Returned (), env3)"
        using fireOnError_contains [OF assms(1)] by (metis prod.collapse)
      then show ?thesis using o1 Threw m by (simp add: run_work_def)
    qed (simp add: run_work_def o1)
  qed
  have cmd: "h \<in> snd ` set (rn_commands r)" if "matchSlashCommand r event = Some h" for h
  proof -
    have "match_commands t p cs = Some h \<Longrightarrow> h \<in> snd ` set cs" for t p cs
      by (induction cs) (auto simp: Let_def split: if_splits)
    then show ?thesis using that by (auto simp: matchSlashCommand_def Let_def split: option.splits)
  qed
  have "fst (run_work sdk r (case matchSlashCommand r event of None \<Rightarrow> rn_handler r | Some h \<Rightarrow> h) event env1) = Returned ()"
    by (rule work) (auto split: option.splits dest: cmd)
  then show ?thesis unfolding dispatch_def pre by (auto split: option.splits)
qed

text \<open>
  Delivery goes to the adapter registered last for the request's platform, with the request's
  channel, text, format and reply target, and is refused as \<open>no_adapter\<close>, without any call, when the
  platform has none.
\<close>
theorem delivery_last_writer_wins:
  "router_send (foldl (\<lambda>m a. register a m) [] adapters) req env =
     (case find (\<lambda>a. ad_platform a = dr_platform req) (rev adapters) of
        None \<Rightarrow> (Returned (send_refused (lit ''no_adapter'')
                  (lit ''no adapter for platform '' @ quoted (dr_platform req))), env)
      | Some a \<Rightarrow> ad_sendMessage a
          \<lparr>out_channel = dr_channel req, out_text = dr_text req, out_format = dr_format req,
           out_replyTo = dr_replyTo req\<rparr> env)"
  using register_all_get [of "[]" adapters "dr_platform req"]
  by (simp add: router_send_def split: option.splits)

text \<open>
  A reply is reported: once the adapter answered, the answer, refused or not, reaches every
  \<open>post_outbound\<close> hook and then the caller, unchanged by what the hooks do. A reply without an adapter
  is reported the same way.
\<close>
theorem reply_is_reported_unchanged:
  assumes "\<forall>hook \<in> set (rn_hooks r). polite_hook hook"
    and "case jm_get (rn_adapters r) (ev_platform event) of
           None \<Rightarrow> result = send_refused (lit ''no_adapter'') (lit ''no adapter for '' @ ev_platform event) \<and> env1 = env
         | Some a \<Rightarrow> ad_sendMessage a out env = (Returned result, env1)"
  shows "deliver r event out env = (Returned result, snd (firePostOutbound (rn_hooks r) event out result env1))"
  using assms(2) firePostOutbound_contains [OF assms(1), of event out result env1]
  by (cases "firePostOutbound (rn_hooks r) event out result env1") (auto simp: deliver_def split: option.splits)

section \<open>Concrete runners\<close>

definition echo_adapter :: "nat adapter" where
  "echo_adapter = \<lparr>ad_platform = lit ''irc'',
     ad_sendMessage = (\<lambda>out env. (Returned (send_ok (Some (out_text out))), env\<lparr>env_world := Suc (env_world env)\<rparr>))\<rparr>"

definition failing_handler :: "thrown \<Rightarrow> nat handler" where
  "failing_handler t ev ctx env = (Threw t, env)"

definition sample_runner :: "nat gateway_hook list \<Rightarrow> thrown \<Rightarrow> nat runner" where
  "sample_runner hooks t =
     command_set (lit ''skill'') (failing_handler t)
       (command_set (lit ''skills'') (failing_handler type_error)
         (newRunner [echo_adapter] hooks (failing_handler t) None))"

definition says :: "string \<Rightarrow> message_event" where
  "says t = (sample_event ''irc'' ''bob'')\<lparr>ev_text := lit t\<rparr>"

lemma commands_sample [simp]:
  "rn_commands (sample_runner hooks t) =
     [(lit ''skills'', failing_handler type_error), (lit ''skill'', failing_handler t)]"
  by (simp add: sample_runner_def command_set_def newRunner_def jm_set_def)

lemma sample_runner_simps [simp]:
  "rn_hooks (sample_runner hooks t) = hooks" "rn_prefixes (sample_runner hooks t) = None"
  "rn_handler (sample_runner hooks t) = failing_handler t"
  "rn_adapters (sample_runner hooks t) = [(lit ''irc'', echo_adapter)]"
  by (simp_all add: sample_runner_def command_set_def newRunner_def register_def jm_set_def echo_adapter_def)

lemma calm_polite: "polite_hook calm"
  by (simp add: polite_hook_def calm_def throws_messages_def)

theorem slash_command_is_its_word_witness:
  "matchSlashCommand (sample_runner [] type_error) (says ''/skills now'') = Some (failing_handler type_error)"
proof -
  have "matchSlashCommand (sample_runner [] type_error) (says ''/skills now'') =
      jm_get (rn_commands (sample_runner [] type_error)) (command_word (lit ''/'') (ev_text (says ''/skills now'')))"
    by (rule slash_command_is_its_word)
      (simp_all add: says_def sample_event_def DEFAULT_COMMAND_PREFIXES_def proper_name_def ends_word_def)
  then show ?thesis by (simp add: says_def command_word_def ends_word_def jm_get_def)
qed

theorem blocked_event_runs_no_handler_witness:
  "dispatch id ((sample_runner [quota] type_error)\<lparr>rn_handler := failing_handler type_error, rn_commands := []\<rparr>) (says ''hi'') start_env =
     (Returned (), snd (reply_of (sample_runner [quota] type_error) (says ''hi'') (lit ''later'') None start_env))"
proof -
  have "dispatch id ((sample_runner [quota] type_error)\<lparr>rn_handler := failing_handler type_error, rn_commands := []\<rparr>) (says ''hi'') start_env =
     (Returned (), case hd_message \<lparr>hd_block = Some True, hd_message = Some (lit ''later'')\<rparr> of
        None \<Rightarrow> start_env
      | Some m \<Rightarrow> if m = [] then start_env
          else snd (reply_of (sample_runner [quota] type_error) (says ''hi'') m None start_env))"
    by (rule blocked_event_runs_no_handler) (simp_all add: quota_def blocks_def)
  then show ?thesis by simp
qed

theorem dispatch_contains_failures_witness:
  "fst (dispatch id (sample_runner [calm] (ThrownError (lit ''boom''))) (says ''hi'') start_env) = Returned ()"
proof (rule dispatch_contains_failures)
  show "\<forall>hook \<in> set (rn_hooks (sample_runner [calm] (ThrownError (lit ''boom'')))). polite_hook hook"
    by (simp add: calm_polite)
  have "throws_messages (failing_handler t ev ctx)" if "\<not> nullish t" for t ev ctx
    using that by (simp add: throws_messages_def failing_handler_def)
  then show "\<forall>h ctx. h = rn_handler (sample_runner [calm] (ThrownError (lit ''boom''))) \<or>
      h \<in> snd ` set (rn_commands (sample_runner [calm] (ThrownError (lit ''boom'')))) \<longrightarrow>
      throws_messages (h (says ''hi'') ctx)"
    by (auto simp: nullish_def type_error_def)
qed

theorem reply_is_reported_unchanged_witness:
  "deliver (sample_runner [calm] type_error) (says ''hi'')
      \<lparr>out_channel = ev_channel (says ''hi''), out_text = lit ''yo'', out_format = None, out_replyTo = None\<rparr> start_env =
     (Returned (send_ok (Some (lit ''yo''))), start_env\<lparr>env_world := 1\<rparr>)"
proof -
  let ?out = "\<lparr>out_channel = ev_channel (says ''hi''), out_text = lit ''yo'', out_format = None, out_replyTo = None\<rparr>"
  let ?r = "sample_runner [calm] type_error"
  have "deliver ?r (says ''hi'') ?out start_env = (Returned (send_ok (Some (lit ''yo''))),
      snd (firePostOutbound (rn_hooks ?r) (says ''hi'') ?out (send_ok (Some (lit ''yo''))) (start_env\<lparr>env_world := 1\<rparr>)))"
    by (rule reply_is_reported_unchanged)
      (simp_all add: calm_polite jm_get_def says_def sample_event_def echo_adapter_def start_env_def)
  then show ?thesis by (simp add: firePostOutbound_def calm_def List.map_filter_def)
qed

text \<open>
  A handler that rejects with no value escapes the containment: reading the message of what it
  threw throws in the \<open>catch\<close> block itself, so the dispatch rejects, and nobody awaits it.
\<close>
theorem empty_rejection_escapes_dispatch:
  "fst (dispatch id (sample_runner [] (ThrownNullish (lit ''undefined''))) (says ''hi'') start_env) = Threw type_error"
  by (simp add: dispatch_def pass_def matchSlashCommand_def says_def sample_event_def
      DEFAULT_COMMAND_PREFIXES_def run_work_def failing_handler_def fireOnError_def List.map_filter_def)

end
