(* ===== verification/RunnerLifecycle.thy ===== *)
theory RunnerLifecycle
  imports Runner
begin

text \<open>
  The lifecycle half of \<open>runner/gateway-runner.ts\<close>: \<open>start()\<close>, \<open>stop()\<close> and the inbound wiring as a
  state machine whose steps are the synchronous sections of the code, interleaved in any order the
  event loop allows. An adapter is its position in \<open>opts.adapters\<close>; what the platform client does
  is the order and the outcome of the \<open>ConnectSettles\<close> steps. \<open>held\<close> says that an adapter's connect
  succeeded and that the runner has not disconnected it since.
\<close>

section \<open>State\<close>

datatype connect_result = ConnectTrue | ConnectFalse | ConnectThrew thrown

record start_result =
  sr_connected :: "platform list"
  sr_failed :: "(platform \<times> js) list"

datatype start_outcome =
    StartResolved start_result
  | StartRejected thrown
  | StartThrew lifecycle_error

text \<open>The start that has not settled yet: connecting, or giving adapters back.\<close>

datatype start_phase =
    Connecting
  | RollingBack thrown
  | Overtaken "(platform \<times> js) list"

datatype stop_phase = Running | Draining "nat list" | Released | StopRejected

text \<open>
  \<open>lf_pending\<close> counts, for each adapter, the calls of its \<open>connect()\<close> that have not settled: a start calls that of
  every adapter at once.
\<close>

record run_config =
  rc_platforms :: "platform list"
  rc_isolate :: bool

record lifecycle =
  lf_stopped :: bool
  lf_startResult :: "start_result option"
  lf_startInFlight :: "start_phase option"
  lf_settled :: "nat \<Rightarrow> connect_result option"
  lf_failures :: "thrown list"
  lf_held :: "nat \<Rightarrow> bool"
  lf_wired :: "nat list"
  lf_inflight :: "nat list"
  lf_stop :: stop_phase
  lf_waiting :: nat
  lf_outcomes :: "start_outcome list"
  lf_pending :: "nat \<Rightarrow> nat"

definition fresh :: lifecycle where
  "fresh = \<lparr>lf_stopped = False, lf_startResult = None, lf_startInFlight = None,
     lf_settled = (\<lambda>_. None), lf_failures = [], lf_held = (\<lambda>_. False), lf_wired = [],
     lf_inflight = [], lf_stop = Running, lf_waiting = 0, lf_outcomes = [], lf_pending = (\<lambda>_. 0)\<rparr>"

datatype event =
    StartCall
  | ConnectSettles nat connect_result
  | StartContinues
  | ReleaseSettles
  | StopCall
  | DrainTimeout
  | Inbound nat nat
  | DispatchSettles nat bool

section \<open>Operations\<close>

definition indices :: "run_config \<Rightarrow> nat list" where
  "indices cfg = [0..<length (rc_platforms cfg)]"

definition connectFailureReason :: "(js \<Rightarrow> js) \<Rightarrow> connect_result \<Rightarrow> js" where
  "connectFailureReason sdk r =
     (case r of ConnectThrew e \<Rightarrow> redactSecrets sdk (text_of e)
      | _ \<Rightarrow> lit ''connect returned false'')"

definition releaseAdapters :: "nat list \<Rightarrow> lifecycle \<Rightarrow> lifecycle" where
  "releaseAdapters is s = s\<lparr>lf_held := (\<lambda>i. lf_held s i \<and> i \<notin> set is)\<rparr>"

definition runner_stopped :: lifecycle_error where
  "runner_stopped = GatewayLifecycleError (lit ''runner_stopped'')
     (lit ''GatewayRunner.start(): this runner has already been stopped and cannot be restarted. Construct a new GatewayRunner instead.'')"

definition start :: "lifecycle \<Rightarrow> lifecycle" where
  "start s =
     (if lf_stopped s then s\<lparr>lf_outcomes := lf_outcomes s @ [StartThrew runner_stopped]\<rparr>
      else case lf_startResult s of
        Some r \<Rightarrow> s\<lparr>lf_outcomes := lf_outcomes s @ [StartResolved r]\<rparr>
      | None \<Rightarrow>
          (case lf_startInFlight s of
             None \<Rightarrow> s\<lparr>lf_startInFlight := Some Connecting, lf_settled := (\<lambda>_. None),
                      lf_failures := [], lf_waiting := 1, lf_pending := (\<lambda>i. Suc (lf_pending s i))\<rparr>
           | Some _ \<Rightarrow> s\<lparr>lf_waiting := Suc (lf_waiting s)\<rparr>))"

text \<open>One adapter's connect settles; a failure is recorded in the order failures occur.\<close>

definition connect_settles :: "run_config \<Rightarrow> nat \<Rightarrow> connect_result \<Rightarrow> lifecycle \<Rightarrow> lifecycle option" where
  "connect_settles cfg i r s =
     (if lf_startInFlight s = Some Connecting \<and> i < length (rc_platforms cfg) \<and> lf_settled s i = None
      then Some (s\<lparr>lf_settled := (lf_settled s)(i := Some r),
                   lf_held := (lf_held s)(i := (r = ConnectTrue)),
                   lf_pending := (lf_pending s)(i := lf_pending s i - 1),
                   lf_failures := lf_failures s @
                     (case r of ConnectTrue \<Rightarrow> []
                      | ConnectFalse \<Rightarrow> [ThrownError (lit ''adapter '' @ quoted (rc_platforms cfg ! i) @
                                           lit '' connect returned false'')]
                      | ConnectThrew e \<Rightarrow> [e])\<rparr>)
      else None)"

definition all_settled :: "run_config \<Rightarrow> lifecycle \<Rightarrow> bool" where
  "all_settled cfg s \<longleftrightarrow> list_all (\<lambda>i. lf_settled s i \<noteq> None) (indices cfg)"

definition fulfilled :: "run_config \<Rightarrow> lifecycle \<Rightarrow> nat list" where
  "fulfilled cfg s = filter (\<lambda>i. lf_settled s i = Some ConnectTrue) (indices cfg)"

text \<open>What the connect came to: adapters to roll back and the error, or what connected and failed.\<close>

definition connectAllOrRollback ::
    "run_config \<Rightarrow> lifecycle \<Rightarrow> (nat list \<times> thrown) + (nat list \<times> (platform \<times> js) list)" where
  "connectAllOrRollback cfg s =
     (case lf_failures s of
        e # _ \<Rightarrow> Inl (fulfilled cfg s, e)
      | [] \<Rightarrow> Inr (indices cfg, []))"

definition connectIsolated ::
    "(js \<Rightarrow> js) \<Rightarrow> run_config \<Rightarrow> lifecycle \<Rightarrow> (nat list \<times> thrown) + (nat list \<times> (platform \<times> js) list)" where
  "connectIsolated sdk cfg s =
     Inr (fulfilled cfg s,
       List.map_filter (\<lambda>i. case lf_settled s i of
           None \<Rightarrow> None
         | Some ConnectTrue \<Rightarrow> None
         | Some r \<Rightarrow> Some (rc_platforms cfg ! i, connectFailureReason sdk r)) (indices cfg))"

definition connect_outcome ::
    "(js \<Rightarrow> js) \<Rightarrow> run_config \<Rightarrow> lifecycle \<Rightarrow> (nat list \<times> thrown) + (nat list \<times> (platform \<times> js) list)" where
  "connect_outcome sdk cfg s =
     (if rc_isolate cfg then connectIsolated sdk cfg s else connectAllOrRollback cfg s)"

definition settle_start :: "start_outcome \<Rightarrow> lifecycle \<Rightarrow> lifecycle" where
  "settle_start out s =
     s\<lparr>lf_startInFlight := None, lf_outcomes := lf_outcomes s @ replicate (lf_waiting s) out,
       lf_waiting := 0\<rparr>"

text \<open>\<open>runStart\<close> once every connect settled.\<close>

definition runStart :: "(js \<Rightarrow> js) \<Rightarrow> run_config \<Rightarrow> lifecycle \<Rightarrow> lifecycle option" where
  "runStart sdk cfg s =
     (if lf_startInFlight s \<noteq> Some Connecting \<or> \<not> all_settled cfg s then None
      else case connect_outcome sdk cfg s of
        Inl (connected, e) \<Rightarrow>
          Some ((releaseAdapters connected s)\<lparr>lf_startInFlight := Some (RollingBack e)\<rparr>)
      | Inr (connected, failed) \<Rightarrow>
          if lf_stopped s then
            Some ((releaseAdapters connected s)\<lparr>lf_startInFlight := Some (Overtaken failed)\<rparr>)
          else
            (let r = \<lparr>sr_connected = map ((!) (rc_platforms cfg)) connected, sr_failed = failed\<rparr>
             in Some (settle_start (StartResolved r) (s\<lparr>lf_wired := connected, lf_startResult := Some r\<rparr>))))"

text \<open>The disconnects of a rollback, or of an overtaken start, have all settled.\<close>

definition release_settles :: "lifecycle \<Rightarrow> lifecycle option" where
  "release_settles s =
     (case lf_startInFlight s of
        Some (RollingBack e) \<Rightarrow> Some (settle_start (StartRejected e) s)
      | Some (Overtaken failed) \<Rightarrow>
          (let r = \<lparr>sr_connected = [], sr_failed = failed\<rparr>
           in Some (settle_start (StartResolved r) (s\<lparr>lf_startResult := Some r\<rparr>)))
      | _ \<Rightarrow> None)"

text \<open>\<open>[...adaptersByPlatform.values()]\<close>: for each platform the adapter registered last.\<close>

definition stop_targets :: "run_config \<Rightarrow> nat list" where
  "stop_targets cfg =
     jm_values (foldl (\<lambda>m i. jm_set (rc_platforms cfg ! i) i m) [] (indices cfg))"

definition finish_stop :: "run_config \<Rightarrow> lifecycle \<Rightarrow> lifecycle" where
  "finish_stop cfg s = (releaseAdapters (stop_targets cfg) s)\<lparr>lf_stop := Released\<rparr>"

definition stop :: "run_config \<Rightarrow> lifecycle \<Rightarrow> lifecycle" where
  "stop cfg s =
     (if lf_stopped s then s
      else
        (let s1 = s\<lparr>lf_stopped := True, lf_wired := []\<rparr>
         in if lf_inflight s1 = [] then finish_stop cfg s1
            else s1\<lparr>lf_stop := Draining (lf_inflight s1)\<rparr>))"

definition drain_timeout :: "run_config \<Rightarrow> lifecycle \<Rightarrow> lifecycle option" where
  "drain_timeout cfg s = (case lf_stop s of Draining _ \<Rightarrow> Some (finish_stop cfg s) | _ \<Rightarrow> None)"

text \<open>\<open>wireInbound\<close>'s callback: an event of a wired adapter starts a dispatch.\<close>

definition inbound :: "nat \<Rightarrow> nat \<Rightarrow> lifecycle \<Rightarrow> lifecycle option" where
  "inbound i d s =
     (if i \<in> set (lf_wired s) \<and> d \<notin> set (lf_inflight s)
      then Some (s\<lparr>lf_inflight := lf_inflight s @ [d]\<rparr>) else None)"

text \<open>
  A dispatch settles: the drain waits for the ones in flight when it began, and rejects with the
  first of them that rejects.
\<close>

definition dispatch_settles :: "run_config \<Rightarrow> nat \<Rightarrow> bool \<Rightarrow> lifecycle \<Rightarrow> lifecycle option" where
  "dispatch_settles cfg d ok s =
     (if d \<notin> set (lf_inflight s) then None
      else
        (let s1 = s\<lparr>lf_inflight := removeAll d (lf_inflight s)\<rparr>
         in case lf_stop s1 of
              Draining waits \<Rightarrow>
                if d \<notin> set waits then Some s1
                else if \<not> ok then Some (s1\<lparr>lf_stop := StopRejected\<rparr>)
                else if removeAll d waits = [] then Some (finish_stop cfg s1)
                else Some (s1\<lparr>lf_stop := Draining (removeAll d waits)\<rparr>)
            | _ \<Rightarrow> Some s1))"

definition step :: "(js \<Rightarrow> js) \<Rightarrow> run_config \<Rightarrow> event \<Rightarrow> lifecycle \<Rightarrow> lifecycle option" where
  "step sdk cfg e s =
     (case e of
        StartCall \<Rightarrow> Some (start s)
      | ConnectSettles i r \<Rightarrow> connect_settles cfg i r s
      | StartContinues \<Rightarrow> runStart sdk cfg s
      | ReleaseSettles \<Rightarrow> release_settles s
      | StopCall \<Rightarrow> Some (stop cfg s)
      | DrainTimeout \<Rightarrow> drain_timeout cfg s
      | Inbound i d \<Rightarrow> inbound i d s
      | DispatchSettles d ok \<Rightarrow> dispatch_settles cfg d ok s)"

fun steps :: "(js \<Rightarrow> js) \<Rightarrow> run_config \<Rightarrow> event list \<Rightarrow> lifecycle \<Rightarrow> lifecycle option" where
  "steps sdk cfg [] s = Some s"
| "steps sdk cfg (e # es) s = (case step sdk cfg e s of None \<Rightarrow> None | Some s' \<Rightarrow> steps sdk cfg es s')"

inductive reachable :: "(js \<Rightarrow> js) \<Rightarrow> run_config \<Rightarrow> lifecycle \<Rightarrow> bool" for sdk cfg where
  fresh: "reachable sdk cfg fresh"
| step: "reachable sdk cfg s \<Longrightarrow> step sdk cfg e s = Some s' \<Longrightarrow> reachable sdk cfg s'"

lemma steps_reachable: "reachable sdk cfg s \<Longrightarrow> steps sdk cfg es s = Some s' \<Longrightarrow> reachable sdk cfg s'"
  by (induction es arbitrary: s) (auto split: option.splits intro: reachable.step)

lemmas [step_defs] = start_def connect_settles_def runStart_def release_settles_def stop_def
  drain_timeout_def inbound_def dispatch_settles_def settle_start_def releaseAdapters_def finish_stop_def

section \<open>Whom \<open>stop()\<close> disconnects\<close>

lemma foldl_positions_inv: "jm_inv m \<Longrightarrow> jm_inv (foldl (\<lambda>m i. jm_set (f i) i m) m is)"
  by (induction "is" arbitrary: m) (simp_all add: map_facts)

lemma foldl_positions_get:
  "distinct is \<Longrightarrow> inj_on f (set is) \<Longrightarrow> i \<in> set is \<Longrightarrow>
   jm_get (foldl (\<lambda>m i. jm_set (f i) i m) [] is) (f i) = Some i"
proof (induction "is" rule: rev_induct)
  case (snoc j js)
  have inv: "jm_inv (foldl (\<lambda>m i. jm_set (f i) i m) [] js)" by (rule foldl_positions_inv) simp
  show ?case
  proof (cases "i = j")
    case False
    then have ne: "f i \<noteq> f j" using snoc.prems by (auto simp: inj_on_def)
    have "jm_get (foldl (\<lambda>m i. jm_set (f i) i m) [] js) (f i) = Some i"
      using snoc False by (simp add: inj_on_def)
    then show ?thesis using ne by (simp add: jm.get_put [OF inv])
  qed (simp add: jm.get_put [OF inv])
qed simp

lemma stop_targets_all:
  assumes "distinct (rc_platforms cfg)" "i < length (rc_platforms cfg)"
  shows "i \<in> set (stop_targets cfg)"
proof -
  let ?m = "foldl (\<lambda>m i. jm_set (rc_platforms cfg ! i) i m) [] (indices cfg)"
  have "inj_on ((!) (rc_platforms cfg)) (set (indices cfg))"
    using assms(1) by (auto simp: inj_on_def indices_def nth_eq_iff_index_eq)
  then have "jm_get ?m (rc_platforms cfg ! i) = Some i"
    using foldl_positions_get [of "indices cfg" "(!) (rc_platforms cfg)" i] assms(2)
    by (simp add: indices_def)
  moreover have "jm_inv ?m" by (rule foldl_positions_inv) simp
  ultimately show ?thesis unfolding stop_targets_def using jm_values_get [of ?m i] by blast
qed

section \<open>The invariant\<close>

text \<open>No adapter is held.\<close>

definition none_held :: "lifecycle \<Rightarrow> bool" where
  "none_held s \<longleftrightarrow> (\<forall>i. \<not> lf_held s i)"

definition inv_start :: "run_config \<Rightarrow> lifecycle \<Rightarrow> bool" where
  "inv_start cfg s \<longleftrightarrow>
     (lf_startInFlight s = None \<longrightarrow> lf_startResult s = None \<longrightarrow> none_held s) \<and>
     (lf_startInFlight s \<noteq> None \<longrightarrow> lf_startResult s = None) \<and>
     (lf_startInFlight s \<noteq> None \<longrightarrow> lf_startInFlight s \<noteq> Some Connecting \<longrightarrow> none_held s) \<and>
     (lf_startInFlight s = Some Connecting \<longrightarrow>
        (\<forall>i. lf_held s i \<longrightarrow> i < length (rc_platforms cfg) \<and> lf_settled s i = Some ConnectTrue) \<and>
        (lf_failures s = [] \<longrightarrow> (\<forall>i. lf_settled s i = None \<or> lf_settled s i = Some ConnectTrue)) \<and>
        (\<not> lf_stopped s \<longrightarrow> (\<forall>i. lf_settled s i = Some ConnectTrue \<longrightarrow> lf_held s i)))"

definition inv_stop :: "run_config \<Rightarrow> lifecycle \<Rightarrow> bool" where
  "inv_stop cfg s \<longleftrightarrow>
     (lf_stopped s \<longleftrightarrow> lf_stop s \<noteq> Running) \<and>
     (lf_stopped s \<longrightarrow> lf_wired s = []) \<and>
     (lf_startResult s = None \<longrightarrow> lf_wired s = [] \<and> lf_inflight s = []) \<and>
     (\<forall>i. lf_held s i \<longrightarrow> i < length (rc_platforms cfg)) \<and>
     (lf_stop s = Released \<longrightarrow> lf_startResult s \<noteq> None \<longrightarrow> distinct (rc_platforms cfg) \<longrightarrow> none_held s) \<and>
     (\<not> lf_stopped s \<longrightarrow> lf_startResult s \<noteq> None \<longrightarrow> (\<forall>i. lf_held s i \<longleftrightarrow> i \<in> set (lf_wired s)))"

lemma inv_fresh: "inv_start cfg fresh \<and> inv_stop cfg fresh"
  by (simp add: inv_start_def inv_stop_def fresh_def none_held_def)

lemma none_held_release:
  "\<forall>i. lf_held s i \<longrightarrow> i \<in> set is \<Longrightarrow> none_held (releaseAdapters is s)"
  by (auto simp: none_held_def releaseAdapters_def)

lemma fulfilled_held:
  assumes "\<forall>i. lf_held s i \<longrightarrow> i < length (rc_platforms cfg) \<and> lf_settled s i = Some ConnectTrue"
  shows "\<forall>i. lf_held s i \<longrightarrow> i \<in> set (fulfilled cfg s)"
  using assms by (auto simp: fulfilled_def indices_def)

definition inv :: "run_config \<Rightarrow> lifecycle \<Rightarrow> bool" where
  "inv cfg s \<longleftrightarrow> inv_start cfg s \<and> inv_stop cfg s"

lemmas inv_defs = inv_def inv_start_def inv_stop_def

lemma none_held_simps [simp]:
  "none_held (s\<lparr>lf_stopped := b\<rparr>) = none_held s" "none_held (s\<lparr>lf_startResult := r\<rparr>) = none_held s"
  "none_held (s\<lparr>lf_startInFlight := p\<rparr>) = none_held s" "none_held (s\<lparr>lf_settled := st\<rparr>) = none_held s"
  "none_held (s\<lparr>lf_failures := fs\<rparr>) = none_held s" "none_held (s\<lparr>lf_wired := w\<rparr>) = none_held s"
  "none_held (s\<lparr>lf_inflight := ds\<rparr>) = none_held s" "none_held (s\<lparr>lf_stop := sp'\<rparr>) = none_held s"
  "none_held (s\<lparr>lf_waiting := n\<rparr>) = none_held s" "none_held (s\<lparr>lf_pending := ps\<rparr>) = none_held s" "none_held (s\<lparr>lf_outcomes := os\<rparr>) = none_held s"
  by (simp_all add: none_held_def)

lemma none_heldD: "none_held s \<Longrightarrow> \<not> lf_held s i" by (simp add: none_held_def)

lemma inv_outcomes: "inv cfg s \<Longrightarrow> inv cfg (s\<lparr>lf_outcomes := os\<rparr>)"
  by (simp add: inv_defs)

lemma inv_waiting: "inv cfg s \<Longrightarrow> inv cfg (s\<lparr>lf_waiting := n\<rparr>)"
  by (simp add: inv_defs)

lemma inv_begin:
  assumes "inv cfg s" "lf_startResult s = None" "lf_startInFlight s = None"
  shows "inv cfg (s\<lparr>lf_startInFlight := Some Connecting, lf_settled := (\<lambda>_. None),
     lf_failures := [], lf_waiting := 1, lf_pending := ps\<rparr>)"
proof -
  have "none_held s" using assms by (simp add: inv_defs)
  then show ?thesis using assms by (simp add: inv_defs none_held_def)
qed

lemma inv_startcall: "inv cfg s \<Longrightarrow> inv cfg (start s)"
  using inv_outcomes inv_waiting inv_begin by (simp add: start_def split: option.splits)

lemma inv_connect_settles:
  assumes inv: "inv cfg s" and go: "connect_settles cfg i r s = Some s'"
  shows "inv cfg s'"
proof -
  have st: "lf_startInFlight s = Some Connecting" "i < length (rc_platforms cfg)" "lf_settled s i = None"
    using go by (auto simp: connect_settles_def split: if_splits)
  have res: "lf_startResult s = None" using inv st(1) by (simp add: inv_defs)
  have held: "lf_held s j \<Longrightarrow> j < length (rc_platforms cfg) \<and> lf_settled s j = Some ConnectTrue" for j
    using inv st(1) by (simp add: inv_defs)
  have fl: "lf_failures s = [] \<Longrightarrow> lf_settled s j = None \<or> lf_settled s j = Some ConnectTrue" for j
    using inv st(1) by (simp add: inv_defs)
  have heldI: "\<not> lf_stopped s \<Longrightarrow> lf_settled s j = Some ConnectTrue \<Longrightarrow> lf_held s j" for j
    using inv st(1) by (simp add: inv_defs)
  have s': "lf_startInFlight s' = Some Connecting" "lf_startResult s' = None"
    "lf_settled s' = (lf_settled s)(i := Some r)" "lf_held s' = (lf_held s)(i := (r = ConnectTrue))"
    "lf_failures s' = [] \<Longrightarrow> lf_failures s = [] \<and> r = ConnectTrue"
    "lf_stopped s' = lf_stopped s" "lf_wired s' = lf_wired s" "lf_inflight s' = lf_inflight s"
    "lf_stop s' = lf_stop s"
    using go st res by (auto simp: connect_settles_def split: connect_result.splits)
  have "inv_start cfg s'" using s' held fl heldI st(2) by (auto simp: inv_start_def)
  moreover have "inv_stop cfg s'"
    using inv s' held st(2) res by (auto simp: inv_def inv_stop_def)
  ultimately show ?thesis by (simp add: inv_def)
qed

lemma inv_release_settles: "inv cfg s \<Longrightarrow> release_settles s = Some s' \<Longrightarrow> inv cfg s'"
  by (auto simp: inv_defs release_settles_def settle_start_def none_heldD Let_def
      split: option.splits start_phase.splits)

lemma inv_inflight:
  "inv cfg s \<Longrightarrow> lf_startResult s \<noteq> None \<or> ds = [] \<Longrightarrow> inv cfg (s\<lparr>lf_inflight := ds\<rparr>)"
  by (cases "lf_startResult s") (simp_all add: inv_defs)

lemma inv_inbound:
  assumes inv: "inv cfg s" and go: "inbound i d s = Some s'"
  shows "inv cfg s'"
proof -
  have "s' = s\<lparr>lf_inflight := lf_inflight s @ [d]\<rparr>" "lf_wired s \<noteq> []"
    using go by (auto simp: inbound_def split: if_splits)
  moreover from this(2) have "lf_startResult s \<noteq> None" using inv by (auto simp: inv_defs)
  ultimately show ?thesis using inv_inflight [OF inv] by simp
qed

lemma inv_finish_stop:
  assumes "inv cfg (s\<lparr>lf_stop := Draining ws\<rparr>)"
  shows "inv cfg (finish_stop cfg s)"
proof -
  let ?s = "releaseAdapters (stop_targets cfg) s"
  have none: "none_held ?s" if "distinct (rc_platforms cfg)"
    using assms stop_targets_all [OF that] by (intro none_held_release) (auto simp: inv_defs)
  have keep: "none_held ?s" if "none_held s" using that by (simp add: none_held_def releaseAdapters_def)
  have "inv_start cfg ?s"
    using assms keep
    by (auto simp: inv_defs releaseAdapters_def)
  moreover have "inv_stop cfg (?s\<lparr>lf_stop := Released\<rparr>)"
    using assms none by (auto simp: inv_defs releaseAdapters_def)
  ultimately show ?thesis
    by (auto simp: inv_defs finish_stop_def releaseAdapters_def)
qed

lemma stop_keeps_inv: "inv cfg s \<Longrightarrow> inv cfg (stop cfg s)"
proof -
  assume inv: "inv cfg s"
  let ?s1 = "s\<lparr>lf_stopped := True, lf_wired := []\<rparr>"
  have "inv cfg (?s1\<lparr>lf_stop := Draining ws\<rparr>)" for ws
    using inv by (simp add: inv_defs)
  then show ?thesis using inv inv_finish_stop [where s = ?s1] by (simp add: stop_def Let_def)
qed

lemma inv_restop: "inv cfg s \<Longrightarrow> lf_stop s \<noteq> Running \<Longrightarrow> inv cfg (s\<lparr>lf_stop := Draining ws\<rparr>)"
  by (simp add: inv_defs)

lemma inv_drain_timeout:
  assumes "inv cfg s" "drain_timeout cfg s = Some s'" shows "inv cfg s'"
proof -
  have "lf_stop s \<noteq> Running" "s' = finish_stop cfg s"
    using assms(2) by (auto simp: drain_timeout_def split: stop_phase.splits)
  then show ?thesis using inv_finish_stop [OF inv_restop [OF assms(1)]] by simp
qed

lemma inv_fewer_inflight: "inv cfg s \<Longrightarrow> inv cfg (s\<lparr>lf_inflight := removeAll d (lf_inflight s)\<rparr>)"
  by (rule inv_inflight) (assumption, cases "lf_startResult s", simp_all add: inv_defs)

lemma inv_stop_rejected: "inv cfg s \<Longrightarrow> lf_stop s \<noteq> Running \<Longrightarrow> inv cfg (s\<lparr>lf_stop := StopRejected\<rparr>)"
  by (simp add: inv_defs)

lemma inv_dispatch_settles:
  assumes "inv cfg s" "dispatch_settles cfg d ok s = Some s'"
  shows "inv cfg s'"
proof -
  let ?s1 = "s\<lparr>lf_inflight := removeAll d (lf_inflight s)\<rparr>"
  have s1: "inv cfg ?s1" by (rule inv_fewer_inflight [OF assms(1)])
  note inv_restop [OF s1] inv_stop_rejected [OF s1] inv_finish_stop [where s = ?s1, OF inv_restop [OF s1]]
  then show ?thesis using assms(2) s1
    by (cases "lf_stop s") (auto simp: dispatch_settles_def Let_def split: if_splits)
qed

lemma fulfilled_all:
  assumes "all_settled cfg s" "\<forall>i. lf_settled s i = None \<or> lf_settled s i = Some ConnectTrue"
  shows "fulfilled cfg s = indices cfg"
  using assms unfolding fulfilled_def all_settled_def list_all_iff
  by (intro filter_True ballI) (metis (full_types))

lemma connect_outcome_fulfilled:
  assumes "lf_failures s = [] \<Longrightarrow> fulfilled cfg s = indices cfg"
  shows "(\<exists>e. connect_outcome sdk cfg s = Inl (fulfilled cfg s, e)) \<or>
     (\<exists>failed. connect_outcome sdk cfg s = Inr (fulfilled cfg s, failed))"
  using assms by (auto simp: connect_outcome_def connectIsolated_def connectAllOrRollback_def split: list.splits)

lemma inv_runStart:
  assumes inv: "inv cfg s" and go: "runStart sdk cfg s = Some s'"
  shows "inv cfg s'"
proof -
  have st: "lf_startInFlight s = Some Connecting" "all_settled cfg s"
    using go by (auto simp: runStart_def split: if_splits)
  have held: "\<forall>i. lf_held s i \<longrightarrow> i \<in> set (fulfilled cfg s)"
    using inv st by (intro fulfilled_held) (auto simp: inv_defs)
  have none: "none_held (releaseAdapters (fulfilled cfg s) s)" by (rule none_held_release [OF held])
  have phase: "lf_startResult s = None" "lf_wired s = []" "lf_inflight s = []"
    "lf_stopped s \<longleftrightarrow> lf_stop s \<noteq> Running" and bound: "\<forall>i. lf_held s i \<longrightarrow> i < length (rc_platforms cfg)"
    using inv st(1) by (simp_all add: inv_defs)
  have all: "fulfilled cfg s = indices cfg" if "lf_failures s = []"
    using that inv st by (intro fulfilled_all) (simp_all add: inv_defs)
  have heldI: "\<forall>i. lf_held s i \<longleftrightarrow> i \<in> set (fulfilled cfg s)" if "\<not> lf_stopped s"
    using that inv st held by (auto simp: inv_defs fulfilled_def)
  consider (rollback) e where "connect_outcome sdk cfg s = Inl (fulfilled cfg s, e)"
    | (finished) failed where "connect_outcome sdk cfg s = Inr (fulfilled cfg s, failed)"
    using connect_outcome_fulfilled [OF all] by blast
  then show ?thesis
  proof cases
    case rollback
    then have "s' = (releaseAdapters (fulfilled cfg s) s)\<lparr>lf_startInFlight := Some (RollingBack e)\<rparr>"
      using go st by (simp add: runStart_def)
    then show ?thesis using none phase bound by (simp add: inv_defs releaseAdapters_def)
  next
    case finished
    show ?thesis
    proof (cases "lf_stopped s")
      case True
      then have "s' = (releaseAdapters (fulfilled cfg s) s)\<lparr>lf_startInFlight := Some (Overtaken failed)\<rparr>"
        using go st finished by (simp add: runStart_def)
      then show ?thesis using none phase bound True by (simp add: inv_defs releaseAdapters_def)
    next
      case False
      define r where "r = \<lparr>sr_connected = map ((!) (rc_platforms cfg)) (fulfilled cfg s), sr_failed = failed\<rparr>"
      have "s' = settle_start (StartResolved r) (s\<lparr>lf_wired := fulfilled cfg s, lf_startResult := Some r\<rparr>)"
        using go st finished False by (simp add: runStart_def Let_def r_def)
      then show ?thesis using phase bound heldI [OF False] False
        by (simp add: inv_defs settle_start_def)
    qed
  qed
qed

lemma inv_step:
  assumes "inv cfg s" "step sdk cfg e s = Some s'" shows "inv cfg s'"
proof (cases e)
  case StartCall
  then show ?thesis using assms(2) inv_startcall [OF assms(1)] by (simp add: step_def)
next
  case StopCall
  then show ?thesis using assms(2) stop_keeps_inv [OF assms(1)] by (simp add: step_def)
next
  case (ConnectSettles i r)
  then show ?thesis using assms(2) inv_connect_settles [OF assms(1)] by (simp add: step_def)
next
  case StartContinues
  then show ?thesis using assms(2) inv_runStart [OF assms(1)] by (simp add: step_def)
next
  case ReleaseSettles
  then show ?thesis using assms(2) inv_release_settles [OF assms(1)] by (simp add: step_def)
next
  case DrainTimeout
  then show ?thesis using assms(2) inv_drain_timeout [OF assms(1)] by (simp add: step_def)
next
  case (Inbound i d)
  then show ?thesis using assms(2) inv_inbound [OF assms(1)] by (simp add: step_def)
next
  case (DispatchSettles d ok)
  then show ?thesis using assms(2) inv_dispatch_settles [OF assms(1)] by (simp add: step_def)
qed

lemma reachable_inv: "reachable sdk cfg s \<Longrightarrow> inv cfg s"
proof (induction rule: reachable.induct)
  case fresh
  show ?case unfolding inv_def by (rule inv_fresh)
next
  case (step s e s')
  then show ?case by (blast intro: inv_step)
qed

section \<open>Pending connects\<close>

text \<open>An adapter's connect is pending while the start connects and it has not settled.\<close>

lemma pending_step:
  assumes "\<forall>i < length (rc_platforms cfg). lf_pending s i = (if lf_startInFlight s = Some Connecting \<and> lf_settled s i = None then 1 else 0)"
    "step sdk cfg e s = Some s'"
  shows "\<forall>i < length (rc_platforms cfg). lf_pending s' i = (if lf_startInFlight s' = Some Connecting \<and> lf_settled s' i = None then 1 else 0)"
  using assms
proof (cases e)
  case StartContinues
  have "\<exists>r. lf_settled s i = Some r" if "all_settled cfg s" "i < length (rc_platforms cfg)" for i
    using that by (auto simp: all_settled_def indices_def list_all_iff)
  then have "\<forall>i < length (rc_platforms cfg). lf_pending s i = 0" if "all_settled cfg s"
    using that assms(1) by fastforce
  then show ?thesis using StartContinues assms(2)
    by (auto simp: step_def step_defs Let_def split: if_splits option.splits sum.splits prod.splits)
qed (use assms in \<open>auto simp: step_def step_defs Let_def split: if_splits option.splits start_phase.splits stop_phase.splits\<close>)

lemma reachable_pending:
  "reachable sdk cfg s \<Longrightarrow>
     \<forall>i < length (rc_platforms cfg). lf_pending s i = (if lf_startInFlight s = Some Connecting \<and> lf_settled s i = None then 1 else 0)"
  by (induction rule: reachable.induct) (simp add: fresh_def, rule pending_step)

section \<open>Properties\<close>

text \<open>
  C3: no leaked session: in whatever order \<open>start()\<close>, \<open>stop()\<close>, the connects, the disconnects and the
  dispatches interleave, once \<open>stop()\<close> finished and no start is pending, no adapter the runner
  connected is still held and none is wired, for adapters of distinct platforms.
\<close>
theorem stopped_runner_holds_nothing:
  assumes "reachable sdk cfg s" "distinct (rc_platforms cfg)"
    and "lf_stop s = Released" "lf_startInFlight s = None"
  shows "\<not> lf_held s i \<and> lf_wired s = []"
  using reachable_inv [OF assms(1)] assms(2-4)
  by (cases "lf_startResult s") (auto simp: inv_defs none_heldD)

text \<open>
  C27: connects never overlap: in every run an adapter has at most one \<open>connect()\<close> pending, none while its session
  is open, and a \<open>start()\<close> calls it only when none is pending, its session is not open and the runner is not
  stopped; that includes a \<open>start()\<close> during another, and the one after a rolled back one.
\<close>
theorem start_connects_only_released_adapters:
  assumes "reachable sdk cfg s" "i < length (rc_platforms cfg)"
  shows "lf_pending s i \<le> 1 \<and> (lf_held s i \<longrightarrow> lf_pending s i = 0) \<and>
    (lf_pending (start s) i \<noteq> lf_pending s i \<longrightarrow> lf_pending s i = 0 \<and> \<not> lf_held s i \<and> \<not> lf_stopped s)"
proof -
  have p: "lf_pending s i = (if lf_startInFlight s = Some Connecting \<and> lf_settled s i = None then 1 else 0)"
    using reachable_pending [OF assms(1)] assms(2) by blast
  have i: "inv cfg s" by (rule reachable_inv [OF assms(1)])
  then have "lf_pending s i = 0" if "lf_held s i" using that p by (auto simp: inv_defs)
  moreover have "lf_pending s i = 0 \<and> \<not> lf_held s i \<and> \<not> lf_stopped s" if c: "lf_pending (start s) i \<noteq> lf_pending s i"
  proof -
    have n: "lf_startInFlight s = None" "lf_startResult s = None" "\<not> lf_stopped s"
      using c by (simp_all add: start_def split: if_splits option.splits)
    then have "none_held s" using i by (simp add: inv_defs)
    then show ?thesis using n p none_heldD by simp
  qed
  ultimately show ?thesis using p by simp
qed

text \<open>
  While the runner is up, inbound dispatch is wired for exactly the adapters that are held: none
  that failed to connect is wired, and none that connected is left without a handler.
\<close>
theorem wired_iff_held:
  assumes "reachable sdk cfg s" "\<not> lf_stopped s" "lf_startResult s = Some r"
  shows "lf_held s i \<longleftrightarrow> i \<in> set (lf_wired s)"
  using reachable_inv [OF assms(1)] assms(2,3) by (simp add: inv_defs)

lemma stopped_step:
  assumes "step sdk cfg e s = Some s'" "lf_stopped s"
  shows "lf_stopped s'"
  using assms
  by (cases e) (auto simp: step_def step_defs Let_def split: if_splits option.splits sum.splits
      start_phase.splits stop_phase.splits prod.splits)

lemma stopped_steps: "steps sdk cfg es s = Some s' \<Longrightarrow> lf_stopped s \<Longrightarrow> lf_stopped s'"
  by (induction es arbitrary: s) (auto split: option.splits dest: stopped_step)

text \<open>
  A stop is final: after \<open>stop()\<close>, however the run goes on, a \<open>start()\<close> throws \<open>runner_stopped\<close> and
  connects nothing.
\<close>
theorem stop_is_terminal:
  assumes "steps sdk cfg es (stop cfg s) = Some s'"
  shows "start s' = s'\<lparr>lf_outcomes := lf_outcomes s' @ [StartThrew runner_stopped]\<rparr>"
proof -
  have "lf_stopped (stop cfg s)" by (simp add: stop_def finish_stop_def releaseAdapters_def Let_def)
  then have "lf_stopped s'" by (rule stopped_steps [OF assms])
  then show ?thesis by (simp add: start_def)
qed

section \<open>Concrete runs\<close>

definition two_channels :: run_config where
  "two_channels = \<lparr>rc_platforms = [lit ''irc'', lit ''slack''], rc_isolate = False\<rparr>"

definition one_platform_twice :: run_config where
  "one_platform_twice = \<lparr>rc_platforms = [lit ''irc'', lit ''irc''], rc_isolate = False\<rparr>"

definition overtaken_run :: "event list" where
  "overtaken_run = [StartCall, ConnectSettles 1 ConnectTrue, StopCall, ConnectSettles 0 ConnectTrue,
     StartContinues, ReleaseSettles]"

definition served_run :: "event list" where
  "served_run = [StartCall, ConnectSettles 1 ConnectTrue, ConnectSettles 0 ConnectTrue, StartContinues]"

definition rolled_back_run :: "event list" where
  "rolled_back_run = [StartCall, ConnectSettles 1 ConnectTrue, ConnectSettles 0 ConnectFalse,
     StartContinues, ReleaseSettles]"

lemmas run_eval = fresh_def step_def step_defs two_channels_def one_platform_twice_def all_settled_def
  indices_def connect_outcome_def connectAllOrRollback_def stop_targets_def jm_set_def jm_values_def fulfilled_def
  Let_def start_def stop_def

lemma overtaken_run_ends:
  "\<exists>s. steps id two_channels overtaken_run fresh = Some s \<and> lf_stop s = Released \<and> lf_startInFlight s = None
     \<and> lf_outcomes s = [StartResolved \<lparr>sr_connected = [], sr_failed = []\<rparr>]"
  by (simp add: overtaken_run_def run_eval)

lemma distinct_two_channels: "distinct (rc_platforms two_channels)"
  by (simp add: two_channels_def)

theorem stopped_runner_holds_nothing_witness:
  "\<exists>s. steps id two_channels overtaken_run fresh = Some s \<and> \<not> lf_held s 0 \<and> \<not> lf_held s 1 \<and> lf_wired s = []"
proof -
  obtain s where s: "steps id two_channels overtaken_run fresh = Some s" "lf_stop s = Released"
    "lf_startInFlight s = None"
    using overtaken_run_ends by blast
  have "reachable id two_channels s" by (rule steps_reachable [OF reachable.fresh s(1)])
  note stopped_runner_holds_nothing [OF this distinct_two_channels s(2,3)]
  then show ?thesis using s(1) by blast
qed

theorem start_connects_only_released_adapters_witness:
  "\<exists>s. steps id two_channels rolled_back_run fresh = Some s \<and> lf_pending s 1 = 0 \<and> lf_pending (start s) 1 = 1 \<and>
     \<not> lf_held s 1 \<and> lf_pending (start (start s)) 1 \<le> 1"
proof -
  obtain s where s: "steps id two_channels rolled_back_run fresh = Some s" "lf_pending (start s) 1 = 1" "lf_pending s 1 = 0"
    by (simp add: rolled_back_run_def run_eval)
  have r: "reachable id two_channels s" by (rule steps_reachable [OF reachable.fresh s(1)])
  have "reachable id two_channels (start (start s))"
    by (rule reachable.step [of _ _ "start s" StartCall], rule reachable.step [OF r, of StartCall]) (simp_all add: step_def)
  from start_connects_only_released_adapters [OF this, of 1] start_connects_only_released_adapters [OF r, of 1]
  show ?thesis using s by (auto simp: two_channels_def)
qed

theorem wired_iff_held_witness:
  "\<exists>s. steps id two_channels served_run fresh = Some s \<and> lf_held s 1 = (1 \<in> set (lf_wired s)) \<and> lf_held s 1"
proof -
  obtain s r where s: "steps id two_channels served_run fresh = Some s" "\<not> lf_stopped s"
    "lf_startResult s = Some r" "lf_held s 1"
    by (simp add: served_run_def run_eval)
  have "reachable id two_channels s" by (rule steps_reachable [OF reachable.fresh s(1)])
  from wired_iff_held [OF this s(2,3), of 1] show ?thesis using s(1,4) by blast
qed

theorem stop_is_terminal_witness:
  "start (stop two_channels fresh) =
     (stop two_channels fresh)\<lparr>lf_outcomes := [StartThrew runner_stopped]\<rparr>"
proof -
  have "start (stop two_channels fresh) = (stop two_channels fresh)\<lparr>lf_outcomes :=
      lf_outcomes (stop two_channels fresh) @ [StartThrew runner_stopped]\<rparr>"
    by (rule stop_is_terminal [of id two_channels "[]"]) simp
  then show ?thesis by (simp add: stop_def finish_stop_def releaseAdapters_def fresh_def)
qed

text \<open>
  Two adapters of one platform leak: \<open>start()\<close> connects every adapter of the list, but \<open>stop()\<close>
  disconnects one per platform, so the one registered first stays connected after a stop that
  reports success.
\<close>
theorem shadowed_adapter_stays_connected:
  "\<exists>s. steps id one_platform_twice (served_run @ [StopCall]) fresh = Some s \<and> lf_stop s = Released \<and>
     lf_startInFlight s = None \<and> lf_held s 0 \<and> \<not> lf_held s 1"
  by (simp add: served_run_def run_eval)

text \<open>
  A dispatch that rejects while \<open>stop()\<close> drains makes \<open>stop()\<close> reject before it disconnects
  anything, and a second \<open>stop()\<close> does nothing: the adapters stay connected for good.
\<close>
theorem rejected_dispatch_defeats_stop:
  "\<exists>s. steps id two_channels (served_run @ [Inbound 0 7, StopCall, DispatchSettles 7 False]) fresh = Some s \<and>
     lf_stop s = StopRejected \<and> lf_held s 0 \<and> lf_held s 1 \<and> stop two_channels s = s"
  by (simp add: served_run_def run_eval)

end
