(* ===== verification/Channels.thy ===== *)
theory Channels
  imports Runner
begin

text \<open>
  \<open>channel/channel-descriptor.ts\<close> and \<open>channel/create-channels.ts\<close>: channels described as data and the
  loop that builds them. A descriptor's \<open>create\<close> is the platform package's code: it returns an adapter,
  throws a configuration error, or throws something else.
\<close>

record channel_field =
  cf_key :: js
  cf_required :: bool
  cf_secret :: bool

type_synonym config = "(js \<times> jsval) list"

datatype 'w created =
    Built "'w adapter"
  | ConfigError config_error
  | OtherThrow thrown

datatype transport = Socket | Webhook

record 'w channel_descriptor =
  cd_platform :: platform
  cd_config :: "channel_field list"
  cd_create :: "config \<Rightarrow> 'w created"
  cd_transport :: transport

record 'w channel_entry =
  en_descriptor :: "'w channel_descriptor"
  en_config :: "config option"

record channel_rejection =
  rj_platform :: platform
  rj_error :: config_error

record 'w channels_result =
  cr_adapters :: "'w adapter list"
  cr_rejected :: "channel_rejection list"

section \<open>One entry\<close>

definition isAbsent :: "jsval \<Rightarrow> bool" where
  "isAbsent v \<longleftrightarrow> v = VUndef \<or> v = VNull \<or> v = VStr []"

definition missingRequiredKeys :: "'w channel_entry \<Rightarrow> config \<Rightarrow> js list" where
  "missingRequiredKeys entry values =
     map cf_key (filter (\<lambda>f. cf_required f \<and> isAbsent (field_of (VObj values) (cf_key f)))
       (cd_config (en_descriptor entry)))"

definition refused :: "platform \<Rightarrow> js \<Rightarrow> js \<Rightarrow> channel_rejection" where
  "refused platform code reason =
     \<lparr>rj_platform = platform,
      rj_error = GatewayConfigurationError (lit ''gateway'') code
        (Some (lit ''channel '' @ platform @ lit '': '' @ reason)) None\<rparr>"

definition refuseBeforeCreate ::
    "'w channel_entry \<Rightarrow> config \<Rightarrow> platform list \<Rightarrow> channel_rejection option" where
  "refuseBeforeCreate entry values builtPlatforms =
     (let platform = cd_platform (en_descriptor entry) in
      if platform \<in> set builtPlatforms then
        Some (refused platform (lit ''duplicate_channel'')
          (lit ''a channel for this platform was already built''))
      else
        (let missing = missingRequiredKeys entry values in
         if missing \<noteq> [] then
           Some (refused platform (lit ''missing_required_config'')
             (lit ''missing required config '' @ join (lit '', '') missing))
         else None))"

text \<open>A throw that is no configuration error propagates (\<open>Inl\<close>).\<close>

definition createAdapter ::
    "'w channel_entry \<Rightarrow> config \<Rightarrow> thrown + ('w adapter + channel_rejection)" where
  "createAdapter entry values =
     (let platform = cd_platform (en_descriptor entry) in
      case cd_create (en_descriptor entry) values of
        OtherThrow err \<Rightarrow> Inl err
      | ConfigError e \<Rightarrow> Inr (Inr \<lparr>rj_platform = platform, rj_error = e\<rparr>)
      | Built adapter \<Rightarrow>
          if ad_platform adapter \<noteq> platform then
            Inr (Inr (refused platform (lit ''platform_mismatch'')
              (lit ''create returned an adapter reporting platform '' @ ad_platform adapter)))
          else Inr (Inl adapter))"

definition values_of :: "'w channel_entry \<Rightarrow> config" where
  "values_of entry = (case en_config entry of None \<Rightarrow> [] | Some c \<Rightarrow> c)"

definition build :: "'w channel_entry \<Rightarrow> platform list \<Rightarrow> thrown + ('w adapter + channel_rejection)" where
  "build entry builtPlatforms =
     (case refuseBeforeCreate entry (values_of entry) builtPlatforms of
        Some r \<Rightarrow> Inr (Inr r)
      | None \<Rightarrow> createAdapter entry (values_of entry))"

section \<open>The loop\<close>

fun create_loop ::
    "'w channel_entry list \<Rightarrow> platform list \<Rightarrow> 'w adapter list \<Rightarrow> channel_rejection list \<Rightarrow>
     thrown + 'w channels_result" where
  "create_loop [] builtPlatforms adapters rejected =
     Inr \<lparr>cr_adapters = adapters, cr_rejected = rejected\<rparr>"
| "create_loop (entry # es) builtPlatforms adapters rejected =
     (case build entry builtPlatforms of
        Inl err \<Rightarrow> Inl err
      | Inr (Inr refusal) \<Rightarrow> create_loop es builtPlatforms adapters (rejected @ [refusal])
      | Inr (Inl adapter) \<Rightarrow>
          create_loop es (cd_platform (en_descriptor entry) # builtPlatforms) (adapters @ [adapter]) rejected)"

definition createChannels :: "'w channel_entry list \<Rightarrow> thrown + 'w channels_result" where
  "createChannels entries = create_loop entries [] [] []"

section \<open>What is built\<close>

lemma build_adapter:
  assumes "build entry ps = Inr (Inl a)"
  shows "ad_platform a = cd_platform (en_descriptor entry)" "cd_platform (en_descriptor entry) \<notin> set ps"
    "missingRequiredKeys entry (values_of entry) = []"
    "cd_create (en_descriptor entry) (values_of entry) = Built a"
  using assms
  by (auto simp: build_def createAdapter_def refuseBeforeCreate_def Let_def
      split: option.splits created.splits if_splits)

lemma build_rejection:
  "build entry ps = Inr (Inr r) \<Longrightarrow> rj_platform r = cd_platform (en_descriptor entry)"
  by (auto simp: build_def createAdapter_def refuseBeforeCreate_def refused_def Let_def
      split: option.splits created.splits if_splits)

lemma create_loop_platforms:
  assumes "create_loop es ps as rs = Inr res" "distinct (map ad_platform as)"
    "set ps = ad_platform ` set as"
  shows "distinct (map ad_platform (cr_adapters res))"
  using assms
proof (induction es arbitrary: ps as rs)
  case (Cons e es)
  show ?case
  proof (cases "build e ps")
    case (Inr out)
    show ?thesis
    proof (cases out)
      case (Inl a)
      note b = build_adapter [of e ps a]
      have "distinct (map ad_platform (as @ [a]))" using b Inl Inr Cons.prems by auto
      moreover have "set (cd_platform (en_descriptor e) # ps) = ad_platform ` set (as @ [a])"
        using b Inl Inr Cons.prems by auto
      ultimately show ?thesis using Cons.IH Cons.prems(1) Inl Inr by simp
    qed (use Cons Inr in auto)
  qed (use Cons in simp)
qed auto

lemma create_loop_counts:
  "create_loop es ps as rs = Inr res \<Longrightarrow>
     length (cr_adapters res) + length (cr_rejected res) = length as + length rs + length es"
  by (induction es arbitrary: ps as rs) (fastforce split: sum.splits)+

text \<open>The entries whose adapters are kept, in their order.\<close>

fun accepted :: "'w channel_entry list \<Rightarrow> platform list \<Rightarrow> 'w adapter list" where
  "accepted [] ps = []"
| "accepted (e # es) ps =
     (if cd_platform (en_descriptor e) \<in> set ps \<or> missingRequiredKeys e (values_of e) \<noteq> [] then accepted es ps
      else case cd_create (en_descriptor e) (values_of e) of
        Built a \<Rightarrow> if ad_platform a = cd_platform (en_descriptor e)
                   then a # accepted es (ad_platform a # ps) else accepted es ps
      | _ \<Rightarrow> accepted es ps)"

lemma create_loop_accepted:
  "create_loop es ps as rs = Inr res \<Longrightarrow> cr_adapters res = as @ accepted es ps"
proof (induction es arbitrary: ps as rs)
  case (Cons e es)
  show ?case
  proof (cases "build e ps")
    case (Inr out)
    then show ?thesis using Cons
      by (cases out) (auto simp: build_def createAdapter_def refuseBeforeCreate_def Let_def
          split: option.splits created.splits if_splits)
  qed (use Cons in simp)
qed auto

section \<open>Properties\<close>

text \<open>
  Building channels gives at most one adapter per platform, accounts for every entry as an
  adapter or a rejection, and keeps exactly the first entry of each platform whose required fields are
  present and whose \<open>create\<close> built an adapter of the platform it declares.
\<close>
theorem createChannels_builds_each_platform_once:
  assumes "createChannels entries = Inr res"
  shows "distinct (map ad_platform (cr_adapters res)) \<and>
     length (cr_adapters res) + length (cr_rejected res) = length entries \<and>
     cr_adapters res = accepted entries []"
  using create_loop_platforms [of entries "[]" "[]" "[]" res] create_loop_counts [of entries "[]" "[]" "[]" res]
    create_loop_accepted [of entries "[]" "[]" "[]" res] assms
  by (simp add: createChannels_def)

definition irc_entry :: "config option \<Rightarrow> nat channel_entry" where
  "irc_entry config = \<lparr>en_descriptor = \<lparr>cd_platform = lit ''irc'',
       cd_config = [\<lparr>cf_key = lit ''server'', cf_required = True, cf_secret = False\<rparr>],
       cd_create = (\<lambda>_. Built echo_adapter), cd_transport = Socket\<rparr>, en_config = config\<rparr>"

theorem createChannels_builds_each_platform_once_witness:
  "\<exists>res. createChannels [irc_entry None, irc_entry (Some [(lit ''server'', VStr (lit ''x''))]),
        irc_entry (Some [(lit ''server'', VStr (lit ''y''))])] = Inr res \<and>
     distinct (map ad_platform (cr_adapters res)) \<and> length (cr_adapters res) + length (cr_rejected res) = 3 \<and>
     length (cr_adapters res) = 1"
proof -
  let ?es = "[irc_entry None, irc_entry (Some [(lit ''server'', VStr (lit ''x''))]),
        irc_entry (Some [(lit ''server'', VStr (lit ''y''))])]"
  have "\<exists>res. createChannels ?es = Inr res \<and> length (cr_adapters res) = 1"
    by (simp add: createChannels_def irc_entry_def build_def values_of_def refuseBeforeCreate_def
        missingRequiredKeys_def isAbsent_def createAdapter_def echo_adapter_def Let_def)
  then obtain res where res: "createChannels ?es = Inr res" "length (cr_adapters res) = 1" by blast
  from createChannels_builds_each_platform_once [OF res(1)] show ?thesis using res by auto
qed

end
