(* ===== verification/IrcLine.thy ===== *)
theory IrcLine
  imports Splitters
begin

text \<open>
  \<open>packages/gateway-irc/src/line.ts\<close>: one IRC line, read per RFC 1459 with IRCv3 message tags.
  \<open>toUpperCase\<close> and \<open>toLowerCase\<close> are Unicode's case mappings; they are the parameters \<open>upper\<close> and
  \<open>lower\<close>, of which nothing is assumed but what a statement says. The tags are a plain object of which single keys are
  read: a partial function, their order left out; assigning to \<open>__proto__\<close> adds nothing to it.
\<close>

record irc_line =
  il_tags :: "js \<rightharpoonup> js"
  il_prefix :: "js option"
  il_command :: js
  il_params :: "js list"

section \<open>Tags\<close>

definition TAG_ESCAPES :: "(cu \<times> cu) list" where
  "TAG_ESCAPES = [(58, 59), (115, 32), (92, 92), (114, 13), (110, 10)]"

definition tag_escape :: "cu \<Rightarrow> cu" where
  "tag_escape c = (case map_of TAG_ESCAPES c of None \<Rightarrow> c | Some d \<Rightarrow> d)"

text \<open>The class \<open>.\<close> of a regular expression.\<close>

definition dot_char :: "cu \<Rightarrow> bool" where
  "dot_char c \<longleftrightarrow> c \<noteq> 10 \<and> c \<noteq> 13 \<and> c \<noteq> 0x2028 \<and> c \<noteq> 0x2029"

fun unescapeTag :: "js \<Rightarrow> js" where
  "unescapeTag [] = []"
| "unescapeTag [c] = (if c = 92 then [] else [c])"
| "unescapeTag (c # d # s) =
     (if c = 92 then
        if dot_char d then tag_escape d # unescapeTag s else d # unescapeTag s
      else c # unescapeTag (d # s))"

definition assign_tag :: "js \<Rightarrow> js \<Rightarrow> (js \<rightharpoonup> js) \<Rightarrow> (js \<rightharpoonup> js)" where
  "assign_tag key v tags = (if key = lit ''__proto__'' then tags else tags(key \<mapsto> v))"

definition add_tag :: "(js \<rightharpoonup> js) \<Rightarrow> js \<Rightarrow> (js \<rightharpoonup> js)" where
  "add_tag tags pair =
     (if pair = [] then tags
      else case cut_at 61 pair of
        None \<Rightarrow> assign_tag pair [] tags
      | Some (key, v) \<Rightarrow> assign_tag key (unescapeTag v) tags)"

definition parseTags :: "js \<Rightarrow> (js \<rightharpoonup> js)" where
  "parseTags text = foldl add_tag Map.empty (split_on 59 text)"

section \<open>The line\<close>

function params_of :: "js \<Rightarrow> js list" where
  "params_of rest =
     (case rest of
        [] \<Rightarrow> []
      | c # s \<Rightarrow>
          if c = 58 then [s]
          else (case cut_at 32 rest of
                  None \<Rightarrow> [rest]
                | Some (h, t) \<Rightarrow> if h \<noteq> [] then h # params_of t else params_of t))"
  by pat_completeness auto
termination
  by (relation "measure length") (auto dest: cut_at_shorter)

declare params_of.simps [simp del]

definition splitCommand :: "(js \<Rightarrow> js) \<Rightarrow> js \<Rightarrow> js \<times> js list" where
  "splitCommand upper text =
     (case cut_at 32 text of
        None \<Rightarrow> (upper text, [])
      | Some (command, rest) \<Rightarrow> (upper command, params_of rest))"

definition parse_source :: "(js \<Rightarrow> js) \<Rightarrow> (js \<rightharpoonup> js) \<Rightarrow> js \<Rightarrow> irc_line option" where
  "parse_source upper tags rest1 =
     (case (if prefix [58] rest1 then
              map_option (\<lambda>(h, t). (Some (tl h), trim_start t)) (cut_at 32 rest1)
            else Some (None, rest1)) of
        None \<Rightarrow> None
      | Some (pfx, rest2) \<Rightarrow>
          (let (command, params) = splitCommand upper rest2 in
           if command = [] then None
           else Some \<lparr>il_tags = tags, il_prefix = pfx, il_command = command, il_params = params\<rparr>))"

definition parseIrcLine :: "(js \<Rightarrow> js) \<Rightarrow> js \<Rightarrow> irc_line option" where
  "parseIrcLine upper raw =
     (if prefix [64] raw then
        (case cut_at 32 raw of
           None \<Rightarrow> None
         | Some (h, t) \<Rightarrow> parse_source upper (parseTags (tl h)) (trim_start t))
      else parse_source upper Map.empty raw)"

definition nickOf :: "js option \<Rightarrow> js" where
  "nickOf pfx =
     (case pfx of
        None \<Rightarrow> []
      | Some p \<Rightarrow> (case cut_at 33 p of None \<Rightarrow> p | Some (nick, _) \<Rightarrow> nick))"

definition irc_fold :: "cu \<Rightarrow> cu" where
  "irc_fold c = (if c = 91 then 123 else if c = 93 then 125 else if c = 92 then 124
     else if c = 126 then 94 else c)"

definition ircLower :: "(js \<Rightarrow> js) \<Rightarrow> js \<Rightarrow> js" where
  "ircLower lower name = map irc_fold (lower name)"

section \<open>The lines a peer writes\<close>

text \<open>The rendering the specifications prescribe: tags, source, command, middles and a trailing.\<close>

definition escape_unit :: "cu \<Rightarrow> js" where
  "escape_unit c = (if c = 59 then [92, 58] else if c = 32 then [92, 115] else if c = 92 then [92, 92]
     else if c = 13 then [92, 114] else if c = 10 then [92, 110] else [c])"

definition escapeTag :: "js \<Rightarrow> js" where
  "escapeTag v = concat (map escape_unit v)"

definition render_tag :: "js \<times> js \<Rightarrow> js" where
  "render_tag kv = fst kv @ 61 # escapeTag (snd kv)"

fun render_tags :: "(js \<times> js) list \<Rightarrow> js" where
  "render_tags [] = []"
| "render_tags [kv] = render_tag kv"
| "render_tags (kv # kvs) = render_tag kv @ 59 # render_tags kvs"

definition render_middles :: "js list \<Rightarrow> js" where
  "render_middles ms = concat (map (\<lambda>m. m @ [32]) ms)"

definition render_line :: "(js \<times> js) list \<Rightarrow> js option \<Rightarrow> js \<Rightarrow> js list \<Rightarrow> js \<Rightarrow> js" where
  "render_line tags pfx command middles trailing =
     (if tags = [] then [] else 64 # render_tags tags @ [32]) @
     (case pfx of None \<Rightarrow> [] | Some p \<Rightarrow> 58 # p @ [32]) @
     command @ 32 # render_middles middles @ 58 # trailing"

definition good_key :: "js \<Rightarrow> bool" where
  "good_key k \<longleftrightarrow> k \<noteq> [] \<and> k \<noteq> lit ''__proto__'' \<and> 59 \<notin> set k \<and> 61 \<notin> set k \<and> 32 \<notin> set k"

definition good_command :: "js \<Rightarrow> bool" where
  "good_command c \<longleftrightarrow> c \<noteq> [] \<and> 32 \<notin> set c \<and> hd c \<noteq> 64 \<and> hd c \<noteq> 58 \<and> \<not> is_space (hd c)"

definition good_middle :: "js \<Rightarrow> bool" where
  "good_middle m \<longleftrightarrow> m \<noteq> [] \<and> 32 \<notin> set m \<and> hd m \<noteq> 58"

section \<open>Tags survive\<close>

lemma escapeTag_Nil [simp]: "escapeTag [] = []" by (simp add: escapeTag_def)
lemma escapeTag_Cons: "escapeTag (c # v) = escape_unit c @ escapeTag v" by (simp add: escapeTag_def)

lemma unescape_plain: "c \<noteq> 92 \<Longrightarrow> unescapeTag (c # s) = c # unescapeTag s"
  by (cases s) auto

lemma unescape_escape: "unescapeTag (escapeTag v) = v"
proof (induction v)
  case (Cons c v)
  have "unescapeTag (escape_unit c @ escapeTag v) = c # unescapeTag (escapeTag v)"
    by (simp add: escape_unit_def unescape_plain dot_char_def tag_escape_def TAG_ESCAPES_def)
  then show ?case using Cons by (simp add: escapeTag_Cons)
qed simp

lemma escapeTag_clean: "59 \<notin> set (escapeTag v)" "32 \<notin> set (escapeTag v)"
  by (induction v) (auto simp: escapeTag_Cons escape_unit_def)

lemma render_tag_clean: "good_key (fst kv) \<Longrightarrow> 59 \<notin> set (render_tag kv) \<and> 32 \<notin> set (render_tag kv) \<and> render_tag kv \<noteq> []"
  using escapeTag_clean by (auto simp: render_tag_def good_key_def)

lemma add_render_tag:
  "good_key (fst kv) \<Longrightarrow> add_tag tags (render_tag kv) = tags(fst kv \<mapsto> snd kv)"
  by (simp add: add_tag_def assign_tag_def render_tag_def good_key_def cut_at_found unescape_escape)

lemma split_render_tags:
  "\<forall>kv \<in> set tags. good_key (fst kv) \<Longrightarrow> tags \<noteq> [] \<Longrightarrow>
     split_on 59 (render_tags tags) = map render_tag tags"
proof (induction tags rule: render_tags.induct)
  case (2 kv)
  then show ?case using render_tag_clean [of kv] by (simp add: split_on_field)
next
  case (3 kv v va)
  then show ?case using render_tag_clean [of kv] by (simp add: split_on_append)
qed simp

lemma render_tags_no_space: "\<forall>kv \<in> set tags. good_key (fst kv) \<Longrightarrow> 32 \<notin> set (render_tags tags)"
  by (induction tags rule: render_tags.induct) (auto dest: render_tag_clean)

lemma foldl_add_tags:
  "\<forall>kv \<in> set tags. good_key (fst kv) \<Longrightarrow> foldl add_tag acc (map render_tag tags) = acc ++ map_of (rev tags)"
proof (induction tags arbitrary: acc)
  case (Cons kv tags)
  have "add_tag acc (render_tag kv) = acc(fst kv \<mapsto> snd kv)" using Cons.prems by (simp add: add_render_tag)
  then show ?case using Cons by (cases kv) (simp add: map_add_def fun_eq_iff split: option.split)
qed simp

lemma parse_render_tags:
  "\<forall>kv \<in> set tags. good_key (fst kv) \<Longrightarrow> tags \<noteq> [] \<Longrightarrow>
     parseTags (render_tags tags) = map_of (rev tags)"
  using foldl_add_tags [of tags Map.empty] by (simp add: parseTags_def split_render_tags)

section \<open>Parameters survive\<close>

lemma params_trailing: "params_of (58 # t) = [t]"
  by (subst params_of.simps) simp

lemma params_middle: "good_middle m \<Longrightarrow> params_of (m @ 32 # rest) = m # params_of rest"
  by (subst params_of.simps) (cases m, auto simp: good_middle_def cut_at_found [of 32 "_ # _", simplified])

lemma params_render:
  "\<forall>m \<in> set ms. good_middle m \<Longrightarrow> params_of (render_middles ms @ 58 # t) = ms @ [t]"
  by (induction ms) (auto simp: render_middles_def params_trailing params_middle)

lemma split_command_render:
  assumes "32 \<notin> set c" "\<forall>m \<in> set ms. good_middle m"
  shows "splitCommand upper (c @ 32 # render_middles ms @ 58 # t) = (upper c, ms @ [t])"
  by (simp add: splitCommand_def cut_at_found [OF assms(1)] params_render [OF assms(2)])

lemma trim_start_command: "good_command c \<Longrightarrow> trim_start (c @ s) = c @ s"
  by (cases c) (auto simp: good_command_def trim_start_def)

section \<open>Properties\<close>

text \<open>
  C30: parsing undoes rendering: a line written with any tags but \<open>__proto__\<close>, an optional source, a command, any
  middle parameters and any trailing text is read back field by field, the tag values unescaped, of two tags of
  one key the last, and the trailing one with every colon and space it carried.
\<close>
theorem parse_rendered_line:
  assumes "\<forall>kv \<in> set tags. good_key (fst kv)"
    and "case pfx of None \<Rightarrow> True | Some p \<Rightarrow> 32 \<notin> set p"
    and "good_command command" "upper command = command" "\<forall>m \<in> set middles. good_middle m"
  shows "parseIrcLine upper (render_line tags pfx command middles trailing) =
     Some \<lparr>il_tags = map_of (rev tags), il_prefix = pfx, il_command = command, il_params = middles @ [trailing]\<rparr>"
proof -
  let ?cmd = "command @ 32 # render_middles middles @ 58 # trailing"
  let ?src = "(case pfx of None \<Rightarrow> [] | Some p \<Rightarrow> 58 # p @ [32]) @ ?cmd"
  have c: "command \<noteq> []" "hd command \<noteq> 64" "hd command \<noteq> 58" "32 \<notin> set command"
    using assms(3) by (auto simp: good_command_def)
  have tail: "parse_source upper (map_of (rev tags)) ?src =
      Some \<lparr>il_tags = map_of (rev tags), il_prefix = pfx, il_command = command, il_params = middles @ [trailing]\<rparr>"
  proof (cases pfx)
    case None
    have "\<not> prefix [58] ?cmd" using c by (cases command) auto
    then show ?thesis using None c assms(4) split_command_render [OF c(4) assms(5)] by (simp add: parse_source_def)
  next
    case (Some p)
    have p: "32 \<notin> set (58 # p)" using assms(2) Some by simp
    have "cut_at 32 ((58 # p) @ 32 # ?cmd) = Some (58 # p, ?cmd)" by (rule cut_at_found [OF p])
    then show ?thesis using Some c assms(4) split_command_render [OF c(4) assms(5)]
        trim_start_command [OF assms(3)] by (simp add: parse_source_def)
  qed
  show ?thesis
  proof (cases "tags = []")
    case True
    have "\<not> prefix [64] ?src" using c by (cases pfx; cases command) auto
    then show ?thesis using tail True by (simp add: parseIrcLine_def render_line_def)
  next
    case False
    have t: "32 \<notin> set (64 # render_tags tags)" using render_tags_no_space [OF assms(1)] by simp
    have cut: "cut_at 32 ((64 # render_tags tags) @ 32 # ?src) = Some (64 # render_tags tags, ?src)"
      by (rule cut_at_found [OF t])
    have trim: "trim_start ?src = ?src"
      using trim_start_command [OF assms(3)] by (cases pfx) (auto simp: trim_start_def is_space_def)
    show ?thesis using tail False cut trim parse_render_tags [OF assms(1) False]
      by (simp add: parseIrcLine_def render_line_def)
  qed
qed

theorem parse_rendered_line_witness:
  "parseIrcLine id (render_line [(lit ''msgid'', lit ''a;b c'')] (Some (lit ''bob!u@h'')) (lit ''PRIVMSG'')
       [lit ''#x''] (lit '':-) hi'')) =
     Some \<lparr>il_tags = [lit ''msgid'' \<mapsto> lit ''a;b c''], il_prefix = Some (lit ''bob!u@h''),
       il_command = lit ''PRIVMSG'', il_params = [lit ''#x'', lit '':-) hi'']\<rparr>"
proof -
  have "parseIrcLine id (render_line [(lit ''msgid'', lit ''a;b c'')] (Some (lit ''bob!u@h'')) (lit ''PRIVMSG'')
       [lit ''#x''] (lit '':-) hi'')) =
     Some \<lparr>il_tags = [lit ''msgid'' \<mapsto> lit ''a;b c''], il_prefix = Some (lit ''bob!u@h''),
       il_command = lit ''PRIVMSG'', il_params = [lit ''#x''] @ [lit '':-) hi'']\<rparr>"
    using parse_rendered_line [of "[(lit ''msgid'', lit ''a;b c'')]" "Some (lit ''bob!u@h'')" "lit ''PRIVMSG''" id "[lit ''#x'']" "lit '':-) hi''"]
    by (simp add: good_key_def good_command_def good_middle_def is_space_def)
  then show ?thesis by simp
qed

text \<open>A tag of that one name is lost.\<close>
theorem proto_tag_is_lost:
  "map_option (\<lambda>l. il_tags l (lit ''__proto__'')) (parseIrcLine id (lit ''@__proto__=x PING :a'')) = Some None"
  by code_simp

end
