(* ===== verification/IrcNormalize.thy ===== *)
theory IrcNormalize
  imports IrcLine Messages
begin

text \<open>
  \<open>packages/gateway-irc/src/normalize.ts\<close>: a \<open>PRIVMSG\<close> line to the event a handler sees, or nothing.
\<close>

record irc_event = message_event +
  ev_irc_target :: js
  ev_irc_nick :: js
  ev_irc_action :: bool
  ev_irc_tags :: "js \<rightharpoonup> js"
  ev_irc_raw :: js

definition CTCP :: js where "CTCP = [1]"
definition ACTION :: js where "ACTION = lit ''ACTION ''"

definition isChannelTarget :: "js \<Rightarrow> bool" where
  "isChannelTarget target \<longleftrightarrow> prefix (lit ''#'') target \<or> prefix (lit ''&'') target"

definition ctcpContent :: "js \<Rightarrow> (js \<times> bool) option" where
  "ctcpContent body =
     (if \<not> prefix CTCP body then Some (body, False)
      else
        (let inner = (if suffix CTCP body \<and> 1 < length body then js_slice body 1 (-1) else js_slice_from body 1)
         in if \<not> prefix ACTION inner then None else Some (drop (length ACTION) inner, True)))"

definition visiblePrivmsg ::
    "(js \<Rightarrow> js) \<Rightarrow> irc_line \<Rightarrow> js \<Rightarrow> (js \<times> js \<times> js \<times> bool) option" where
  "visiblePrivmsg lower line ownNick =
     (if il_command line \<noteq> lit ''PRIVMSG'' then None
      else case il_params line of
        target # body # _ \<Rightarrow>
          (let nick = nickOf (il_prefix line) in
           if nick = [] then None
           else if ircLower lower nick = ircLower lower ownNick then None
           else (case ctcpContent body of
                   None \<Rightarrow> None
                 | Some (text, action) \<Rightarrow> if text = [] then None else Some (target, nick, text, action)))
      | _ \<Rightarrow> None)"

definition privmsgToMessageEvent ::
    "(js \<Rightarrow> js) \<Rightarrow> irc_line \<Rightarrow> js \<Rightarrow> js \<Rightarrow> nat \<Rightarrow> nat \<Rightarrow> irc_event option" where
  "privmsgToMessageEvent lower line raw ownNick receivedAt counter =
     (case visiblePrivmsg lower line ownNick of
        None \<Rightarrow> None
      | Some (target, nick, text, action) \<Rightarrow>
          Some \<lparr>ev_id = (case il_tags line (lit ''msgid'') of
                    Some i \<Rightarrow> i
                  | None \<Rightarrow> nick @ lit '':'' @ dec receivedAt @ lit '':'' @ dec counter),
             ev_platform = lit ''irc'',
             ev_sender = \<lparr>snd_id = nick, snd_username = None, snd_displayName = Some nick\<rparr>,
             ev_channel = (if isChannelTarget target
                then \<lparr>ch_id = target, ch_type = Group, ch_topicId = None\<rparr>
                else \<lparr>ch_id = nick, ch_type = DM, ch_topicId = None\<rparr>),
             ev_text = text, ev_receivedAt = int receivedAt, ev_replyTo = None,
             ev_irc_target = target, ev_irc_nick = nick, ev_irc_action = action,
             ev_irc_tags = il_tags line, ev_irc_raw = raw\<rparr>)"

section \<open>CTCP\<close>

lemma js_slice_inner: "js_slice ([c] @ t @ [d]) 1 (-1) = t"
  by (simp add: js_slice_def slice_pos_def)

lemma ctcp_action: "ctcpContent ([1] @ (ACTION @ text) @ [1]) = Some (text, True)"
  unfolding ctcpContent_def js_slice_inner
  by (simp add: CTCP_def Let_def js_slice_inner suffix_def) 

section \<open>Properties\<close>

text \<open>
  What a handler sees of a \<open>PRIVMSG\<close>: never the adapter's own message under IRC's case mapping,
  never an empty text; a message to a channel is answered in the channel and any other one to its
  sender; and the event carries the line's tags, its target and its raw text unchanged.
\<close>
theorem event_addresses_the_conversation:
  assumes "privmsgToMessageEvent lower line raw ownNick receivedAt counter = Some e"
  shows "ircLower lower (snd_id (ev_sender e)) \<noteq> ircLower lower ownNick \<and> ev_text e \<noteq> [] \<and>
     snd_id (ev_sender e) = nickOf (il_prefix line) \<and> ev_irc_target e = hd (il_params line) \<and>
     (if isChannelTarget (hd (il_params line))
      then ch_type (ev_channel e) = Group \<and> ch_id (ev_channel e) = hd (il_params line)
      else ch_type (ev_channel e) = DM \<and> ch_id (ev_channel e) = nickOf (il_prefix line)) \<and>
     ev_irc_tags e = il_tags line \<and> ev_irc_raw e = raw"
  using assms
  by (auto simp: privmsgToMessageEvent_def visiblePrivmsg_def Let_def
      split: option.splits list.splits if_splits)

theorem event_addresses_the_conversation_witness:
  "\<exists>e. privmsgToMessageEvent id \<lparr>il_tags = Map.empty, il_prefix = Some (lit ''bob!u@h''), il_command = lit ''PRIVMSG'',
        il_params = [lit ''ana'', lit ''hi'']\<rparr> (lit ''raw'') (lit ''ana'') 5 1 = Some e \<and>
     ch_id (ev_channel e) = lit ''bob'' \<and> ev_text e \<noteq> []"
proof -
  let ?line = "\<lparr>il_tags = Map.empty, il_prefix = Some (lit ''bob!u@h''), il_command = lit ''PRIVMSG'',
        il_params = [lit ''ana'', lit ''hi'']\<rparr>"
  have nick: "nickOf (il_prefix ?line) = lit ''bob''"
    by (simp add: nickOf_def cut_at_def)
  have "\<exists>e. privmsgToMessageEvent id ?line (lit ''raw'') (lit ''ana'') 5 1 = Some e"
    using nick by (simp add: privmsgToMessageEvent_def visiblePrivmsg_def ctcpContent_def CTCP_def ircLower_def irc_fold_def)
  then obtain e where e: "privmsgToMessageEvent id ?line (lit ''raw'') (lit ''ana'') 5 1 = Some e" by blast
  from event_addresses_the_conversation [OF e] show ?thesis
    using e nick by (simp add: isChannelTarget_def)
qed

end
