(* ===== verification/Utf8.thy ===== *)
theory Utf8
  imports Splitters
begin

text \<open>
  UTF-8 and Base64 as \<open>Buffer\<close> writes them: a surrogate pair is four bytes, a lone surrogate becomes
  U+FFFD. \<open>byteLength\<close> is \<open>Buffer.byteLength\<close>.
\<close>

fun utf8_code_point :: "js \<Rightarrow> int list" where
  "utf8_code_point [c, d] =
     (let n = 0x10000 + (c - 0xD800) * 0x400 + (d - 0xDC00)
      in [0xF0 + n div 0x40000, 0x80 + n div 0x1000 mod 0x40, 0x80 + n div 0x40 mod 0x40, 0x80 + n mod 0x40])"
| "utf8_code_point [c] =
     (if c < 0x80 then [c]
      else if c < 0x800 then [0xC0 + c div 0x40, 0x80 + c mod 0x40]
      else if is_high c \<or> is_low c then [0xEF, 0xBF, 0xBD]
      else [0xE0 + c div 0x1000, 0x80 + c div 0x40 mod 0x40, 0x80 + c mod 0x40])"
| "utf8_code_point _ = []"

definition utf8 :: "js \<Rightarrow> int list" where
  "utf8 s = concat (map utf8_code_point (code_points s))"

definition byteLength :: "js \<Rightarrow> int" where
  "byteLength s = int (length (utf8 s))"

definition base64_digit :: "int \<Rightarrow> cu" where
  "base64_digit n = (if n < 26 then 65 + n else if n < 52 then 71 + n else if n < 62 then n - 4
     else if n = 62 then 43 else 47)"

fun base64 :: "int list \<Rightarrow> js" where
  "base64 (a # b # c # s) =
     base64_digit (a div 4) # base64_digit (a mod 4 * 16 + b div 16) #
     base64_digit (b mod 16 * 4 + c div 64) # base64_digit (c mod 64) # base64 s"
| "base64 [a, b] =
     [base64_digit (a div 4), base64_digit (a mod 4 * 16 + b div 16), base64_digit (b mod 16 * 4), 61]"
| "base64 [a] = [base64_digit (a div 4), base64_digit (a mod 4 * 16), 61, 61]"
| "base64 [] = []"

section \<open>Lengths\<close>

lemma byteLength_Nil [simp]: "byteLength [] = 0"
  by (simp add: byteLength_def utf8_def)

lemma byteLength_nonneg: "0 \<le> byteLength s"
  by (simp add: byteLength_def)

text \<open>Joining two strings never takes more bytes than the two apart.\<close>

lemma bytes_one: "int (length (utf8_code_point [c])) \<in> {1, 2, 3}"
  by simp

lemma bytes_surrogate: "is_high c \<or> is_low c \<Longrightarrow> length (utf8_code_point [c]) = 3"
  by (auto simp: is_high_def is_low_def)

lemma code_points_low: "is_low d \<Longrightarrow> code_points (d # s) = [d] # code_points s"
  by (cases s) (auto dest: high_not_low)

lemma byteLength_Cons_le: "byteLength (c # b) \<le> byteLength [c] + byteLength b"
proof (cases b)
  case (Cons d s)
  show ?thesis
  proof (cases "is_high c \<and> is_low d")
    case True
    then have "byteLength (d # s) = 3 + byteLength s"
      using bytes_surrogate [of d] by (simp add: byteLength_def utf8_def code_points_low)
    moreover have "byteLength (c # d # s) = 4 + byteLength s"
      using True by (simp add: byteLength_def utf8_def Let_def)
    moreover have "byteLength [c] = 3"
      using bytes_surrogate [of c] True by (simp add: byteLength_def utf8_def del: utf8_code_point.simps)
    ultimately show ?thesis unfolding Cons by linarith
  next
    case False
    then have no: "(is_high c \<and> is_low d) = False" by simp
    show ?thesis by (simp add: Cons byteLength_def utf8_def no del: utf8_code_point.simps)
  qed
qed simp

lemma byteLength_append_le: "byteLength (a @ b) \<le> byteLength a + byteLength b"
proof (induction a rule: code_points.induct)
  case (2 c)
  then show ?case using byteLength_Cons_le [of c b] by simp
next
  case (3 c d s)
  show ?case
  proof (cases "is_high c \<and> is_low d")
    case True
    then show ?thesis using 3 by (simp add: byteLength_def utf8_def)
  next
    case False
    then have "byteLength (d # s @ b) \<le> byteLength (d # s) + byteLength b" using 3 by simp
    moreover have no: "(is_high c \<and> is_low d) = False" using False by simp
    ultimately show ?thesis by (simp add: byteLength_def utf8_def no del: utf8_code_point.simps)
  qed
qed simp

lemma byteLength_code_point: "cp \<in> set (code_points s) \<Longrightarrow> byteLength cp = int (length (utf8_code_point cp))"
  by (induction s rule: code_points.induct)
    (auto simp: byteLength_def utf8_def split: if_splits simp del: utf8_code_point.simps)

lemma byteLength_concat_le: "byteLength (concat cps) \<le> sum_list (map byteLength cps)"
proof (induction cps)
  case (Cons cp cps)
  then show ?case using byteLength_append_le [of cp "concat cps"] by simp
qed simp

lemma code_point_bytes: "cp \<in> set (code_points s) \<Longrightarrow> 1 \<le> byteLength cp \<and> byteLength cp \<le> 4"
  by (induction s rule: code_points.induct)
    (auto simp: byteLength_def utf8_def Let_def split: if_splits)

lemma byteLength_ascii: "\<forall>c \<in> set s. 0 \<le> c \<and> c < 0x80 \<Longrightarrow> byteLength s = int (length s)"
  by (induction s rule: code_points.induct) (auto simp: byteLength_def utf8_def is_high_def)

section \<open>Well-formed code points\<close>

definition good_cp :: "js \<Rightarrow> bool" where
  "good_cp cp \<longleftrightarrow> (case cp of
       [c] \<Rightarrow> \<not> is_high c \<and> \<not> is_low c
     | [c, d] \<Rightarrow> is_high c \<and> is_low d
     | _ \<Rightarrow> False)"

lemma good_cp_simps [simp]:
  "good_cp [c] \<longleftrightarrow> \<not> is_high c \<and> \<not> is_low c" "good_cp [c, d] \<longleftrightarrow> is_high c \<and> is_low d"
  by (simp_all add: good_cp_def)

lemma wf16_code_points: "wf16 s \<Longrightarrow> cp \<in> set (code_points s) \<Longrightarrow> good_cp cp"
  by (induction s rule: code_points.induct) (auto split: if_splits)

lemma wf16_append_cp: "good_cp cp \<Longrightarrow> wf16 s \<Longrightarrow> wf16 (cp @ s)"
  by (auto simp: good_cp_def wf16_Cons_plain split: list.splits)

lemma wf16_concat: "\<forall>cp \<in> set cps. good_cp cp \<Longrightarrow> wf16 (concat cps)"
  by (induction cps) (auto intro: wf16_append_cp)

lemma base64_digit_ge: "0 \<le> n \<Longrightarrow> 43 \<le> base64_digit n"
  by (simp add: base64_digit_def)

lemma base64_clean: "x \<in> set (base64 bs) \<Longrightarrow> \<forall>b \<in> set bs. 0 \<le> b \<Longrightarrow> 43 \<le> x"
proof (induction bs rule: base64.induct)
  case (1 a b c s)
  have "43 \<le> base64_digit (a div 4)" "43 \<le> base64_digit (a mod 4 * 16 + b div 16)"
    "43 \<le> base64_digit (b mod 16 * 4 + c div 64)" "43 \<le> base64_digit (c mod 64)"
    using 1(3) by (auto intro!: base64_digit_ge simp: pos_imp_zdiv_nonneg_iff)
  then show ?case using 1 by auto
next
  case (2 a b)
  have "43 \<le> base64_digit (a div 4)" "43 \<le> base64_digit (a mod 4 * 16 + b div 16)"
    "43 \<le> base64_digit (b mod 16 * 4)"
    using 2(2) by (auto intro!: base64_digit_ge simp: pos_imp_zdiv_nonneg_iff)
  then show ?case using 2 by auto
next
  case (3 a)
  have "43 \<le> base64_digit (a div 4)" "43 \<le> base64_digit (a mod 4 * 16)"
    using 3(2) by (auto intro!: base64_digit_ge simp: pos_imp_zdiv_nonneg_iff)
  then show ?case using 3 by auto
qed simp

lemma utf8_unit_nonneg: "0 \<le> c \<Longrightarrow> b \<in> set (utf8_code_point [c]) \<Longrightarrow> 0 \<le> b"
  by (auto simp: pos_imp_zdiv_nonneg_iff simp del: zdiv_numeral_Bit0 split: if_splits)

lemma utf8_pair_nonneg:
  assumes "is_high c" "is_low d" "b \<in> set (utf8_code_point [c, d])" shows "0 \<le> b"
proof -
  define n where "n = 0x10000 + (c - 0xD800) * 0x400 + (d - 0xDC00)"
  have "0 \<le> n" using assms(1,2) by (simp add: n_def is_high_def is_low_def)
  moreover have "b \<in> {0xF0 + n div 0x40000, 0x80 + n div 0x1000 mod 0x40, 0x80 + n div 0x40 mod 0x40, 0x80 + n mod 0x40}"
    using assms(3) by (simp add: n_def Let_def)
  ultimately show ?thesis by (auto simp: pos_imp_zdiv_nonneg_iff intro!: add_nonneg_nonneg)
qed

lemma utf8_nonneg:
  assumes "\<forall>c \<in> set s. 0 \<le> c" "b \<in> set (utf8 s)" shows "0 \<le> b"
proof -
  obtain cp where cp: "cp \<in> set (code_points s)" "b \<in> set (utf8_code_point cp)"
    using assms(2) by (auto simp: utf8_def)
  have "(\<exists>c. cp = [c] \<and> 0 \<le> c) \<or> (\<exists>c d. cp = [c, d] \<and> is_high c \<and> is_low d)"
    using cp(1) assms(1) by (induction s rule: code_points.induct) (auto split: if_splits)
  then show ?thesis using cp(2) utf8_unit_nonneg utf8_pair_nonneg by blast
qed

section \<open>ASCII\<close>

lemma ascii_utf8: "\<forall>c \<in> set s. c < 0x80 \<Longrightarrow> utf8 s = s"
  by (induction s rule: code_points.induct) (auto simp: utf8_def is_high_def)

lemma utf8_unit_ascii: "\<forall>b \<in> set (utf8_code_point [c]). b < 0x80 \<Longrightarrow> c < 0x80"
proof (rule ccontr)
  assume all: "\<forall>b \<in> set (utf8_code_point [c]). b < 0x80" and c: "\<not> c < 0x80"
  have "0 \<le> c div 0x40" "0 \<le> c div 0x1000" using c by (simp_all add: pos_imp_zdiv_nonneg_iff)
  then have "\<not> hd (utf8_code_point [c]) < 0x80" "utf8_code_point [c] \<noteq> []" using c by simp_all
  with all show False by (metis list.set_sel(1))
qed

lemma utf8_pair_not_ascii:
  assumes "is_high c" "is_low d" shows "\<not> (\<forall>b \<in> set (utf8_code_point [c, d]). b < 0x80)"
proof -
  define n where "n = 0x10000 + (c - 0xD800) * 0x400 + (d - 0xDC00)"
  have "0 \<le> n" using assms by (simp add: n_def is_high_def is_low_def)
  then have "0 \<le> n div 0x40000" by (simp add: pos_imp_zdiv_nonneg_iff)
  moreover have "0xF0 + n div 0x40000 \<in> set (utf8_code_point [c, d])" by (simp add: n_def Let_def)
  ultimately show ?thesis by fastforce
qed

lemma ascii_only: "\<forall>b \<in> set (utf8 s). b < 0x80 \<Longrightarrow> \<forall>c \<in> set s. c < 0x80"
proof (induction s rule: code_points.induct)
  case (2 c)
  then show ?case using utf8_unit_ascii [of c] by (simp add: utf8_def del: utf8_code_point.simps)
next
  case (3 c d s)
  show ?case
  proof (cases "is_high c \<and> is_low d")
    case True
    have "utf8 (c # d # s) = utf8_code_point [c, d] @ utf8 s" using True by (simp add: utf8_def del: utf8_code_point.simps)
    with 3(3) utf8_pair_not_ascii [of c d] True show ?thesis by (simp del: utf8_code_point.simps)
  next
    case False
    then have "utf8 (c # d # s) = utf8_code_point [c] @ utf8 (d # s)" by (auto simp: utf8_def simp del: utf8_code_point.simps)
    then have "\<forall>b \<in> set (utf8_code_point [c]). b < 0x80" "\<forall>b \<in> set (utf8 (d # s)). b < 0x80"
      using 3(3) by (simp_all del: utf8_code_point.simps)
    then show ?thesis using 3(2) [OF False] utf8_unit_ascii [of c] by (simp del: utf8_code_point.simps)
  qed
qed simp

lemma base64_digit_ascii: "base64_digit n < 0x80"
  by (simp add: base64_digit_def)

lemma base64_ascii: "c \<in> set (base64 bs) \<Longrightarrow> c < 0x80"
  by (induction bs rule: base64.induct) (auto simp: base64_digit_ascii)

lemma base64_empty: "base64 bs = [] \<longleftrightarrow> bs = []"
  by (cases bs rule: base64.cases) auto

lemma same_ascii: "\<forall>c \<in> set s. c < 0x80 \<Longrightarrow> utf8 s = utf8 t \<longleftrightarrow> s = t"
  using ascii_utf8 ascii_only by metis

end
