(* ===== verification/IrcRegistration.thy ===== *)
theory IrcRegistration
  imports IrcLine Utf8 Dialect
begin

text \<open>
  \<open>packages/gateway-irc/src/registration.ts\<close>: the connect handshake as a state machine that reads one
  line at a time, writes lines and ends with an outcome. A step returns the new state, the lines it
  wrote and the outcome, if the handshake is over.
\<close>

record registration_options =
  ro_nick :: js
  ro_username :: js
  ro_realname :: js
  ro_password :: "js option"
  ro_saslAccount :: "js option"
  ro_saslPassword :: "js option"
  ro_channels :: "js list"

datatype registration_outcome = Registered js | RefusedWith js

record registration =
  rg_nick :: js
  rg_retries :: nat
  rg_welcomed :: bool
  rg_saslDone :: bool
  rg_offered :: "js list"
  rg_waitingFor :: "js list"

definition NICK_RETRIES :: nat where "NICK_RETRIES = 3"
definition AUTHENTICATE_CHUNK :: nat where "AUTHENTICATE_CHUNK = 400"

definition JOIN_REFUSALS :: "js list" where
  "JOIN_REFUSALS = map lit [''403'', ''405'', ''471'', ''473'', ''474'', ''475'', ''477'']"

definition SASL_REFUSALS :: "js list" where
  "SASL_REFUSALS = map lit [''902'', ''904'', ''905'', ''906'', ''908'']"

type_synonym reg_step = "registration \<times> js list \<times> registration_outcome option"

definition param :: "irc_line \<Rightarrow> nat \<Rightarrow> js option" where
  "param line i = (if i < length (il_params line) then Some (il_params line ! i) else None)"

definition param_or :: "irc_line \<Rightarrow> nat \<Rightarrow> js \<Rightarrow> js" where
  "param_or line i d = (case param line i of None \<Rightarrow> d | Some p \<Rightarrow> p)"

definition last_param :: "irc_line \<Rightarrow> js" where
  "last_param line = (if il_params line = [] then [] else last (il_params line))"

text \<open>\<open>new Set(channels.map(ircLower))\<close>: the members, first occurrences in order.\<close>

definition newRegistration :: "(js \<Rightarrow> js) \<Rightarrow> registration_options \<Rightarrow> registration" where
  "newRegistration lower opts =
     \<lparr>rg_nick = ro_nick opts, rg_retries = 0, rg_welcomed = False, rg_saslDone = False,
      rg_offered = [], rg_waitingFor = remdups (map (ircLower lower) (ro_channels opts))\<rparr>"

definition reg_start :: "registration_options \<Rightarrow> registration \<Rightarrow> js list" where
  "reg_start opts r =
     (case ro_password opts of None \<Rightarrow> [] | Some p \<Rightarrow> [lit ''PASS :'' @ p]) @
     (case ro_saslPassword opts of None \<Rightarrow> [] | Some _ \<Rightarrow> [lit ''CAP LS 302'']) @
     [lit ''NICK '' @ rg_nick r, lit ''USER '' @ ro_username opts @ lit '' 0 * :'' @ ro_realname opts]"

definition keep :: "registration \<Rightarrow> js list \<Rightarrow> reg_step" where
  "keep r written = (r, written, None)"

definition reg_refuse :: "registration \<Rightarrow> js \<Rightarrow> reg_step" where
  "reg_refuse r reason = (r, [], Some (RefusedWith reason))"

definition cap_name :: "js \<Rightarrow> js" where
  "cap_name cap = hd (split_on 61 cap)"

definition onCap :: "irc_line \<Rightarrow> registration \<Rightarrow> reg_step" where
  "onCap line r =
     (let rest = drop 2 (il_params line);
          list = (if rest = [] then [] else last rest)
      in if param line 1 = Some (lit ''LS'') then
           (let r' = r\<lparr>rg_offered := rg_offered r @ map cap_name (split_on 32 list)\<rparr>
            in if 1 < length rest then keep r' []
               else if lit ''sasl'' \<notin> set (rg_offered r') then reg_refuse r' (lit ''the server offers no SASL'')
               else keep r' [lit ''CAP REQ :sasl''])
         else if param line 1 = Some (lit ''ACK'') \<and> lit ''sasl'' \<in> set (split_on 32 list) then
           keep r [lit ''AUTHENTICATE PLAIN'']
         else if param line 1 = Some (lit ''NAK'') then
           reg_refuse r (lit ''the server refused the sasl capability'')
         else keep r [])"

function chunks_of :: "nat \<Rightarrow> js \<Rightarrow> js list" where
  "chunks_of n s = (if s = [] \<or> n = 0 then [] else take n s # chunks_of n (drop n s))"
  by pat_completeness auto
termination
  by (relation "measure (\<lambda>(n, s). length s)") auto

declare chunks_of.simps [simp del]

definition sasl_payload :: "registration_options \<Rightarrow> js" where
  "sasl_payload opts =
     (let account = (case ro_saslAccount opts of None \<Rightarrow> ro_nick opts | Some a \<Rightarrow> a);
          password = (case ro_saslPassword opts of None \<Rightarrow> [] | Some p \<Rightarrow> p)
      in base64 (utf8 (account @ [0] @ account @ [0] @ password)))"

definition onAuthenticate :: "registration_options \<Rightarrow> irc_line \<Rightarrow> registration \<Rightarrow> reg_step" where
  "onAuthenticate opts line r =
     (if param line 0 \<noteq> Some (lit ''+'') then keep r []
      else
        (let encoded = sasl_payload opts
         in keep r (map (\<lambda>c. lit ''AUTHENTICATE '' @ c) (chunks_of AUTHENTICATE_CHUNK encoded) @
              (if length encoded mod AUTHENTICATE_CHUNK = 0 then [lit ''AUTHENTICATE +''] else []))))"

definition onNickInUse :: "registration \<Rightarrow> reg_step" where
  "onNickInUse r =
     (if rg_welcomed r then keep r []
      else if NICK_RETRIES \<le> rg_retries r then
        reg_refuse r (lit ''nick '' @ rg_nick r @ lit '' is in use after '' @ dec NICK_RETRIES @ lit '' retries'')
      else
        (let r' = r\<lparr>rg_retries := Suc (rg_retries r), rg_nick := rg_nick r @ lit ''_''\<rparr>
         in keep r' [lit ''NICK '' @ rg_nick r']))"

definition onWelcome :: "registration_options \<Rightarrow> irc_line \<Rightarrow> registration \<Rightarrow> reg_step" where
  "onWelcome opts line r =
     (if ro_saslPassword opts \<noteq> None \<and> \<not> rg_saslDone r then
        reg_refuse r (lit ''the server welcomed the nick without SASL, so the account is not logged in'')
      else
        (let r' = r\<lparr>rg_welcomed := True, rg_nick := param_or line 0 (rg_nick r)\<rparr>
         in if ro_channels opts = [] then (r', [], Some (Registered (rg_nick r')))
            else keep r' [lit ''JOIN '' @ join (lit '','') (ro_channels opts)]))"

definition joinedAll :: "registration \<Rightarrow> reg_step" where
  "joinedAll r =
     (if \<not> rg_welcomed r \<or> rg_waitingFor r \<noteq> [] then keep r []
      else (r, [], Some (Registered (rg_nick r))))"

definition onLine ::
    "(js \<Rightarrow> js) \<Rightarrow> registration_options \<Rightarrow> irc_line \<Rightarrow> registration \<Rightarrow> reg_step" where
  "onLine lower opts line r =
     (let cmd = il_command line in
      if cmd = lit ''ERROR'' then
        reg_refuse r (lit ''the server closed the link: '' @ param_or line 0 [])
      else if cmd = lit ''CAP'' then onCap line r
      else if cmd = lit ''AUTHENTICATE'' then onAuthenticate opts line r
      else if cmd \<in> set SASL_REFUSALS then
        reg_refuse r (lit ''SASL refused ('' @ cmd @ lit ''): '' @ last_param line)
      else if cmd \<in> set JOIN_REFUSALS then
        reg_refuse r (lit ''could not join '' @ param_or line 1 (lit ''?'') @ lit '' ('' @ cmd @ lit ''): '' @ last_param line)
      else if cmd = lit ''903'' then keep (r\<lparr>rg_saslDone := True\<rparr>) [lit ''CAP END'']
      else if cmd = lit ''464'' \<or> cmd = lit ''465'' then
        reg_refuse r (lit ''the server refused the connection ('' @ cmd @ lit ''): '' @ last_param line)
      else if cmd = lit ''433'' then onNickInUse r
      else if cmd = lit ''001'' then onWelcome opts line r
      else if cmd = lit ''366'' then
        joinedAll (r\<lparr>rg_waitingFor := removeAll (ircLower lower (param_or line 1 [])) (rg_waitingFor r)\<rparr>)
      else keep r [])"

text \<open>The handshake over a sequence of lines, until it is over.\<close>

fun run_handshake ::
    "(js \<Rightarrow> js) \<Rightarrow> registration_options \<Rightarrow> irc_line list \<Rightarrow> registration \<Rightarrow> reg_step" where
  "run_handshake lower opts [] r = (r, [], None)"
| "run_handshake lower opts (l # ls) r =
     (case onLine lower opts l r of
        (r', written, Some out) \<Rightarrow> (r', written, Some out)
      | (r', written, None) \<Rightarrow>
          (case run_handshake lower opts ls r' of
             (r'', written', out) \<Rightarrow> (r'', written @ written', out)))"

definition handshake :: "(js \<Rightarrow> js) \<Rightarrow> registration_options \<Rightarrow> irc_line list \<Rightarrow> reg_step" where
  "handshake lower opts ls =
     (let r = newRegistration lower opts in
      case run_handshake lower opts ls r of (r', written, out) \<Rightarrow> (r', reg_start opts r @ written, out))"

lemmas [step_defs] = onLine_def onCap_def onAuthenticate_def onNickInUse_def onWelcome_def joinedAll_def
  keep_def reg_refuse_def

section \<open>One step\<close>

text \<open>A line is refused, ignored, or handled by exactly one of the cases below.\<close>

lemma onLine_result:
  assumes "onLine lower opts l r = X"
  shows "(\<exists>reason. X = reg_refuse r reason) \<or> X = keep r [] \<or>
    (X = onCap l r \<and> il_command l = lit ''CAP'') \<or>
    (X = onAuthenticate opts l r \<and> il_command l = lit ''AUTHENTICATE'') \<or>
    (X = keep (r\<lparr>rg_saslDone := True\<rparr>) [lit ''CAP END''] \<and> il_command l = lit ''903'') \<or>
    (X = onNickInUse r \<and> il_command l = lit ''433'') \<or>
    (X = onWelcome opts l r \<and> il_command l = lit ''001'') \<or>
    (X = joinedAll (r\<lparr>rg_waitingFor := removeAll (ircLower lower (param_or l 1 [])) (rg_waitingFor r)\<rparr>) \<and>
      il_command l = lit ''366'')"
  using assms unfolding onLine_def Let_def by (simp only: split: if_split_asm) blast+

lemma onLine_cases:
  obtains (refused) reason where "onLine lower opts l r = reg_refuse r reason"
  | (ignored) "onLine lower opts l r = keep r []"
  | (cap) "onLine lower opts l r = onCap l r" "il_command l = lit ''CAP''"
  | (authenticate) "onLine lower opts l r = onAuthenticate opts l r" "il_command l = lit ''AUTHENTICATE''"
  | (sasl) "onLine lower opts l r = keep (r\<lparr>rg_saslDone := True\<rparr>) [lit ''CAP END'']" "il_command l = lit ''903''"
  | (nick_taken) "onLine lower opts l r = onNickInUse r" "il_command l = lit ''433''"
  | (welcomed) "onLine lower opts l r = onWelcome opts l r" "il_command l = lit ''001''"
  | (joined) "onLine lower opts l r =
        joinedAll (r\<lparr>rg_waitingFor := removeAll (ircLower lower (param_or l 1 [])) (rg_waitingFor r)\<rparr>)"
      "il_command l = lit ''366''"
  using onLine_result [OF refl, of lower opts l r]
  by (elim disjE exE conjE) (erule that | erule (1) that)+

text \<open>The invariant of the handshake, relative to the lines read so far.\<close>

definition confirmed :: "(js \<Rightarrow> js) \<Rightarrow> irc_line list \<Rightarrow> js \<Rightarrow> bool" where
  "confirmed lower seen channel \<longleftrightarrow>
     (\<exists>l \<in> set seen. il_command l = lit ''366'' \<and> ircLower lower (param_or l 1 []) = channel)"

definition reg_inv ::
    "(js \<Rightarrow> js) \<Rightarrow> registration_options \<Rightarrow> irc_line list \<Rightarrow> registration \<Rightarrow> bool" where
  "reg_inv lower opts seen r \<longleftrightarrow>
     rg_retries r \<le> NICK_RETRIES \<and>
     (rg_welcomed r \<or> rg_nick r = ro_nick opts @ replicate (rg_retries r) 95) \<and>
     (rg_saslDone r \<longrightarrow> (\<exists>l \<in> set seen. il_command l = lit ''903'')) \<and>
     (rg_welcomed r \<longrightarrow> (\<exists>l \<in> set seen. il_command l = lit ''001'') \<and>
        (ro_saslPassword opts \<noteq> None \<longrightarrow> rg_saslDone r)) \<and>
     (\<forall>c \<in> set (ro_channels opts). ircLower lower c \<in> set (rg_waitingFor r) \<or> confirmed lower seen (ircLower lower c))"

lemma confirmed_more: "confirmed lower seen c \<Longrightarrow> confirmed lower (seen @ [l]) c"
  by (auto simp: confirmed_def)

lemma reg_inv_more: "reg_inv lower opts seen r \<Longrightarrow> reg_inv lower opts (seen @ [l]) r"
  by (auto simp: reg_inv_def confirmed_def)

lemma reg_inv_new: "reg_inv lower opts [] (newRegistration lower opts)"
  by (simp add: reg_inv_def newRegistration_def)

lemma reg_inv_offered: "reg_inv lower opts seen r \<Longrightarrow> reg_inv lower opts seen (r\<lparr>rg_offered := os\<rparr>)"
  by (simp add: reg_inv_def)

text \<open>A step keeps the invariant, and an accepting outcome means a complete handshake.\<close>

definition complete :: "(js \<Rightarrow> js) \<Rightarrow> registration_options \<Rightarrow> irc_line list \<Rightarrow> bool" where
  "complete lower opts seen \<longleftrightarrow>
     (\<exists>l \<in> set seen. il_command l = lit ''001'') \<and>
     (ro_saslPassword opts \<noteq> None \<longrightarrow> (\<exists>l \<in> set seen. il_command l = lit ''903'')) \<and>
     (\<forall>c \<in> set (ro_channels opts). confirmed lower seen (ircLower lower c))"

lemma step_inv:
  assumes inv: "reg_inv lower opts seen r" and step: "onLine lower opts l r = (r', w, out)"
  shows "reg_inv lower opts (seen @ [l]) r' \<and> (\<forall>n. out = Some (Registered n) \<longrightarrow> complete lower opts (seen @ [l]))"
proof (cases rule: onLine_cases [of lower opts l r])
  case (refused reason)
  then show ?thesis using step reg_inv_more [OF inv] by (simp add: reg_refuse_def)
next
  case ignored
  then show ?thesis using step reg_inv_more [OF inv] by (simp add: keep_def)
next
  case cap
  then have "(r' = r \<or> (\<exists>os. r' = r\<lparr>rg_offered := os\<rparr>)) \<and> (\<forall>n. out \<noteq> Some (Registered n))"
    using step by (auto simp: onCap_def Let_def keep_def reg_refuse_def split: if_splits)
  then show ?thesis using reg_inv_more [OF inv] reg_inv_offered by auto
next
  case authenticate
  then have "r' = r \<and> out = None" using step by (auto simp: onAuthenticate_def Let_def keep_def split: if_splits)
  then show ?thesis using reg_inv_more [OF inv] by simp
next
  case sasl
  then have "r' = r\<lparr>rg_saslDone := True\<rparr>" "out = None" using step by (auto simp: keep_def)
  then show ?thesis using inv sasl(2) by (auto simp: reg_inv_def intro: confirmed_more)
next
  case nick_taken
  then consider "r' = r" "\<forall>n. out \<noteq> Some (Registered n)"
    | "r' = r\<lparr>rg_retries := Suc (rg_retries r), rg_nick := rg_nick r @ lit ''_''\<rparr>" "out = None"
      "rg_retries r < NICK_RETRIES" "\<not> rg_welcomed r"
    using step by (auto simp: onNickInUse_def Let_def keep_def reg_refuse_def split: if_splits)
  then show ?thesis
  proof cases
    case 1
    then show ?thesis using reg_inv_more [OF inv] by simp
  next
    case 2
    then show ?thesis using inv
      by (auto simp: reg_inv_def replicate_append_same intro: confirmed_more)
  qed
next
  case welcomed
  then consider "r' = r" "\<forall>n. out \<noteq> Some (Registered n)"
    | "r' = r\<lparr>rg_welcomed := True, rg_nick := param_or l 0 (rg_nick r)\<rparr>"
      "ro_saslPassword opts \<noteq> None \<longrightarrow> rg_saslDone r" "out = None \<or> ro_channels opts = []"
    using step by (auto simp: onWelcome_def Let_def keep_def reg_refuse_def split: if_splits)
  then show ?thesis
  proof cases
    case 1
    then show ?thesis using reg_inv_more [OF inv] by simp
  next
    case 2
    then show ?thesis using inv welcomed(2) by (auto simp: reg_inv_def complete_def intro: confirmed_more)
  qed
next
  case joined
  let ?c = "ircLower lower (param_or l 1 [])"
  have r': "r' = r\<lparr>rg_waitingFor := removeAll ?c (rg_waitingFor r)\<rparr>"
    and out: "\<And>n. out = Some (Registered n) \<Longrightarrow> rg_welcomed r' \<and> rg_waitingFor r' = []"
    using joined step by (auto simp: joinedAll_def keep_def split: if_splits)
  have "confirmed lower (seen @ [l]) ?c" using joined(2) by (auto simp: confirmed_def)
  then have inv': "reg_inv lower opts (seen @ [l]) r'"
    using inv unfolding r' by (auto simp: reg_inv_def intro: confirmed_more)
  then show ?thesis using out by (auto simp: reg_inv_def complete_def)
qed

lemma handshake_inv:
  assumes "reg_inv lower opts seen r" "run_handshake lower opts ls r = (r', w, out)"
  shows "\<exists>read. prefix read ls \<and> reg_inv lower opts (seen @ read) r' \<and>
     (\<forall>n. out = Some (Registered n) \<longrightarrow> complete lower opts (seen @ read))"
  using assms
proof (induction ls arbitrary: seen r w)
  case Nil
  then show ?case by (auto intro: exI [of _ "[]"])
next
  case (Cons l ls)
  obtain r1 w1 out1 where s: "onLine lower opts l r = (r1, w1, out1)" by (metis prod_cases3)
  note one = step_inv [OF Cons.prems(1) s]
  show ?case
  proof (cases out1)
    case None
    then obtain w2 where "run_handshake lower opts ls r1 = (r', w2, out)"
      using Cons.prems(2) s by (auto split: prod.splits)
    with Cons.IH [of "seen @ [l]" r1] one obtain read where
      "prefix read ls" "reg_inv lower opts (seen @ [l] @ read) r'"
      "\<forall>n. out = Some (Registered n) \<longrightarrow> complete lower opts (seen @ [l] @ read)" by auto
    then show ?thesis by (intro exI [of _ "l # read"]) simp
  next
    case (Some x)
    then show ?thesis using Cons.prems(2) s one by (intro exI [of _ "[l]"]) auto
  qed
qed

section \<open>What is written\<close>

text \<open>A line the server reads as one command: no NUL, CR or LF. Code units are never negative.\<close>

definition one_line :: "js \<Rightarrow> bool" where
  "one_line s \<longleftrightarrow> (\<forall>c \<in> set s. 0 < c \<and> c \<noteq> 10 \<and> c \<noteq> 13)"

definition one_line_options :: "registration_options \<Rightarrow> bool" where
  "one_line_options opts \<longleftrightarrow> one_line (ro_nick opts) \<and> one_line (ro_username opts) \<and>
     one_line (ro_realname opts) \<and> (\<forall>p. ro_password opts = Some p \<longrightarrow> one_line p) \<and>
     (\<forall>p. ro_saslAccount opts = Some p \<longrightarrow> one_line p) \<and>
     (\<forall>p. ro_saslPassword opts = Some p \<longrightarrow> one_line p) \<and> (\<forall>c \<in> set (ro_channels opts). one_line c)"

lemma one_line_append [simp]: "one_line (a @ b) \<longleftrightarrow> one_line a \<and> one_line b"
  by (auto simp: one_line_def)

lemma one_line_simps [simp]:
  "one_line []" "one_line (c # s) \<longleftrightarrow> 0 < c \<and> c \<noteq> 10 \<and> c \<noteq> 13 \<and> one_line s"
  by (auto simp: one_line_def)

lemma one_line_pos: "one_line s \<Longrightarrow> c \<in> set s \<Longrightarrow> 0 < c"
  by (simp add: one_line_def)

lemma one_line_replicate [simp]: "one_line (s @ replicate n 95) \<longleftrightarrow> one_line s"
  by (induction n) (auto simp: one_line_def)

lemma one_line_join: "one_line d \<Longrightarrow> \<forall>x \<in> set xs. one_line x \<Longrightarrow> one_line (join d xs)"
proof -
  have "\<forall>x \<in> set ys. one_line x \<Longrightarrow> one_line d \<Longrightarrow> one_line (concat (map (\<lambda>z. d @ z) ys))" for ys
    by (induction ys) auto
  then show "one_line d \<Longrightarrow> \<forall>x \<in> set xs. one_line x \<Longrightarrow> one_line (join d xs)"
    by (cases xs) (auto simp: join_def)
qed

lemma chunks_of_part: "c \<in> set (chunks_of n s) \<Longrightarrow> set c \<subseteq> set s"
proof (induction n s rule: chunks_of.induct)
  case (1 n s)
  have "c = take n s \<or> c \<in> set (chunks_of n (drop n s))"
    using 1(2) by (subst (asm) chunks_of.simps) (auto split: if_splits)
  moreover have "\<not> (s = [] \<or> n = 0)" using 1(2) by (subst (asm) chunks_of.simps) (auto split: if_splits)
  ultimately show ?case using 1(1) by (meson dual_order.trans set_drop_subset set_take_subset)
qed

lemma sasl_payload_one_line:
  assumes "one_line_options opts" shows "one_line (sasl_payload opts)"
proof -
  define account where "account = (case ro_saslAccount opts of None \<Rightarrow> ro_nick opts | Some a \<Rightarrow> a)"
  define pass where "pass = (case ro_saslPassword opts of None \<Rightarrow> [] | Some p \<Rightarrow> p)"
  have "one_line account"
    using assms by (cases "ro_saslAccount opts") (simp_all add: account_def one_line_options_def)
  moreover have "one_line pass"
    using assms by (cases "ro_saslPassword opts") (simp_all add: pass_def one_line_options_def)
  ultimately have "\<forall>c \<in> set (account @ [0] @ account @ [0] @ pass). 0 \<le> c"
    using one_line_pos by (fastforce intro: less_imp_le)
  then have bytes: "\<forall>b \<in> set (utf8 (account @ [0] @ account @ [0] @ pass)). 0 \<le> b"
    using utf8_nonneg by blast
  have payload: "sasl_payload opts = base64 (utf8 (account @ [0] @ account @ [0] @ pass))"
    by (simp only: sasl_payload_def account_def pass_def Let_def)
  have "43 \<le> x" if "x \<in> set (sasl_payload opts)" for x
    using base64_clean [OF that [unfolded payload] bytes] .
  then show ?thesis unfolding one_line_def by force
qed

lemma step_written:
  assumes opts: "one_line_options opts" and inv: "reg_inv lower opts seen r"
    and step: "onLine lower opts l r = (r', w, out)"
  shows "\<forall>x \<in> set w. one_line x"
proof (cases rule: onLine_cases [of lower opts l r])
  case authenticate
  have part: "one_line c" if "c \<in> set (chunks_of AUTHENTICATE_CHUNK (sasl_payload opts))" for c
    using chunks_of_part [OF that] sasl_payload_one_line [OF opts] unfolding one_line_def by blast
  have head: "one_line (lit ''AUTHENTICATE '')" "one_line (lit ''AUTHENTICATE +'')" by simp_all
  have "w = [] \<or> w = map (\<lambda>c. lit ''AUTHENTICATE '' @ c) (chunks_of AUTHENTICATE_CHUNK (sasl_payload opts)) \<or>
      w = map (\<lambda>c. lit ''AUTHENTICATE '' @ c) (chunks_of AUTHENTICATE_CHUNK (sasl_payload opts)) @ [lit ''AUTHENTICATE +'']"
    using step unfolding authenticate(1) onAuthenticate_def keep_def Let_def
    by (simp del: lit_simps split: if_splits)
  then show ?thesis
    using part by (elim disjE) (simp_all add: head del: lit_simps)
next
  case nick_taken
  have "one_line (rg_nick r)" if "\<not> rg_welcomed r"
    using that inv opts by (simp add: reg_inv_def one_line_options_def del: one_line_append)
  then show ?thesis using step nick_taken(1)
    by (auto simp: onNickInUse_def keep_def reg_refuse_def Let_def split: if_splits)
next
  case welcomed
  have "one_line (join (lit '','') (ro_channels opts))"
    using opts by (intro one_line_join) (auto simp: one_line_options_def)
  then show ?thesis using step welcomed(1)
    by (auto simp: onWelcome_def keep_def reg_refuse_def Let_def split: if_splits)
qed (use step in \<open>auto simp: onCap_def keep_def reg_refuse_def joinedAll_def Let_def split: if_splits\<close>)

lemma handshake_written:
  assumes "one_line_options opts" "reg_inv lower opts seen r" "run_handshake lower opts ls r = (r', w, out)"
  shows "\<forall>x \<in> set w. one_line x"
  using assms(2,3)
proof (induction ls arbitrary: seen r w)
  case (Cons l ls)
  obtain r1 w1 out1 where s: "onLine lower opts l r = (r1, w1, out1)" by (metis prod_cases3)
  note w1 = step_written [OF assms(1) Cons.prems(1) s] and inv1 = step_inv [OF Cons.prems(1) s]
  show ?case
  proof (cases out1)
    case None
    then obtain w2 where w2: "run_handshake lower opts ls r1 = (r', w2, out)" "w = w1 @ w2"
      using Cons.prems(2) s by (auto split: prod.splits)
    then show ?thesis using Cons.IH [of "seen @ [l]" r1 w2] inv1 w1 by auto
  qed (use Cons.prems(2) s w1 in auto)
qed simp

section \<open>Properties\<close>

text \<open>
  C29: a handshake that succeeds was complete: among the lines read, the server welcomed the nick,
  accepted SASL when a SASL password is set, and ended the member list of every channel to join.
\<close>
theorem registered_means_complete:
  assumes "handshake lower opts ls = (r, written, Some (Registered nick))"
  shows "\<exists>read. prefix read ls \<and> complete lower opts read"
proof -
  obtain w where "run_handshake lower opts ls (newRegistration lower opts) = (r, w, Some (Registered nick))"
    using assms by (auto simp: handshake_def Let_def split: prod.splits)
  from handshake_inv [OF reg_inv_new this] show ?thesis by auto
qed

text \<open>
  A nick in use is retried at most three times, each time with one more underscore: until the
  server welcomes it, the nick is the configured one with as many underscores as retries.
\<close>
theorem nick_retries_are_bounded:
  assumes "handshake lower opts ls = (r, written, out)"
  shows "rg_retries r \<le> 3 \<and> (rg_welcomed r \<or> rg_nick r = ro_nick opts @ replicate (rg_retries r) 95)"
proof -
  obtain w where "run_handshake lower opts ls (newRegistration lower opts) = (r, w, out)"
    using assms by (auto simp: handshake_def Let_def split: prod.splits)
  from handshake_inv [OF reg_inv_new this] show ?thesis by (auto simp: reg_inv_def NICK_RETRIES_def)
qed

section \<open>A concrete handshake\<close>

definition irc_msg :: "string \<Rightarrow> string list \<Rightarrow> irc_line" where
  "irc_msg c ps = \<lparr>il_tags = Map.empty, il_prefix = None, il_command = lit c, il_params = map lit ps\<rparr>"

definition ana_options :: registration_options where
  "ana_options = \<lparr>ro_nick = lit ''ana'', ro_username = lit ''ana'', ro_realname = lit ''Ana'',
     ro_password = None, ro_saslAccount = None, ro_saslPassword = Some (lit ''pw''), ro_channels = [lit ''#x'']\<rparr>"

definition ana_lines :: "irc_line list" where
  "ana_lines = [irc_msg ''CAP'' [''*'', ''LS'', ''sasl''], irc_msg ''CAP'' [''*'', ''ACK'', ''sasl''],
     irc_msg ''AUTHENTICATE'' [''+''], irc_msg ''903'' [''*''], irc_msg ''433'' [''*'', ''ana''],
     irc_msg ''001'' [''ana_''], irc_msg ''366'' [''ana_'', ''#x'']]"

lemma ana_handshake:
  "fst (handshake id ana_options ana_lines) = \<lparr>rg_nick = lit ''ana_'', rg_retries = 1, rg_welcomed = True,
     rg_saslDone = True, rg_offered = [lit ''sasl''], rg_waitingFor = []\<rparr> \<and>
   snd (snd (handshake id ana_options ana_lines)) = Some (Registered (lit ''ana_''))"
  by code_simp

theorem registered_means_complete_witness:
  "\<exists>read. prefix read ana_lines \<and> complete id ana_options read"
proof -
  obtain r w where "handshake id ana_options ana_lines = (r, w, Some (Registered (lit ''ana_'')))"
    using ana_handshake by (metis prod.collapse)
  then show ?thesis by (rule registered_means_complete)
qed

theorem nick_retries_are_bounded_witness:
  "rg_retries (fst (handshake id ana_options ana_lines)) \<le> 3 \<and> rg_retries (fst (handshake id ana_options ana_lines)) = 1"
proof -
  obtain r w out where h: "handshake id ana_options ana_lines = (r, w, out)" by (metis prod_cases3)
  from nick_retries_are_bounded [OF h] show ?thesis using ana_handshake h by simp
qed

end
