(* ===== verification/IrcSplit.thy ===== *)
theory IrcSplit
  imports Utf8
begin

text \<open>
  \<open>packages/gateway-irc/src/split.ts\<close>: outbound text as the bodies of \<open>PRIVMSG\<close> commands that stay within
  the 512 bytes of an IRC line, the prefix the server adds on relay included.
\<close>

definition LINE_LIMIT_BYTES :: int where "LINE_LIMIT_BYTES = 512"
definition CRLF_BYTES :: int where "CRLF_BYTES = 2"
definition DEFAULT_PREFIX_RESERVE_BYTES :: int where "DEFAULT_PREFIX_RESERVE_BYTES = 100"
definition MAX_CODE_POINT_BYTES :: int where "MAX_CODE_POINT_BYTES = 4"

lemmas irc_limits = LINE_LIMIT_BYTES_def CRLF_BYTES_def DEFAULT_PREFIX_RESERVE_BYTES_def MAX_CODE_POINT_BYTES_def

definition command_head :: "js \<Rightarrow> js" where
  "command_head target = lit ''PRIVMSG '' @ target @ lit '' :''"

datatype irc_range_error = TargetLeaves js int

fun cut_loop :: "int \<Rightarrow> js list \<Rightarrow> js list \<Rightarrow> js \<Rightarrow> int \<Rightarrow> js list" where
  "cut_loop budget [] pieces piece pieceBytes = (if piece \<noteq> [] then pieces @ [piece] else pieces)"
| "cut_loop budget (cp # cps) pieces piece pieceBytes =
     (let b = byteLength cp in
      if pieceBytes + b > budget then cut_loop budget cps (pieces @ [piece]) cp b
      else cut_loop budget cps pieces (piece @ cp) (pieceBytes + b))"

definition cutLine :: "js \<Rightarrow> int \<Rightarrow> js list" where
  "cutLine line budget = cut_loop budget (code_points line) [] [] 0"

text \<open>\<open>text.split(/\r\n|\n|\r/)\<close>.\<close>

definition is_break :: "cu \<Rightarrow> bool" where "is_break c \<longleftrightarrow> c = 10 \<or> c = 13"

lemma dropWhile_Cons_shorter: "dropWhile P s = c # r \<Longrightarrow> Suc (length r) \<le> length s"
  by (metis dropWhile_le_length length_Cons)

function split_lines :: "js \<Rightarrow> js list" where
  "split_lines s =
     (let line = takeWhile (\<lambda>c. \<not> is_break c) s in
      case dropWhile (\<lambda>c. \<not> is_break c) s of
        [] \<Rightarrow> [line]
      | c # rest \<Rightarrow>
          (case rest of
             d # rest' \<Rightarrow> if c = 13 \<and> d = 10 then line # split_lines rest' else line # split_lines rest
           | [] \<Rightarrow> line # split_lines []))"
  by pat_completeness auto
termination
  by (relation "measure length") (auto dest: dropWhile_Cons_shorter)

declare split_lines.simps [simp del]

definition irc_budget :: "js \<Rightarrow> int \<Rightarrow> int" where
  "irc_budget target reserve = LINE_LIMIT_BYTES - CRLF_BYTES - byteLength (command_head target) - reserve"

definition splitForIrc :: "js \<Rightarrow> js \<Rightarrow> int \<Rightarrow> irc_range_error + js list" where
  "splitForIrc text target reserve =
     (let budget = irc_budget target reserve in
      if budget < MAX_CODE_POINT_BYTES then Inl (TargetLeaves target budget)
      else Inr (concat (map (\<lambda>line. if line = [] then [] else cutLine line budget)
                 (split_lines (filter (\<lambda>c. c \<noteq> 0) text)))))"

section \<open>Lines\<close>

lemma break_cases:
  obtains (one) "dropWhile (\<lambda>c. \<not> is_break c) s = []" "split_lines s = [s]"
  | (more) line sep rest where "s = line @ sep @ rest" "split_lines s = line # split_lines rest"
      "\<forall>c \<in> set line. \<not> is_break c" "sep \<in> {[10], [13], [13, 10]}"
proof (cases "dropWhile (\<lambda>c. \<not> is_break c) s")
  case Nil
  then have "takeWhile (\<lambda>c. \<not> is_break c) s = s" by (metis append_Nil2 takeWhile_dropWhile_id)
  then have "split_lines s = [s]"
    by (subst split_lines.simps) (simp only: Nil Let_def list.case)
  then show ?thesis using Nil one by blast
next
  case (Cons c rest)
  let ?line = "takeWhile (\<lambda>c. \<not> is_break c) s"
  have s: "s = ?line @ c # rest" using Cons by (metis takeWhile_dropWhile_id)
  have c: "c = 10 \<or> c = 13" using Cons by (metis dropWhile_eq_Cons_conv is_break_def)
  have clean: "\<forall>x \<in> set ?line. \<not> is_break x" by (auto dest: set_takeWhileD)
  show ?thesis
  proof (cases "\<exists>rest'. c = 13 \<and> rest = 10 # rest'")
    case True
    then obtain rest' where r: "c = 13" "rest = 10 # rest'" by blast
    then have "split_lines s = ?line # split_lines rest'" using Cons by (subst split_lines.simps) simp
    then show ?thesis using s r clean by (intro more [of ?line "[13, 10]" rest']) auto
  next
    case False
    then have "split_lines s = ?line # split_lines rest"
      using Cons by (subst split_lines.simps) (cases rest, auto simp: Let_def)
    then show ?thesis using s c clean by (intro more [of ?line "[c]" rest]) auto
  qed
qed

lemma split_lines_spells:
  "concat (split_lines s) = filter (\<lambda>c. \<not> is_break c) s \<and>
   (\<forall>line \<in> set (split_lines s). \<forall>c \<in> set line. \<not> is_break c \<and> c \<in> set s)"
proof (induction s rule: length_induct)
  case (1 s)
  show ?case
  proof (cases s rule: break_cases)
    case one
    then have "\<forall>c \<in> set s. \<not> is_break c" by (auto simp: dropWhile_eq_Nil_conv)
    then show ?thesis using one by (simp add: filter_id_conv)
  next
    case (more line sep rest)
    have "length rest < length s" using more by auto
    then have ih: "concat (split_lines rest) = filter (\<lambda>c. \<not> is_break c) rest \<and>
        (\<forall>line \<in> set (split_lines rest). \<forall>c \<in> set line. \<not> is_break c \<and> c \<in> set rest)"
      using 1 by blast
    have "filter (\<lambda>c. \<not> is_break c) line = line" using more(3) by (simp add: filter_id_conv)
    moreover have "filter (\<lambda>c. \<not> is_break c) sep = []" using more(4) by (auto simp: is_break_def)
    ultimately show ?thesis using ih more by auto
  qed
qed

lemma wf16_around:
  assumes "wf16 (a @ x # b)" "\<not> is_low x" "\<not> is_high x"
  shows "wf16 a" "wf16 b"
  using wf16_split [of "a @ x # b" "length a"] assms by (auto simp: wf16_Cons_plain)

lemma split_lines_wf16: "wf16 s \<Longrightarrow> line \<in> set (split_lines s) \<Longrightarrow> wf16 line"
proof (induction s arbitrary: line rule: length_induct)
  case (1 s)
  show ?case
  proof (cases s rule: break_cases)
    case one
    then show ?thesis using 1 by simp
  next
    case (more l sep rest)
    have plain: "\<not> is_low 10" "\<not> is_high 10" "\<not> is_low 13" "\<not> is_high 13"
      by (auto simp: is_low_def is_high_def)
    obtain x sep' where sep: "sep = x # sep'" "\<not> is_low x" "\<not> is_high x" "sep' = [] \<or> sep' = [10]"
      using more(4) plain by auto
    have wf: "wf16 l" "wf16 (sep' @ rest)"
      using wf16_around [of l x "sep' @ rest"] 1(2) more(1) sep by auto
    have "wf16 rest" using wf(2) sep(4) plain by (auto simp: wf16_Cons_plain)
    moreover have "length rest < length s" using more(1) sep(1) by simp
    ultimately show ?thesis using 1 wf(1) more(2) by auto
  qed
qed

lemma wf16_filter_plain:
  "wf16 s \<Longrightarrow> \<forall>c. \<not> P c \<longrightarrow> \<not> is_high c \<and> \<not> is_low c \<Longrightarrow> wf16 (filter P s)"
proof (induction s rule: wf16.induct)
  case (3 c d s)
  show ?case
  proof (cases "is_high c")
    case True
    then have "P c" "P d" "wf16 (filter P s)" "is_low d" using 3 by auto
    then show ?thesis using True by simp
  next
    case False
    then have "wf16 (filter P (d # s))" "\<not> is_low c" using 3 by auto
    then show ?thesis using False by (simp add: wf16_Cons_plain)
  qed
qed auto

section \<open>Pieces\<close>

text \<open>Every piece is a run of whole code points within the budget.\<close>

lemma cut_loop_pieces:
  assumes "\<forall>cp \<in> set cps. 1 \<le> byteLength cp \<and> byteLength cp \<le> budget"
    and "piece = concat g" "sum_list (map byteLength g) = b" "b \<le> budget" "\<forall>cp \<in> set g. Q cp" "\<forall>cp \<in> set cps. Q cp"
  shows "\<exists>ps. cut_loop budget cps pieces piece b = pieces @ ps \<and> concat ps = piece @ concat cps \<and>
    (\<forall>p \<in> set ps. p \<noteq> [] \<and> (\<exists>g'. p = concat g' \<and> sum_list (map byteLength g') \<le> budget \<and> (\<forall>cp \<in> set g'. Q cp)))"
  using assms
proof (induction cps arbitrary: pieces piece b g)
  case Nil
  then show ?case
    by (cases "piece = []") (auto intro!: exI [of _ "[piece]"] exI [of _ g] simp: concat_eq_Nil_conv)
next
  case (Cons cp cps)
  have cp: "1 \<le> byteLength cp" "byteLength cp \<le> budget" "Q cp" using Cons.prems by auto
  show ?case
  proof (cases "b + byteLength cp > budget")
    case True
    have ne: "piece \<noteq> []"
    proof
      assume "piece = []"
      then have "\<forall>x \<in> set g. x = []" using Cons.prems(2) by auto
      then have "map byteLength g = map (\<lambda>_. 0) g" by (intro map_cong refl) auto
      then have "b = 0" using Cons.prems(3) by (metis sum_list_0)
      then show False using True cp(2) by simp
    qed
    obtain ps where ps: "cut_loop budget cps (pieces @ [piece]) cp (byteLength cp) = (pieces @ [piece]) @ ps"
      "concat ps = cp @ concat cps"
      "\<forall>p \<in> set ps. p \<noteq> [] \<and> (\<exists>g'. p = concat g' \<and> sum_list (map byteLength g') \<le> budget \<and> (\<forall>cp \<in> set g'. Q cp))"
      using Cons.IH [of cp "[cp]" "byteLength cp" "pieces @ [piece]"] Cons.prems cp by auto
    have "p \<noteq> [] \<and> (\<exists>g'. p = concat g' \<and> sum_list (map byteLength g') \<le> budget \<and> (\<forall>cp \<in> set g'. Q cp))"
      if "p \<in> set (piece # ps)" for p
      using that ps(3) ne Cons.prems(2-5) by auto
    then show ?thesis using True ps(1,2) by (intro exI [of _ "piece # ps"]) (simp add: Let_def)
  next
    case False
    then show ?thesis
      using Cons.IH [of "piece @ cp" "g @ [cp]" "b + byteLength cp" pieces] Cons.prems cp
      by (simp add: Let_def)
  qed
qed

lemma cutLine_pieces:
  assumes "4 \<le> budget"
  shows "concat (cutLine line budget) = line \<and>
    (\<forall>p \<in> set (cutLine line budget). p \<noteq> [] \<and> byteLength p \<le> budget \<and> (wf16 line \<longrightarrow> wf16 p))"
proof -
  let ?Q = "\<lambda>cp. cp \<in> set (code_points line)"
  have "\<forall>cp \<in> set (code_points line). 1 \<le> byteLength cp \<and> byteLength cp \<le> budget"
    using code_point_bytes assms by fastforce
  then obtain ps where ps: "cutLine line budget = ps" "concat ps = line"
    "\<forall>p \<in> set ps. p \<noteq> [] \<and> (\<exists>g'. p = concat g' \<and> sum_list (map byteLength g') \<le> budget \<and> (\<forall>cp \<in> set g'. ?Q cp))"
    using cut_loop_pieces [of "code_points line" budget "[]" "[]" 0 ?Q "[]"] assms
    unfolding cutLine_def by (auto simp: concat_code_points)
  have "byteLength p \<le> budget \<and> (wf16 line \<longrightarrow> wf16 p)" if p: "p \<in> set ps" for p
  proof -
    obtain g' where g': "p = concat g'" "sum_list (map byteLength g') \<le> budget" "\<forall>cp \<in> set g'. ?Q cp"
      using ps(3) p by blast
    have "byteLength p \<le> budget" using byteLength_concat_le [of g'] g'(1,2) by simp
    moreover have "wf16 line \<Longrightarrow> wf16 p"
      using g'(1,3) wf16_code_points by (auto intro: wf16_concat)
    ultimately show ?thesis by blast
  qed
  then show ?thesis using ps by auto
qed

lemma concat_concat_map: "concat (concat (map f xs)) = concat (map (\<lambda>x. concat (f x)) xs)"
  by (induction xs) auto

section \<open>Bodies\<close>

definition irc_line_of :: "js \<Rightarrow> js \<Rightarrow> js" where
  "irc_line_of target body = command_head target @ body @ [13, 10]"

definition irc_sendable :: "cu \<Rightarrow> bool" where
  "irc_sendable c \<longleftrightarrow> c \<noteq> 0 \<and> \<not> is_break c"

lemma splitForIrc_fits:
  assumes "splitForIrc text target reserve = Inr bodies"
  shows "concat bodies = filter irc_sendable text \<and>
    (\<forall>b \<in> set bodies. b \<noteq> [] \<and> (\<forall>c \<in> set b. irc_sendable c) \<and>
       byteLength (irc_line_of target b) + reserve \<le> 512 \<and> (wf16 text \<longrightarrow> wf16 b))"
proof -
  let ?budget = "irc_budget target reserve"
  let ?text = "filter (\<lambda>c. c \<noteq> 0) text"
  let ?f = "\<lambda>line. if line = [] then [] else cutLine line ?budget"
  have budget: "4 \<le> ?budget" and bodies: "bodies = concat (map ?f (split_lines ?text))"
    using assms by (auto simp: splitForIrc_def Let_def irc_limits split: if_splits)
  note cuts = cutLine_pieces [OF budget]
  have join: "concat (?f line) = line" for line using cuts by simp
  have spells: "concat bodies = filter irc_sendable text"
  proof -
    have "concat bodies = concat (split_lines ?text)"
      unfolding bodies concat_concat_map join by simp
    also have "\<dots> = filter (\<lambda>c. \<not> is_break c) ?text" using split_lines_spells [of ?text] by blast
    also have "\<dots> = filter irc_sendable text" by (simp add: irc_sendable_def [abs_def])
    finally show ?thesis .
  qed
  have "b \<noteq> [] \<and> (\<forall>c \<in> set b. irc_sendable c) \<and>
       byteLength (irc_line_of target b) + reserve \<le> 512 \<and> (wf16 text \<longrightarrow> wf16 b)" if b: "b \<in> set bodies" for b
  proof -
    obtain line where line: "line \<in> set (split_lines ?text)" "b \<in> set (cutLine line ?budget)"
      using b unfolding bodies by (auto split: if_splits)
    have "set b \<subseteq> set (concat bodies)" using b by auto
    then have clean: "\<forall>c \<in> set b. irc_sendable c" unfolding spells by auto
    have fits: "byteLength b \<le> ?budget" and ne: "b \<noteq> []" and wf: "wf16 line \<longrightarrow> wf16 b"
      using cuts line(2) by auto
    have "byteLength (irc_line_of target b) \<le> byteLength (command_head target) + byteLength (b @ [13, 10])"
      unfolding irc_line_of_def by (rule byteLength_append_le)
    moreover have "byteLength (b @ [13, 10]) \<le> byteLength b + 2"
      using byteLength_append_le [of b "[13, 10]"] byteLength_ascii [of "[13, 10]"] by simp
    ultimately have "byteLength (irc_line_of target b) + reserve \<le> 512"
      using fits by (simp add: irc_budget_def irc_limits)
    moreover have "wf16 text \<Longrightarrow> wf16 b"
    proof -
      assume "wf16 text"
      then have "wf16 ?text" by (rule wf16_filter_plain) (auto simp: is_high_def is_low_def)
      then show "wf16 b" using wf split_lines_wf16 line(1) by blast
    qed
    ultimately show ?thesis using clean ne by blast
  qed
  then show ?thesis using spells by blast
qed

section \<open>Properties\<close>

text \<open>
  C31: the bodies carry the text: in order they spell it but for NULs and line breaks; none is empty
  or holds one of those, so no body can end its command early; every command line with its CRLF leaves
  the reserved bytes of the 512 free; and a well-formed text gives bodies that decode on their own.
\<close>
theorem splitForIrc_fits_the_line:
  assumes "splitForIrc text target reserve = Inr bodies"
  shows "concat bodies = filter irc_sendable text \<and>
    (\<forall>b \<in> set bodies. b \<noteq> [] \<and> (\<forall>c \<in> set b. irc_sendable c) \<and>
       byteLength (irc_line_of target b) + reserve \<le> 512 \<and> (wf16 text \<longrightarrow> wf16 b))"
  using splitForIrc_fits [OF assms] .

theorem splitForIrc_fits_the_line_witness:
  "\<exists>bodies. splitForIrc (lit ''hi'' @ [13, 10] @ lit ''you'') (lit ''#x'') 100 = Inr bodies \<and>
     concat bodies = lit ''hiyou''"
proof -
  have "\<exists>bodies. splitForIrc (lit ''hi'' @ [13, 10] @ lit ''you'') (lit ''#x'') 100 = Inr bodies"
    using byteLength_ascii [of "command_head (lit ''#x'')"]
    by (simp add: splitForIrc_def irc_budget_def irc_limits command_head_def)
  then obtain bodies where "splitForIrc (lit ''hi'' @ [13, 10] @ lit ''you'') (lit ''#x'') 100 = Inr bodies" by blast
  with splitForIrc_fits_the_line [OF this] show ?thesis
    by (simp add: irc_sendable_def is_break_def)
qed

end
