(* ===== verification/IrcAdapter.thy ===== *)
theory IrcAdapter
  imports IrcNormalize IrcRegistration IrcSplit Effects
begin

text \<open>
  \<open>packages/gateway-irc/src/adapter.ts\<close>: the options check, the outbound path, and the connection as a
  state machine whose steps are the callbacks of the sockets, the deadline and the two public calls.
  Sockets are numbered in the order they are opened.
\<close>

section \<open>Options\<close>

record irc_options =
  io_host :: js
  io_nick :: js
  io_username :: "js option"
  io_realname :: "js option"
  io_password :: "js option"
  io_saslAccount :: "js option"
  io_saslPassword :: "js option"
  io_channels :: "js list"

definition hasControlByte :: "js \<Rightarrow> bool" where
  "hasControlByte text \<longleftrightarrow> 0 \<in> set text \<or> 7 \<in> set text"

text \<open>The regular expressions \<open>TARGET\<close>, \<open>CHANNEL\<close> and \<open>NICK\<close>: a first character and the rest.\<close>

definition head_and_rest :: "(cu \<Rightarrow> bool) \<Rightarrow> (cu \<Rightarrow> bool) \<Rightarrow> js \<Rightarrow> bool" where
  "head_and_rest P Q s \<longleftrightarrow> (case s of [] \<Rightarrow> False | c # r \<Rightarrow> P c \<and> list_all Q r)"

definition TARGET :: "js \<Rightarrow> bool" where
  "TARGET = head_and_rest (\<lambda>c. \<not> is_space c \<and> c \<noteq> 44 \<and> c \<noteq> 58) (\<lambda>c. \<not> is_space c \<and> c \<noteq> 44)"

definition CHANNEL :: "js \<Rightarrow> bool" where
  "CHANNEL s \<longleftrightarrow> head_and_rest (\<lambda>c. c = 35 \<or> c = 38) (\<lambda>c. \<not> is_space c \<and> c \<noteq> 44) s \<and> 1 < length s"

definition NICK :: "js \<Rightarrow> bool" where
  "NICK = head_and_rest (\<lambda>c. \<not> is_space c \<and> c \<notin> {58, 35, 38, 33, 64, 44})
     (\<lambda>c. \<not> is_space c \<and> c \<notin> {33, 64, 44})"

definition line_fields :: "irc_options \<Rightarrow> (js \<times> js option) list" where
  "line_fields opts =
     [(lit ''password'', io_password opts), (lit ''saslAccount'', io_saslAccount opts),
      (lit ''saslPassword'', io_saslPassword opts), (lit ''realname'', io_realname opts),
      (lit ''username'', io_username opts)]"

definition or_empty :: "js option \<Rightarrow> js" where
  "or_empty v = (case v of None \<Rightarrow> [] | Some s \<Rightarrow> s)"

definition holds_break :: "js \<Rightarrow> bool" where
  "holds_break s \<longleftrightarrow> 13 \<in> set s \<or> 10 \<in> set s \<or> 0 \<in> set s"

definition validateOptions :: "irc_options \<Rightarrow> js option" where
  "validateOptions opts =
     (if js_trim (io_host opts) = [] then Some (lit ''gateway-irc: opts.host is empty'')
      else if \<not> NICK (io_nick opts) \<or> hasControlByte (io_nick opts) then
        Some (lit ''gateway-irc: opts.nick '' @ quoted (io_nick opts) @ lit '' is not a valid IRC nick'')
      else case find (\<lambda>c. \<not> CHANNEL c \<or> hasControlByte c) (io_channels opts) of
        Some bad \<Rightarrow> Some (lit ''gateway-irc: channel '' @ quoted bad @ lit '' must be #name or &name with no spaces'')
      | None \<Rightarrow>
          (case find (\<lambda>f. holds_break (or_empty (snd f))) (line_fields opts) of
             Some (field, _) \<Rightarrow> Some (lit ''gateway-irc: opts.'' @ field @ lit '' holds a line break or NUL'')
           | None \<Rightarrow>
               if list_ex is_space (or_empty (io_username opts)) then
                 Some (lit ''gateway-irc: opts.username holds a space; USER takes it as one word'')
               else None))"

definition registrationOptions :: "irc_options \<Rightarrow> registration_options" where
  "registrationOptions opts =
     \<lparr>ro_nick = io_nick opts,
      ro_username = (case io_username opts of None \<Rightarrow> io_nick opts | Some u \<Rightarrow> u),
      ro_realname = (case io_realname opts of None \<Rightarrow> io_nick opts | Some u \<Rightarrow> u),
      ro_password = io_password opts, ro_saslAccount = io_saslAccount opts,
      ro_saslPassword = io_saslPassword opts, ro_channels = io_channels opts\<rparr>"

section \<open>Sending\<close>

text \<open>What \<open>sendMessage\<close> does: answer at once, or write one payload and answer when the write did.\<close>

datatype send_step = Answer send_result | WritePayload js

definition textFor :: "outbound \<Rightarrow> js" where
  "textFor out =
     (if out_format out = Some Markdown then
        (case channelRendering (lit ''irc'') of Inr r \<Rightarrow> translate r (out_text out) | Inl _ \<Rightarrow> out_text out)
      else out_text out)"

definition range_message :: "irc_range_error \<Rightarrow> js" where
  "range_message e = (case e of TargetLeaves target budget \<Rightarrow>
     lit ''splitForIrc: target '' @ quoted target @ lit '' leaves '' @
     (if budget < 0 then lit ''-'' @ dec (nat (- budget)) else dec (nat budget)) @
     lit '' bytes per command, under the '' @ dec (nat MAX_CODE_POINT_BYTES) @ lit '' one code point may need'')"

definition sendMessage :: "(js \<Rightarrow> js) \<Rightarrow> bool \<Rightarrow> outbound \<Rightarrow> send_step" where
  "sendMessage stringify connected out =
     (let target = ch_id (out_channel out) in
      if out_text out = [] then Answer (send_refused (lit ''empty_text'') (lit ''outbound text is empty''))
      else if \<not> TARGET target \<or> hasControlByte target then
        Answer (send_refused (lit ''invalid_target'')
          (lit ''channel.id must be one channel or nick with no spaces or line breaks, got '' @ stringify target))
      else if \<not> connected then
        Answer (send_refused (lit ''not_connected'') (lit ''IrcAdapter.connect() has not succeeded''))
      else case splitForIrc (textFor out) target DEFAULT_PREFIX_RESERVE_BYTES of
        Inl e \<Rightarrow> Answer (send_refused (lit ''invalid_target'') (range_message e))
      | Inr [] \<Rightarrow> Answer (send_refused (lit ''empty_text'') (lit ''outbound text has no visible line''))
      | Inr chunks \<Rightarrow> WritePayload (concat (map (irc_line_of target) chunks)))"

definition write_answer :: "js option \<Rightarrow> send_result" where
  "write_answer err =
     (case err of None \<Rightarrow> send_ok None | Some m \<Rightarrow> send_refused (lit ''irc_write_error'') m)"

section \<open>Reading lines\<close>

text \<open>\<open>readLines\<close>: the lines of a chunk, the rest kept for the next one. One final CR is dropped.\<close>

definition drop_cr :: "js \<Rightarrow> js" where
  "drop_cr raw = (if raw \<noteq> [] \<and> last raw = 13 then butlast raw else raw)"

function read_lines :: "js \<Rightarrow> js list \<times> js" where
  "read_lines buffered =
     (case cut_at 10 buffered of
        None \<Rightarrow> ([], buffered)
      | Some (h, t) \<Rightarrow>
          (case read_lines t of
             (ls, rest) \<Rightarrow> (if drop_cr h \<noteq> [] then drop_cr h # ls else ls, rest)))"
  by pat_completeness auto
termination
  by (relation "measure length") (auto dest: cut_at_shorter)

declare read_lines.simps [simp del]

section \<open>The connection\<close>

record irc_session =
  ss_registration :: registration
  ss_settled :: bool
  ss_destroyed :: bool

record irc_conn =
  ic_socket :: "nat option"
  ic_connected :: bool
  ic_connecting :: "nat option"
  ic_nick :: js
  ic_received :: nat
  ic_sessions :: "nat \<Rightarrow> irc_session option"
  ic_next :: nat
  ic_answers :: "(nat \<times> bool) list"
  ic_written :: "(nat \<times> js) list"
  ic_delivered :: "(nat \<times> irc_event) list"

definition irc_fresh :: "irc_options \<Rightarrow> irc_conn" where
  "irc_fresh opts = \<lparr>ic_socket = None, ic_connected = False, ic_connecting = None, ic_nick = io_nick opts,
     ic_received = 0, ic_sessions = (\<lambda>_. None), ic_next = 0, ic_answers = [], ic_written = [], ic_delivered = []\<rparr>"

definition write_lines :: "nat \<Rightarrow> js list \<Rightarrow> irc_conn \<Rightarrow> irc_conn" where
  "write_lines k ls s = s\<lparr>ic_written := ic_written s @ map (\<lambda>l. (k, l)) ls\<rparr>"

text \<open>\<open>connect()\<close> when no attempt is in flight: a socket the factory opens, or not.\<close>

definition irc_connect :: "(js \<Rightarrow> js) \<Rightarrow> irc_options \<Rightarrow> bool \<Rightarrow> irc_conn \<Rightarrow> irc_conn" where
  "irc_connect lower opts opened s =
     (if ic_connected s \<or> ic_connecting s \<noteq> None \<or> \<not> opened then s
      else
        (let k = ic_next s; r = newRegistration lower (registrationOptions opts)
         in write_lines k (reg_start (registrationOptions opts) r)
              (s\<lparr>ic_next := Suc k, ic_socket := Some k, ic_connecting := Some k,
                 ic_sessions := (ic_sessions s)(k \<mapsto> \<lparr>ss_registration = r, ss_settled = False, ss_destroyed = False\<rparr>)\<rparr>)))"

definition finishConnect :: "nat \<Rightarrow> irc_session \<Rightarrow> bool \<Rightarrow> irc_conn \<Rightarrow> irc_conn" where
  "finishConnect k ses ok s =
     (let s1 = s\<lparr>ic_connecting := (if ic_connecting s = Some k then None else ic_connecting s)\<rparr> in
      if ok \<and> ic_socket s = Some k then
        s1\<lparr>ic_nick := rg_nick (ss_registration ses), ic_connected := True,
           ic_sessions := (ic_sessions s)(k \<mapsto> ses\<lparr>ss_settled := True\<rparr>),
           ic_answers := ic_answers s @ [(k, True)]\<rparr>
      else
        s1\<lparr>ic_socket := (if ic_socket s = Some k then None else ic_socket s),
           ic_sessions := (ic_sessions s)(k \<mapsto> ses\<lparr>ss_settled := True, ss_destroyed := True\<rparr>),
           ic_answers := ic_answers s @ [(k, False)]\<rparr>)"

text \<open>\<open>ConnectAttempt.settle\<close>: the first call decides.\<close>

definition settle :: "nat \<Rightarrow> bool \<Rightarrow> irc_conn \<Rightarrow> irc_conn" where
  "settle k ok s =
     (case ic_sessions s k of
        None \<Rightarrow> s
      | Some ses \<Rightarrow> if ss_settled ses then s else finishConnect k ses ok s)"

text \<open>\<open>onLine\<close> after registration: nick changes and messages.\<close>

definition onLine_ready ::
    "(js \<Rightarrow> js) \<Rightarrow> nat \<Rightarrow> irc_line \<Rightarrow> js \<Rightarrow> nat \<Rightarrow> irc_conn \<Rightarrow> irc_conn" where
  "onLine_ready lower k line raw now s =
     (if il_command line = lit ''NICK'' \<and>
         ircLower lower (nickOf (il_prefix line)) = ircLower lower (ic_nick s) then
        s\<lparr>ic_nick := param_or line 0 (ic_nick s)\<rparr>
      else if il_command line \<noteq> lit ''PRIVMSG'' then s
      else
        (let s1 = s\<lparr>ic_received := Suc (ic_received s)\<rparr> in
         case privmsgToMessageEvent lower line raw (ic_nick s1) now (ic_received s1) of
           None \<Rightarrow> s1
         | Some e \<Rightarrow> s1\<lparr>ic_delivered := ic_delivered s1 @ [(k, e)]\<rparr>))"

definition onRaw ::
    "(js \<Rightarrow> js) \<Rightarrow> (js \<Rightarrow> js) \<Rightarrow> irc_options \<Rightarrow> nat \<Rightarrow> js \<Rightarrow> nat \<Rightarrow> irc_conn \<Rightarrow> irc_conn" where
  "onRaw upper lower opts k raw now s =
     (case (ic_sessions s k, parseIrcLine upper raw) of
        (Some ses, Some line) \<Rightarrow>
          if ss_destroyed ses then s
          else if il_command line = lit ''PING'' then
            write_lines k [lit ''PONG :'' @ param_or line 0 []] s
          else if ss_settled ses then onLine_ready lower k line raw now s
          else
            (case onLine lower (registrationOptions opts) line (ss_registration ses) of
               (r, written, out) \<Rightarrow>
                 (let ses' = ses\<lparr>ss_registration := r\<rparr>;
                      s1 = write_lines k written (s\<lparr>ic_sessions := (ic_sessions s)(k \<mapsto> ses')\<rparr>)
                  in case out of
                       None \<Rightarrow> s1
                     | Some (Registered _) \<Rightarrow> settle k True s1
                     | Some (RefusedWith _) \<Rightarrow> settle k False s1))
      | _ \<Rightarrow> s)"

definition onClose :: "nat \<Rightarrow> irc_conn \<Rightarrow> irc_conn" where
  "onClose k s =
     (case ic_sessions s k of
        None \<Rightarrow> s
      | Some ses \<Rightarrow>
          if \<not> ss_settled ses then settle k False s
          else if ic_socket s \<noteq> Some k then s
          else s\<lparr>ic_socket := None, ic_connected := False\<rparr>)"

definition irc_disconnect :: "irc_conn \<Rightarrow> irc_conn" where
  "irc_disconnect s =
     (let s1 = s\<lparr>ic_socket := None, ic_connected := False, ic_connecting := None\<rparr> in
      case ic_socket s of
        None \<Rightarrow> s1
      | Some k \<Rightarrow>
          (case ic_sessions s k of
             Some ses \<Rightarrow> if ss_destroyed ses then s1 else write_lines k [lit ''QUIT :disconnecting''] s1
           | None \<Rightarrow> s1))"

definition destroy :: "nat \<Rightarrow> irc_conn \<Rightarrow> irc_conn" where
  "destroy k s = (case ic_sessions s k of None \<Rightarrow> s
     | Some ses \<Rightarrow> s\<lparr>ic_sessions := (ic_sessions s)(k \<mapsto> ses\<lparr>ss_destroyed := True\<rparr>)\<rparr>)"

datatype irc_call =
    Connect bool
  | Raw nat js nat
  | SocketError nat
  | Close nat
  | Deadline nat
  | Disconnect
  | ForceClose nat

text \<open>The forced close is the second a disconnected socket is given.\<close>

definition irc_step ::
    "(js \<Rightarrow> js) \<Rightarrow> (js \<Rightarrow> js) \<Rightarrow> irc_options \<Rightarrow> irc_call \<Rightarrow> irc_conn \<Rightarrow> irc_conn" where
  "irc_step upper lower opts e s =
     (case e of
        Connect opened \<Rightarrow> irc_connect lower opts opened s
      | Raw k raw now \<Rightarrow> onRaw upper lower opts k raw now s
      | SocketError k \<Rightarrow> settle k False s
      | Close k \<Rightarrow> onClose k s
      | Deadline k \<Rightarrow> settle k False s
      | Disconnect \<Rightarrow> irc_disconnect s
      | ForceClose k \<Rightarrow> if ic_socket s = Some k then s else destroy k s)"

definition irc_run ::
    "(js \<Rightarrow> js) \<Rightarrow> (js \<Rightarrow> js) \<Rightarrow> irc_options \<Rightarrow> irc_call list \<Rightarrow> irc_conn" where
  "irc_run upper lower opts es = foldl (\<lambda>s e. irc_step upper lower opts e s) (irc_fresh opts) es"

section \<open>Options that passed the check\<close>

definition units_ok :: "js \<Rightarrow> bool" where
  "units_ok s \<longleftrightarrow> (\<forall>c \<in> set s. 0 \<le> c)"

definition options_units :: "irc_options \<Rightarrow> js list" where
  "options_units opts = io_nick opts # io_channels opts @ map (\<lambda>f. or_empty (snd f)) (line_fields opts)"

lemma space_breaks [simp]: "is_space 10" "is_space 13" "is_space 32"
  by (simp_all add: is_space_def)

lemma head_and_rest_all:
  "head_and_rest P Q s \<Longrightarrow> (\<And>c. P c \<Longrightarrow> R c) \<Longrightarrow> (\<And>c. Q c \<Longrightarrow> R c) \<Longrightarrow> \<forall>c \<in> set s. R c"
  by (cases s) (auto simp: head_and_rest_def list_all_iff)

lemma no_space_one_line:
  assumes "\<forall>c \<in> set s. \<not> is_space c" "\<not> hasControlByte s" "units_ok s"
  shows "one_line s"
  unfolding one_line_def
proof
  fix c assume c: "c \<in> set s"
  have "c \<noteq> 0" using assms(2) c by (auto simp: hasControlByte_def)
  moreover have "c \<noteq> 10" "c \<noteq> 13" using assms(1) c space_breaks by blast+
  moreover have "0 \<le> c" using assms(3) c by (simp add: units_ok_def)
  ultimately show "0 < c \<and> c \<noteq> 10 \<and> c \<noteq> 13" by simp
qed

lemma no_break_one_line: "\<not> holds_break s \<Longrightarrow> units_ok s \<Longrightarrow> one_line s"
  unfolding one_line_def holds_break_def units_ok_def by (metis order_le_less)

lemma validated_one_line:
  assumes "validateOptions opts = None" "list_all units_ok (options_units opts)"
  shows "one_line_options (registrationOptions opts)"
proof -
  have nick: "NICK (io_nick opts)" "\<not> hasControlByte (io_nick opts)"
    and chans: "find (\<lambda>c. \<not> CHANNEL c \<or> hasControlByte c) (io_channels opts) = None"
    and fields: "find (\<lambda>f. holds_break (or_empty (snd f))) (line_fields opts) = None"
    using assms(1) by (auto simp: validateOptions_def split: if_splits option.splits)
  have units: "units_ok (io_nick opts)" "\<forall>c \<in> set (io_channels opts). units_ok c"
    "\<forall>f \<in> set (line_fields opts). units_ok (or_empty (snd f))"
    using assms(2) by (auto simp: options_units_def list_all_iff)
  have n: "one_line (io_nick opts)"
    using nick units(1) unfolding NICK_def
    by (intro no_space_one_line) (auto dest: head_and_rest_all [where R = "\<lambda>c. \<not> is_space c"])
  have c: "one_line ch" if "ch \<in> set (io_channels opts)" for ch
  proof -
    have ch: "CHANNEL ch" "\<not> hasControlByte ch" using chans that by (auto simp: find_None_iff)
    have "\<not> is_space 35" "\<not> is_space 38" by (simp_all add: is_space_def)
    then have "\<forall>x \<in> set ch. \<not> is_space x"
      using ch(1) unfolding CHANNEL_def by (auto dest!: head_and_rest_all [where R = "\<lambda>c. \<not> is_space c"])
    then show ?thesis using ch(2) units(2) that by (intro no_space_one_line) auto
  qed
  have f: "one_line (or_empty (snd f))" if "f \<in> set (line_fields opts)" for f
  proof (rule no_break_one_line)
    show "\<not> holds_break (or_empty (snd f))" using fields that unfolding find_None_iff by blast
    show "units_ok (or_empty (snd f))" using units(3) that by blast
  qed
  have "snd ` set (line_fields opts) =
      {io_password opts, io_saslAccount opts, io_saslPassword opts, io_realname opts, io_username opts}"
    by (simp add: line_fields_def del: lit_simps)
  then have opt: "one_line (or_empty v)"
    if "v \<in> {io_password opts, io_saslAccount opts, io_saslPassword opts, io_realname opts, io_username opts}" for v
    using that f by (metis imageE)
  have "one_line p" if "v = Some p"
    "v \<in> {io_password opts, io_saslAccount opts, io_saslPassword opts, io_realname opts, io_username opts}" for v p
    using opt [OF that(2)] that(1) by (simp add: or_empty_def)
  then show ?thesis using n c
    by (cases "io_username opts"; cases "io_realname opts")
      (simp_all add: one_line_options_def registrationOptions_def)
qed

section \<open>One send\<close>

lemma TARGET_facts:
  assumes "TARGET t" "\<not> hasControlByte t"
  shows "good_middle t" "\<forall>c \<in> set t. c \<noteq> 0 \<and> c \<noteq> 10 \<and> c \<noteq> 13"
proof -
  have sp: "\<forall>c \<in> set t. \<not> is_space c"
    using assms(1) unfolding TARGET_def by (auto dest: head_and_rest_all [where R = "\<lambda>c. \<not> is_space c"])
  then have "32 \<notin> set t" "10 \<notin> set t" "13 \<notin> set t" using space_breaks by blast+
  moreover have "0 \<notin> set t" using assms(2) by (simp add: hasControlByte_def)
  ultimately show "\<forall>c \<in> set t. c \<noteq> 0 \<and> c \<noteq> 10 \<and> c \<noteq> 13" by metis
  show "good_middle t" using assms(1) \<open>32 \<notin> set t\<close>
    by (auto simp: TARGET_def head_and_rest_def good_middle_def split: list.splits)
qed

lemma parse_command:
  assumes "good_middle t" "upper (lit ''PRIVMSG'') = lit ''PRIVMSG''"
  shows "parseIrcLine upper (command_head t @ b) =
    Some \<lparr>il_tags = Map.empty, il_prefix = None, il_command = lit ''PRIVMSG'', il_params = [t, b]\<rparr>"
proof -
  have cmd: "32 \<notin> set (lit ''PRIVMSG'')" by simp
  have "splitCommand upper (lit ''PRIVMSG'' @ 32 # render_middles [t] @ 58 # b) = (upper (lit ''PRIVMSG''), [t] @ [b])"
    by (rule split_command_render [OF cmd]) (simp add: assms(1))
  moreover have "command_head t @ b = lit ''PRIVMSG'' @ 32 # render_middles [t] @ 58 # b"
    by (simp add: command_head_def render_middles_def)
  ultimately show ?thesis using assms(2) by (simp add: parseIrcLine_def parse_source_def)
qed

lemma sendMessage_writes:
  assumes "sendMessage stringify connected out = WritePayload payload"
  shows "connected" "TARGET (ch_id (out_channel out))" "\<not> hasControlByte (ch_id (out_channel out))"
    "\<exists>bodies. bodies \<noteq> [] \<and> splitForIrc (textFor out) (ch_id (out_channel out)) 100 = Inr bodies \<and>
       payload = concat (map (irc_line_of (ch_id (out_channel out))) bodies)"
  using assms
  by (auto simp: sendMessage_def Let_def irc_limits split: if_splits sum.splits list.splits)

section \<open>The connection's invariant\<close>

definition alive :: "irc_conn \<Rightarrow> nat \<Rightarrow> bool \<Rightarrow> bool" where
  "alive s k settled \<longleftrightarrow>
     (\<exists>ses. ic_sessions s k = Some ses \<and> ss_settled ses = settled \<and> \<not> ss_destroyed ses)"

definition conn_inv :: "irc_conn \<Rightarrow> bool" where
  "conn_inv s \<longleftrightarrow>
     (ic_connected s \<longrightarrow> (\<exists>k. ic_socket s = Some k \<and> alive s k True \<and> (k, True) \<in> set (ic_answers s))) \<and>
     (\<forall>k. ic_connecting s = Some k \<longrightarrow> ic_socket s = Some k \<and> alive s k False \<and> \<not> ic_connected s) \<and>
     (\<forall>k ses. ic_sessions s k = Some ses \<longrightarrow> k < ic_next s \<and> (ss_settled ses \<longleftrightarrow> k \<in> fst ` set (ic_answers s))) \<and>
     (\<forall>k \<in> fst ` set (ic_answers s). ic_sessions s k \<noteq> None) \<and>
     distinct (map fst (ic_answers s))"

lemma conn_inv_other [simp]:
  "conn_inv (write_lines k ls s) = conn_inv s"
  "conn_inv (s\<lparr>ic_nick := n\<rparr>) = conn_inv s"
  "conn_inv (s\<lparr>ic_received := m\<rparr>) = conn_inv s"
  "conn_inv (s\<lparr>ic_delivered := ds\<rparr>) = conn_inv s"
  by (simp_all add: conn_inv_def alive_def write_lines_def)

lemma conn_inv_fresh: "conn_inv (irc_fresh opts)"
  by (simp add: conn_inv_def irc_fresh_def)

text \<open>A session that keeps its flags keeps the invariant.\<close>

lemma conn_inv_registration:
  assumes "conn_inv s" "ic_sessions s k = Some ses"
  shows "conn_inv (s\<lparr>ic_sessions := (ic_sessions s)(k \<mapsto> ses\<lparr>ss_registration := r\<rparr>)\<rparr>)"
proof -
  have "alive (s\<lparr>ic_sessions := (ic_sessions s)(k \<mapsto> ses\<lparr>ss_registration := r\<rparr>)\<rparr>) j b = alive s j b" for j b
    using assms(2) by (auto simp: alive_def)
  then show ?thesis using assms by (auto simp: conn_inv_def)
qed

lemma conn_inv_finish:
  assumes inv: "conn_inv s" and ses: "ic_sessions s k = Some ses" "\<not> ss_settled ses" and ok: "ok \<longrightarrow> \<not> ss_destroyed ses"
  shows "conn_inv (finishConnect k ses ok s)"
proof -
  have new: "k \<notin> fst ` set (ic_answers s)" "k < ic_next s" using inv ses by (auto simp: conn_inv_def)
  have sock: "ic_socket s = Some k \<Longrightarrow> \<not> ic_connected s" using inv ses by (auto simp: conn_inv_def alive_def)
  have alive': "alive (finishConnect k ses ok s) j b = alive s j b" if "j \<noteq> k" for j b
    using that by (simp add: alive_def finishConnect_def Let_def)
  have connecting: "ic_socket s = Some j \<and> alive s j False \<and> \<not> ic_connected s" if "ic_connecting s = Some j" for j
    using inv that by (simp add: conn_inv_def)
  have sessions: "j < ic_next s \<and> (ss_settled x \<longleftrightarrow> j \<in> fst ` set (ic_answers s))" if "ic_sessions s j = Some x" for j x
    using inv that unfolding conn_inv_def by blast
  let ?t = "finishConnect k ses ok s"
  have "ic_connected ?t \<longrightarrow> (\<exists>j. ic_socket ?t = Some j \<and> alive ?t j True \<and> (j, True) \<in> set (ic_answers ?t))"
  proof (cases "ok \<and> ic_socket s = Some k")
    case True
    then show ?thesis using ok by (simp add: finishConnect_def Let_def alive_def)
  next
    case False
    show ?thesis
    proof
      assume "ic_connected ?t"
      then have "ic_connected s" using False by (simp add: finishConnect_def Let_def split: if_splits)
      then obtain j where j: "ic_socket s = Some j" "alive s j True" "(j, True) \<in> set (ic_answers s)" "j \<noteq> k"
        using inv sock unfolding conn_inv_def by blast
      then have "ic_socket ?t = Some j" "(j, True) \<in> set (ic_answers ?t)"
        using False by (simp_all add: finishConnect_def Let_def)
      then show "\<exists>j. ic_socket ?t = Some j \<and> alive ?t j True \<and> (j, True) \<in> set (ic_answers ?t)"
        using alive' [OF j(4)] j(2) by blast
    qed
  qed
  moreover have "ic_socket ?t = Some j \<and> alive ?t j False \<and> \<not> ic_connected ?t" if "ic_connecting ?t = Some j" for j
  proof -
    have "j \<noteq> k" "ic_connecting s = Some j"
      using that by (auto simp: finishConnect_def Let_def split: if_splits)
    then show ?thesis using connecting [of j] alive' [of j False]
      by (simp add: finishConnect_def Let_def)
  qed
  moreover have "j < ic_next ?t \<and> (ss_settled x \<longleftrightarrow> j \<in> fst ` set (ic_answers ?t))" if "ic_sessions ?t j = Some x" for j x
    using that sessions [of j x] new by (cases "j = k") (auto simp: finishConnect_def Let_def split: if_splits)
  moreover have "\<forall>j \<in> fst ` set (ic_answers ?t). ic_sessions ?t j \<noteq> None"
    using inv by (auto simp: conn_inv_def finishConnect_def Let_def)
  moreover have "distinct (map fst (ic_answers ?t))"
    using inv new by (simp add: conn_inv_def finishConnect_def Let_def)
  ultimately show ?thesis unfolding conn_inv_def by blast
qed

lemma conn_inv_settle:
  assumes "conn_inv s" "ok \<longrightarrow> (\<forall>ses. ic_sessions s k = Some ses \<longrightarrow> \<not> ss_destroyed ses)"
  shows "conn_inv (settle k ok s)"
  using assms by (auto simp: settle_def intro: conn_inv_finish split: option.splits)

lemma conn_inv_connect:
  assumes "conn_inv s" shows "conn_inv (irc_connect lower opts opened s)"
proof (cases "ic_connected s \<or> ic_connecting s \<noteq> None \<or> \<not> opened")
  case False
  have none: "ic_sessions s (ic_next s) = None"
  proof (cases "ic_sessions s (ic_next s)")
    case (Some ses)
    then have "ic_next s < ic_next s" using assms unfolding conn_inv_def by blast
    then show ?thesis by simp
  qed
  moreover have "ic_next s \<notin> fst ` set (ic_answers s)"
    using assms none unfolding conn_inv_def by blast
  ultimately show ?thesis using assms False
    by (auto simp: irc_connect_def conn_inv_def alive_def write_lines_def Let_def less_Suc_eq)
qed (auto simp: irc_connect_def assms)

lemma conn_inv_disconnect: "conn_inv s \<Longrightarrow> conn_inv (irc_disconnect s)"
proof -
  assume "conn_inv s"
  then have "conn_inv (s\<lparr>ic_socket := None, ic_connected := False, ic_connecting := None\<rparr>)"
    by (simp add: conn_inv_def)
  then show ?thesis by (simp add: irc_disconnect_def Let_def split: option.splits)
qed

lemma conn_inv_close: "conn_inv s \<Longrightarrow> conn_inv (onClose k s)"
proof -
  assume inv: "conn_inv s"
  have "conn_inv (s\<lparr>ic_socket := None, ic_connected := False\<rparr>)"
    if "ic_socket s = Some k" "ic_sessions s k = Some ses" "ss_settled ses" for ses
  proof -
    have "ic_connecting s = None"
    proof (cases "ic_connecting s")
      case (Some j)
      then have "ic_socket s = Some j" "alive s j False" using inv by (simp_all add: conn_inv_def)
      then show ?thesis using that by (simp add: alive_def)
    qed
    then show ?thesis using inv by (simp add: conn_inv_def alive_def)
  qed
  then show ?thesis using inv conn_inv_settle [OF inv, of False]
    by (auto simp: onClose_def split: option.splits)
qed

lemma conn_inv_destroy:
  assumes "conn_inv s" "ic_socket s \<noteq> Some k" shows "conn_inv (destroy k s)"
proof (cases "ic_sessions s k")
  case (Some ses)
  then show ?thesis using assms
    by (auto simp: conn_inv_def destroy_def alive_def)
qed (simp add: destroy_def assms)

lemma conn_inv_ready: "conn_inv s \<Longrightarrow> conn_inv (onLine_ready lower k line raw now s)"
  by (simp add: onLine_ready_def Let_def split: option.splits)

lemma conn_inv_raw:
  assumes inv: "conn_inv s" shows "conn_inv (onRaw upper lower opts k raw now s)"
proof (cases "ic_sessions s k"; cases "parseIrcLine upper raw")
  fix ses line assume ses: "ic_sessions s k = Some ses" and line: "parseIrcLine upper raw = Some line"
  obtain r written out where o: "onLine lower (registrationOptions opts) line (ss_registration ses) = (r, written, out)"
    by (metis prod_cases3)
  define s1 where "s1 = write_lines k written (s\<lparr>ic_sessions := (ic_sessions s)(k \<mapsto> ses\<lparr>ss_registration := r\<rparr>)\<rparr>)"
  have "conn_inv s1" unfolding s1_def by (simp add: conn_inv_registration [OF inv ses])
  moreover have "ic_sessions s1 k = Some (ses\<lparr>ss_registration := r\<rparr>)" by (simp add: s1_def write_lines_def)
  ultimately have "\<not> ss_destroyed ses \<Longrightarrow> conn_inv (settle k ok s1)" for ok by (intro conn_inv_settle) auto
  then show ?thesis
    using inv conn_inv_ready [OF inv] \<open>conn_inv s1\<close>
    by (auto simp: onRaw_def ses line o s1_def [symmetric] Let_def split: option.splits registration_outcome.splits)
qed (simp_all add: onRaw_def inv)

lemma conn_inv_step: "conn_inv s \<Longrightarrow> conn_inv (irc_step upper lower opts e s)"
  by (cases e) (simp_all add: irc_step_def conn_inv_connect conn_inv_raw conn_inv_settle conn_inv_close
      conn_inv_disconnect conn_inv_destroy)

lemma conn_inv_run: "conn_inv (irc_run upper lower opts es)"
  unfolding irc_run_def by (induction es rule: rev_induct) (simp_all add: conn_inv_fresh conn_inv_step)

section \<open>Properties\<close>

text \<open>
  No option carries a second command: with options that passed the check, every line the adapter
  writes during a handshake, whatever the server says, is a single command line.
\<close>
theorem handshake_writes_single_commands:
  assumes "validateOptions opts = None" "list_all units_ok (options_units opts)"
    and "handshake lower (registrationOptions opts) ls = (r, written, out)"
  shows "\<forall>x \<in> set written. one_line x"
proof -
  let ?o = "registrationOptions opts"
  have o: "one_line_options ?o" by (rule validated_one_line [OF assms(1,2)])
  obtain w where w: "run_handshake lower ?o ls (newRegistration lower ?o) = (r, w, out)"
    "written = reg_start ?o (newRegistration lower ?o) @ w"
    using assms(3) by (auto simp: handshake_def Let_def split: prod.splits)
  have "\<forall>x \<in> set (reg_start ?o (newRegistration lower ?o)). one_line x"
    using o by (auto simp: reg_start_def newRegistration_def one_line_options_def split: option.splits)
  then show ?thesis using handshake_written [OF o reg_inv_new w(1)] w(2) by auto
qed

text \<open>
  A send is what it says: when \<open>sendMessage\<close> writes, the connection is up and the payload is a
  sequence of command lines, each free of line breaks before its CRLF, within 412 bytes, and read by
  any IRC parser as one \<open>PRIVMSG\<close> to the target with that body; the bodies spell the text.
\<close>
theorem send_writes_privmsgs:
  assumes "sendMessage stringify connected out = WritePayload payload"
    and "upper (lit ''PRIVMSG'') = lit ''PRIVMSG''"
  shows "connected \<and> (\<exists>bodies. bodies \<noteq> [] \<and>
     payload = concat (map (\<lambda>b. command_head (ch_id (out_channel out)) @ b @ [13, 10]) bodies) \<and>
     concat bodies = filter irc_sendable (textFor out) \<and>
     (\<forall>b \<in> set bodies. (\<forall>c \<in> set (command_head (ch_id (out_channel out)) @ b). c \<noteq> 0 \<and> c \<noteq> 10 \<and> c \<noteq> 13) \<and>
        byteLength (command_head (ch_id (out_channel out)) @ b @ [13, 10]) \<le> 412 \<and>
        parseIrcLine upper (command_head (ch_id (out_channel out)) @ b) =
          Some \<lparr>il_tags = Map.empty, il_prefix = None, il_command = lit ''PRIVMSG'', il_params = [ch_id (out_channel out), b]\<rparr>))"
proof -
  let ?t = "ch_id (out_channel out)"
  note w = sendMessage_writes [OF assms(1)]
  obtain bodies where b: "bodies \<noteq> []" "splitForIrc (textFor out) ?t 100 = Inr bodies"
    "payload = concat (map (irc_line_of ?t) bodies)" using w(4) by blast
  note fits = splitForIrc_fits [OF b(2)]
  have head: "\<forall>c \<in> set (command_head ?t). c \<noteq> 0 \<and> c \<noteq> 10 \<and> c \<noteq> 13"
    using TARGET_facts(2) [OF w(2,3)] by (auto simp: command_head_def)
  have "(\<forall>c \<in> set (command_head ?t @ x). c \<noteq> 0 \<and> c \<noteq> 10 \<and> c \<noteq> 13) \<and>
      byteLength (command_head ?t @ x @ [13, 10]) \<le> 412" if "x \<in> set bodies" for x
    using head fits that by (auto simp: irc_line_of_def irc_sendable_def is_break_def)
  then show ?thesis
    using w(1) b(1,3) fits parse_command [OF TARGET_facts(1) [OF w(2,3)], of upper, OF assms(2)]
    by (intro conjI exI [of _ bodies]) (auto simp: irc_line_of_def [abs_def])
qed

text \<open>
  One connection at a time: over any interleaving of calls, socket callbacks and deadlines, every
  attempt is answered at most once; the adapter is connected only over a socket whose attempt was
  answered \<open>true\<close> and that is not destroyed; and no attempt is in flight meanwhile.
\<close>
theorem connection_is_exclusive:
  assumes "s = irc_run upper lower opts es"
  shows "distinct (map fst (ic_answers s)) \<and>
     (ic_connected s \<longrightarrow> ic_connecting s = None \<and>
        (\<exists>k. ic_socket s = Some k \<and> alive s k True \<and> (k, True) \<in> set (ic_answers s)))"
  using conn_inv_run [of upper lower opts es] unfolding assms [symmetric] conn_inv_def
  by (metis not_None_eq)

section \<open>Concrete runs\<close>

definition ana_adapter :: irc_options where
  "ana_adapter = \<lparr>io_host = lit ''irc.example'', io_nick = lit ''ana'', io_username = None,
     io_realname = None, io_password = None, io_saslAccount = None, io_saslPassword = None, io_channels = []\<rparr>"

definition ana_up :: "irc_call list" where
  "ana_up = [Connect True, Raw 0 (lit '':srv 001 ana :hi'') 0]"

theorem handshake_writes_single_commands_witness:
  "validateOptions ana_adapter = None \<and>
   list_all one_line (fst (snd (handshake id (registrationOptions ana_adapter) ana_lines)))"
proof -
  have v: "validateOptions ana_adapter = None" by code_simp
  have u: "list_all units_ok (options_units ana_adapter)" by code_simp
  obtain r w out where h: "handshake id (registrationOptions ana_adapter) ana_lines = (r, w, out)"
    by (metis prod_cases3)
  from handshake_writes_single_commands [OF v u h] show ?thesis using v h by (simp add: list_all_iff)
qed

definition hello :: outbound where
  "hello = \<lparr>out_channel = \<lparr>ch_id = lit ''#x'', ch_type = Group, ch_topicId = None\<rparr>, out_text = lit ''hi'',
     out_format = None, out_replyTo = None\<rparr>"

lemma hello_payload:
  "sendMessage id True hello = WritePayload (lit ''PRIVMSG #x :hi'' @ [13, 10])"
  by code_simp

theorem send_writes_privmsgs_witness:
  "\<exists>bodies. bodies \<noteq> [] \<and> concat bodies = filter irc_sendable (textFor hello) \<and>
     (\<forall>b \<in> set bodies. parseIrcLine id (command_head (lit ''#x'') @ b) =
        Some \<lparr>il_tags = Map.empty, il_prefix = None, il_command = lit ''PRIVMSG'', il_params = [lit ''#x'', b]\<rparr>)"
proof -
  have t: "ch_id (out_channel hello) = lit ''#x''" by (simp add: hello_def)
  from send_writes_privmsgs [OF hello_payload, of id, OF id_apply, unfolded t] show ?thesis by blast
qed

theorem connection_is_exclusive_witness:
  "let s = irc_run id id ana_adapter ana_up in distinct (map fst (ic_answers s)) \<and> ic_connected s \<and> ic_connecting s = None"
proof -
  define s where "s = irc_run id id ana_adapter ana_up"
  have "ic_connected s" unfolding s_def by code_simp
  with connection_is_exclusive [OF s_def] show ?thesis by (simp add: Let_def s_def)
qed

text \<open>
  A socket that was given up still speaks: \<open>onRaw\<close> does not check that the socket is the adapter's,
  so a message that arrives on it after \<open>disconnect()\<close> is delivered to the handler.
\<close>
theorem disconnected_socket_still_delivers:
  "let s = irc_run id id ana_adapter (ana_up @ [Disconnect, Raw 0 (lit '':bob!u@h PRIVMSG ana :psst'') 1]) in
   ic_socket s = None \<and> \<not> ic_connected s \<and> map (\<lambda>d. ev_text (snd d)) (ic_delivered s) = [lit ''psst'']"
  by code_simp

end
