(* ===== verification/Stores.thy ===== *)
theory Stores
  imports JsMap JsString
begin

text \<open>
  The bounded in-memory stores of the adapters, over JavaScript's insertion-ordered maps: LINE's reply
  tokens (\<open>gateway-line/src/reply-cache.ts\<close>), the e-mail adapter's dispatched UIDs
  (\<open>gateway-email/src/seen-uids.ts\<close>) and its threading contexts (\<open>gateway-email/src/thread-store.ts\<close>). The
  clock is an argument.
\<close>

section \<open>Reply tokens\<close>

record token_entry =
  te_token :: js
  te_expiresAt :: int

record reply_cache =
  rc_cache :: "(js, token_entry) jsmap"
  rc_ttlMs :: int
  rc_capacity :: nat

definition newReplyTokenCache :: "int option \<Rightarrow> nat option \<Rightarrow> reply_cache" where
  "newReplyTokenCache ttlMs capacity =
     \<lparr>rc_cache = [], rc_ttlMs = (case ttlMs of None \<Rightarrow> 60000 | Some t \<Rightarrow> t),
      rc_capacity = (case capacity of None \<Rightarrow> 1000 | Some c \<Rightarrow> c)\<rparr>"

definition evictOldest :: "('k, 'v) jsmap \<Rightarrow> ('k, 'v) jsmap" where
  "evictOldest m = (case jm_keys m of [] \<Rightarrow> m | k # _ \<Rightarrow> jm_delete k m)"

definition token_put :: "js \<Rightarrow> js \<Rightarrow> int \<Rightarrow> reply_cache \<Rightarrow> reply_cache" where
  "token_put userId token now c =
     c\<lparr>rc_cache := jm_set userId \<lparr>te_token = token, te_expiresAt = now + rc_ttlMs c\<rparr>
          (if rc_capacity c \<le> length (rc_cache c) then evictOldest (rc_cache c) else rc_cache c)\<rparr>"

definition token_take :: "js \<Rightarrow> int \<Rightarrow> reply_cache \<Rightarrow> js option \<times> reply_cache" where
  "token_take userId now c =
     (case jm_get (rc_cache c) userId of
        None \<Rightarrow> (None, c)
      | Some entry \<Rightarrow>
          (if te_expiresAt entry \<le> now then None else Some (te_token entry),
           c\<lparr>rc_cache := jm_delete userId (rc_cache c)\<rparr>))"

definition token_clear :: "reply_cache \<Rightarrow> reply_cache" where
  "token_clear c = c\<lparr>rc_cache := []\<rparr>"

section \<open>Seen UIDs\<close>

type_synonym uid_set = "(int, unit) jsmap"

definition SEEN_MAX_SIZE :: nat where "SEEN_MAX_SIZE = 5000"
definition SEEN_TRIM_TO :: nat where "SEEN_TRIM_TO = 4000"

definition uid_has :: "int \<Rightarrow> uid_set \<Rightarrow> bool" where
  "uid_has uid m \<longleftrightarrow> jm_get m uid \<noteq> None"

text \<open>The loop deletes the first \<open>toDrop\<close> keys in insertion order.\<close>

definition uid_trim :: "uid_set \<Rightarrow> uid_set" where
  "uid_trim m =
     (if length m \<le> SEEN_TRIM_TO then m
      else foldl (\<lambda>s k. jm_delete k s) m (take (length m - SEEN_TRIM_TO) (jm_keys m)))"

definition uid_clear :: "uid_set \<Rightarrow> uid_set" where
  "uid_clear m = []"

definition uid_add :: "int \<Rightarrow> uid_set \<Rightarrow> uid_set" where
  "uid_add uid m = jm_set uid () (if SEEN_MAX_SIZE \<le> length m then uid_trim m else m)"

section \<open>Threads\<close>

record thread_context =
  tc_subject :: js
  tc_references :: "js list"
  tc_lastMessageId :: js

record email_fields =
  em_messageId :: js
  em_subject :: js
  em_references :: "js list option"

definition THREADS_MAX_SIZE :: nat where "THREADS_MAX_SIZE = 1000"

definition recordFromInbound :: "email_fields \<Rightarrow> (js, thread_context) jsmap \<Rightarrow> (js, thread_context) jsmap" where
  "recordFromInbound email m =
     (let ctx = \<lparr>tc_subject = em_subject email,
                 tc_references = (case em_references email of None \<Rightarrow> [] | Some rs \<Rightarrow> rs),
                 tc_lastMessageId = em_messageId email\<rparr>;
          m1 = (if THREADS_MAX_SIZE \<le> length m \<and> jm_get m (em_messageId email) = None
                then evictOldest m else m)
      in jm_set (em_messageId email) ctx (jm_delete (em_messageId email) m1))"

definition thread_clear :: "(js, thread_context) jsmap \<Rightarrow> (js, thread_context) jsmap" where
  "thread_clear m = []"

definition thread_lookup :: "js \<Rightarrow> (js, thread_context) jsmap \<Rightarrow> thread_context option" where
  "thread_lookup topicId m = jm_get m topicId"

section \<open>Eviction\<close>

lemma evictOldest_inv: "jm_inv m \<Longrightarrow> jm_inv (evictOldest m)"
  by (auto simp: evictOldest_def map_facts split: list.splits)

lemma evictOldest_keys: "jm_inv m \<Longrightarrow> jm_keys (evictOldest m) = tl (jm_keys m)"
  by (auto simp: evictOldest_def jm.del_oldest split: list.splits)

lemma evictOldest_length: "jm_inv m \<Longrightarrow> length (evictOldest m) = length m - 1"
  by (metis evictOldest_keys length_jm_keys length_tl)

lemma evictOldest_get: "jm_inv m \<Longrightarrow> jm_get (evictOldest m) k = Some v \<Longrightarrow> jm_get m k = Some v"
  by (auto simp: evictOldest_def map_facts split: list.splits if_splits)

lemma jm_set_length: "jm_inv m \<Longrightarrow> length (jm_set k v m) \<le> Suc (length m)"
  using jm.size_put [of m k v] by simp

section \<open>Token histories\<close>

datatype token_op = Put js js int | Take js int

fun about :: "token_op \<Rightarrow> js" where
  "about (Put u t n) = u"
| "about (Take u n) = u"

definition token_step :: "token_op \<Rightarrow> reply_cache \<Rightarrow> reply_cache" where
  "token_step op c = (case op of Put u t n \<Rightarrow> token_put u t n c | Take u n \<Rightarrow> snd (token_take u n c))"

definition token_run :: "reply_cache \<Rightarrow> token_op list \<Rightarrow> reply_cache" where
  "token_run c ops = foldl (\<lambda>c op. token_step op c) c ops"

definition last_about :: "js \<Rightarrow> token_op list \<Rightarrow> token_op option" where
  "last_about u ops = find (\<lambda>op. about op = u) (rev ops)"

lemma last_about_snoc [simp]: "last_about u (ops @ [op]) = (if about op = u then Some op else last_about u ops)"
  by (simp add: last_about_def)

definition token_inv :: "int \<Rightarrow> nat \<Rightarrow> token_op list \<Rightarrow> reply_cache \<Rightarrow> bool" where
  "token_inv ttl cap ops c \<longleftrightarrow> jm_inv (rc_cache c) \<and> rc_ttlMs c = ttl \<and> rc_capacity c = cap \<and>
     (0 < cap \<longrightarrow> length (rc_cache c) \<le> cap) \<and>
     (\<forall>u e. jm_get (rc_cache c) u = Some e \<longrightarrow>
        last_about u ops = Some (Put u (te_token e) (te_expiresAt e - ttl)))"

lemma token_inv_put:
  assumes inv: "token_inv ttl cap ops c"
  shows "token_inv ttl cap (ops @ [Put u t n]) (token_put u t n c)"
proof -
  define m where "m = (if rc_capacity c \<le> length (rc_cache c) then evictOldest (rc_cache c) else rc_cache c)"
  have m: "jm_inv m" using inv by (simp add: m_def token_inv_def evictOldest_inv)
  have get: "jm_get m k = Some e \<Longrightarrow> jm_get (rc_cache c) k = Some e" for k e
    using inv by (auto simp: m_def token_inv_def evictOldest_get split: if_splits)
  have "0 < cap \<longrightarrow> length m < cap"
    using inv by (auto simp: m_def token_inv_def evictOldest_length)
  then have len: "0 < cap \<longrightarrow> length (jm_set u v m) \<le> cap" for v
    using jm_set_length [OF m, of u v] by linarith
  have put: "token_put u t n c = c\<lparr>rc_cache := jm_set u \<lparr>te_token = t, te_expiresAt = n + ttl\<rparr> m\<rparr>"
    using inv by (simp add: token_put_def m_def token_inv_def)
  show ?thesis using inv len m get
    by (auto simp: put token_inv_def jm.get_put [OF m] jm.inv_put [OF m] split: if_splits)
qed

lemma token_inv_take:
  assumes inv: "token_inv ttl cap ops c"
  shows "token_inv ttl cap (ops @ [Take u n]) (snd (token_take u n c))"
proof (cases "jm_get (rc_cache c) u")
  case None
  then show ?thesis using inv by (auto simp: token_take_def token_inv_def)
next
  case (Some e)
  have m: "jm_inv (rc_cache c)" using inv by (simp add: token_inv_def)
  have "length (jm_delete u (rc_cache c)) \<le> length (rc_cache c)"
    using jm.size_del [OF m, of u] by simp
  then show ?thesis using inv Some
    by (auto simp: token_take_def token_inv_def jm.get_del [OF m] jm.inv_del [OF m] split: if_splits)
qed

lemma token_inv_run:
  "token_inv ttl cap ops (token_run (newReplyTokenCache (Some ttl) (Some cap)) ops)"
proof (induction ops rule: rev_induct)
  case Nil
  show ?case by (simp add: token_run_def token_inv_def newReplyTokenCache_def)
next
  case (snoc op ops)
  then show ?case
    by (cases op) (simp_all add: token_run_def token_step_def token_inv_put token_inv_take)
qed

section \<open>UID histories\<close>

lemma foldl_delete_prefix:
  "jm_inv m \<Longrightarrow> jm_inv (foldl (\<lambda>s k. jm_delete k s) m (take n (jm_keys m))) \<and>
     jm_keys (foldl (\<lambda>s k. jm_delete k s) m (take n (jm_keys m))) = drop n (jm_keys m)"
proof (induction n arbitrary: m)
  case (Suc n)
  show ?case
  proof (cases "jm_keys m")
    case (Cons k ks)
    have "jm_keys (jm_delete k m) = ks" "jm_inv (jm_delete k m)"
      using jm.del_oldest [OF Suc.prems Cons] jm.inv_del [OF Suc.prems] by auto
    then show ?thesis using Suc.IH [of "jm_delete k m"] Cons by simp
  qed (use Suc in simp)
qed simp

lemma uid_trim_keys: "jm_inv m \<Longrightarrow> jm_inv (uid_trim m) \<and> jm_keys (uid_trim m) = drop (length m - SEEN_TRIM_TO) (jm_keys m)"
  using foldl_delete_prefix [of m "length m - SEEN_TRIM_TO"] by (simp add: uid_trim_def)

lemma uid_add_new:
  assumes "jm_inv m" "jm_keys m = drop n us" "length m \<le> SEEN_MAX_SIZE" "uid \<notin> set us"
    "min (length us) SEEN_TRIM_TO \<le> length m" "n \<le> length us"
  shows "\<exists>n'. n' \<le> Suc (length us) \<and> jm_inv (uid_add uid m) \<and> jm_keys (uid_add uid m) = drop n' (us @ [uid]) \<and>
     length (uid_add uid m) \<le> SEEN_MAX_SIZE \<and> min (Suc (length us)) SEEN_TRIM_TO \<le> length (uid_add uid m)"
proof -
  define m1 where "m1 = (if SEEN_MAX_SIZE \<le> length m then uid_trim m else m)"
  define k where "k = (if SEEN_MAX_SIZE \<le> length m then length m - SEEN_TRIM_TO else 0)"
  have m1: "jm_inv m1" "jm_keys m1 = drop (n + k) us"
    using assms(1,2) uid_trim_keys [OF assms(1)] by (auto simp: m1_def k_def add.commute)
  have len: "length m = length us - n" using assms(2) by (metis length_drop length_jm_keys)
  have nk: "n + k \<le> length us" using len assms(6) by (auto simp: k_def)
  have "uid \<notin> set (jm_keys m1)" using m1(2) assms(4) by (auto dest: in_set_dropD)
  then have keys: "jm_keys (uid_add uid m) = drop (n + k) (us @ [uid])"
    using m1 nk by (simp add: uid_add_def m1_def [symmetric] jm.ks_put)
  then have "length (uid_add uid m) = Suc (length us) - (n + k)"
    using nk by (metis length_append_singleton length_drop length_jm_keys)
  moreover have "jm_inv (uid_add uid m)"
    using jm.inv_put [OF m1(1)] by (simp add: uid_add_def m1_def [symmetric])
  ultimately show ?thesis using keys nk len assms(3,5)
    by (intro exI [of _ "n + k"])
      (auto simp: k_def SEEN_MAX_SIZE_def SEEN_TRIM_TO_def split: if_splits)
qed

lemma uid_run:
  "distinct us \<Longrightarrow> \<exists>n \<le> length us. jm_inv (foldl (\<lambda>s u. uid_add u s) [] us) \<and>
     jm_keys (foldl (\<lambda>s u. uid_add u s) [] us) = drop n us \<and>
     length (foldl (\<lambda>s u. uid_add u s) [] us) \<le> SEEN_MAX_SIZE \<and>
     min (length us) SEEN_TRIM_TO \<le> length (foldl (\<lambda>s u. uid_add u s) [] us)"
proof (induction us rule: rev_induct)
  case (snoc u us)
  then obtain n where n: "n \<le> length us" "jm_inv (foldl (\<lambda>s u. uid_add u s) [] us)"
     "jm_keys (foldl (\<lambda>s u. uid_add u s) [] us) = drop n us"
     "length (foldl (\<lambda>s u. uid_add u s) [] us) \<le> SEEN_MAX_SIZE"
     "min (length us) SEEN_TRIM_TO \<le> length (foldl (\<lambda>s u. uid_add u s) [] us)" by auto
  from uid_add_new [OF n(2,3,4) _ n(5,1), of u] snoc.prems show ?case by auto
qed simp

section \<open>Thread store\<close>

lemma record_bounded:
  assumes "jm_inv m" "length m \<le> THREADS_MAX_SIZE"
  shows "jm_inv (recordFromInbound e m)" "length (recordFromInbound e m) \<le> THREADS_MAX_SIZE"
    "thread_lookup (em_messageId e) (recordFromInbound e m) \<noteq> None"
proof -
  let ?k = "em_messageId e"
  define m1 where "m1 = (if THREADS_MAX_SIZE \<le> length m \<and> jm_get m ?k = None then evictOldest m else m)"
  have m1: "jm_inv m1" using assms(1) by (simp add: m1_def evictOldest_inv)
  note d = jm.inv_del [OF m1, of ?k]
  show "jm_inv (recordFromInbound e m)"
    using d by (simp add: recordFromInbound_def Let_def m1_def [symmetric] map_facts)
  show "thread_lookup ?k (recordFromInbound e m) \<noteq> None"
    using d by (simp add: recordFromInbound_def Let_def m1_def [symmetric] thread_lookup_def map_facts)
  have "length (jm_delete ?k m1) < THREADS_MAX_SIZE"
  proof (cases "jm_get m ?k = None")
    case True
    then have "length m1 < THREADS_MAX_SIZE"
      using assms by (auto simp: m1_def evictOldest_length THREADS_MAX_SIZE_def)
    then show ?thesis using jm.size_del [OF m1, of ?k] by simp
  next
    case False
    then have "?k \<in> set (jm_keys m1)" using jm.ks_dom [OF assms(1)] by (auto simp: m1_def)
    then have "Suc (length (jm_delete ?k m1)) = length m1"
      using jm.size_del_present [OF m1, of ?k] by simp
    moreover have "m1 = m" using False unfolding m1_def by (simp only: HOL.simp_thms if_False)
    ultimately show ?thesis using assms(2) by simp
  qed
  then show "length (recordFromInbound e m) \<le> THREADS_MAX_SIZE"
    using jm_set_length [OF d, of ?k]
    by (fastforce simp: recordFromInbound_def Let_def m1_def [symmetric] intro: order_trans)
qed

section \<open>Properties\<close>

text \<open>
  A reply token is spent once and in time: whatever was stored and taken before, a token comes
  out only if the last thing that happened to its user was the \<open>put\<close> of that token, less than the
  time to live ago; and the cache never holds more than its capacity.
\<close>
theorem reply_token_is_fresh_and_single_use:
  assumes "c = token_run (newReplyTokenCache (Some ttl) (Some cap)) ops"
    and "token_take u now c = (Some t, c')" "0 < cap"
  shows "(\<exists>m. last_about u ops = Some (Put u t m) \<and> now < m + ttl) \<and>
     fst (token_take u later c') = None \<and> length (rc_cache c) \<le> cap"
proof -
  have inv: "token_inv ttl cap ops c" using token_inv_run assms(1) by simp
  then have m: "jm_inv (rc_cache c)" by (simp add: token_inv_def)
  obtain e where e: "jm_get (rc_cache c) u = Some e" "now < te_expiresAt e" "t = te_token e"
    "c' = c\<lparr>rc_cache := jm_delete u (rc_cache c)\<rparr>"
    using assms(2) by (auto simp: token_take_def split: option.splits if_splits)
  have "last_about u ops = Some (Put u t (te_expiresAt e - ttl))" using inv e by (simp add: token_inv_def)
  moreover have "fst (token_take u later c') = None" using e by (simp add: token_take_def jm.get_del [OF m])
  ultimately show ?thesis using e(2) inv assms(3) by (auto simp: token_inv_def)
qed

theorem reply_token_is_fresh_and_single_use_witness:
  "\<exists>m. last_about (lit ''u'') [Put (lit ''u'') (lit ''tok'') 5] = Some (Put (lit ''u'') (lit ''tok'') m) \<and> 9 < m + 60000"
proof -
  have run: "token_run (newReplyTokenCache (Some 60000) (Some 1000)) [Put (lit ''u'') (lit ''tok'') 5] =
      \<lparr>rc_cache = [(lit ''u'', \<lparr>te_token = lit ''tok'', te_expiresAt = 60005\<rparr>)], rc_ttlMs = 60000, rc_capacity = 1000\<rparr>"
    by (simp add: token_run_def newReplyTokenCache_def token_step_def token_put_def jm_set_def)
  have take: "token_take (lit ''u'') 9 (token_run (newReplyTokenCache (Some 60000) (Some 1000)) [Put (lit ''u'') (lit ''tok'') 5]) =
      (Some (lit ''tok''), \<lparr>rc_cache = [], rc_ttlMs = 60000, rc_capacity = 1000\<rparr>)"
    unfolding run by (simp add: token_take_def jm_get_def jm_delete_def)
  from reply_token_is_fresh_and_single_use [OF refl take, of 10] show ?thesis by simp
qed

text \<open>
  The record of dispatched UIDs is bounded and recent: after adding new UIDs one by one it holds
  the last ones, in order, at least the last 4000 of them and never more than 5000.
\<close>
theorem seen_uids_keep_the_recent:
  assumes "distinct uids"
  shows "let s = foldl (\<lambda>s u. uid_add u s) [] uids in
     \<exists>n. jm_keys s = drop n uids \<and> length s \<le> 5000 \<and> min (length uids) 4000 \<le> length s"
  using uid_run [OF assms] by (auto simp: Let_def SEEN_MAX_SIZE_def SEEN_TRIM_TO_def)

theorem seen_uids_keep_the_recent_witness:
  "\<exists>n. jm_keys (foldl (\<lambda>s u. uid_add u s) [] [7, 8, 9]) = drop n [7, 8, 9]"
  using seen_uids_keep_the_recent [of "[7, 8, 9]"] by (auto simp: Let_def)

end
