(* ===== verification/Json.thy ===== *)
theory Json
  imports Effects Complex_Main
begin

text \<open>
  JSON values as \<open>JSON.parse\<close> answers them. A number is a rational, the double the runtime holds. The
  parser itself belongs to the runtime and is a parameter where it is used.
\<close>

section \<open>Values\<close>

datatype json =
    JNull
  | JBool bool
  | JNum rat
  | JStr js
  | JArr "json list"
  | JObj "(js \<times> json) list"

type_synonym json_object = "(js \<times> json) list"

text \<open>\<open>value.key\<close>; \<open>None\<close> is \<open>undefined\<close>. Of the values JSON has, only objects carry the keys read.\<close>

fun member_of :: "json \<Rightarrow> js \<Rightarrow> json option" where
  "member_of (JObj fs) k = map_of fs k"
| "member_of _ k = None"

fun string_of :: "json option \<Rightarrow> js option" where
  "string_of (Some (JStr s)) = Some s"
| "string_of _ = None"

lemma string_of_iff: "string_of v = Some s \<longleftrightarrow> v = Some (JStr s)"
  by (cases v rule: string_of.cases) auto

text \<open>\<open>value ?? fallback\<close>.\<close>

fun or_default :: "json option \<Rightarrow> json \<Rightarrow> json" where
  "or_default None d = d"
| "or_default (Some JNull) d = d"
| "or_default (Some v) d = v"

text \<open>\<open>a ?? b\<close> where both may be absent.\<close>

definition coalesce :: "json option \<Rightarrow> json option \<Rightarrow> json option" where
  "coalesce a b = (case a of None \<Rightarrow> b | Some JNull \<Rightarrow> b | Some v \<Rightarrow> Some v)"

text \<open>Whether a condition takes a value.\<close>

fun js_truthy :: "json \<Rightarrow> bool" where
  "js_truthy JNull = False"
| "js_truthy (JBool b) = b"
| "js_truthy (JNum q) = (q \<noteq> 0)"
| "js_truthy (JStr s) = (s \<noteq> [])"
| "js_truthy _ = True"

text \<open>
  \<open>v?.key\<close>: \<open>undefined\<close> on \<open>undefined\<close> and \<open>null\<close>. Without the question mark such a read throws; the
  functions that do so check for \<open>null\<close> first.
\<close>

fun chained :: "json option \<Rightarrow> js \<Rightarrow> json option" where
  "chained None k = None"
| "chained (Some JNull) k = None"
| "chained (Some v) k = member_of v k"

text \<open>
  \<open>v.includes(x)\<close> for a string \<open>x\<close>: strings and lists have the method, on any other value the call throws
  (\<open>None\<close>). \<open>v?.includes(x) ?? false\<close> answers \<open>false\<close> on \<open>undefined\<close> and \<open>null\<close>.
\<close>

fun js_includes :: "json \<Rightarrow> js \<Rightarrow> bool option" where
  "js_includes (JStr s) x = Some (includes_str s x)"
| "js_includes (JArr vs) x = Some (JStr x \<in> set vs)"
| "js_includes _ x = None"

fun optional_includes :: "json option \<Rightarrow> js \<Rightarrow> bool option" where
  "optional_includes None x = Some False"
| "optional_includes (Some JNull) x = Some False"
| "optional_includes (Some v) x = js_includes v x"

section \<open>Conversions\<close>

text \<open>
  A number of the runtime, and the conversions it computes on numerals and doubles: \<open>Number\<close> on a
  string, \<open>String\<close> on a number, a product by 1000, the clock.
\<close>

datatype number = NaN | Infinite bool | Finite rat

record runtime =
  rt_number :: "js \<Rightarrow> number"
  rt_text :: "rat \<Rightarrow> js"
  rt_thousand :: "rat \<Rightarrow> number"
  rt_now :: rat

fun joined :: "js \<Rightarrow> js option list \<Rightarrow> js option" where
  "joined sep [] = Some []"
| "joined sep [x] = x"
| "joined sep (x # xs) = (case (x, joined sep xs) of (Some s, Some t) \<Rightarrow> Some (s @ sep @ t) | _ \<Rightarrow> None)"

text \<open>
  \<open>String(v)\<close>; \<open>None\<close> is the \<open>TypeError\<close> of an object with a member \<open>toString\<close> of its own, which no
  JSON object can make callable. An array is its elements joined by commas, \<open>null\<close> among them as nothing.
\<close>

fun js_String :: "runtime \<Rightarrow> json \<Rightarrow> js option" where
  "js_String rt JNull = Some (lit ''null'')"
| "js_String rt (JBool b) = Some (if b then lit ''true'' else lit ''false'')"
| "js_String rt (JNum q) = Some (rt_text rt q)"
| "js_String rt (JStr s) = Some s"
| "js_String rt (JArr vs) = joined [44] (map (\<lambda>v. if v = JNull then Some [] else js_String rt v) vs)"
| "js_String rt (JObj fs) = (if map_of fs (lit ''toString'') = None then Some (lit ''[object Object]'') else None)"

text \<open>\<open>Number(v)\<close>: an object is converted to its text first.\<close>

fun js_Number :: "runtime \<Rightarrow> json option \<Rightarrow> number option" where
  "js_Number rt None = Some NaN"
| "js_Number rt (Some JNull) = Some (Finite 0)"
| "js_Number rt (Some (JBool b)) = Some (Finite (if b then 1 else 0))"
| "js_Number rt (Some (JNum q)) = Some (Finite q)"
| "js_Number rt (Some v) = map_option (rt_number rt) (js_String rt v)"

text \<open>\<open>x * 1000 || Date.now()\<close>: \<open>NaN\<close> and zero are falsy.\<close>

definition or_now :: "runtime \<Rightarrow> number \<Rightarrow> number" where
  "or_now rt x =
     (case (case x of Finite q \<Rightarrow> rt_thousand rt q | y \<Rightarrow> y) of
        NaN \<Rightarrow> Finite (rt_now rt)
      | Finite q \<Rightarrow> if q = 0 then Finite (rt_now rt) else Finite q
      | Infinite sign \<Rightarrow> Infinite sign)"

end
