(* ===== verification/TeamsClaims.thy ===== *)
theory TeamsClaims
  imports Json
begin

text \<open>
  The Teams activity verifier's decisions that need no I/O (\<open>gateway-teams/src/verified-claims.ts\<close> and
  the refusals of \<open>verifier-contract.ts\<close>): the option checks, reading the bearer token, parsing the
  body, decoding a token segment and the claim checks.

  What the Node runtime provides is a parameter, the record \<open>runtime\<close>: \<open>JSON.parse\<close>, base64url
  decoding, the URL parser, \<open>toLowerCase\<close>, UTF-8 decoding, and the RSA operations of \<open>node:crypto\<close>. \<open>exp + 300\<close>
  is computed exactly.
\<close>

section \<open>The runtime\<close>

fun isPlainObject :: "json \<Rightarrow> json_object option" where
  "isPlainObject (JObj fs) = Some fs"
| "isPlainObject _ = None"

fun isNonEmptyString :: "json option \<Rightarrow> js option" where
  "isNonEmptyString (Some (JStr s)) = (if s = [] then None else Some s)"
| "isNonEmptyString _ = None"

text \<open>
  \<open>rt_url\<close> answers the \<open>protocol\<close> and \<open>hostname\<close> of \<open>new URL(s)\<close>, \<open>None\<close> when it throws. \<open>rt_rsa\<close> is
  \<open>createPublicKey\<close> on a JWK: \<open>None\<close> when it throws or the key is not RSA. \<open>rt_verify\<close> is \<open>verify\<close> on
  the signing input, the key and the base64url signature: \<open>None\<close> when it throws.
\<close>

record 'k runtime =
  rt_json :: "js \<Rightarrow> json option"
  rt_base64url :: "js \<Rightarrow> js"
  rt_url :: "js \<Rightarrow> (js \<times> js) option"
  rt_lower :: "js \<Rightarrow> js"
  rt_text :: "int list \<Rightarrow> js"
  rt_rsa :: "json \<Rightarrow> 'k option"
  rt_verify :: "js \<Rightarrow> 'k \<Rightarrow> js \<Rightarrow> bool option"

section \<open>Refusals\<close>

datatype reason =
    MissingAuthorization
  | MalformedBody
  | BodyAlreadyRead
  | ValidatorUnavailable
  | InvalidToken
  | KeySetUnavailable
  | AudienceMismatch
  | ServiceurlMismatch
  | ChannelMismatch
  | TenantMismatch
  | TenantUnverified

definition MESSAGES :: "reason \<Rightarrow> js" where
  "MESSAGES r =
     (case r of
        MissingAuthorization \<Rightarrow> lit ''no Authorization header: the request carries no Bot Framework token''
      | MalformedBody \<Rightarrow> lit ''the request body is over 1 MiB or is not a readable JSON activity with a non-empty string serviceUrl''
      | BodyAlreadyRead \<Rightarrow> lit ''the request body was already read or is locked by another reader, so the verifier could not read the activity: this is the route's fault, not the sender's; pass the verifier an unread request, for example request.clone()''
      | ValidatorUnavailable \<Rightarrow> lit ''the Teams SDK token validator could not be loaded''
      | InvalidToken \<Rightarrow> lit ''the Teams SDK did not accept the token (bad signature, unknown key, wrong audience or issuer, expired, or a serviceurl it compared and found different)''
      | KeySetUnavailable \<Rightarrow> lit ''the published signing keys could not be read, so the token's signature could not be checked; a retry may succeed''
      | AudienceMismatch \<Rightarrow> lit ''the token's aud claim is not this bot's app id''
      | ServiceurlMismatch \<Rightarrow> lit ''the token's serviceurl claim is absent or differs from the activity's serviceUrl''
      | ChannelMismatch \<Rightarrow> lit ''the activity's channelId is absent or is not msteams: the token is the bot's, but the activity did not come from Teams''
      | TenantMismatch \<Rightarrow> lit ''the token's tid claim names a tenant other than the configured one''
      | TenantUnverified \<Rightarrow> lit ''the token's tenant cannot be confirmed: no tid with a tenant configured, or a tenant-issued token with none configured'')"

record refusal =
  re_reason :: reason
  re_message :: js

definition refuse :: "reason \<Rightarrow> js option \<Rightarrow> refusal" where
  "refuse r m = \<lparr>re_reason = r, re_message = (case m of None \<Rightarrow> MESSAGES r | Some t \<Rightarrow> t)\<rparr>"

lemma refuse_reason [simp]: "re_reason (refuse r m) = r"
  by (simp add: refuse_def)

section \<open>Options\<close>

definition MULTI_TENANT_NAMES :: "js list" where
  "MULTI_TENANT_NAMES = [lit ''common'', lit ''organizations'', lit ''consumers'']"

definition is_hex :: "cu \<Rightarrow> bool" where
  "is_hex c \<longleftrightarrow> (48 \<le> c \<and> c \<le> 57) \<or> (97 \<le> c \<and> c \<le> 102) \<or> (65 \<le> c \<and> c \<le> 70)"

text \<open>Five groups of 8, 4, 4, 4 and 12 hexadecimal digits, in either case, between dashes.\<close>

definition TENANT_ID_SHAPE :: "js \<Rightarrow> bool" where
  "TENANT_ID_SHAPE s \<longleftrightarrow>
     map length (split_on 45 s) = [8, 4, 4, 4, 12] \<and> list_all (list_all is_hex) (split_on 45 s)"

definition OPENID_METADATA_SUFFIX :: js where
  "OPENID_METADATA_SUFFIX = lit ''/openidconfiguration''"

definition LOOPBACK_HOSTS :: "js list" where
  "LOOPBACK_HOSTS = [lit ''localhost'', lit ''127.0.0.1'', lit ''[::1]'']"

definition isTransportSafeUrl :: "'k runtime \<Rightarrow> js \<Rightarrow> bool" where
  "isTransportSafeUrl rt value =
     (case rt_url rt value of
        None \<Rightarrow> False
      | Some (protocol, hostname) \<Rightarrow>
          protocol = lit ''https:'' \<or> protocol = lit ''http:'' \<and> hostname \<in> set LOOPBACK_HOSTS)"

fun non_empty :: "jsval \<Rightarrow> js option" where
  "non_empty (VStr s) = (if s = [] then None else Some s)"
| "non_empty _ = None"

definition cloud_field_error :: "'k runtime \<Rightarrow> jsval \<Rightarrow> js \<Rightarrow> js option" where
  "cloud_field_error rt cloud field =
     (case non_empty (field_of cloud field) of
        None \<Rightarrow> Some (lit ''teamsActivityVerifier: cloud.'' @ field @ lit '' must be a non-empty string'')
      | Some value \<Rightarrow>
          if isTransportSafeUrl rt value then None
          else Some (lit ''teamsActivityVerifier: cloud.'' @ field @
            lit '' must be an https: URL (http: is accepted only on localhost, 127.0.0.1 or [::1]): the verifier reads its signing keys from the cloud's endpoints''))"

fun first_error :: "('a \<Rightarrow> js option) \<Rightarrow> 'a list \<Rightarrow> js option" where
  "first_error f [] = None"
| "first_error f (x # xs) = (case f x of None \<Rightarrow> first_error f xs | Some e \<Rightarrow> Some e)"

definition str_field :: "jsval \<Rightarrow> js \<Rightarrow> js" where
  "str_field v k = (case non_empty (field_of v k) of None \<Rightarrow> [] | Some s \<Rightarrow> s)"

text \<open>The result is the message of the \<open>TypeError\<close>, \<open>None\<close> when nothing is thrown.\<close>

definition assertCloud :: "'k runtime \<Rightarrow> jsval \<Rightarrow> js option" where
  "assertCloud rt cloud =
     (if cloud = VUndef then None
      else case first_error (cloud_field_error rt cloud)
                  [lit ''loginEndpoint'', lit ''tokenIssuer'', lit ''openIdMetadataUrl''] of
        Some e \<Rightarrow> Some e
      | None \<Rightarrow>
          if suffix (lit ''/'') (str_field cloud (lit ''loginEndpoint''))
          then Some (lit ''teamsActivityVerifier: cloud.loginEndpoint must not end in a slash: the tenant key-set URL and the issuer check append /{tenant} to it, as the Teams SDK does'')
          else if \<not> suffix OPENID_METADATA_SUFFIX (str_field cloud (lit ''openIdMetadataUrl''))
          then Some (lit ''teamsActivityVerifier: cloud.openIdMetadataUrl must end in '' @ OPENID_METADATA_SUFFIX @
            lit '' (no trailing slash or query): the Bot Framework key-set URL is derived by replacing that suffix with /keys, as the Teams SDK does'')
          else None)"

record verifier_options =
  vo_clientId :: jsval
  vo_tenantId :: jsval
  vo_cloud :: jsval

definition tenant_error :: "'k runtime \<Rightarrow> jsval \<Rightarrow> js option" where
  "tenant_error rt tenantId =
     (if tenantId = VUndef then None
      else case non_empty tenantId of
        None \<Rightarrow> Some (lit ''teamsActivityVerifier: tenantId, when given, must be a non-empty string'')
      | Some t \<Rightarrow>
          if rt_lower rt t \<in> set MULTI_TENANT_NAMES
          then Some (lit ''teamsActivityVerifier: tenantId '' @ quoted t @
            lit '' names no tenant; pass the tenant's id, or omit tenantId'')
          else if \<not> TENANT_ID_SHAPE t
          then Some (lit ''teamsActivityVerifier: tenantId '' @ quoted t @
            lit '' is not a tenant id: every token's tid claim is the tenant's GUID, so a domain or any other name would refuse every request; pass the Directory (tenant) ID from Entra'')
          else None)"

definition assertVerifierOptions :: "'k runtime \<Rightarrow> verifier_options \<Rightarrow> js option" where
  "assertVerifierOptions rt opts =
     (if non_empty (vo_clientId opts) = None
      then Some (lit ''teamsActivityVerifier: clientId must be a non-empty string'')
      else case tenant_error rt (vo_tenantId opts) of
        Some e \<Rightarrow> Some e
      | None \<Rightarrow> assertCloud rt (vo_cloud opts))"

section \<open>Reading the request\<close>

definition BEARER :: js where "BEARER = lit ''Bearer ''"

definition readBearerToken :: "js option \<Rightarrow> js option" where
  "readBearerToken header =
     (case header of
        None \<Rightarrow> None
      | Some h \<Rightarrow>
          if h = trim_end BEARER then None
          else let token = (if prefix BEARER h then drop (length BEARER) h else h)
               in if token = [] then None else Some token)"

record parsed_body =
  pb_activity :: json_object
  pb_serviceUrl :: js

definition parseActivityBody :: "'k runtime \<Rightarrow> js \<Rightarrow> parsed_body option" where
  "parseActivityBody rt text =
     (case rt_json rt text of
        None \<Rightarrow> None
      | Some value \<Rightarrow>
          (case isPlainObject value of
             None \<Rightarrow> None
           | Some fs \<Rightarrow>
               (case isNonEmptyString (map_of fs (lit ''serviceUrl'')) of
                  None \<Rightarrow> None
                | Some u \<Rightarrow> Some \<lparr>pb_activity = fs, pb_serviceUrl = u\<rparr>)))"

definition decodeSegment :: "'k runtime \<Rightarrow> js \<Rightarrow> nat \<Rightarrow> json_object option" where
  "decodeSegment rt rawToken index =
     (let segments = split_on 46 rawToken
      in if length segments \<noteq> 3 then None
         else case rt_json rt (rt_base64url rt (segments ! index)) of
           None \<Rightarrow> None
         | Some decoded \<Rightarrow> isPlainObject decoded)"

definition decodeVerifiedClaims :: "'k runtime \<Rightarrow> js \<Rightarrow> json_object option" where
  "decodeVerifiedClaims rt rawToken = decodeSegment rt rawToken 1"

text \<open>\<open>decodeSegment(rawToken, i)?.key\<close>.\<close>

definition segment_field :: "'k runtime \<Rightarrow> js \<Rightarrow> nat \<Rightarrow> js \<Rightarrow> json option" where
  "segment_field rt rawToken index key =
     (case decodeSegment rt rawToken index of None \<Rightarrow> None | Some fs \<Rightarrow> map_of fs key)"

definition readTokenKeyId :: "'k runtime \<Rightarrow> js \<Rightarrow> js option" where
  "readTokenKeyId rt rawToken = isNonEmptyString (segment_field rt rawToken 0 (lit ''kid''))"

definition readTokenAlgorithm :: "'k runtime \<Rightarrow> js \<Rightarrow> js option" where
  "readTokenAlgorithm rt rawToken = string_of (segment_field rt rawToken 0 (lit ''alg''))"

section \<open>Claims\<close>

text \<open>One trailing slash goes, and case is folded.\<close>

definition normalizeServiceUrl :: "'k runtime \<Rightarrow> js \<Rightarrow> js" where
  "normalizeServiceUrl rt url = rt_lower rt (if suffix (lit ''/'') url then butlast url else url)"

definition audienceMatches :: "json option \<Rightarrow> js \<Rightarrow> bool" where
  "audienceMatches aud clientId \<longleftrightarrow>
     aud \<in> set (map (\<lambda>s. Some (JStr s))
       [clientId, lit ''api://botid-'' @ clientId, lit ''api://'' @ clientId])"

definition SDK_CLOCK_TOLERANCE_SECONDS :: rat where
  "SDK_CLOCK_TOLERANCE_SECONDS = 300"

definition expired :: "json option \<Rightarrow> rat \<Rightarrow> bool" where
  "expired claim nowSeconds =
     (case claim of
        None \<Rightarrow> False
      | Some (JNum e) \<Rightarrow> e + SDK_CLOCK_TOLERANCE_SECONDS \<le> nowSeconds
      | Some _ \<Rightarrow> True)"

definition not_yet_valid :: "json option \<Rightarrow> rat \<Rightarrow> bool" where
  "not_yet_valid claim nowSeconds =
     (case claim of
        None \<Rightarrow> False
      | Some (JNum n) \<Rightarrow> nowSeconds + SDK_CLOCK_TOLERANCE_SECONDS < n
      | Some _ \<Rightarrow> True)"

definition sdkRefusesTokenClaims :: "'k runtime \<Rightarrow> js \<Rightarrow> js \<Rightarrow> rat \<Rightarrow> bool" where
  "sdkRefusesTokenClaims rt rawToken clientId nowSeconds =
     (case decodeSegment rt rawToken 1 of
        None \<Rightarrow> False
      | Some claims \<Rightarrow>
          let aud = map_of claims (lit ''aud'');
              audiences = (case aud of Some (JArr as) \<Rightarrow> map Some as | _ \<Rightarrow> [aud])
          in if \<not> list_ex (\<lambda>a. audienceMatches a clientId) audiences then True
             else if expired (map_of claims (lit ''exp'')) nowSeconds then True
             else not_yet_valid (map_of claims (lit ''nbf'')) nowSeconds)"

definition serviceUrlMatches :: "'k runtime \<Rightarrow> json option \<Rightarrow> js \<Rightarrow> bool" where
  "serviceUrlMatches rt claim expected =
     (case string_of claim of
        None \<Rightarrow> False
      | Some s \<Rightarrow> normalizeServiceUrl rt s = normalizeServiceUrl rt expected)"

definition STS_ISSUER_PREFIX :: js where
  "STS_ISSUER_PREFIX = lit ''https://sts.windows.net/''"

definition isTenantIssued :: "json option \<Rightarrow> js \<Rightarrow> bool" where
  "isTenantIssued iss loginEndpoint =
     (case string_of iss of
        None \<Rightarrow> False
      | Some s \<Rightarrow> prefix (loginEndpoint @ lit ''/'') s \<or> prefix STS_ISSUER_PREFIX s)"

record expected_claims =
  ex_clientId :: js
  ex_tenantId :: "js option"
  ex_loginEndpoint :: js
  ex_serviceUrl :: js
  ex_channelId :: "json option"

definition checkTenant :: "'k runtime \<Rightarrow> json_object \<Rightarrow> js option \<Rightarrow> js \<Rightarrow> reason option" where
  "checkTenant rt claims tenantId loginEndpoint =
     (case tenantId of
        None \<Rightarrow>
          if isTenantIssued (map_of claims (lit ''iss'')) loginEndpoint then Some TenantUnverified else None
      | Some tenant \<Rightarrow>
          (case string_of (map_of claims (lit ''tid'')) of
             None \<Rightarrow> Some TenantUnverified
           | Some tid \<Rightarrow> if rt_lower rt tid = rt_lower rt tenant then None else Some TenantMismatch))"

definition isTenantIssuedToken :: "'k runtime \<Rightarrow> js \<Rightarrow> js \<Rightarrow> bool" where
  "isTenantIssuedToken rt rawToken loginEndpoint =
     isTenantIssued (segment_field rt rawToken 1 (lit ''iss'')) loginEndpoint"

definition tenantRefusalBeforeVerification :: "'k runtime \<Rightarrow> js \<Rightarrow> js option \<Rightarrow> js \<Rightarrow> reason option" where
  "tenantRefusalBeforeVerification rt rawToken tenantId loginEndpoint =
     (case decodeSegment rt rawToken 1 of
        None \<Rightarrow> None
      | Some claims \<Rightarrow>
          if \<not> isTenantIssued (map_of claims (lit ''iss'')) loginEndpoint then None
          else checkTenant rt claims tenantId loginEndpoint)"

definition TEAMS_CHANNEL_ID :: js where "TEAMS_CHANNEL_ID = lit ''msteams''"

text \<open>\<open>None\<close> is \<open>{ ok: true }\<close>.\<close>

definition checkVerifiedClaims :: "'k runtime \<Rightarrow> json_object \<Rightarrow> expected_claims \<Rightarrow> reason option" where
  "checkVerifiedClaims rt claims expected =
     (if \<not> audienceMatches (map_of claims (lit ''aud'')) (ex_clientId expected) then Some AudienceMismatch
      else if \<not> serviceUrlMatches rt (map_of claims (lit ''serviceurl'')) (ex_serviceUrl expected)
      then Some ServiceurlMismatch
      else if ex_channelId expected \<noteq> Some (JStr TEAMS_CHANNEL_ID) then Some ChannelMismatch
      else checkTenant rt claims (ex_tenantId expected) (ex_loginEndpoint expected))"

definition keyEndorsesChannel :: "js list option \<Rightarrow> json option \<Rightarrow> bool" where
  "keyEndorsesChannel endorsements channelId =
     (case string_of channelId of
        None \<Rightarrow> True
      | Some c \<Rightarrow> (case endorsements of None \<Rightarrow> False | Some es \<Rightarrow> c \<in> set es))"

section \<open>Lemmas\<close>

lemma non_empty_iff: "non_empty v = Some s \<longleftrightarrow> v = VStr s \<and> s \<noteq> []"
  by (cases v) auto

lemma non_empty_None: "non_empty v = None \<longleftrightarrow> (\<forall>s. v = VStr s \<longrightarrow> s = [])"
  by (cases v) auto

lemma first_error_None: "first_error f xs = None \<longleftrightarrow> (\<forall>x\<in>set xs. f x = None)"
  by (induction xs) (auto split: option.splits)

lemma shape_not_empty: "TENANT_ID_SHAPE t \<Longrightarrow> t \<noteq> []"
  by (auto simp: TENANT_ID_SHAPE_def)

lemma tenant_error_None:
  "tenant_error rt v = None \<longleftrightarrow>
     v = VUndef \<or> (\<exists>t. v = VStr t \<and> TENANT_ID_SHAPE t \<and> rt_lower rt t \<notin> set MULTI_TENANT_NAMES)"
  by (cases v) (auto simp: tenant_error_def shape_not_empty)

lemma cloud_field_error_None:
  "cloud_field_error rt c f = None \<longleftrightarrow>
     (\<exists>s. field_of c f = VStr s \<and> s \<noteq> [] \<and> isTransportSafeUrl rt s)"
  by (auto simp: cloud_field_error_def non_empty_iff non_empty_None split: option.splits)

lemma str_field_iff: "field_of c f = VStr s \<Longrightarrow> str_field c f = s"
  by (simp add: str_field_def)

lemma audienceMatches_string: "audienceMatches aud c \<Longrightarrow> \<exists>s. aud = Some (JStr s)"
  by (auto simp: audienceMatches_def)

lemma isNonEmptyString_iff: "isNonEmptyString v = Some s \<longleftrightarrow> v = Some (JStr s) \<and> s \<noteq> []"
  by (cases v rule: isNonEmptyString.cases) auto

lemma decodeSegment_three: "decodeSegment rt raw i = Some fs \<Longrightarrow> length (split_on 46 raw) = 3"
  by (auto simp: decodeSegment_def Let_def split: if_splits)

lemma checkVerifiedClaims_None:
  "checkVerifiedClaims rt claims e = None \<longleftrightarrow>
     audienceMatches (map_of claims (lit ''aud'')) (ex_clientId e) \<and>
     serviceUrlMatches rt (map_of claims (lit ''serviceurl'')) (ex_serviceUrl e) \<and>
     ex_channelId e = Some (JStr TEAMS_CHANNEL_ID) \<and>
     checkTenant rt claims (ex_tenantId e) (ex_loginEndpoint e) = None"
  by (simp add: checkVerifiedClaims_def)

lemma checkTenant_None:
  "checkTenant rt claims tenantId login = None \<longleftrightarrow>
     (case tenantId of
        None \<Rightarrow> \<not> isTenantIssued (map_of claims (lit ''iss'')) login
      | Some t \<Rightarrow> \<exists>tid. map_of claims (lit ''tid'') = Some (JStr tid) \<and> rt_lower rt tid = rt_lower rt t)"
  by (auto simp: checkTenant_def string_of_iff split: option.splits)

section \<open>A sample runtime\<close>

text \<open>
  A runtime small enough to evaluate: base64url is the identity, the JSON texts are one letter each,
  and a signature verifies when it is the key. The token \<open>h.p.s\<close> is the connector's, \<open>h.t.s\<close> is a
  tenant's, \<open>b\<close> is an activity, and \<open>d\<close> is a key-set document.
\<close>

definition sample_json :: "js \<Rightarrow> json option" where
  "sample_json = map_of
     [(lit ''h'', JObj [(lit ''kid'', JStr (lit ''k'')), (lit ''alg'', JStr (lit ''RS256''))]),
      (lit ''p'', JObj [(lit ''aud'', JStr (lit ''app'')), (lit ''serviceurl'', JStr (lit ''u/'')),
                      (lit ''exp'', JNum 2000)]),
      (lit ''t'', JObj [(lit ''aud'', JStr (lit ''app'')), (lit ''serviceurl'', JStr (lit ''u/'')),
                      (lit ''iss'', JStr (lit ''login/x'')), (lit ''tid'', JStr (lit ''x''))]),
      (lit ''b'', JObj [(lit ''serviceUrl'', JStr (lit ''u'')), (lit ''channelId'', JStr (lit ''msteams''))]),
      (lit ''d'', JObj [(lit ''keys'', JArr [JObj [(lit ''kid'', JStr (lit ''k'')), (lit ''n'', JStr (lit ''s''))], JNull])])]"

definition sample_runtime :: "js runtime" where
  "sample_runtime =
     \<lparr>rt_json = sample_json, rt_base64url = (\<lambda>s. s), rt_url = (\<lambda>s. Some (lit ''https:'', s)),
      rt_lower = (\<lambda>s. s), rt_text = (\<lambda>bs. bs), rt_rsa = (\<lambda>j. string_of (member_of j (lit ''n''))),
      rt_verify = (\<lambda>input key signature. Some (signature = key))\<rparr>"

section \<open>Properties\<close>

text \<open>
  Construction accepts exactly the options a request can be verified against: a non-empty app
  id; no tenant, or a tenant GUID that is none of the multi-tenant names; no cloud, or one whose three
  endpoints are non-empty URLs on \<open>https:\<close> (or \<open>http:\<close> on a loopback host), whose login endpoint does
  not end in a slash and whose metadata URL ends in the suffix the key-set URL is derived from.
\<close>
theorem verifier_options_accepted_iff:
  "assertVerifierOptions rt opts = None \<longleftrightarrow>
     (\<exists>c. vo_clientId opts = VStr c \<and> c \<noteq> []) \<and>
     (vo_tenantId opts = VUndef \<or>
      (\<exists>t. vo_tenantId opts = VStr t \<and> TENANT_ID_SHAPE t \<and> rt_lower rt t \<notin> set MULTI_TENANT_NAMES)) \<and>
     (vo_cloud opts = VUndef \<or>
      (\<exists>login issuer metadata.
         field_of (vo_cloud opts) (lit ''loginEndpoint'') = VStr login \<and> login \<noteq> [] \<and>
         field_of (vo_cloud opts) (lit ''tokenIssuer'') = VStr issuer \<and> issuer \<noteq> [] \<and>
         field_of (vo_cloud opts) (lit ''openIdMetadataUrl'') = VStr metadata \<and> metadata \<noteq> [] \<and>
         isTransportSafeUrl rt login \<and> isTransportSafeUrl rt issuer \<and> isTransportSafeUrl rt metadata \<and>
         \<not> suffix (lit ''/'') login \<and> suffix OPENID_METADATA_SUFFIX metadata))"
proof -
  have client: "non_empty (vo_clientId opts) = None \<longleftrightarrow> \<not> (\<exists>c. vo_clientId opts = VStr c \<and> c \<noteq> [])"
    by (auto simp: non_empty_None)
  have "assertCloud rt (vo_cloud opts) = None \<longleftrightarrow>
     vo_cloud opts = VUndef \<or>
      (\<exists>login issuer metadata.
         field_of (vo_cloud opts) (lit ''loginEndpoint'') = VStr login \<and> login \<noteq> [] \<and>
         field_of (vo_cloud opts) (lit ''tokenIssuer'') = VStr issuer \<and> issuer \<noteq> [] \<and>
         field_of (vo_cloud opts) (lit ''openIdMetadataUrl'') = VStr metadata \<and> metadata \<noteq> [] \<and>
         isTransportSafeUrl rt login \<and> isTransportSafeUrl rt issuer \<and> isTransportSafeUrl rt metadata \<and>
         \<not> suffix (lit ''/'') login \<and> suffix OPENID_METADATA_SUFFIX metadata)"
  proof (cases "first_error (cloud_field_error rt (vo_cloud opts))
      [lit ''loginEndpoint'', lit ''tokenIssuer'', lit ''openIdMetadataUrl'']")
    case None
    note endpoints = None [unfolded first_error_None list.set ball_simps cloud_field_error_None]
    from endpoints None show ?thesis
      by (auto simp: assertCloud_def str_field_iff simp del: lit_simps first_error.simps)
  next
    case (Some e)
    then have "first_error (cloud_field_error rt (vo_cloud opts))
      [lit ''loginEndpoint'', lit ''tokenIssuer'', lit ''openIdMetadataUrl''] \<noteq> None" by simp
    with Some show ?thesis
      unfolding first_error_None list.set ball_simps cloud_field_error_None
      by (auto simp: assertCloud_def simp del: lit_simps first_error.simps)
  qed
  moreover have "assertVerifierOptions rt opts = None \<longleftrightarrow>
     non_empty (vo_clientId opts) \<noteq> None \<and> tenant_error rt (vo_tenantId opts) = None \<and>
     assertCloud rt (vo_cloud opts) = None"
    by (simp add: assertVerifierOptions_def split: option.splits)
  ultimately show ?thesis by (simp only: client tenant_error_None not_not)
qed

text \<open>
  Refusing a tenant-issued token early loses nothing: a token the unverified tenant check refuses
  decodes to claims that the check after verification refuses too, whatever activity it arrives with.
\<close>
theorem early_tenant_refusal_is_sound:
  assumes "tenantRefusalBeforeVerification rt raw tenant login = Some r"
  shows "\<exists>claims. decodeVerifiedClaims rt raw = Some claims \<and>
     (\<forall>e. ex_tenantId e = tenant \<longrightarrow> ex_loginEndpoint e = login \<longrightarrow> checkVerifiedClaims rt claims e \<noteq> None)"
  using assms
  by (auto simp: tenantRefusalBeforeVerification_def decodeVerifiedClaims_def checkVerifiedClaims_None
      split: option.splits if_splits)

theorem early_tenant_refusal_is_sound_witness:
  "\<exists>claims. decodeVerifiedClaims sample_runtime (lit ''h.t.s'') = Some claims \<and>
     (\<forall>e. ex_tenantId e = None \<longrightarrow> ex_loginEndpoint e = lit ''login'' \<longrightarrow>
       checkVerifiedClaims sample_runtime claims e \<noteq> None)"
proof (rule early_tenant_refusal_is_sound)
  show "tenantRefusalBeforeVerification sample_runtime (lit ''h.t.s'') None (lit ''login'') = Some TenantUnverified"
    by code_simp
qed

end
