(* ===== verification/TeamsKeySet.thy ===== *)
theory TeamsKeySet
  imports TeamsClaims JsMap
begin

text \<open>
  The published key sets the Teams verifier reads itself: bounded streams
  (\<open>gateway-teams/src/bounded-stream.ts\<close>), the kind of a failure (\<open>error-kind.ts\<close>), one read of a key set
  and the cache that decides when a read may start (\<open>published-key-set.ts\<close>).

  The network is a parameter: a read gets a \<open>fetched\<close> value. The cache is a state machine: a lookup runs
  to its first \<open>await\<close> (\<open>lookup_start\<close>), the read settles, its \<open>finally\<close> runs, and a waiting lookup
  resumes (\<open>lookup_resume\<close>); any of these may interleave. Times are milliseconds of the monotonic clock.
\<close>

section \<open>Bounded streams\<close>

text \<open>
  A stream delivers chunks of bytes and then ends, or fails with an error; \<open>cancel\<close> may fail too.
\<close>

record byte_stream =
  bs_chunks :: "int list list"
  bs_failure :: "jsval option"
  bs_cancel :: "jsval option"

datatype 'a attempt = Got 'a | Failed jsval

fun read_loop :: "byte_stream \<Rightarrow> nat \<Rightarrow> int list list \<Rightarrow> int list list \<Rightarrow> nat \<Rightarrow> int list option attempt" where
  "read_loop b maxBytes [] chunks seen =
     (case bs_failure b of None \<Rightarrow> Got (Some (concat (rev chunks))) | Some e \<Rightarrow> Failed e)"
| "read_loop b maxBytes (v # vs) chunks seen =
     (if maxBytes < seen + length v
      then (case bs_cancel b of None \<Rightarrow> Got None | Some e \<Rightarrow> Failed e)
      else read_loop b maxBytes vs (v # chunks) (seen + length v))"

definition readBoundedStream :: "'k runtime \<Rightarrow> byte_stream option \<Rightarrow> nat \<Rightarrow> js option attempt" where
  "readBoundedStream rt body maxBytes =
     (case body of
        None \<Rightarrow> Got (Some [])
      | Some b \<Rightarrow>
          (case read_loop b maxBytes (bs_chunks b) [] 0 of
             Failed e \<Rightarrow> Failed e
           | Got None \<Rightarrow> Got None
           | Got (Some bytes) \<Rightarrow> Got (Some (rt_text rt bytes))))"

section \<open>The kind of a failure\<close>

definition is_letter :: "cu \<Rightarrow> bool" where
  "is_letter c \<longleftrightarrow> (65 \<le> c \<and> c \<le> 90) \<or> (97 \<le> c \<and> c \<le> 122)"

definition IDENTIFIER :: "js \<Rightarrow> bool" where
  "IDENTIFIER s \<longleftrightarrow>
     (case s of
        [] \<Rightarrow> False
      | c # cs \<Rightarrow> is_letter c \<and> length cs \<le> 63 \<and>
          list_all (\<lambda>d. is_letter d \<or> (48 \<le> d \<and> d \<le> 57) \<or> d = 95) cs)"

definition errorKind :: "jsval \<Rightarrow> js" where
  "errorKind error =
     (case error of
        VObj fs \<Rightarrow>
          let kind = (case field_of error (lit ''name'') of
                        VStr name \<Rightarrow> if IDENTIFIER name then name else lit ''an unnamed error''
                      | _ \<Rightarrow> lit ''an unnamed error'')
          in (case field_of error (lit ''code'') of
                VStr code \<Rightarrow> if IDENTIFIER code then kind @ lit '' '' @ code else kind
              | _ \<Rightarrow> kind)
      | _ \<Rightarrow> lit ''a thrown '' @ typeof error)"

section \<open>One read of a key set\<close>

definition DEFAULT_OPENID_METADATA_URL :: js where
  "DEFAULT_OPENID_METADATA_URL = lit ''https://login.botframework.com/v1/.well-known/openidconfiguration''"

definition KEY_SET_READ_INTERVAL_MS :: int where "KEY_SET_READ_INTERVAL_MS = 10000"
definition KEY_SET_MAX_AGE_MS :: int where "KEY_SET_MAX_AGE_MS = 60 * 60 * 1000"
definition KEY_SET_READ_TIMEOUT_MS :: int where "KEY_SET_READ_TIMEOUT_MS = 10000"
definition MAX_KEY_SET_BYTES :: nat where "MAX_KEY_SET_BYTES = 8 * 1024 * 1024"
definition MAX_KEYS_PER_SET :: nat where "MAX_KEYS_PER_SET = 1000"

text \<open>\<open>replace(/\/openidconfiguration$/, "/keys")\<close>.\<close>

definition keySetUrl :: "js option \<Rightarrow> js" where
  "keySetUrl openIdMetadataUrl =
     (let metadata = (case openIdMetadataUrl of None \<Rightarrow> DEFAULT_OPENID_METADATA_URL | Some u \<Rightarrow> u)
      in if suffix OPENID_METADATA_SUFFIX metadata
         then take (length metadata - length OPENID_METADATA_SUFFIX) metadata @ lit ''/keys''
         else metadata)"

definition tenantKeySetUrl :: "js \<Rightarrow> js \<Rightarrow> js" where
  "tenantKeySetUrl loginEndpoint tenantId = loginEndpoint @ lit ''/'' @ tenantId @ lit ''/discovery/v2.0/keys''"

definition keySetUnavailableMessage :: "js \<Rightarrow> js \<Rightarrow> js option \<Rightarrow> js" where
  "keySetUnavailableMessage label url failure =
     (let why = (case failure of None \<Rightarrow> [] | Some f \<Rightarrow> lit '': '' @ f)
      in lit ''the published signing keys could not be read ('' @ label @ lit '' key set at '' @ url @ why @
         lit ''), so the token's signature could not be checked; a retry may succeed'')"

record 'k published_key =
  pk_publicKey :: 'k
  pk_endorsements :: "js list option"

type_synonym 'k key_map = "(js, 'k published_key) jsmap"

definition endorsementsOf :: "json \<Rightarrow> js list option" where
  "endorsementsOf entry =
     (case member_of entry (lit ''endorsements'') of
        Some (JArr es) \<Rightarrow> Some (List.map_filter (\<lambda>e. string_of (Some e)) es)
      | _ \<Rightarrow> None)"

definition rsaPublicKey :: "'k runtime \<Rightarrow> json \<Rightarrow> (js \<times> 'k published_key) option" where
  "rsaPublicKey rt entry =
     (case isNonEmptyString (member_of entry (lit ''kid'')) of
        None \<Rightarrow> None
      | Some kid \<Rightarrow>
          (case rt_rsa rt entry of
             None \<Rightarrow> None
           | Some publicKey \<Rightarrow>
               Some (kid, \<lparr>pk_publicKey = publicKey, pk_endorsements = endorsementsOf entry\<rparr>)))"

fun collect_keys :: "'k runtime \<Rightarrow> json list \<Rightarrow> 'k key_map \<Rightarrow> 'k key_map" where
  "collect_keys rt [] found = found"
| "collect_keys rt (entry # es) found =
     collect_keys rt es
       (case rsaPublicKey rt entry of None \<Rightarrow> found | Some (kid, pk) \<Rightarrow> jm_set kid pk found)"

text \<open>\<open>Inl\<close> is a \<open>KeySetReadFailure\<close>, \<open>Inr\<close> the keys.\<close>

type_synonym 'k key_read = "js + 'k key_map"

definition publishedKeys :: "'k runtime \<Rightarrow> json \<Rightarrow> 'k key_read" where
  "publishedKeys rt document =
     (case member_of document (lit ''keys'') of
        Some (JArr entries) \<Rightarrow>
          if MAX_KEYS_PER_SET < length entries
          then Inl (lit ''the document lists more than '' @ dec MAX_KEYS_PER_SET @ lit '' keys'')
          else let found = collect_keys rt entries []
               in if found = [] then Inl (lit ''the document lists no usable RSA key'') else Inr found
      | _ \<Rightarrow> Inl (lit ''the document has no keys array''))"

text \<open>\<open>cause ?? error\<close> passes over \<open>null\<close> and \<open>undefined\<close>.\<close>

definition requestFailure :: "jsval \<Rightarrow> js" where
  "requestFailure error =
     (if field_of error (lit ''name'') = VStr (lit ''TimeoutError'')
      then lit ''no answer within '' @ dec (nat (KEY_SET_READ_TIMEOUT_MS div 1000)) @ lit '' s''
      else let cause = field_of error (lit ''cause'')
           in lit ''the request failed ('' @
              errorKind (if cause = VUndef \<or> cause = VNull then error else cause) @ lit '')'')"

record response =
  rs_ok :: bool
  rs_status :: nat
  rs_body :: "byte_stream option"

datatype fetched = FetchThrew jsval | FetchAnswered response

definition readKeySetText :: "'k runtime \<Rightarrow> response \<Rightarrow> js + js" where
  "readKeySetText rt response =
     (case readBoundedStream rt (rs_body response) MAX_KEY_SET_BYTES of
        Failed e \<Rightarrow> Inl (requestFailure e)
      | Got None \<Rightarrow> Inl (lit ''the document is over '' @ dec MAX_KEY_SET_BYTES @ lit '' bytes'')
      | Got (Some text) \<Rightarrow> Inr text)"

definition readKeySet :: "'k runtime \<Rightarrow> fetched \<Rightarrow> 'k key_read" where
  "readKeySet rt answer =
     (case answer of
        FetchThrew e \<Rightarrow> Inl (requestFailure e)
      | FetchAnswered response \<Rightarrow>
          if \<not> rs_ok response then Inl (lit ''HTTP '' @ dec (rs_status response))
          else case readKeySetText rt response of
            Inl f \<Rightarrow> Inl f
          | Inr text \<Rightarrow>
              (case rt_json rt text of
                 None \<Rightarrow> Inl (lit ''the document is not JSON'')
               | Some document \<Rightarrow> publishedKeys rt document))"

section \<open>The cache\<close>

text \<open>
  \<open>NoRead\<close>: \<open>reading\<close> is \<open>undefined\<close>. \<open>Fetching\<close>: \<open>read()\<close> is pending. \<open>Settled\<close>: it has settled and its
  \<open>finally\<close> callback has not run.
\<close>

datatype read_phase = NoRead | Fetching | Settled

text \<open>
  Of \<open>readAt\<close> and \<open>nextReadAt\<close>, \<open>None\<close> is \<open>Number.NEGATIVE_INFINITY\<close>. \<open>ks_started\<close> is the times at which \<open>read()\<close>
  was called, newest first.
\<close>

record 'k key_set =
  ks_label :: js
  ks_url :: js
  ks_held :: "'k key_map option"
  ks_readAt :: "int option"
  ks_nextReadAt :: "int option"
  ks_lastFailure :: "js option"
  ks_reading :: read_phase
  ks_started :: "int list"

definition keySet :: "js \<Rightarrow> js \<Rightarrow> 'k key_set" where
  "keySet label url =
     \<lparr>ks_label = label, ks_url = url, ks_held = None, ks_readAt = None, ks_nextReadAt = None,
      ks_lastFailure = None, ks_reading = NoRead, ks_started = []\<rparr>"

datatype 'k key_lookup = Listed "'k published_key" | Unlisted | Unavailable js

definition since :: "int \<Rightarrow> int option \<Rightarrow> int \<Rightarrow> bool" where
  "since now mark d \<longleftrightarrow> (case mark of None \<Rightarrow> True | Some t \<Rightarrow> d \<le> now - t)"

text \<open>What \<open>read\<close> makes of a key set, of a failure, and of a throw, at the time it settles.\<close>

definition read_keeps :: "'k key_read \<Rightarrow> int \<Rightarrow> 'k key_set \<Rightarrow> 'k key_set" where
  "read_keeps fresh now s =
     (case fresh of
        Inr keys \<Rightarrow> s\<lparr>ks_lastFailure := None, ks_held := Some keys, ks_readAt := Some now\<rparr>
      | Inl f \<Rightarrow> s\<lparr>ks_lastFailure := Some f\<rparr>)"

definition keepThrown :: "jsval \<Rightarrow> 'k key_set \<Rightarrow> 'k key_set" where
  "keepThrown error s = s\<lparr>ks_lastFailure := Some (lit ''the read threw ('' @ errorKind error @ lit '')'')\<rparr>"

definition unavailable :: "'k key_set \<Rightarrow> 'k key_lookup" where
  "unavailable s = Unavailable (keySetUnavailableMessage (ks_label s) (ks_url s) (ks_lastFailure s))"

definition currentRead :: "int \<Rightarrow> 'k key_set \<Rightarrow> 'k key_set" where
  "currentRead now s =
     (if ks_reading s = NoRead \<and> (case ks_nextReadAt s of None \<Rightarrow> True | Some t \<Rightarrow> t \<le> now)
      then s\<lparr>ks_reading := Fetching, ks_started := now # ks_started s\<rparr> else s)"

definition held_key :: "'k key_set \<Rightarrow> js \<Rightarrow> 'k published_key option" where
  "held_key s kid = (case ks_held s of None \<Rightarrow> None | Some keys \<Rightarrow> jm_get keys kid)"

definition lookup_start :: "js \<Rightarrow> int \<Rightarrow> 'k key_set \<Rightarrow> 'k key_lookup option \<times> 'k key_set" where
  "lookup_start kid now s =
     (case held_key s kid of
        Some listed \<Rightarrow>
          (Some (Listed listed),
           if since now (ks_readAt s) KEY_SET_MAX_AGE_MS then currentRead now s else s)
      | None \<Rightarrow> (None, currentRead now s))"

definition lookup_resume :: "js \<Rightarrow> 'k key_set \<Rightarrow> 'k key_lookup" where
  "lookup_resume kid s =
     (case held_key s kid of
        Some found \<Rightarrow> Listed found
      | None \<Rightarrow>
          if ks_held s = None \<or> ks_lastFailure s \<noteq> None then unavailable s else Unlisted)"

definition read_settles :: "jsval + 'k key_read \<Rightarrow> int \<Rightarrow> 'k key_set \<Rightarrow> 'k key_set" where
  "read_settles r now s =
     (case r of Inl e \<Rightarrow> keepThrown e s | Inr fresh \<Rightarrow> read_keeps fresh now s)\<lparr>ks_reading := Settled\<rparr>"

definition read_finally :: "int \<Rightarrow> 'k key_set \<Rightarrow> 'k key_set" where
  "read_finally now s = s\<lparr>ks_nextReadAt := Some (now + KEY_SET_READ_INTERVAL_MS), ks_reading := NoRead\<rparr>"

section \<open>Executions\<close>

datatype 'k ks_event = Ask js int | Settle "jsval + 'k key_read" int | Close int

fun event_time :: "'k ks_event \<Rightarrow> int" where
  "event_time (Ask kid now) = now"
| "event_time (Settle r now) = now"
| "event_time (Close now) = now"

inductive ks_step :: "'k key_set \<Rightarrow> 'k ks_event \<Rightarrow> 'k key_set \<Rightarrow> bool" where
  ask: "ks_step s (Ask kid now) (snd (lookup_start kid now s))"
| settle: "ks_reading s = Fetching \<Longrightarrow> ks_step s (Settle r now) (read_settles r now s)"
| close: "ks_reading s = Settled \<Longrightarrow> ks_step s (Close now) (read_finally now s)"

inductive_cases ks_step_cases [elim]: "ks_step s ev s'"
inductive_simps ks_step_ask: "ks_step s (Ask kid now) s'"
inductive_simps ks_step_settle: "ks_step s (Settle r now) s'"
inductive_simps ks_step_close: "ks_step s (Close now) s'"

text \<open>What happened so far, newest first: when reads started and ended, and what they answered.\<close>

record 'k ks_history =
  kh_starts :: "int list"
  kh_ends :: "int list"
  kh_reads :: "(jsval + 'k key_read) list"
  kh_now :: int

definition record_event :: "'k key_set \<Rightarrow> 'k ks_event \<Rightarrow> 'k key_set \<Rightarrow> 'k ks_history \<Rightarrow> 'k ks_history" where
  "record_event s ev s' h =
     (case ev of
        Ask kid now \<Rightarrow> h\<lparr>kh_starts := ks_started s'\<rparr>
      | Settle r now \<Rightarrow> h\<lparr>kh_reads := r # kh_reads h\<rparr>
      | Close now \<Rightarrow> h\<lparr>kh_ends := now # kh_ends h\<rparr>)\<lparr>kh_now := event_time ev\<rparr>"

inductive ks_run :: "'k key_set \<Rightarrow> 'k ks_history \<Rightarrow> bool" where
  fresh: "ks_run (keySet label url) \<lparr>kh_starts = [], kh_ends = [], kh_reads = [], kh_now = now\<rparr>"
| more: "ks_run s h \<Longrightarrow> ks_step s ev s' \<Longrightarrow> kh_now h \<le> event_time ev \<Longrightarrow>
    ks_run s' (record_event s ev s' h)"

section \<open>When reads start\<close>

abbreviation spaced :: "int list \<Rightarrow> bool" where
  "spaced starts \<equiv> successively (\<lambda>later earlier. earlier + KEY_SET_READ_INTERVAL_MS \<le> later) starts"

text \<open>Every read but the first starts an interval after the end of the read before it.\<close>

definition rested :: "'k key_set \<Rightarrow> 'k ks_history \<Rightarrow> bool" where
  "rested s h \<longleftrightarrow>
     list_all2 (\<lambda>start end_before. end_before + KEY_SET_READ_INTERVAL_MS \<le> start) (butlast (kh_starts h))
       (if ks_reading s = NoRead then tl (kh_ends h) else kh_ends h)"

definition clocked :: "'k key_set \<Rightarrow> 'k ks_history \<Rightarrow> bool" where
  "clocked s h \<longleftrightarrow>
     spaced (kh_starts h) \<and>
     (\<forall>t \<in> set (kh_starts h). t \<le> kh_now h) \<and>
     (length (kh_starts h) = (if ks_reading s = NoRead then 0 else 1) + length (kh_ends h)) \<and>
     ks_nextReadAt s = (case kh_ends h of [] \<Rightarrow> None | e # _ \<Rightarrow> Some (e + KEY_SET_READ_INTERVAL_MS)) \<and>
     rested s h \<and>
     (case (kh_starts h, kh_ends h) of (st # _, e # _) \<Rightarrow> ks_reading s = NoRead \<longrightarrow> st \<le> e | _ \<Rightarrow> True)"

lemma currentRead_fields [simp]:
  "ks_held (currentRead now s) = ks_held s" "ks_lastFailure (currentRead now s) = ks_lastFailure s"
  "ks_nextReadAt (currentRead now s) = ks_nextReadAt s" "ks_label (currentRead now s) = ks_label s"
  "ks_url (currentRead now s) = ks_url s" "ks_readAt (currentRead now s) = ks_readAt s"
  by (simp_all add: currentRead_def)

lemma lookup_start_cases: "snd (lookup_start kid now s) = s \<or> snd (lookup_start kid now s) = currentRead now s"
  by (simp add: lookup_start_def split: option.splits)

lemma read_settles_fields [simp]:
  "ks_reading (read_settles r now s) = Settled" "ks_started (read_settles r now s) = ks_started s" "ks_nextReadAt (read_settles r now s) = ks_nextReadAt s"
  by (simp_all add: read_settles_def keepThrown_def read_keeps_def split: sum.splits)

lemma clocked_currentRead:
  assumes "clocked s h" "kh_now h \<le> now" "ks_reading s = NoRead" "ks_reading (currentRead now s) = Fetching"
    "kh_starts h = ks_started s"
  shows "clocked (currentRead now s) (h\<lparr>kh_starts := ks_started (currentRead now s), kh_now := now\<rparr>)"
  using assms(1-4) unfolding currentRead_def assms(5) [symmetric]
  by (cases "kh_starts h"; cases "kh_ends h")
     (auto simp: clocked_def rested_def successively_Cons split: if_splits)

lemma clocked_later: "clocked s h \<Longrightarrow> kh_now h \<le> now \<Longrightarrow> clocked s (h\<lparr>kh_now := now\<rparr>)"
  by (auto simp: clocked_def rested_def)

lemma starts_recorded: "ks_run s h \<Longrightarrow> kh_starts h = ks_started s"
proof (induction rule: ks_run.induct)
  case (more s h ev s')
  from more.hyps(2) show ?case
    by cases (use more.IH in \<open>simp_all add: record_event_def read_finally_def\<close>)
qed (simp add: keySet_def)

lemma clocked_step:
  assumes "clocked s h" "ks_step s ev s'" "kh_now h \<le> event_time ev" "kh_starts h = ks_started s"
  shows "clocked s' (record_event s ev s' h)"
  using assms(2)
proof cases
  case (ask kid now)
  show ?thesis
  proof (cases "s' = s")
    case True
    moreover have "h\<lparr>kh_starts := ks_started s\<rparr> = h" unfolding assms(4) [symmetric] by simp
    ultimately have "record_event s ev s' h = h\<lparr>kh_now := now\<rparr>" using ask by (simp add: record_event_def)
    then show ?thesis using clocked_later [OF assms(1), of now] assms(3) ask True by simp
  next
    case False
    then have s': "s' = currentRead now s" using lookup_start_cases [of kid now s] ask by auto
    with False have "ks_reading s = NoRead" "ks_reading s' = Fetching"
      by (auto simp: currentRead_def split: if_splits)
    then show ?thesis using clocked_currentRead [of s h now] assms ask s' by (simp add: record_event_def)
  qed
next
  case (settle r now)
  then show ?thesis using assms(1,3)
    by (cases "kh_starts h"; cases "kh_ends h") (auto simp: clocked_def rested_def record_event_def)
next
  case (close now)
  then show ?thesis using assms(1,3)
    by (cases "kh_starts h"; cases "kh_ends h") (auto simp: clocked_def rested_def record_event_def read_finally_def)
qed

lemma clocked_run: "ks_run s h \<Longrightarrow> clocked s h"
proof (induction rule: ks_run.induct)
  case (fresh label url now)
  then show ?case by (simp add: clocked_def rested_def keySet_def)
next
  case (more s h ev s')
  then show ?case by (simp add: clocked_step starts_recorded)
qed

text \<open>A spaced list has few entries in a window.\<close>

lemma spaced_sorted: "spaced ts \<longleftrightarrow> sorted_wrt (\<lambda>later earlier. earlier + KEY_SET_READ_INTERVAL_MS \<le> later) ts"
  by (rule successively_conv_sorted_wrt) (auto simp: KEY_SET_READ_INTERVAL_MS_def intro!: transpI)

lemma spaced_window:
  assumes "spaced ts" "\<forall>t\<in>set ts. a \<le> t \<and> t \<le> b" "a \<le> b"
  shows "int (length ts) * KEY_SET_READ_INTERVAL_MS \<le> b - a + KEY_SET_READ_INTERVAL_MS"
  using assms unfolding spaced_sorted
proof (induction ts arbitrary: b)
  case (Cons t ts)
  show ?case
  proof (cases "ts = []")
    case False
    have "\<forall>u\<in>set ts. a \<le> u \<and> u \<le> t - KEY_SET_READ_INTERVAL_MS" using Cons.prems(1,2) by auto
    moreover from this False have "a \<le> t - KEY_SET_READ_INTERVAL_MS"
      by (metis last_in_set order_trans)
    ultimately have "int (length ts) * KEY_SET_READ_INTERVAL_MS \<le> t - a"
      using Cons.IH [of "t - KEY_SET_READ_INTERVAL_MS"] Cons.prems(1) by simp
    then show ?thesis using Cons.prems(2) by (simp add: algebra_simps)
  qed (use Cons.prems in simp)
qed (simp add: KEY_SET_READ_INTERVAL_MS_def)

section \<open>What the copy holds\<close>

fun read_succeeded :: "jsval + 'k key_read \<Rightarrow> 'k key_map option" where
  "read_succeeded (Inr (Inr keys)) = Some keys"
| "read_succeeded _ = None"

fun latest_good :: "(jsval + 'k key_read) list \<Rightarrow> 'k key_map option" where
  "latest_good [] = None"
| "latest_good (r # rs) = (case read_succeeded r of Some keys \<Rightarrow> Some keys | None \<Rightarrow> latest_good rs)"

definition newest_failed :: "(jsval + 'k key_read) list \<Rightarrow> bool" where
  "newest_failed rs \<longleftrightarrow> (case rs of [] \<Rightarrow> False | r # _ \<Rightarrow> read_succeeded r = None)"

definition mirrors :: "'k key_set \<Rightarrow> 'k ks_history \<Rightarrow> bool" where
  "mirrors s h \<longleftrightarrow>
     ks_held s = latest_good (kh_reads h) \<and> (ks_lastFailure s \<noteq> None \<longleftrightarrow> newest_failed (kh_reads h))"

lemma record_event_reads:
  "kh_reads (record_event s ev s' h) = (case ev of Settle r now \<Rightarrow> r # kh_reads h | _ \<Rightarrow> kh_reads h)"
  by (simp add: record_event_def split: ks_event.split)

lemma mirrors_step:
  assumes "mirrors s h" "ks_step s ev s'"
  shows "mirrors s' (record_event s ev s' h)"
  using assms(2)
proof cases
  case (ask kid now)
  have "ks_held (snd (lookup_start kid now s)) = ks_held s"
    "ks_lastFailure (snd (lookup_start kid now s)) = ks_lastFailure s"
    using lookup_start_cases [of kid now s] by auto
  then show ?thesis using assms(1) ask by (simp add: mirrors_def record_event_reads)
next
  case (settle r now)
  then show ?thesis using assms(1)
    by (cases r rule: read_succeeded.cases)
       (simp_all add: mirrors_def record_event_reads newest_failed_def read_settles_def read_keeps_def keepThrown_def)
next
  case (close now)
  then show ?thesis using assms(1) by (simp add: mirrors_def record_event_reads read_finally_def)
qed

lemma mirrors_run: "ks_run s h \<Longrightarrow> mirrors s h"
proof (induction rule: ks_run.induct)
  case (fresh label url now)
  then show ?case by (simp add: mirrors_def keySet_def newest_failed_def)
next
  case (more s h ev s')
  then show ?case by (simp add: mirrors_step)
qed

section \<open>What a read keeps\<close>

lemma read_loop_kept:
  "read_loop b n vs chunks seen = Got (Some bytes) \<Longrightarrow> seen \<le> n \<Longrightarrow>
     bytes = concat (rev chunks) @ concat vs \<and> bs_failure b = None \<and> seen + length (concat vs) \<le> n"
  by (induction b n vs chunks seen rule: read_loop.induct) (auto split: option.splits if_splits)

lemma readBoundedStream_kept:
  assumes "readBoundedStream rt (Some b) n = Got (Some t)"
  shows "length (concat (bs_chunks b)) \<le> n \<and> t = rt_text rt (concat (bs_chunks b))"
proof -
  obtain bytes where "read_loop b n (bs_chunks b) [] 0 = Got (Some bytes)" "t = rt_text rt bytes"
    using assms by (auto simp: readBoundedStream_def split: attempt.splits option.splits)
  then show ?thesis using read_loop_kept [of b n "bs_chunks b" "[]" 0 bytes] by simp
qed

definition from_entry :: "'k runtime \<Rightarrow> json list \<Rightarrow> 'k key_map \<Rightarrow> bool" where
  "from_entry rt entries keys \<longleftrightarrow>
     jm_inv keys \<and> (\<forall>kid pk. jm_get keys kid = Some pk \<longrightarrow> (\<exists>e\<in>set entries. rsaPublicKey rt e = Some (kid, pk)))"

lemma collect_keys_from:
  "from_entry rt (seen @ es) found \<Longrightarrow> from_entry rt (seen @ es) (collect_keys rt es found)"
proof (induction es arbitrary: found seen)
  case (Cons e es)
  have "from_entry rt ((seen @ [e]) @ es)
      (case rsaPublicKey rt e of None \<Rightarrow> found | Some (kid, pk) \<Rightarrow> jm_set kid pk found)"
  proof (cases "rsaPublicKey rt e")
    case (Some p)
    then show ?thesis using Cons.prems
      by (cases p) (fastforce simp: from_entry_def map_facts split: if_splits)
  qed (use Cons.prems in simp)
  from Cons.IH [OF this] show ?case by simp
qed simp

lemma collect_keys_length:
  "jm_inv found \<Longrightarrow> length (collect_keys rt es found) \<le> length found + length es"
proof (induction es arbitrary: found)
  case (Cons e es)
  have "jm_inv (case rsaPublicKey rt e of None \<Rightarrow> found | Some (kid, pk) \<Rightarrow> jm_set kid pk found)"
    using Cons.prems by (auto simp: map_facts split: option.splits)
  moreover have "length (case rsaPublicKey rt e of None \<Rightarrow> found | Some (kid, pk) \<Rightarrow> jm_set kid pk found)
      \<le> Suc (length found)"
    using jm.size_put [OF Cons.prems] by (auto split: option.splits)
  ultimately show ?case using Cons.IH by fastforce
qed simp

lemma publishedKeys_sound:
  assumes "publishedKeys rt d = Inr keys"
  shows "\<exists>entries. member_of d (lit ''keys'') = Some (JArr entries) \<and> length entries \<le> MAX_KEYS_PER_SET \<and>
     keys \<noteq> [] \<and> length keys \<le> length entries \<and> from_entry rt entries keys"
proof -
  obtain entries where e: "member_of d (lit ''keys'') = Some (JArr entries)"
      "length entries \<le> MAX_KEYS_PER_SET" "keys = collect_keys rt entries []" "keys \<noteq> []"
    using assms by (auto simp: publishedKeys_def Let_def simp del: lit_simps split: option.splits json.splits if_splits)
  moreover have "from_entry rt entries (collect_keys rt entries [])"
    using collect_keys_from [of rt "[]" entries "[]"] by (simp add: from_entry_def)
  moreover have "length (collect_keys rt entries []) \<le> length entries"
    using collect_keys_length [of "[]" rt entries] by simp
  ultimately show ?thesis by blast
qed

section \<open>Properties\<close>

text \<open>
  C11: whatever lookups arrive, and however long reads take, a key set's reads are paced: each starts at
  least ten seconds after the end of the one before it, at most one is in flight, and a window of
  \<open>w\<close> milliseconds holds at most \<open>w / 10000 + 1\<close> of them.
\<close>
theorem key_set_reads_are_paced:
  assumes "ks_run s h" "0 \<le> w"
  shows "list_all2 (\<lambda>start end_before. end_before + KEY_SET_READ_INTERVAL_MS \<le> start) (butlast (kh_starts h))
       (if ks_reading s = NoRead then tl (kh_ends h) else kh_ends h) \<and>
     length (kh_starts h) \<le> Suc (length (kh_ends h)) \<and>
     int (length (filter (\<lambda>t. a \<le> t \<and> t \<le> a + w) (kh_starts h))) \<le> w div KEY_SET_READ_INTERVAL_MS + 1"
proof -
  have c: "clocked s h" by (rule clocked_run [OF assms(1)])
  let ?in = "filter (\<lambda>t. a \<le> t \<and> t \<le> a + w) (kh_starts h)"
  have "spaced ?in" using c by (simp add: clocked_def spaced_sorted sorted_wrt_filter)
  then have "int (length ?in) * KEY_SET_READ_INTERVAL_MS \<le> (a + w) - a + KEY_SET_READ_INTERVAL_MS"
    by (rule spaced_window) (use assms(2) in simp_all)
  then have "int (length ?in) \<le> w div KEY_SET_READ_INTERVAL_MS + 1"
    by (simp add: KEY_SET_READ_INTERVAL_MS_def)
  moreover have "length (kh_starts h) \<le> Suc (length (kh_ends h))" using c by (simp add: clocked_def)
  moreover have "rested s h" using c by (simp add: clocked_def)
  ultimately show ?thesis unfolding rested_def by blast
qed

theorem key_set_reads_are_paced_witness:
  "int (length (filter (\<lambda>t. 0 \<le> t \<and> t \<le> 25000)
       (kh_starts (record_event (keySet [] [] :: js key_set) (Ask [] 7) (snd (lookup_start [] 7 (keySet [] [])))
          \<lparr>kh_starts = [], kh_ends = [], kh_reads = [], kh_now = 0\<rparr>)))) \<le> 25000 div KEY_SET_READ_INTERVAL_MS + 1"
proof -
  have "ks_run (snd (lookup_start [] 7 (keySet [] [] :: js key_set)))
     (record_event (keySet [] []) (Ask [] 7) (snd (lookup_start [] 7 (keySet [] [])))
        \<lparr>kh_starts = [], kh_ends = [], kh_reads = [], kh_now = 0\<rparr>)"
    by (rule ks_run.more [OF ks_run.fresh ks_step.ask]) simp
  from key_set_reads_are_paced [OF this, of 25000 0] show ?thesis by simp
qed

text \<open>
  Every answer comes from the newest read that succeeded: a failed read keeps the last good copy. A
  key that copy lacks is \<open>unlisted\<close> only when no read has failed since; otherwise, and with no copy at
  all, the set is \<open>unavailable\<close>. A lookup answers at once exactly when that copy lists its key.
\<close>
theorem lookups_answer_from_the_last_good_read:
  assumes "ks_run s h"
  shows "lookup_resume kid s =
       (case latest_good (kh_reads h) of
          None \<Rightarrow> unavailable s
        | Some keys \<Rightarrow>
            (case jm_get keys kid of
               Some pk \<Rightarrow> Listed pk
             | None \<Rightarrow> if newest_failed (kh_reads h) then unavailable s else Unlisted)) \<and>
     fst (lookup_start kid now s) =
       (case latest_good (kh_reads h) of
          None \<Rightarrow> None
        | Some keys \<Rightarrow> map_option Listed (jm_get keys kid))"
proof -
  have "mirrors s h" by (rule mirrors_run [OF assms])
  then show ?thesis
    by (auto simp: mirrors_def lookup_resume_def lookup_start_def held_key_def split: option.splits)
qed

theorem lookups_answer_from_the_last_good_read_witness:
  "lookup_resume (lit ''k'') (keySet [] [] :: js key_set) = unavailable (keySet [] [])"
proof -
  have "ks_run (keySet [] [] :: js key_set) \<lparr>kh_starts = [], kh_ends = [], kh_reads = [], kh_now = 0\<rparr>"
    by (rule ks_run.fresh)
  from lookups_answer_from_the_last_good_read [OF this, of "lit ''k''" 0] show ?thesis
    by (simp del: lit_simps)
qed

text \<open>
  A read yields a key set only from a successful answer of at most 8 MiB that parses to a document
  listing at most 1000 entries; the set is not empty, and each of its keys is an RSA key of an entry
  that names it.
\<close>
theorem key_set_comes_from_a_bounded_document:
  assumes "readKeySet rt answer = Inr keys"
  shows "\<exists>response text document entries.
     answer = FetchAnswered response \<and> rs_ok response \<and>
     (\<forall>b. rs_body response = Some b \<longrightarrow> length (concat (bs_chunks b)) \<le> MAX_KEY_SET_BYTES) \<and>
     rt_json rt text = Some document \<and> member_of document (lit ''keys'') = Some (JArr entries) \<and>
     keys \<noteq> [] \<and> length keys \<le> MAX_KEYS_PER_SET \<and>
     (\<forall>kid pk. jm_get keys kid = Some pk \<longrightarrow> (\<exists>e\<in>set entries. rsaPublicKey rt e = Some (kid, pk)))"
proof -
  obtain response body d where r: "answer = FetchAnswered response" "rs_ok response"
      "readKeySetText rt response = Inr body" "rt_json rt body = Some d" "publishedKeys rt d = Inr keys"
    using assms by (auto simp: readKeySet_def simp del: lit_simps split: fetched.splits if_splits sum.splits option.splits)
  have "readBoundedStream rt (rs_body response) MAX_KEY_SET_BYTES = Got (Some body)"
    using r(3) by (auto simp: readKeySetText_def simp del: lit_simps split: attempt.splits option.splits)
  then have "\<forall>b. rs_body response = Some b \<longrightarrow> length (concat (bs_chunks b)) \<le> MAX_KEY_SET_BYTES"
    using readBoundedStream_kept [of rt _ MAX_KEY_SET_BYTES body] by auto
  moreover from publishedKeys_sound [OF r(5)] obtain entries where
    "member_of d (lit ''keys'') = Some (JArr entries)" "keys \<noteq> []" "length keys \<le> MAX_KEYS_PER_SET"
    "\<forall>kid pk. jm_get keys kid = Some pk \<longrightarrow> (\<exists>e\<in>set entries. rsaPublicKey rt e = Some (kid, pk))"
    unfolding from_entry_def by (metis order_trans)
  ultimately show ?thesis using r by blast
qed

theorem key_set_comes_from_a_bounded_document_witness:
  "\<exists>entries. member_of (the (sample_json (lit ''d''))) (lit ''keys'') = Some (JArr entries) \<and>
     (\<exists>e\<in>set entries. rsaPublicKey sample_runtime e = Some (lit ''k'', \<lparr>pk_publicKey = lit ''s'', pk_endorsements = None\<rparr>))"
proof -
  let ?answer = "FetchAnswered \<lparr>rs_ok = True, rs_status = 200,
     rs_body = Some \<lparr>bs_chunks = [lit ''d''], bs_failure = None, bs_cancel = None\<rparr>\<rparr>"
  let ?keys = "[(lit ''k'', \<lparr>pk_publicKey = lit ''s'', pk_endorsements = None\<rparr>)] :: js key_map"
  have "rt_json sample_runtime (lit ''d'') = sample_json (lit ''d'')" by (simp add: sample_runtime_def)
  moreover have "sample_json (lit ''d'') = Some (JObj [(lit ''keys'',
      JArr [JObj [(lit ''kid'', JStr (lit ''k'')), (lit ''n'', JStr (lit ''s''))], JNull])])" by code_simp
  moreover have "collect_keys sample_runtime [JObj [(lit ''kid'', JStr (lit ''k'')), (lit ''n'', JStr (lit ''s''))], JNull] [] = ?keys"
    by code_simp
  ultimately have "readKeySet sample_runtime ?answer = Inr ?keys"
    by (simp add: readKeySet_def readKeySetText_def readBoundedStream_def MAX_KEY_SET_BYTES_def MAX_KEYS_PER_SET_def
        publishedKeys_def sample_runtime_def)
  from key_set_comes_from_a_bounded_document [OF this] obtain body d entries where
    t: "rt_json sample_runtime body = Some d" "member_of d (lit ''keys'') = Some (JArr entries)"
      "\<forall>kid pk. jm_get ?keys kid = Some pk \<longrightarrow> (\<exists>e\<in>set entries. rsaPublicKey sample_runtime e = Some (kid, pk))"
    by blast
  have "sample_json body = Some d" using t(1) by (simp add: sample_runtime_def)
  then have "member_of (the (sample_json (lit ''d''))) (lit ''keys'') = Some (JArr entries)"
    using t(2) by (auto simp: sample_json_def split: if_splits)
  moreover have "jm_get ?keys (lit ''k'') = Some \<lparr>pk_publicKey = lit ''s'', pk_endorsements = None\<rparr>" by code_simp
  ultimately show ?thesis using t(3) by blast
qed

end
