(* ===== verification/TeamsVerifier.thy ===== *)
theory TeamsVerifier
  imports TeamsKeySet
begin

text \<open>
  The verifier of inbound Teams activities (\<open>gateway-teams/src/activity-verifier.ts\<close>), the SDK validator
  as it reaches it (\<open>sdk-validator.ts\<close>) and the signature check (\<open>rs256-signature.ts\<close>).

  The Microsoft SDK is a parameter: its module, its constructor and its \<open>check\<close>, which answers or throws
  and calls the logger it was given. A verification is state passing over a world: looking a key up and
  asking the SDK change it. The lookup is a parameter too; \<open>TeamsKeySet\<close> is what it stands for.
\<close>

section \<open>The signature\<close>

definition verifiesRs256 :: "'k runtime \<Rightarrow> js \<Rightarrow> 'k \<Rightarrow> bool" where
  "verifiesRs256 rt rawToken publicKey =
     (case split_on 46 rawToken of
        header # payload # signature # _ \<Rightarrow>
          (case rt_verify rt (header @ lit ''.'' @ payload) publicKey signature of
             None \<Rightarrow> False
           | Some b \<Rightarrow> b)
      | _ \<Rightarrow> False)"

section \<open>The SDK's module\<close>

text \<open>What a module exports under a name, as far as \<open>||\<close>, \<open>??\<close> and \<open>typeof\<close> look at it.\<close>

datatype 'c exported = EUndefined | ENull | EFalsy | ETruthy | EClass 'c

fun truthy :: "'c exported \<Rightarrow> bool" where
  "truthy ETruthy = True"
| "truthy (EClass c) = True"
| "truthy _ = False"

fun nullish_export :: "'c exported \<Rightarrow> bool" where
  "nullish_export EUndefined = True"
| "nullish_export ENull = True"
| "nullish_export _ = False"

record 'c sdk_exports =
  se_inbound :: "'c exported"
  se_service :: "'c exported"

record 'c sdk_module =
  sm_named :: "'c sdk_exports"
  sm_default :: "'c sdk_exports option"

text \<open>The class, and whether it accepts a tenant-issued token.\<close>

definition validatorClass :: "'c sdk_module option \<Rightarrow> ('c \<times> bool) option" where
  "validatorClass md =
     (let named = (case md of
                     None \<Rightarrow> None
                   | Some m \<Rightarrow>
                       if truthy (se_inbound (sm_named m)) \<or> truthy (se_service (sm_named m))
                       then Some (sm_named m) else sm_default m);
          inbound = (case named of None \<Rightarrow> EUndefined | Some n \<Rightarrow> se_inbound n);
          service = (case named of None \<Rightarrow> EUndefined | Some n \<Rightarrow> se_service n)
      in case (if nullish_export inbound then service else inbound) of
           EClass c \<Rightarrow> Some (c, \<not> nullish_export inbound)
         | _ \<Rightarrow> None)"

definition WHICH_VALIDATOR :: js where
  "WHICH_VALIDATOR = lit ''@microsoft/teams.apps/dist/middleware/index.js exporting InboundActivityTokenValidator or ServiceTokenValidator''"

text \<open>How importing the module goes: it throws, reading its exports throws, or it is there.\<close>

datatype 'c module_import =
    ImportThrew jsval
  | ExportsThrew jsval
  | Imported "'c sdk_module option"

definition resolveValidatorClass :: "'c module_import \<Rightarrow> js + ('c \<times> bool)" where
  "resolveValidatorClass imported =
     (case imported of
        ImportThrew e \<Rightarrow> Inl (lit ''could not import '' @ WHICH_VALIDATOR @ lit '' ('' @ errorKind e @ lit '')'')
      | ExportsThrew e \<Rightarrow>
          Inl (lit ''could not read the validator classes of '' @ WHICH_VALIDATOR @ lit '' ('' @ errorKind e @ lit '')'')
      | Imported md \<Rightarrow>
          (case validatorClass md of
             None \<Rightarrow> Inl (lit ''found neither class: expected '' @ WHICH_VALIDATOR)
           | Some c \<Rightarrow> Inr c))"

datatype 'v loaded = Loaded 'v bool | LoadUnavailable js

text \<open>\<open>newValidator\<close> is \<open>new ctor(clientId, tenantId, ...)\<close>: the thrown value or the validator.\<close>

definition loadValidator ::
    "('c \<Rightarrow> js \<Rightarrow> js option \<Rightarrow> jsval \<Rightarrow> jsval + 'v) \<Rightarrow> js \<Rightarrow> js option \<Rightarrow> jsval \<Rightarrow> 'c module_import \<Rightarrow> 'v loaded" where
  "loadValidator newValidator clientId tenantId cloud imported =
     (case resolveValidatorClass imported of
        Inl reason \<Rightarrow> LoadUnavailable reason
      | Inr (ctor, acceptsTenantIssued) \<Rightarrow>
          (case newValidator ctor clientId tenantId cloud of
             Inr validator \<Rightarrow> Loaded validator acceptsTenantIssued
           | Inl e \<Rightarrow>
               LoadUnavailable (lit ''could not construct the validator from '' @ WHICH_VALIDATOR @
                 lit '' ('' @ errorKind e @ lit '')'')))"

section \<open>The SDK's verdict\<close>

text \<open>
  What \<open>check\<close> does: the \<open>appId\<close> and \<open>serviceUrl\<close> of its result, or a throw that is or is not a plain
  \<open>Error\<close>. A call of the logger's \<open>error\<close> is its first two arguments.
\<close>

datatype sdk_answer =
    CheckAnswered "json option" "json option"
  | CheckThrewError
  | CheckThrewOther jsval

type_synonym log_call = "jsval \<times> jsval"

definition SDK_KEY_READ_FAILED :: js where
  "SDK_KEY_READ_FAILED = lit ''Failed to get signing key''"

definition noteSdkKeyReadFailure :: "log_call \<Rightarrow> bool \<Rightarrow> bool" where
  "noteSdkKeyReadFailure call keyReadFailed =
     (case call of (msg, cause) \<Rightarrow>
        (case msg of
           VStr t \<Rightarrow>
             if \<not> prefix SDK_KEY_READ_FAILED t then keyReadFailed
             else if field_of cause (lit ''name'') = VStr (lit ''SigningKeyNotFoundError'') then keyReadFailed
             else True
         | _ \<Rightarrow> keyReadFailed))"

record resolved_token =
  rv_appId :: js
  rv_serviceUrl :: js

datatype verdict = Resolved resolved_token | NotResolved | VerdictRefused refusal

definition sdkVerdict :: "sdk_answer \<Rightarrow> verdict" where
  "sdkVerdict answer =
     (case answer of
        CheckAnswered appId serviceUrl \<Rightarrow>
          (case (string_of appId, string_of serviceUrl) of
             (Some a, Some u) \<Rightarrow> Resolved \<lparr>rv_appId = a, rv_serviceUrl = u\<rparr>
           | _ \<Rightarrow> NotResolved)
      | CheckThrewError \<Rightarrow> NotResolved
      | CheckThrewOther e \<Rightarrow>
          VerdictRefused (refuse ValidatorUnavailable
            (Some (lit ''the Teams SDK token validator failed instead of judging the token ('' @ errorKind e @ lit '')''))))"

definition SDK_KEYS_UNREADABLE :: js where
  "SDK_KEYS_UNREADABLE = lit ''the Teams SDK could not read the published signing keys to check the token, so it could not judge it; a retry may succeed''"

definition sdkCheck :: "sdk_answer \<times> log_call list \<Rightarrow> verdict" where
  "sdkCheck outcome =
     (case outcome of (answer, calls) \<Rightarrow>
        let keyReadFailed = fold noteSdkKeyReadFailure calls False;
            verdict = sdkVerdict answer
        in if verdict = NotResolved \<and> keyReadFailed
           then VerdictRefused (refuse KeySetUnavailable (Some SDK_KEYS_UNREADABLE))
           else verdict)"

section \<open>Reading the request\<close>

record verifier_request =
  rq_authorization :: "js option"
  rq_bodyUsed :: bool
  rq_locked :: bool
  rq_body :: "byte_stream option"

definition MAX_BODY_BYTES :: nat where "MAX_BODY_BYTES = 1024 * 1024"

datatype body_read = BodyParsed parsed_body | BodyMalformed | BodyRefused refusal

definition readBody :: "'k runtime \<Rightarrow> verifier_request \<Rightarrow> body_read" where
  "readBody rt request =
     (if rq_bodyUsed request \<or> rq_locked request then BodyRefused (refuse BodyAlreadyRead None)
      else case readBoundedStream rt (rq_body request) MAX_BODY_BYTES of
        Failed e \<Rightarrow> BodyMalformed
      | Got None \<Rightarrow> BodyMalformed
      | Got (Some t) \<Rightarrow> (case parseActivityBody rt t of None \<Rightarrow> BodyMalformed | Some b \<Rightarrow> BodyParsed b))"

record read_request =
  rr_header :: js
  rr_rawToken :: js
  rr_body :: parsed_body

definition readRequest :: "'k runtime \<Rightarrow> verifier_request \<Rightarrow> refusal + read_request" where
  "readRequest rt request =
     (case (rq_authorization request, readBearerToken (rq_authorization request)) of
        (Some header, Some rawToken) \<Rightarrow>
          (case readBody rt request of
             BodyRefused r \<Rightarrow> Inl r
           | BodyMalformed \<Rightarrow> Inl (refuse MalformedBody None)
           | BodyParsed body \<Rightarrow> Inr \<lparr>rr_header = header, rr_rawToken = rawToken, rr_body = body\<rparr>)
      | _ \<Rightarrow> Inl (refuse MissingAuthorization None))"

section \<open>Admission\<close>

definition NO_KEY_ID :: js where
  "NO_KEY_ID = lit ''the token is not a JWT whose header names its signing key (a non-empty string kid), so the Teams SDK was not asked''"
definition NOT_RS256 :: js where
  "NOT_RS256 = lit ''the token's header does not name RS256, the one algorithm the Teams SDK accepts, so the Teams SDK was not asked''"
definition KEY_NOT_PUBLISHED :: js where
  "KEY_NOT_PUBLISHED = lit ''the token names a signing key the published key set, as last read, does not list, so the Teams SDK was not asked''"
definition KEY_NOT_ENDORSED :: js where
  "KEY_NOT_ENDORSED = lit ''the token's Bot Framework signing key is not endorsed for the activity's channel, so the Teams SDK was not asked''"
definition BAD_SIGNATURE :: js where
  "BAD_SIGNATURE = lit ''the token's RS256 signature does not verify against the published key it names, so the Teams SDK was not asked''"
definition NO_ENTRA_PATH :: js where
  "NO_ENTRA_PATH = lit ''the token is tenant-issued and the loaded Teams SDK validator (2.0.x ServiceTokenValidator) has no path that accepts one, so the Teams SDK was not asked''"
definition SDK_WOULD_REFUSE :: js where
  "SDK_WOULD_REFUSE = lit ''the token's audience is not this app's, or it is expired or not yet valid beyond the SDK's 300-second tolerance, so the Teams SDK was not asked''"

datatype set_name = BotFramework | Tenant

text \<open>\<open>tenantId\<close> decides whether there is a tenant key set.\<close>

definition keySetFor :: "'k runtime \<Rightarrow> js \<Rightarrow> js option \<Rightarrow> js \<Rightarrow> bool \<Rightarrow> refusal + set_name" where
  "keySetFor rt rawToken tenantId loginEndpoint acceptsTenantIssued =
     (if \<not> isTenantIssuedToken rt rawToken loginEndpoint then Inr BotFramework
      else if tenantId = None then Inl (refuse TenantUnverified None)
      else if acceptsTenantIssued then Inr Tenant
      else Inl (refuse InvalidToken (Some NO_ENTRA_PATH)))"

text \<open>Looking a key up, the clock in whole seconds, and the SDK's \<open>check\<close>.\<close>

record ('k, 'v, 'w) services =
  sv_lookup :: "set_name \<Rightarrow> js \<Rightarrow> 'w \<Rightarrow> 'k key_lookup \<times> 'w"
  sv_now :: "'w \<Rightarrow> rat"
  sv_check :: "'v \<Rightarrow> js \<Rightarrow> json_object \<Rightarrow> 'w \<Rightarrow> (sdk_answer \<times> log_call list) \<times> 'w"

definition refuseListedKey :: "'k runtime \<Rightarrow> js \<Rightarrow> 'k key_lookup \<Rightarrow> bool \<Rightarrow> json option \<Rightarrow> refusal option" where
  "refuseListedKey rt rawToken listed isBotFrameworkKey channelId =
     (case listed of
        Unlisted \<Rightarrow> Some (refuse InvalidToken (Some KEY_NOT_PUBLISHED))
      | Unavailable m \<Rightarrow> Some (refuse KeySetUnavailable (Some m))
      | Listed pk \<Rightarrow>
          if isBotFrameworkKey \<and> \<not> keyEndorsesChannel (pk_endorsements pk) channelId
          then Some (refuse InvalidToken (Some KEY_NOT_ENDORSED))
          else if \<not> verifiesRs256 rt rawToken (pk_publicKey pk)
          then Some (refuse InvalidToken (Some BAD_SIGNATURE))
          else None)"

record expectation =
  xp_clientId :: js
  xp_tenantId :: "js option"
  xp_loginEndpoint :: js

definition admitToSdk ::
    "'k runtime \<Rightarrow> ('k, 'v, 'w) services \<Rightarrow> expectation \<Rightarrow> bool \<Rightarrow> js \<Rightarrow> json option \<Rightarrow> 'w \<Rightarrow> refusal option \<times> 'w" where
  "admitToSdk rt sv expected acceptsTenantIssued rawToken channelId w =
     (case readTokenKeyId rt rawToken of
        None \<Rightarrow> (Some (refuse InvalidToken (Some NO_KEY_ID)), w)
      | Some kid \<Rightarrow>
          (case tenantRefusalBeforeVerification rt rawToken (xp_tenantId expected) (xp_loginEndpoint expected) of
             Some r \<Rightarrow> (Some (refuse r None), w)
           | None \<Rightarrow>
               (case keySetFor rt rawToken (xp_tenantId expected) (xp_loginEndpoint expected) acceptsTenantIssued of
                  Inl r \<Rightarrow> (Some r, w)
                | Inr name \<Rightarrow>
                    if readTokenAlgorithm rt rawToken \<noteq> Some (lit ''RS256'')
                    then (Some (refuse InvalidToken (Some NOT_RS256)), w)
                    else (case sv_lookup sv name kid w of (listed, w') \<Rightarrow>
                      (case refuseListedKey rt rawToken listed (name = BotFramework) channelId of
                         Some r \<Rightarrow> (Some r, w')
                       | None \<Rightarrow>
                           (if sdkRefusesTokenClaims rt rawToken (xp_clientId expected) (sv_now sv w')
                            then Some (refuse InvalidToken (Some SDK_WOULD_REFUSE)) else None,
                            w'))))))"

definition gatedSdkCheck ::
    "'k runtime \<Rightarrow> ('k, 'v, 'w) services \<Rightarrow> expectation \<Rightarrow> 'v \<Rightarrow> bool \<Rightarrow> read_request \<Rightarrow> 'w \<Rightarrow> verdict \<times> 'w" where
  "gatedSdkCheck rt sv expected validator acceptsTenantIssued read w =
     (case admitToSdk rt sv expected acceptsTenantIssued (rr_rawToken read)
             (map_of (pb_activity (rr_body read)) (lit ''channelId'')) w of
        (Some r, w') \<Rightarrow> (VerdictRefused r, w')
      | (None, w') \<Rightarrow>
          (case sv_check sv validator (rr_header read) (pb_activity (rr_body read)) w' of
             (outcome, w'') \<Rightarrow> (sdkCheck outcome, w'')))"

section \<open>The verifier\<close>

datatype verify_result = Accepted json_object resolved_token | Refused refusal

text \<open>The token the SDK resolved, or \<open>None\<close> when it refused it.\<close>

definition judgeVerifiedToken ::
    "'k runtime \<Rightarrow> resolved_token option \<Rightarrow> js \<Rightarrow> parsed_body \<Rightarrow> expectation \<Rightarrow> verify_result" where
  "judgeVerifiedToken rt token rawToken body expected =
     (case (token, decodeVerifiedClaims rt rawToken) of
        (Some t, Some claims) \<Rightarrow>
          (case checkVerifiedClaims rt claims
                  \<lparr>ex_clientId = xp_clientId expected, ex_tenantId = xp_tenantId expected,
                   ex_loginEndpoint = xp_loginEndpoint expected, ex_serviceUrl = pb_serviceUrl body,
                   ex_channelId = map_of (pb_activity body) (lit ''channelId'')\<rparr> of
             None \<Rightarrow> Accepted (pb_activity body) t
           | Some r \<Rightarrow> Refused (refuse r None))
      | _ \<Rightarrow> Refused (refuse InvalidToken None))"

definition DEFAULT_LOGIN_ENDPOINT :: js where
  "DEFAULT_LOGIN_ENDPOINT = lit ''https://login.microsoftonline.com''"

text \<open>A verifier: what it expects, where its key sets are, and the load it keeps.\<close>

record 'v verifier =
  ve_expected :: expectation
  ve_cloud :: jsval
  ve_botFrameworkUrl :: js
  ve_tenantUrl :: "js option"
  ve_loaded :: "'v loaded option"

text \<open>Options that hold strings are read back as strings; the check refuses every other.\<close>

definition createActivityVerifier :: "'k runtime \<Rightarrow> verifier_options \<Rightarrow> js + 'v verifier" where
  "createActivityVerifier rt opts =
     (case assertVerifierOptions rt opts of
        Some message \<Rightarrow> Inl message
      | None \<Rightarrow>
          let clientId = (case non_empty (vo_clientId opts) of None \<Rightarrow> [] | Some c \<Rightarrow> c);
              tenantId = non_empty (vo_tenantId opts);
              loginEndpoint = (if vo_cloud opts = VUndef then DEFAULT_LOGIN_ENDPOINT
                               else str_field (vo_cloud opts) (lit ''loginEndpoint''));
              metadata = (if vo_cloud opts = VUndef then None
                          else Some (str_field (vo_cloud opts) (lit ''openIdMetadataUrl'')))
          in Inr \<lparr>ve_expected = \<lparr>xp_clientId = clientId, xp_tenantId = tenantId, xp_loginEndpoint = loginEndpoint\<rparr>,
                  ve_cloud = vo_cloud opts,
                  ve_botFrameworkUrl = keySetUrl metadata,
                  ve_tenantUrl = map_option (tenantKeySetUrl loginEndpoint) tenantId,
                  ve_loaded = None\<rparr>)"

text \<open>\<open>load\<close> is what loading would give; it is kept from the first request that gets that far.\<close>

definition verify_request ::
    "'k runtime \<Rightarrow> ('k, 'v, 'w) services \<Rightarrow> 'v loaded \<Rightarrow> 'v verifier \<Rightarrow> verifier_request \<Rightarrow> 'w \<Rightarrow>
     verify_result \<times> 'v verifier \<times> 'w" where
  "verify_request rt sv load ve request w =
     (case readRequest rt request of
        Inl r \<Rightarrow> (Refused r, ve, w)
      | Inr read \<Rightarrow>
          let loaded = (case ve_loaded ve of Some l \<Rightarrow> l | None \<Rightarrow> load);
              ve' = ve\<lparr>ve_loaded := Some loaded\<rparr>
          in case loaded of
               LoadUnavailable m \<Rightarrow> (Refused (refuse ValidatorUnavailable (Some m)), ve', w)
             | Loaded validator acceptsTenantIssued \<Rightarrow>
                 (case gatedSdkCheck rt sv (ve_expected ve) validator acceptsTenantIssued read w of
                    (VerdictRefused r, w') \<Rightarrow> (Refused r, ve', w')
                  | (Resolved t, w') \<Rightarrow>
                      (judgeVerifiedToken rt (Some t) (rr_rawToken read) (rr_body read) (ve_expected ve), ve', w')
                  | (NotResolved, w') \<Rightarrow>
                      (judgeVerifiedToken rt None (rr_rawToken read) (rr_body read) (ve_expected ve), ve', w')))"

section \<open>Lemmas\<close>

lemma refuseListedKey_None:
  "refuseListedKey rt raw l bf ch = None \<longleftrightarrow>
     (\<exists>pk. l = Listed pk \<and> (bf \<longrightarrow> keyEndorsesChannel (pk_endorsements pk) ch) \<and> verifiesRs256 rt raw (pk_publicKey pk))"
  by (auto simp: refuseListedKey_def split: key_lookup.splits)

lemma admitted:
  assumes "admitToSdk rt sv x acc raw ch w = (None, w')"
  shows "\<exists>kid name pk.
     readTokenKeyId rt raw = Some kid \<and> readTokenAlgorithm rt raw = Some (lit ''RS256'') \<and>
     keySetFor rt raw (xp_tenantId x) (xp_loginEndpoint x) acc = Inr name \<and>
     sv_lookup sv name kid w = (Listed pk, w') \<and> verifiesRs256 rt raw (pk_publicKey pk) \<and>
     (name = BotFramework \<longrightarrow> keyEndorsesChannel (pk_endorsements pk) ch) \<and>
     \<not> sdkRefusesTokenClaims rt raw (xp_clientId x) (sv_now sv w')"
  using assms
  by (auto simp: admitToSdk_def refuseListedKey_None simp del: lit_simps split: option.splits sum.splits if_splits prod.splits)

lemma sdkCheck_Resolved: "sdkCheck (ans, calls) = Resolved t \<Longrightarrow>
    ans = CheckAnswered (Some (JStr (rv_appId t))) (Some (JStr (rv_serviceUrl t)))"
  by (auto simp: sdkCheck_def sdkVerdict_def Let_def string_of_iff split: sdk_answer.splits option.splits if_splits)

lemma gated_resolved:
  assumes "gatedSdkCheck rt sv x v acc read w = (Resolved t, w'')"
  shows "\<exists>w' calls. admitToSdk rt sv x acc (rr_rawToken read)
        (map_of (pb_activity (rr_body read)) (lit ''channelId'')) w = (None, w') \<and>
     sv_check sv v (rr_header read) (pb_activity (rr_body read)) w' =
       ((CheckAnswered (Some (JStr (rv_appId t))) (Some (JStr (rv_serviceUrl t))), calls), w'')"
  using assms
  by (auto simp: gatedSdkCheck_def simp del: lit_simps split: prod.splits option.splits dest!: sdkCheck_Resolved)

lemma verify_accepted:
  assumes "verify_request rt sv load ve request w = (Accepted activity t, ve', w'')"
  shows "\<exists>read v acc. readRequest rt request = Inr read \<and> activity = pb_activity (rr_body read) \<and>
     gatedSdkCheck rt sv (ve_expected ve) v acc read w = (Resolved t, w'') \<and>
     judgeVerifiedToken rt (Some t) (rr_rawToken read) (rr_body read) (ve_expected ve) = Accepted activity t"
  using assms
  by (auto simp: verify_request_def judgeVerifiedToken_def Let_def simp del: lit_simps
      split: sum.splits loaded.splits prod.splits verdict.splits option.splits)

lemma judge_accepted:
  "judgeVerifiedToken rt tok raw body x = Accepted activity t \<longleftrightarrow>
     tok = Some t \<and> activity = pb_activity body \<and>
     (\<exists>claims. decodeVerifiedClaims rt raw = Some claims \<and>
        checkVerifiedClaims rt claims
          \<lparr>ex_clientId = xp_clientId x, ex_tenantId = xp_tenantId x, ex_loginEndpoint = xp_loginEndpoint x,
           ex_serviceUrl = pb_serviceUrl body, ex_channelId = map_of (pb_activity body) (lit ''channelId'')\<rparr> = None)"
  by (auto simp: judgeVerifiedToken_def simp del: lit_simps split: option.splits)

lemma readRequest_token:
  "readRequest rt request = Inr read \<Longrightarrow>
     rq_authorization request = Some (rr_header read) \<and>
     readBearerToken (rq_authorization request) = Some (rr_rawToken read)"
  by (auto simp: readRequest_def split: option.splits body_read.splits)

lemma readRequest_body:
  assumes "readRequest rt request = Inr read" "rq_body request = Some b"
  shows "length (concat (bs_chunks b)) \<le> MAX_BODY_BYTES"
proof -
  obtain t where "readBoundedStream rt (Some b) MAX_BODY_BYTES = Got (Some t)"
    using assms by (auto simp: readRequest_def readBody_def split: option.splits body_read.splits if_splits attempt.splits)
  then show ?thesis by (simp add: readBoundedStream_kept)
qed

text \<open>The bearer token is all of the verdict the SDK decides: without admission it is not asked.\<close>

lemma admit_ignores_check: "admitToSdk rt (sv\<lparr>sv_check := c\<rparr>) x acc raw ch w = admitToSdk rt sv x acc raw ch w"
  by (simp add: admitToSdk_def split: option.split sum.split prod.split)

lemma gated_ignores_check:
  assumes "\<And>w'. admitToSdk rt sv x acc (rr_rawToken read)
      (map_of (pb_activity (rr_body read)) (lit ''channelId'')) w \<noteq> (None, w')"
  shows "\<exists>r w'. gatedSdkCheck rt sv x v acc read w = (VerdictRefused r, w') \<and>
     gatedSdkCheck rt (sv\<lparr>sv_check := c\<rparr>) x v acc read w = (VerdictRefused r, w')"
proof -
  obtain r w' where "admitToSdk rt sv x acc (rr_rawToken read)
      (map_of (pb_activity (rr_body read)) (lit ''channelId'')) w = (Some r, w')"
    using assms by (metis option.exhaust prod.exhaust)
  then show ?thesis by (simp add: gatedSdkCheck_def admit_ignores_check del: lit_simps)
qed

lemma checkTenant_reason: "checkTenant rt claims t l = Some r \<Longrightarrow> r \<noteq> KeySetUnavailable"
  by (auto simp: checkTenant_def split: option.splits if_splits)

lemma judge_reason:
  "judgeVerifiedToken rt tok raw body x = Refused r \<Longrightarrow> re_reason r \<noteq> KeySetUnavailable"
  by (auto simp: judgeVerifiedToken_def checkVerifiedClaims_def dest: checkTenant_reason simp del: lit_simps
      split: option.splits if_splits)

lemma readRequest_reason: "readRequest rt request = Inl r \<Longrightarrow> re_reason r \<noteq> KeySetUnavailable"
  by (auto simp: readRequest_def readBody_def split: option.splits body_read.splits if_splits attempt.splits)

lemma verify_refused_later:
  assumes "verify_request rt sv load ve request w = (Refused r, ve', w'')" "re_reason r = KeySetUnavailable"
  shows "\<exists>read v acc. gatedSdkCheck rt sv (ve_expected ve) v acc read w = (VerdictRefused r, w'')"
  using assms
  by (auto simp: verify_request_def Let_def dest: judge_reason readRequest_reason simp del: lit_simps
      split: sum.splits loaded.splits prod.splits verdict.splits)

lemma admit_unavailable:
  assumes "admitToSdk rt sv x acc raw ch w = (Some r, w')" "re_reason r = KeySetUnavailable"
  shows "\<exists>name kid m. sv_lookup sv name kid w = (Unavailable m, w')"
  using assms
  by (auto simp: admitToSdk_def keySetFor_def refuseListedKey_def tenantRefusalBeforeVerification_def
      dest: checkTenant_reason simp del: lit_simps
      split: option.splits sum.splits if_splits prod.splits key_lookup.splits)

definition key_read_failure :: "log_call \<Rightarrow> bool" where
  "key_read_failure call \<longleftrightarrow> (\<exists>t cause. call = (VStr t, cause) \<and> prefix SDK_KEY_READ_FAILED t \<and>
     field_of cause (lit ''name'') \<noteq> VStr (lit ''SigningKeyNotFoundError''))"

lemma note_step: "noteSdkKeyReadFailure call b \<longleftrightarrow> b \<or> key_read_failure call"
proof -
  obtain msg cause where "call = (msg, cause)" by (cases call) simp
  then show ?thesis
    by (cases msg) (auto simp: noteSdkKeyReadFailure_def key_read_failure_def simp del: lit_simps)
qed

lemma noted: "fold noteSdkKeyReadFailure calls b \<longleftrightarrow> b \<or> (\<exists>call\<in>set calls. key_read_failure call)"
  by (induction calls arbitrary: b) (auto simp: note_step)

lemma sdk_unavailable:
  assumes "sdkCheck (answer, calls) = VerdictRefused r" "re_reason r = KeySetUnavailable"
  shows "\<exists>t cause. (VStr t, cause) \<in> set calls \<and>
     prefix SDK_KEY_READ_FAILED t \<and> field_of cause (lit ''name'') \<noteq> VStr (lit ''SigningKeyNotFoundError'')"
proof -
  have "fold noteSdkKeyReadFailure calls False"
    using assms by (auto simp: sdkCheck_def sdkVerdict_def Let_def split: sdk_answer.splits option.splits if_splits)
  then show ?thesis by (auto simp: noted key_read_failure_def simp del: lit_simps)
qed

section \<open>Samples\<close>

definition sample_key :: "js published_key" where
  "sample_key = \<lparr>pk_publicKey = lit ''s'', pk_endorsements = Some [TEAMS_CHANNEL_ID]\<rparr>"

definition sample_services :: "(js, unit, unit) services" where
  "sample_services =
     \<lparr>sv_lookup = (\<lambda>name kid w. (if kid = lit ''k'' then Listed sample_key else Unlisted, w)),
      sv_now = (\<lambda>w. 1000),
      sv_check = (\<lambda>v h a w. ((CheckAnswered (Some (JStr (lit ''app''))) (Some (JStr (lit ''u''))), []), w))\<rparr>"

definition sample_verifier :: "unit verifier" where
  "sample_verifier =
     \<lparr>ve_expected = \<lparr>xp_clientId = lit ''app'', xp_tenantId = None, xp_loginEndpoint = lit ''login''\<rparr>,
      ve_cloud = VUndef, ve_botFrameworkUrl = keySetUrl None, ve_tenantUrl = None, ve_loaded = None\<rparr>"

definition sample_request :: "js \<Rightarrow> verifier_request" where
  "sample_request token =
     \<lparr>rq_authorization = Some (BEARER @ token), rq_bodyUsed = False, rq_locked = False,
      rq_body = Some \<lparr>bs_chunks = [lit ''b''], bs_failure = None, bs_cancel = None\<rparr>\<rparr>"

lemma sample_read:
  "readRequest sample_runtime (sample_request (lit ''h.p.s'')) =
     Inr \<lparr>rr_header = lit ''Bearer h.p.s'', rr_rawToken = lit ''h.p.s'',
          rr_body = \<lparr>pb_activity = [(lit ''serviceUrl'', JStr (lit ''u'')), (lit ''channelId'', JStr (lit ''msteams''))],
                     pb_serviceUrl = lit ''u''\<rparr>\<rparr>"
proof -
  have "readBearerToken (Some (lit ''Bearer h.p.s'')) = Some (lit ''h.p.s'')" by code_simp
  moreover have "parseActivityBody sample_runtime (lit ''b'') =
      Some \<lparr>pb_activity = [(lit ''serviceUrl'', JStr (lit ''u'')), (lit ''channelId'', JStr (lit ''msteams''))],
            pb_serviceUrl = lit ''u''\<rparr>" by code_simp
  ultimately show ?thesis
    by (simp add: readRequest_def sample_request_def BEARER_def readBody_def readBoundedStream_def MAX_BODY_BYTES_def
        sample_runtime_def)
qed

definition silent_check :: "unit \<Rightarrow> js \<Rightarrow> json_object \<Rightarrow> unit \<Rightarrow> (sdk_answer \<times> log_call list) \<times> unit" where
  "silent_check v h a w = ((CheckThrewError, []), w)"

section \<open>Properties\<close>

text \<open>
  C1: an accepted activity was signed for this bot: the request carried a bearer token naming RS256 and
  a key its key set listed, the signature verifies under that key (which, from the Bot Framework, is
  endorsed for the activity's channel), the SDK resolved the token, and the token's verified claims
  match: the audience is this app's, the service URL is the activity's, the channel is Teams, and the
  tenant is the configured one, or the token is no tenant's when none is configured.
\<close>
theorem accepted_means_verified:
  assumes "verify_request rt sv load ve request w = (Accepted activity t, ve', w'')"
  shows "\<exists>raw kid name pk w'. \<exists>body :: parsed_body. \<exists>claims.
     readBearerToken (rq_authorization request) = Some raw \<and> pb_activity body = activity \<and>
     readTokenKeyId rt raw = Some kid \<and> readTokenAlgorithm rt raw = Some (lit ''RS256'') \<and>
     sv_lookup sv name kid w = (Listed pk, w') \<and> verifiesRs256 rt raw (pk_publicKey pk) \<and>
     (name = BotFramework \<longrightarrow> keyEndorsesChannel (pk_endorsements pk) (Some (JStr TEAMS_CHANNEL_ID))) \<and>
     (\<exists>v header calls. sv_check sv v header activity w' =
        ((CheckAnswered (Some (JStr (rv_appId t))) (Some (JStr (rv_serviceUrl t))), calls), w'')) \<and>
     decodeVerifiedClaims rt raw = Some claims \<and>
     audienceMatches (map_of claims (lit ''aud'')) (xp_clientId (ve_expected ve)) \<and>
     serviceUrlMatches rt (map_of claims (lit ''serviceurl'')) (pb_serviceUrl body) \<and>
     map_of activity (lit ''channelId'') = Some (JStr TEAMS_CHANNEL_ID) \<and>
     checkTenant rt claims (xp_tenantId (ve_expected ve)) (xp_loginEndpoint (ve_expected ve)) = None"
proof -
  obtain read v acc where r: "readRequest rt request = Inr read" "activity = pb_activity (rr_body read)"
      "gatedSdkCheck rt sv (ve_expected ve) v acc read w = (Resolved t, w'')"
      "judgeVerifiedToken rt (Some t) (rr_rawToken read) (rr_body read) (ve_expected ve) = Accepted activity t"
    using verify_accepted [OF assms] by blast
  obtain claims where c: "decodeVerifiedClaims rt (rr_rawToken read) = Some claims"
      "audienceMatches (map_of claims (lit ''aud'')) (xp_clientId (ve_expected ve))"
      "serviceUrlMatches rt (map_of claims (lit ''serviceurl'')) (pb_serviceUrl (rr_body read))"
      "map_of activity (lit ''channelId'') = Some (JStr TEAMS_CHANNEL_ID)"
      "checkTenant rt claims (xp_tenantId (ve_expected ve)) (xp_loginEndpoint (ve_expected ve)) = None"
    using r(4) unfolding judge_accepted checkVerifiedClaims_None by (auto simp del: lit_simps)
  obtain w' calls where g: "admitToSdk rt sv (ve_expected ve) acc (rr_rawToken read)
        (map_of activity (lit ''channelId'')) w = (None, w')"
      "sv_check sv v (rr_header read) activity w' =
        ((CheckAnswered (Some (JStr (rv_appId t))) (Some (JStr (rv_serviceUrl t))), calls), w'')"
    using gated_resolved [OF r(3)] r(2) by blast
  obtain kid name pk where k: "readTokenKeyId rt (rr_rawToken read) = Some kid"
      "readTokenAlgorithm rt (rr_rawToken read) = Some (lit ''RS256'')"
      "sv_lookup sv name kid w = (Listed pk, w')" "verifiesRs256 rt (rr_rawToken read) (pk_publicKey pk)"
      "name = BotFramework \<longrightarrow> keyEndorsesChannel (pk_endorsements pk) (Some (JStr TEAMS_CHANNEL_ID))"
    using admitted [OF g(1)] c(4) by metis
  have b: "readBearerToken (rq_authorization request) = Some (rr_rawToken read)" using readRequest_token [OF r(1)] ..
  show ?thesis
    using b k c g(2) r(2) by blast
qed

theorem accepted_means_verified_witness:
  "\<exists>raw kid. readBearerToken (rq_authorization (sample_request (lit ''h.p.s''))) = Some raw \<and>
     readTokenKeyId sample_runtime raw = Some kid \<and> verifiesRs256 sample_runtime raw (pk_publicKey sample_key)"
proof -
  have "verify_request sample_runtime sample_services (Loaded () True) sample_verifier (sample_request (lit ''h.p.s'')) ()
     = (Accepted [(lit ''serviceUrl'', JStr (lit ''u'')), (lit ''channelId'', JStr (lit ''msteams''))]
         \<lparr>rv_appId = lit ''app'', rv_serviceUrl = lit ''u''\<rparr>,
        sample_verifier\<lparr>ve_loaded := Some (Loaded () True)\<rparr>, ())"
    unfolding verify_request_def sample_read Let_def by code_simp
  from accepted_means_verified [OF this] show ?thesis
    by (auto simp: sample_services_def simp del: lit_simps split: if_splits)
qed

text \<open>
  C5: a forgery never reaches the SDK: when the token's signature verifies under no key a lookup lists,
  the request is refused, and the answer, the verifier and the world are the same whatever the SDK's
  \<open>check\<close> would do.
\<close>
theorem forged_token_never_reaches_the_sdk:
  assumes "readBearerToken (rq_authorization request) = Some raw"
    and "\<And>name kid w pk w'. sv_lookup sv name kid w = (Listed pk, w') \<Longrightarrow> \<not> verifiesRs256 rt raw (pk_publicKey pk)"
  shows "(\<exists>r. fst (verify_request rt sv load ve request w) = Refused r) \<and>
     verify_request rt (sv\<lparr>sv_check := any\<rparr>) load ve request w = verify_request rt sv load ve request w"
proof (cases "readRequest rt request")
  case (Inl r)
  then show ?thesis by (simp add: verify_request_def)
next
  case (Inr read)
  then have raw: "rr_rawToken read = raw" using readRequest_token assms(1) by fastforce
  have gated: "\<exists>r w'. gatedSdkCheck rt sv (ve_expected ve) v acc read w = (VerdictRefused r, w') \<and>
     gatedSdkCheck rt (sv\<lparr>sv_check := any\<rparr>) (ve_expected ve) v acc read w = (VerdictRefused r, w')" for v acc
  proof (rule gated_ignores_check, rule notI)
    fix w'
    assume "admitToSdk rt sv (ve_expected ve) acc (rr_rawToken read)
        (map_of (pb_activity (rr_body read)) (lit ''channelId'')) w = (None, w')"
    from admitted [OF this] assms(2) show False by (auto simp: raw)
  qed
  show ?thesis
  proof (cases "case ve_loaded ve of Some l \<Rightarrow> l | None \<Rightarrow> load")
    case (Loaded v acc)
    from gated [of v acc] Inr Loaded show ?thesis by (auto simp: verify_request_def Let_def)
  next
    case (LoadUnavailable m)
    with Inr show ?thesis by (simp add: verify_request_def Let_def)
  qed
qed

theorem forged_token_never_reaches_the_sdk_witness:
  "verify_request sample_runtime (sample_services\<lparr>sv_check := silent_check\<rparr>) (Loaded () True) sample_verifier (sample_request (lit ''h.p.x'')) ()
     = verify_request sample_runtime sample_services (Loaded () True) sample_verifier (sample_request (lit ''h.p.x'')) ()"
proof -
  have bearer: "readBearerToken (rq_authorization (sample_request (lit ''h.p.x''))) = Some (lit ''h.p.x'')"
    by code_simp
  have "\<not> verifiesRs256 sample_runtime (lit ''h.p.x'') (pk_publicKey sample_key)" by code_simp
  then have "\<And>name kid w pk w'. sv_lookup sample_services name kid w = (Listed pk, w') \<Longrightarrow>
      \<not> verifiesRs256 sample_runtime (lit ''h.p.x'') (pk_publicKey pk)"
    by (auto simp: sample_services_def simp del: lit_simps split: if_splits)
  then have "(\<exists>r. fst (verify_request sample_runtime sample_services (Loaded () True) sample_verifier
      (sample_request (lit ''h.p.x'')) ()) = Refused r) \<and>
    verify_request sample_runtime (sample_services\<lparr>sv_check := silent_check\<rparr>) (Loaded () True) sample_verifier (sample_request (lit ''h.p.x'')) ()
     = verify_request sample_runtime sample_services (Loaded () True) sample_verifier (sample_request (lit ''h.p.x'')) ()"
    by (rule forged_token_never_reaches_the_sdk [OF bearer])
  then show ?thesis by blast
qed

text \<open>
  An accepted token was signed by a key the last good read of its key set listed, whatever lookups
  and reads went before: a key Microsoft retired verifies nothing once a read without it succeeded.
\<close>
theorem accepted_under_the_last_published_keys:
  assumes "ks_run b hb" "ks_run t ht"
    and "\<And>name kid w. sv_lookup sv name kid w =
      (lookup_resume kid (case name of BotFramework \<Rightarrow> fst w | Tenant \<Rightarrow> snd w), w)"
    and "verify_request rt sv load ve request (b, t) = (Accepted activity tok, ve', w'')"
  shows "\<exists>raw kid keys pk. readBearerToken (rq_authorization request) = Some raw \<and>
     (latest_good (kh_reads hb) = Some keys \<or> latest_good (kh_reads ht) = Some keys) \<and>
     jm_get keys kid = Some pk \<and> verifiesRs256 rt raw (pk_publicKey pk)"
proof -
  obtain read v acc where r: "readRequest rt request = Inr read" "activity = pb_activity (rr_body read)"
      "gatedSdkCheck rt sv (ve_expected ve) v acc read (b, t) = (Resolved tok, w'')"
    using verify_accepted [OF assms(4)] by blast
  obtain w' where g: "admitToSdk rt sv (ve_expected ve) acc (rr_rawToken read)
        (map_of activity (lit ''channelId'')) (b, t) = (None, w')"
    using gated_resolved [OF r(3)] r(2) by blast
  obtain kid name pk where k: "sv_lookup sv name kid (b, t) = (Listed pk, w')"
      "verifiesRs256 rt (rr_rawToken read) (pk_publicKey pk)"
    using admitted [OF g] by blast
  define s where "s = (case name of BotFramework \<Rightarrow> b | Tenant \<Rightarrow> t)"
  define h where "h = (case name of BotFramework \<Rightarrow> hb | Tenant \<Rightarrow> ht)"
  have "ks_run s h" using assms(1,2) by (simp add: s_def h_def split: set_name.split)
  then have "ks_held s = latest_good (kh_reads h)" using mirrors_run by (auto simp: mirrors_def)
  moreover have "lookup_resume kid s = Listed pk" using k(1) assms(3) by (cases name) (simp_all add: s_def)
  then have "held_key s kid = Some pk"
    by (simp add: lookup_resume_def unavailable_def split: option.splits if_splits)
  ultimately obtain keys where "latest_good (kh_reads h) = Some keys" "jm_get keys kid = Some pk"
    by (auto simp: held_key_def split: option.splits)
  moreover have "readBearerToken (rq_authorization request) = Some (rr_rawToken read)"
    using readRequest_token [OF r(1)] ..
  moreover have "h = hb \<or> h = ht" by (simp add: h_def split: set_name.split)
  ultimately show ?thesis using k(2) by blast
qed

text \<open>A world of two key sets, the first of which has read the sample key.\<close>

definition sample_set :: "js key_set" where
  "sample_set = read_settles (Inr (Inr [(lit ''k'', sample_key)])) 7 (snd (lookup_start (lit ''k'') 7 (keySet [] [])))"

definition cached_services :: "(js, unit, js key_set \<times> js key_set) services" where
  "cached_services =
     \<lparr>sv_lookup = (\<lambda>name kid w. (lookup_resume kid (case name of BotFramework \<Rightarrow> fst w | Tenant \<Rightarrow> snd w), w)),
      sv_now = (\<lambda>w. 1000),
      sv_check = (\<lambda>v h a w. ((CheckAnswered (Some (JStr (lit ''app''))) (Some (JStr (lit ''u''))), []), w))\<rparr>"

lemma sample_set_run:
  "\<exists>h. ks_run sample_set h \<and> kh_reads h = [Inr (Inr [(lit ''k'', sample_key)])]"
proof -
  have s0: "ks_run (keySet [] [] :: js key_set) \<lparr>kh_starts = [], kh_ends = [], kh_reads = [], kh_now = 0\<rparr>"
    by (rule ks_run.fresh)
  note s1 = ks_run.more [OF s0 ks_step.ask [of _ "lit ''k''" 7]]
  have "ks_reading (snd (lookup_start (lit ''k'') 7 (keySet [] [] :: js key_set))) = Fetching" by code_simp
  note s2 = ks_run.more [OF s1 ks_step.settle [OF this, of "Inr (Inr [(lit ''k'', sample_key)])" 7]]
  show ?thesis
    by (rule exI, rule conjI, unfold sample_set_def, rule s2)
       (simp_all add: record_event_def split: if_splits)
qed

theorem accepted_under_the_last_published_keys_witness:
  "\<exists>h :: js ks_history. \<exists>raw kid keys pk. latest_good (kh_reads h) = Some keys \<and> jm_get keys kid = Some pk \<and>
     verifiesRs256 sample_runtime raw (pk_publicKey pk)"
proof -
  obtain h where h: "ks_run sample_set h" using sample_set_run by blast
  have "verify_request sample_runtime cached_services (Loaded () True) sample_verifier (sample_request (lit ''h.p.s''))
      (sample_set, sample_set)
     = (Accepted [(lit ''serviceUrl'', JStr (lit ''u'')), (lit ''channelId'', JStr (lit ''msteams''))]
         \<lparr>rv_appId = lit ''app'', rv_serviceUrl = lit ''u''\<rparr>,
        sample_verifier\<lparr>ve_loaded := Some (Loaded () True)\<rparr>, (sample_set, sample_set))"
    unfolding verify_request_def sample_read Let_def by code_simp
  from accepted_under_the_last_published_keys [OF h h _ this]
  show ?thesis by (fastforce simp: cached_services_def)
qed

text \<open>
  A refusal a retry may clear comes from a key read: \<open>key_set_unavailable\<close> is answered only when a
  lookup said its set was unavailable, or when the SDK logged that it could not get the signing key (and
  not that the key was not found).
\<close>
theorem retryable_refusals_come_from_key_reads:
  assumes "verify_request rt sv load ve request w = (Refused r, ve', w'')" "re_reason r = KeySetUnavailable"
  shows "(\<exists>name kid m w'. sv_lookup sv name kid w = (Unavailable m, w')) \<or>
     (\<exists>v header activity w' answer calls t cause.
        sv_check sv v header activity w' = ((answer, calls), w'') \<and> (VStr t, cause) \<in> set calls \<and>
        prefix SDK_KEY_READ_FAILED t \<and> field_of cause (lit ''name'') \<noteq> VStr (lit ''SigningKeyNotFoundError''))"
proof -
  obtain read v acc where g: "gatedSdkCheck rt sv (ve_expected ve) v acc read w = (VerdictRefused r, w'')"
    using assms verify_refused_later [OF assms(1)] by blast
  show ?thesis
  proof (cases "admitToSdk rt sv (ve_expected ve) acc (rr_rawToken read)
      (map_of (pb_activity (rr_body read)) (lit ''channelId'')) w")
    case (Pair a w')
    show ?thesis
    proof (cases a)
      case (Some r')
      with Pair g have "r' = r" by (simp add: gatedSdkCheck_def del: lit_simps)
      with Pair Some have "admitToSdk rt sv (ve_expected ve) acc (rr_rawToken read)
          (map_of (pb_activity (rr_body read)) (lit ''channelId'')) w = (Some r, w')" by simp
      from admit_unavailable [OF this assms(2)] show ?thesis by blast
    next
      case None
      with Pair g obtain answer calls where o: "sv_check sv v (rr_header read) (pb_activity (rr_body read)) w' = ((answer, calls), w'')"
          "sdkCheck (answer, calls) = VerdictRefused r"
        by (auto simp: gatedSdkCheck_def simp del: lit_simps split: prod.splits)
      from sdk_unavailable [OF o(2) assms(2)] o(1) show ?thesis by blast
    qed
  qed
qed

theorem retryable_refusals_come_from_key_reads_witness:
  "\<exists>name kid m w'. sv_lookup (sample_services\<lparr>sv_lookup := \<lambda>name kid w. (Unavailable [], w)\<rparr>) name kid () = (Unavailable m, w')"
proof -
  have "verify_request sample_runtime (sample_services\<lparr>sv_lookup := \<lambda>name kid w. (Unavailable [], w)\<rparr>) (Loaded () True)
      sample_verifier (sample_request (lit ''h.p.s'')) ()
     = (Refused (refuse KeySetUnavailable (Some [])), sample_verifier\<lparr>ve_loaded := Some (Loaded () True)\<rparr>, ())"
    unfolding verify_request_def sample_read Let_def by code_simp
  from retryable_refusals_come_from_key_reads [OF this] show ?thesis
    by (auto simp: sample_services_def simp del: lit_simps)
qed

end
