(* ===== verification/JsonRpc.thy ===== *)
theory JsonRpc
  imports Json JsMap
begin

text \<open>
  The JSON-RPC client over a child's stdio that the Signal and iMessage adapters share in shape
  (\<open>gateway-signal/src/json-rpc.ts\<close>, \<open>gateway-imessage/src/json-rpc.ts\<close>): requests, their answers, timeouts
  and the closing of the child as steps over the client's state. The two copies differ in the outcome
  of an error answer, a parameter. \<open>JSON.parse\<close> and the child are the environment.
\<close>

section \<open>The client\<close>

text \<open>The data of an error is \<open>None\<close> where the copy keeps none or the answer has none.\<close>

datatype rpc_outcome =
    RpcResult "json option"
  | RpcError json json "json option"
  | RpcTimeout
  | RpcDisconnected

text \<open>
  A pending request is its id; its promise and its timer are named by it. \<open>cl_settled\<close> is what the
  promises were resolved with, \<open>cl_notified\<close> and \<open>cl_closed\<close> the callbacks made, \<open>cl_log\<close> the lines on
  standard error. \<open>cl_crashed\<close>: an exception left a stream listener, and the process ended.
\<close>

record rpc_client =
  cl_nextId :: nat
  cl_pending :: "(rat, nat) jsmap"
  cl_open :: bool
  cl_settled :: "(nat \<times> rpc_outcome) list"
  cl_notified :: "(js \<times> json option) list"
  cl_closed :: "js list"
  cl_log :: "js list"
  cl_crashed :: bool

definition newRpcClient :: rpc_client where
  "newRpcClient = \<lparr>cl_nextId = 1, cl_pending = [], cl_open = True, cl_settled = [], cl_notified = [],
     cl_closed = [], cl_log = [], cl_crashed = False\<rparr>"

definition rpc_settle :: "rat \<Rightarrow> rpc_outcome \<Rightarrow> rpc_client \<Rightarrow> rpc_client" where
  "rpc_settle key outcome c =
     (case jm_get (cl_pending c) key of
        None \<Rightarrow> c
      | Some n \<Rightarrow> c\<lparr>cl_pending := jm_delete key (cl_pending c), cl_settled := cl_settled c @ [(n, outcome)]\<rparr>)"

definition rpc_close :: "js \<Rightarrow> rpc_client \<Rightarrow> rpc_client" where
  "rpc_close reason c =
     (if \<not> cl_open c then c
      else let c1 = foldl (\<lambda>c key. rpc_settle key RpcDisconnected c) (c\<lparr>cl_open := False\<rparr>) (jm_keys (cl_pending c))
           in c1\<lparr>cl_closed := cl_closed c1 @ [reason]\<rparr>)"

text \<open>
  \<open>request\<close>: the id of the promise handed out, or \<open>None\<close> when it is resolved as disconnected at once.
  \<open>writable\<close> is the child's stdin. A write that fails calls \<open>close\<close> later, a step of its own.
\<close>

definition rpc_request :: "bool \<Rightarrow> rpc_client \<Rightarrow> nat option \<times> rpc_client" where
  "rpc_request writable c =
     (if \<not> cl_open c \<or> \<not> writable then (None, c)
      else (Some (cl_nextId c),
            c\<lparr>cl_nextId := Suc (cl_nextId c),
              cl_pending := jm_set (rat_of_nat (cl_nextId c)) (cl_nextId c) (cl_pending c)\<rparr>))"

section \<open>Reading a line\<close>

text \<open>An error member as an outcome, in each copy. The member is not \<open>null\<close> here.\<close>

definition signal_errorOutcome :: "json \<Rightarrow> rpc_outcome" where
  "signal_errorOutcome error =
     RpcError (or_default (member_of error (lit ''code'')) (JNum 0))
       (or_default (member_of error (lit ''message'')) (JStr (lit ''unknown JSON-RPC error''))) None"

definition imessage_errorOutcome :: "json \<Rightarrow> rpc_outcome" where
  "imessage_errorOutcome error =
     RpcError (or_default (member_of error (lit ''code'')) (JNum 0))
       (or_default (member_of error (lit ''message'')) (JStr (lit ''unknown JSON-RPC error'')))
       (member_of error (lit ''data''))"

text \<open>
  What a line does. Reading a property of \<open>null\<close>, the line's value or its \<open>error\<close> member, throws inside
  the stream listener, where nothing catches it.
\<close>

datatype line_effect =
    Ignored
  | Skipped
  | Notifies js "json option"
  | Answers rat rpc_outcome
  | Crashes

definition read_message :: "(json \<Rightarrow> rpc_outcome) \<Rightarrow> json \<Rightarrow> line_effect" where
  "read_message errorOutcome message =
     (if message = JNull then Crashes
      else case (string_of (member_of message (lit ''method'')), member_of message (lit ''id'')) of
        (Some mth, None) \<Rightarrow> Notifies mth (member_of message (lit ''params''))
      | (Some mth, Some JNull) \<Rightarrow> Notifies mth (member_of message (lit ''params''))
      | (_, Some (JNum key)) \<Rightarrow>
          (case member_of message (lit ''error'') of
             None \<Rightarrow> Answers key (RpcResult (member_of message (lit ''result'')))
           | Some JNull \<Rightarrow> Crashes
           | Some error \<Rightarrow> Answers key (errorOutcome error))
      | _ \<Rightarrow> Ignored)"

definition read_line :: "(js \<Rightarrow> json option) \<Rightarrow> (json \<Rightarrow> rpc_outcome) \<Rightarrow> js \<Rightarrow> line_effect" where
  "read_line parse errorOutcome line =
     (if js_trim line = [] then Ignored
      else case parse line of None \<Rightarrow> Skipped | Some message \<Rightarrow> read_message errorOutcome message)"

definition rpc_onLine ::
    "(js \<Rightarrow> json option) \<Rightarrow> (json \<Rightarrow> rpc_outcome) \<Rightarrow> js \<Rightarrow> js \<Rightarrow> rpc_client \<Rightarrow> rpc_client" where
  "rpc_onLine parse errorOutcome label line c =
     (if \<not> cl_open c then c
      else case read_line parse errorOutcome line of
        Ignored \<Rightarrow> c
      | Skipped \<Rightarrow>
          c\<lparr>cl_log := cl_log c @ [[91] @ label @ lit ''] skipped a stdout line that is not JSON: '' @ take 120 line @ [nl]]\<rparr>
      | Notifies mth params \<Rightarrow> c\<lparr>cl_notified := cl_notified c @ [(mth, params)]\<rparr>
      | Answers key outcome \<Rightarrow> rpc_settle key outcome c
      | Crashes \<Rightarrow> c\<lparr>cl_crashed := True\<rparr>)"

section \<open>Runs\<close>

text \<open>
  \<open>Expire n\<close>: the timer of request \<open>n\<close> fires. \<open>Shut\<close>: stdin fails, a write fails, the child fails or
  closes, or the owner calls \<open>close\<close>.
\<close>

datatype rpc_event = Request bool | Line js | Expire nat | Shut js

definition rpc_step ::
    "(js \<Rightarrow> json option) \<Rightarrow> (json \<Rightarrow> rpc_outcome) \<Rightarrow> js \<Rightarrow> rpc_event \<Rightarrow> rpc_client \<Rightarrow> rpc_client" where
  "rpc_step parse errorOutcome label e c =
     (if cl_crashed c then c
      else case e of
        Request writable \<Rightarrow> snd (rpc_request writable c)
      | Line line \<Rightarrow> rpc_onLine parse errorOutcome label line c
      | Expire n \<Rightarrow> rpc_settle (rat_of_nat n) RpcTimeout c
      | Shut reason \<Rightarrow> rpc_close reason c)"

definition rpc_run ::
    "(js \<Rightarrow> json option) \<Rightarrow> (json \<Rightarrow> rpc_outcome) \<Rightarrow> js \<Rightarrow> rpc_event list \<Rightarrow> rpc_client \<Rightarrow> rpc_client" where
  "rpc_run parse errorOutcome label es c = foldl (\<lambda>c e. rpc_step parse errorOutcome label e c) c es"

section \<open>The invariant\<close>

text \<open>The requests made so far are the pending ones and the settled ones, each settled once.\<close>

definition rpc_core :: "rpc_client \<Rightarrow> bool" where
  "rpc_core c \<longleftrightarrow>
     jm_inv (cl_pending c) \<and>
     (\<forall>key n. jm_get (cl_pending c) key = Some n \<longrightarrow> key = rat_of_nat n \<and> 1 \<le> n \<and> n < cl_nextId c) \<and>
     distinct (map fst (cl_settled c)) \<and>
     set (map fst (cl_settled c)) = {n. 1 \<le> n \<and> n < cl_nextId c \<and> jm_get (cl_pending c) (rat_of_nat n) = None}"

definition rpc_inv :: "rpc_client \<Rightarrow> bool" where
  "rpc_inv c \<longleftrightarrow> rpc_core c \<and> (\<not> cl_open c \<longrightarrow> cl_pending c = []) \<and> 1 \<le> cl_nextId c"

lemma rpc_core_pending:
  "rpc_core c \<Longrightarrow> jm_get (cl_pending c) key = Some n \<Longrightarrow> key = rat_of_nat n \<and> 1 \<le> n \<and> n < cl_nextId c"
  by (simp add: rpc_core_def)

lemma rpc_core_settle:
  assumes "rpc_core c" shows "rpc_core (rpc_settle key outcome c)"
proof (cases "jm_get (cl_pending c) key")
  case (Some n)
  have key: "key = rat_of_nat n" "1 \<le> n" "n < cl_nextId c" using rpc_core_pending [OF assms Some] by auto
  have inv: "jm_inv (cl_pending c)" using assms by (simp add: rpc_core_def)
  have get: "jm_get (jm_delete key (cl_pending c)) k = (if k = key then None else jm_get (cl_pending c) k)" for k
    by (simp add: jm.get_del [OF inv])
  have settled: "set (map fst (cl_settled c)) =
      {n. 1 \<le> n \<and> n < cl_nextId c \<and> jm_get (cl_pending c) (rat_of_nat n) = None}"
    using assms by (simp add: rpc_core_def)
  have "n \<notin> set (map fst (cl_settled c))" unfolding settled using Some key(1) by simp
  moreover have "insert n (set (map fst (cl_settled c))) =
      {m. 1 \<le> m \<and> m < cl_nextId c \<and> jm_get (jm_delete key (cl_pending c)) (rat_of_nat m) = None}"
    unfolding settled key(1) get [unfolded key(1)] using key(2,3) by auto
  moreover have "\<forall>k m. jm_get (jm_delete key (cl_pending c)) k = Some m \<longrightarrow>
      k = rat_of_nat m \<and> 1 \<le> m \<and> m < cl_nextId c"
    unfolding get using assms by (simp add: rpc_core_def)
  ultimately show ?thesis using assms Some jm.inv_del [OF inv]
    by (simp add: rpc_settle_def rpc_core_def)
qed (simp add: rpc_settle_def assms)

lemma rpc_settle_fields [simp]:
  "cl_nextId (rpc_settle key outcome c) = cl_nextId c" "cl_open (rpc_settle key outcome c) = cl_open c"
  "cl_crashed (rpc_settle key outcome c) = cl_crashed c"
  by (simp_all add: rpc_settle_def split: option.split)

lemma rpc_settle_keys:
  "jm_inv (cl_pending c) \<Longrightarrow>
     jm_keys (cl_pending (rpc_settle key outcome c)) = filter (\<lambda>k. k \<noteq> key) (jm_keys (cl_pending c))"
proof (cases "jm_get (cl_pending c) key")
  case None
  assume "jm_inv (cl_pending c)"
  then have "key \<notin> set (jm_keys (cl_pending c))" using jm.ks_dom None by (metis domIff)
  then have "filter (\<lambda>k. k \<noteq> key) (jm_keys (cl_pending c)) = jm_keys (cl_pending c)"
    by (metis (mono_tags, lifting) filter_True)
  then show ?thesis using None by (simp add: rpc_settle_def)
qed (simp add: rpc_settle_def map_facts)

definition drop_all :: "rat list \<Rightarrow> rpc_client \<Rightarrow> rpc_client" where
  "drop_all ks c = foldl (\<lambda>c key. rpc_settle key RpcDisconnected c) c ks"

lemma drop_all_Cons: "drop_all (k # ks) c = drop_all ks (rpc_settle k RpcDisconnected c)"
  by (simp add: drop_all_def)

lemma drop_all_core: "rpc_core c \<Longrightarrow> rpc_core (drop_all ks c)"
  by (induction ks arbitrary: c) (simp_all add: drop_all_def rpc_core_settle)

lemma drop_all_fields [simp]:
  "cl_nextId (drop_all ks c) = cl_nextId c" "cl_open (drop_all ks c) = cl_open c"
  "cl_crashed (drop_all ks c) = cl_crashed c"
  by (induction ks arbitrary: c) (simp_all add: drop_all_def)

lemma drop_all_keys:
  "rpc_core c \<Longrightarrow> jm_keys (cl_pending (drop_all ks c)) = filter (\<lambda>k. k \<notin> set ks) (jm_keys (cl_pending c))"
proof (induction ks arbitrary: c)
  case (Cons k ks)
  have "jm_keys (cl_pending (drop_all ks (rpc_settle k RpcDisconnected c))) =
      filter (\<lambda>x. x \<notin> set ks) (filter (\<lambda>x. x \<noteq> k) (jm_keys (cl_pending c)))"
    using Cons.IH [OF rpc_core_settle [OF Cons.prems]] Cons.prems by (simp add: rpc_settle_keys rpc_core_def)
  then show ?case by (simp add: drop_all_Cons conj_commute)
qed (simp add: drop_all_def)

lemma rpc_close_alt:
  "rpc_close reason c = (if \<not> cl_open c then c
     else (drop_all (jm_keys (cl_pending c)) (c\<lparr>cl_open := False\<rparr>))\<lparr>cl_closed :=
        cl_closed (drop_all (jm_keys (cl_pending c)) (c\<lparr>cl_open := False\<rparr>)) @ [reason]\<rparr>)"
  by (simp add: rpc_close_def drop_all_def Let_def)

lemma rpc_core_open [simp]: "rpc_core (c\<lparr>cl_open := b\<rparr>) \<longleftrightarrow> rpc_core c"
  "rpc_core (c\<lparr>cl_closed := xs\<rparr>) \<longleftrightarrow> rpc_core c" "rpc_core (c\<lparr>cl_log := ls\<rparr>) \<longleftrightarrow> rpc_core c"
  "rpc_core (c\<lparr>cl_notified := ns\<rparr>) \<longleftrightarrow> rpc_core c" "rpc_core (c\<lparr>cl_crashed := b\<rparr>) \<longleftrightarrow> rpc_core c"
  by (simp_all add: rpc_core_def)

lemma rpc_inv_close: "rpc_inv c \<Longrightarrow> rpc_inv (rpc_close reason c)"
proof -
  assume inv: "rpc_inv c"
  have "cl_pending (drop_all (jm_keys (cl_pending c)) (c\<lparr>cl_open := False\<rparr>)) = []"
    using drop_all_keys [of "c\<lparr>cl_open := False\<rparr>" "jm_keys (cl_pending c)"] inv
    by (simp add: rpc_inv_def jm_keys_def)
  with inv show ?thesis by (simp add: rpc_close_alt rpc_inv_def drop_all_core)
qed

lemma rpc_inv_settle: "rpc_inv c \<Longrightarrow> rpc_inv (rpc_settle key outcome c)"
  using rpc_core_settle [of c key outcome] by (auto simp: rpc_inv_def) (simp add: rpc_settle_def)

lemma rpc_inv_request:
  assumes "rpc_inv c" shows "rpc_inv (snd (rpc_request w c))"
proof (cases "cl_open c \<and> w")
  case True
  have "jm_get (cl_pending c) (rat_of_nat (cl_nextId c)) = None"
    using assms rpc_core_pending [of c "rat_of_nat (cl_nextId c)"]
    by (cases "jm_get (cl_pending c) (rat_of_nat (cl_nextId c))") (auto simp: rpc_inv_def)
  then show ?thesis using assms True
    by (auto simp: rpc_inv_def rpc_core_def rpc_request_def map_facts less_Suc_eq)
qed (use assms in \<open>auto simp: rpc_request_def\<close>)

lemma rpc_inv_line: "rpc_inv c \<Longrightarrow> rpc_inv (rpc_onLine parse err label line c)"
  using rpc_inv_settle by (auto simp: rpc_onLine_def rpc_inv_def split: line_effect.split)

lemma rpc_inv_step: "rpc_inv c \<Longrightarrow> rpc_inv (rpc_step parse err label e c)"
  by (cases e) (simp_all add: rpc_step_def rpc_inv_request rpc_inv_line rpc_inv_settle rpc_inv_close)

lemma rpc_inv_run: "rpc_inv c \<Longrightarrow> rpc_inv (rpc_run parse err label es c)"
  by (induction es arbitrary: c) (simp_all add: rpc_run_def rpc_inv_step)

lemma rpc_inv_new: "rpc_inv newRpcClient"
  by (auto simp: rpc_inv_def rpc_core_def newRpcClient_def)

section \<open>What the client promises\<close>

text \<open>
  The contract of the client, without lines, timers or maps: a request is issued once, and answered
  once.
\<close>

datatype promise = Unissued | Waiting | Answered rpc_outcome

inductive promise_step :: "(nat \<Rightarrow> promise) \<Rightarrow> (nat \<Rightarrow> promise) \<Rightarrow> bool" where
  issue: "p n = Unissued \<Longrightarrow> promise_step p (p(n := Waiting))"
| answer: "p n = Waiting \<Longrightarrow> promise_step p (p(n := Answered outcome))"

inductive_cases promise_stepE: "promise_step p q"

definition promises :: "rpc_client \<Rightarrow> nat \<Rightarrow> promise" where
  "promises c n =
     (if jm_get (cl_pending c) (rat_of_nat n) \<noteq> None then Waiting
      else case map_of (cl_settled c) n of None \<Rightarrow> Unissued | Some outcome \<Rightarrow> Answered outcome)"

lemma promise_step_final: "promise_step p q \<Longrightarrow> p n = Answered outcome \<Longrightarrow> q n = Answered outcome"
  by (auto elim!: promise_stepE)

lemma promise_step_issued: "promise_step p q \<Longrightarrow> p n \<noteq> Unissued \<Longrightarrow> q n \<noteq> Unissued"
  by (auto elim!: promise_stepE split: if_splits)

lemma promise_steps_issued: "promise_step\<^sup>*\<^sup>* p q \<Longrightarrow> p n \<noteq> Unissued \<Longrightarrow> q n \<noteq> Unissued"
  by (induction rule: rtranclp_induct) (auto dest: promise_step_issued)

lemma promise_steps_final:
  "promise_step\<^sup>*\<^sup>* p q \<Longrightarrow> p n = Answered outcome \<Longrightarrow> q n = Answered outcome"
  by (induction rule: rtranclp_induct) (auto dest: promise_step_final)

lemma rpc_core_settled: "rpc_core c \<Longrightarrow> jm_get (cl_pending c) (rat_of_nat n) \<noteq> None \<Longrightarrow> map_of (cl_settled c) n = None"
  unfolding rpc_core_def map_of_eq_None_iff by auto

lemma promises_other [simp]:
  "promises (c\<lparr>cl_open := b\<rparr>) = promises c" "promises (c\<lparr>cl_closed := xs\<rparr>) = promises c"
  "promises (c\<lparr>cl_log := ls\<rparr>) = promises c" "promises (c\<lparr>cl_notified := ns\<rparr>) = promises c"
  "promises (c\<lparr>cl_crashed := b\<rparr>) = promises c"
  by (simp_all add: promises_def fun_eq_iff cong: if_cong)

lemma promises_settle:
  assumes "rpc_core c"
  shows "promises (rpc_settle key outcome c) =
     (case jm_get (cl_pending c) key of None \<Rightarrow> promises c | Some n \<Rightarrow> (promises c)(n := Answered outcome))"
proof (cases "jm_get (cl_pending c) key")
  case (Some n)
  have key: "key = rat_of_nat n" using rpc_core_pending [OF assms Some] by simp
  have inv: "jm_inv (cl_pending c)" using assms by (simp add: rpc_core_def)
  have "map_of (cl_settled c) n = None" by (rule rpc_core_settled [OF assms]) (use Some key in simp)
  then show ?thesis using Some key
    by (auto simp: promises_def rpc_settle_def jm.get_del [OF inv] map_add_def fun_eq_iff split: option.split)
qed (simp add: rpc_settle_def)

lemma promises_waiting: "rpc_core c \<Longrightarrow> jm_get (cl_pending c) key = Some n \<Longrightarrow> promises c n = Waiting"
  using rpc_core_pending by (auto simp: promises_def)

lemma settle_refines:
  assumes "rpc_core c" shows "promise_step\<^sup>*\<^sup>* (promises c) (promises (rpc_settle key outcome c))"
proof (cases "jm_get (cl_pending c) key")
  case (Some n)
  have "promise_step (promises c) ((promises c)(n := Answered outcome))"
    by (rule answer) (rule promises_waiting [OF assms Some])
  then show ?thesis using Some by (simp add: promises_settle [OF assms])
qed (simp add: promises_settle [OF assms])

lemma drop_all_refines: "rpc_core c \<Longrightarrow> promise_step\<^sup>*\<^sup>* (promises c) (promises (drop_all ks c))"
proof (induction ks arbitrary: c)
  case (Cons k ks)
  from settle_refines [OF Cons.prems] Cons.IH [OF rpc_core_settle [OF Cons.prems]]
  show ?case unfolding drop_all_Cons by (rule rtranclp_trans)
qed (simp add: drop_all_def)

lemma request_refines:
  assumes "rpc_inv c" shows "promise_step\<^sup>*\<^sup>* (promises c) (promises (snd (rpc_request w c)))"
proof (cases "cl_open c \<and> w")
  case True
  let ?n = "cl_nextId c"
  have core: "rpc_core c" and inv: "jm_inv (cl_pending c)" using assms by (auto simp: rpc_inv_def rpc_core_def)
  have none: "jm_get (cl_pending c) (rat_of_nat ?n) = None"
  proof (cases "jm_get (cl_pending c) (rat_of_nat ?n)")
    case (Some m)
    from rpc_core_pending [OF core Some] show ?thesis by auto
  qed simp
  have "?n \<notin> set (map fst (cl_settled c))" using core by (simp add: rpc_core_def)
  then have "promises c ?n = Unissued"
    using none by (simp add: promises_def map_of_eq_None_iff [THEN iffD2])
  then have "promise_step (promises c) ((promises c)(?n := Waiting))" by (rule issue)
  moreover have "promises (snd (rpc_request w c)) = (promises c)(?n := Waiting)"
    using True by (auto simp: promises_def rpc_request_def jm.get_put [OF inv] fun_eq_iff)
  ultimately show ?thesis by simp
qed (auto simp: rpc_request_def)

lemma step_refines:
  assumes "rpc_inv c"
  shows "promise_step\<^sup>*\<^sup>* (promises c) (promises (rpc_step parse err label e c))"
proof -
  have core: "rpc_core c" using assms by (simp add: rpc_inv_def)
  have "promise_step\<^sup>*\<^sup>* (promises c) (promises (rpc_onLine parse err label line c))" for line
    by (auto simp: rpc_onLine_def settle_refines [OF core] split: line_effect.split)
  moreover have "promise_step\<^sup>*\<^sup>* (promises c) (promises (rpc_close reason c))" for reason
    using drop_all_refines [of "c\<lparr>cl_open := False\<rparr>"] core by (simp add: rpc_close_alt)
  ultimately show ?thesis
    by (cases e) (simp_all add: rpc_step_def request_refines [OF assms] settle_refines [OF core])
qed

lemma run_refines:
  "rpc_inv c \<Longrightarrow> promise_step\<^sup>*\<^sup>* (promises c) (promises (rpc_run parse err label es c))"
proof (induction es arbitrary: c)
  case (Cons e es)
  from step_refines [OF Cons.prems] Cons.IH [OF rpc_inv_step [OF Cons.prems]]
  show ?case by (simp add: rpc_run_def) (rule rtranclp_trans)
qed (simp add: rpc_run_def)

section \<open>Progress\<close>

lemma rpc_run_Cons: "rpc_run parse err label (e # es) c = rpc_run parse err label es (rpc_step parse err label e c)"
  by (simp add: rpc_run_def)

lemma crashed_run: "cl_crashed c \<Longrightarrow> rpc_run parse err label es c = c"
  by (induction es) (simp_all add: rpc_run_def rpc_step_def)

lemma ends_waiting:
  assumes "rpc_inv c" "\<not> cl_crashed c" "promises c n = Waiting" "e = Expire n \<or> (\<exists>reason. e = Shut reason)"
  shows "\<exists>outcome. promises (rpc_step parse err label e c) n = Answered outcome"
proof -
  have core: "rpc_core c" using assms(1) by (simp add: rpc_inv_def)
  have pend: "jm_get (cl_pending c) (rat_of_nat n) \<noteq> None"
    using assms(3) by (auto simp: promises_def split: if_splits option.splits)
  then obtain m where m: "jm_get (cl_pending c) (rat_of_nat n) = Some m" by auto
  then have "m = n" using rpc_core_pending [OF core m] by simp
  show ?thesis
  proof (cases "e = Expire n")
    case True
    with m \<open>m = n\<close> assms(2) show ?thesis by (simp add: rpc_step_def promises_settle [OF core])
  next
    case False
    then obtain reason where e: "e = Shut reason" using assms(4) by blast
    have "cl_open c" using assms(1) m by (auto simp: rpc_inv_def)
    have inv: "rpc_inv (rpc_close reason c)" by (rule rpc_inv_close [OF assms(1)])
    have "cl_pending (rpc_close reason c) = []"
      using inv \<open>cl_open c\<close> by (simp add: rpc_inv_def rpc_close_alt)
    moreover have "n \<in> set (map fst (cl_settled (rpc_close reason c)))"
    proof -
      have "1 \<le> n" "n < cl_nextId c" using rpc_core_pending [OF core m] \<open>m = n\<close> by auto
      moreover have "cl_nextId (rpc_close reason c) = cl_nextId c" by (simp add: rpc_close_alt)
      ultimately show ?thesis using inv \<open>cl_pending (rpc_close reason c) = []\<close>
        by (simp add: rpc_inv_def rpc_core_def)
    qed
    ultimately show ?thesis using e assms(2)
      by (auto simp: rpc_step_def promises_def map_of_eq_None_iff split: option.split)
  qed
qed

lemma progress:
  assumes "rpc_inv c" "promises c n \<noteq> Unissued"
    and "Expire n \<in> set es \<or> (\<exists>reason. Shut reason \<in> set es)"
    and "\<not> cl_crashed (rpc_run parse err label es c)"
  shows "\<exists>outcome. promises (rpc_run parse err label es c) n = Answered outcome"
  using assms
proof (induction es arbitrary: c)
  case (Cons e es)
  let ?c = "rpc_step parse err label e c"
  have inv: "rpc_inv ?c" by (rule rpc_inv_step [OF Cons.prems(1)])
  have alive: "\<not> cl_crashed c" using Cons.prems(4) crashed_run by (metis rpc_run_Cons rpc_step_def)
  have keeps: "promises ?c n \<noteq> Unissued"
    by (rule promise_steps_issued [OF step_refines [OF Cons.prems(1)] Cons.prems(2)])
  show ?case
  proof (cases "Expire n \<in> set es \<or> (\<exists>reason. Shut reason \<in> set es)")
    case True
    then show ?thesis using Cons.IH [OF inv keeps True] Cons.prems(4) by (simp add: rpc_run_Cons)
  next
    case False
    then have e: "e = Expire n \<or> (\<exists>reason. e = Shut reason)" using Cons.prems(3) by auto
    obtain o' where "promises ?c n = Answered o'"
    proof (cases "promises c n")
      case Waiting
      then show ?thesis using ends_waiting [OF Cons.prems(1) alive Waiting e] that by blast
    next
      case (Answered o')
      then show ?thesis using promise_steps_final [OF step_refines [OF Cons.prems(1)]] that by blast
    qed (use Cons.prems(2) in simp)
    from promise_steps_final [OF run_refines [OF inv] this] show ?thesis by (auto simp: rpc_run_Cons)
  qed
qed simp

section \<open>Properties\<close>

lemma promises_Answered: "promises c n = Answered outcome \<Longrightarrow> (n, outcome) \<in> set (cl_settled c)"
  by (auto simp: promises_def map_of_SomeD split: if_splits option.splits)

text \<open>
  C2: the client implements a table of promises: each step issues a request that was not issued, or
  answers requests that wait, and nothing else; so an answer is never changed, and no promise is
  resolved twice, whatever lines arrive, timers fire and however the child dies.
\<close>
theorem rpc_client_refines_promises:
  assumes "c = rpc_run parse errorOutcome label es newRpcClient"
  shows "promise_step\<^sup>*\<^sup>* (promises c) (promises (rpc_step parse errorOutcome label e c)) \<and>
     distinct (map fst (cl_settled c)) \<and>
     set (map fst (cl_settled c)) \<union> {n. promises c n = Waiting} = {1..<cl_nextId c}"
proof -
  have inv: "rpc_inv c" using rpc_inv_run [OF rpc_inv_new] assms by simp
  then have core: "rpc_core c" by (simp add: rpc_inv_def)
  have "{n. promises c n = Waiting} = {n. jm_get (cl_pending c) (rat_of_nat n) \<noteq> None}"
    by (auto simp: promises_def split: option.splits)
  then have "set (map fst (cl_settled c)) \<union> {n. promises c n = Waiting} = {1..<cl_nextId c}"
    using core rpc_core_pending [OF core] unfolding rpc_core_def by fastforce
  then show ?thesis using step_refines [OF inv] core by (simp add: rpc_core_def)
qed

theorem rpc_client_refines_promises_witness:
  "promise_step\<^sup>*\<^sup>* (promises newRpcClient) (promises (rpc_step (\<lambda>s. None) signal_errorOutcome [] (Request True) newRpcClient))"
proof -
  have "newRpcClient = rpc_run (\<lambda>s. None) signal_errorOutcome [] [] newRpcClient" by (simp add: rpc_run_def)
  from rpc_client_refines_promises [OF this] show ?thesis by blast
qed

text \<open>
  C13: every request is answered: once its timer fires or the client closes, whatever happened in
  between, and unless an exception ended the process, its promise is resolved.
\<close>
theorem rpc_requests_are_answered:
  assumes "c = rpc_run parse errorOutcome label es newRpcClient" "rpc_request w c = (Some n, c')"
    and "Expire n \<in> set later \<or> (\<exists>reason. Shut reason \<in> set later)"
    and "c'' = rpc_run parse errorOutcome label later c'" "\<not> cl_crashed c''"
  shows "\<exists>outcome. (n, outcome) \<in> set (cl_settled c'')"
proof -
  have inv: "rpc_inv c" using rpc_inv_run [OF rpc_inv_new] assms(1) by simp
  have c': "rpc_inv c'" using rpc_inv_request [OF inv, of w] assms(2) by simp
  have "jm_get (cl_pending c') (rat_of_nat n) = Some n"
    using assms(2) inv by (auto simp: rpc_request_def rpc_inv_def rpc_core_def jm.get_put split: if_splits)
  then have "promises c' n \<noteq> Unissued" by (simp add: promises_def)
  from progress [OF c' this assms(3) assms(5) [unfolded assms(4)]] show ?thesis
    unfolding assms(4) using promises_Answered by blast
qed

theorem rpc_requests_are_answered_witness:
  "\<exists>outcome. (1, outcome) \<in> set (cl_settled (rpc_run (\<lambda>s. None) signal_errorOutcome [] [Line (lit ''hm''), Expire 1]
      (snd (rpc_request True newRpcClient))))"
proof -
  have c: "newRpcClient = rpc_run (\<lambda>s. None) signal_errorOutcome [] [] newRpcClient" by (simp add: rpc_run_def)
  have r: "rpc_request True newRpcClient = (Some 1, snd (rpc_request True newRpcClient))"
    by (simp add: rpc_request_def newRpcClient_def)
  have alive: "\<not> cl_crashed (rpc_run (\<lambda>s. None) signal_errorOutcome [] [Line (lit ''hm''), Expire 1]
      (snd (rpc_request True newRpcClient)))" by code_simp
  show ?thesis by (rule rpc_requests_are_answered [OF c r _ refl alive]) simp
qed

text \<open>
  C15: answers do not cross: a step resolves a waiting request with a timeout only when its own timer
  fired, with a disconnection only when the client closed, and otherwise with what a line carrying
  that request's id says.
\<close>
theorem rpc_answers_do_not_cross:
  assumes "c = rpc_run parse errorOutcome label es newRpcClient" "promises c n = Waiting"
    and "promises (rpc_step parse errorOutcome label e c) n = Answered outcome"
  shows "e = Expire n \<and> outcome = RpcTimeout \<or>
     (\<exists>reason. e = Shut reason) \<and> outcome = RpcDisconnected \<or>
     (\<exists>line. e = Line line \<and> read_line parse errorOutcome line = Answers (rat_of_nat n) outcome)"
proof -
  have inv: "rpc_inv c" using rpc_inv_run [OF rpc_inv_new] assms(1) by simp
  then have core: "rpc_core c" by (simp add: rpc_inv_def)
  have alive: "\<not> cl_crashed c" using assms(2,3) by (auto simp: rpc_step_def)
  have settled: "key = rat_of_nat n \<and> o' = outcome" if "promises (rpc_settle key o' c) n = Answered outcome" for key o'
    using that assms(2) rpc_core_pending [OF core, of key]
    by (auto simp: promises_settle [OF core] split: option.splits if_splits)
  show ?thesis
  proof (cases e)
    case (Request w)
    have "promises (snd (rpc_request w c)) n \<noteq> Answered outcome"
      using assms(2) inv
      by (auto simp: rpc_request_def promises_def rpc_inv_def rpc_core_def jm.get_put split: if_splits option.splits)
    then show ?thesis using assms(3) Request alive by (simp add: rpc_step_def)
  next
    case (Line line)
    then show ?thesis using assms(2,3) alive settled
      by (auto simp: rpc_step_def rpc_onLine_def split: if_splits line_effect.splits)
  next
    case (Expire m)
    then show ?thesis using assms(3) alive settled [of "rat_of_nat m" RpcTimeout] by (simp add: rpc_step_def)
  next
    case (Shut reason)
    have "promises (drop_all ks d) n = Answered outcome \<Longrightarrow> rpc_core d \<Longrightarrow> promises d n = Waiting \<Longrightarrow>
        outcome = RpcDisconnected" for ks d
    proof (induction ks arbitrary: d)
      case (Cons k ks)
      note core' = rpc_core_settle [OF Cons.prems(2), of k RpcDisconnected]
      show ?case
      proof (cases "promises (rpc_settle k RpcDisconnected d) n")
        case Waiting
        then show ?thesis using Cons.IH [OF _ core'] Cons.prems(1) by (simp add: drop_all_Cons)
      next
        case (Answered o')
        then have "o' = RpcDisconnected"
          using Cons.prems(2,3) by (auto simp: promises_settle split: option.splits if_splits)
        moreover have "outcome = o'"
          using promise_steps_final [OF drop_all_refines [OF core'] Answered] Cons.prems(1) by (simp add: drop_all_Cons)
        ultimately show ?thesis by simp
      next
        case Unissued
        then show ?thesis using Cons.prems(2,3) by (auto simp: promises_settle split: option.splits if_splits)
      qed
    qed (simp add: drop_all_def)
    from this [of "jm_keys (cl_pending c)" "c\<lparr>cl_open := False\<rparr>"] show ?thesis
      using assms(2,3) Shut core alive by (auto simp: rpc_step_def rpc_close_alt split: if_splits)
  qed
qed

definition one_answer :: "js \<Rightarrow> json option" where
  "one_answer line = (if line = lit ''r'' then Some (JObj [(lit ''id'', JNum 1), (lit ''result'', JNum 5)]) else None)"

theorem rpc_answers_do_not_cross_witness:
  "read_line one_answer signal_errorOutcome (lit ''r'') = Answers 1 (RpcResult (Some (JNum 5)))"
proof -
  let ?c = "rpc_run one_answer signal_errorOutcome [] [Request True] newRpcClient"
  have waiting: "promises ?c 1 = Waiting" by code_simp
  have answered: "promises (rpc_step one_answer signal_errorOutcome [] (Line (lit ''r'')) ?c) 1 =
      Answered (RpcResult (Some (JNum 5)))" by code_simp
  from rpc_answers_do_not_cross [OF refl waiting answered] show ?thesis by simp
qed

text \<open>
  A line that parses to \<open>null\<close>, or an answer whose \<open>error\<close> member is \<open>null\<close>, ends the process that
  hosts the client, with every request of it unanswered: the exception leaves the listener. The file's
  header says that a noisy child costs its own requests and nothing else.
\<close>
theorem null_line_ends_the_host:
  assumes "cl_open c" "js_trim line \<noteq> []" "\<not> cl_crashed c"
    and "parse line = Some JNull \<or>
         parse line = Some (JObj [(lit ''id'', JNum key), (lit ''error'', JNull), (lit ''result'', v)])"
  shows "rpc_step parse errorOutcome label (Line line) c = c\<lparr>cl_crashed := True\<rparr>"
proof -
  have "read_message errorOutcome (JObj [(lit ''id'', JNum key), (lit ''error'', JNull), (lit ''result'', v)]) = Crashes"
    by (simp add: read_message_def)
  moreover have "read_message errorOutcome JNull = Crashes" by (simp add: read_message_def)
  ultimately show ?thesis using assms by (auto simp: rpc_step_def rpc_onLine_def read_line_def)
qed

theorem null_line_ends_the_host_witness:
  "cl_crashed (rpc_step (\<lambda>s. Some JNull) signal_errorOutcome [] (Line (lit ''null'')) newRpcClient)"
proof -
  have "cl_open newRpcClient" "js_trim (lit ''null'') \<noteq> []" "\<not> cl_crashed newRpcClient" by code_simp+
  from null_line_ends_the_host [OF this disjI1 [OF refl]] show ?thesis by simp
qed

end
