(* ===== verification/WhatsAppInbound.thy ===== *)
theory WhatsAppInbound
  imports Json JsMap Regex
begin

text \<open>
  The rules an inbound WhatsApp message passes (\<open>gateway-whatsapp/src/allowlist.ts\<close>,
  \<open>inbound-rules.ts\<close>, \<open>own-number.ts\<close>): the sender allowlist, the number it was addressed to, the group
  mention. The set of foreign numbers already reported and the lines on standard error are the state.
\<close>

section \<open>Events\<close>

datatype wa_backend = CloudBackend | WebBackend | BaileysBackend

record wa_inbound =
  wa_wamid :: js
  wa_fromPhone :: js
  wa_phoneNumberId :: "js option"
  wa_contactName :: "js option"
  wa_conversationType :: chan_type
  wa_channelId :: js
  wa_channelJid :: "js option"
  wa_text :: js
  wa_receivedAt :: number
  wa_fromSelf :: bool
  wa_backend :: wa_backend
  wa_raw :: json

record whatsapp_block =
  wb_wamid :: js
  wb_phoneNumberId :: "js option"
  wb_contactName :: "js option"
  wb_channelJid :: "js option"
  wb_backend :: wa_backend
  wb_raw :: json

record whatsapp_event =
  we_id :: js
  we_platform :: platform
  we_sender :: sender
  we_channel :: channel
  we_text :: js
  we_receivedAt :: number
  we_whatsapp :: whatsapp_block

section \<open>The sender allowlist\<close>

type_synonym js_set = "(js, unit) jsmap"

definition set_of :: "js list \<Rightarrow> js_set" where
  "set_of xs = foldl (\<lambda>m x. jm_set x () m) [] xs"

definition has :: "js_set \<Rightarrow> js \<Rightarrow> bool" where
  "has m x \<longleftrightarrow> jm_get m x \<noteq> None"

definition WILDCARD :: js where
  "WILDCARD = lit ''*''"

definition digitsOnly :: "js \<Rightarrow> js" where
  "digitsOnly s = filter is_digit s"

text \<open>\<open>value.replace(/:[^@]*(?=@)/, "")\<close>: from the first colon up to the \<open>@\<close> after it, if there is one.\<close>

definition without_device :: "js \<Rightarrow> js" where
  "without_device s =
     (case cut_at 58 s of
        None \<Rightarrow> s
      | Some (h, t) \<Rightarrow> if 64 \<in> set t then h @ dropWhile (\<lambda>c. c \<noteq> 64) t else s)"

text \<open>
  \<open>.replace(/@.*$/, "")\<close>: from the first \<open>@\<close> after which no line ends, \<open>.\<close> matching no line terminator
  and \<open>$\<close> only the end of the text.
\<close>

fun without_domain :: "js \<Rightarrow> js" where
  "without_domain [] = []"
| "without_domain (c # s) =
     (if c = 64 \<and> list_all (in_cls any_but_newline) s then [] else c # without_domain s)"

definition normalizeWhatsAppId :: "js \<Rightarrow> js" where
  "normalizeWhatsAppId value = digitsOnly (without_domain (without_device value))"

definition parse_entry :: "js \<Rightarrow> js" where
  "parse_entry raw =
     (let entry = js_trim raw in if entry = WILDCARD then WILDCARD else normalizeWhatsAppId entry)"

definition parseAllowedSenders :: "js option \<Rightarrow> js_set" where
  "parseAllowedSenders raw =
     set_of (filter (\<lambda>entry. entry \<noteq> [])
       (map parse_entry (split_on 44 (case raw of None \<Rightarrow> [] | Some r \<Rightarrow> r))))"

definition isSenderAllowed :: "js \<Rightarrow> js_set \<Rightarrow> bool" where
  "isSenderAllowed senderId allowed =
     (let normalized = normalizeWhatsAppId senderId in
      if normalized = [] then False
      else if allowed = [] then False
      else if has allowed WILDCARD then True
      else has allowed normalized)"

section \<open>The rules\<close>

record inbound_rules =
  ir_allowedSenders :: "js_set option"
  ir_requireMention :: bool
  ir_botPhoneId :: js

definition phone_class :: cls where
  "phone_class = Cls False [r_digit, (43, 43), (45, 45), (40, 41), (46, 46), (0xA0, 0xA0), (32, 32)]"

definition PHONE_RUN :: pattern where
  "PHONE_RUN = [[One digit, Rep None phone_class 0 None True, One digit], [One digit]]"

text \<open>\<open>s.match(pattern)\<close> with the \<open>g\<close> flag: the matches, in order. No match of a pattern here is empty.\<close>

function match_all :: "pattern \<Rightarrow> cu option \<Rightarrow> js \<Rightarrow> js list" where
  "match_all pat pv [] = []"
| "match_all pat pv (c # s) =
     (case match_at pat pv (c # s) of
        Some (Suc n, caps) \<Rightarrow> (c # take n s) # match_all pat (last_of pv (c # take n s)) (drop n s)
      | _ \<Rightarrow> match_all pat (Some c) s)"
  by pat_completeness auto
termination
  by (relation "measure (\<lambda>(_, _, s). length s)") auto

definition phoneRuns :: "js \<Rightarrow> js list" where
  "phoneRuns s = map digitsOnly (match_all PHONE_RUN None s)"

definition lastFourDigits :: "js \<Rightarrow> js" where
  "lastFourDigits value = js_slice_from (digitsOnly value) (-4)"

definition redactedSender :: "js \<Rightarrow> js" where
  "redactedSender fromPhone =
     (let tail = lastFourDigits fromPhone in
      if tail \<noteq> [] then lit ''a sender ending in '' @ tail else lit ''a sender with no number'')"

definition redactedNumberId :: "js option \<Rightarrow> js" where
  "redactedNumberId phoneNumberId =
     (case phoneNumberId of
        None \<Rightarrow> lit ''no phone number id''
      | Some number \<Rightarrow>
          let tail = lastFourDigits number in
          if tail \<noteq> [] then lit ''a phone number id ending in '' @ tail
          else lit ''a phone number id with no digits'')"

text \<open>
  What the rules change: the labels of foreign numbers reported so far, and the lines written.
  \<open>rs_warned\<close> holds the message types the webhook's normalizer has warned of, which it keeps for the
  process.
\<close>

record rules_state =
  rs_reported :: js_set
  rs_warned :: js_set
  rs_log :: "js list"

definition say :: "js \<Rightarrow> rules_state \<Rightarrow> rules_state" where
  "say line st = st\<lparr>rs_log := rs_log st @ [line]\<rparr>"

definition isRefusedBySenderAllowlist :: "wa_inbound \<Rightarrow> js_set option \<Rightarrow> rules_state \<Rightarrow> bool \<times> rules_state" where
  "isRefusedBySenderAllowlist inbound allowedSenders st =
     (if wa_fromSelf inbound then (False, st)
      else case allowedSenders of
        None \<Rightarrow> (False, st)
      | Some allowed \<Rightarrow>
          if isSenderAllowed (wa_fromPhone inbound) allowed then (False, st)
          else (True, say (lit ''[whatsapp] dropped inbound from '' @ redactedSender (wa_fromPhone inbound)
                 @ lit '': not in the configured allowlist'' @ [nl]) st))"

definition isForAnotherNumber :: "js option \<Rightarrow> js option \<Rightarrow> rules_state \<Rightarrow> bool \<times> rules_state" where
  "isForAnotherNumber phoneNumberId ownPhoneNumberId st =
     (case ownPhoneNumberId of
        None \<Rightarrow> (False, st)
      | Some own \<Rightarrow>
          if phoneNumberId = Some own then (False, st)
          else let other = redactedNumberId phoneNumberId in
               if has (rs_reported st) other then (True, st)
               else (True, say (lit ''[whatsapp] dropped inbound addressed to '' @ other
                      @ lit '': this adapter answers for '' @ quoted own
                      @ lit ''. Logged once per id ending.'' @ [nl])
                      (st\<lparr>rs_reported := jm_set other () (rs_reported st)\<rparr>)))"

definition shouldDropGroupMessage :: "wa_inbound \<Rightarrow> bool \<Rightarrow> js \<Rightarrow> rules_state \<Rightarrow> bool \<times> rules_state" where
  "shouldDropGroupMessage inbound requireMention botPhoneId st =
     (if wa_conversationType inbound \<noteq> Group \<or> \<not> requireMention then (False, st)
      else if botPhoneId = []
      then (True, say (lit ''[whatsapp] dropping every group message: requireMention is on and botPhoneId is unset''
             @ [nl]) st)
      else (\<not> list_ex (\<lambda>r. includes_str r botPhoneId) (phoneRuns (wa_text inbound)), st))"

definition toMessageEvent :: "wa_inbound \<Rightarrow> whatsapp_event" where
  "toMessageEvent inbound =
     \<lparr>we_id = wa_wamid inbound, we_platform = lit ''whatsapp'',
      we_sender = \<lparr>snd_id = wa_fromPhone inbound, snd_username = None, snd_displayName = wa_contactName inbound\<rparr>,
      we_channel = \<lparr>ch_id = wa_channelId inbound, ch_type = wa_conversationType inbound, ch_topicId = None\<rparr>,
      we_text = wa_text inbound, we_receivedAt = wa_receivedAt inbound,
      we_whatsapp = \<lparr>wb_wamid = wa_wamid inbound, wb_phoneNumberId = wa_phoneNumberId inbound,
        wb_contactName = wa_contactName inbound, wb_channelJid = wa_channelJid inbound,
        wb_backend = wa_backend inbound, wb_raw = wa_raw inbound\<rparr>\<rparr>"

definition decideInbound :: "wa_inbound \<Rightarrow> inbound_rules \<Rightarrow> rules_state \<Rightarrow> whatsapp_event option \<times> rules_state" where
  "decideInbound inbound rules st =
     (case isRefusedBySenderAllowlist inbound (ir_allowedSenders rules) st of
        (True, st1) \<Rightarrow> (None, st1)
      | (False, st1) \<Rightarrow>
          (case shouldDropGroupMessage inbound (ir_requireMention rules) (ir_botPhoneId rules) st1 of
             (True, st2) \<Rightarrow> (None, st2)
           | (False, st2) \<Rightarrow> (Some (toMessageEvent inbound), st2)))"

definition decideForOwnNumber ::
    "wa_inbound \<Rightarrow> js option \<Rightarrow> inbound_rules \<Rightarrow> rules_state \<Rightarrow> whatsapp_event option \<times> rules_state" where
  "decideForOwnNumber inbound ownPhoneNumberId rules st =
     (case isForAnotherNumber (wa_phoneNumberId inbound) ownPhoneNumberId st of
        (True, st1) \<Rightarrow> (None, st1)
      | (False, st1) \<Rightarrow> decideInbound inbound rules st1)"

definition requireOwnPhoneNumberId :: "js option \<Rightarrow> js \<Rightarrow> config_error + js" where
  "requireOwnPhoneNumberId ownPhoneNumberId mth =
     (case ownPhoneNumberId of
        Some own \<Rightarrow> Inr own
      | None \<Rightarrow> Inl (GatewayConfigurationError (lit ''gateway-whatsapp'') (lit ''missing_phone_number_id'')
          (Some (lit ''gateway-whatsapp: '' @ mth @ lit '' needs the backend to declare its phoneNumberId. ''
             @ lit ''One Meta app signs every number's webhooks with one secret, so without it this adapter ''
             @ lit ''would deliver every number's messages. Use fromCloud, or expose phoneNumberId on a ''
             @ lit ''backend that wraps WhatsAppCloudBackend.'')) None))"

section \<open>Identifiers\<close>

lemma is_digit_in_cls: "in_cls digit c \<longleftrightarrow> is_digit c"
  by (simp add: digit_def is_digit_def)

lemma digitsOnly_append: "digitsOnly (s @ t) = digitsOnly s @ digitsOnly t"
  by (simp add: digitsOnly_def)

lemma digitsOnly_digits: "list_all is_digit (digitsOnly s)"
  by (simp add: digitsOnly_def list_all_iff)

lemma digitsOnly_id: "list_all is_digit s \<Longrightarrow> digitsOnly s = s"
  by (simp add: digitsOnly_def list_all_iff filter_id_conv)

lemma without_device_plain: "58 \<notin> set s \<Longrightarrow> without_device s = s"
  by (simp add: without_device_def cut_at_absent [THEN iffD2])

lemma without_device_suffix:
  assumes "58 \<notin> set h" "64 \<notin> set d" shows "without_device (h @ 58 # d @ 64 # t) = h @ 64 # t"
proof -
  have "dropWhile (\<lambda>c. c \<noteq> 64) (d @ 64 # t) = 64 # t"
    using assms(2) by (subst dropWhile_append2) auto
  then show ?thesis using cut_at_found [OF assms(1), of "d @ 64 # t"] by (simp add: without_device_def)
qed

lemma without_domain_plain: "64 \<notin> set s \<Longrightarrow> without_domain s = s"
  by (induction s) auto

lemma without_domain_suffix:
  "64 \<notin> set h \<Longrightarrow> list_all (in_cls any_but_newline) t \<Longrightarrow> without_domain (h @ 64 # t) = h"
  by (induction h) auto

lemma normalize_digits: "list_all is_digit (normalizeWhatsAppId s)"
  by (simp add: normalizeWhatsAppId_def digitsOnly_digits)

lemma normalize_normalized: "list_all is_digit s \<Longrightarrow> normalizeWhatsAppId s = s"
proof -
  assume d: "list_all is_digit s"
  then have "58 \<notin> set s" "64 \<notin> set s" by (auto simp: list_all_iff is_digit_def)
  with d show ?thesis
    by (simp add: normalizeWhatsAppId_def without_device_plain without_domain_plain digitsOnly_id)
qed

lemma has_set_of: "has (set_of xs) x \<longleftrightarrow> x \<in> set xs"
proof -
  have "jm_inv m \<Longrightarrow> has (foldl (\<lambda>m x. jm_set x () m) m xs) x \<longleftrightarrow> has m x \<or> x \<in> set xs" for m
    by (induction xs arbitrary: m) (auto simp: has_def map_facts)
  from this [of "[]"] show ?thesis by (simp add: set_of_def has_def)
qed

lemma set_of_empty: "set_of xs = [] \<longleftrightarrow> xs = []"
proof
  assume e: "set_of xs = []"
  have "x \<notin> set xs" for x using has_set_of [of xs x] unfolding e by (simp add: has_def)
  then show "xs = []" by (metis list.set_intros(1) neq_Nil_conv)
qed (simp add: set_of_def)

lemma has_nonempty: "has m x \<Longrightarrow> m \<noteq> []"
  by (auto simp: has_def)

lemma wildcard_no_number: "normalizeWhatsAppId s \<noteq> WILDCARD"
  using normalize_digits [of s] by (auto simp: WILDCARD_def is_digit_def)

section \<open>Runs of phone characters\<close>

text \<open>The reference: the text cut at every character no written number has.\<close>

fun fields_by :: "(cu \<Rightarrow> bool) \<Rightarrow> js \<Rightarrow> js list" where
  "fields_by P [] = [[]]"
| "fields_by P (c # s) =
     (if P c then (case fields_by P s of [] \<Rightarrow> [[c]] | f # fs \<Rightarrow> (c # f) # fs) else [] # fields_by P s)"

lemma fields_hd: "\<exists>fs. fields_by P s = takeWhile P s # fs"
  by (induction s) auto

lemma fields_append:
  "\<forall>c\<in>set h. P c \<Longrightarrow> fields_by P t = f # fs \<Longrightarrow> fields_by P (h @ t) = (h @ f) # fs"
  by (induction h) auto

lemma first_some_greatest:
  "first_some f (rev [0..<k]) = Some y \<Longrightarrow> \<exists>i<k. f i = Some y \<and> (\<forall>j. i < j \<and> j < k \<longrightarrow> f j = None)"
proof (induction k)
  case (Suc k)
  show ?case
  proof (cases "f k")
    case None
    with Suc obtain i where "i < k" "f i = Some y" "\<forall>j. i < j \<and> j < k \<longrightarrow> f j = None" by auto
    with None show ?thesis by (intro exI [of _ i]) (auto simp: less_Suc_eq)
  qed (use Suc.prems in auto)
qed simp

lemma digit_in_phone: "is_digit c \<Longrightarrow> in_cls phone_class c"
  by (simp add: is_digit_def phone_class_def)

lemma no_run_at_other:
  "\<not> is_digit c \<Longrightarrow> match_at PHONE_RUN pv (c # s) = None"
  by (simp add: match_at_def PHONE_RUN_def is_digit_in_cls)

lemma run_at_digit:
  assumes "is_digit c"
  shows "\<exists>n caps. match_at PHONE_RUN pv (c # s) = Some (Suc n, caps) \<and> n \<le> length s \<and>
     (\<forall>x\<in>set (take n s). in_cls phone_class x) \<and> \<not> list_ex is_digit (takeWhile (in_cls phone_class) (drop n s))"
proof -
  let ?w = "takeWhile (in_cls phone_class) s"
  let ?g = "\<lambda>i. if i < length s \<and> is_digit (s ! i) then Some (Suc i, [] :: captures) else None"
  have step: "run [One digit] p (drop i s) = map_option (\<lambda>_. (1, [])) (?g i)" for p i
    by (cases "i < length s") (simp_all add: Cons_nth_drop_Suc [symmetric] is_digit_in_cls)
  have cnt: "counts phone_class 0 None True s = rev [0..<Suc (length ?w)]"
    by (simp add: counts_def Let_def del: upt_Suc)
  have rep: "run [Rep None phone_class 0 None True, One digit] (Some c) s = first_some ?g (rev [0..<Suc (length ?w)])"
  proof -
    have "map_option (\<lambda>(n, caps). (i + n, caps)) (run [One digit] p (drop i s)) = ?g i" for i p
      unfolding step by simp
    then show ?thesis by (simp only: run.simps(3) cnt option.case)
  qed
  have first: "run [One digit, Rep None phone_class 0 None True, One digit] pv (c # s) =
      map_option (\<lambda>(n, cs). (Suc n, cs)) (first_some ?g (rev [0..<Suc (length ?w)]))"
    using assms by (simp add: is_digit_in_cls rep del: run.simps(3) upt_Suc)
  show ?thesis
  proof (cases "first_some ?g (rev [0..<Suc (length ?w)])")
    case (Some y)
    then obtain i where i: "i < Suc (length ?w)" "?g i = Some y"
      and last: "\<forall>j. i < j \<and> j < Suc (length ?w) \<longrightarrow> ?g j = None"
      using first_some_greatest [OF Some] by blast
    have dig: "i < length s" "is_digit (s ! i)" "y = (Suc i, [])" using i(2) by (auto split: if_splits)
    have len: "length ?w \<le> length s" by (rule length_takeWhile_le)
    have "i < length ?w"
    proof (rule ccontr)
      assume "\<not> i < length ?w"
      then have "i = length ?w" using i(1) by simp
      then show False using nth_length_takeWhile [of "in_cls phone_class" s] dig digit_in_phone by auto
    qed
    then have pre: "take (Suc i) s = take (Suc i) ?w"
      by (metis Suc_leI min.absorb1 take_take takeWhile_eq_take)
    have w: "?w = take (Suc i) s @ takeWhile (in_cls phone_class) (drop (Suc i) s)"
    proof -
      have "\<forall>x\<in>set (take (Suc i) s). in_cls phone_class x" unfolding pre by (meson in_set_takeD set_takeWhileD)
      then show ?thesis by (metis append_take_drop_id takeWhile_append2)
    qed
    have "\<not> is_digit x" if x: "x \<in> set (takeWhile (in_cls phone_class) (drop (Suc i) s))" for x
    proof -
      let ?v = "takeWhile (in_cls phone_class) (drop (Suc i) s)"
      obtain k where k: "k < length ?v" "x = ?v ! k" using x by (metis in_set_conv_nth)
      have "length ?w = Suc i + length ?v" using w dig(1) by (metis Suc_leI length_append length_take min.absorb2)
      then have "?g (Suc i + k) = None"
        by (intro last [rule_format]) (use k(1) in simp)
      moreover have "Suc i + k < length s" using \<open>length ?w = Suc i + length ?v\<close> k(1) len by linarith
      moreover have "?v ! k = s ! (Suc i + k)" using k(1) dig(1) by (simp add: takeWhile_nth)
      ultimately show ?thesis using k(2) by (simp split: if_splits)
    qed
    then have "\<not> list_ex is_digit (takeWhile (in_cls phone_class) (drop (Suc i) s))" by (auto simp: list_ex_iff)
    moreover have "\<forall>x\<in>set (take (Suc i) s). in_cls phone_class x"
      unfolding pre by (meson in_set_takeD set_takeWhileD)
    ultimately show ?thesis using Some first dig
      by (intro exI [of _ "Suc i"]) (simp add: match_at_def PHONE_RUN_def del: run.simps)
  next
    case None
    then have all: "\<forall>i\<in>set (rev [0..<Suc (length ?w)]). ?g i = None" by (simp only: first_some_None)
    have "\<not> is_digit x" if x: "x \<in> set ?w" for x
    proof -
      obtain k where k: "k < length ?w" "x = ?w ! k" using x by (metis in_set_conv_nth)
      have "?g k = None" using all k(1) by simp
      moreover have "k < length s" using k(1) length_takeWhile_le [of "in_cls phone_class" s] by linarith
      ultimately show ?thesis using k by (simp add: takeWhile_nth split: if_splits)
    qed
    moreover have "match_at PHONE_RUN pv (c # s) = Some (1, [])"
      using None first assms by (simp add: match_at_def PHONE_RUN_def is_digit_in_cls del: run.simps) (simp add: is_digit_in_cls)
    ultimately show ?thesis by (intro exI [of _ 0]) (auto simp: list_ex_iff)
  qed
qed

lemma digitsOnly_none: "\<not> list_ex is_digit s \<Longrightarrow> digitsOnly s = []"
  by (auto simp: digitsOnly_def list_ex_iff filter_empty_conv)

lemma match_all_fields:
  "map digitsOnly (match_all PHONE_RUN pv s) =
     filter (\<lambda>f. f \<noteq> []) (map digitsOnly (fields_by (in_cls phone_class) s))"
proof (induction s arbitrary: pv rule: length_induct)
  case (1 s)
  show ?case
  proof (cases s)
    case Nil
    then show ?thesis by (simp add: digitsOnly_def)
  next
    case (Cons c t)
    obtain fs where fs: "fields_by (in_cls phone_class) t = takeWhile (in_cls phone_class) t # fs"
      using fields_hd by blast
    have IH: "map digitsOnly (match_all PHONE_RUN p u) =
        filter (\<lambda>f. f \<noteq> []) (map digitsOnly (fields_by (in_cls phone_class) u))" if "length u \<le> length t" for p u
      using 1 Cons that by (simp add: less_Suc_eq_le)
    show ?thesis
    proof (cases "is_digit c")
      case False
      then have "digitsOnly (c # f) = digitsOnly f" for f by (simp add: digitsOnly_def)
      moreover have "digitsOnly [] = []" by (simp add: digitsOnly_def)
      ultimately show ?thesis using Cons False IH [of t "Some c"] fs no_run_at_other [of c pv t] by simp
    next
      case True
      obtain n caps where m: "match_at PHONE_RUN pv (c # t) = Some (Suc n, caps)"
        and "n \<le> length t" and cls: "\<forall>x\<in>set (take n t). in_cls phone_class x"
        and none: "\<not> list_ex is_digit (takeWhile (in_cls phone_class) (drop n t))"
        using run_at_digit [OF True] by metis
      obtain gs where gs: "fields_by (in_cls phone_class) (drop n t) =
          takeWhile (in_cls phone_class) (drop n t) # gs"
        using fields_hd by blast
      have "fields_by (in_cls phone_class) ((c # take n t) @ drop n t) =
          ((c # take n t) @ takeWhile (in_cls phone_class) (drop n t)) # gs"
        by (rule fields_append [OF _ gs]) (use cls digit_in_phone [OF True] in auto)
      then have f: "fields_by (in_cls phone_class) s =
          (c # take n t @ takeWhile (in_cls phone_class) (drop n t)) # gs" using Cons by simp
      have "digitsOnly (c # take n t @ takeWhile (in_cls phone_class) (drop n t)) = digitsOnly (c # take n t)"
        using digitsOnly_none [OF none] by (simp add: digitsOnly_def)
      moreover have "digitsOnly (c # take n t) \<noteq> []" using True by (simp add: digitsOnly_def)
      moreover have "map digitsOnly (match_all PHONE_RUN p (drop n t)) =
          filter (\<lambda>f. f \<noteq> []) (map digitsOnly gs)" for p
        using IH [of "drop n t" p] gs digitsOnly_none [OF none] by simp
      ultimately show ?thesis using Cons m f by simp
    qed
  qed
qed

section \<open>The decision\<close>

definition is_refused :: "wa_inbound \<Rightarrow> js_set option \<Rightarrow> bool" where
  "is_refused inbound allowed \<longleftrightarrow> \<not> wa_fromSelf inbound \<and>
     (case allowed of None \<Rightarrow> False | Some a \<Rightarrow> \<not> isSenderAllowed (wa_fromPhone inbound) a)"

definition is_unaddressed :: "wa_inbound \<Rightarrow> inbound_rules \<Rightarrow> bool" where
  "is_unaddressed inbound rules \<longleftrightarrow> wa_conversationType inbound = Group \<and> ir_requireMention rules \<and>
     \<not> (ir_botPhoneId rules \<noteq> [] \<and>
        list_ex (\<lambda>r. includes_str r (ir_botPhoneId rules)) (phoneRuns (wa_text inbound)))"

lemma refused_fst: "fst (isRefusedBySenderAllowlist inbound allowed st) = is_refused inbound allowed"
  by (simp add: isRefusedBySenderAllowlist_def is_refused_def split: option.split)

lemma drop_group_fst:
  "fst (shouldDropGroupMessage inbound (ir_requireMention rules) (ir_botPhoneId rules) st) = is_unaddressed inbound rules"
  by (auto simp: shouldDropGroupMessage_def is_unaddressed_def)

lemma another_fst:
  "fst (isForAnotherNumber pn own st) \<longleftrightarrow> own \<noteq> None \<and> pn \<noteq> own"
  by (auto simp: isForAnotherNumber_def Let_def split: option.split)

lemma decide_fst:
  "fst (decideForOwnNumber inbound own rules st) =
     (if own \<noteq> None \<and> wa_phoneNumberId inbound \<noteq> own \<or> is_refused inbound (ir_allowedSenders rules)
         \<or> is_unaddressed inbound rules
      then None else Some (toMessageEvent inbound))"
proof -
  obtain a1 st1 where a: "isForAnotherNumber (wa_phoneNumberId inbound) own st = (a1, st1)" by fastforce
  obtain a2 st2 where b: "isRefusedBySenderAllowlist inbound (ir_allowedSenders rules) st1 = (a2, st2)" by fastforce
  obtain a3 st3 where c: "shouldDropGroupMessage inbound (ir_requireMention rules) (ir_botPhoneId rules) st2 = (a3, st3)"
    by fastforce
  have "a1 \<longleftrightarrow> own \<noteq> None \<and> wa_phoneNumberId inbound \<noteq> own" using another_fst a by (metis fst_conv)
  moreover have "a2 = is_refused inbound (ir_allowedSenders rules)" using refused_fst b by (metis fst_conv)
  moreover have "a3 = is_unaddressed inbound rules" using drop_group_fst c by (metis fst_conv)
  ultimately show ?thesis using a b c
    by (simp add: decideForOwnNumber_def decideInbound_def split: bool.split)
qed

section \<open>What is reported\<close>

definition report_all :: "js option \<Rightarrow> js option list \<Rightarrow> rules_state \<Rightarrow> rules_state" where
  "report_all own ids st = foldl (\<lambda>st pn. snd (isForAnotherNumber pn own st)) st ids"

definition fresh_rules :: rules_state where
  "fresh_rules = \<lparr>rs_reported = [], rs_warned = [], rs_log = []\<rparr>"

lemma report_step:
  "jm_inv (rs_reported st) \<Longrightarrow> pn \<noteq> Some own \<Longrightarrow>
     jm_inv (rs_reported (snd (isForAnotherNumber pn (Some own) st))) \<and>
     set (jm_keys (rs_reported (snd (isForAnotherNumber pn (Some own) st)))) =
       insert (redactedNumberId pn) (set (jm_keys (rs_reported st)))"
  by (auto simp: isForAnotherNumber_def Let_def say_def has_def map_facts jm.ks_dom)

lemma report_own: "snd (isForAnotherNumber (Some own) (Some own) st) = st"
  by (simp add: isForAnotherNumber_def)

lemma report_keys:
  "jm_inv (rs_reported st) \<Longrightarrow>
     jm_inv (rs_reported (report_all (Some own) ids st)) \<and>
     set (jm_keys (rs_reported (report_all (Some own) ids st))) =
       set (jm_keys (rs_reported st)) \<union> redactedNumberId ` (set ids - {Some own})"
proof (induction ids arbitrary: st)
  case (Cons pn ids)
  let ?st = "snd (isForAnotherNumber pn (Some own) st)"
  have run: "report_all (Some own) (pn # ids) st = report_all (Some own) ids ?st" by (simp add: report_all_def)
  show ?case
  proof (cases "pn = Some own")
    case True
    then show ?thesis using Cons run report_own by simp
  next
    case False
    note step = report_step [OF Cons.prems False]
    show ?thesis using Cons.IH [of ?st] step run False by auto
  qed
qed (simp add: report_all_def)

definition digit_units :: js where "digit_units = [48..57]"

definition endings :: "js list" where
  "endings = concat (map (\<lambda>n. List.n_lists n digit_units) [1, 2, 3, 4])"

lemma length_endings: "length endings = 11110"
proof -
  have "length digit_units = 10" by (simp add: digit_units_def)
  then show ?thesis by (simp add: endings_def length_n_lists)
qed

lemma set_endings: "set endings = {s. s \<noteq> [] \<and> length s \<le> 4 \<and> list_all is_digit s}"
proof -
  have d: "set digit_units = Collect is_digit" unfolding digit_units_def set_upto by (auto simp: is_digit_def)
  have small: "0 < n \<and> n \<le> 4 \<longleftrightarrow> n = 1 \<or> n = 2 \<or> n = 3 \<or> n = (4 :: nat)" for n by presburger
  have "s \<noteq> [] \<and> length s \<le> 4 \<longleftrightarrow> length s \<in> {1, 2, 3, 4}" for s :: js
    using small [of "length s"] by simp
  moreover have "s \<in> set endings \<longleftrightarrow> length s \<in> {1, 2, 3, 4} \<and> list_all is_digit s" for s
    by (auto simp: endings_def set_n_lists d list_all_iff length_Suc_conv)
  ultimately have "s \<in> set endings \<longleftrightarrow> s \<noteq> [] \<and> length s \<le> 4 \<and> list_all is_digit s" for s by metis
  then show ?thesis by blast
qed

lemma distinct_endings: "distinct endings"
proof -
  have "distinct digit_units" by (simp add: digit_units_def)
  then show ?thesis by (auto simp: endings_def distinct_n_lists set_n_lists distinct_map inj_on_def)
qed

definition labels :: "js list" where
  "labels = redactedNumberId None # redactedNumberId (Some []) #
     map (\<lambda>e. lit ''a phone number id ending in '' @ e) endings"

lemma lastFour_ending: "lastFourDigits s = [] \<or> lastFourDigits s \<in> set endings"
proof -
  have "lastFourDigits s = drop (length (digitsOnly s) - 4) (digitsOnly s)"
    by (auto simp: lastFourDigits_def js_slice_from_def slice_pos_def nat_diff_distrib' max_def)
  then show ?thesis using digitsOnly_digits [of s]
    by (auto simp: set_endings list_all_iff dest: in_set_dropD)
qed

lemma label_in: "redactedNumberId pn \<in> set labels"
  using lastFour_ending by (auto simp: redactedNumberId_def labels_def Let_def lastFourDigits_def digitsOnly_def
      js_slice_from_def slice_pos_def split: option.split)

lemma lastFour_id: "s \<in> set endings \<Longrightarrow> lastFourDigits s = s"
  by (simp add: set_endings lastFourDigits_def digitsOnly_id js_slice_from_def slice_pos_def)

lemma label_of_ending: "s \<in> set endings \<Longrightarrow> redactedNumberId (Some s) = lit ''a phone number id ending in '' @ s"
  by (simp add: redactedNumberId_def lastFour_id set_endings del: lit_simps)

lemma labels_image: "set labels = redactedNumberId ` set (None # Some [] # map Some endings)"
  by (auto simp: labels_def label_of_ending image_iff simp del: lit_simps)

lemma distinct_labels: "distinct labels"
proof -
  have b: "redactedNumberId (Some []) = lit ''a phone number id with no digits''"
    by (simp add: redactedNumberId_def lastFourDigits_def digitsOnly_def js_slice_from_def slice_pos_def del: lit_simps)
  have n: "redactedNumberId None = lit ''no phone number id''" by (simp add: redactedNumberId_def del: lit_simps)
  have "lit ''no phone number id'' \<noteq> lit ''a phone number id with no digits''" by simp
  moreover have "lit ''no phone number id'' \<noteq> lit ''a phone number id ending in '' @ e" for e by simp
  moreover have "lit ''a phone number id with no digits'' \<noteq> lit ''a phone number id ending in '' @ e" for e by simp
  moreover have "distinct (map (\<lambda>e. lit ''a phone number id ending in '' @ e) endings)"
    unfolding distinct_map using distinct_endings by (auto intro: inj_onI simp del: lit_simps)
  ultimately show ?thesis unfolding labels_def b n by (auto simp del: lit_simps lit_inject)
qed

lemma length_labels: "length labels = 11112"
  by (simp add: labels_def length_endings)

section \<open>Properties\<close>

text \<open>
  The mention filter looks for the bot's number in exactly the numbers a reader would see: the
  greedy pattern with its backtracking yields, in order, the digits of every stretch of text between
  characters that no written number contains, and skips the stretches without digits.
\<close>
theorem phone_runs_are_the_written_numbers:
  "phoneRuns s = filter (\<lambda>f. f \<noteq> []) (map digitsOnly (fields_by (in_cls phone_class) s))"
  unfolding phoneRuns_def by (rule match_all_fields)

text \<open>
  The allowlist admits a sender only when the sender has a number and an entry of the configured
  text is the wildcard or has the same number; an empty or blank configuration admits nobody.
\<close>
theorem allowlist_fails_closed:
  "isSenderAllowed sender (parseAllowedSenders raw) =
     (normalizeWhatsAppId sender \<noteq> [] \<and>
      list_ex (\<lambda>e. js_trim e = WILDCARD \<or> normalizeWhatsAppId (js_trim e) = normalizeWhatsAppId sender)
        (split_on 44 (case raw of None \<Rightarrow> [] | Some r \<Rightarrow> r)))"
proof -
  let ?es = "split_on 44 (case raw of None \<Rightarrow> [] | Some r \<Rightarrow> r)"
  let ?ks = "filter (\<lambda>entry. entry \<noteq> []) (map parse_entry ?es)"
  have wild: "has (parseAllowedSenders raw) WILDCARD \<longleftrightarrow> (\<exists>e\<in>set ?es. js_trim e = WILDCARD)"
    unfolding parseAllowedSenders_def has_set_of using wildcard_no_number
    by (force simp: parse_entry_def WILDCARD_def Let_def)
  have num: "has (parseAllowedSenders raw) n \<longleftrightarrow>
      (\<exists>e\<in>set ?es. js_trim e \<noteq> WILDCARD \<and> normalizeWhatsAppId (js_trim e) = n)"
    if "n \<noteq> []" "n \<noteq> WILDCARD" for n
    unfolding parseAllowedSenders_def has_set_of using that
    by (force simp: parse_entry_def Let_def)
  have "normalizeWhatsAppId (js_trim e) = []" if "js_trim e = WILDCARD" for e
    using that by (simp add: WILDCARD_def normalizeWhatsAppId_def without_device_plain digitsOnly_def is_digit_def)
  then show ?thesis using wild num [of "normalizeWhatsAppId sender"] wildcard_no_number [of sender]
      has_nonempty [of "parseAllowedSenders raw"]
    by (auto simp: isSenderAllowed_def Let_def list_ex_iff)
qed

text \<open>
  The device suffix and the domain of an address are not part of the number: an address made of
  a number, any device and any domain names that number.
\<close>
theorem device_and_domain_are_dropped:
  assumes "list_all is_digit number" "64 \<notin> set device" "list_all (in_cls any_but_newline) domain"
  shows "normalizeWhatsAppId (number @ 58 # device @ 64 # domain) = number"
proof -
  have n: "58 \<notin> set number" "64 \<notin> set number" using assms(1) by (auto simp: list_all_iff is_digit_def)
  show ?thesis
    by (simp add: normalizeWhatsAppId_def without_device_suffix [OF n(1) assms(2)]
        without_domain_suffix [OF n(2) assms(3)] digitsOnly_id [OF assms(1)])
qed

theorem device_and_domain_are_dropped_witness:
  "normalizeWhatsAppId (lit ''5511'' @ 58 # lit ''12'' @ 64 # lit ''s.whatsapp.net'') = lit ''5511''"
  by (rule device_and_domain_are_dropped)
    (simp_all add: is_digit_def any_but_newline_def)

text \<open>
  A message becomes an event exactly when it is addressed to the adapter's number (or the adapter
  has none to compare), the allowlist does not refuse its sender, and a group message that must
  mention the bot does. The event carries the message unchanged.
\<close>
theorem decision_is_all_three_rules:
  "fst (decideForOwnNumber inbound own rules st) =
     (if (own = None \<or> wa_phoneNumberId inbound = own)
         \<and> (wa_fromSelf inbound \<or> ir_allowedSenders rules = None
            \<or> isSenderAllowed (wa_fromPhone inbound) (the (ir_allowedSenders rules)))
         \<and> (wa_conversationType inbound \<noteq> Group \<or> ir_requireMention rules = False
            \<or> ir_botPhoneId rules \<noteq> [] \<and>
              list_ex (\<lambda>r. includes_str r (ir_botPhoneId rules)) (phoneRuns (wa_text inbound)))
      then Some (toMessageEvent inbound) else None)"
  unfolding decide_fst
  by (auto simp: is_refused_def is_unaddressed_def split: option.split)

text \<open>
  Whatever numbers callers send, the set of reported endings holds at most 11,112 labels, and it
  can reach that many: the code's comment counts 10,002, leaving out the endings of one to three digits.
\<close>
theorem reported_labels_are_bounded:
  "length (rs_reported (report_all (Some own) ids fresh_rules)) \<le> 11112 \<and>
   length (rs_reported (report_all (Some (lit ''own'')) (None # Some [] # map Some endings) fresh_rules)) = 11112"
proof
  let ?m = "rs_reported (report_all (Some own) ids fresh_rules)"
  have inv: "jm_inv (rs_reported fresh_rules)" by (simp add: fresh_rules_def)
  have keys: "distinct (jm_keys m)" if "jm_inv m" for m :: js_set by (rule jm.ks_distinct [OF that])
  have "set (jm_keys ?m) \<subseteq> set labels"
    using report_keys [OF inv, of own ids] label_in by (auto simp: fresh_rules_def)
  then have "length (jm_keys ?m) \<le> length labels"
    using report_keys [OF inv, of own ids] keys distinct_labels by (metis List.finite_set card_mono distinct_card)
  then show "length ?m \<le> 11112" by (simp add: length_labels)
  let ?f = "rs_reported (report_all (Some (lit ''own'')) (None # Some [] # map Some endings) fresh_rules)"
  have "lit ''own'' \<notin> set endings" "lit ''own'' \<noteq> []" by (simp_all add: set_endings is_digit_def)
  then have "set (None # Some [] # map Some endings) - {Some (lit ''own'')} = set (None # Some [] # map Some endings)"
    by (auto simp del: lit_simps)
  then have "set (jm_keys ?f) = set labels"
    using report_keys [OF inv, of "lit ''own''" "None # Some [] # map Some endings"]
    unfolding labels_image by (simp add: fresh_rules_def)
  then have "length (jm_keys ?f) = length labels"
    using report_keys [OF inv, of "lit ''own''"] keys distinct_labels by (metis distinct_card)
  then show "length ?f = 11112" by (simp add: length_labels)
qed

end
