(* ===== verification/WhatsAppWebhook.thy ===== *)
theory WhatsAppWebhook
  imports WhatsAppInbound Splitters
begin

text \<open>
  Meta's webhook as the Cloud backend reads it (\<open>gateway-whatsapp/src/backend/cloud/signature.ts\<close>,
  \<open>webhook.ts\<close>): the subscription handshake, the signature of a body, the shape check of the parsed body
  and the two normalizers. The HMAC is a parameter. A normalizer works on JSON and answers \<open>None\<close> where
  the code throws; the fields it copies are JSON values, and that they are strings is a theorem.
\<close>

section \<open>The handshake and the signature\<close>

definition verifyWebhookSubscription :: "(js \<Rightarrow> js option) \<Rightarrow> js \<Rightarrow> js option" where
  "verifyWebhookSubscription query expectedVerifyToken =
     (let mode = query (lit ''hub.mode'');
          token = query (lit ''hub.verify_token'');
          challenge = query (lit ''hub.challenge'')
      in if mode \<noteq> Some (lit ''subscribe'') then None
         else if token \<noteq> Some expectedVerifyToken then None
         else case challenge of None \<Rightarrow> None | Some c \<Rightarrow> if c = [] then None else Some c)"

definition hex_digit :: "cu \<Rightarrow> nat option" where
  "hex_digit c =
     (if 48 \<le> c \<and> c \<le> 57 then Some (nat (c - 48))
      else if 97 \<le> c \<and> c \<le> 102 then Some (nat (c - 87))
      else if 65 \<le> c \<and> c \<le> 70 then Some (nat (c - 55))
      else None)"

text \<open>\<open>Buffer.from(s, "hex")\<close> on hexadecimal digits: whole pairs, an odd last digit dropped.\<close>

fun hex_bytes :: "js \<Rightarrow> nat list" where
  "hex_bytes (a # b # s) =
     (case (hex_digit a, hex_digit b) of (Some x, Some y) \<Rightarrow> (16 * x + y) # hex_bytes s | _ \<Rightarrow> [])"
| "hex_bytes _ = []"

definition SIGNATURE_PREFIX :: js where "SIGNATURE_PREFIX = lit ''sha256=''"

definition verifyWebhookSignature ::
    "(js \<Rightarrow> 'b \<Rightarrow> nat list) \<Rightarrow> 'b \<Rightarrow> js option \<Rightarrow> js \<Rightarrow> config_error + bool" where
  "verifyWebhookSignature hmac rawBody signatureHeader appSecret =
     (if js_trim appSecret = []
      then Inl (GatewayConfigurationError (lit ''gateway-whatsapp'') (lit ''missing_option'')
        (Some (lit ''gateway-whatsapp: appSecret is required to verify a webhook signature and must not be empty; ''
          @ lit ''an HMAC under an empty key is computable by anyone.'')) None)
      else case signatureHeader of
        None \<Rightarrow> Inr False
      | Some header \<Rightarrow>
          if \<not> prefix SIGNATURE_PREFIX header then Inr False
          else let receivedHex = drop 7 header in
            if receivedHex = [] \<or> \<not> list_all (\<lambda>c. hex_digit c \<noteq> None) receivedHex then Inr False
            else let received = hex_bytes receivedHex; expected = hmac appSecret rawBody in
              if length received \<noteq> length expected then Inr False
              else Inr (received = expected))"

section \<open>The shape of a body\<close>

fun isRecord :: "json option \<Rightarrow> bool" where
  "isRecord (Some (JArr vs)) = True"
| "isRecord (Some (JObj fs)) = True"
| "isRecord _ = False"

abbreviation is_string :: "json option \<Rightarrow> bool" where
  "is_string v \<equiv> string_of v \<noteq> None"

definition member :: "json \<Rightarrow> string \<Rightarrow> json option" where
  "member v k = member_of v (lit k)"

fun isOptionalRecordArray :: "json option \<Rightarrow> bool" where
  "isOptionalRecordArray None = True"
| "isOptionalRecordArray (Some (JArr vs)) = list_all (\<lambda>v. isRecord (Some v)) vs"
| "isOptionalRecordArray _ = False"

definition isWellFormedMetadata :: "json option \<Rightarrow> bool" where
  "isWellFormedMetadata metadata =
     (case metadata of
        None \<Rightarrow> True
      | Some m \<Rightarrow>
          if m = JNull then True
          else if \<not> isRecord (Some m) then False
          else member m ''phone_number_id'' = None \<or> is_string (member m ''phone_number_id''))"

definition isReadableMessage :: "json \<Rightarrow> bool" where
  "isReadableMessage message =
     (if member message ''type'' \<noteq> Some (JStr (lit ''text'')) then True
      else if \<not> is_string (member message ''id'') \<or> \<not> is_string (member message ''from'') then False
      else case member message ''text'' of
        None \<Rightarrow> True
      | Some body \<Rightarrow> isRecord (Some body) \<and> is_string (member body ''body''))"

definition isReadableContact :: "json \<Rightarrow> bool" where
  "isReadableContact contact =
     (if \<not> is_string (member contact ''wa_id'') then False
      else case member contact ''profile'' of
        None \<Rightarrow> True
      | Some profile \<Rightarrow>
          isRecord (Some profile) \<and> (member profile ''name'' = None \<or> is_string (member profile ''name'')))"

definition isReadableStatus :: "json \<Rightarrow> bool" where
  "isReadableStatus status \<longleftrightarrow>
     is_string (member status ''id'') \<and> is_string (member status ''status'') \<and>
     is_string (member status ''recipient_id'')"

definition isOptionalReadableList :: "json option \<Rightarrow> (json \<Rightarrow> bool) \<Rightarrow> bool" where
  "isOptionalReadableList listed isReadable =
     (if \<not> isOptionalRecordArray listed then False
      else case listed of Some (JArr vs) \<Rightarrow> list_all isReadable vs | _ \<Rightarrow> True)"

definition isWellFormedValue :: "json option \<Rightarrow> bool" where
  "isWellFormedValue value =
     (case value of
        None \<Rightarrow> True
      | Some v \<Rightarrow>
          if v = JNull then True
          else if \<not> isRecord (Some v) then False
          else isWellFormedMetadata (member v ''metadata'') \<and>
               isOptionalReadableList (member v ''contacts'') isReadableContact \<and>
               isOptionalReadableList (member v ''messages'') isReadableMessage \<and>
               isOptionalReadableList (member v ''statuses'') isReadableStatus)"

definition isWellFormedEntry :: "json \<Rightarrow> bool" where
  "isWellFormedEntry entry =
     (case member entry ''changes'' of
        Some (JArr changes) \<Rightarrow>
          isRecord (Some entry) \<and>
          list_all (\<lambda>change. isRecord (Some change) \<and> isWellFormedValue (member change ''value'')) changes
      | _ \<Rightarrow> False)"

definition parseWebhookPayload :: "json \<Rightarrow> json option" where
  "parseWebhookPayload body =
     (if \<not> isRecord (Some body) then None
      else if member body ''object'' = None then None
      else case member body ''entry'' of
        Some (JArr entries) \<Rightarrow> if list_all isWellFormedEntry entries then Some body else None
      | _ \<Rightarrow> None)"

section \<open>The normalizers\<close>

definition KNOWN_NON_TEXT_TYPES :: "js list" where
  "KNOWN_NON_TEXT_TYPES = [lit ''audio'', lit ''button'', lit ''contacts'', lit ''document'', lit ''image'',
     lit ''interactive'', lit ''location'', lit ''order'', lit ''reaction'', lit ''request_welcome'',
     lit ''sticker'', lit ''system'', lit ''unsupported'', lit ''video'']"

definition nonTextTypeLabel :: "json option \<Rightarrow> js" where
  "nonTextTypeLabel type =
     (case string_of type of
        Some t \<Rightarrow> if t \<in> set KNOWN_NON_TEXT_TYPES then t else lit ''an unknown type''
      | None \<Rightarrow> lit ''an unknown type'')"

text \<open>
  What the normalizers hand on, before its fields are known to be strings. A map of the code compares
  its keys by identity; for the strings a checked body holds that is equality.
\<close>

record cloud_message =
  cm_id :: "json option"
  cm_from :: "json option"
  cm_phoneNumberId :: "json option"
  cm_contactName :: "json option"
  cm_body :: json
  cm_receivedAt :: number
  cm_raw :: json

record cloud_status =
  cs_id :: "json option"
  cs_status :: "json option"
  cs_recipient :: "json option"
  cs_timestamp :: number
  cs_phoneNumberId :: "json option"

type_synonym contact_map = "(json option, json option) jsmap"

text \<open>
  \<open>for (const x of list ?? [])\<close>: what is iterated, a string by its code points; \<open>None\<close> where a value
  is not iterable.
\<close>

fun items_of :: "json option \<Rightarrow> json list option" where
  "items_of None = Some []"
| "items_of (Some JNull) = Some []"
| "items_of (Some (JArr vs)) = Some vs"
| "items_of (Some (JStr s)) = Some (map JStr (code_points s))"
| "items_of (Some v) = None"

fun add_contacts :: "json list \<Rightarrow> contact_map \<Rightarrow> contact_map option" where
  "add_contacts [] m = Some m"
| "add_contacts (c # cs) m =
     (if c = JNull then None
      else add_contacts cs (jm_set (member c ''wa_id'') (chained (member c ''profile'') (lit ''name'')) m))"

definition buildContactMap :: "json \<Rightarrow> contact_map option" where
  "buildContactMap value =
     (case items_of (member value ''contacts'') of None \<Rightarrow> None | Some cs \<Rightarrow> add_contacts cs [])"

definition unknown_contact :: "contact_map \<Rightarrow> json option \<Rightarrow> json option" where
  "unknown_contact contacts k = (case jm_get contacts k of None \<Rightarrow> None | Some name \<Rightarrow> name)"

definition warn_type :: "json option \<Rightarrow> rules_state \<Rightarrow> rules_state" where
  "warn_type type st =
     (let label = nonTextTypeLabel type in
      if has (rs_warned st) label then st
      else say (lit ''[whatsapp] ignoring '' @ label @ lit '' message '' @ [0x2014]
             @ lit '' v1 text-only (will be supported in v0.2+).'' @ [nl])
             (st\<lparr>rs_warned := jm_set label () (rs_warned st)\<rparr>))"

text \<open>The outer option is a throw, the inner one the \<open>null\<close> of a message that is dropped.\<close>

definition normalizeOneMessage ::
    "runtime \<Rightarrow> json option \<Rightarrow> contact_map \<Rightarrow> json \<Rightarrow> rules_state \<Rightarrow> cloud_message option option \<times> rules_state" where
  "normalizeOneMessage rt phoneNumberId contacts msg st =
     (if msg = JNull then (None, st)
      else if member msg ''type'' \<noteq> Some (JStr (lit ''text'')) then (Some None, warn_type (member msg ''type'') st)
      else case js_Number rt (member msg ''timestamp'') of
        None \<Rightarrow> (None, st)
      | Some stamp \<Rightarrow>
          (Some (Some \<lparr>cm_id = member msg ''id'', cm_from = member msg ''from'', cm_phoneNumberId = phoneNumberId,
             cm_contactName = unknown_contact contacts (member msg ''from''),
             cm_body = or_default (chained (member msg ''text'') (lit ''body'')) (JStr []),
             cm_receivedAt = or_now rt stamp, cm_raw = msg\<rparr>), st))"

fun normalizeMessages ::
    "runtime \<Rightarrow> json option \<Rightarrow> contact_map \<Rightarrow> json list \<Rightarrow> rules_state \<Rightarrow> cloud_message list option \<times> rules_state" where
  "normalizeMessages rt pn contacts [] st = (Some [], st)"
| "normalizeMessages rt pn contacts (msg # msgs) st =
     (case normalizeOneMessage rt pn contacts msg st of
        (None, st1) \<Rightarrow> (None, st1)
      | (Some normalized, st1) \<Rightarrow>
          (case normalizeMessages rt pn contacts msgs st1 of
             (None, st2) \<Rightarrow> (None, st2)
           | (Some out, st2) \<Rightarrow> (Some ((case normalized of None \<Rightarrow> [] | Some m \<Rightarrow> [m]) @ out), st2)))"

definition processChange :: "runtime \<Rightarrow> json \<Rightarrow> rules_state \<Rightarrow> cloud_message list option \<times> rules_state" where
  "processChange rt change st =
     (if change = JNull then (None, st)
      else case member change ''value'' of
        None \<Rightarrow> (Some [], st)
      | Some value \<Rightarrow>
          if value = JNull then (Some [], st)
          else case (buildContactMap value, items_of (member value ''messages'')) of
            (Some contacts, Some msgs) \<Rightarrow>
              normalizeMessages rt (chained (member value ''metadata'') (lit ''phone_number_id'')) contacts msgs st
          | _ \<Rightarrow> (None, st))"

text \<open>\<open>for (const x of list)\<close>, without a default.\<close>

definition listed :: "json option \<Rightarrow> json list option" where
  "listed v = (if v = None \<or> v = Some JNull then None else items_of v)"

fun each_change :: "(json \<Rightarrow> 's \<Rightarrow> 'a list option \<times> 's) \<Rightarrow> json list \<Rightarrow> 's \<Rightarrow> 'a list option \<times> 's" where
  "each_change f [] st = (Some [], st)"
| "each_change f (c # cs) st =
     (case f c st of
        (None, st1) \<Rightarrow> (None, st1)
      | (Some out, st1) \<Rightarrow>
          (case each_change f cs st1 of (None, st2) \<Rightarrow> (None, st2) | (Some out', st2) \<Rightarrow> (Some (out @ out'), st2)))"

definition in_entry :: "(json \<Rightarrow> 's \<Rightarrow> 'a list option \<times> 's) \<Rightarrow> json \<Rightarrow> 's \<Rightarrow> 'a list option \<times> 's" where
  "in_entry f entry st =
     (case (if entry = JNull then None else listed (member entry ''changes'')) of
        None \<Rightarrow> (None, st)
      | Some changes \<Rightarrow> each_change f changes st)"

definition in_envelope :: "(json \<Rightarrow> 's \<Rightarrow> 'a list option \<times> 's) \<Rightarrow> json \<Rightarrow> 's \<Rightarrow> 'a list option \<times> 's" where
  "in_envelope f envelope st =
     (case listed (member envelope ''entry'') of
        None \<Rightarrow> (None, st)
      | Some entries \<Rightarrow> each_change (in_entry f) entries st)"

definition normalizeInboundMessages ::
    "runtime \<Rightarrow> json \<Rightarrow> rules_state \<Rightarrow> cloud_message list option \<times> rules_state" where
  "normalizeInboundMessages rt envelope st = in_envelope (processChange rt) envelope st"

definition metaStatusToReceipt :: "runtime \<Rightarrow> json option \<Rightarrow> json \<Rightarrow> cloud_status option" where
  "metaStatusToReceipt rt phoneNumberId s =
     (if s = JNull then None
      else case js_Number rt (member s ''timestamp'') of
        None \<Rightarrow> None
      | Some stamp \<Rightarrow>
          Some \<lparr>cs_id = member s ''id'', cs_status = member s ''status'', cs_recipient = member s ''recipient_id'',
            cs_timestamp = or_now rt stamp, cs_phoneNumberId = phoneNumberId\<rparr>)"

fun all_some :: "'a option list \<Rightarrow> 'a list option" where
  "all_some [] = Some []"
| "all_some (x # xs) = (case (x, all_some xs) of (Some y, Some ys) \<Rightarrow> Some (y # ys) | _ \<Rightarrow> None)"

definition change_statuses :: "runtime \<Rightarrow> json \<Rightarrow> unit \<Rightarrow> cloud_status list option \<times> unit" where
  "change_statuses rt change st =
     (if change = JNull then (None, st)
      else let value = member change ''value'';
               phoneNumberId = chained (chained value (lit ''metadata'')) (lit ''phone_number_id'')
           in case items_of (chained value (lit ''statuses'')) of
                None \<Rightarrow> (None, st)
              | Some ss \<Rightarrow> (all_some (map (metaStatusToReceipt rt phoneNumberId) ss), st))"

definition normalizeStatusReceipts :: "runtime \<Rightarrow> json \<Rightarrow> cloud_status list option" where
  "normalizeStatusReceipts rt envelope = fst (in_envelope (change_statuses rt) envelope ())"

section \<open>The types the normalizers declare\<close>

text \<open>The event as the declared type has it; \<open>None\<close> when a field is not the string it is declared to be.\<close>

fun optional_string :: "json option \<Rightarrow> js option option" where
  "optional_string None = Some None"
| "optional_string (Some (JStr s)) = Some (Some s)"
| "optional_string _ = None"

definition typed_message :: "cloud_message \<Rightarrow> wa_inbound option" where
  "typed_message m =
     (case (string_of (cm_id m), string_of (cm_from m), optional_string (cm_phoneNumberId m),
            optional_string (cm_contactName m), string_of (Some (cm_body m))) of
        (Some wamid, Some from, Some pn, Some name, Some body) \<Rightarrow>
          Some \<lparr>wa_wamid = wamid, wa_fromPhone = from, wa_phoneNumberId = pn, wa_contactName = name,
            wa_conversationType = DM, wa_channelId = from, wa_channelJid = None, wa_text = body,
            wa_receivedAt = cm_receivedAt m, wa_fromSelf = False, wa_backend = CloudBackend, wa_raw = cm_raw m\<rparr>
      | _ \<Rightarrow> None)"

record wa_receipt =
  wr_wamid :: js
  wr_status :: js
  wr_recipient :: js
  wr_timestamp :: number
  wr_phoneNumberId :: "js option"

definition typed_status :: "cloud_status \<Rightarrow> wa_receipt option" where
  "typed_status s =
     (case (string_of (cs_id s), string_of (cs_status s), string_of (cs_recipient s),
            optional_string (cs_phoneNumberId s)) of
        (Some wamid, Some status, Some recipient, Some pn) \<Rightarrow>
          Some \<lparr>wr_wamid = wamid, wr_status = status, wr_recipient = recipient,
            wr_timestamp = cs_timestamp s, wr_phoneNumberId = pn\<rparr>
      | _ \<Rightarrow> None)"

section \<open>Facts about the traversal\<close>

lemma each_change_all:
  assumes "each_change f cs st = (Some out, st')"
    and "\<And>c s o' s'. c \<in> set cs \<Longrightarrow> f c s = (Some o', s') \<Longrightarrow> list_all P o'"
  shows "list_all P out"
  using assms
proof (induction cs arbitrary: st out st')
  case (Cons c cs)
  obtain o1 s1 where f: "f c st = (Some o1, s1)" using Cons.prems(1) by (auto split: prod.splits option.splits)
  obtain o2 s2 where r: "each_change f cs s1 = (Some o2, s2)" and out: "out = o1 @ o2"
    using Cons.prems(1) f by (auto split: prod.splits option.splits)
  have "list_all P o1" using Cons.prems(2) f by (meson list.set_intros(1))
  moreover have "list_all P o2" using Cons.IH [OF r] Cons.prems(2) by (meson list.set_intros(2))
  ultimately show ?case using out by simp
qed simp

lemma each_change_defined:
  assumes "\<And>c s. c \<in> set cs \<Longrightarrow> fst (f c s) \<noteq> None"
  shows "fst (each_change f cs st) \<noteq> None"
  using assms
proof (induction cs arbitrary: st)
  case (Cons c cs)
  obtain o1 s1 where f: "f c st = (Some o1, s1)"
    using Cons.prems [of c st] by (cases "f c st") auto
  have "fst (each_change f cs s1) \<noteq> None" using Cons by simp
  then show ?case using f by (auto split: prod.split option.split)
qed simp

lemma parsed_shape:
  assumes "parseWebhookPayload body = Some env"
  obtains entries where "env = body" "member env ''entry'' = Some (JArr entries)" "list_all isWellFormedEntry entries"
  using assms by (auto simp: parseWebhookPayload_def split: if_splits option.splits json.splits)

lemma entry_shape:
  assumes "isWellFormedEntry entry"
  obtains changes where "entry \<noteq> JNull" "member entry ''changes'' = Some (JArr changes)"
    "list_all (\<lambda>change. isRecord (Some change) \<and> isWellFormedValue (member change ''value'')) changes"
proof -
  obtain v where v: "member entry ''changes'' = Some v" using assms by (auto simp: isWellFormedEntry_def split: option.splits)
  then obtain changes where c: "v = JArr changes" using assms by (auto simp: isWellFormedEntry_def split: json.splits)
  have "entry \<noteq> JNull" using assms v c by (auto simp: isWellFormedEntry_def)
  then show thesis using that assms v c by (simp add: isWellFormedEntry_def)
qed

text \<open>A property of what every well-formed change yields holds of what a parsed body yields.\<close>

abbreviation good_change :: "json \<Rightarrow> bool" where
  "good_change change \<equiv> isRecord (Some change) \<and> isWellFormedValue (member change ''value'')"

lemma envelope_all:
  assumes parsed: "parseWebhookPayload body = Some env"
    and run: "in_envelope f env st = (Some out, st')"
    and each: "\<And>c s o' s'. good_change c \<Longrightarrow> f c s = (Some o', s') \<Longrightarrow> list_all P o'"
  shows "list_all P out"
proof -
  obtain entries where e: "member env ''entry'' = Some (JArr entries)" "list_all isWellFormedEntry entries"
    using parsed by (rule parsed_shape)
  have "each_change (in_entry f) entries st = (Some out, st')"
    using run e(1) by (simp add: in_envelope_def listed_def)
  then show ?thesis
  proof (rule each_change_all)
    fix entry s o' s'
    assume "entry \<in> set entries" and r: "in_entry f entry s = (Some o', s')"
    then have "isWellFormedEntry entry" using e(2) by (simp add: list_all_iff)
    then obtain changes where c: "entry \<noteq> JNull" "member entry ''changes'' = Some (JArr changes)"
      and good: "list_all good_change changes" by (rule entry_shape)
    have "each_change f changes s = (Some o', s')" using r c by (simp add: in_entry_def listed_def)
    then show "list_all P o'" by (rule each_change_all) (use good each in \<open>auto simp: list_all_iff\<close>)
  qed
qed

lemma envelope_defined:
  assumes parsed: "parseWebhookPayload body = Some env"
    and each: "\<And>entries entry changes c s. member env ''entry'' = Some (JArr entries) \<Longrightarrow> entry \<in> set entries \<Longrightarrow>
      member entry ''changes'' = Some (JArr changes) \<Longrightarrow> c \<in> set changes \<Longrightarrow> good_change c \<Longrightarrow> fst (f c s) \<noteq> None"
  shows "fst (in_envelope f env st) \<noteq> None"
proof -
  obtain entries where e: "member env ''entry'' = Some (JArr entries)" "list_all isWellFormedEntry entries"
    using parsed by (rule parsed_shape)
  have "fst (each_change (in_entry f) entries st) \<noteq> None"
  proof (rule each_change_defined)
    fix entry s assume entry: "entry \<in> set entries"
    then have "isWellFormedEntry entry" using e(2) by (simp add: list_all_iff)
    then obtain changes where c: "entry \<noteq> JNull" "member entry ''changes'' = Some (JArr changes)"
      and good: "list_all good_change changes" by (rule entry_shape)
    have "fst (each_change f changes s) \<noteq> None"
      by (rule each_change_defined) (use each e(1) entry c(2) good in \<open>auto simp: list_all_iff\<close>)
    then show "fst (in_entry f entry s) \<noteq> None" using c by (simp add: in_entry_def listed_def)
  qed
  then show ?thesis using e(1) by (simp add: in_envelope_def listed_def)
qed

section \<open>What a well-formed change holds\<close>

lemma string_ofD: "string_of v \<noteq> None \<Longrightarrow> \<exists>s. v = Some (JStr s)"
  by (cases v rule: string_of.cases) auto

lemma optional_string_of: "v = None \<or> string_of v \<noteq> None \<Longrightarrow> optional_string v \<noteq> None"
  using string_ofD by fastforce

lemma metadata_string:
  "isWellFormedMetadata m \<Longrightarrow> optional_string (chained m (lit ''phone_number_id'')) \<noteq> None"
proof (cases m)
  case (Some v)
  assume "isWellFormedMetadata m"
  with Some show ?thesis
    by (cases v) (simp_all add: isWellFormedMetadata_def member_def optional_string_of del: lit_simps not_None_eq)
qed simp

lemma readable_list:
  assumes "isOptionalReadableList v P"
  obtains xs where "items_of v = Some xs" "list_all P xs" "list_all (\<lambda>x. isRecord (Some x)) xs"
proof -
  have "\<exists>xs. items_of v = Some xs \<and> list_all P xs \<and> list_all (\<lambda>x. isRecord (Some x)) xs"
    using assms unfolding isOptionalReadableList_def
    by (cases v rule: isOptionalRecordArray.cases) (simp_all split: if_splits)
  then show thesis using that by blast
qed

lemma record_not_null: "isRecord (Some v) \<Longrightarrow> v \<noteq> JNull"
  by auto

text \<open>The map of contacts: every name it holds is absent or a string.\<close>

definition named :: "contact_map \<Rightarrow> bool" where
  "named m \<longleftrightarrow> jm_inv m \<and> (\<forall>k v. jm_get m k = Some v \<longrightarrow> optional_string v \<noteq> None)"

lemma readable_contact_name:
  "isReadableContact c \<Longrightarrow> optional_string (chained (member c ''profile'') (lit ''name'')) \<noteq> None"
proof (cases "member c ''profile''")
  case (Some v)
  assume "isReadableContact c"
  with Some show ?thesis
    by (cases v) (simp_all add: isReadableContact_def member_def optional_string_of split: if_splits del: lit_simps not_None_eq)
qed simp

lemma add_contacts_named:
  "list_all isReadableContact cs \<Longrightarrow> list_all (\<lambda>x. isRecord (Some x)) cs \<Longrightarrow> named m \<Longrightarrow>
     \<exists>m'. add_contacts cs m = Some m' \<and> named m'"
proof (induction cs arbitrary: m)
  case (Cons c cs)
  let ?m = "jm_set (member c ''wa_id'') (chained (member c ''profile'') (lit ''name'')) m"
  have "named ?m" using Cons.prems readable_contact_name [of c] by (auto simp: named_def map_facts)
  then show ?case using Cons.IH [of ?m] Cons.prems by auto
qed simp

lemma contact_map_named:
  assumes "isOptionalReadableList (member value ''contacts'') isReadableContact"
  obtains m where "buildContactMap value = Some m" "named m"
proof -
  obtain xs where x: "items_of (member value ''contacts'') = Some xs" "list_all isReadableContact xs"
    "list_all (\<lambda>x. isRecord (Some x)) xs" using assms by (rule readable_list)
  have "named []" by (simp add: named_def)
  from add_contacts_named [OF x(2,3) this] show ?thesis using that x(1) by (auto simp: buildContactMap_def)
qed

lemma named_lookup: "named m \<Longrightarrow> optional_string (unknown_contact m k) \<noteq> None"
  by (auto simp: named_def unknown_contact_def split: option.split)

lemma message_body_string:
  assumes "isReadableMessage msg" "member msg ''type'' = Some (JStr (lit ''text''))"
  shows "\<exists>s. or_default (chained (member msg ''text'') (lit ''body'')) (JStr []) = JStr s"
proof (cases "member msg ''text''")
  case (Some v)
  then have "isRecord (Some v)" "is_string (member v ''body'')"
    using assms by (auto simp: isReadableMessage_def split: if_splits simp del: lit_simps)
  moreover from this(2) obtain s where "member v ''body'' = Some (JStr s)" using string_ofD by blast
  ultimately show ?thesis using Some by (cases v) (auto simp: member_def simp del: lit_simps)
qed simp

lemma message_typed:
  assumes "isReadableMessage msg" "optional_string pn \<noteq> None" "named contacts"
    and "normalizeOneMessage rt pn contacts msg st = (Some (Some m), st')"
  shows "\<exists>w. typed_message m = Some w \<and> wa_raw w = msg \<and> optional_string pn = Some (wa_phoneNumberId w)"
proof -
  obtain stamp where kind: "member msg ''type'' = Some (JStr (lit ''text''))"
    and m: "m = \<lparr>cm_id = member msg ''id'', cm_from = member msg ''from'', cm_phoneNumberId = pn,
      cm_contactName = unknown_contact contacts (member msg ''from''),
      cm_body = or_default (chained (member msg ''text'') (lit ''body'')) (JStr []),
      cm_receivedAt = or_now rt stamp, cm_raw = msg\<rparr>"
    using assms(4) by (auto simp: normalizeOneMessage_def split: if_splits option.splits simp del: lit_simps)
  obtain i f where "string_of (member msg ''id'') = Some i" "string_of (member msg ''from'') = Some f"
    using assms(1) kind by (auto simp: isReadableMessage_def split: if_splits simp del: lit_simps)
  moreover obtain s where "or_default (chained (member msg ''text'') (lit ''body'')) (JStr []) = JStr s"
    using message_body_string [OF assms(1) kind] by blast
  moreover obtain p where "optional_string pn = Some p" using assms(2) by blast
  moreover obtain c where "optional_string (unknown_contact contacts (member msg ''from'')) = Some c"
    using named_lookup [OF assms(3)] by blast
  ultimately show ?thesis by (simp add: m typed_message_def del: lit_simps)
qed

section \<open>Messages and statuses of a well-formed change\<close>

lemma good_value:
  assumes "good_change c" "member c ''value'' = Some v" "v \<noteq> JNull"
  shows "isWellFormedMetadata (member v ''metadata'')"
    "isOptionalReadableList (member v ''contacts'') isReadableContact"
    "isOptionalReadableList (member v ''messages'') isReadableMessage"
    "isOptionalReadableList (member v ''statuses'') isReadableStatus"
  using assms by (auto simp: isWellFormedValue_def split: if_splits)

lemma no_value_no_messages:
  "good_change c \<Longrightarrow> member c ''value'' = None \<or> member c ''value'' = Some JNull \<Longrightarrow>
     processChange rt c st = (Some [], st)"
  using record_not_null [of c] by (auto simp: processChange_def)

lemma change_messages:
  assumes "good_change c" "member c ''value'' = Some vl" "vl \<noteq> JNull"
  obtains contacts msgs where "buildContactMap vl = Some contacts" "named contacts"
    "items_of (member vl ''messages'') = Some msgs" "list_all isReadableMessage msgs"
    "list_all (\<lambda>x. isRecord (Some x)) msgs"
    "optional_string (chained (member vl ''metadata'') (lit ''phone_number_id'')) \<noteq> None"
proof -
  note wf = good_value [OF assms]
  show thesis by (rule contact_map_named [OF wf(2)], rule readable_list [OF wf(3)])
      (use that metadata_string [OF wf(1)] in blast)
qed

lemma normalizeMessages_typed:
  assumes "list_all isReadableMessage msgs" "optional_string pn \<noteq> None" "named contacts"
    and "normalizeMessages rt pn contacts msgs st = (Some out, st')"
  shows "list_all (\<lambda>m. typed_message m \<noteq> None) out"
  using assms(1,4)
proof (induction msgs arbitrary: st out)
  case (Cons msg msgs)
  obtain x st1 where one: "normalizeOneMessage rt pn contacts msg st = (Some x, st1)"
    using Cons.prems(2) by (auto split: prod.splits option.splits)
  obtain o2 where rest: "normalizeMessages rt pn contacts msgs st1 = (Some o2, st')"
    and out: "out = (case x of None \<Rightarrow> [] | Some m \<Rightarrow> [m]) @ o2"
    using Cons.prems(2) one by (auto split: prod.splits option.splits)
  have "list_all (\<lambda>m. typed_message m \<noteq> None) o2" using Cons rest by simp
  moreover have "typed_message m \<noteq> None" if "x = Some m" for m
    using message_typed [OF _ assms(2,3) one [unfolded that]] Cons.prems(1) by auto
  ultimately show ?case using out by (cases x) auto
qed simp

lemma change_typed:
  assumes "good_change c" "processChange rt c st = (Some out, st')"
  shows "list_all (\<lambda>m. typed_message m \<noteq> None) out"
proof (cases "member c ''value'' = None \<or> member c ''value'' = Some JNull")
  case False
  then obtain vl where v: "member c ''value'' = Some vl" "vl \<noteq> JNull" by auto
  obtain contacts msgs where m: "buildContactMap vl = Some contacts" "named contacts"
    "items_of (member vl ''messages'') = Some msgs" "list_all isReadableMessage msgs"
    "optional_string (chained (member vl ''metadata'') (lit ''phone_number_id'')) \<noteq> None"
    by (rule change_messages [OF assms(1) v]) (rule that; assumption)
  have "c \<noteq> JNull" using assms(1) by auto
  then have "normalizeMessages rt (chained (member vl ''metadata'') (lit ''phone_number_id'')) contacts msgs st = (Some out, st')"
    using assms(2) by (simp add: processChange_def v m(1,3) del: lit_simps)
  then show ?thesis by (rule normalizeMessages_typed [OF m(4,5,2)])
qed (use assms no_value_no_messages [OF assms(1)] in auto)

definition stamped :: "runtime \<Rightarrow> json \<Rightarrow> bool" where
  "stamped rt v \<longleftrightarrow> js_Number rt (member v ''timestamp'') \<noteq> None"

lemma normalizeMessages_defined:
  assumes "list_all (\<lambda>x. isRecord (Some x)) msgs" "list_all (stamped rt) msgs"
  shows "fst (normalizeMessages rt pn contacts msgs st) \<noteq> None"
  using assms
proof (induction msgs arbitrary: st)
  case (Cons msg msgs)
  have "msg \<noteq> JNull" "stamped rt msg" using Cons.prems record_not_null by auto
  then have "fst (normalizeOneMessage rt pn contacts msg st) \<noteq> None"
    by (auto simp: normalizeOneMessage_def stamped_def)
  then obtain x st1 where one: "normalizeOneMessage rt pn contacts msg st = (Some x, st1)"
    by (cases "normalizeOneMessage rt pn contacts msg st") auto
  have "fst (normalizeMessages rt pn contacts msgs st1) \<noteq> None" using Cons by simp
  then show ?case using one by (auto split: prod.split option.split)
qed simp

definition array_of :: "json option \<Rightarrow> json list" where
  "array_of v = (case v of Some (JArr vs) \<Rightarrow> vs | _ \<Rightarrow> [])"

text \<open>The messages, or the statuses, of every change of an envelope.\<close>

definition items_in :: "string \<Rightarrow> json \<Rightarrow> json list" where
  "items_in k envelope =
     concat (map (\<lambda>entry. concat (map (\<lambda>change. array_of (chained (member change ''value'') (lit k)))
       (array_of (member entry ''changes'')))) (array_of (member envelope ''entry'')))"

lemma in_items_in:
  assumes "member env ''entry'' = Some (JArr entries)" "entry \<in> set entries"
    "member entry ''changes'' = Some (JArr changes)" "c \<in> set changes" "member c ''value'' = Some vl"
    "member vl k = Some (JArr vs)" "x \<in> set vs"
  shows "x \<in> set (items_in k env)"
proof -
  have x: "x \<in> set (array_of (chained (member c ''value'') (lit k)))"
    using assms(5-7) by (cases vl) (auto simp: array_of_def member_def)
  have "entry \<in> set (array_of (member env ''entry''))" "c \<in> set (array_of (member entry ''changes''))"
    using assms(1-4) by (simp_all add: array_of_def)
  with x show ?thesis unfolding items_in_def by auto
qed

lemma items_of_readable:
  "isOptionalReadableList v P \<Longrightarrow> items_of v = Some xs \<Longrightarrow> x \<in> set xs \<Longrightarrow> v = Some (JArr xs)"
  by (cases v rule: isOptionalRecordArray.cases) (auto simp: isOptionalReadableList_def)

lemma messages_defined:
  assumes "parseWebhookPayload body = Some env" "list_all (stamped rt) (items_in ''messages'' env)"
  shows "fst (normalizeInboundMessages rt env st) \<noteq> None"
  unfolding normalizeInboundMessages_def
proof (rule envelope_defined [OF assms(1)])
  fix entries entry changes c s
  assume path: "member env ''entry'' = Some (JArr entries)" "entry \<in> set entries"
    "member entry ''changes'' = Some (JArr changes)" "c \<in> set changes" and good: "good_change c"
  show "fst (processChange rt c s) \<noteq> None"
  proof (cases "member c ''value'' = None \<or> member c ''value'' = Some JNull")
    case True
    then show ?thesis using no_value_no_messages [OF good] by simp
  next
    case False
    then obtain vl where v: "member c ''value'' = Some vl" "vl \<noteq> JNull" by auto
    obtain contacts msgs where m: "buildContactMap vl = Some contacts"
      "items_of (member vl ''messages'') = Some msgs" "list_all (\<lambda>x. isRecord (Some x)) msgs"
      by (rule change_messages [OF good v]) (rule that; assumption)
    note good_value(3) [OF good v]
    then have "list_all (stamped rt) msgs"
      using items_of_readable [OF _ m(2)] in_items_in [OF path v(1)] assms(2) by (fastforce simp: list_all_iff)
    from normalizeMessages_defined [OF m(3) this] show ?thesis
      using v m(1,2) good by (auto simp: processChange_def simp del: lit_simps)
  qed
qed

lemma all_some_defined: "list_all (\<lambda>x. x \<noteq> None) xs \<Longrightarrow> all_some xs = Some (map the xs)"
  by (induction xs) auto

lemma all_some_SomeD: "all_some xs = Some ys \<Longrightarrow> xs = map Some ys"
  by (induction xs arbitrary: ys) (auto split: option.splits)

lemma change_status_list:
  assumes "good_change c"
  obtains ss where "items_of (chained (member c ''value'') (lit ''statuses'')) = Some ss"
    "list_all isReadableStatus ss" "list_all (\<lambda>x. isRecord (Some x)) ss"
    "optional_string (chained (chained (member c ''value'') (lit ''metadata'')) (lit ''phone_number_id'')) \<noteq> None"
proof (cases "member c ''value'' = None \<or> member c ''value'' = Some JNull")
  case False
  then obtain vl where v: "member c ''value'' = Some vl" "vl \<noteq> JNull" by auto
  then have ch: "chained (member c ''value'') k = member_of vl k" for k by (cases vl) auto
  note good_value [OF assms v]
  then show thesis using that unfolding ch member_def [symmetric]
    by (metis metadata_string readable_list)
qed (use that in auto)

lemma status_typed:
  assumes "isReadableStatus s" "optional_string pn \<noteq> None" "metaStatusToReceipt rt pn s = Some r"
  shows "typed_status r \<noteq> None"
  using assms
  by (auto simp: metaStatusToReceipt_def isReadableStatus_def typed_status_def split: if_splits option.splits
      simp del: lit_simps)

lemma change_statuses_typed:
  assumes "good_change c" "change_statuses rt c st = (Some out, st')"
  shows "list_all (\<lambda>s. typed_status s \<noteq> None) out"
proof -
  obtain ss where s: "items_of (chained (member c ''value'') (lit ''statuses'')) = Some ss"
    "list_all isReadableStatus ss"
    "optional_string (chained (chained (member c ''value'') (lit ''metadata'')) (lit ''phone_number_id'')) \<noteq> None"
    using change_status_list [OF assms(1)] by blast
  let ?f = "metaStatusToReceipt rt (chained (chained (member c ''value'') (lit ''metadata'')) (lit ''phone_number_id''))"
  have "all_some (map ?f ss) = Some out"
    using assms s(1) by (auto simp: change_statuses_def Let_def simp del: lit_simps split: if_splits)
  then have eq: "map ?f ss = map Some out" by (rule all_some_SomeD)
  have "typed_status r \<noteq> None" if "r \<in> set out" for r
  proof -
    have "Some r \<in> set (map ?f ss)" unfolding eq using that by simp
    then obtain x where x: "x \<in> set ss" "?f x = Some r" by auto
    then have "isReadableStatus x" using s(2) by (simp add: list_all_iff)
    then show ?thesis using status_typed [OF _ s(3) x(2)] by blast
  qed
  then show ?thesis by (simp add: list_all_iff)
qed

lemma statuses_defined:
  assumes "parseWebhookPayload body = Some env" "list_all (stamped rt) (items_in ''statuses'' env)"
  shows "normalizeStatusReceipts rt env \<noteq> None"
  unfolding normalizeStatusReceipts_def
proof (rule envelope_defined [OF assms(1)])
  fix entries entry changes c s
  assume path: "member env ''entry'' = Some (JArr entries)" "entry \<in> set entries"
    "member entry ''changes'' = Some (JArr changes)" "c \<in> set changes" and good: "good_change c"
  obtain ss where ss: "items_of (chained (member c ''value'') (lit ''statuses'')) = Some ss"
    "list_all (\<lambda>x. isRecord (Some x)) ss"
    using change_status_list [OF good] by blast
  have "list_all (stamped rt) ss"
  proof (cases ss)
    case (Cons a as)
    then obtain vl where v: "member c ''value'' = Some vl" "vl \<noteq> JNull"
      using ss(1) by (cases "member c ''value''"; cases "the (member c ''value'')") auto
    have ch: "chained (member c ''value'') (lit ''statuses'') = member vl ''statuses''"
      using v by (cases vl) (auto simp: member_def)
    note good_value(4) [OF good v]
    then show ?thesis
      using items_of_readable [of "member vl ''statuses''" _ ss] in_items_in [OF path v(1)] assms(2) ss(1)
      unfolding ch by (fastforce simp: list_all_iff)
  qed simp
  then have "list_all (\<lambda>x. x \<noteq> None) (map (metaStatusToReceipt rt
      (chained (chained (member c ''value'') (lit ''metadata'')) (lit ''phone_number_id''))) ss)"
    using ss(2) record_not_null by (auto simp: list_all_iff metaStatusToReceipt_def stamped_def)
  from all_some_defined [OF this] show "fst (change_statuses rt c s) \<noteq> None"
    using ss(1) good by (auto simp: change_statuses_def Let_def simp del: lit_simps)
qed

section \<open>Signatures in hexadecimal\<close>

definition lower_hex :: "cu \<Rightarrow> cu" where
  "lower_hex c = (if 65 \<le> c \<and> c \<le> 70 then c + 32 else c)"

definition hex_unit :: "nat \<Rightarrow> cu" where
  "hex_unit n = (if n < 10 then 48 + int n else 87 + int n)"

text \<open>\<open>digest("hex")\<close>, as the sender writes it.\<close>

definition hex_of :: "nat list \<Rightarrow> js" where
  "hex_of bs = concat (map (\<lambda>b. [hex_unit (b div 16), hex_unit (b mod 16)]) bs)"

lemma hex_digit_unit: "n < 16 \<Longrightarrow> hex_digit (hex_unit n) = Some n"
  by (auto simp: hex_digit_def hex_unit_def)

lemma hex_digit_iff: "n < 16 \<Longrightarrow> hex_digit c = Some n \<longleftrightarrow> lower_hex c = hex_unit n"
  by (auto simp: hex_digit_def hex_unit_def lower_hex_def)

lemma hex_digit_bound: "hex_digit c = Some n \<Longrightarrow> n < 16"
  by (auto simp: hex_digit_def split: if_splits)

lemma hex_of_Nil: "hex_of bs = [] \<longleftrightarrow> bs = []" "[u] = hex_of bs \<longleftrightarrow> False" "[] = hex_of bs \<longleftrightarrow> bs = []"
  by (cases bs; auto simp: hex_of_def)+

lemma hex_bytes_iff:
  "list_all (\<lambda>c. hex_digit c \<noteq> None) h \<Longrightarrow> list_all (\<lambda>b. b < 256) bs \<Longrightarrow>
     hex_bytes h = bs \<longleftrightarrow> map lower_hex h = hex_of bs \<or> (\<exists>d. map lower_hex h = hex_of bs @ [d])"
proof (induction h arbitrary: bs rule: hex_bytes.induct)
  case (1 a b s)
  obtain x y where xy: "hex_digit a = Some x" "hex_digit b = Some y" using 1(2) by auto
  then have lt: "x < 16" "y < 16" using hex_digit_bound by blast+
  show ?case
  proof (cases bs)
    case Nil
    then show ?thesis using xy by (auto simp: hex_of_def)
  next
    case (Cons c cs)
    have c: "c < 256" "list_all (\<lambda>b. b < 256) cs" using 1(3) Cons by auto
    have "16 * x + y = c \<longleftrightarrow> x = c div 16 \<and> y = c mod 16" using lt by auto
    also have "\<dots> \<longleftrightarrow> lower_hex a = hex_unit (c div 16) \<and> lower_hex b = hex_unit (c mod 16)"
      using hex_digit_iff [of "c div 16" a] hex_digit_iff [of "c mod 16" b] xy c(1) by auto
    finally show ?thesis using 1 xy Cons c(2) by (auto simp: hex_of_def)
  qed
next
  case "2_1"
  then show ?case by (cases bs) (auto simp: hex_of_def)
qed (auto simp: hex_of_Nil)

section \<open>Properties\<close>

text \<open>
  A webhook body is accepted exactly when the secret is not blank and the header is the prefix and
  the body's HMAC in hexadecimal, digits of either case, or that followed by one more digit (an odd last
  digit is dropped before the comparison).
\<close>
theorem webhook_signature_is_the_hmac:
  assumes "list_all (\<lambda>b. b < 256) (hmac secret body)" "hmac secret body \<noteq> []"
  shows "verifyWebhookSignature hmac body header secret = Inr True \<longleftrightarrow>
     js_trim secret \<noteq> [] \<and>
     (\<exists>h. header = Some (SIGNATURE_PREFIX @ h) \<and> list_all (\<lambda>c. hex_digit c \<noteq> None) h \<and>
        (map lower_hex h = hex_of (hmac secret body) \<or> (\<exists>d. map lower_hex h = hex_of (hmac secret body) @ [d])))"
proof (cases "js_trim secret = [] \<or> header = None \<or> \<not> prefix SIGNATURE_PREFIX (the header)")
  case False
  then obtain h where h: "header = Some (SIGNATURE_PREFIX @ h)" by (auto simp: prefix_def)
  have len: "length SIGNATURE_PREFIX = 7" by (simp add: SIGNATURE_PREFIX_def)
  have "verifyWebhookSignature hmac body header secret = Inr True \<longleftrightarrow>
      h \<noteq> [] \<and> list_all (\<lambda>c. hex_digit c \<noteq> None) h \<and> hex_bytes h = hmac secret body"
    using False by (auto simp: verifyWebhookSignature_def h Let_def len)
  moreover have "h \<noteq> []" if "hex_bytes h = hmac secret body" using that assms(2) by auto
  ultimately show ?thesis using False hex_bytes_iff [OF _ assms(1), of h] h by auto
qed (auto simp: verifyWebhookSignature_def split: option.splits)

theorem webhook_signature_is_the_hmac_witness:
  "verifyWebhookSignature (\<lambda>k b. [10, 255]) () (Some (SIGNATURE_PREFIX @ lit ''0aFF'')) (lit ''k'') = Inr True"
proof -
  have m: "list_all (\<lambda>b. b < 256) ((\<lambda>k b. [10, 255]) (lit ''k'') () :: nat list)" by simp
  have ne: "(\<lambda>k b. [10, 255 :: nat]) (lit ''k'') () \<noteq> []" by simp
  have "js_trim (lit ''k'') \<noteq> []" "list_all (\<lambda>c. hex_digit c \<noteq> None) (lit ''0aFF'')"
    "map lower_hex (lit ''0aFF'') = hex_of [10, 255]" by code_simp+
  then show ?thesis using webhook_signature_is_the_hmac
      [of "\<lambda>k b. [10, 255]" "lit ''k''" "()" "Some (SIGNATURE_PREFIX @ lit ''0aFF'')", OF m ne] by auto
qed

text \<open>
  C33: past the shape check, every event and receipt the normalizers hand on has a string in every
  field its type declares as one, whatever else the body holds.
\<close>
theorem checked_bodies_give_declared_types:
  assumes "parseWebhookPayload body = Some envelope"
  shows "list_all (\<lambda>m. typed_message m \<noteq> None)
       (case fst (normalizeInboundMessages rt envelope st) of None \<Rightarrow> [] | Some out \<Rightarrow> out) \<and>
     list_all (\<lambda>s. typed_status s \<noteq> None)
       (case normalizeStatusReceipts rt envelope of None \<Rightarrow> [] | Some out \<Rightarrow> out)"
proof
  show "list_all (\<lambda>m. typed_message m \<noteq> None)
      (case fst (normalizeInboundMessages rt envelope st) of None \<Rightarrow> [] | Some out \<Rightarrow> out)"
  proof (cases "fst (normalizeInboundMessages rt envelope st)")
    case (Some out)
    then have "in_envelope (processChange rt) envelope st = (Some out, snd (normalizeInboundMessages rt envelope st))"
      by (simp add: normalizeInboundMessages_def prod_eq_iff)
    from envelope_all [OF assms this, of "\<lambda>m. typed_message m \<noteq> None"] change_typed show ?thesis using Some by simp
  qed simp
  show "list_all (\<lambda>s. typed_status s \<noteq> None)
      (case normalizeStatusReceipts rt envelope of None \<Rightarrow> [] | Some out \<Rightarrow> out)"
  proof (cases "normalizeStatusReceipts rt envelope")
    case (Some out)
    then have "in_envelope (change_statuses rt) envelope () = (Some out, ())"
      by (simp add: normalizeStatusReceipts_def prod_eq_iff)
    from envelope_all [OF assms this, of "\<lambda>s. typed_status s \<noteq> None"] change_statuses_typed show ?thesis
      using Some by simp
  qed simp
qed

definition text_body :: "json \<Rightarrow> json" where
  "text_body stamp = JObj [(lit ''object'', JStr []), (lit ''entry'', JArr [JObj [(lit ''changes'', JArr
     [JObj [(lit ''value'', JObj [(lit ''messages'', JArr [JObj [(lit ''type'', JStr (lit ''text'')),
       (lit ''id'', JStr (lit ''w1'')), (lit ''from'', JStr (lit ''55'')), (lit ''timestamp'', stamp)]])])]])]])]"

definition plain_runtime :: runtime where
  "plain_runtime = \<lparr>rt_number = (\<lambda>s. NaN), rt_text = (\<lambda>q. []), rt_thousand = (\<lambda>q. Finite (1000 * q)), rt_now = 7\<rparr>"

theorem checked_bodies_give_declared_types_witness:
  "list_all (\<lambda>m. typed_message m \<noteq> None)
     (case fst (normalizeInboundMessages plain_runtime (text_body (JNum 3)) fresh_rules) of None \<Rightarrow> [] | Some out \<Rightarrow> out)"
proof -
  have "parseWebhookPayload (text_body (JNum 3)) = Some (text_body (JNum 3))" by code_simp
  from checked_bodies_give_declared_types [OF this] show ?thesis by blast
qed

text \<open>
  Past the shape check, the normalizers return on every body whose timestamps convert to a number
  at all, whatever the number.
\<close>
theorem checked_bodies_normalize:
  assumes "parseWebhookPayload body = Some envelope"
    and "list_all (stamped rt) (items_in ''messages'' envelope)"
    and "list_all (stamped rt) (items_in ''statuses'' envelope)"
  shows "fst (normalizeInboundMessages rt envelope st) \<noteq> None \<and> normalizeStatusReceipts rt envelope \<noteq> None"
  using messages_defined [OF assms(1,2)] statuses_defined [OF assms(1,3)] by blast

theorem checked_bodies_normalize_witness:
  "fst (normalizeInboundMessages plain_runtime (text_body (JNum 3)) fresh_rules) \<noteq> None"
proof -
  have "parseWebhookPayload (text_body (JNum 3)) = Some (text_body (JNum 3))" by code_simp
  moreover have "list_all (stamped plain_runtime) (items_in ''messages'' (text_body (JNum 3)))"
    "list_all (stamped plain_runtime) (items_in ''statuses'' (text_body (JNum 3)))" by code_simp+
  ultimately show ?thesis using checked_bodies_normalize by blast
qed

text \<open>
  The comment on the shape check says that past it neither normalizer throws; a message whose
  timestamp is an object with a member named \<open>toString\<close> passes the check, and normalizing it throws.
\<close>
theorem checked_body_can_still_throw:
  "parseWebhookPayload (text_body (JObj [(lit ''toString'', v)])) = Some (text_body (JObj [(lit ''toString'', v)])) \<and>
   fst (normalizeInboundMessages rt (text_body (JObj [(lit ''toString'', v)])) st) = None"
proof
  show "parseWebhookPayload (text_body (JObj [(lit ''toString'', v)])) = Some (text_body (JObj [(lit ''toString'', v)]))"
    by (simp add: parseWebhookPayload_def text_body_def member_def isWellFormedEntry_def isWellFormedValue_def
        isWellFormedMetadata_def isOptionalReadableList_def isReadableMessage_def)
  show "fst (normalizeInboundMessages rt (text_body (JObj [(lit ''toString'', v)])) st) = None"
    by (simp add: normalizeInboundMessages_def in_envelope_def listed_def in_entry_def processChange_def
        text_body_def member_def buildContactMap_def normalizeOneMessage_def)
qed

end
