(* ===== verification/WhatsAppBackend.thy ===== *)
theory WhatsAppBackend
  imports Json
begin

text \<open>
  The seam between the WhatsApp adapter and its backends (\<open>gateway-whatsapp/src/backend-types.ts\<close>): what a
  backend's \<open>send\<close> takes and answers, and the locale \<open>whatsapp_backend\<close> with the part of the contract the
  interface documents and the adapter relies on. The Cloud and the Baileys backend interpret it.
\<close>

record wa_outbound =
  wo_to :: js
  wo_isGroup :: bool
  wo_text :: js

text \<open>An id is what the platform answered, a string when it keeps its contract.\<close>

record wa_send_result =
  wq_ok :: bool
  wq_wamid :: "json option"
  wq_error :: "(js \<times> json) option"

definition wa_sent :: "json option \<Rightarrow> wa_send_result" where
  "wa_sent wamid = \<lparr>wq_ok = True, wq_wamid = wamid, wq_error = None\<rparr>"

definition wa_refused :: "js \<Rightarrow> json \<Rightarrow> wa_send_result" where
  "wa_refused code message = \<lparr>wq_ok = False, wq_wamid = None, wq_error = Some (code, message)\<rparr>"

lemma wa_result_simps [simp]:
  "wq_ok (wa_sent i)" "\<not> wq_ok (wa_refused c m)" "wq_wamid (wa_sent i) = i" "wq_error (wa_refused c m) = Some (c, m)"
  by (simp_all add: wa_sent_def wa_refused_def)

section \<open>The loop of the adapter\<close>

datatype wa_answer = WaOk "json option" | WaFail js json

text \<open>
  The parts of a text, one send after another: the first refusal ends it and is the answer, a rejection
  escapes. The id of the last part is the answer's.
\<close>

fun send_parts ::
    "(wa_outbound \<Rightarrow> 'b \<Rightarrow> wa_send_result outcome \<times> 'b) \<Rightarrow> wa_outbound list \<Rightarrow> json option \<Rightarrow> 'b
       \<Rightarrow> wa_answer outcome \<times> 'b" where
  "send_parts send [] lastWamid b = (Returned (WaOk lastWamid), b)"
| "send_parts send (p # ps) lastWamid b =
     (case send p b of
        (Threw err, b1) \<Rightarrow> (Threw err, b1)
      | (Returned r, b1) \<Rightarrow>
          if \<not> wq_ok r
          then (Returned (case wq_error r of
                  None \<Rightarrow> WaFail (lit ''unknown'') (JStr (lit ''Send failed.''))
                | Some (code, message) \<Rightarrow> WaFail code message), b1)
          else send_parts send ps (wq_wamid r) b1)"

text \<open>A backend with the parts it accepted.\<close>

definition accepting ::
    "(wa_outbound \<Rightarrow> 'b \<Rightarrow> wa_send_result outcome \<times> 'b)
       \<Rightarrow> wa_outbound \<Rightarrow> 'b \<times> wa_outbound list \<Rightarrow> wa_send_result outcome \<times> ('b \<times> wa_outbound list)" where
  "accepting send p s =
     (case send p (fst s) of
        (Returned r, b) \<Rightarrow> (Returned r, (b, if wq_ok r then snd s @ [p] else snd s))
      | (Threw err, b) \<Rightarrow> (Threw err, (b, snd s)))"

lemma send_parts_accepted:
  "send_parts (accepting send) ps lastWamid s = (r, s') \<Longrightarrow>
     (case r of Returned (WaOk i) \<Rightarrow> snd s' = snd s @ ps
      | _ \<Rightarrow> \<exists>n < length ps. snd s' = snd s @ take n ps)"
proof (induction ps arbitrary: lastWamid s)
  case (Cons p ps)
  obtain x b where x: "send p (fst s) = (x, b)" by fastforce
  show ?case
  proof (cases "\<exists>q. x = Returned q \<and> wq_ok q")
    case True
    then obtain q where q: "x = Returned q" "wq_ok q" by blast
    then have "accepting send p s = (Returned q, (b, snd s @ [p]))" using x by (simp add: accepting_def)
    then have "send_parts (accepting send) ps (wq_wamid q) (b, snd s @ [p]) = (r, s')" using Cons.prems q by simp
    from Cons.IH [OF this] show ?thesis
      by (auto split: outcome.splits wa_answer.splits intro: exI [of _ "Suc _"])
  next
    case False
    then have "accepting send p s = (x, (b, snd s))" using x by (cases x) (auto simp: accepting_def)
    then have "snd s' = snd s \<and> (\<forall>i. r \<noteq> Returned (WaOk i))" using Cons.prems False
      by (cases x) (auto simp del: lit_simps split: if_splits option.splits)
    then show ?thesis by (auto split: outcome.split wa_answer.split intro!: exI [of _ "0 :: nat"])
  qed
qed auto

section \<open>The contract\<close>

text \<open>
  \<open>up\<close> says a backend is connected; \<open>traffic\<close> is what it has put on its transport.
\<close>

locale whatsapp_backend =
  fixes up :: "'b \<Rightarrow> bool"
    and send :: "wa_outbound \<Rightarrow> 'b \<Rightarrow> wa_send_result outcome \<times> 'b"
    and disconnect :: "'b \<Rightarrow> 'b"
    and traffic :: "'b \<Rightarrow> 'r list"
  assumes unconnected_refuses:
      "\<not> up b \<Longrightarrow> \<exists>message b'. send p b = (Returned (wa_refused (lit ''not_connected'') message), b') \<and> \<not> up b' \<and> traffic b' = traffic b"
    and disconnect_goes_down: "\<not> up (disconnect b)"
begin

lemma nothing_leaves_unconnected:
  assumes "\<not> up b" "ps \<noteq> []"
  shows "\<exists>message b'. send_parts send ps lastWamid b = (Returned (WaFail (lit ''not_connected'') message), b') \<and>
    \<not> up b' \<and> traffic b' = traffic b"
proof -
  obtain p qs where ps: "ps = p # qs" using assms(2) by (cases ps) auto
  obtain message b' where "send p b = (Returned (wa_refused (lit ''not_connected'') message), b')" "\<not> up b'"
    "traffic b' = traffic b" using unconnected_refuses [OF assms(1)] by blast
  then show ?thesis unfolding ps by (simp del: lit_simps)
qed

lemma nothing_leaves_after_disconnect:
  "ps \<noteq> [] \<Longrightarrow> \<exists>message b'. send_parts send ps lastWamid (disconnect b) = (Returned (WaFail (lit ''not_connected'') message), b') \<and>
     traffic b' = traffic (disconnect b)"
  using nothing_leaves_unconnected [OF disconnect_goes_down] by blast

end

end
