(* ===== verification/WhatsAppCloud.thy ===== *)
theory WhatsAppCloud
  imports WhatsAppWebhook WhatsAppBackend
begin

text \<open>
  The Cloud backend of WhatsApp (\<open>gateway-whatsapp/src/errors.ts\<close>, \<open>backend/cloud/client.ts\<close>,
  \<open>backend/cloud/index.ts\<close>): the reading of Meta's error answers, the client's requests, the connection
  with its generations, and the webhook entry point. \<open>fetch\<close>, \<open>JSON.parse\<close>, the HMAC and the subscribed
  handlers are parameters. A function whose result is an option answers \<open>None\<close> where the code rejects.
\<close>

section \<open>Errors\<close>

text \<open>The message is what the answer held, which is a string when Meta wrote it.\<close>

record wa_error =
  wx_code :: js
  wx_message :: json

definition RATE_LIMIT_CODES :: "json list" where
  "RATE_LIMIT_CODES = [JNum 4, JNum 80007, JNum 130429]"

definition UNDELIVERABLE_CODES :: "json list" where
  "UNDELIVERABLE_CODES = [JNum 130403, JNum 131026]"

definition SESSION_WINDOW_EXPIRED_CODE :: json where
  "SESSION_WINDOW_EXPIRED_CODE = JNum 131047"

definition RECIPIENT_NOT_ALLOWLISTED_CODE :: json where
  "RECIPIENT_NOT_ALLOWLISTED_CODE = JNum 131030"

definition cloudErrorCode :: "int \<Rightarrow> json \<Rightarrow> js" where
  "cloudErrorCode status errCode =
     (if errCode = JNum 190 \<or> status = 401 then lit ''auth_failed''
      else if errCode \<in> set RATE_LIMIT_CODES \<or> status = 429 then lit ''rate_limit''
      else if errCode = SESSION_WINDOW_EXPIRED_CODE then lit ''session_window_expired''
      else if errCode = RECIPIENT_NOT_ALLOWLISTED_CODE then lit ''recipient_not_allowlisted''
      else if errCode \<in> set UNDELIVERABLE_CODES then lit ''undeliverable''
      else if status = 400 \<or> errCode = JNum 100 then lit ''invalid_request''
      else if 500 \<le> status then lit ''server_error''
      else lit ''unknown'')"

definition cloud_prefix :: "js \<Rightarrow> js option" where
  "cloud_prefix code =
     (if code = lit ''auth_failed'' then Some (lit ''Bearer token rejected: '')
      else if code = lit ''rate_limit'' then Some (lit ''Throttled: '')
      else if code = lit ''recipient_not_allowlisted''
      then Some (lit ''Recipient is not on this number's allowed list '' @ [0x2014]
        @ lit '' register it under the phone number in the app's WhatsApp API setup before sending: '')
      else if code = lit ''session_window_expired''
      then Some (lit ''Outside the 24-hour service window '' @ [0x2014] @ lit '' send an approved template instead: '')
      else None)"

definition mapWhatsAppCloudError :: "runtime \<Rightarrow> int \<Rightarrow> json \<Rightarrow> wa_error option" where
  "mapWhatsAppCloudError rt status body =
     (let parsed = (if isRecord (Some body) then body else JObj []);
          error = member parsed ''error'';
          errCode = or_default (chained error (lit ''code'')) (JNum 0);
          errMsg = or_default (chained error (lit ''message'')) (JStr (lit ''HTTP '' @ dec (nat status)));
          code = cloudErrorCode status errCode
      in case cloud_prefix code of
           None \<Rightarrow> Some \<lparr>wx_code = code, wx_message = errMsg\<rparr>
         | Some pfx \<Rightarrow>
             map_option (\<lambda>m. \<lparr>wx_code = code, wx_message = JStr (pfx @ m)\<rparr>) (js_String rt errMsg))"

definition mapWhatsAppWebError :: "js option \<Rightarrow> js \<times> js" where
  "mapWhatsAppWebError ipcError =
     (let msg = (case ipcError of None \<Rightarrow> lit ''unknown bridge error'' | Some m \<Rightarrow> m) in
      if includes_str msg (lit ''AUTHENTICATION'') \<or> includes_str msg (lit ''UNAUTHORIZED'') then (lit ''auth_failed'', msg)
      else if includes_str msg (lit ''RATE'') \<or> includes_str msg (lit ''THROTTLE'') then (lit ''rate_limit'', msg)
      else if includes_str msg (lit ''PROTOCOL'') \<or> includes_str msg (lit ''DISCONNECT'') then (lit ''server_error'', msg)
      else if includes_str msg (lit ''TIMEOUT'') then (lit ''timeout'', msg)
      else (lit ''unknown'', msg))"

section \<open>The client\<close>

text \<open>What \<open>fetch\<close> ends as: a rejection, or a status and the body \<open>json()\<close> reads, if it can.\<close>

datatype http = FetchThrew thrown | Answer int "json option"

definition ok_status :: "int \<Rightarrow> bool" where
  "ok_status status \<longleftrightarrow> 200 \<le> status \<and> status \<le> 299"

record cloud_options =
  co_accessToken :: js
  co_phoneNumberId :: js
  co_apiVersion :: "js option"

definition base_url :: "cloud_options \<Rightarrow> js" where
  "base_url opts = lit ''https://graph.facebook.com/''
     @ (case co_apiVersion opts of None \<Rightarrow> lit ''v18.0'' | Some v \<Rightarrow> v) @ lit ''/'' @ co_phoneNumberId opts"

record request =
  rq_url :: js
  rq_method :: js
  rq_token :: js
  rq_body :: "json option"

definition network_error :: "thrown \<Rightarrow> wa_error" where
  "network_error cause = \<lparr>wx_code = lit ''server_error'', wx_message = JStr (lit ''Network error: '' @ text_of cause)\<rparr>"

datatype cred_check = CredentialOk | CredentialRefused wa_error

definition read_node :: "runtime \<Rightarrow> cloud_options \<Rightarrow> int \<Rightarrow> json \<Rightarrow> cred_check option" where
  "read_node rt opts status body =
     (if member body ''error'' \<noteq> None then map_option CredentialRefused (mapWhatsAppCloudError rt status body)
      else case (case member body ''id'' of None \<Rightarrow> Some (lit ''undefined'') | Some v \<Rightarrow> js_String rt v) of
        None \<Rightarrow> None
      | Some node \<Rightarrow>
          if node \<noteq> co_phoneNumberId opts
          then Some (CredentialRefused \<lparr>wx_code = lit ''invalid_request'',
            wx_message = JStr (lit ''Credential is valid but resolves to node '' @ node
              @ lit '', not the configured phoneNumberId '' @ co_phoneNumberId opts
              @ lit ''. A WhatsApp Business Account id in place of a phone number id looks exactly like this.'')\<rparr>)
          else Some CredentialOk)"

definition verifyCredentials :: "runtime \<Rightarrow> (request \<Rightarrow> http) \<Rightarrow> cloud_options \<Rightarrow> cred_check option" where
  "verifyCredentials rt fetch opts =
     (case fetch \<lparr>rq_url = base_url opts, rq_method = lit ''GET'', rq_token = co_accessToken opts, rq_body = None\<rparr> of
        FetchThrew cause \<Rightarrow> Some (CredentialRefused (network_error cause))
      | Answer status body \<Rightarrow>
          if \<not> ok_status status
          then map_option CredentialRefused (mapWhatsAppCloudError rt status (or_default body (JObj [])))
          else case body of
            Some (JObj fs) \<Rightarrow> read_node rt opts status (JObj fs)
          | _ \<Rightarrow> Some (CredentialRefused \<lparr>wx_code = lit ''unknown'',
              wx_message = JStr (lit ''Meta answered '' @ dec (nat status) @ lit '' with a body this client could not read.'')\<rparr>))"

text \<open>\<open>messages?.[0]?.id\<close>.\<close>

fun first_item :: "json option \<Rightarrow> json option" where
  "first_item (Some (JArr vs)) = (case vs of [] \<Rightarrow> None | v # _ \<Rightarrow> Some v)"
| "first_item (Some (JStr s)) = (case s of [] \<Rightarrow> None | c # _ \<Rightarrow> Some (JStr [c]))"
| "first_item (Some (JObj fs)) = map_of fs (lit ''0'')"
| "first_item _ = None"

datatype sent = Sent json | NotSent wa_error

definition post_request :: "cloud_options \<Rightarrow> json \<Rightarrow> request" where
  "post_request opts req =
     \<lparr>rq_url = base_url opts @ lit ''/messages'', rq_method = lit ''POST'', rq_token = co_accessToken opts,
      rq_body = Some req\<rparr>"

definition postMessage :: "runtime \<Rightarrow> (request \<Rightarrow> http) \<Rightarrow> cloud_options \<Rightarrow> json \<Rightarrow> sent option" where
  "postMessage rt fetch opts req =
     (case fetch (post_request opts req) of
        FetchThrew cause \<Rightarrow> Some (NotSent (network_error cause))
      | Answer status body \<Rightarrow>
          if \<not> ok_status status
          then map_option NotSent (mapWhatsAppCloudError rt status (case body of None \<Rightarrow> JObj [] | Some b \<Rightarrow> b))
          else case body of
            None \<Rightarrow> None
          | Some data \<Rightarrow>
              if data = JNull then None
              else case chained (first_item (member data ''messages'')) (lit ''id'') of
                None \<Rightarrow> Some (NotSent \<lparr>wx_code = lit ''unknown'', wx_message = JStr (lit ''Meta returned no wamid.'')\<rparr>)
              | Some wamid \<Rightarrow> Some (Sent wamid))"

definition text_message :: "js \<Rightarrow> js \<Rightarrow> bool \<Rightarrow> json" where
  "text_message to body isGroup = JObj
     ([(lit ''messaging_product'', JStr (lit ''whatsapp''))]
      @ (if isGroup then [] else [(lit ''recipient_type'', JStr (lit ''individual''))])
      @ [(lit ''to'', JStr to), (lit ''type'', JStr (lit ''text'')),
         (lit ''text'', JObj [(lit ''body'', JStr body), (lit ''preview_url'', JBool False)])])"

definition sendText :: "runtime \<Rightarrow> (request \<Rightarrow> http) \<Rightarrow> cloud_options \<Rightarrow> js \<Rightarrow> js \<Rightarrow> bool \<Rightarrow> sent option" where
  "sendText rt fetch opts to body isGroup = postMessage rt fetch opts (text_message to body isGroup)"

definition sendTemplate ::
    "runtime \<Rightarrow> (request \<Rightarrow> http) \<Rightarrow> cloud_options \<Rightarrow> js \<Rightarrow> js \<Rightarrow> js \<Rightarrow> json list option \<Rightarrow> sent option" where
  "sendTemplate rt fetch opts to templateName languageCode components =
     postMessage rt fetch opts (JObj
       [(lit ''messaging_product'', JStr (lit ''whatsapp'')), (lit ''recipient_type'', JStr (lit ''individual'')),
        (lit ''to'', JStr to), (lit ''type'', JStr (lit ''template'')),
        (lit ''template'', JObj
          ([(lit ''name'', JStr templateName), (lit ''language'', JObj [(lit ''code'', JStr languageCode)])]
           @ (case components of
                Some cs \<Rightarrow> if cs \<noteq> [] then [(lit ''components'', JArr cs)] else []
              | None \<Rightarrow> [])))])"

definition markAsRead :: "(request \<Rightarrow> http) \<Rightarrow> cloud_options \<Rightarrow> js \<Rightarrow> bool" where
  "markAsRead fetch opts wamid =
     (case fetch \<lparr>rq_url = base_url opts @ lit ''/messages'', rq_method = lit ''POST'', rq_token = co_accessToken opts,
         rq_body = Some (JObj [(lit ''messaging_product'', JStr (lit ''whatsapp'')), (lit ''status'', JStr (lit ''read'')),
           (lit ''message_id'', JStr wamid)])\<rparr> of
        FetchThrew cause \<Rightarrow> False
      | Answer status body \<Rightarrow> ok_status status)"

section \<open>The backend\<close>

text \<open>
  Handlers are named by numbers, as the code compares them by identity. \<open>cb_connecting\<close> is the attempt
  whose promise is shared; \<open>cb_trace\<close> is the calls made to user code. The warned types belong to the
  process and are kept with the backend here.
\<close>

datatype delivery = ToInbound nat wa_inbound | ToStatus nat wa_receipt

record cloud_backend =
  cb_options :: cloud_options
  cb_appSecret :: js
  cb_connected :: bool
  cb_connecting :: "nat option"
  cb_generation :: nat
  cb_inbound :: "nat option"
  cb_status :: "nat option"
  cb_rules :: rules_state
  cb_trace :: "delivery list"

definition newCloudBackend :: "cloud_options \<Rightarrow> js \<Rightarrow> cloud_backend" where
  "newCloudBackend opts appSecret =
     \<lparr>cb_options = opts, cb_appSecret = appSecret, cb_connected = False, cb_connecting = None, cb_generation = 0,
      cb_inbound = None, cb_status = None, cb_rules = fresh_rules, cb_trace = []\<rparr>"

definition cb_say :: "js \<Rightarrow> cloud_backend \<Rightarrow> cloud_backend" where
  "cb_say line b = b\<lparr>cb_rules := say line (cb_rules b)\<rparr>"

text \<open>
  \<open>connect\<close> answers at once, joins the attempt in flight, or starts one; \<open>check_answered\<close> is the end of
  \<open>verifyOnce\<close> for that attempt, and \<open>connect_settled\<close> the \<open>finally\<close> that follows it.
\<close>

datatype connect_answer = AnswersTrue | Awaits nat

definition cloud_connect :: "cloud_backend \<Rightarrow> connect_answer \<times> cloud_backend" where
  "cloud_connect b =
     (if cb_connected b then (AnswersTrue, b)
      else case cb_connecting b of
        Some attempt \<Rightarrow> (Awaits attempt, b)
      | None \<Rightarrow>
          let g = Suc (cb_generation b) in (Awaits g, b\<lparr>cb_generation := g, cb_connecting := Some g\<rparr>))"

definition check_answered :: "runtime \<Rightarrow> nat \<Rightarrow> cred_check \<Rightarrow> cloud_backend \<Rightarrow> bool option \<times> cloud_backend" where
  "check_answered rt g check b =
     (case check of
        CredentialRefused e \<Rightarrow>
          (case js_String rt (wx_message e) of
             None \<Rightarrow> (None, b)
           | Some m \<Rightarrow>
               (Some False, cb_say (lit ''[whatsapp-cloud] connect failed: '' @ wx_code e @ lit '' '' @ [0x2014] @ lit '' ''
                  @ m @ [nl]) b))
      | CredentialOk \<Rightarrow>
          if cb_generation b \<noteq> g then (Some False, b) else (Some True, b\<lparr>cb_connected := True\<rparr>))"

definition connect_settled :: "nat \<Rightarrow> cloud_backend \<Rightarrow> cloud_backend" where
  "connect_settled g b = (if cb_connecting b = Some g then b\<lparr>cb_connecting := None\<rparr> else b)"

definition cloud_disconnect :: "cloud_backend \<Rightarrow> cloud_backend" where
  "cloud_disconnect b =
     b\<lparr>cb_generation := Suc (cb_generation b), cb_connected := False, cb_connecting := None,
       cb_inbound := None, cb_status := None\<rparr>"

definition not_connected_error :: wa_error where
  "not_connected_error = \<lparr>wx_code = lit ''not_connected'',
     wx_message = JStr (lit ''Cloud backend is not connected '' @ [0x2014] @ lit '' call connect().'')\<rparr>"

definition cloud_send :: "runtime \<Rightarrow> (request \<Rightarrow> http) \<Rightarrow> js \<Rightarrow> bool \<Rightarrow> js \<Rightarrow> cloud_backend \<Rightarrow> sent option" where
  "cloud_send rt fetch to isGroup body b =
     (if \<not> cb_connected b then Some (NotSent not_connected_error)
      else sendText rt fetch (cb_options b) to body isGroup)"

definition cloud_sendTemplate ::
    "runtime \<Rightarrow> (request \<Rightarrow> http) \<Rightarrow> js \<Rightarrow> js \<Rightarrow> js \<Rightarrow> json list option \<Rightarrow> cloud_backend \<Rightarrow> sent option" where
  "cloud_sendTemplate rt fetch to templateName languageCode components b =
     (if \<not> cb_connected b then Some (NotSent not_connected_error)
      else sendTemplate rt fetch (cb_options b) to templateName languageCode components)"

text \<open>What a handler may do to the backend while it runs, besides sending.\<close>

datatype backend_op = Disconnect | OnInbound nat | OffInbound nat | OnStatus nat | OffStatus nat

fun apply_op :: "cloud_backend \<Rightarrow> backend_op \<Rightarrow> cloud_backend" where
  "apply_op b Disconnect = cloud_disconnect b"
| "apply_op b (OnInbound h) = b\<lparr>cb_inbound := Some h\<rparr>"
| "apply_op b (OffInbound h) = (if cb_inbound b = Some h then b\<lparr>cb_inbound := None\<rparr> else b)"
| "apply_op b (OnStatus h) = b\<lparr>cb_status := Some h\<rparr>"
| "apply_op b (OffStatus h) = (if cb_status b = Some h then b\<lparr>cb_status := None\<rparr> else b)"

text \<open>User code: what it does on a call, given the calls made before it, and how it ends.\<close>

type_synonym user_code = "delivery list \<Rightarrow> delivery \<Rightarrow> backend_op list \<times> thrown option"

definition dispatchContained :: "user_code \<Rightarrow> js \<Rightarrow> delivery \<Rightarrow> cloud_backend \<Rightarrow> cloud_backend" where
  "dispatchContained user what d b =
     (let (ops, threw) = user (cb_trace b) d;
          b1 = foldl apply_op (b\<lparr>cb_trace := cb_trace b @ [d]\<rparr>) ops
      in case threw of
           None \<Rightarrow> b1
         | Some err \<Rightarrow> cb_say (lit ''[whatsapp-cloud] '' @ what @ lit '' threw: '' @ text_of err @ [nl]) b1)"

definition dispatchInbound :: "user_code \<Rightarrow> nat \<Rightarrow> wa_inbound list \<Rightarrow> cloud_backend \<Rightarrow> cloud_backend" where
  "dispatchInbound user h messages b =
     foldl (\<lambda>b m. dispatchContained user (lit ''handler'') (ToInbound h m) b) b messages"

definition own_number :: "cloud_backend \<Rightarrow> js" where
  "own_number b = co_phoneNumberId (cb_options b)"

definition for_another :: "js option \<Rightarrow> cloud_backend \<Rightarrow> bool \<times> cloud_backend" where
  "for_another pn b =
     (case isForAnotherNumber pn (Some (own_number b)) (cb_rules b) of (another, st) \<Rightarrow> (another, b\<lparr>cb_rules := st\<rparr>))"

definition dispatch_receipt :: "user_code \<Rightarrow> cloud_backend \<Rightarrow> wa_receipt \<Rightarrow> cloud_backend" where
  "dispatch_receipt user b receipt =
     (case cb_status b of
        None \<Rightarrow> b
      | Some h \<Rightarrow>
          (case for_another (wr_phoneNumberId receipt) b of
             (True, b1) \<Rightarrow> b1
           | (False, b1) \<Rightarrow> dispatchContained user (lit ''status handler'') (ToStatus h receipt) b1))"

definition dispatchStatusReceipts :: "runtime \<Rightarrow> user_code \<Rightarrow> json \<Rightarrow> cloud_backend \<Rightarrow> bool \<times> cloud_backend" where
  "dispatchStatusReceipts rt user envelope b =
     (case normalizeStatusReceipts rt envelope of
        None \<Rightarrow> (False, b)
      | Some out \<Rightarrow>
          (case all_some (map typed_status out) of
             None \<Rightarrow> (False, b)
           | Some receipts \<Rightarrow> (True, foldl (dispatch_receipt user) b receipts)))"

fun own_messages :: "wa_inbound list \<Rightarrow> cloud_backend \<Rightarrow> wa_inbound list \<times> cloud_backend" where
  "own_messages [] b = ([], b)"
| "own_messages (m # ms) b =
     (case for_another (wa_phoneNumberId m) b of
        (another, b1) \<Rightarrow>
          (case own_messages ms b1 of (rest, b2) \<Rightarrow> (if another then rest else m # rest, b2)))"

datatype webhook_result = WebhookReturns bool | WebhookThrows

definition handle_envelope :: "runtime \<Rightarrow> user_code \<Rightarrow> json \<Rightarrow> cloud_backend \<Rightarrow> webhook_result \<times> cloud_backend" where
  "handle_envelope rt user envelope b =
     (case normalizeInboundMessages rt envelope (cb_rules b) of
        (None, st) \<Rightarrow> (WebhookThrows, b\<lparr>cb_rules := st\<rparr>)
      | (Some out, st) \<Rightarrow>
          (case all_some (map typed_message out) of
             None \<Rightarrow> (WebhookThrows, b\<lparr>cb_rules := st\<rparr>)
           | Some events \<Rightarrow>
               (case own_messages events (b\<lparr>cb_rules := st\<rparr>) of
                  (messages, b1) \<Rightarrow>
                    if messages \<noteq> [] \<and> cb_inbound b1 = None
                    then (WebhookReturns False, cb_say (lit ''[whatsapp-cloud] signed webhook body holds ''
                        @ dec (length messages)
                        @ lit '' message(s) for this number and no inbound handler is subscribed; refused whole, nothing dispatched''
                        @ [nl]) b1)
                    else let b2 = (case cb_inbound b1 of None \<Rightarrow> b1 | Some h \<Rightarrow> dispatchInbound user h messages b1)
                         in case dispatchStatusReceipts rt user envelope b2 of
                              (True, b3) \<Rightarrow> (WebhookReturns True, b3)
                            | (False, b3) \<Rightarrow> (WebhookThrows, b3))))"

definition handleWebhookPayload ::
    "runtime \<Rightarrow> (js \<Rightarrow> 'b \<Rightarrow> nat list) \<Rightarrow> ('b \<Rightarrow> thrown + json) \<Rightarrow> user_code \<Rightarrow> 'b \<Rightarrow> js option \<Rightarrow> cloud_backend
       \<Rightarrow> webhook_result \<times> cloud_backend" where
  "handleWebhookPayload rt hmac parse user rawBody signatureHeader b =
     (case verifyWebhookSignature hmac rawBody signatureHeader (cb_appSecret b) of
        Inl err \<Rightarrow> (WebhookThrows, b)
      | Inr False \<Rightarrow> (WebhookReturns False, b)
      | Inr True \<Rightarrow>
          (case parse rawBody of
             Inl err \<Rightarrow> (WebhookReturns False,
               cb_say (lit ''[whatsapp-cloud] webhook body is not JSON: '' @ text_of err @ [nl]) b)
           | Inr body \<Rightarrow>
               (case parseWebhookPayload body of
                  None \<Rightarrow> (WebhookReturns False, cb_say
                    (lit ''[whatsapp-cloud] signed webhook body has a shape the parser refuses (no object, no entry array, ''
                     @ lit ''or a malformed entry, change or list); refused whole, nothing dispatched'' @ [nl]) b)
                | Some envelope \<Rightarrow> handle_envelope rt user envelope b)))"

section \<open>Runs of the connection\<close>

datatype connection_event = Connects | Checked nat cred_check | Settled nat | Disconnects

definition connection_step :: "runtime \<Rightarrow> cloud_backend \<Rightarrow> connection_event \<Rightarrow> cloud_backend" where
  "connection_step rt b e =
     (case e of
        Connects \<Rightarrow> snd (cloud_connect b)
      | Checked g check \<Rightarrow> snd (check_answered rt g check b)
      | Settled g \<Rightarrow> connect_settled g b
      | Disconnects \<Rightarrow> cloud_disconnect b)"

lemma cb_say_fields [simp]:
  "cb_trace (cb_say line b) = cb_trace b" "cb_options (cb_say line b) = cb_options b"
  "cb_connected (cb_say line b) = cb_connected b" "cb_generation (cb_say line b) = cb_generation b"
  "cb_inbound (cb_say line b) = cb_inbound b" "cb_status (cb_say line b) = cb_status b"
  "cb_connecting (cb_say line b) = cb_connecting b" "cb_appSecret (cb_say line b) = cb_appSecret b"
  "own_number (cb_say line b) = own_number b"
  by (simp_all add: cb_say_def own_number_def)

lemma stays_closed:
  assumes "\<not> cb_connected b" "old < cb_generation b"
    and "list_all (\<lambda>e. case e of Connects \<Rightarrow> False | Checked g check \<Rightarrow> g \<le> old | _ \<Rightarrow> True) es"
  shows "\<not> cb_connected (foldl (connection_step rt) b es)"
  using assms
proof (induction es arbitrary: b)
  case (Cons e es)
  have "\<not> cb_connected (connection_step rt b e) \<and> old < cb_generation (connection_step rt b e)"
    using Cons.prems
    by (cases e) (auto simp: connection_step_def check_answered_def connect_settled_def cloud_disconnect_def
        split: cred_check.split option.split)
  then show ?case using Cons by simp
qed simp

section \<open>What dispatching does\<close>

lemma apply_op_fields [simp]:
  "cb_trace (apply_op b op) = cb_trace b" "cb_options (apply_op b op) = cb_options b"
  by (cases op; simp add: cloud_disconnect_def)+

lemma apply_ops_fields [simp]:
  "cb_trace (foldl apply_op b ops) = cb_trace b" "cb_options (foldl apply_op b ops) = cb_options b"
  by (induction ops arbitrary: b) simp_all

lemma dispatch_fields [simp]:
  "cb_trace (dispatchContained user what d b) = cb_trace b @ [d]"
  "own_number (dispatchContained user what d b) = own_number b"
  by (simp_all add: dispatchContained_def own_number_def Let_def cb_say_def split: prod.split option.split)

lemma dispatchInbound_trace:
  "cb_trace (dispatchInbound user h ms b) = cb_trace b @ map (ToInbound h) ms \<and>
   own_number (dispatchInbound user h ms b) = own_number b"
proof (induction ms arbitrary: b)
  case (Cons m ms)
  from Cons.IH [of "dispatchContained user (lit ''handler'') (ToInbound h m) b"]
  show ?case by (simp add: dispatchInbound_def del: lit_simps)
qed (simp add: dispatchInbound_def)

lemma for_another_fields:
  assumes "for_another pn b = (another, b')"
  shows "another \<longleftrightarrow> pn \<noteq> Some (own_number b)"
    "cb_trace b' = cb_trace b" "own_number b' = own_number b" "cb_inbound b' = cb_inbound b" "cb_status b' = cb_status b"
  using assms another_fst [of pn "Some (own_number b)" "cb_rules b"]
  by (auto simp: for_another_def own_number_def split: prod.splits)

lemma own_messages_filter:
  "own_messages ms b = (kept, b') \<Longrightarrow>
     kept = filter (\<lambda>m. wa_phoneNumberId m = Some (own_number b)) ms \<and> cb_trace b' = cb_trace b \<and>
     own_number b' = own_number b \<and> cb_inbound b' = cb_inbound b \<and> cb_status b' = cb_status b"
proof (induction ms arbitrary: b kept b')
  case (Cons m ms)
  obtain another b1 where f: "for_another (wa_phoneNumberId m) b = (another, b1)" by fastforce
  obtain rest b2 where r: "own_messages ms b1 = (rest, b2)" by fastforce
  have "kept = (if another then rest else m # rest)" "b' = b2" using Cons.prems f r by auto
  then show ?case using Cons.IH [OF r] for_another_fields [OF f] by auto
qed simp

definition own_receipt :: "js \<Rightarrow> wa_receipt list \<Rightarrow> delivery \<Rightarrow> bool" where
  "own_receipt own receipts d \<longleftrightarrow>
     (case d of ToStatus h r \<Rightarrow> wr_phoneNumberId r = Some own \<and> r \<in> set receipts | ToInbound h m \<Rightarrow> False)"

lemma receipts_trace:
  "set rs \<subseteq> set receipts \<Longrightarrow> \<exists>ds. cb_trace (foldl (dispatch_receipt user) b rs) = cb_trace b @ ds \<and>
     list_all (own_receipt (own_number b) receipts) ds"
proof (induction rs arbitrary: b)
  case (Cons r rs)
  let ?b = "dispatch_receipt user b r"
  have step: "own_number ?b = own_number b \<and> (\<exists>ds. cb_trace ?b = cb_trace b @ ds \<and>
      list_all (own_receipt (own_number b) receipts) ds)"
  proof (cases "cb_status b")
    case (Some h)
    obtain another b1 where f: "for_another (wr_phoneNumberId r) b = (another, b1)" by fastforce
    show ?thesis using Some f for_another_fields [OF f] Cons.prems
      by (cases another) (auto simp: dispatch_receipt_def own_receipt_def simp del: lit_simps)
  qed (simp add: dispatch_receipt_def)
  then obtain d1 where d1: "own_number ?b = own_number b" "cb_trace ?b = cb_trace b @ d1"
    "list_all (own_receipt (own_number b) receipts) d1" by blast
  have "set rs \<subseteq> set receipts" using Cons.prems by simp
  from Cons.IH [OF this, of ?b] obtain d2 where "cb_trace (foldl (dispatch_receipt user) ?b rs) = cb_trace ?b @ d2"
    "list_all (own_receipt (own_number b) receipts) d2" unfolding d1(1) by blast
  then show ?case using d1 by (intro exI [of _ "d1 @ d2"]) simp
qed simp

text \<open>The messages of an envelope for one number, as the declared type has them.\<close>

definition events_for :: "runtime \<Rightarrow> js \<Rightarrow> rules_state \<Rightarrow> json \<Rightarrow> wa_inbound list" where
  "events_for rt own st envelope =
     filter (\<lambda>m. wa_phoneNumberId m = Some own)
       (map (\<lambda>m. the (typed_message m)) (case fst (normalizeInboundMessages rt envelope st) of None \<Rightarrow> [] | Some out \<Rightarrow> out))"

definition receipts_of :: "runtime \<Rightarrow> json \<Rightarrow> wa_receipt list" where
  "receipts_of rt envelope =
     map (\<lambda>s. the (typed_status s)) (case normalizeStatusReceipts rt envelope of None \<Rightarrow> [] | Some out \<Rightarrow> out)"

lemma all_some_map: "all_some (map f xs) = Some ys \<Longrightarrow> ys = map (\<lambda>x. the (f x)) xs"
proof -
  assume "all_some (map f xs) = Some ys"
  then have "map the (map f xs) = map the (map Some ys)" using all_some_SomeD by metis
  then show ?thesis by (simp add: comp_def)
qed

lemma handle_envelope_outcome:
  assumes "handle_envelope rt user envelope b = (r, b')"
  shows "\<exists>ds. cb_trace b' = cb_trace b @ ds \<and>
     (ds = [] \<or> (\<exists>statuses. ds = (case cb_inbound b of None \<Rightarrow> []
         | Some h \<Rightarrow> map (ToInbound h) (events_for rt (own_number b) (cb_rules b) envelope)) @ statuses \<and>
       list_all (own_receipt (own_number b) (receipts_of rt envelope)) statuses)) \<and>
     (r = WebhookReturns False \<longrightarrow> ds = []) \<and>
     (r = WebhookReturns True \<longrightarrow>
       (events_for rt (own_number b) (cb_rules b) envelope = [] \<or> cb_inbound b \<noteq> None) \<and>
       (\<exists>statuses. ds = (case cb_inbound b of None \<Rightarrow> []
         | Some h \<Rightarrow> map (ToInbound h) (events_for rt (own_number b) (cb_rules b) envelope)) @ statuses \<and>
       list_all (own_receipt (own_number b) (receipts_of rt envelope)) statuses))"
proof -
  obtain no st where n: "normalizeInboundMessages rt envelope (cb_rules b) = (no, st)" by fastforce
  show ?thesis
  proof (cases "no = None \<or> all_some (map typed_message (the no)) = None")
    case True
    then have "r = WebhookThrows" "cb_trace b' = cb_trace b" using assms n
      by (cases no; auto simp: handle_envelope_def)+
    then show ?thesis by simp
  next
    case False
    then obtain out events where out: "no = Some out" "all_some (map typed_message out) = Some events" by auto
    obtain ms b1 where ms: "own_messages events (b\<lparr>cb_rules := st\<rparr>) = (ms, b1)" by fastforce
    have own: "own_number (b\<lparr>cb_rules := st\<rparr>) = own_number b" by (simp add: own_number_def)
    note kept = own_messages_filter [OF ms, unfolded own]
    have events: "ms = events_for rt (own_number b) (cb_rules b) envelope"
      using kept all_some_map [OF out(2)] n out(1) by (simp add: events_for_def)
    show ?thesis
    proof (cases "ms \<noteq> [] \<and> cb_inbound b = None")
      case True
      then have "r = WebhookReturns False \<and> cb_trace b' = cb_trace b" using assms n out ms kept
        by (auto simp: handle_envelope_def simp del: lit_simps)
      then show ?thesis by auto
    next
      case False
      let ?b2 = "case cb_inbound b1 of None \<Rightarrow> b1 | Some h \<Rightarrow> dispatchInbound user h ms b1"
      have b2: "cb_trace ?b2 = cb_trace b @ (case cb_inbound b of None \<Rightarrow> [] | Some h \<Rightarrow> map (ToInbound h) ms)"
        "own_number ?b2 = own_number b"
        using kept dispatchInbound_trace by (auto split: option.split)
      obtain ok b3 where d: "dispatchStatusReceipts rt user envelope ?b2 = (ok, b3)" by fastforce
      have r: "r = (if ok then WebhookReturns True else WebhookThrows)" "b' = b3"
        using assms n out ms False kept d by (auto simp: handle_envelope_def Let_def split: bool.splits)
      have "\<exists>statuses. cb_trace b3 = cb_trace ?b2 @ statuses \<and>
          list_all (own_receipt (own_number b) (receipts_of rt envelope)) statuses"
      proof (cases ok)
        case False
        then have "b3 = ?b2" using d by (auto simp: dispatchStatusReceipts_def split: option.splits)
        then show ?thesis by (intro exI [of _ "[]"]) simp
      next
        case True
        then obtain sts receipts where s: "normalizeStatusReceipts rt envelope = Some sts"
          "all_some (map typed_status sts) = Some receipts" "b3 = foldl (dispatch_receipt user) ?b2 receipts"
          using d by (auto simp: dispatchStatusReceipts_def split: option.splits)
        have "receipts_of rt envelope = receipts" using s(1) all_some_map [OF s(2)] by (simp add: receipts_of_def)
        then show ?thesis using receipts_trace [of receipts receipts user ?b2] s(3) b2(2) by simp
      qed
      then obtain statuses where st: "cb_trace b3 = cb_trace ?b2 @ statuses"
        "list_all (own_receipt (own_number b) (receipts_of rt envelope)) statuses" by blast
      have "cb_inbound b1 = cb_inbound b" using kept by simp
      then have "ms = [] \<or> cb_inbound b \<noteq> None" using False by auto
      then show ?thesis using r st b2(1) unfolding events
        by (intro exI [of _ "(case cb_inbound b of None \<Rightarrow> [] | Some h \<Rightarrow>
            map (ToInbound h) (events_for rt (own_number b) (cb_rules b) envelope)) @ statuses"]) auto
    qed
  qed
qed

section \<open>Credentials\<close>

lemma refused_not_ok: "map_option CredentialRefused y \<noteq> Some CredentialOk"
  by (cases y) auto

lemma read_node_ok:
  "read_node rt opts status (JObj fs) = Some CredentialOk \<longleftrightarrow>
     map_of fs (lit ''error'') = None \<and>
     (case map_of fs (lit ''id'') of None \<Rightarrow> Some (lit ''undefined'') | Some v \<Rightarrow> js_String rt v)
       = Some (co_phoneNumberId opts)"
proof (cases "map_of fs (lit ''error'')")
  case None
  then show ?thesis
    by (cases "case map_of fs (lit ''id'') of None \<Rightarrow> Some (lit ''undefined'') | Some v \<Rightarrow> js_String rt v")
      (simp_all add: read_node_def member_def del: lit_simps)
qed (simp add: read_node_def member_def refused_not_ok del: lit_simps)

section \<open>Properties\<close>

text \<open>
  C6: when a webhook is answered with success, its body was signed, and the calls it made to user code
  are: every message of the envelope for this backend's number, in order, to the handler subscribed
  when the body arrived, whatever that handler does to the subscription on the way or throws, then
  receipts of the envelope for this number only.
\<close>
theorem accepted_webhook_delivers_the_whole_batch:
  assumes "handleWebhookPayload rt hmac parse user rawBody header b = (WebhookReturns True, b')"
  shows "verifyWebhookSignature hmac rawBody header (cb_appSecret b) = Inr True \<and>
    (\<exists>envelope statuses. parse rawBody = Inr envelope \<and>
      cb_trace b' = cb_trace b @ (case cb_inbound b of None \<Rightarrow> []
        | Some h \<Rightarrow> map (ToInbound h) (events_for rt (own_number b) (cb_rules b) envelope)) @ statuses \<and>
      (events_for rt (own_number b) (cb_rules b) envelope = [] \<or> cb_inbound b \<noteq> None) \<and>
      list_all (own_receipt (own_number b) (receipts_of rt envelope)) statuses)"
proof -
  have sig: "verifyWebhookSignature hmac rawBody header (cb_appSecret b) = Inr True"
    using assms by (auto simp: handleWebhookPayload_def split: sum.splits bool.splits)
  obtain body envelope where p: "parse rawBody = Inr body" "parseWebhookPayload body = Some envelope"
    "handle_envelope rt user envelope b = (WebhookReturns True, b')"
    using assms sig by (auto simp: handleWebhookPayload_def split: sum.splits option.splits)
  have "envelope = body" using p(2) by (rule parsed_shape)
  with handle_envelope_outcome [OF p(3)] p(1) sig show ?thesis by auto
qed

definition one_user :: user_code where
  "one_user calls d = ([Disconnect], Some (ThrownError (lit ''boom'')))"

definition signed_backend :: cloud_backend where
  "signed_backend = (newCloudBackend \<lparr>co_accessToken = lit ''t'', co_phoneNumberId = lit ''own'', co_apiVersion = None\<rparr>
     (lit ''k''))\<lparr>cb_inbound := Some 4\<rparr>"

definition own_text :: json where
  "own_text = JObj [(lit ''type'', JStr (lit ''text'')), (lit ''id'', JStr (lit ''w1'')), (lit ''from'', JStr (lit ''55''))]"

definition own_body :: json where
  "own_body = JObj [(lit ''object'', JStr []), (lit ''entry'', JArr [JObj [(lit ''changes'', JArr
     [JObj [(lit ''value'', JObj [(lit ''metadata'', JObj [(lit ''phone_number_id'', JStr (lit ''own''))]),
       (lit ''messages'', JArr [own_text, own_text])])]])]])]"

theorem accepted_webhook_delivers_the_whole_batch_witness:
  "length (events_for plain_runtime (lit ''own'') fresh_rules own_body) = 2 \<and>
   (\<exists>statuses. cb_trace (snd (handleWebhookPayload plain_runtime (\<lambda>k b. [10, 255]) Inr one_user own_body
       (Some (SIGNATURE_PREFIX @ lit ''0aff'')) signed_backend)) =
     map (ToInbound 4) (events_for plain_runtime (lit ''own'') fresh_rules own_body) @ statuses)"
proof -
  let ?h = "handleWebhookPayload plain_runtime (\<lambda>k b. [10, 255]) Inr one_user own_body
      (Some (SIGNATURE_PREFIX @ lit ''0aff'')) signed_backend"
  have two: "length (events_for plain_runtime (lit ''own'') fresh_rules own_body) = 2" by code_simp
  have "fst ?h = WebhookReturns True" by code_simp
  then have r: "?h = (WebhookReturns True, snd ?h)" by (metis prod.collapse)
  have b: "cb_trace signed_backend = []" "cb_inbound signed_backend = Some 4" "own_number signed_backend = lit ''own''"
    "cb_rules signed_backend = fresh_rules" by (simp_all add: signed_backend_def newCloudBackend_def own_number_def)
  from accepted_webhook_delivers_the_whole_batch [OF r] two show ?thesis unfolding b by auto
qed

text \<open>
  A webhook answered with refusal reached no user code, whatever it held: the body is refused whole.
\<close>
theorem refused_webhook_delivers_nothing:
  assumes "handleWebhookPayload rt hmac parse user rawBody header b = (WebhookReturns False, b')"
  shows "cb_trace b' = cb_trace b"
proof -
  have "cb_trace b' = cb_trace b" if "handle_envelope rt user envelope b = (WebhookReturns False, b')" for envelope
    using handle_envelope_outcome [OF that] by auto
  then show ?thesis using assms
    by (auto simp: handleWebhookPayload_def simp del: lit_simps split: sum.splits bool.splits option.splits)
qed

theorem refused_webhook_delivers_nothing_witness:
  "cb_trace (snd (handleWebhookPayload plain_runtime (\<lambda>k b. [10, 255]) Inr one_user own_body
     (Some (SIGNATURE_PREFIX @ lit ''0afe'')) signed_backend)) = []"
proof -
  let ?h = "handleWebhookPayload plain_runtime (\<lambda>k b. [10, 255]) Inr one_user own_body
      (Some (SIGNATURE_PREFIX @ lit ''0afe'')) signed_backend"
  have "fst ?h = WebhookReturns False" by code_simp
  then have r: "?h = (WebhookReturns False, snd ?h)" by (metis prod.collapse)
  from refused_webhook_delivers_nothing [OF r] show ?thesis by (simp add: signed_backend_def newCloudBackend_def)
qed

text \<open>
  A credential check that was in flight when the backend was disconnected never connects it: until
  the next \<open>connect\<close>, no answer to a check started before reopens the backend.
\<close>
theorem stale_check_never_reconnects:
  assumes "list_all (\<lambda>e. case e of Connects \<Rightarrow> False | Checked g check \<Rightarrow> g \<le> cb_generation b | _ \<Rightarrow> True) es"
  shows "\<not> cb_connected (foldl (connection_step rt) (cloud_disconnect b) es)"
  by (rule stays_closed [OF _ _ assms]) (simp_all add: cloud_disconnect_def)

theorem stale_check_never_reconnects_witness:
  "\<not> cb_connected (foldl (connection_step plain_runtime)
     (cloud_disconnect (snd (cloud_connect signed_backend))) [Checked 1 CredentialOk, Settled 1])"
  by (rule stale_check_never_reconnects)
    (simp add: cloud_connect_def signed_backend_def newCloudBackend_def)

text \<open>
  \<open>connect\<close> accepts a credential exactly when Meta answers with success, an object that names no
  error and a node id that reads as the configured phone number id.
\<close>
theorem credential_is_the_configured_number:
  "verifyCredentials rt fetch opts = Some CredentialOk \<longleftrightarrow>
     (\<exists>status fs. fetch \<lparr>rq_url = base_url opts, rq_method = lit ''GET'', rq_token = co_accessToken opts, rq_body = None\<rparr>
          = Answer status (Some (JObj fs)) \<and> ok_status status \<and> map_of fs (lit ''error'') = None \<and>
        (case map_of fs (lit ''id'') of None \<Rightarrow> Some (lit ''undefined'') | Some v \<Rightarrow> js_String rt v)
          = Some (co_phoneNumberId opts))"
proof (cases "fetch \<lparr>rq_url = base_url opts, rq_method = lit ''GET'', rq_token = co_accessToken opts, rq_body = None\<rparr>")
  case (Answer status body)
  show ?thesis
  proof (cases "\<exists>fs. body = Some (JObj fs)")
    case True
    then show ?thesis using Answer by (auto simp: verifyCredentials_def read_node_ok refused_not_ok simp del: lit_simps)
  next
    case False
    then show ?thesis using Answer
      by (auto simp: verifyCredentials_def refused_not_ok simp del: lit_simps split: option.split json.split)
  qed
qed (simp add: verifyCredentials_def del: lit_simps)

text \<open>
  A send of a connected backend rejects, instead of answering a result, when Meta accepts the
  request with a body that is not JSON or is \<open>null\<close>: the adapter contract says that a send never throws
  on platform errors.
\<close>
theorem unreadable_success_rejects_the_send:
  assumes "cb_connected b" "ok_status status" "body = None \<or> body = Some JNull"
  shows "cloud_send rt (\<lambda>rq. Answer status body) to isGroup txt b = None"
  using assms by (auto simp: cloud_send_def sendText_def postMessage_def)

theorem unreadable_success_rejects_the_send_witness:
  "cloud_send plain_runtime (\<lambda>rq. Answer 200 None) (lit ''55'') False (lit ''hi'')
     (signed_backend\<lparr>cb_connected := True\<rparr>) = None"
  by (rule unreadable_success_rejects_the_send) (simp_all add: ok_status_def)

section \<open>The backend's contract\<close>

text \<open>
  A backend with the requests it made: what \<open>send\<close> answers the adapter, and the request it puts on the
  network when it is connected. \<open>fetch\<close> answers by the requests before; \<open>err\<close> is what a rejected send
  rejects with.
\<close>

definition send_result_of :: "sent \<Rightarrow> wa_send_result" where
  "send_result_of r =
     (case r of Sent wamid \<Rightarrow> wa_sent (Some wamid) | NotSent e \<Rightarrow> wa_refused (wx_code e) (wx_message e))"

definition cloud_post ::
    "runtime \<Rightarrow> (request list \<Rightarrow> request \<Rightarrow> http) \<Rightarrow> thrown \<Rightarrow> wa_outbound \<Rightarrow> cloud_backend \<times> request list
       \<Rightarrow> wa_send_result outcome \<times> (cloud_backend \<times> request list)" where
  "cloud_post rt fetch err p w =
     (case w of (b, requests) \<Rightarrow>
        (case cloud_send rt (fetch requests) (wo_to p) (wo_isGroup p) (wo_text p) b of
           None \<Rightarrow> Threw err
         | Some r \<Rightarrow> Returned (send_result_of r),
         (b, if cb_connected b
             then requests @ [post_request (cb_options b) (text_message (wo_to p) (wo_text p) (wo_isGroup p))]
             else requests)))"

text \<open>The request of \<open>cloud_post\<close> is the only one \<open>cloud_send\<close> asks \<open>fetch\<close> about.\<close>

lemma cloud_send_asks_once:
  "cb_connected b \<Longrightarrow> fetch (post_request (cb_options b) (text_message to body isGroup)) = fetch' (post_request (cb_options b) (text_message to body isGroup)) \<Longrightarrow>
   cloud_send rt fetch to isGroup body b = cloud_send rt fetch' to isGroup body b"
  by (simp add: cloud_send_def sendText_def postMessage_def)

interpretation cloud_wire: whatsapp_backend
  "\<lambda>w. cb_connected (fst w)" "cloud_post rt fetch err" "\<lambda>w. (cloud_disconnect (fst w), snd w)" snd
  by unfold_locales
    (auto simp: cloud_post_def cloud_send_def send_result_of_def not_connected_error_def cloud_disconnect_def
      simp del: lit_simps)

end
