(* ===== verification/WhatsAppAdapter.thy ===== *)
theory WhatsAppAdapter
  imports Runner WhatsAppCloud
begin

text \<open>
  The WhatsApp adapter (\<open>gateway-whatsapp/src/adapter.ts\<close>): the factories' checks, the subscriptions it
  keeps on its backend, the send loop, and the two ways an inbound message becomes an event, which are the
  bridge of \<open>onInbound\<close> and the public \<open>toDeliverableEvents\<close>. The backend is reached through its contract
  (\<open>WhatsAppBackend\<close>); the two slots a backend keeps its subscribers in are modelled here, the three
  backends having the same one.
\<close>

section \<open>Construction\<close>

fun requireNonEmpty :: "(string \<times> js option) list \<Rightarrow> config_error option" where
  "requireNonEmpty [] = None"
| "requireNonEmpty ((name, entry) # entries) =
     (if entry = None \<or> js_trim (the entry) = []
      then Some (GatewayConfigurationError (lit ''gateway-whatsapp'') (lit ''missing_option'')
        (Some (lit ''gateway-whatsapp: '' @ lit name @ lit '' is required and must not be empty.'')) None)
      else requireNonEmpty entries)"

record common_options =
  wc_requireMention :: "bool option"
  wc_botPhoneId :: "js option"
  wc_allowedSenders :: "js option"

text \<open>
  Handlers are named by numbers, as the code compares them by identity. A bridge is the closure one
  \<open>onInbound\<close> hands the backend: \<open>wd_slot\<close> is the backend's subscriber, a bridge with the handler it was
  created for, \<open>wd_inboundOff\<close> the bridge whose unsubscription the adapter holds. \<open>wd_next\<close> numbers them.
\<close>

record wa_adapter =
  wd_ownPhoneNumberId :: "js option"
  wd_inbound_rules :: inbound_rules
  wd_rules :: rules_state
  wd_connected :: bool
  wd_handler :: "nat option"
  wd_statusHandler :: "nat option"
  wd_inboundOff :: "nat option"
  wd_statusOff :: "nat option"
  wd_warnedAboutFormat :: bool
  wd_slot :: "(nat \<times> nat) option"
  wd_statusSlot :: "nat option"
  wd_next :: nat

definition newWhatsAppAdapter :: "js option \<Rightarrow> common_options \<Rightarrow> wa_adapter" where
  "newWhatsAppAdapter phoneNumberId opts =
     \<lparr>wd_ownPhoneNumberId = phoneNumberId,
      wd_inbound_rules =
        \<lparr>ir_allowedSenders = map_option (\<lambda>s. parseAllowedSenders (Some s)) (wc_allowedSenders opts),
         ir_requireMention = (case wc_requireMention opts of None \<Rightarrow> True | Some b \<Rightarrow> b),
         ir_botPhoneId = digitsOnly (case wc_botPhoneId opts of None \<Rightarrow> [] | Some s \<Rightarrow> s)\<rparr>,
      wd_rules = fresh_rules, wd_connected = False, wd_handler = None, wd_statusHandler = None,
      wd_inboundOff = None, wd_statusOff = None, wd_warnedAboutFormat = False,
      wd_slot = None, wd_statusSlot = None, wd_next = 0\<rparr>"

text \<open>\<open>fromCloud\<close> gives the adapter and the backend it is built on, the others the adapter.\<close>

definition fromCloud ::
    "cloud_options \<Rightarrow> js \<Rightarrow> common_options \<Rightarrow> config_error + wa_adapter \<times> cloud_backend" where
  "fromCloud cloud appSecret opts =
     (case requireNonEmpty [(''accessToken'', Some (co_accessToken cloud)), (''phoneNumberId'', Some (co_phoneNumberId cloud))] of
        Some e \<Rightarrow> Inl e
      | None \<Rightarrow>
          (case (case co_apiVersion cloud of None \<Rightarrow> None | Some v \<Rightarrow> requireNonEmpty [(''apiVersion'', Some v)]) of
             Some e \<Rightarrow> Inl e
           | None \<Rightarrow>
               Inr (newWhatsAppAdapter (Some (co_phoneNumberId cloud))
                  (opts\<lparr>wc_botPhoneId := Some (case wc_botPhoneId opts of None \<Rightarrow> co_phoneNumberId cloud | Some s \<Rightarrow> s)\<rparr>),
                newCloudBackend cloud appSecret)))"

definition fromBaileys :: "js option \<Rightarrow> common_options \<Rightarrow> config_error + wa_adapter" where
  "fromBaileys sessionDir opts =
     (case requireNonEmpty [(''sessionDir'', sessionDir)] of
        Some e \<Rightarrow> Inl e
      | None \<Rightarrow> Inr (newWhatsAppAdapter None opts))"

definition fromWeb :: "js option \<Rightarrow> common_options \<Rightarrow> config_error + wa_adapter" where
  "fromWeb sessionId opts =
     (case requireNonEmpty [(''sessionId'', sessionId)] of
        Some e \<Rightarrow> Inl e
      | None \<Rightarrow> Inr (newWhatsAppAdapter None opts))"

section \<open>Subscriptions and lifecycle\<close>

text \<open>\<open>off()\<close> of a bridge: the backend compares the subscriber with the one that was given.\<close>

definition off :: "nat \<Rightarrow> wa_adapter \<Rightarrow> wa_adapter" where
  "off n a = (case wd_slot a of Some (m, h) \<Rightarrow> if m = n then a\<lparr>wd_slot := None\<rparr> else a | None \<Rightarrow> a)"

definition statusOff :: "nat \<Rightarrow> wa_adapter \<Rightarrow> wa_adapter" where
  "statusOff n a = (if wd_statusSlot a = Some n then a\<lparr>wd_statusSlot := None\<rparr> else a)"

definition wa_onInbound :: "nat \<Rightarrow> wa_adapter \<Rightarrow> wa_adapter" where
  "wa_onInbound h a =
     (let a1 = (case wd_inboundOff a of None \<Rightarrow> a | Some n \<Rightarrow> off n a);
          n = wd_next a1
      in a1\<lparr>wd_handler := Some h, wd_slot := Some (n, h), wd_next := Suc n, wd_inboundOff := Some n\<rparr>)"

definition wa_unsubscribe :: "nat \<Rightarrow> nat \<Rightarrow> wa_adapter \<Rightarrow> wa_adapter" where
  "wa_unsubscribe n h a =
     (if wd_handler a = Some h then (off n (a\<lparr>wd_handler := None\<rparr>))\<lparr>wd_inboundOff := None\<rparr> else a)"

definition wa_onStatusReceipt :: "nat \<Rightarrow> wa_adapter \<Rightarrow> wa_adapter" where
  "wa_onStatusReceipt h a =
     (let a1 = (case wd_statusOff a of None \<Rightarrow> a | Some n \<Rightarrow> statusOff n a);
          n = wd_next a1
      in a1\<lparr>wd_statusHandler := Some h, wd_statusSlot := Some n, wd_next := Suc n, wd_statusOff := Some n\<rparr>)"

definition wa_unsubscribeStatus :: "nat \<Rightarrow> nat \<Rightarrow> wa_adapter \<Rightarrow> wa_adapter" where
  "wa_unsubscribeStatus n h a =
     (if wd_statusHandler a = Some h then (statusOff n (a\<lparr>wd_statusHandler := None\<rparr>))\<lparr>wd_statusOff := None\<rparr> else a)"

text \<open>
  \<open>connect\<close> answers at once when connected, else asks the backend; \<open>wa_connected\<close> is what follows its
  answer. \<open>disconnect\<close> ends with the backend's, which empties both slots.
\<close>

definition wa_connect :: "wa_adapter \<Rightarrow> bool option" where
  "wa_connect a = (if wd_connected a then Some True else None)"

definition wa_connected :: "bool \<Rightarrow> wa_adapter \<Rightarrow> wa_adapter" where
  "wa_connected ok a = a\<lparr>wd_connected := ok\<rparr>"

definition wa_disconnect :: "wa_adapter \<Rightarrow> wa_adapter" where
  "wa_disconnect a =
     (let a1 = (case wd_inboundOff a of None \<Rightarrow> a | Some n \<Rightarrow> off n a);
          a2 = (case wd_statusOff a1 of None \<Rightarrow> a1 | Some n \<Rightarrow> statusOff n a1)
      in a2\<lparr>wd_connected := False, wd_inboundOff := None, wd_statusOff := None, wd_handler := None,
           wd_statusHandler := None, wd_slot := None, wd_statusSlot := None\<rparr>)"

text \<open>A run of the adapter, with the unsubscriptions it has handed out.\<close>

inductive wa_run :: "wa_adapter \<Rightarrow> (nat \<times> nat) list \<Rightarrow> wa_adapter \<Rightarrow> bool" for a0 where
  made: "wa_run a0 [] a0"
| connected: "wa_run a0 offs a \<Longrightarrow> wa_run a0 offs (wa_connected ok a)"
| disconnected: "wa_run a0 offs a \<Longrightarrow> wa_run a0 offs (wa_disconnect a)"
| subscribed: "wa_run a0 offs a \<Longrightarrow> wa_run a0 (offs @ [(wd_next a, h)]) (wa_onInbound h a)"
| unsubscribed: "wa_run a0 offs a \<Longrightarrow> (n, h) \<in> set offs \<Longrightarrow> wa_run a0 offs (wa_unsubscribe n h a)"
| status_subscribed: "wa_run a0 offs a \<Longrightarrow> wa_run a0 offs (wa_onStatusReceipt h a)"
| status_unsubscribed: "wa_run a0 offs a \<Longrightarrow> wa_run a0 offs (wa_unsubscribeStatus n h a)"

section \<open>Inbound\<close>

definition wa_decide :: "wa_inbound \<Rightarrow> wa_adapter \<Rightarrow> whatsapp_event option \<times> wa_adapter" where
  "wa_decide inbound a =
     (case decideForOwnNumber inbound (wd_ownPhoneNumberId a) (wd_inbound_rules a) (wd_rules a) of
        (e, st) \<Rightarrow> (e, a\<lparr>wd_rules := st\<rparr>))"

text \<open>What a message the backend dispatches does: the handler called with the event, if any.\<close>

definition bridge_call :: "wa_inbound \<Rightarrow> wa_adapter \<Rightarrow> (nat \<times> whatsapp_event) option \<times> wa_adapter" where
  "bridge_call inbound a =
     (case wd_slot a of
        None \<Rightarrow> (None, a)
      | Some (n, h) \<Rightarrow> (case wa_decide inbound a of (e, a1) \<Rightarrow> (map_option (Pair h) e, a1)))"

definition status_call :: "wa_receipt \<Rightarrow> wa_adapter \<Rightarrow> (nat \<times> wa_receipt) option \<times> wa_adapter" where
  "status_call r a =
     (if wd_statusSlot a = None then (None, a)
      else case isForAnotherNumber (wr_phoneNumberId r) (wd_ownPhoneNumberId a) (wd_rules a) of
        (True, st) \<Rightarrow> (None, a\<lparr>wd_rules := st\<rparr>)
      | (False, st) \<Rightarrow> (map_option (\<lambda>h. (h, r)) (wd_statusHandler a), a\<lparr>wd_rules := st\<rparr>))"

definition toDeliverableEvent :: "wa_inbound \<Rightarrow> wa_adapter \<Rightarrow> config_error + (whatsapp_event option \<times> wa_adapter)" where
  "toDeliverableEvent inbound a =
     (case (if wa_backend inbound = CloudBackend
            then requireOwnPhoneNumberId (wd_ownPhoneNumberId a) (lit ''toDeliverableEvent'') else Inr []) of
        Inl e \<Rightarrow> Inl e
      | Inr _ \<Rightarrow> Inr (wa_decide inbound a))"

fun deliverable :: "wa_inbound list \<Rightarrow> wa_adapter \<Rightarrow> config_error + (whatsapp_event list \<times> wa_adapter)" where
  "deliverable [] a = Inr ([], a)"
| "deliverable (inbound # rest) a =
     (case toDeliverableEvent inbound a of
        Inl e \<Rightarrow> Inl e
      | Inr (e, a1) \<Rightarrow>
          (case deliverable rest a1 of
             Inl e \<Rightarrow> Inl e
           | Inr (events, a2) \<Rightarrow> Inr ((case e of None \<Rightarrow> events | Some event \<Rightarrow> event # events), a2)))"

text \<open>
  \<open>None\<close> is a throw of the normalizer, or a message that is not of its declared type, which no envelope
  \<open>parseWebhookPayload\<close> accepts has.
\<close>

definition toDeliverableEvents ::
    "runtime \<Rightarrow> json \<Rightarrow> wa_adapter \<Rightarrow> (config_error + (whatsapp_event list \<times> wa_adapter)) option" where
  "toDeliverableEvents rt envelope a =
     (case requireOwnPhoneNumberId (wd_ownPhoneNumberId a) (lit ''toDeliverableEvents'') of
        Inl e \<Rightarrow> Some (Inl e)
      | Inr _ \<Rightarrow>
          (case normalizeInboundMessages rt envelope (wd_rules a) of
             (None, st) \<Rightarrow> None
           | (Some out, st) \<Rightarrow>
               (case all_some (map typed_message out) of
                  None \<Rightarrow> None
                | Some inbounds \<Rightarrow> Some (deliverable inbounds (a\<lparr>wd_rules := st\<rparr>)))))"

definition wa_deliver :: "(nat \<Rightarrow> whatsapp_event \<Rightarrow> ('w, unit) comp) \<Rightarrow> wa_adapter \<Rightarrow> whatsapp_event \<Rightarrow> ('w, Runner.delivery) comp" where
  "wa_deliver user a event = runHandler (lit ''whatsapp'') (map_option user (wd_handler a)) event"

section \<open>Sending\<close>

definition format_name :: "format \<Rightarrow> js" where
  "format_name f = (case f of Plain \<Rightarrow> lit ''plain'' | Markdown \<Rightarrow> lit ''markdown'' | Html \<Rightarrow> lit ''html'')"

definition wa_warnFormatUnsupported :: "format option \<Rightarrow> wa_adapter \<Rightarrow> wa_adapter" where
  "wa_warnFormatUnsupported fmt a =
     (case fmt of
        None \<Rightarrow> a
      | Some f \<Rightarrow>
          if f = Plain \<or> wd_warnedAboutFormat a then a
          else a\<lparr>wd_warnedAboutFormat := True,
            wd_rules := say (lit ''[whatsapp] format='' @ quoted (format_name f)
              @ lit '' was declared, and WhatsApp cannot carry it as a flag '' @ [0x2014]
              @ lit '' its emphasis is inline in the text. Sending as-is; this is logged once.'' @ [nl]) (wd_rules a)\<rparr>)"

definition wa_part :: "outbound \<Rightarrow> js \<Rightarrow> wa_outbound" where
  "wa_part out p = \<lparr>wo_to = ch_id (out_channel out), wo_isGroup = (ch_type (out_channel out) = Group), wo_text = p\<rparr>"

definition wa_empty_text :: "string \<Rightarrow> wa_answer outcome" where
  "wa_empty_text m = Returned (WaFail (lit ''empty_text'') (JStr (lit m)))"

text \<open>\<open>None\<close> is a split that rejects its configuration or does not return; there is no such text.\<close>

definition wa_sendMessage ::
    "(wa_outbound \<Rightarrow> 'b \<Rightarrow> wa_send_result outcome \<times> 'b) \<Rightarrow> outbound \<Rightarrow> wa_adapter \<Rightarrow> 'b
       \<Rightarrow> (wa_answer outcome \<times> wa_adapter \<times> 'b) option" where
  "wa_sendMessage send out a b =
     (if out_text out = [] then Some (wa_empty_text ''Empty text rejected.'', a, b)
      else let a1 = wa_warnFormatUnsupported (out_format out) a in
        case splitForWhatsApp (out_text out) of
          Some (Inr parts) \<Rightarrow>
            (if parts = [] then Some (wa_empty_text ''Text reduced to zero parts after splitting.'', a1, b)
             else case send_parts send (map (wa_part out) parts) None b of (r, b1) \<Rightarrow> Some (r, a1, b1))
        | _ \<Rightarrow> None)"

section \<open>Lemmas\<close>

text \<open>What the normalizer reads does not depend on the types it has warned of.\<close>

lemma normalized_apart_from_warnings: "fst (normalizeInboundMessages rt e st) = fst (normalizeInboundMessages rt e st')"
proof -
  have one: "fst (normalizeOneMessage rt pn contacts m st) = fst (normalizeOneMessage rt pn contacts m st')" for pn contacts m st st'
    by (simp add: normalizeOneMessage_def split: option.split)
  have msgs: "fst (normalizeMessages rt pn contacts ms st) = fst (normalizeMessages rt pn contacts ms st')" for pn contacts ms st st'
  proof (induction ms arbitrary: st st')
    case (Cons m ms)
    obtain r s1 where a: "normalizeOneMessage rt pn contacts m st = (r, s1)" by fastforce
    obtain s2 where b: "normalizeOneMessage rt pn contacts m st' = (r, s2)" using one [of pn contacts m st st'] a by (metis fst_conv surj_pair)
    show ?case using Cons [of s1 s2] a b by (auto split: option.split prod.split)
  qed simp
  have change: "fst (processChange rt c st) = fst (processChange rt c st')" for c st st'
    using msgs by (simp add: processChange_def split: option.split)
  have each: "fst (each_change f cs st) = fst (each_change f cs st')" if f: "\<And>c st st'. fst (f c st) = fst (f c st')" for f :: "json \<Rightarrow> rules_state \<Rightarrow> cloud_message list option \<times> rules_state" and cs st st'
  proof (induction cs arbitrary: st st')
    case (Cons c cs)
    obtain r s1 where a: "f c st = (r, s1)" by fastforce
    obtain s2 where b: "f c st' = (r, s2)" using f [of c st st'] a by (metis fst_conv surj_pair)
    show ?case using Cons [of s1 s2] a b by (auto split: option.split prod.split)
  qed simp
  have entry: "fst (in_entry (processChange rt) c st) = fst (in_entry (processChange rt) c st')" for c st st'
    using each [OF change] by (simp add: in_entry_def split: option.split)
  show ?thesis using each [OF entry] by (simp add: normalizeInboundMessages_def in_envelope_def split: option.split)
qed

lemma off_fields [simp]:
  "wd_handler (off n a) = wd_handler a" "wd_inboundOff (off n a) = wd_inboundOff a" "wd_next (off n a) = wd_next a"
  "wd_slot (off n a) = (if map_option fst (wd_slot a) = Some n then None else wd_slot a)"
  "wd_statusHandler (off n a) = wd_statusHandler a"
  by (auto simp: off_def split: option.split)

lemma statusOff_fields [simp]:
  "wd_handler (statusOff n a) = wd_handler a" "wd_inboundOff (statusOff n a) = wd_inboundOff a"
  "wd_next (statusOff n a) = wd_next a" "wd_slot (statusOff n a) = wd_slot a"
  by (auto simp: statusOff_def)

text \<open>What the adapter believes of its subscription, and what the backend has.\<close>

definition wired :: "wa_adapter \<Rightarrow> bool" where
  "wired a \<longleftrightarrow> wd_handler a = map_option snd (wd_slot a) \<and> wd_inboundOff a = map_option fst (wd_slot a)"

lemma wired_onInbound: "wired (wa_onInbound h a)"
  by (simp add: wired_def wa_onInbound_def Let_def)

lemma wired_disconnect: "wired (wa_disconnect a)"
  by (simp add: wired_def wa_disconnect_def Let_def)

lemma wired_unsubscribe:
  assumes "wired a" "wd_handler a = Some h \<Longrightarrow> map_option fst (wd_slot a) = Some n"
  shows "wired (wa_unsubscribe n h a)"
  using assms by (auto simp: wired_def wa_unsubscribe_def)

lemma same_bridge: "distinct (map snd offs) \<Longrightarrow> (m, h) \<in> set offs \<Longrightarrow> (n, h) \<in> set offs \<Longrightarrow> m = n"
  by (induction offs) (auto simp: image_iff dest: sym)

lemma run_wired:
  "wa_run a0 offs a \<Longrightarrow> a0 = newWhatsAppAdapter pn opts \<Longrightarrow> distinct (map snd offs) \<Longrightarrow>
     wired a \<and> (\<forall>p. wd_slot a = Some p \<longrightarrow> p \<in> set offs)"
proof (induction rule: wa_run.induct)
  case made
  then show ?case by (simp add: wired_def newWhatsAppAdapter_def)
next
  case (disconnected offs a)
  have "wd_slot (wa_disconnect a) = None" by (simp add: wa_disconnect_def Let_def)
  then show ?case by (simp add: wired_disconnect)
next
  case (subscribed offs a h)
  have "wd_slot (wa_onInbound h a) = Some (wd_next a, h)" by (auto simp: wa_onInbound_def Let_def split: option.split)
  then show ?case by (simp add: wired_onInbound)
next
  case (unsubscribed offs a n h)
  then have ih: "wired a" "\<And>p. wd_slot a = Some p \<Longrightarrow> p \<in> set offs" by auto
  have "map_option fst (wd_slot a) = Some n" if "wd_handler a = Some h"
  proof -
    obtain m where "wd_slot a = Some (m, h)" using ih(1) \<open>wd_handler a = Some h\<close> by (cases "wd_slot a") (auto simp: wired_def)
    with same_bridge [OF unsubscribed.prems(2) ih(2) unsubscribed.hyps(2)] show ?thesis by simp
  qed
  then have "wired (wa_unsubscribe n h a)" by (rule wired_unsubscribe [OF ih(1)])
  moreover have "p \<in> set offs" if "wd_slot (wa_unsubscribe n h a) = Some p" for p
    using that ih(2) by (auto simp: wa_unsubscribe_def split: if_splits)
  ultimately show ?case by blast
next
  case (connected offs a ok)
  then show ?case by (simp add: wired_def wa_connected_def)
next
  case (status_subscribed offs a h)
  then show ?case by (simp add: wired_def wa_onStatusReceipt_def Let_def split: option.split)
next
  case (status_unsubscribed offs a n h)
  then show ?case by (simp add: wired_def wa_unsubscribeStatus_def)
qed

text \<open>The decision of the adapter is the pure one, and leaves what decides alone.\<close>

definition decision :: "wa_adapter \<Rightarrow> wa_inbound \<Rightarrow> whatsapp_event option" where
  "decision a m = fst (wa_decide m a)"

lemma decide_kept:
  assumes "wa_decide m a = (e, a1)"
  shows "e = decision a m" "decision a1 = decision a" "wd_ownPhoneNumberId a1 = wd_ownPhoneNumberId a"
proof -
  show "e = decision a m" using assms by (simp add: decision_def)
  obtain st where "a1 = a\<lparr>wd_rules := st\<rparr>" using assms by (auto simp: wa_decide_def split: prod.splits)
  then show "decision a1 = decision a" "wd_ownPhoneNumberId a1 = wd_ownPhoneNumberId a"
    by (auto simp: decision_def wa_decide_def decide_fst fun_eq_iff split: prod.split)
      (metis decide_fst fst_conv)+
qed

lemma deliverable_decides:
  "list_all (\<lambda>m. wa_backend m \<noteq> CloudBackend) ms \<or> wd_ownPhoneNumberId a \<noteq> None \<Longrightarrow>
     \<exists>a'. deliverable ms a = Inr (List.map_filter (decision a) ms, a')"
proof (induction ms arbitrary: a)
  case (Cons m ms)
  obtain e a1 where e: "wa_decide m a = (e, a1)" by fastforce
  have d: "toDeliverableEvent m a = Inr (e, a1)" using Cons.prems e
    by (auto simp: toDeliverableEvent_def requireOwnPhoneNumberId_def)
  note kept = decide_kept [OF e]
  obtain a2 where "deliverable ms a1 = Inr (List.map_filter (decision a) ms, a2)"
    using Cons.IH [of a1] Cons.prems kept by auto
  then show ?case using d kept(1) by (simp add: List.map_filter_simps split: option.split)
qed (simp add: List.map_filter_simps)

lemma decision_foreign: "wd_ownPhoneNumberId a = Some own \<Longrightarrow> wa_phoneNumberId m \<noteq> Some own \<Longrightarrow> decision a m = None"
  by (auto simp: decision_def wa_decide_def decide_fst split: prod.split dest: arg_cong [where f = fst])

text \<open>What an adapter's bridge makes of a call of the Cloud backend.\<close>

definition handed :: "wa_adapter \<Rightarrow> WhatsAppCloud.delivery \<Rightarrow> whatsapp_event option" where
  "handed a d = (case d of ToInbound n m \<Rightarrow> decision a m | ToStatus n r \<Rightarrow> None)"

lemma handed_receipts: "list_all (own_receipt own rs) ds \<Longrightarrow> List.map_filter (handed a) ds = []"
  by (induction ds) (auto simp: List.map_filter_simps handed_def own_receipt_def split: delivery.splits)

lemma handed_messages:
  "wd_ownPhoneNumberId a = Some own \<Longrightarrow>
     List.map_filter (handed a) (map (ToInbound n) (filter (\<lambda>m. wa_phoneNumberId m = Some own) ms)) =
     List.map_filter (decision a) ms"
  by (induction ms) (auto simp: List.map_filter_simps handed_def decision_foreign split: option.split)

lemma map_filter_append: "List.map_filter f (xs @ ys) = List.map_filter f xs @ List.map_filter f ys"
  by (simp add: List.map_filter_def)

section \<open>Properties\<close>

text \<open>
  C12: the route and the backend agree: for a body \<open>handleWebhookPayload\<close> answers with success,
  \<open>toDeliverableEvents\<close> on an adapter for the same number returns, in order, exactly the events the
  adapter's bridge makes of the calls the backend made.
\<close>
theorem route_and_webhook_agree:
  assumes "handleWebhookPayload rt hmac parse user rawBody header b = (WebhookReturns True, b')"
    and "parse rawBody = Inr envelope"
    and "wd_ownPhoneNumberId a = Some (own_number b)"
  shows "\<exists>events a'. toDeliverableEvents rt envelope a = Some (Inr (events, a')) \<and>
    events = List.map_filter (handed a) (drop (length (cb_trace b)) (cb_trace b'))"
proof -
  have sig: "verifyWebhookSignature hmac rawBody header (cb_appSecret b) = Inr True"
    using assms(1) by (auto simp: handleWebhookPayload_def split: sum.splits bool.splits)
  obtain e where p: "parseWebhookPayload envelope = Some e" "handle_envelope rt user e b = (WebhookReturns True, b')"
    using assms(1,2) sig by (auto simp: handleWebhookPayload_def split: option.splits)
  have "e = envelope" using p(1) by (rule parsed_shape)
  with p(2) have h: "handle_envelope rt user envelope b = (WebhookReturns True, b')" by simp
  let ?evs = "events_for rt (own_number b) (cb_rules b) envelope"
  obtain statuses where t: "cb_trace b' = cb_trace b @ (case cb_inbound b of None \<Rightarrow> [] | Some n \<Rightarrow> map (ToInbound n) ?evs) @ statuses"
    "list_all (own_receipt (own_number b) (receipts_of rt envelope)) statuses" "?evs = [] \<or> cb_inbound b \<noteq> None"
    using handle_envelope_outcome [OF h] by auto
  obtain out st events where n: "normalizeInboundMessages rt envelope (cb_rules b) = (Some out, st)"
    "all_some (map typed_message out) = Some events"
    using h by (auto simp: handle_envelope_def split: prod.splits option.splits)
  obtain st' where n': "normalizeInboundMessages rt envelope (wd_rules a) = (Some out, st')"
    using normalized_apart_from_warnings [of rt envelope "wd_rules a" "cb_rules b"] n(1) by (metis fst_conv surj_pair)
  have evs: "?evs = filter (\<lambda>m. wa_phoneNumberId m = Some (own_number b)) events"
    using n(1) all_some_map [OF n(2)] by (simp add: events_for_def)
  have same: "decision (a\<lparr>wd_rules := st'\<rparr>) = decision a"
    by (auto simp: decision_def wa_decide_def decide_fst fun_eq_iff split: prod.split) (metis decide_fst fst_conv)+
  obtain a' where "deliverable events (a\<lparr>wd_rules := st'\<rparr>) = Inr (List.map_filter (decision a) events, a')"
    using deliverable_decides [of events "a\<lparr>wd_rules := st'\<rparr>"] assms(3) same by auto
  then have "toDeliverableEvents rt envelope a = Some (Inr (List.map_filter (decision a) events, a'))"
    using assms(3) n' n(2) by (simp add: toDeliverableEvents_def requireOwnPhoneNumberId_def)
  moreover have "List.map_filter (decision a) events = List.map_filter (handed a) (drop (length (cb_trace b)) (cb_trace b'))"
    using t(1,3) handed_receipts [OF t(2)] handed_messages [OF assms(3), of _ events] evs
    by (auto simp: map_filter_append List.map_filter_simps split: option.splits)
  ultimately show ?thesis by blast
qed

text \<open>
  In every run of an adapter in which no handler was subscribed twice, what the backend dispatches
  reaches exactly the handler \<open>deliver\<close> would run, with the event decided for it, and nothing when there
  is none: a stale unsubscription, a replaced subscription and a disconnect included.
\<close>
theorem one_live_subscription:
  assumes "wa_run (newWhatsAppAdapter pn opts) offs a" "distinct (map snd offs)"
  shows "fst (bridge_call m a) =
      (case wd_handler a of None \<Rightarrow> None | Some h \<Rightarrow> map_option (Pair h) (decision a m)) \<and>
    (wd_handler a = None \<longleftrightarrow> wd_slot a = None)"
  using run_wired [OF assms(1) refl assms(2)]
  by (auto simp: wired_def bridge_call_def decision_def split: option.split prod.split)

text \<open>
  A handler subscribed twice can be left subscribed for good: the first unsubscription clears the
  adapter's handler and keeps the second bridge, and no unsubscription the adapter gave out takes it off,
  so messages still reach it while \<open>deliver\<close> finds no handler.
\<close>
theorem twice_subscribed_stays:
  "\<exists>offs a m. wa_run (newWhatsAppAdapter None \<lparr>wc_requireMention = None, wc_botPhoneId = None, wc_allowedSenders = None\<rparr>) offs a \<and>
     wd_handler a = None \<and> fst (bridge_call m a) = Some (7, toMessageEvent m) \<and>
     list_all (\<lambda>(n, h). wa_unsubscribe n h a = a) offs"
proof -
  let ?o = "\<lparr>wc_requireMention = None, wc_botPhoneId = None, wc_allowedSenders = None\<rparr>"
  let ?a0 = "newWhatsAppAdapter None ?o"
  let ?a1 = "wa_onInbound 7 ?a0"
  let ?a2 = "wa_onInbound 7 ?a1"
  let ?a3 = "wa_unsubscribe 0 7 ?a2"
  have n: "wd_next ?a0 = 0" "wd_next ?a1 = 1"
    by (simp_all add: newWhatsAppAdapter_def wa_onInbound_def Let_def)
  have "wa_run ?a0 [(0, 7)] ?a1" using wa_run.subscribed [OF wa_run.made, of ?a0 7] n by simp
  then have "wa_run ?a0 [(0, 7), (1, 7)] ?a2" using wa_run.subscribed [of ?a0 "[(0, 7)]" ?a1 7] n by simp
  then have r: "wa_run ?a0 [(0, 7), (1, 7)] ?a3" by (rule wa_run.unsubscribed) simp
  have s: "wd_handler ?a3 = None" "wd_slot ?a3 = Some (1, 7)" "wd_ownPhoneNumberId ?a3 = None"
    "ir_allowedSenders (wd_inbound_rules ?a3) = None"
    by (simp_all add: newWhatsAppAdapter_def wa_onInbound_def wa_unsubscribe_def off_def Let_def)
  let ?m = "\<lparr>wa_wamid = lit ''w'', wa_fromPhone = lit ''1'', wa_phoneNumberId = None, wa_contactName = None,
    wa_conversationType = DM, wa_channelId = lit ''1'', wa_channelJid = None, wa_text = lit ''hi'',
    wa_receivedAt = Finite 0, wa_fromSelf = False, wa_backend = BaileysBackend, wa_raw = JNull\<rparr>"
  have d: "decision ?a3 ?m = Some (toMessageEvent ?m)"
    using decide_fst [of ?m "wd_ownPhoneNumberId ?a3" "wd_inbound_rules ?a3" "wd_rules ?a3"] s(3,4)
    by (auto simp: decision_def wa_decide_def is_refused_def is_unaddressed_def split: prod.split)
  have b: "fst (bridge_call ?m ?a3) = Some (7, toMessageEvent ?m)"
    using s(2) d by (auto simp: bridge_call_def decision_def split: prod.split)
  have "list_all (\<lambda>(n, h). wa_unsubscribe n h ?a3 = ?a3) [(0, 7), (1, 7)]"
    using s(1) by (simp add: wa_unsubscribe_def [of _ _ ?a3])
  with r s(1) b show ?thesis by blast
qed

text \<open>
  A send of a text answers with one verdict over its parts: each fits the platform's 4096 units, the
  backend accepts them in order from the first, and it accepts all of them exactly when the answer is ok;
  the code and message of a refusal are those of the first part refused.
\<close>
theorem whatsapp_sends_a_prefix:
  assumes "wa_sendMessage (accepting send) out a (b, posted) = Some (r, a', (b', posted'))"
  shows "\<exists>parts n. splitForWhatsApp (out_text out) = Some (Inr parts) \<and> list_all (\<lambda>p. length p \<le> 4096) parts \<and>
    posted' = posted @ map (wa_part out) (take n parts) \<and>
    ((\<exists>i. r = Returned (WaOk i)) \<longleftrightarrow> parts \<noteq> [] \<and> length parts \<le> n)"
proof -
  obtain parts where parts: "splitForWhatsApp (out_text out) = Some (Inr parts)" using whatsapp.splits_total by blast
  have fit: "list_all (\<lambda>p. length p \<le> 4096) parts" using whatsapp.splits_fit [OF parts] by (auto simp: list_all_iff)
  show ?thesis
  proof (cases "out_text out = [] \<or> parts = []")
    case True
    then have "posted' = posted" "\<nexists>i. r = Returned (WaOk i)" using assms parts
      by (auto simp: wa_sendMessage_def wa_empty_text_def Let_def split: if_splits)
    with parts fit show ?thesis by (intro exI [of _ parts] exI [of _ 0]) auto
  next
    case False
    then have "send_parts (accepting send) (map (wa_part out) parts) None (b, posted) = (r, (b', posted'))"
      using assms parts by (auto simp: wa_sendMessage_def Let_def split: prod.splits)
    from send_parts_accepted [OF this]
    obtain n where n: "posted' = posted @ map (wa_part out) (take n parts)"
      "(\<exists>i. r = Returned (WaOk i)) \<longleftrightarrow> length parts \<le> n"
    proof (cases "\<exists>i. r = Returned (WaOk i)")
      case True
      then show ?thesis using send_parts_accepted [OF \<open>send_parts _ _ _ _ = _\<close>] that [of "length parts"] by auto
    next
      case False
      then show ?thesis using send_parts_accepted [OF \<open>send_parts _ _ _ _ = _\<close>] that
        by (auto simp: take_map split: outcome.splits wa_answer.splits)
    qed
    with parts fit False show ?thesis by blast
  qed
qed


text \<open>
  With the Cloud backend down, a send is refused and no request leaves, whatever the text, however many
  parts it has.
\<close>
theorem down_backend_sends_nothing:
  assumes "\<not> cb_connected b"
    and "wa_sendMessage (cloud_post rt fetch err) out a (b, requests) = Some (r, a', (b', requests'))"
  shows "requests' = requests \<and> (\<exists>code message. r = Returned (WaFail code message) \<and> code \<in> {lit ''empty_text'', lit ''not_connected''})"
proof -
  obtain parts where parts: "splitForWhatsApp (out_text out) = Some (Inr parts)" using whatsapp.splits_total by blast
  show ?thesis
  proof (cases "out_text out = [] \<or> parts = []")
    case True
    with assms(2) parts show ?thesis by (auto simp: wa_sendMessage_def wa_empty_text_def Let_def simp del: lit_simps split: if_splits)
  next
    case False
    then have "send_parts (cloud_post rt fetch err) (map (wa_part out) parts) None (b, requests) = (r, (b', requests'))"
      using assms(2) parts by (auto simp: wa_sendMessage_def Let_def split: prod.splits)
    with cloud_wire.nothing_leaves_unconnected [of "(b, requests)" "map (wa_part out) parts" rt fetch err None] assms(1) False
    show ?thesis by (auto simp del: lit_simps)
  qed
qed

section \<open>Witnesses\<close>

definition hi_out :: outbound where
  "hi_out = \<lparr>out_channel = \<lparr>ch_id = lit ''55'', ch_type = DM, ch_topicId = None\<rparr>, out_text = lit ''hi'',
     out_format = None, out_replyTo = None\<rparr>"

definition open_adapter :: "js option \<Rightarrow> wa_adapter" where
  "open_adapter own = newWhatsAppAdapter own \<lparr>wc_requireMention = None, wc_botPhoneId = None, wc_allowedSenders = None\<rparr>"

theorem route_and_webhook_agree_witness:
  "\<exists>events a'. toDeliverableEvents plain_runtime own_body (open_adapter (Some (lit ''own''))) = Some (Inr (events, a')) \<and>
     length events = 2"
proof -
  let ?h = "handleWebhookPayload plain_runtime (\<lambda>k b. [10, 255]) Inr one_user own_body
      (Some (SIGNATURE_PREFIX @ lit ''0aff'')) signed_backend"
  let ?a = "open_adapter (Some (lit ''own''))"
  have "fst ?h = WebhookReturns True" by code_simp
  then have r: "?h = (WebhookReturns True, snd ?h)" by (metis prod.collapse)
  have o: "wd_ownPhoneNumberId ?a = Some (own_number signed_backend)"
    by (simp add: open_adapter_def newWhatsAppAdapter_def signed_backend_def newCloudBackend_def own_number_def)
  have n: "length (List.map_filter (handed ?a) (drop (length (cb_trace signed_backend)) (cb_trace (snd ?h)))) = 2" by code_simp
  from route_and_webhook_agree [OF r refl o] n show ?thesis by auto
qed

theorem one_live_subscription_witness:
  "\<forall>m. fst (bridge_call m (wa_unsubscribe 0 3 (wa_onInbound 4 (wa_onInbound 3 (open_adapter None))))) =
     map_option (Pair 4) (decision (wa_unsubscribe 0 3 (wa_onInbound 4 (wa_onInbound 3 (open_adapter None)))) m)"
proof -
  let ?o = "\<lparr>wc_requireMention = None, wc_botPhoneId = None, wc_allowedSenders = None\<rparr>"
  let ?a0 = "newWhatsAppAdapter None ?o"
  let ?a2 = "wa_onInbound 4 (wa_onInbound 3 ?a0)"
  have n: "wd_next ?a0 = 0" "wd_next (wa_onInbound 3 ?a0) = 1"
    by (simp_all add: newWhatsAppAdapter_def wa_onInbound_def Let_def)
  have r1: "wa_run ?a0 [(0, 3)] (wa_onInbound 3 ?a0)" using wa_run.subscribed [OF wa_run.made, of ?a0 3] n by simp
  have "wa_run ?a0 [(0, 3), (1, 4)] ?a2" using wa_run.subscribed [OF r1, of 4] n by simp
  then have r: "wa_run ?a0 [(0, 3), (1, 4)] (wa_unsubscribe 0 3 ?a2)" by (rule wa_run.unsubscribed) simp
  have h: "wd_handler (wa_unsubscribe 0 3 ?a2) = Some 4"
    by (simp add: newWhatsAppAdapter_def wa_onInbound_def wa_unsubscribe_def Let_def)
  show ?thesis using one_live_subscription [OF r] h by (simp add: open_adapter_def)
qed

theorem whatsapp_sends_a_prefix_witness:
  "\<exists>parts n. splitForWhatsApp (lit ''hi'') = Some (Inr parts) \<and> parts \<noteq> [] \<and> length parts \<le> n \<and>
     map (wa_part hi_out) (take n parts) = [wa_part hi_out (lit ''hi'')]"
proof -
  let ?r = "wa_sendMessage (accepting (\<lambda>p b. (Returned (wa_sent None), b))) hi_out (open_adapter None) ((), [])"
  have r: "?r = Some (Returned (WaOk None), open_adapter None, ((), [wa_part hi_out (lit ''hi'')]))" by code_simp
  have t: "out_text hi_out = lit ''hi''" by (simp add: hi_out_def)
  from whatsapp_sends_a_prefix [OF r, unfolded t] obtain parts n where p: "splitForWhatsApp (lit ''hi'') = Some (Inr parts)"
    "[wa_part hi_out (lit ''hi'')] = [] @ map (wa_part hi_out) (take n parts)"
    "(\<exists>i. (Returned (WaOk None) :: wa_answer outcome) = Returned (WaOk i)) \<longleftrightarrow> parts \<noteq> [] \<and> length parts \<le> n"
    by blast
  then show ?thesis by (intro exI [of _ parts] exI [of _ n]) (simp del: lit_simps)
qed

theorem down_backend_sends_nothing_witness:
  "\<not> cb_connected signed_backend \<and>
   snd (snd (snd (the (wa_sendMessage (cloud_post plain_runtime (\<lambda>rs rq. Answer 200 None) (ThrownError [])) hi_out
      (open_adapter None) (signed_backend, []))))) = []"
proof -
  let ?r = "wa_sendMessage (cloud_post plain_runtime (\<lambda>rs rq. Answer 200 None) (ThrownError [])) hi_out
      (open_adapter None) (signed_backend, [])"
  have "?r \<noteq> None" by code_simp
  then obtain r a' b' rs where r: "?r = Some (r, a', (b', rs))" by (metis option.exhaust prod.exhaust)
  have d: "\<not> cb_connected signed_backend" by (simp add: signed_backend_def newCloudBackend_def)
  from down_backend_sends_nothing [OF d r] r d show ?thesis by simp
qed

end
