(* ===== verification/BaileysNormalize.thy ===== *)
theory BaileysNormalize
  imports WhatsAppInbound
begin

text \<open>
  What the Baileys backend makes of an envelope off its socket
  (\<open>gateway-whatsapp/src/backend/baileys/normalize.ts\<close>). An envelope is a value with the shapes JSON has;
  the one thing more the library may put in it is an object with a \<open>toNumber\<close> method, whose answer the
  parameter \<open>toNumber\<close> gives (\<open>None\<close> for an object without the method, or an answer that is no number). In a result
  the outer option is a throw, the inner one the \<open>undefined\<close> of a refusal.
\<close>

definition STATUS_BROADCAST_JID :: js where
  "STATUS_BROADCAST_JID = lit ''status@broadcast''"

definition WRAPPER_KEYS :: "js list" where
  "WRAPPER_KEYS = [lit ''ephemeralMessage'', lit ''viewOnceMessage'', lit ''viewOnceMessageV2'',
     lit ''documentWithCaptionMessage'']"

definition MAX_WRAPPER_DEPTH :: nat where
  "MAX_WRAPPER_DEPTH = 3"

fun asObject :: "json option \<Rightarrow> json option" where
  "asObject (Some (JArr vs)) = Some (JArr vs)"
| "asObject (Some (JObj fs)) = Some (JObj fs)"
| "asObject _ = None"

definition asText :: "json option \<Rightarrow> js option" where
  "asText v = (case string_of v of None \<Rightarrow> None | Some s \<Rightarrow> if s = [] then None else Some s)"

text \<open>\<open>value.key\<close> on what \<open>asObject\<close> answered.\<close>

definition key_of :: "json option \<Rightarrow> string \<Rightarrow> json option" where
  "key_of v k = (case v of None \<Rightarrow> None | Some w \<Rightarrow> member_of w (lit k))"

text \<open>\<open>levels\<close> is how many levels may still be read, one more than \<open>MAX_WRAPPER_DEPTH\<close> at the top.\<close>

fun extract_levels :: "nat \<Rightarrow> json option \<Rightarrow> js option" where
  "extract_levels 0 m = None"
| "extract_levels (Suc levels) m =
     (if m = None then None
      else case asText (key_of m ''conversation'') of
        Some direct \<Rightarrow> Some direct
      | None \<Rightarrow>
          (case asText (key_of (asObject (key_of m ''extendedTextMessage'')) ''text'') of
             Some extended \<Rightarrow> Some extended
           | None \<Rightarrow>
               fold (\<lambda>wrapper found. case found of
                   Some t \<Rightarrow> Some t
                 | None \<Rightarrow> extract_levels levels (asObject (key_of (asObject (member_of (the m) wrapper)) ''message'')))
                 WRAPPER_KEYS None))"

definition extractText :: "json option \<Rightarrow> js option option" where
  "extractText m = (if m = Some JNull then None else Some (extract_levels (Suc MAX_WRAPPER_DEPTH) m))"

fun toSeconds :: "runtime \<Rightarrow> (json \<Rightarrow> number option) \<Rightarrow> json option \<Rightarrow> rat option" where
  "toSeconds rt toNumber (Some (JNum q)) = Some q"
| "toSeconds rt toNumber (Some (JStr s)) = (case rt_number rt s of Finite q \<Rightarrow> Some q | _ \<Rightarrow> None)"
| "toSeconds rt toNumber v =
     (case asObject v of
        None \<Rightarrow> None
      | Some w \<Rightarrow> (case toNumber w of Some (Finite q) \<Rightarrow> Some q | _ \<Rightarrow> None))"

record parties =
  pt_fromPhone :: js
  pt_channelId :: js
  pt_channelJid :: js
  pt_isGroup :: bool

definition resolveParties :: "json \<Rightarrow> js \<Rightarrow> parties option" where
  "resolveParties key remoteJid =
     (let isGroup = suffix (lit ''@g.us'') remoteJid in
      case (if isGroup then asText (member_of key (lit ''participant'')) else Some remoteJid) of
        None \<Rightarrow> None
      | Some senderJid \<Rightarrow>
          let fromPhone = normalizeWhatsAppId senderJid; channelId = normalizeWhatsAppId remoteJid in
          if fromPhone = [] \<or> channelId = [] then None
          else Some \<lparr>pt_fromPhone = fromPhone, pt_channelId = channelId, pt_channelJid = remoteJid, pt_isGroup = isGroup\<rparr>)"

text \<open>The context the backend hands in; both of its sets are always given by it.\<close>

record dispatch_context =
  dc_selfJids :: js_set
  dc_sentWamids :: js_set

datatype bl_verdict = No | Yes | YesFromSelf

definition isDispatchable :: "json \<Rightarrow> js \<Rightarrow> js \<Rightarrow> dispatch_context \<Rightarrow> bl_verdict" where
  "isDispatchable key remoteJid wamid ctx =
     (if remoteJid = STATUS_BROADCAST_JID then No
      else if member_of key (lit ''fromMe'') \<noteq> Some (JBool True) then Yes
      else if dc_selfJids ctx = [] then No
      else if \<not> has (dc_selfJids ctx) (normalizeWhatsAppId remoteJid) then No
      else if has (dc_sentWamids ctx) wamid then No else YesFromSelf)"

definition addressingOf :: "json option \<Rightarrow> (json \<times> js \<times> js) option" where
  "addressingOf envelope =
     (case asObject (key_of envelope ''key'') of
        None \<Rightarrow> None
      | Some key \<Rightarrow>
          (case (asText (member_of key (lit ''remoteJid'')), asText (member_of key (lit ''id''))) of
             (Some remoteJid, Some wamid) \<Rightarrow> Some (key, remoteJid, wamid)
           | _ \<Rightarrow> None))"

definition normalizeBaileysMessage ::
    "runtime \<Rightarrow> (json \<Rightarrow> number option) \<Rightarrow> json \<Rightarrow> dispatch_context \<Rightarrow> wa_inbound option option" where
  "normalizeBaileysMessage rt toNumber raw ctx =
     (let envelope = asObject (Some raw) in
      case addressingOf envelope of
        None \<Rightarrow> Some None
      | Some (key, remoteJid, wamid) \<Rightarrow>
          (case isDispatchable key remoteJid wamid ctx of
             No \<Rightarrow> Some None
           | bl_verdict \<Rightarrow>
               (case extractText (key_of envelope ''message'') of
                  None \<Rightarrow> None
                | Some None \<Rightarrow> Some None
                | Some (Some t) \<Rightarrow>
                    (case resolveParties key remoteJid of
                       None \<Rightarrow> Some None
                     | Some p \<Rightarrow>
                         (case toSeconds rt toNumber (key_of envelope ''messageTimestamp'') of
                            None \<Rightarrow> Some None
                          | Some seconds \<Rightarrow>
                              Some (Some
                                \<lparr>wa_wamid = wamid, wa_fromPhone = pt_fromPhone p, wa_phoneNumberId = None,
                                 wa_contactName = asText (key_of envelope ''pushName''),
                                 wa_conversationType = (if pt_isGroup p then Group else DM),
                                 wa_channelId = pt_channelId p, wa_channelJid = Some (pt_channelJid p), wa_text = t,
                                 wa_receivedAt = rt_thousand rt seconds, wa_fromSelf = (bl_verdict = YesFromSelf),
                                 wa_backend = BaileysBackend, wa_raw = raw\<rparr>))))))"

section \<open>Lemmas\<close>

lemma asText_iff: "asText v = Some s \<longleftrightarrow> v = Some (JStr s) \<and> s \<noteq> []"
  by (auto simp: asText_def string_of_iff split: option.split)

text \<open>What an envelope that is handed on has said.\<close>

lemma normalize_accepts:
  assumes "normalizeBaileysMessage rt toNumber raw ctx = Some (Some ev)"
  shows "\<exists>key remoteJid. asObject (key_of (asObject (Some raw)) ''key'') = Some key \<and>
    member_of key (lit ''remoteJid'') = Some (JStr remoteJid) \<and> remoteJid \<noteq> STATUS_BROADCAST_JID \<and>
    member_of key (lit ''id'') = Some (JStr (wa_wamid ev)) \<and> wa_wamid ev \<noteq> [] \<and>
    wa_channelJid ev = Some remoteJid \<and> wa_channelId ev = normalizeWhatsAppId remoteJid \<and>
    (wa_conversationType ev = Group \<longleftrightarrow> suffix (lit ''@g.us'') remoteJid) \<and>
    (if suffix (lit ''@g.us'') remoteJid
     then \<exists>p. member_of key (lit ''participant'') = Some (JStr p) \<and> wa_fromPhone ev = normalizeWhatsAppId p
     else wa_fromPhone ev = normalizeWhatsAppId remoteJid) \<and> wa_fromPhone ev \<noteq> [] \<and> wa_channelId ev \<noteq> [] \<and>
    (if member_of key (lit ''fromMe'') = Some (JBool True)
     then wa_fromSelf ev \<and> has (dc_selfJids ctx) (wa_channelId ev) \<and> \<not> has (dc_sentWamids ctx) (wa_wamid ev)
     else \<not> wa_fromSelf ev)"
proof -
  obtain key remoteJid wamid where a: "addressingOf (asObject (Some raw)) = Some (key, remoteJid, wamid)"
    using assms by (auto simp: normalizeBaileysMessage_def Let_def split: option.splits)
  then have k: "asObject (key_of (asObject (Some raw)) ''key'') = Some key"
    "member_of key (lit ''remoteJid'') = Some (JStr remoteJid)" "member_of key (lit ''id'') = Some (JStr wamid)" "wamid \<noteq> []"
    by (auto simp: addressingOf_def asText_iff simp del: lit_simps asObject.simps split: option.splits)
  obtain v where v: "isDispatchable key remoteJid wamid ctx = v" "v \<noteq> No"
    using assms a by (auto simp: normalizeBaileysMessage_def Let_def split: bl_verdict.splits)
  obtain p where p: "resolveParties key remoteJid = Some p" "wa_wamid ev = wamid" "wa_fromPhone ev = pt_fromPhone p"
    "wa_channelJid ev = Some (pt_channelJid p)" "wa_channelId ev = pt_channelId p"
    "wa_conversationType ev = (if pt_isGroup p then Group else DM)" "wa_fromSelf ev = (v = YesFromSelf)"
    using assms a v by (auto simp: normalizeBaileysMessage_def Let_def split: bl_verdict.splits option.splits)
  have q: "pt_channelJid p = remoteJid" "pt_channelId p = normalizeWhatsAppId remoteJid"
    "pt_isGroup p = suffix (lit ''@g.us'') remoteJid" "pt_fromPhone p \<noteq> []" "pt_channelId p \<noteq> []"
    "if suffix (lit ''@g.us'') remoteJid
     then \<exists>s. member_of key (lit ''participant'') = Some (JStr s) \<and> pt_fromPhone p = normalizeWhatsAppId s
     else pt_fromPhone p = normalizeWhatsAppId remoteJid"
    using p(1) by (auto simp: resolveParties_def Let_def asText_iff simp del: lit_simps split: option.splits if_splits)
  have d: "remoteJid \<noteq> STATUS_BROADCAST_JID"
    "if member_of key (lit ''fromMe'') = Some (JBool True)
     then v = YesFromSelf \<and> has (dc_selfJids ctx) (normalizeWhatsAppId remoteJid) \<and> \<not> has (dc_sentWamids ctx) wamid
     else v \<noteq> YesFromSelf"
    using v by (auto simp: isDispatchable_def simp del: lit_simps split: if_splits)
  show ?thesis using k p q d by (intro exI [of _ key] exI [of _ remoteJid]) (simp del: lit_simps asObject.simps)
qed

text \<open>A message inside wrappers, the outermost first.\<close>

fun wrap :: "js list \<Rightarrow> json \<Rightarrow> json" where
  "wrap [] m = m"
| "wrap (k # ks) m = JObj [(k, JObj [(lit ''message'', wrap ks m)])]"

definition bare_text :: "js \<Rightarrow> json" where
  "bare_text t = JObj [(lit ''conversation'', JStr t)]"

lemma wrapper_keys_apart:
  "distinct (lit ''conversation'' # lit ''extendedTextMessage'' # WRAPPER_KEYS)" by code_simp

lemma wrap_object: "asObject (Some (wrap ks (bare_text t))) = Some (wrap ks (bare_text t))"
  by (cases ks) (simp_all add: bare_text_def)

lemma extract_wrapped:
  "set ks \<subseteq> set WRAPPER_KEYS \<Longrightarrow> t \<noteq> [] \<Longrightarrow>
     extract_levels levels (Some (wrap ks (bare_text t))) = (if length ks < levels then Some t else None)"
proof (induction ks arbitrary: levels)
  case Nil
  then show ?case by (cases levels) (simp_all add: bare_text_def key_of_def asText_def)
next
  case (Cons k ks)
  show ?case
  proof (cases levels)
    case (Suc n)
    let ?m = "wrap (k # ks) (bare_text t)"
    have inner: "asObject (key_of (asObject (member_of ?m w)) ''message'') = (if w = k then Some (wrap ks (bare_text t)) else None)" for w
      using wrap_object by (simp add: key_of_def)
    have none: "extract_levels n None = None" by (cases n) auto
    have off: "lit ''conversation'' \<noteq> k" "lit ''extendedTextMessage'' \<noteq> k"
      using Cons.prems(1) wrapper_keys_apart by auto
    have found: "fold (\<lambda>w found. case found of Some t \<Rightarrow> Some t
        | None \<Rightarrow> extract_levels n (asObject (key_of (asObject (member_of ?m w)) ''message''))) ws None =
      (if k \<in> set ws then extract_levels n (Some (wrap ks (bare_text t))) else None)" for ws
    proof (induction ws)
      case (Cons w ws)
      have keep: "fold (\<lambda>w found. case found of Some t \<Rightarrow> Some t
        | None \<Rightarrow> extract_levels n (asObject (key_of (asObject (member_of ?m w)) ''message''))) ws (Some x) = Some x" for x :: js
        by (induction ws) auto
      show ?case using Cons.IH keep unfolding fold.simps comp_apply inner
        by (cases "extract_levels n (Some (wrap ks (bare_text t)))") (auto simp: none)
    qed simp
    have none1: "asText (key_of (Some ?m) ''conversation'') = None"
      "asText (key_of (asObject (key_of (Some ?m) ''extendedTextMessage'')) ''text'') = None"
      using off by (simp_all add: key_of_def asText_def del: lit_simps)
    have "k \<in> set WRAPPER_KEYS" using Cons.prems(1) by simp
    then have "extract_levels (Suc n) (Some ?m) = extract_levels n (Some (wrap ks (bare_text t)))"
      using found [of WRAPPER_KEYS] none1 by (simp del: lit_simps wrap.simps)
    then show ?thesis using Cons.IH [of n] Cons.prems Suc by simp
  qed simp
qed

section \<open>Properties\<close>

text \<open>
  Nothing reaches a handler that this account sent, except a note in its own chat whose id this backend
  did not send: a message marked as the account's own is handed on only marked as such, in a chat that is
  one of its own numbers, with an id not among those sent; the status feed never is; and a message handed on
  has an identified sender, in a group the participant and not the group.
\<close>
theorem only_others_and_self_notes:
  assumes "normalizeBaileysMessage rt toNumber raw ctx = Some (Some ev)"
    and "asObject (key_of (asObject (Some raw)) ''key'') = Some key"
  shows "wa_channelJid ev \<noteq> Some STATUS_BROADCAST_JID \<and>
    (member_of key (lit ''fromMe'') = Some (JBool True) \<longleftrightarrow> wa_fromSelf ev) \<and>
    (wa_fromSelf ev \<longrightarrow> has (dc_selfJids ctx) (wa_channelId ev) \<and> \<not> has (dc_sentWamids ctx) (wa_wamid ev)) \<and>
    wa_fromPhone ev \<noteq> [] \<and> list_all is_digit (wa_fromPhone ev) \<and>
    (wa_conversationType ev = Group \<longrightarrow>
      (\<exists>p. member_of key (lit ''participant'') = Some (JStr p) \<and> wa_fromPhone ev = normalizeWhatsAppId p))"
proof -
  obtain remoteJid where r: "remoteJid \<noteq> STATUS_BROADCAST_JID" "wa_channelJid ev = Some remoteJid"
    "wa_conversationType ev = Group \<longleftrightarrow> suffix (lit ''@g.us'') remoteJid" "wa_fromPhone ev \<noteq> []"
    "if suffix (lit ''@g.us'') remoteJid
     then \<exists>p. member_of key (lit ''participant'') = Some (JStr p) \<and> wa_fromPhone ev = normalizeWhatsAppId p
     else wa_fromPhone ev = normalizeWhatsAppId remoteJid"
    "if member_of key (lit ''fromMe'') = Some (JBool True)
     then wa_fromSelf ev \<and> has (dc_selfJids ctx) (wa_channelId ev) \<and> \<not> has (dc_sentWamids ctx) (wa_wamid ev)
     else \<not> wa_fromSelf ev"
    using normalize_accepts [OF assms(1)] assms(2) by (auto simp del: lit_simps asObject.simps)
  have "list_all is_digit (wa_fromPhone ev)" using r(5) normalize_digits by (auto split: if_splits)
  then show ?thesis using r by (auto simp del: lit_simps split: if_splits)
qed

definition note_envelope :: "js \<Rightarrow> json" where
  "note_envelope wamid = JObj
     [(lit ''key'', JObj [(lit ''remoteJid'', JStr (lit ''55@lid'')), (lit ''id'', JStr wamid), (lit ''fromMe'', JBool True)]),
      (lit ''message'', bare_text (lit ''hi'')), (lit ''messageTimestamp'', JNum 1)]"

definition exact_runtime :: runtime where
  "exact_runtime = \<lparr>rt_number = \<lambda>s. NaN, rt_text = \<lambda>q. [], rt_thousand = \<lambda>q. Finite (q * 1000), rt_now = 0\<rparr>"

definition self_context :: "js list \<Rightarrow> dispatch_context" where
  "self_context sent = \<lparr>dc_selfJids = set_of [lit ''55''], dc_sentWamids = set_of sent\<rparr>"

theorem only_others_and_self_notes_witness:
  "\<exists>ev. normalizeBaileysMessage exact_runtime (\<lambda>v. None) (note_envelope (lit ''w'')) (self_context [lit ''v'']) = Some (Some ev) \<and>
     wa_fromSelf ev \<and> \<not> has (set_of [lit ''v'']) (wa_wamid ev)"
proof -
  let ?n = "normalizeBaileysMessage exact_runtime (\<lambda>v. None) (note_envelope (lit ''w'')) (self_context [lit ''v''])"
  let ?key = "JObj [(lit ''remoteJid'', JStr (lit ''55@lid'')), (lit ''id'', JStr (lit ''w'')), (lit ''fromMe'', JBool True)]"
  have "?n \<noteq> None" "the ?n \<noteq> None" by code_simp+
  then obtain ev where e: "?n = Some (Some ev)" by (metis option.collapse)
  have k: "asObject (key_of (asObject (Some (note_envelope (lit ''w'')))) ''key'') = Some ?key" by code_simp
  have m: "member_of ?key (lit ''fromMe'') = Some (JBool True)" by code_simp
  have c: "dc_sentWamids (self_context [lit ''v'']) = set_of [lit ''v'']" by (simp add: self_context_def)
  from only_others_and_self_notes [OF e k] have "wa_fromSelf ev" "\<not> has (set_of [lit ''v'']) (wa_wamid ev)"
    unfolding m c by blast+
  with e show ?thesis by blast
qed

text \<open>
  A text is read through up to three wrappers, of any of the four kinds and in any order, and under more
  the message is refused: no nesting makes the reading run on.
\<close>
theorem wrapped_text_is_read:
  assumes "set ks \<subseteq> set WRAPPER_KEYS" "t \<noteq> []"
  shows "extractText (Some (wrap ks (bare_text t))) = Some (if length ks \<le> MAX_WRAPPER_DEPTH then Some t else None)"
proof -
  have "wrap ks (bare_text t) \<noteq> JNull" by (cases ks) (simp_all add: bare_text_def)
  then show ?thesis using extract_wrapped [OF assms, of "Suc MAX_WRAPPER_DEPTH"]
    by (simp add: extractText_def less_Suc_eq_le)
qed

theorem wrapped_text_is_read_witness:
  "extractText (Some (wrap [lit ''viewOnceMessage'', lit ''ephemeralMessage''] (bare_text (lit ''hi'')))) = Some (Some (lit ''hi'')) \<and>
   extractText (Some (wrap [lit ''viewOnceMessage'', lit ''viewOnceMessage'', lit ''viewOnceMessage'', lit ''viewOnceMessage'']
     (bare_text (lit ''hi'')))) = Some None"
proof -
  have k: "set [lit ''viewOnceMessage'', lit ''ephemeralMessage''] \<subseteq> set WRAPPER_KEYS"
    "set [lit ''viewOnceMessage'', lit ''viewOnceMessage'', lit ''viewOnceMessage'', lit ''viewOnceMessage''] \<subseteq> set WRAPPER_KEYS"
    by (simp_all add: WRAPPER_KEYS_def del: lit_simps)
  have t: "lit ''hi'' \<noteq> []" by simp
  show ?thesis using wrapped_text_is_read [OF k(1) t] wrapped_text_is_read [OF k(2) t]
    by (simp add: MAX_WRAPPER_DEPTH_def del: lit_simps)
qed

text \<open>
  An envelope whose \<open>message\<close> is \<open>null\<close> makes the normalizer throw, although it is written to refuse
  whatever it cannot read: the one value its reading of the message does not check for.
\<close>
theorem null_message_throws:
  "\<exists>raw. normalizeBaileysMessage rt toNumber raw ctx = None \<and>
     key_of (asObject (Some raw)) ''message'' = Some JNull"
proof -
  let ?raw = "JObj [(lit ''key'', JObj [(lit ''remoteJid'', JStr (lit ''55'')), (lit ''id'', JStr (lit ''w''))]), (lit ''message'', JNull)]"
  have "addressingOf (asObject (Some ?raw)) = Some (JObj [(lit ''remoteJid'', JStr (lit ''55'')), (lit ''id'', JStr (lit ''w''))], lit ''55'', lit ''w'')"
    by code_simp
  moreover have "isDispatchable (JObj [(lit ''remoteJid'', JStr (lit ''55'')), (lit ''id'', JStr (lit ''w''))]) (lit ''55'') (lit ''w'') ctx = Yes"
    by (simp add: isDispatchable_def STATUS_BROADCAST_JID_def)
  moreover have "key_of (asObject (Some ?raw)) ''message'' = Some JNull" by code_simp
  ultimately show ?thesis by (intro exI [of _ ?raw]) (simp add: normalizeBaileysMessage_def extractText_def del: lit_simps asObject.simps)
qed

end
