(* ===== verification/BaileysBackend.thy ===== *)
theory BaileysBackend
  imports WhatsAppAdapter BaileysNormalize
begin

text \<open>
  The Baileys backend of WhatsApp (\<open>gateway-whatsapp/src/backend/baileys/index.ts\<close>) as a machine over the
  steps between its awaits: attempts to connect with their generations, the sockets they made, the queue of
  sends, the cache of addresses, the ids it sent, the inbound batches. A socket is named by the generation
  of the attempt that made it, a subscribed handler by a number. What the library does is an event with its
  data; user code called with a message answers the calls it makes on the backend before it first awaits.
  The trace the environment variable turns on is left out.
\<close>

section \<open>State\<close>

definition UNROUTABLE :: js where
  "UNROUTABLE = lit ''__unroutable__''"

definition SENT_WAMID_WINDOW :: nat where
  "SENT_WAMID_WINDOW = 256"

datatype pairing = PairingIdle | AwaitingScan js rat | PairingConnected | PairingClosed

text \<open>The send that runs: its call, its message, the socket it captured, whether its caller was answered, and the
  address it was posted to.\<close>

record flight =
  fl_call :: nat
  fl_message :: wa_outbound
  fl_socket :: nat
  fl_answered :: bool
  fl_jid :: "js option"

record baileys =
  bl_timeoutMs :: nat
  bl_generation :: nat
  bl_connected :: bool
  bl_connecting :: "nat option"
  bl_socket :: "nat option"
  bl_building :: "nat list"
  bl_racing :: "(nat \<times> bool option) list"
  bl_finished :: "nat list"
  bl_made :: "nat list"
  bl_ended :: "nat list"
  bl_lastCloseError :: "thrown option"
  bl_pairing :: pairing
  bl_selfJids :: js_set
  bl_sentWamids :: js_set
  bl_jidCache :: "(js, js) jsmap"
  bl_inboundHandler :: "nat option"
  bl_statusHandler :: "nat option"
  bl_queue :: "(nat \<times> wa_outbound) list"
  bl_calls :: nat
  bl_flight :: "flight option"
  bl_answers :: "(nat \<times> wa_send_result) list"
  bl_posted :: "(nat \<times> nat \<times> js \<times> js) list"
  bl_handed :: "(nat \<times> wa_inbound) list"
  bl_log :: "js list"

definition newBaileys :: "nat \<Rightarrow> baileys" where
  "newBaileys timeoutMs =
     \<lparr>bl_timeoutMs = timeoutMs, bl_generation = 0, bl_connected = False, bl_connecting = None, bl_socket = None,
      bl_building = [], bl_racing = [], bl_finished = [], bl_made = [], bl_ended = [], bl_lastCloseError = None,
      bl_pairing = PairingIdle, bl_selfJids = [], bl_sentWamids = [], bl_jidCache = [], bl_inboundHandler = None,
      bl_statusHandler = None, bl_queue = [], bl_calls = 0, bl_flight = None, bl_answers = [], bl_posted = [],
      bl_handed = [], bl_log = []\<rparr>"

definition bl_say :: "js \<Rightarrow> baileys \<Rightarrow> baileys" where
  "bl_say line b = b\<lparr>bl_log := bl_log b @ [line]\<rparr>"

section \<open>Connecting\<close>

definition endQuietly :: "nat \<Rightarrow> baileys \<Rightarrow> baileys" where
  "endQuietly g b = b\<lparr>bl_ended := bl_ended b @ [g]\<rparr>"

text \<open>\<open>connect\<close>: \<open>None\<close> when it answers \<open>true\<close> at once, else the attempt whose promise it hands back.\<close>

definition bl_connect :: "baileys \<Rightarrow> nat option \<times> baileys" where
  "bl_connect b =
     (if bl_connected b then (None, b)
      else case bl_connecting b of
        Some g \<Rightarrow> (Some g, b)
      | None \<Rightarrow>
          let g = Suc (bl_generation b) in
          (Some g, b\<lparr>bl_generation := g, bl_building := bl_building b @ [g], bl_connecting := Some g\<rparr>))"

text \<open>The factory answered: a retired attempt ends the socket, the current one starts waiting for it to open.\<close>

definition bl_built :: "nat \<Rightarrow> baileys \<Rightarrow> baileys" where
  "bl_built g b =
     (if g \<notin> set (bl_building b) then b
      else let b1 = b\<lparr>bl_building := removeAll g (bl_building b), bl_made := bl_made b @ [g]\<rparr> in
        if bl_generation b \<noteq> g then (endQuietly g b1)\<lparr>bl_finished := g # bl_finished b\<rparr>
        else b1\<lparr>bl_racing := bl_racing b @ [(g, None)]\<rparr>)"

definition bl_build_failed :: "nat \<Rightarrow> baileys \<Rightarrow> baileys" where
  "bl_build_failed g b =
     (if g \<notin> set (bl_building b) then b
      else b\<lparr>bl_building := removeAll g (bl_building b), bl_finished := g # bl_finished b\<rparr>)"

text \<open>\<open>settle(ok)\<close>: a promise keeps its first value.\<close>

definition bl_settle :: "nat \<Rightarrow> bool \<Rightarrow> baileys \<Rightarrow> baileys" where
  "bl_settle g ok b =
     b\<lparr>bl_racing := map (\<lambda>(h, r). (h, if h = g \<and> r = None then Some ok else r)) (bl_racing b)\<rparr>"

definition bl_opened :: "nat \<Rightarrow> baileys \<Rightarrow> baileys" where
  "bl_opened g b =
     (if g \<in> set (bl_made b) \<and> bl_generation b = g then bl_settle g True (b\<lparr>bl_pairing := PairingConnected\<rparr>) else b)"

definition bl_closed :: "nat \<Rightarrow> thrown option \<Rightarrow> baileys \<Rightarrow> baileys" where
  "bl_closed g err b =
     (if g \<in> set (bl_made b) \<and> bl_generation b = g
      then bl_settle g False (endQuietly g (b\<lparr>bl_lastCloseError := err, bl_connected := False, bl_pairing := PairingClosed,
             bl_socket := (if bl_socket b = Some g then None else bl_socket b)\<rparr>))
      else b)"

definition reportConnectFailure :: "baileys \<Rightarrow> baileys" where
  "reportConnectFailure b =
     bl_say (lit ''[whatsapp-baileys] connect failed: ''
       @ (case bl_lastCloseError b of
            None \<Rightarrow> lit ''no 'open' within '' @ dec (bl_timeoutMs b) @ lit ''ms''
          | Some err \<Rightarrow> text_of err) @ [nl]) b"

text \<open>The ids the socket says it logged in under; \<open>None\<close> is one that is no string.\<close>

definition learnSelfJids :: "js option \<times> js option \<Rightarrow> js_set" where
  "learnSelfJids user =
     set_of (filter (\<lambda>i. i \<noteq> []) (map normalizeWhatsAppId
       (filter (\<lambda>i. i \<noteq> []) (map the (filter (\<lambda>i. i \<noteq> None) [fst user, snd user])))))"

text \<open>The rest of \<open>openSocket\<close>, once the race it awaits has settled.\<close>

definition bl_resume :: "nat \<Rightarrow> js option \<times> js option \<Rightarrow> baileys \<Rightarrow> baileys" where
  "bl_resume g user b =
     (case map_of (bl_racing b) g of
        Some (Some openedOk) \<Rightarrow>
          let b1 = b\<lparr>bl_racing := filter (\<lambda>p. fst p \<noteq> g) (bl_racing b), bl_finished := g # bl_finished b\<rparr> in
          if bl_generation b \<noteq> g then endQuietly g b1
          else if \<not> openedOk
          then (endQuietly g ((reportConnectFailure b1)\<lparr>bl_generation := Suc (bl_generation b)\<rparr>))
                 \<lparr>bl_socket := None, bl_connected := False\<rparr>
          else (case bl_socket b of Some s \<Rightarrow> if s \<noteq> g then endQuietly s b1 else b1 | None \<Rightarrow> b1)
                 \<lparr>bl_socket := Some g, bl_selfJids := learnSelfJids user, bl_connected := True\<rparr>
      | _ \<Rightarrow> b)"

text \<open>The \<open>finally\<close> of \<open>connect\<close>, after its attempt ended.\<close>

definition bl_finally :: "nat \<Rightarrow> baileys \<Rightarrow> baileys" where
  "bl_finally g b =
     (if g \<in> set (bl_finished b) \<and> bl_connecting b = Some g then b\<lparr>bl_connecting := None\<rparr> else b)"

definition bl_disconnect :: "baileys \<Rightarrow> baileys" where
  "bl_disconnect b =
     (let b1 = b\<lparr>bl_generation := Suc (bl_generation b), bl_connected := False, bl_connecting := None,
                 bl_racing := map (\<lambda>(h, r). (h, if r = None then Some False else r)) (bl_racing b),
                 bl_socket := None, bl_inboundHandler := None, bl_statusHandler := None\<rparr>
      in case bl_socket b of None \<Rightarrow> b1 | Some s \<Rightarrow> endQuietly s b1)"

section \<open>Sending\<close>

fun forget_oldest :: "js_set \<Rightarrow> js_set" where
  "forget_oldest ids = (if SENT_WAMID_WINDOW < length ids then forget_oldest (tl ids) else ids)"

declare forget_oldest.simps [simp del]

definition rememberSent :: "js \<Rightarrow> baileys \<Rightarrow> baileys" where
  "rememberSent wamid b = b\<lparr>bl_sentWamids := forget_oldest (jm_set wamid () (bl_sentWamids b))\<rparr>"

text \<open>What \<open>onWhatsApp\<close> is and answers: no such method, a rejection, or the first entry of its answer, with its
  \<open>exists === true\<close> and its id.\<close>

datatype lookup = NoLookup | LookupRejects | LookupAnswers "(bool \<times> js option) option"

definition resolveJid :: "lookup \<Rightarrow> wa_outbound \<Rightarrow> (js, js) jsmap \<Rightarrow> js option \<times> (js, js) jsmap" where
  "resolveJid look m cache =
     (let to = wo_to m in
      if includes_str to (lit ''@'') then (Some to, cache)
      else if wo_isGroup m then (Some (to @ lit ''@g.us''), cache)
      else if look = NoLookup then (Some (to @ lit ''@s.whatsapp.net''), cache)
      else case jm_get cache to of
        Some cached \<Rightarrow> (if cached = UNROUTABLE then None else Some cached, cache)
      | None \<Rightarrow>
          (case look of
             LookupAnswers (Some (True, Some jid)) \<Rightarrow>
               if jid = [] then (None, jm_set to UNROUTABLE cache) else (Some jid, jm_set to jid cache)
           | LookupAnswers _ \<Rightarrow> (None, jm_set to UNROUTABLE cache)
           | _ \<Rightarrow> (Some (to @ lit ''@s.whatsapp.net''), cache)))"

definition answer :: "nat \<Rightarrow> wa_send_result \<Rightarrow> baileys \<Rightarrow> baileys" where
  "answer call r b = b\<lparr>bl_answers := bl_answers b @ [(call, r)]\<rparr>"

definition bl_refused :: "string \<Rightarrow> js \<Rightarrow> wa_send_result" where
  "bl_refused code message = wa_refused (lit code) (JStr message)"

text \<open>\<open>send\<close> puts the call on the queue; \<open>bl_start\<close> is \<open>sendNow\<close>, run when the send before has settled.\<close>

definition bl_send :: "wa_outbound \<Rightarrow> baileys \<Rightarrow> baileys" where
  "bl_send m b = b\<lparr>bl_queue := bl_queue b @ [(bl_calls b, m)], bl_calls := Suc (bl_calls b)\<rparr>"

definition sendNow :: "nat \<Rightarrow> wa_outbound \<Rightarrow> baileys \<Rightarrow> baileys" where
  "sendNow call m b =
     (case bl_socket b of
        Some s \<Rightarrow>
          if bl_connected b
          then b\<lparr>bl_flight := Some \<lparr>fl_call = call, fl_message = m, fl_socket = s, fl_answered = False, fl_jid = None\<rparr>\<rparr>
          else answer call (bl_refused ''not_connected'' (lit ''Baileys backend is not connected.'')) b
      | None \<Rightarrow> answer call (bl_refused ''not_connected'' (lit ''Baileys backend is not connected.'')) b)"

definition bl_start :: "baileys \<Rightarrow> baileys" where
  "bl_start b =
     (case (bl_flight b, bl_queue b) of
        (None, (call, m) # queue) \<Rightarrow> sendNow call m (b\<lparr>bl_queue := queue\<rparr>)
      | _ \<Rightarrow> b)"

text \<open>The end of what \<open>sendNow\<close> set going; its caller hears of it only when the timeout did not answer first.\<close>

definition landed :: "flight \<Rightarrow> wa_send_result \<Rightarrow> baileys \<Rightarrow> baileys" where
  "landed f r b = (if fl_answered f then b else answer (fl_call f) r b)\<lparr>bl_flight := None\<rparr>"

definition bl_resolved :: "lookup \<Rightarrow> baileys \<Rightarrow> baileys" where
  "bl_resolved look b =
     (case bl_flight b of
        None \<Rightarrow> b
      | Some f \<Rightarrow>
          if fl_jid f \<noteq> None then b
          else (case resolveJid look (fl_message f) (bl_jidCache b) of
              (None, cache) \<Rightarrow>
                landed f (bl_refused ''undeliverable''
                  (lit ''WhatsApp does not route to '' @ quoted (wo_to (fl_message f)) @ lit '' '' @ [0x2014]
                   @ lit '' the number is not registered, or not in the form this account can reach. Nothing was sent.''))
                  (b\<lparr>bl_jidCache := cache\<rparr>)
            | (Some jid, cache) \<Rightarrow>
                b\<lparr>bl_jidCache := cache, bl_posted := bl_posted b @ [(fl_call f, fl_socket f, jid, wo_text (fl_message f))],
                  bl_flight := Some (f\<lparr>fl_jid := Some jid\<rparr>)\<rparr>))"

definition bl_acknowledged :: "js option \<Rightarrow> baileys \<Rightarrow> baileys" where
  "bl_acknowledged wamid b =
     (case bl_flight b of
        None \<Rightarrow> b
      | Some f \<Rightarrow>
          if fl_jid f = None then b
          else (case (fl_answered f, wamid) of
              (False, Some w) \<Rightarrow> rememberSent w (landed f (wa_sent (Some (JStr w))) b)
            | _ \<Rightarrow> landed f (wa_sent None) b))"

definition bl_rejected :: "thrown \<Rightarrow> baileys \<Rightarrow> baileys" where
  "bl_rejected err b =
     (case bl_flight b of
        None \<Rightarrow> b
      | Some f \<Rightarrow> if fl_jid f = None then b else landed f (bl_refused ''server_error'' (text_of err)) b)"

definition bl_timed_out :: "nat \<Rightarrow> baileys \<Rightarrow> baileys" where
  "bl_timed_out sendTimeoutMs b =
     (case bl_flight b of
        None \<Rightarrow> b
      | Some f \<Rightarrow>
          if fl_answered f then b
          else (answer (fl_call f) (bl_refused ''timeout''
                  (lit ''No acknowledgement after '' @ dec sendTimeoutMs @ lit ''ms '' @ [0x2014]
                   @ lit '' delivery is undetermined. Not retried: the message may already have been delivered.'')) b)
               \<lparr>bl_flight := Some (f\<lparr>fl_answered := True\<rparr>)\<rparr>)"

section \<open>Inbound\<close>

definition bl_onInbound :: "nat \<Rightarrow> baileys \<Rightarrow> baileys" where
  "bl_onInbound h b = b\<lparr>bl_inboundHandler := Some h\<rparr>"

definition bl_offInbound :: "nat \<Rightarrow> baileys \<Rightarrow> baileys" where
  "bl_offInbound h b = (if bl_inboundHandler b = Some h then b\<lparr>bl_inboundHandler := None\<rparr> else b)"

definition bl_onStatusReceipt :: "nat \<Rightarrow> baileys \<Rightarrow> baileys" where
  "bl_onStatusReceipt h b = b\<lparr>bl_statusHandler := Some h\<rparr>"

text \<open>What a handler does to the backend before it first awaits.\<close>

datatype bl_op = OpDisconnect | OpOn nat | OpOff nat | OpSend wa_outbound

fun bl_apply :: "baileys \<Rightarrow> bl_op \<Rightarrow> baileys" where
  "bl_apply b OpDisconnect = bl_disconnect b"
| "bl_apply b (OpOn h) = bl_onInbound h b"
| "bl_apply b (OpOff h) = bl_offInbound h b"
| "bl_apply b (OpSend m) = bl_send m b"

type_synonym bl_user = "(nat \<times> wa_inbound) list \<Rightarrow> nat \<Rightarrow> wa_inbound \<Rightarrow> bl_op list"

text \<open>\<open>None\<close> when the normalizer throws, which the listener does not catch.\<close>

definition bl_context :: "baileys \<Rightarrow> dispatch_context" where
  "bl_context b = \<lparr>dc_selfJids = bl_selfJids b, dc_sentWamids = bl_sentWamids b\<rparr>"

definition bl_dispatchInbound ::
    "runtime \<Rightarrow> (json \<Rightarrow> number option) \<Rightarrow> bl_user \<Rightarrow> json \<Rightarrow> baileys \<Rightarrow> bool \<times> baileys" where
  "bl_dispatchInbound rt toNumber user raw b =
     (case bl_inboundHandler b of
        None \<Rightarrow> (True, b)
      | Some h \<Rightarrow>
          (case normalizeBaileysMessage rt toNumber raw (bl_context b) of
             None \<Rightarrow> (False, b)
           | Some None \<Rightarrow> (True, b)
           | Some (Some ev) \<Rightarrow>
               (True, foldl bl_apply (b\<lparr>bl_handed := bl_handed b @ [(h, ev)]\<rparr>) (user (bl_handed b) h ev))))"

fun bl_batch :: "runtime \<Rightarrow> (json \<Rightarrow> number option) \<Rightarrow> bl_user \<Rightarrow> json list \<Rightarrow> baileys \<Rightarrow> baileys" where
  "bl_batch rt toNumber user [] b = b"
| "bl_batch rt toNumber user (raw # raws) b =
     (case bl_dispatchInbound rt toNumber user raw b of
        (True, b1) \<Rightarrow> bl_batch rt toNumber user raws b1
      | (False, b1) \<Rightarrow> b1)"

definition bl_upsert ::
    "runtime \<Rightarrow> (json \<Rightarrow> number option) \<Rightarrow> bl_user \<Rightarrow> nat \<Rightarrow> js option \<Rightarrow> json list \<Rightarrow> baileys \<Rightarrow> baileys" where
  "bl_upsert rt toNumber user g type messages b =
     (if g \<notin> set (bl_made b) \<or> type \<notin> {None, Some (lit ''notify'')} \<or> bl_generation b \<noteq> g then b
      else bl_batch rt toNumber user messages b)"

section \<open>Runs\<close>

datatype bl_event =
    EvConnect | EvBuilt nat | EvBuildFailed nat | EvOpened nat | EvClosed nat "thrown option" | EvConnectTimeout nat
  | EvResume nat "js option \<times> js option" | EvFinally nat | EvDisconnect | EvQr js rat
  | EvSend wa_outbound | EvStart | EvResolved lookup | EvAcknowledged "js option" | EvRejected thrown | EvTimedOut nat
  | EvOnInbound nat | EvOffInbound nat | EvOnStatus nat | EvUpsert nat "js option" "json list" | EvHandlerThrew thrown

fun bl_step :: "runtime \<Rightarrow> (json \<Rightarrow> number option) \<Rightarrow> bl_user \<Rightarrow> baileys \<Rightarrow> bl_event \<Rightarrow> baileys" where
  "bl_step rt tn user b EvConnect = snd (bl_connect b)"
| "bl_step rt tn user b (EvBuilt g) = bl_built g b"
| "bl_step rt tn user b (EvBuildFailed g) = bl_build_failed g b"
| "bl_step rt tn user b (EvOpened g) = bl_opened g b"
| "bl_step rt tn user b (EvClosed g err) = bl_closed g err b"
| "bl_step rt tn user b (EvConnectTimeout g) = bl_settle g False b"
| "bl_step rt tn user b (EvResume g who) = bl_resume g who b"
| "bl_step rt tn user b (EvFinally g) = bl_finally g b"
| "bl_step rt tn user b EvDisconnect = bl_disconnect b"
| "bl_step rt tn user b (EvQr qr now) = b\<lparr>bl_pairing := AwaitingScan qr now\<rparr>"
| "bl_step rt tn user b (EvSend m) = bl_send m b"
| "bl_step rt tn user b EvStart = bl_start b"
| "bl_step rt tn user b (EvResolved look) = bl_resolved look b"
| "bl_step rt tn user b (EvAcknowledged wamid) = bl_acknowledged wamid b"
| "bl_step rt tn user b (EvRejected err) = bl_rejected err b"
| "bl_step rt tn user b (EvTimedOut ms) = bl_timed_out ms b"
| "bl_step rt tn user b (EvOnInbound h) = bl_onInbound h b"
| "bl_step rt tn user b (EvOffInbound h) = bl_offInbound h b"
| "bl_step rt tn user b (EvOnStatus h) = bl_onStatusReceipt h b"
| "bl_step rt tn user b (EvUpsert g type messages) = bl_upsert rt tn user g type messages b"
| "bl_step rt tn user b (EvHandlerThrew err) =
     bl_say (lit ''[whatsapp-baileys] handler threw: '' @ text_of err @ [nl]) b"

definition bl_run :: "runtime \<Rightarrow> (json \<Rightarrow> number option) \<Rightarrow> bl_user \<Rightarrow> baileys \<Rightarrow> bl_event list \<Rightarrow> baileys" where
  "bl_run rt tn user b es = foldl (bl_step rt tn user) b es"

section \<open>The sockets\<close>

text \<open>
  What holds between two steps, over the current generation, whether the backend is connected, the shared
  attempt, the socket held, the attempts whose factory has not answered, the sockets made and ended, the
  attempts in the race to open, those of them not settled, and the attempts that ended.
\<close>

definition sockets_ok ::
    "nat \<Rightarrow> bool \<Rightarrow> nat option \<Rightarrow> nat option \<Rightarrow> nat set \<Rightarrow> nat set \<Rightarrow> nat set \<Rightarrow> nat set \<Rightarrow> nat set \<Rightarrow> nat set \<Rightarrow> bool" where
  "sockets_ok gen up shared held building made ended racers waits finished \<longleftrightarrow>
     (up \<longleftrightarrow> held \<noteq> None) \<and> (\<forall>s. held = Some s \<longrightarrow> s = gen) \<and> made \<subseteq> ended \<union> set_option held \<union> racers \<and>
     (\<forall>g\<in>building \<union> made \<union> finished. g \<le> gen) \<and> racers \<subseteq> made \<and> building \<inter> made = {} \<and> waits \<subseteq> racers \<and>
     waits \<subseteq> set_option shared \<and> finished \<inter> (waits \<union> building) = {} \<and> (gen \<in> building \<longrightarrow> shared = Some gen)"

lemma sockets_bound: "sockets_ok gen up shared held B M E R W F \<Longrightarrow> \<forall>g\<in>B \<union> M \<union> F. g \<le> Suc gen"
  by (auto simp: sockets_ok_def le_SucI)

lemma sockets_new: "sockets_ok gen up shared held B M E R W F \<Longrightarrow> Suc gen \<notin> B \<union> M \<union> F"
  unfolding sockets_ok_def by (meson Suc_n_not_le_n)

lemma sockets_retire:
  assumes "sockets_ok gen up shared held B M E R W F"
  shows "sockets_ok (Suc gen) False None None B M (E \<union> set_option held) R {} F"
  using assms sockets_bound [OF assms] sockets_new [OF assms] unfolding sockets_ok_def by simp blast

lemma sockets_finished:
  assumes "sockets_ok gen up (Some g) held B M E R W F" "g \<in> F"
  shows "sockets_ok gen up None held B M E R W F"
proof -
  have "W = {}" "gen \<notin> B" using assms unfolding sockets_ok_def by auto
  with assms show ?thesis unfolding sockets_ok_def by simp
qed

lemma sockets_adopt:
  assumes "sockets_ok gen up shared held B M E R W F" "g = gen" "g \<in> R"
  shows "sockets_ok gen True shared (Some g) B M E (R - {g}) (W - {g}) (insert g F)"
proof -
  have "set_option held \<subseteq> {g}" "g \<notin> B" "g \<le> gen" using assms unfolding sockets_ok_def by auto
  with assms show ?thesis unfolding sockets_ok_def by simp blast
qed

lemma sockets_start:
  assumes "sockets_ok gen False None held B M E R W F"
  shows "sockets_ok (Suc gen) False (Some (Suc gen)) held (insert (Suc gen) B) M E R W F"
  using assms sockets_bound [OF assms] sockets_new [OF assms] unfolding sockets_ok_def by simp blast

lemma sockets_fail:
  assumes "sockets_ok gen up shared held B M E R W F" "g = gen" "g \<in> R"
  shows "sockets_ok (Suc gen) False shared None B M (insert g E) (R - {g}) (W - {g}) (insert g F)"
  using assms sockets_bound [OF assms(1)] sockets_new [OF assms(1)] unfolding sockets_ok_def by simp blast

definition bl_racers :: "baileys \<Rightarrow> nat set" where
  "bl_racers b = fst ` set (bl_racing b)"

definition bl_waits :: "baileys \<Rightarrow> nat set" where
  "bl_waits b = {g. (g, None) \<in> set (bl_racing b)}"

definition bl_inv :: "baileys \<Rightarrow> bool" where
  "bl_inv b \<longleftrightarrow> sockets_ok (bl_generation b) (bl_connected b) (bl_connecting b) (bl_socket b) (set (bl_building b))
     (set (bl_made b)) (set (bl_ended b)) (bl_racers b) (bl_waits b) (set (bl_finished b))"

lemmas bl_sets = bl_inv_def bl_racers_def bl_waits_def

lemma bl_inv_new: "bl_inv (newBaileys ms)"
  by (simp add: bl_sets newBaileys_def sockets_ok_def)

lemma bl_inv_untouched [simp]:
  "bl_inv (b\<lparr>bl_pairing := p\<rparr>) = bl_inv b" "bl_inv (b\<lparr>bl_lastCloseError := e\<rparr>) = bl_inv b"
  "bl_inv (bl_say line b) = bl_inv b" "bl_inv (answer call r b) = bl_inv b" "bl_inv (rememberSent w b) = bl_inv b"
  "bl_inv (b\<lparr>bl_flight := f\<rparr>) = bl_inv b" "bl_inv (b\<lparr>bl_queue := q\<rparr>) = bl_inv b"
  "bl_inv (b\<lparr>bl_jidCache := c\<rparr>) = bl_inv b" "bl_inv (b\<lparr>bl_jidCache := c, bl_posted := ps\<rparr>) = bl_inv b"
  "bl_inv (b\<lparr>bl_handed := hs\<rparr>) = bl_inv b" "bl_inv (bl_send m b) = bl_inv b"
  "bl_inv (bl_onInbound h b) = bl_inv b" "bl_inv (bl_offInbound h b) = bl_inv b" "bl_inv (bl_onStatusReceipt h b) = bl_inv b"
  by (simp_all add: bl_sets bl_say_def answer_def rememberSent_def bl_send_def bl_onInbound_def
      bl_offInbound_def bl_onStatusReceipt_def)

lemma bl_inv_landed [simp]: "bl_inv (landed f r b) = bl_inv b"
  by (simp add: landed_def)

lemma bl_inv_sending [simp]:
  "bl_inv (bl_start b) = bl_inv b" "bl_inv (bl_resolved look b) = bl_inv b" "bl_inv (bl_acknowledged wamid b) = bl_inv b"
  "bl_inv (bl_rejected err b) = bl_inv b" "bl_inv (bl_timed_out ms b) = bl_inv b"
  by (simp_all add: bl_start_def sendNow_def bl_resolved_def bl_acknowledged_def bl_rejected_def bl_timed_out_def
      split: option.split list.split prod.split bool.split)

lemma bl_inv_disconnect:
  assumes "bl_inv b"
  shows "bl_inv (bl_disconnect b)"
proof -
  let ?b = "bl_disconnect b"
  have r: "bl_racers ?b = bl_racers b" "bl_waits ?b = {}"
    by (auto simp: bl_disconnect_def bl_racers_def bl_waits_def Let_def endQuietly_def image_image case_prod_beta
        split: option.split if_splits)
  have s: "set (bl_ended ?b) = set (bl_ended b) \<union> set_option (bl_socket b)"
    by (auto simp: bl_disconnect_def Let_def endQuietly_def split: option.split)
  have f: "bl_generation ?b = Suc (bl_generation b)" "bl_connected ?b = False" "bl_connecting ?b = None" "bl_socket ?b = None"
    "bl_building ?b = bl_building b" "bl_made ?b = bl_made b" "bl_finished ?b = bl_finished b"
    by (simp_all add: bl_disconnect_def Let_def endQuietly_def split: option.split)
  show ?thesis using assms sockets_retire unfolding bl_inv_def r s f by simp
qed

lemma bl_inv_connect:
  assumes "bl_inv b"
  shows "bl_inv (snd (bl_connect b))"
proof (cases "bl_connected b \<or> bl_connecting b \<noteq> None")
  case True
  then show ?thesis using assms by (auto simp: bl_connect_def split: option.split)
next
  case False
  let ?b = "snd (bl_connect b)" and ?g = "Suc (bl_generation b)"
  have f: "bl_generation ?b = ?g" "bl_connected ?b = bl_connected b" "bl_connecting ?b = Some ?g" "bl_socket ?b = bl_socket b"
    "set (bl_building ?b) = insert ?g (set (bl_building b))" "bl_made ?b = bl_made b" "bl_finished ?b = bl_finished b"
    "bl_ended ?b = bl_ended b" "bl_racers ?b = bl_racers b" "bl_waits ?b = bl_waits b"
    using False by (auto simp: bl_connect_def Let_def bl_racers_def bl_waits_def)
  show ?thesis using assms False sockets_start unfolding bl_inv_def f by simp
qed

lemma bl_inv_built:
  assumes "bl_inv b"
  shows "bl_inv (bl_built g b)"
proof (cases "g \<in> set (bl_building b)")
  case True
  let ?b = "bl_built g b"
  have f: "bl_generation ?b = bl_generation b" "bl_connected ?b = bl_connected b" "bl_connecting ?b = bl_connecting b"
    "bl_socket ?b = bl_socket b" "set (bl_building ?b) = set (bl_building b) - {g}" "set (bl_made ?b) = insert g (set (bl_made b))"
    using True by (auto simp: bl_built_def Let_def endQuietly_def)
  show ?thesis
  proof (cases "bl_generation b = g")
    case current: True
    have r: "bl_finished ?b = bl_finished b" "bl_ended ?b = bl_ended b" "bl_racers ?b = insert g (bl_racers b)"
      "bl_waits ?b = insert g (bl_waits b)"
      using True current by (auto simp: bl_built_def Let_def bl_racers_def bl_waits_def)
    show ?thesis using assms True current unfolding bl_inv_def f r sockets_ok_def by auto
  next
    case False
    have r: "set (bl_finished ?b) = insert g (set (bl_finished b))" "set (bl_ended ?b) = insert g (set (bl_ended b))"
      "bl_racers ?b = bl_racers b" "bl_waits ?b = bl_waits b"
      using True False by (auto simp: bl_built_def Let_def bl_racers_def bl_waits_def endQuietly_def)
    show ?thesis using assms True False unfolding bl_inv_def f r sockets_ok_def by auto
  qed
qed (simp add: bl_built_def assms)

lemma bl_inv_build_failed:
  assumes "bl_inv b"
  shows "bl_inv (bl_build_failed g b)"
proof (cases "g \<in> set (bl_building b)")
  case True
  let ?b = "bl_build_failed g b"
  have f: "bl_generation ?b = bl_generation b" "bl_connected ?b = bl_connected b" "bl_connecting ?b = bl_connecting b"
    "bl_socket ?b = bl_socket b" "set (bl_building ?b) = set (bl_building b) - {g}" "bl_made ?b = bl_made b"
    "set (bl_finished ?b) = insert g (set (bl_finished b))" "bl_ended ?b = bl_ended b" "bl_racers ?b = bl_racers b"
    "bl_waits ?b = bl_waits b"
    using True by (auto simp: bl_build_failed_def bl_racers_def bl_waits_def)
  show ?thesis using assms True unfolding bl_inv_def f sockets_ok_def by auto
qed (simp add: bl_build_failed_def assms)

lemma bl_settle_fields [simp]:
  "bl_connected (bl_settle g ok b) = bl_connected b" "bl_socket (bl_settle g ok b) = bl_socket b"
  "bl_generation (bl_settle g ok b) = bl_generation b" "bl_connecting (bl_settle g ok b) = bl_connecting b"
  "bl_building (bl_settle g ok b) = bl_building b" "bl_made (bl_settle g ok b) = bl_made b" "bl_ended (bl_settle g ok b) = bl_ended b"
  "bl_finished (bl_settle g ok b) = bl_finished b" "bl_racers (bl_settle g ok b) = bl_racers b"
  "bl_waits (bl_settle g ok b) = bl_waits b - {g}"
  by (auto simp: bl_settle_def bl_waits_def bl_racers_def image_image case_prod_beta split: if_splits)
    (force intro: rev_image_eqI)

lemma bl_inv_settle: "bl_inv b \<Longrightarrow> bl_inv (bl_settle g ok b)"
  unfolding bl_inv_def bl_settle_fields sockets_ok_def by blast

lemma bl_inv_opened: "bl_inv b \<Longrightarrow> bl_inv (bl_opened g b)"
  by (simp add: bl_opened_def bl_inv_settle)

lemma bl_inv_closed:
  assumes "bl_inv b"
  shows "bl_inv (bl_closed g err b)"
proof (cases "g \<in> set (bl_made b) \<and> bl_generation b = g")
  case True
  let ?b = "endQuietly g (b\<lparr>bl_lastCloseError := err, bl_connected := False, bl_pairing := PairingClosed,
             bl_socket := (if bl_socket b = Some g then None else bl_socket b)\<rparr>)"
  have held: "bl_socket b \<in> {None, Some g}" using assms True by (auto simp: bl_inv_def sockets_ok_def)
  have f: "bl_generation ?b = bl_generation b" "bl_connected ?b = False" "bl_connecting ?b = bl_connecting b"
    "bl_socket ?b = None" "bl_building ?b = bl_building b" "bl_made ?b = bl_made b"
    "bl_finished ?b = bl_finished b" "set (bl_ended ?b) = insert g (set (bl_ended b))" "bl_racers ?b = bl_racers b"
    "bl_waits ?b = bl_waits b"
    using held by (auto simp: endQuietly_def bl_racers_def bl_waits_def)
  have "bl_inv ?b" using assms held unfolding bl_inv_def f sockets_ok_def by auto
  then show ?thesis using True bl_inv_settle [of ?b g False] by (simp add: bl_closed_def)
qed (auto simp: bl_closed_def assms)

lemma bl_inv_finally: "bl_inv b \<Longrightarrow> bl_inv (bl_finally g b)"
  by (auto simp: bl_sets bl_finally_def intro: sockets_finished)

lemma bl_inv_resume:
  assumes "bl_inv b"
  shows "bl_inv (bl_resume g user b)"
proof (cases "\<exists>ok. map_of (bl_racing b) g = Some (Some ok)")
  case True
  then obtain ok where m: "map_of (bl_racing b) g = Some (Some ok)" by blast
  let ?b = "bl_resume g user b"
  have g: "g \<in> bl_racers b" using map_of_SomeD [OF m] by (force simp: bl_racers_def)
  have w: "g \<notin> set (bl_building b)" "g \<in> set (bl_made b)" "g \<le> bl_generation b"
    using assms g by (auto simp: bl_inv_def sockets_ok_def)
  have f: "bl_connecting ?b = bl_connecting b" "bl_building ?b = bl_building b" "bl_made ?b = bl_made b"
    "set (bl_finished ?b) = insert g (set (bl_finished b))" "bl_racers ?b = bl_racers b - {g}" "bl_waits ?b = bl_waits b - {g}"
    using m by (auto simp: bl_resume_def Let_def endQuietly_def reportConnectFailure_def bl_say_def bl_racers_def bl_waits_def
        split: option.split)
  consider "bl_generation b \<noteq> g" | "bl_generation b = g" "\<not> ok" | "bl_generation b = g" ok by blast
  then show ?thesis
  proof cases
    case 1
    have r: "bl_generation ?b = bl_generation b" "bl_connected ?b = bl_connected b" "bl_socket ?b = bl_socket b"
      "set (bl_ended ?b) = insert g (set (bl_ended b))"
      using 1 m by (auto simp: bl_resume_def Let_def endQuietly_def)
    show ?thesis using assms g w 1 unfolding bl_inv_def f r sockets_ok_def by auto
  next
    case 2
    have r: "bl_generation ?b = Suc (bl_generation b)" "bl_connected ?b = False" "bl_socket ?b = None"
      "set (bl_ended ?b) = insert g (set (bl_ended b))"
      using 2 m by (auto simp: bl_resume_def Let_def endQuietly_def reportConnectFailure_def bl_say_def)
    show ?thesis using assms g 2 sockets_fail unfolding bl_inv_def f r by simp
  next
    case 3
    have held: "bl_socket b \<in> {None, Some g}" using assms 3 by (cases "bl_socket b") (auto simp: bl_inv_def sockets_ok_def)
    have r: "bl_generation ?b = bl_generation b" "bl_connected ?b = True" "bl_socket ?b = Some g" "bl_ended ?b = bl_ended b"
      using 3 m held by (auto simp: bl_resume_def Let_def endQuietly_def)
    show ?thesis using assms g 3 sockets_adopt unfolding bl_inv_def f r by simp
  qed
qed (auto simp: bl_resume_def assms split: option.split)

lemma bl_inv_apply: "bl_inv b \<Longrightarrow> bl_inv (bl_apply b op)"
  by (cases op) (simp_all add: bl_inv_disconnect)

lemma bl_inv_ops: "bl_inv b \<Longrightarrow> bl_inv (foldl bl_apply b ops)"
  by (induction ops arbitrary: b) (simp_all add: bl_inv_apply)

lemma bl_inv_batch: "bl_inv b \<Longrightarrow> bl_inv (bl_batch rt tn user raws b)"
proof (induction raws arbitrary: b)
  case (Cons raw raws)
  obtain ok b1 where d: "bl_dispatchInbound rt tn user raw b = (ok, b1)" by fastforce
  have "bl_inv b1" using d Cons.prems
    by (auto simp: bl_dispatchInbound_def intro!: bl_inv_ops split: option.splits)
  then show ?case using d Cons.IH by (cases ok) auto
qed simp

lemma bl_inv_step: "bl_inv b \<Longrightarrow> bl_inv (bl_step rt tn user b e)"
  by (cases e) (simp_all add: bl_inv_connect bl_inv_built bl_inv_build_failed bl_inv_opened bl_inv_closed bl_inv_settle
      bl_inv_resume bl_inv_finally bl_inv_disconnect bl_upsert_def bl_inv_batch)

lemma bl_inv_run: "bl_inv b \<Longrightarrow> bl_inv (bl_run rt tn user b es)"
  unfolding bl_run_def by (induction es arbitrary: b) (simp_all add: bl_inv_step)

section \<open>After a disconnect\<close>

definition bl_down :: "baileys \<Rightarrow> bool" where
  "bl_down b \<longleftrightarrow> \<not> bl_connected b \<and> bl_socket b = None \<and>
     (\<forall>g\<in>set (bl_building b) \<union> set (bl_made b) \<union> bl_racers b. g < bl_generation b)"

lemma disconnect_fields [simp]:
  "bl_generation (bl_disconnect b) = Suc (bl_generation b)" "\<not> bl_connected (bl_disconnect b)"
  "bl_connecting (bl_disconnect b) = None" "bl_socket (bl_disconnect b) = None" "bl_handed (bl_disconnect b) = bl_handed b"
  "bl_building (bl_disconnect b) = bl_building b" "bl_made (bl_disconnect b) = bl_made b"
  "bl_racers (bl_disconnect b) = bl_racers b" "bl_inboundHandler (bl_disconnect b) = None"
  "bl_answers (bl_disconnect b) = bl_answers b" "bl_flight (bl_disconnect b) = bl_flight b"
  "bl_queue (bl_disconnect b) = bl_queue b" "bl_calls (bl_disconnect b) = bl_calls b" "bl_posted (bl_disconnect b) = bl_posted b"
  "bl_sentWamids (bl_disconnect b) = bl_sentWamids b"
  by (auto simp: bl_disconnect_def Let_def endQuietly_def bl_racers_def image_image case_prod_beta split: option.split)

lemma down_disconnect: "bl_inv b \<Longrightarrow> bl_down (bl_disconnect b)"
  by (auto simp: bl_down_def bl_inv_def sockets_ok_def less_Suc_eq_le)

text \<open>The steps of a send, and what they leave alone.\<close>

lemmas sending_defs = bl_send_def bl_start_def sendNow_def bl_resolved_def landed_def bl_acknowledged_def bl_rejected_def
  bl_timed_out_def answer_def rememberSent_def

lemma sending_lifecycle [simp]:
  "bl_down (bl_send m b) = bl_down b" "bl_down (bl_start b) = bl_down b" "bl_down (bl_resolved look b) = bl_down b"
  "bl_down (bl_acknowledged wamid b) = bl_down b" "bl_down (bl_rejected err b) = bl_down b" "bl_down (bl_timed_out ms b) = bl_down b"
  "bl_handed (bl_send m b) = bl_handed b" "bl_handed (bl_start b) = bl_handed b" "bl_handed (bl_resolved look b) = bl_handed b"
  "bl_handed (bl_acknowledged wamid b) = bl_handed b" "bl_handed (bl_rejected err b) = bl_handed b"
  "bl_handed (bl_timed_out ms b) = bl_handed b"
  "bl_down (bl_onInbound h b) = bl_down b" "bl_down (bl_offInbound h b) = bl_down b" "bl_down (bl_onStatusReceipt h b) = bl_down b"
  "bl_down (bl_say line b) = bl_down b" "bl_down (b\<lparr>bl_pairing := p\<rparr>) = bl_down b"
  "bl_handed (bl_onInbound h b) = bl_handed b" "bl_handed (bl_offInbound h b) = bl_handed b"
  "bl_handed (bl_onStatusReceipt h b) = bl_handed b" "bl_handed (bl_say line b) = bl_handed b"
  by (simp_all add: sending_defs bl_down_def bl_racers_def bl_onInbound_def bl_offInbound_def bl_onStatusReceipt_def bl_say_def split: option.split list.split prod.split bool.split)

lemma down_step:
  assumes "bl_down b" "e \<noteq> EvConnect"
  shows "bl_down (bl_step rt tn user b e) \<and> bl_handed (bl_step rt tn user b e) = bl_handed b"
proof (cases e)
  case (EvBuilt g)
  then show ?thesis using assms by (auto simp: bl_down_def bl_built_def Let_def endQuietly_def bl_racers_def)
next
  case (EvBuildFailed g)
  then show ?thesis using assms by (auto simp: bl_down_def bl_build_failed_def bl_racers_def)
next
  case (EvOpened g)
  then show ?thesis using assms by (auto simp: bl_down_def bl_opened_def)
next
  case (EvClosed g err)
  then show ?thesis using assms by (auto simp: bl_down_def bl_closed_def)
next
  case (EvConnectTimeout g)
  then show ?thesis using assms by (auto simp: bl_down_def) (simp add: bl_settle_def)
next
  case (EvResume g who)
  have "bl_generation b \<noteq> g" if "map_of (bl_racing b) g = Some r" for r
  proof -
    have "g \<in> bl_racers b" using map_of_SomeD [OF that] by (force simp: bl_racers_def)
    then show ?thesis using assms(1) by (auto simp: bl_down_def)
  qed
  then have "bl_resume g who b = b \<or> bl_resume g who b =
      endQuietly g (b\<lparr>bl_racing := filter (\<lambda>p. fst p \<noteq> g) (bl_racing b), bl_finished := g # bl_finished b\<rparr>)"
    by (auto simp: bl_resume_def Let_def split: option.splits)
  then show ?thesis using assms(1) EvResume
    by (elim disjE) (fastforce simp: bl_down_def endQuietly_def bl_racers_def)+
next
  case (EvFinally g)
  then show ?thesis using assms by (auto simp: bl_down_def bl_finally_def bl_racers_def)
next
  case EvDisconnect
  then show ?thesis using assms by (auto simp: bl_down_def intro: less_SucI)
next
  case (EvUpsert g type messages)
  then show ?thesis using assms by (auto simp: bl_down_def bl_upsert_def)
qed (use assms in simp_all)

lemma down_run:
  "bl_down b \<Longrightarrow> EvConnect \<notin> set es \<Longrightarrow>
     bl_down (bl_run rt tn user b es) \<and> bl_handed (bl_run rt tn user b es) = bl_handed b"
  unfolding bl_run_def
proof (induction es arbitrary: b)
  case (Cons e es)
  then have "e \<noteq> EvConnect" "EvConnect \<notin> set es" by auto
  with Cons show ?case using down_step [of b e rt tn user] by simp
qed simp

section \<open>The queue of sends\<close>

definition bl_waiting :: "baileys \<Rightarrow> nat list" where
  "bl_waiting b = (case bl_flight b of Some f \<Rightarrow> if fl_answered f then [] else [fl_call f] | None \<Rightarrow> [])"

definition bl_started :: "baileys \<Rightarrow> nat" where
  "bl_started b = bl_calls b - length (bl_queue b)"

definition queue_ok :: "baileys \<Rightarrow> bool" where
  "queue_ok b \<longleftrightarrow>
     map fst (bl_answers b) @ bl_waiting b @ map fst (bl_queue b) = [0..<bl_calls b] \<and>
     sorted_wrt (<) (map fst (bl_posted b)) \<and>
     (\<forall>c\<in>set (map fst (bl_posted b)). c < (case bl_flight b of
        Some f \<Rightarrow> if fl_jid f = None then fl_call f else Suc (fl_call f) | None \<Rightarrow> bl_started b)) \<and>
     (case bl_flight b of Some f \<Rightarrow> Suc (fl_call f) = bl_started b | None \<Rightarrow> True)"


lemma queue_new: "queue_ok (newBaileys ms)"
  by (simp add: queue_ok_def newBaileys_def bl_waiting_def bl_started_def)

text \<open>What the steps outside a send change is none of its fields.\<close>

definition sending :: "baileys \<Rightarrow> _" where
  "sending b = (bl_answers b, bl_flight b, bl_queue b, bl_calls b, bl_posted b)"

lemma queue_ok_sending: "sending b = sending b' \<Longrightarrow> queue_ok b = queue_ok b'"
  unfolding queue_ok_def sending_def bl_waiting_def bl_started_def by (simp split: option.split)

lemma queue_ok_started: "queue_ok b \<Longrightarrow> length (bl_queue b) \<le> bl_calls b"
  unfolding queue_ok_def by (metis (no_types, lifting) length_append length_map length_upt le_add2 add.assoc diff_zero)

lemma queue_send: "queue_ok b \<Longrightarrow> queue_ok (bl_send m b)"
  using queue_ok_started [of b]
  by (auto simp: queue_ok_def bl_send_def bl_waiting_def bl_started_def Suc_diff_le split: option.split)

lemma queue_start:
  assumes "queue_ok b"
  shows "queue_ok (bl_start b)"
proof (cases "bl_flight b = None \<and> bl_queue b \<noteq> []")
  case True
  then obtain call m q where q: "bl_flight b = None" "bl_queue b = (call, m) # q" by (cases "bl_queue b") auto
  have a: "map fst (bl_answers b) @ call # map fst q = [0..<bl_calls b]" "length q < bl_calls b"
    using assms q queue_ok_started [OF assms] by (auto simp: queue_ok_def bl_waiting_def)
  have "length (bl_answers b) + Suc (length q) = bl_calls b" using arg_cong [OF a(1), of length] by simp
  then have n: "call = bl_calls b - Suc (length q)" "Suc call = bl_calls b - length q"
    using arg_cong [OF a(1), of "\<lambda>xs. xs ! length (bl_answers b)"] a(2) by (auto simp: nth_append)
  show ?thesis
  proof (cases "bl_socket b \<noteq> None \<and> bl_connected b")
    case True
    then show ?thesis using assms q a n
      by (fastforce simp: queue_ok_def bl_start_def sendNow_def bl_waiting_def bl_started_def)
  next
    case False
    then have s: "bl_start b = answer call (bl_refused ''not_connected'' (lit ''Baileys backend is not connected.'')) (b\<lparr>bl_queue := q\<rparr>)"
      using q by (auto simp: bl_start_def sendNow_def split: option.split)
    have "\<forall>c\<in>set (map fst (bl_posted b)). c < Suc call" using assms q n by (auto simp: queue_ok_def bl_started_def)
    then show ?thesis using assms q a n unfolding s
      by (auto simp: queue_ok_def answer_def bl_waiting_def bl_started_def simp del: lit_simps)
  qed
next
  case False
  then have "bl_start b = b" by (auto simp: bl_start_def split: option.split list.split)
  with assms show ?thesis by simp
qed

lemma queue_landed:
  assumes "queue_ok b" "bl_flight b = Some f"
  shows "queue_ok (landed f r b)"
  using assms by (auto simp: queue_ok_def landed_def answer_def bl_waiting_def bl_started_def split: if_splits)

lemma queue_resolved:
  assumes "queue_ok b"
  shows "queue_ok (bl_resolved look b)"
proof (cases "\<exists>f. bl_flight b = Some f \<and> fl_jid f = None")
  case True
  then obtain f where f: "bl_flight b = Some f" "fl_jid f = None" by blast
  obtain jid cache where r: "resolveJid look (fl_message f) (bl_jidCache b) = (jid, cache)" by fastforce
  show ?thesis
  proof (cases jid)
    case None
    have q: "queue_ok (b\<lparr>bl_jidCache := cache\<rparr>)"
      using assms queue_ok_sending [of "b\<lparr>bl_jidCache := cache\<rparr>" b] by (simp add: sending_def)
    show ?thesis using f r None queue_landed [OF q, of f] by (simp add: bl_resolved_def)
  next
    case (Some j)
    then show ?thesis using assms f r
      by (fastforce simp: queue_ok_def bl_resolved_def bl_waiting_def bl_started_def sorted_wrt_append)
  qed
next
  case False
  then have "bl_resolved look b = b" by (auto simp: bl_resolved_def split: option.split)
  with assms show ?thesis by simp
qed

lemma queue_remember: "queue_ok b \<Longrightarrow> queue_ok (rememberSent w b)"
  using queue_ok_sending [of "rememberSent w b" b] by (simp add: sending_def rememberSent_def)

lemma queue_acknowledged: "queue_ok b \<Longrightarrow> queue_ok (bl_acknowledged wamid b)"
  by (auto simp: bl_acknowledged_def intro!: queue_remember queue_landed split: option.split bool.split)

lemma queue_rejected: "queue_ok b \<Longrightarrow> queue_ok (bl_rejected err b)"
  by (auto simp: bl_rejected_def intro!: queue_landed split: option.split)

lemma queue_timed_out:
  assumes "queue_ok b"
  shows "queue_ok (bl_timed_out ms b)"
proof (cases "\<exists>f. bl_flight b = Some f \<and> \<not> fl_answered f")
  case True
  then obtain f where "bl_flight b = Some f" "\<not> fl_answered f" by blast
  then show ?thesis using assms
    by (cases "fl_jid f") (auto simp: queue_ok_def bl_timed_out_def answer_def bl_waiting_def bl_started_def simp del: lit_simps)
next
  case False
  then have "bl_timed_out ms b = b" by (auto simp: bl_timed_out_def split: option.split)
  with assms show ?thesis by simp
qed

lemma sending_kept:
  "sending (snd (bl_connect b)) = sending b" "sending (bl_built g b) = sending b" "sending (bl_build_failed g b) = sending b"
  "sending (bl_opened g b) = sending b" "sending (bl_closed g err b) = sending b" "sending (bl_settle g ok b) = sending b"
  "sending (bl_resume g who b) = sending b" "sending (bl_finally g b) = sending b" "sending (bl_disconnect b) = sending b"
  "sending (b\<lparr>bl_pairing := p\<rparr>) = sending b" "sending (bl_onInbound h b) = sending b" "sending (bl_offInbound h b) = sending b"
  "sending (bl_onStatusReceipt h b) = sending b" "sending (bl_say line b) = sending b" "sending (b\<lparr>bl_handed := hs\<rparr>) = sending b"
  by (auto simp: sending_def bl_connect_def Let_def bl_built_def endQuietly_def bl_build_failed_def bl_opened_def bl_closed_def
      bl_settle_def bl_resume_def reportConnectFailure_def bl_say_def bl_finally_def bl_disconnect_def bl_onInbound_def bl_offInbound_def
      bl_onStatusReceipt_def split: option.split)

lemma queue_kept: "sending b' = sending b \<Longrightarrow> queue_ok b \<Longrightarrow> queue_ok b'"
  using queue_ok_sending by blast

lemma queue_ops: "queue_ok b \<Longrightarrow> queue_ok (foldl bl_apply b ops)"
proof (induction ops arbitrary: b)
  case (Cons op ops)
  have "queue_ok (bl_apply b op)" using Cons.prems
    by (cases op) (auto intro: queue_send queue_kept simp: sending_kept)
  with Cons.IH show ?case by simp
qed simp

lemma queue_batch: "queue_ok b \<Longrightarrow> queue_ok (bl_batch rt tn user raws b)"
proof (induction raws arbitrary: b)
  case (Cons raw raws)
  obtain ok b1 where d: "bl_dispatchInbound rt tn user raw b = (ok, b1)" by fastforce
  have "queue_ok b1" using d Cons.prems
    by (auto simp: bl_dispatchInbound_def sending_kept intro!: queue_ops intro: queue_kept split: option.splits)
  then show ?case using d Cons.IH by (cases ok) auto
qed simp

lemma queue_step: "queue_ok b \<Longrightarrow> queue_ok (bl_step rt tn user b e)"
  by (cases e) (auto simp: sending_kept bl_upsert_def
      intro: queue_send queue_start queue_resolved queue_acknowledged queue_rejected queue_timed_out queue_batch queue_kept)

lemma queue_run: "queue_ok b \<Longrightarrow> queue_ok (bl_run rt tn user b es)"
  unfolding bl_run_def by (induction es arbitrary: b) (simp_all add: queue_step)

section \<open>The ids it sent\<close>

definition is_ack :: "bl_event \<Rightarrow> bool" where
  "is_ack e = (case e of EvAcknowledged w \<Rightarrow> True | _ \<Rightarrow> False)"

text \<open>An id with at most \<open>k\<close> ids remembered after it, in a set within the window.\<close>

definition recent :: "js \<Rightarrow> nat \<Rightarrow> js_set \<Rightarrow> bool" where
  "recent w k ids \<longleftrightarrow> (\<exists>xs ys. map fst ids = xs @ w # ys \<and> length ys \<le> k) \<and> length ids \<le> SENT_WAMID_WINDOW"

lemma forget_small: "length ids \<le> SENT_WAMID_WINDOW \<Longrightarrow> forget_oldest ids = ids"
  by (subst forget_oldest.simps) simp

lemma forget_one: "length ids = Suc SENT_WAMID_WINDOW \<Longrightarrow> forget_oldest ids = tl ids"
  by (subst forget_oldest.simps) (simp add: forget_small)

lemma has_keys: "has ids w \<longleftrightarrow> w \<in> set (map fst ids)"
  by (simp add: has_def jm_get_def map_of_eq_None_iff)

lemma recent_has: "recent w k ids \<Longrightarrow> has ids w"
  unfolding has_keys recent_def by (metis in_set_conv_decomp)

lemma remembered_keys:
  "map fst (jm_set v () ids) = (if v \<in> set (map fst ids) then map fst ids else map fst ids @ [v])"
  by (simp add: jm_set_def jm_keys_update)

lemma remembered_length: "length (jm_set v () ids) \<le> Suc (length ids)"
  using arg_cong [OF remembered_keys [of v ids], of length] by (auto split: if_splits)

lemma sent_window: "length ids \<le> SENT_WAMID_WINDOW \<Longrightarrow> length (forget_oldest (jm_set v () ids)) \<le> SENT_WAMID_WINDOW"
  using remembered_length [of v ids]
  by (cases "length (jm_set v () ids) = Suc SENT_WAMID_WINDOW") (auto simp: forget_one forget_small)

lemma recent_remember:
  assumes "recent w k ids" "Suc k < SENT_WAMID_WINDOW"
  shows "recent w (Suc k) (forget_oldest (jm_set v () ids))"
proof -
  let ?ids = "jm_set v () ids"
  obtain xs ys where x: "map fst ids = xs @ w # ys" "length ys \<le> k" using assms(1) by (auto simp: recent_def)
  have len: "length ids \<le> SENT_WAMID_WINDOW" using assms(1) by (simp add: recent_def)
  obtain zs where z: "map fst ?ids = xs @ w # zs" "length zs \<le> Suc k"
    using x remembered_keys [of v ids] by (cases "v \<in> set (map fst ids)") auto
  show ?thesis
  proof (cases "length ?ids = Suc SENT_WAMID_WINDOW")
    case True
    have "length (xs @ w # zs) = Suc SENT_WAMID_WINDOW" using True z(1) by (metis length_map)
    then obtain y xs' where "xs = y # xs'" using z(2) assms(2) by (cases xs) auto
    then have "map fst (tl ?ids) = xs' @ w # zs" using z(1) by (simp add: map_tl)
    then show ?thesis using True z(2) by (auto simp: recent_def forget_one)
  next
    case False
    then have "length ?ids \<le> SENT_WAMID_WINDOW" using remembered_length [of v ids] len by simp
    then show ?thesis using z by (auto simp: recent_def forget_small)
  qed
qed

lemma recent_fresh:
  assumes "length ids \<le> SENT_WAMID_WINDOW" "\<not> has ids w"
  shows "recent w 0 (forget_oldest (jm_set w () ids))"
proof -
  have k: "map fst (jm_set w () ids) = map fst ids @ [w]"
    using assms(2) remembered_keys [of w ids] by (auto simp: has_keys)
  have len: "length (jm_set w () ids) = Suc (length ids)" using arg_cong [OF k, of length] by simp
  show ?thesis
  proof (cases "length ids = SENT_WAMID_WINDOW")
    case True
    then obtain y ids' where y: "ids = y # ids'" by (cases ids) (auto simp: SENT_WAMID_WINDOW_def)
    have "map fst (tl (jm_set w () ids)) = map fst ids' @ [w]" using k y by (simp add: map_tl)
    then show ?thesis using True len by (auto simp: recent_def forget_one)
  next
    case False
    then show ?thesis using assms(1) k len by (auto simp: recent_def forget_small)
  qed
qed

lemma sent_kept:
  "bl_sentWamids (snd (bl_connect b)) = bl_sentWamids b" "bl_sentWamids (bl_built g b) = bl_sentWamids b"
  "bl_sentWamids (bl_build_failed g b) = bl_sentWamids b" "bl_sentWamids (bl_opened g b) = bl_sentWamids b"
  "bl_sentWamids (bl_closed g err b) = bl_sentWamids b" "bl_sentWamids (bl_settle g ok b) = bl_sentWamids b"
  "bl_sentWamids (bl_resume g who b) = bl_sentWamids b" "bl_sentWamids (bl_finally g b) = bl_sentWamids b"
  "bl_sentWamids (bl_send m b) = bl_sentWamids b" "bl_sentWamids (bl_start b) = bl_sentWamids b"
  "bl_sentWamids (bl_resolved look b) = bl_sentWamids b" "bl_sentWamids (bl_rejected reason b) = bl_sentWamids b"
  "bl_sentWamids (bl_timed_out k b) = bl_sentWamids b" "bl_sentWamids (bl_onInbound h b) = bl_sentWamids b"
  "bl_sentWamids (bl_offInbound h b) = bl_sentWamids b" "bl_sentWamids (bl_onStatusReceipt h b) = bl_sentWamids b"
  "bl_sentWamids (bl_say line b) = bl_sentWamids b" "bl_sentWamids (landed f r b) = bl_sentWamids b"
  by (auto simp: bl_connect_def Let_def bl_built_def endQuietly_def bl_build_failed_def bl_opened_def bl_closed_def
      bl_settle_def bl_resume_def reportConnectFailure_def bl_say_def bl_finally_def bl_onInbound_def bl_offInbound_def
      bl_onStatusReceipt_def sending_defs split: option.split list.split prod.split)

lemma sent_ops: "bl_sentWamids (foldl bl_apply b ops) = bl_sentWamids b"
proof (induction ops arbitrary: b)
  case (Cons op ops)
  then show ?case by (cases op) (simp_all add: sent_kept)
qed simp

lemma sent_batch: "bl_sentWamids (bl_batch rt tn user raws b) = bl_sentWamids b"
proof (induction raws arbitrary: b)
  case (Cons raw raws)
  obtain ok b1 where d: "bl_dispatchInbound rt tn user raw b = (ok, b1)" by fastforce
  have "bl_sentWamids b1 = bl_sentWamids b" using d
    by (auto simp: bl_dispatchInbound_def sent_ops split: option.splits)
  then show ?case using d Cons.IH by (cases ok) auto
qed simp

lemma sent_step:
  "(if is_ack e then \<exists>v. bl_sentWamids (bl_step rt tn user b e) \<in>
       {bl_sentWamids b, forget_oldest (jm_set v () (bl_sentWamids b))}
    else bl_sentWamids (bl_step rt tn user b e) = bl_sentWamids b)"
  by (cases e) (auto simp: is_ack_def sent_kept sent_batch bl_upsert_def bl_acknowledged_def rememberSent_def
      split: option.split bool.split)

lemma window_step:
  assumes "length (bl_sentWamids b) \<le> SENT_WAMID_WINDOW"
  shows "length (bl_sentWamids (bl_step rt tn user b e)) \<le> SENT_WAMID_WINDOW"
  using sent_step [of e rt tn user b] assms sent_window [OF assms] by (cases "is_ack e") auto

lemma window_run:
  "length (bl_sentWamids b) \<le> SENT_WAMID_WINDOW \<Longrightarrow> length (bl_sentWamids (bl_run rt tn user b es)) \<le> SENT_WAMID_WINDOW"
  unfolding bl_run_def by (induction es arbitrary: b) (simp_all add: window_step)

lemma recent_mono: "recent w k ids \<Longrightarrow> k \<le> k' \<Longrightarrow> recent w k' ids"
  unfolding recent_def by (meson order_trans)

lemma recent_run:
  "recent w k (bl_sentWamids b) \<Longrightarrow> k + length (filter is_ack es) < SENT_WAMID_WINDOW \<Longrightarrow>
     recent w (k + length (filter is_ack es)) (bl_sentWamids (bl_run rt tn user b es))"
  unfolding bl_run_def
proof (induction es arbitrary: b k)
  case (Cons e es)
  let ?b = "bl_step rt tn user b e"
  show ?case
  proof (cases "is_ack e")
    case True
    then obtain v where v: "bl_sentWamids ?b \<in> {bl_sentWamids b, forget_oldest (jm_set v () (bl_sentWamids b))}"
      using sent_step [of e rt tn user b] by auto
    have "recent w (Suc k) (bl_sentWamids ?b)"
      using v Cons.prems True recent_remember [OF Cons.prems(1), of v] recent_mono [OF Cons.prems(1), of "Suc k"] by auto
    from Cons.IH [OF this] show ?thesis using Cons.prems True by simp
  next
    case False
    then have "bl_sentWamids ?b = bl_sentWamids b" using sent_step [of e rt tn user b] by simp
    with Cons False show ?thesis by simp
  qed
qed simp

section \<open>The contract\<close>

text \<open>
  One send run to its answer, the queue being empty: \<open>look\<close> is the answer of the lookup, \<open>network\<close> what the
  socket does with what it is handed.
\<close>

datatype acknowledgement = Acks "js option" | Rejects thrown | Silent nat

definition bl_post ::
    "lookup \<Rightarrow> ((nat \<times> nat \<times> js \<times> js) list \<Rightarrow> acknowledgement) \<Rightarrow> wa_outbound \<Rightarrow> baileys \<Rightarrow> wa_send_result outcome \<times> baileys" where
  "bl_post look network m b =
     (let b1 = sendNow (bl_calls b) m (b\<lparr>bl_calls := Suc (bl_calls b), bl_flight := None\<rparr>);
          b2 = bl_resolved look b1;
          b3 = (case network (bl_posted b2) of
                  Acks wamid \<Rightarrow> bl_acknowledged wamid b2
                | Rejects err \<Rightarrow> bl_rejected err b2
                | Silent ms \<Rightarrow> bl_timed_out ms b2)
      in (Returned (snd (last (bl_answers b3))), b3))"

interpretation baileys_wire: whatsapp_backend
  "\<lambda>b. bl_connected b \<and> bl_socket b \<noteq> None" "bl_post look network" bl_disconnect bl_posted
proof unfold_locales
  fix b :: baileys and p
  assume down: "\<not> (bl_connected b \<and> bl_socket b \<noteq> None)"
  let ?r = "bl_refused ''not_connected'' (lit ''Baileys backend is not connected.'')"
  have s: "sendNow (bl_calls b) p (b\<lparr>bl_calls := Suc (bl_calls b), bl_flight := None\<rparr>) =
      answer (bl_calls b) ?r (b\<lparr>bl_calls := Suc (bl_calls b), bl_flight := None\<rparr>)" (is "_ = ?b1")
    using down by (auto simp: sendNow_def split: option.split)
  have "bl_post look network p b = (Returned ?r, ?b1)"
    unfolding bl_post_def s
    by (simp add: Let_def bl_resolved_def bl_acknowledged_def bl_rejected_def bl_timed_out_def answer_def
        split: acknowledgement.split del: lit_simps)
  then show "\<exists>message b'. bl_post look network p b = (Returned (wa_refused (lit ''not_connected'') message), b') \<and>
      \<not> (bl_connected b' \<and> bl_socket b' \<noteq> None) \<and> bl_posted b' = bl_posted b"
    using down by (auto simp: bl_refused_def answer_def simp del: lit_simps)
qed simp

section \<open>The adapter on this backend\<close>

text \<open>
  The adapter's lifecycle over the backend's steps: \<open>connect\<close> reaches the backend only when the adapter is not
  connected, \<open>GwAnswered\<close> is its continuation.
\<close>

datatype gw_event = GwConnect | GwAnswered bool | GwDisconnect | GwBackend bl_event

definition gw_step ::
    "runtime \<Rightarrow> (json \<Rightarrow> number option) \<Rightarrow> bl_user \<Rightarrow> wa_adapter \<times> baileys \<Rightarrow> gw_event \<Rightarrow> wa_adapter \<times> baileys" where
  "gw_step rt tn user s e =
     (case s of (a, b) \<Rightarrow>
        (case e of
           GwConnect \<Rightarrow> (case wa_connect a of Some ok \<Rightarrow> (a, b) | None \<Rightarrow> (a, bl_step rt tn user b EvConnect))
         | GwAnswered ok \<Rightarrow> (wa_connected ok a, b)
         | GwDisconnect \<Rightarrow> (wa_disconnect a, bl_step rt tn user b EvDisconnect)
         | GwBackend ev \<Rightarrow> (a, bl_step rt tn user b ev)))"

lemma connect_latched: "wa_connect (fst s) = Some True \<Longrightarrow> gw_step rt tn user s GwConnect = s"
  by (cases s) (simp add: gw_step_def)

definition silent_user :: bl_user where
  "silent_user calls h ev = []"

definition opened_baileys :: "bl_event list" where
  "opened_baileys = [EvConnect, EvBuilt 1, EvOpened 1, EvResume 1 (Some (lit ''55:7@s.whatsapp.net''), None), EvFinally 1]"

definition baileys_after :: "bl_event list \<Rightarrow> baileys" where
  "baileys_after es = bl_run exact_runtime (\<lambda>v. None) silent_user (newBaileys 5) es"

section \<open>Properties\<close>

text \<open>
  C8: in every run of the Baileys backend, whatever order its attempts, sockets and disconnects come in: it is
  connected exactly when it holds a socket; every socket ever made was ended, is the one held, or is in the
  race to open that will adopt or end it; the one held belongs to the current generation; and at most the
  attempt whose promise \<open>connect\<close> shares still waits to open, so no two sockets are opened at once.
\<close>
theorem baileys_sockets_are_held:
  "let b = bl_run rt tn user (newBaileys ms) es in
     (bl_connected b \<longleftrightarrow> bl_socket b \<noteq> None) \<and>
     set (bl_made b) \<subseteq> set (bl_ended b) \<union> set_option (bl_socket b) \<union> bl_racers b \<and>
     set_option (bl_socket b) \<subseteq> {bl_generation b} \<and> bl_waits b \<subseteq> set_option (bl_connecting b)"
  using bl_inv_run [OF bl_inv_new, of rt tn user ms es] by (auto simp: bl_inv_def sockets_ok_def Let_def)

text \<open>
  C25: a disconnect is final: from any reachable state, until the next \<open>connect\<close>, nothing that was in flight
  connects the backend again, and no message reaches a handler, one subscribed afterwards included.
\<close>
theorem disconnected_baileys_stays_down:
  assumes "b = bl_run rt tn user (newBaileys ms) es0" "EvConnect \<notin> set es"
  shows "\<not> bl_connected (bl_run rt tn user (bl_disconnect b) es) \<and>
    bl_handed (bl_run rt tn user (bl_disconnect b) es) = bl_handed b"
proof -
  have "bl_down (bl_disconnect b)" using bl_inv_run [OF bl_inv_new] assms(1) by (simp add: down_disconnect)
  from down_run [OF this assms(2), of rt tn user] show ?thesis by (simp add: bl_down_def)
qed

theorem disconnected_baileys_stays_down_witness:
  "\<not> bl_connected (bl_run exact_runtime (\<lambda>v. None) silent_user
      (bl_disconnect (baileys_after [EvConnect, EvBuilt 1])) [EvOpened 1, EvResume 1 (None, None)])"
  by (rule disconnected_baileys_stays_down [THEN conjunct1, OF baileys_after_def]) simp

text \<open>
  A socket that closed can be adopted all the same: when it opens and closes before the attempt that
  waits for it runs on, the attempt finds it settled as open and its generation current, and the backend
  is connected over a socket it has already ended.
\<close>
theorem closed_socket_adopted:
  "\<exists>es. bl_connected (baileys_after es) \<and> bl_socket (baileys_after es) = Some 1 \<and> 1 \<in> set (bl_ended (baileys_after es))"
proof -
  let ?es = "[EvConnect, EvBuilt 1, EvOpened 1, EvClosed 1 None, EvResume 1 (None, None)]"
  have "bl_connected (baileys_after ?es)" "bl_socket (baileys_after ?es) = Some 1" "1 \<in> set (bl_ended (baileys_after ?es))"
    by code_simp+
  then show ?thesis by blast
qed

text \<open>
  A connection that drops after the adapter's \<open>connect\<close> answered true is never opened again by it: the
  adapter still believes itself connected, a later \<open>connect\<close> answers true and changes nothing, while the
  backend holds no socket.
\<close>
theorem dropped_connection_is_not_reopened:
  "\<exists>es. let s = foldl (gw_step exact_runtime (\<lambda>v. None) silent_user) (open_adapter None, newBaileys 5) es in
     bl_socket (snd s) = None \<and> wa_connect (fst s) = Some True \<and>
     gw_step exact_runtime (\<lambda>v. None) silent_user s GwConnect = s"
proof -
  let ?es = "GwConnect # map GwBackend (tl opened_baileys) @ [GwAnswered True, GwBackend (EvClosed 1 None)]"
  let ?s = "foldl (gw_step exact_runtime (\<lambda>v. None) silent_user) (open_adapter None, newBaileys 5) ?es"
  have s: "bl_socket (snd ?s) = None" "wa_connect (fst ?s) = Some True" by code_simp+
  from connect_latched [OF s(2)] s show ?thesis unfolding Let_def by blast
qed

text \<open>
  C14: sends keep the order of the calls: in every run, the calls answered so far, the one in flight whose
  caller still waits and those queued are, in this order, exactly the calls made, so each is answered once
  and none is lost; and what was put on a socket was put there in the order of the calls, each call once.
\<close>
theorem sends_keep_the_order_of_calls:
  "let b = bl_run rt tn user (newBaileys ms) es in
     map fst (bl_answers b) @ bl_waiting b @ map fst (bl_queue b) = [0..<bl_calls b] \<and>
     sorted_wrt (<) (map fst (bl_posted b))"
  using queue_run [OF queue_new, of rt tn user ms es] by (simp add: queue_ok_def Let_def)

text \<open>
  C22: an id acknowledged in time, and not remembered from before, is not answered when it comes back: for the next
  255 acknowledgements at least, whatever else happens, a message marked as the account's own with that id is refused.
  An id acknowledged while it is remembered keeps its old place in the window instead, and may be forgotten at the
  next acknowledgement (\<open>id_acknowledged_again_is_forgotten\<close>).
\<close>
theorem recent_echoes_are_refused:
  assumes "b = bl_run rt tn user (newBaileys ms) es0"
    and "bl_flight b = Some f" "\<not> fl_answered f" "fl_jid f \<noteq> None" "\<not> has (bl_sentWamids b) w"
    and "length (filter is_ack es) < 256"
    and "addressingOf (asObject (Some raw)) = Some (key, remoteJid, w)"
    and "member_of key (lit ''fromMe'') = Some (JBool True)"
  shows "normalizeBaileysMessage rt toNumber raw (bl_context (bl_run rt tn user (bl_acknowledged (Some w) b) es)) = Some None"
proof -
  let ?b = "bl_acknowledged (Some w) b"
  have "length (bl_sentWamids b) \<le> SENT_WAMID_WINDOW"
    using window_run [of "newBaileys ms" rt tn user es0] assms(1) by (simp add: newBaileys_def)
  then have "recent w 0 (bl_sentWamids ?b)"
    using recent_fresh assms(2-5) by (auto simp: bl_acknowledged_def rememberSent_def sent_kept)
  from recent_run [OF this, of es rt tn user] have "has (bl_sentWamids (bl_run rt tn user ?b es)) w"
    using assms(6) recent_has by (auto simp: SENT_WAMID_WINDOW_def)
  then have "isDispatchable key remoteJid w (bl_context (bl_run rt tn user ?b es)) = No"
    using assms(8) by (simp add: isDispatchable_def bl_context_def)
  then show ?thesis using assms(7) by (simp add: normalizeBaileysMessage_def Let_def)
qed

definition note_out :: wa_outbound where
  "note_out = \<lparr>wo_to = lit ''55@lid'', wo_isGroup = False, wo_text = lit ''hi''\<rparr>"

theorem recent_echoes_are_refused_witness:
  "normalizeBaileysMessage exact_runtime (\<lambda>v. None) (note_envelope (lit ''w''))
     (bl_context (bl_run exact_runtime (\<lambda>v. None) silent_user
       (bl_acknowledged (Some (lit ''w'')) (baileys_after (opened_baileys @ [EvSend note_out, EvStart, EvResolved NoLookup]))) [])) = Some None"
proof -
  let ?b = "baileys_after (opened_baileys @ [EvSend note_out, EvStart, EvResolved NoLookup])"
  let ?f = "\<lparr>fl_call = 0, fl_message = note_out, fl_socket = 1, fl_answered = False, fl_jid = Some (lit ''55@lid'')\<rparr>"
  let ?key = "JObj [(lit ''remoteJid'', JStr (lit ''55@lid'')), (lit ''id'', JStr (lit ''w'')), (lit ''fromMe'', JBool True)]"
  have f: "bl_flight ?b = Some ?f" "\<not> has (bl_sentWamids ?b) (lit ''w'')" by code_simp+
  have k: "addressingOf (asObject (Some (note_envelope (lit ''w'')))) = Some (?key, lit ''55@lid'', lit ''w'')"
    "member_of ?key (lit ''fromMe'') = Some (JBool True)" by code_simp+
  show ?thesis
    by (rule recent_echoes_are_refused [OF baileys_after_def f(1) _ _ f(2) _ k]) simp_all
qed

text \<open>
  A full window whose oldest id is acknowledged again: adding it leaves it the oldest, so the next new id takes its
  place at once.
\<close>
theorem id_acknowledged_again_is_forgotten:
  assumes "map fst (bl_sentWamids b) = w # rest" "w \<notin> set rest" "length rest = 255" "v \<noteq> w" "v \<notin> set rest"
  shows "has (bl_sentWamids (rememberSent w b)) w \<and> \<not> has (bl_sentWamids (rememberSent v (rememberSent w b))) w"
proof -
  let ?ids = "bl_sentWamids b" and ?again = "jm_set w () (bl_sentWamids b)"
  have again: "map fst ?again = w # rest" using assms(1) remembered_keys [of w ?ids] by simp
  have "length ?again = SENT_WAMID_WINDOW"
    using arg_cong [OF again, of length] assms(3) by (simp add: SENT_WAMID_WINDOW_def)
  then have kept: "bl_sentWamids (rememberSent w b) = ?again" by (simp add: rememberSent_def forget_small)
  have more: "map fst (jm_set v () ?again) = w # rest @ [v]" using again assms(4,5) remembered_keys [of v ?again] by simp
  have "length (jm_set v () ?again) = Suc SENT_WAMID_WINDOW"
    using arg_cong [OF more, of length] assms(3) by (simp add: SENT_WAMID_WINDOW_def)
  then have "bl_sentWamids (rememberSent v (rememberSent w b)) = tl (jm_set v () ?again)"
    using kept by (simp add: rememberSent_def forget_one)
  moreover have "map fst (tl (jm_set v () ?again)) = rest @ [v]" using more by (simp add: map_tl)
  ultimately show ?thesis using kept again assms(2,4) by (simp add: has_keys)
qed

text \<open>
  An acknowledgement that comes after the send's timeout is not remembered, so the message that was sent
  is answered when it comes back to the account's own chat, as if its owner had typed it.
\<close>
theorem late_acknowledgement_is_answered:
  "\<exists>es ev. let b = baileys_after es in
     bl_posted b = [(0, 1, lit ''55@lid'', lit ''hi'')] \<and> EvAcknowledged (Some (wa_wamid ev)) \<in> set es \<and>
     bl_handed b = [(3, ev)] \<and> wa_fromSelf ev"
proof -
  let ?es = "opened_baileys @ [EvOnInbound 3, EvSend note_out, EvStart, EvResolved NoLookup, EvTimedOut 5,
    EvAcknowledged (Some (lit ''w'')), EvUpsert 1 (Some (lit ''notify'')) [note_envelope (lit ''w'')]]"
  have "map fst (bl_handed (baileys_after ?es)) = [3]" by code_simp
  then obtain ev where e: "bl_handed (baileys_after ?es) = [(3, ev)]" by auto
  have "map (wa_wamid \<circ> snd) (bl_handed (baileys_after ?es)) = [lit ''w'']"
    "list_all (wa_fromSelf \<circ> snd) (bl_handed (baileys_after ?es))" by code_simp+
  then have "wa_wamid ev = lit ''w''" "wa_fromSelf ev" unfolding e by simp_all
  moreover have "bl_posted (baileys_after ?es) = [(0, 1, lit ''55@lid'', lit ''hi'')]" by code_simp
  ultimately show ?thesis using e unfolding Let_def
    by (intro exI [of _ ?es] exI [of _ ev]) (simp del: lit_simps)
qed

text \<open>
  The reason a failed connect reports can be of an older attempt: once a socket has closed with an error,
  an attempt that only runs out of time reports that error instead of the timeout.
\<close>
theorem stale_close_error_reported:
  "\<exists>es err. let b = baileys_after es in
     bl_log b = [lit ''[whatsapp-baileys] connect failed: '' @ text_of err @ [nl],
                 lit ''[whatsapp-baileys] connect failed: '' @ text_of err @ [nl]] \<and>
     filter (\<lambda>e. case e of EvClosed g r \<Rightarrow> True | _ \<Rightarrow> False) es = [EvClosed 1 (Some err)]"
proof -
  let ?err = "ThrownError (lit ''unlinked'')"
  let ?es = "[EvConnect, EvBuilt 1, EvClosed 1 (Some ?err), EvResume 1 (None, None), EvFinally 1,
    EvConnect, EvBuilt 3, EvConnectTimeout 3, EvResume 3 (None, None)]"
  have "bl_log (baileys_after ?es) = [lit ''[whatsapp-baileys] connect failed: '' @ text_of ?err @ [nl],
      lit ''[whatsapp-baileys] connect failed: '' @ text_of ?err @ [nl]]" by code_simp
  then show ?thesis unfolding Let_def by (intro exI [of _ ?es] exI [of _ ?err]) simp
qed

text \<open>
  A backend that is down is told so by every send of the adapter on it, and puts nothing on a socket.
\<close>
theorem down_baileys_posts_nothing:
  assumes "wa_sendMessage (bl_post look network) out a (bl_disconnect b) = Some (r, a', b')"
  shows "bl_posted b' = bl_posted b \<and> (\<exists>code message. r = Returned (WaFail code message))"
proof -
  obtain parts where parts: "splitForWhatsApp (out_text out) = Some (Inr parts)" using whatsapp.splits_total by blast
  show ?thesis
  proof (cases "out_text out = [] \<or> parts = []")
    case True
    with assms parts show ?thesis by (auto simp: wa_sendMessage_def wa_empty_text_def Let_def simp del: lit_simps split: if_splits)
  next
    case False
    then have "send_parts (bl_post look network) (map (wa_part out) parts) None (bl_disconnect b) = (r, b')"
      using assms parts by (auto simp: wa_sendMessage_def Let_def split: prod.splits)
    with baileys_wire.nothing_leaves_after_disconnect [of "map (wa_part out) parts" look network None b] False
    show ?thesis by (auto simp del: lit_simps)
  qed
qed

theorem down_baileys_posts_nothing_witness:
  "bl_posted (snd (snd (the (wa_sendMessage (bl_post NoLookup (\<lambda>ps. Acks None)) hi_out (open_adapter None)
      (bl_disconnect (baileys_after opened_baileys)))))) = []"
proof -
  let ?r = "wa_sendMessage (bl_post NoLookup (\<lambda>ps. Acks None)) hi_out (open_adapter None) (bl_disconnect (baileys_after opened_baileys))"
  have "?r \<noteq> None" by code_simp
  then obtain r a' b' where r: "?r = Some (r, a', b')" by (metis option.exhaust prod.exhaust)
  have p: "bl_posted (baileys_after opened_baileys) = []" by code_simp
  from down_baileys_posts_nothing [OF r] r p show ?thesis by simp
qed

end
