(* ===== verification/PartSender.thy ===== *)
theory PartSender
  imports Runner Splitters
begin

text \<open>
  What the adapters over a request-per-message platform share: the loop that sends the parts of a text
  one after another and stops at the first failure, the refusal of an edit that would need more than one
  message, and the escaping of inline markers. The locale \<open>part_sender\<close> is the platform as the loop
  relies on it; its interpretation is any client call, with the parts it acknowledged; a part whose call failed may have arrived all the same.
\<close>

section \<open>The loop\<close>

text \<open>
  \<open>for (const part of parts) lastId = await call(part)\<close>, a rejection ending it. The last id starts
  undefined.
\<close>

fun send_each :: "('p \<Rightarrow> 's \<Rightarrow> 'i outcome \<times> 's) \<Rightarrow> 'p list \<Rightarrow> 'i option \<Rightarrow> 's \<Rightarrow> 'i option outcome \<times> 's" where
  "send_each call [] lastId s = (Returned lastId, s)"
| "send_each call (p # ps) lastId s =
     (case call p s of
        (Threw err, s1) \<Rightarrow> (Threw err, s1)
      | (Returned i, s1) \<Rightarrow> send_each call ps (Some i) s1)"

locale part_sender =
  fixes call :: "'p \<Rightarrow> 's \<Rightarrow> 'i outcome \<times> 's"
    and delivered :: "'s \<Rightarrow> 'p list"
  assumes call_delivers: "call p s = (Returned i, s') \<Longrightarrow> delivered s' = delivered s @ [p]"
    and call_refuses: "call p s = (Threw err, s') \<Longrightarrow> delivered s' = delivered s"
begin

lemma all_delivered:
  "send_each call ps lastId s = (Returned r, s') \<Longrightarrow>
     delivered s' = delivered s @ ps \<and> (r = None \<longleftrightarrow> ps = [] \<and> lastId = None)"
proof (induction ps arbitrary: lastId s)
  case (Cons p ps)
  obtain i s1 where c: "call p s = (Returned i, s1)" "send_each call ps (Some i) s1 = (Returned r, s')"
    using Cons.prems by (auto split: prod.splits outcome.splits)
  show ?case using Cons.IH [OF c(2)] call_delivers [OF c(1)] by simp
qed simp

lemma some_delivered:
  "send_each call ps lastId s = (Threw err, s') \<Longrightarrow> \<exists>n < length ps. delivered s' = delivered s @ take n ps"
proof (induction ps arbitrary: lastId s)
  case (Cons p ps)
  show ?case
  proof (cases "call p s")
    case (Pair x s1)
    show ?thesis
    proof (cases x)
      case (Returned i)
      then have "send_each call ps (Some i) s1 = (Threw err, s')" using Cons.prems Pair by simp
      from Cons.IH [OF this] call_delivers [of p s i s1] obtain n where "n < length ps"
        "delivered s' = delivered s @ take (Suc n) (p # ps)" using Pair Returned by auto
      then show ?thesis by (intro exI [of _ "Suc n"]) simp
    next
      case (Threw e)
      then have "s1 = s'" using Cons.prems Pair by simp
      then show ?thesis using call_refuses [of p s e s1] Pair Threw by (intro exI [of _ 0]) simp
    qed
  qed
qed simp

lemma delivered_prefix:
  "send_each call ps lastId s = (r, s') \<Longrightarrow> \<exists>n \<le> length ps. delivered s' = delivered s @ take n ps"
  using all_delivered some_delivered by (cases r) (fastforce, meson less_imp_le)

end

section \<open>A recorded platform\<close>

text \<open>
  Any client call on any world, with the parts it acknowledged. Of a part whose call threw nothing is said: the
  platform may have taken it.
\<close>

type_synonym ('w, 'p) site = "'w \<times> 'p list"

definition recorded :: "('p \<Rightarrow> 'w \<Rightarrow> 'i outcome \<times> 'w) \<Rightarrow> 'p \<Rightarrow> ('w, 'p) site \<Rightarrow> 'i outcome \<times> ('w, 'p) site" where
  "recorded client p s =
     (case client p (fst s) of
        (Returned i, w) \<Rightarrow> (Returned i, (w, snd s @ [p]))
      | (Threw err, w) \<Rightarrow> (Threw err, (w, snd s)))"

interpretation site: part_sender "recorded client" "snd" for client :: "'p \<Rightarrow> 'w \<Rightarrow> 'i outcome \<times> 'w"
  by unfold_locales (auto simp: recorded_def split: prod.splits outcome.splits)

text \<open>A client that accepts every part.\<close>

definition accepts_all :: "('p \<Rightarrow> 'w \<Rightarrow> 'i outcome \<times> 'w) \<Rightarrow> bool" where
  "accepts_all client \<longleftrightarrow> (\<forall>p w. \<exists>i. fst (client p w) = Returned i)"

lemma recorded_accepts:
  assumes "accepts_all client"
  shows "\<exists>i w. recorded client p s = (Returned i, (w, snd s @ [p]))"
proof -
  obtain r w where c: "client p (fst s) = (r, w)" by fastforce
  then obtain i where "r = Returned i" using assms unfolding accepts_all_def by (metis fst_conv)
  then show ?thesis using c by (simp add: recorded_def)
qed

lemma send_each_accepts:
  "accepts_all client \<Longrightarrow> \<exists>r w. send_each (recorded client) ps lastId s = (Returned r, (w, snd s @ ps))"
proof (induction ps arbitrary: lastId s)
  case Nil
  then show ?case by (cases s) simp
next
  case (Cons p ps)
  obtain i w where "recorded client p s = (Returned i, (w, snd s @ [p]))" using recorded_accepts [OF Cons.prems] by blast
  then show ?case using Cons.IH [OF Cons.prems, of "Some i" "(w, snd s @ [p])"] by auto
qed

section \<open>Edits\<close>

text \<open>\<open>editPartsRefusal\<close> of the adapters; \<open>unit\<close> is what the platform calls one message.\<close>

definition edit_refusal :: "js \<Rightarrow> nat \<Rightarrow> send_result" where
  "edit_refusal messages partCount =
     (if 1 < partCount
      then send_refused (lit ''edit_too_long'')
        (lit ''text needs '' @ dec partCount @ lit '' '' @ messages @ lit ''; an edit replaces one'')
      else send_refused (lit ''empty_text'') (lit ''text reduced to zero parts''))"

section \<open>Inline markers\<close>

definition is_marker :: "cu \<Rightarrow> bool" where
  "is_marker c \<longleftrightarrow> c \<in> {92, 42, 95, 96, 126}"

definition escape_markers :: "js \<Rightarrow> js" where
  "escape_markers s = concat (map (\<lambda>c. if is_marker c then [92, c] else [c]) s)"

text \<open>
  How a renderer reads the markers of a text: a backslash before a marker makes it literal. The result
  is the characters shown, each with whether it is literal.
\<close>

fun read_markers :: "js \<Rightarrow> (cu \<times> bool) list" where
  "read_markers [] = []"
| "read_markers [c] = [(c, False)]"
| "read_markers (c # d # s) =
     (if c = 92 \<and> is_marker d then (d, True) # read_markers s else (c, False) # read_markers (d # s))"

lemma escape_Cons [simp]:
  "escape_markers [] = []"
  "escape_markers (c # s) = (if is_marker c then 92 # c # escape_markers s else c # escape_markers s)"
  by (simp_all add: escape_markers_def)

lemma read_plain: "c \<noteq> 92 \<Longrightarrow> read_markers (c # s) = (c, False) # read_markers s"
  by (cases s) auto

lemma read_escaped: "read_markers (escape_markers s) = map (\<lambda>c. (c, is_marker c)) s"
proof (induction s)
  case (Cons c s)
  then show ?case by (cases "is_marker c") (auto simp: read_plain, auto simp: is_marker_def read_plain)
qed simp

lemma escape_length: "length s \<le> length (escape_markers s) \<and> length (escape_markers s) \<le> 2 * length s"
  by (induction s) auto

lemma escape_inject: "escape_markers s = escape_markers t \<Longrightarrow> s = t"
proof -
  assume "escape_markers s = escape_markers t"
  then have "map fst (read_markers (escape_markers s)) = map fst (read_markers (escape_markers t))" by simp
  then show ?thesis by (simp add: read_escaped comp_def)
qed

text \<open>What a list of bodies shows a reader: the characters, with no marker taken for markup.\<close>

definition shown :: "js list \<Rightarrow> js" where
  "shown bodies = concat (map (\<lambda>b. map fst (read_markers b)) bodies)"

definition all_literal :: "js list \<Rightarrow> bool" where
  "all_literal bodies \<longleftrightarrow> list_all (\<lambda>b. list_all (\<lambda>(c, literal). is_marker c = literal) (read_markers b)) bodies"

lemma shown_escaped: "shown (map escape_markers ps) = concat ps"
  by (induction ps) (simp_all add: shown_def read_escaped comp_def)

lemma all_literal_escaped: "all_literal (map escape_markers ps)"
  by (simp add: all_literal_def read_escaped list_all_iff)

lemma shown_append: "shown (bs @ cs) = shown bs @ shown cs"
  by (simp add: shown_def)

lemma all_literal_append: "all_literal (bs @ cs) \<longleftrightarrow> all_literal bs \<and> all_literal cs"
  by (simp add: all_literal_def)

section \<open>Bodies of a text declared plain\<close>

text \<open>What a splitter answers, when it does.\<close>

definition parts_of :: "(range_error + js list) option \<Rightarrow> js list option" where
  "parts_of r = (case r of Some (Inr ps) \<Rightarrow> Some ps | _ \<Rightarrow> None)"

text \<open>\<open>flatMap\<close>, where a part's bodies come from a splitter; \<open>None\<close> where the splitter does not answer.\<close>

fun flat_map :: "(js \<Rightarrow> js list option) \<Rightarrow> js list \<Rightarrow> js list option" where
  "flat_map f [] = Some []"
| "flat_map f (p # ps) = (case (f p, flat_map f ps) of (Some bs, Some cs) \<Rightarrow> Some (bs @ cs) | _ \<Rightarrow> None)"

text \<open>
  The bodies of one part: it escaped, or where escaping takes it past the cap, the escaped parts of a
  second split.
\<close>

definition escaped_bodies :: "(js \<Rightarrow> (range_error + js list) option) \<Rightarrow> int \<Rightarrow> js \<Rightarrow> js list option" where
  "escaped_bodies halve cap part =
     (let body = escape_markers part in
      if int (length body) \<le> cap then Some [body]
      else map_option (map escape_markers) (parts_of (halve part)))"

text \<open>
  What a rendering is for: the bodies fit the cap, show the text but for the units the splitter may drop,
  and no character of them is markup.
\<close>

definition renders_plain :: "int \<Rightarrow> (cu \<Rightarrow> bool) \<Rightarrow> js \<Rightarrow> js list \<Rightarrow> bool" where
  "renders_plain cap drops t bodies \<longleftrightarrow>
     list_all (\<lambda>b. int (length b) \<le> cap) bodies \<and>
     filter (\<lambda>c. \<not> drops c) (shown bodies) = filter (\<lambda>c. \<not> drops c) t \<and> all_literal bodies"

lemma renders_plain_Nil: "renders_plain cap drops [] []"
  by (simp add: renders_plain_def shown_def all_literal_def)

lemma renders_plain_append:
  "renders_plain cap drops s bs \<Longrightarrow> renders_plain cap drops t cs \<Longrightarrow> renders_plain cap drops (s @ t) (bs @ cs)"
  by (simp add: renders_plain_def shown_append all_literal_append)

text \<open>
  A platform with two splitters, the second within half the cap: every text has a rendering.
\<close>

locale escaping_parts =
  whole: splitter "\<lambda>t ps. split t = Some (Inr ps)" "\<lambda>p. int (length p)" cap drops +
  half: splitter "\<lambda>t ps. halve t = Some (Inr ps)" "\<lambda>p. int (length p)" "cap div 2" drops
  for split :: "js \<Rightarrow> (range_error + js list) option"
    and halve :: "js \<Rightarrow> (range_error + js list) option"
    and cap :: int
    and drops :: "cu \<Rightarrow> bool"
begin

lemma part_renders: "\<exists>bs. escaped_bodies halve cap part = Some bs \<and> renders_plain cap drops part bs"
proof (cases "int (length (escape_markers part)) \<le> cap")
  case True
  then show ?thesis using shown_escaped [of "[part]"] all_literal_escaped [of "[part]"]
    by (simp add: escaped_bodies_def renders_plain_def)
next
  case False
  obtain ps where ps: "halve part = Some (Inr ps)" using half.splits_total by blast
  have short: "int (length (escape_markers p)) \<le> cap" if "p \<in> set ps" for p
    using half.splits_fit [OF ps that] escape_length [of p] by linarith
  have "filter (\<lambda>c. \<not> drops c) (concat ps) = filter (\<lambda>c. \<not> drops c) part"
    by (rule half.splits_content [OF ps])
  then show ?thesis using False ps short
    by (simp add: escaped_bodies_def parts_of_def renders_plain_def shown_escaped all_literal_escaped list_all_iff)
qed

lemma parts_render: "\<exists>bs. flat_map (escaped_bodies halve cap) ps = Some bs \<and> renders_plain cap drops (concat ps) bs"
proof (induction ps)
  case Nil
  then show ?case by (simp add: renders_plain_Nil)
next
  case (Cons p ps)
  obtain bs cs where "escaped_bodies halve cap p = Some bs" "renders_plain cap drops p bs"
    "flat_map (escaped_bodies halve cap) ps = Some cs" "renders_plain cap drops (concat ps) cs"
    using part_renders [of p] Cons.IH by blast
  then show ?case using renders_plain_append by fastforce
qed

lemma text_splits: "\<exists>ps. parts_of (split t) = Some ps \<and> list_all (\<lambda>p. int (length p) \<le> cap) ps \<and>
    filter (\<lambda>c. \<not> drops c) (concat ps) = filter (\<lambda>c. \<not> drops c) t"
proof -
  obtain ps where "split t = Some (Inr ps)" using whole.splits_total by blast
  then show ?thesis using whole.splits_fit whole.splits_content by (auto simp: parts_of_def list_all_iff)
qed

lemma text_renders:
  "parts_of (split t) = Some ps \<Longrightarrow>
     \<exists>bs. flat_map (escaped_bodies halve cap) ps = Some bs \<and> renders_plain cap drops t bs"
  using text_splits [of t] parts_render [of ps] by (auto simp: renders_plain_def)

end

interpretation discord_bodies: escaping_parts splitForDiscord splitForEscapedDiscord DISCORD_MAX_MESSAGE nl_class
  by (intro escaping_parts.intro discord.splitter_axioms discord_escaped.splitter_axioms)

interpretation mattermost_bodies: escaping_parts splitForMattermost splitForEscapedMattermost MATTERMOST_MAX_POST is_space
  by (intro escaping_parts.intro mattermost.splitter_axioms mattermost_escaped.splitter_axioms)

end
