(* ===== verification/DiscordAdapter.thy ===== *)
theory DiscordAdapter
  imports PartSender WhatsAppInbound
begin

text \<open>
  The Discord adapter (\<open>gateway-discord/src/adapter.ts\<close>): connection, sends and edits, the mention gate
  and the normalizer. discord.js is a parameter: the login, the channel lookup, the two requests and
  which thrown values are its API errors. A handler is an arbitrary computation.
\<close>

section \<open>Messages and events\<close>

text \<open>The fields of a discord.js message the normalizer reads.\<close>

record discord_message =
  dm_id :: js
  dm_channelId :: js
  dm_guildId :: "js option"
  dm_isThread :: bool
  dm_threadId :: js
  dm_author_id :: js
  dm_author_bot :: bool
  dm_username :: js
  dm_globalName :: "js option"
  dm_content :: js
  dm_created :: int
  dm_reference :: "js option"
  dm_mentions :: "js list"

text \<open>
  \<open>de_mentions\<close> is the user ids of the raw message's collection, \<open>None\<close> for an event that carries none.
\<close>

record discord_event = message_event +
  de_guildId :: "js option"
  de_channelId :: js
  de_messageId :: js
  de_mentions :: "js list option"

definition normalizeEvent :: "discord_message \<Rightarrow> discord_event" where
  "normalizeEvent msg =
     (let channelType = (if dm_guildId msg = None then DM else if dm_isThread msg then Thread else Group);
          displayName = (case dm_globalName msg of Some n \<Rightarrow> n | None \<Rightarrow> dm_username msg)
      in \<lparr>ev_id = lit ''dc-'' @ dm_channelId msg @ lit ''-'' @ dm_id msg, ev_platform = lit ''discord'',
          ev_sender = \<lparr>snd_id = dm_author_id msg, snd_username = Some (dm_username msg), snd_displayName = Some displayName\<rparr>,
          ev_channel = \<lparr>ch_id = dm_channelId msg, ch_type = channelType,
            ch_topicId = (if dm_isThread msg then Some (dm_threadId msg) else None)\<rparr>,
          ev_text = dm_content msg, ev_receivedAt = dm_created msg, ev_replyTo = dm_reference msg,
          de_guildId = dm_guildId msg, de_channelId = dm_channelId msg, de_messageId = dm_id msg,
          de_mentions = Some (dm_mentions msg)\<rparr>)"

section \<open>The adapter's state\<close>

record 'w discord =
  dc_requireMention :: bool
  dc_connected :: bool
  dc_warnedMissingBotId :: bool
  dc_botId :: "js option"
  dc_handler :: "(nat \<times> (discord_event \<Rightarrow> ('w, unit) comp)) option"

definition no_intents :: js where
  "no_intents = lit ''[discord] WARN '' @ [0x2014]
     @ lit '' intents:[] passed; bot will not receive message content. Pass at least [Guilds, GuildMessages, MessageContent] (EC-C).''"

definition newDiscordAdapter :: "bool option \<Rightarrow> js list \<Rightarrow> 'w env \<Rightarrow> 'w discord \<times> 'w env" where
  "newDiscordAdapter requireMention intents env =
     (\<lparr>dc_requireMention = (case requireMention of None \<Rightarrow> True | Some b \<Rightarrow> b), dc_connected = False,
       dc_warnedMissingBotId = False, dc_botId = None, dc_handler = None\<rparr>,
      if intents = [] then write_line no_intents env else env)"

text \<open>
  \<open>connect\<close>: \<open>login\<close> is how the promise of the ready event and the login ends, and the id the client knows
  then. Reading \<open>.message\<close> of a rejection with \<open>null\<close> or \<open>undefined\<close> throws.
\<close>

definition discord_connect ::
    "('w \<Rightarrow> js option outcome \<times> 'w) \<Rightarrow> 'w discord \<Rightarrow> 'w env \<Rightarrow> bool outcome \<times> 'w discord \<times> 'w env" where
  "discord_connect login d env =
     (if dc_connected d then (Returned True, d, env)
      else case login (env_world env) of
        (Returned botId, w) \<Rightarrow> (Returned True, d\<lparr>dc_connected := True, dc_botId := botId\<rparr>, env\<lparr>env_world := w\<rparr>)
      | (Threw err, w) \<Rightarrow>
          (case message_of err of
             None \<Rightarrow> (Threw type_error, d, env\<lparr>env_world := w\<rparr>)
           | Some m \<Rightarrow> (Returned False, d,
               write_line (lit ''[discord] connect failed: '' @ m) (env\<lparr>env_world := w\<rparr>))))"

definition discord_disconnect :: "('w \<Rightarrow> unit outcome \<times> 'w) \<Rightarrow> 'w discord \<Rightarrow> 'w env \<Rightarrow> 'w discord \<times> 'w env" where
  "discord_disconnect destroy d env =
     (if \<not> dc_connected d then (d, env)
      else (d\<lparr>dc_connected := False\<rparr>, env\<lparr>env_world := snd (destroy (env_world env))\<rparr>))"

section \<open>Bodies\<close>

definition escapeMarkdown :: "js \<Rightarrow> js" where
  "escapeMarkdown s = escape_markers s"

definition bodyFor :: "format option \<Rightarrow> js \<Rightarrow> js" where
  "bodyFor fmt s = (if fmt = Some Plain then escapeMarkdown s else s)"

definition part_bodies :: "format option \<Rightarrow> js \<Rightarrow> js list option" where
  "part_bodies fmt part =
     (let body = bodyFor fmt part in
      if int (length body) \<le> DISCORD_MAX_MESSAGE then Some [body]
      else map_option (map (bodyFor fmt)) (parts_of (splitForEscapedDiscord part)))"

definition renderMessages :: "outbound \<Rightarrow> js list option" where
  "renderMessages out =
     (case parts_of (splitForDiscord (out_text out)) of
        None \<Rightarrow> None
      | Some parts \<Rightarrow> flat_map (part_bodies (out_format out)) parts)"

section \<open>Sends and edits\<close>

text \<open>Which thrown values are API errors of the library, with the error's code as text and its status.\<close>

type_synonym api_errors = "thrown \<Rightarrow> (js \<times> int) option"

definition mapSendError :: "api_errors \<Rightarrow> thrown \<Rightarrow> send_result outcome" where
  "mapSendError api err =
     (case message_of err of
        None \<Rightarrow> Threw type_error
      | Some m \<Rightarrow>
          (case api err of
             None \<Rightarrow> Returned (send_refused (lit ''unknown'') m)
           | Some (code, status) \<Rightarrow>
               Returned (send_refused
                 (if code = lit ''50007'' then lit ''dm_blocked''
                  else if code = lit ''50001'' \<or> code = lit ''50013'' then lit ''no_permission''
                  else if status = 429 then lit ''rate_limited''
                  else lit ''discord_'' @ code) m)))"

text \<open>A request: the channel, the body and the message replied to, or the message edited.\<close>

datatype discord_request = Create js js "js option" | Patch js js js

type_synonym 'w discord_client = "discord_request \<Rightarrow> 'w \<Rightarrow> js outcome \<times> 'w"

definition empty_text :: send_result where
  "empty_text = send_refused (lit ''empty_text'') (lit ''text is empty'')"

definition discord_sendMessage ::
    "(js \<Rightarrow> 'w \<Rightarrow> bool outcome \<times> 'w) \<Rightarrow> 'w discord_client \<Rightarrow> api_errors \<Rightarrow> outbound
       \<Rightarrow> ('w, discord_request) site \<Rightarrow> send_result outcome \<times> ('w, discord_request) site" where
  "discord_sendMessage fetch client api out s =
     (if out_text out = [] then (Returned empty_text, s)
      else case fetch (ch_id (out_channel out)) (fst s) of
        (Threw err, w) \<Rightarrow>
          ((case message_of err of
              None \<Rightarrow> Threw type_error
            | Some m \<Rightarrow> Returned (send_refused (lit ''channel_fetch_failed'') m)), (w, snd s))
      | (Returned sendable, w) \<Rightarrow>
          if \<not> sendable
          then (Returned (send_refused (lit ''channel_not_sendable'')
                  (lit ''channel '' @ quoted (ch_id (out_channel out)) @ lit '' not text-based or missing'')), (w, snd s))
          else case renderMessages out of
            None \<Rightarrow> (Threw type_error, (w, snd s))
          | Some chunks \<Rightarrow>
              (case send_each (recorded client)
                  (map (\<lambda>c. Create (ch_id (out_channel out)) c (out_replyTo out)) chunks) None (w, snd s) of
                 (Threw err, s1) \<Rightarrow> (mapSendError api err, s1)
               | (Returned lastId, s1) \<Rightarrow> (Returned (send_ok lastId), s1)))"

definition discord_editMessage ::
    "'w discord_client \<Rightarrow> api_errors \<Rightarrow> js \<Rightarrow> outbound
       \<Rightarrow> ('w, discord_request) site \<Rightarrow> send_result outcome \<times> ('w, discord_request) site" where
  "discord_editMessage client api messageId out s =
     (if out_text out = [] then (Returned empty_text, s)
      else if messageId = []
      then (Returned (send_refused (lit ''invalid_message_id'') (lit ''message id is empty'')), s)
      else case renderMessages out of
        None \<Rightarrow> (Threw type_error, s)
      | Some messages \<Rightarrow>
          (case messages of
             [content] \<Rightarrow>
               (case recorded client (Patch (ch_id (out_channel out)) messageId content) s of
                  (Threw err, s1) \<Rightarrow> (mapSendError api err, s1)
                | (Returned _, s1) \<Rightarrow> (Returned (send_ok (Some messageId)), s1))
           | _ \<Rightarrow> (Returned (edit_refusal (lit ''Discord messages'') (length messages)), s)))"

text \<open>The text a request puts on Discord.\<close>

fun body_of :: "discord_request \<Rightarrow> js" where
  "body_of (Create channel content replyTo) = content"
| "body_of (Patch channel messageId content) = content"

section \<open>Inbound\<close>

definition warnMissingBotIdOnce :: "'w discord \<Rightarrow> 'w env \<Rightarrow> 'w discord \<times> 'w env" where
  "warnMissingBotIdOnce d env =
     (if dc_warnedMissingBotId d then (d, env)
      else (d\<lparr>dc_warnedMissingBotId := True\<rparr>,
        write_line (lit ''[discord] dropping every group message: requireMention is on and the bot user id ''
          @ lit ''is not known until the client is ready'') env))"

definition mentions_bot :: "js \<Rightarrow> discord_event \<Rightarrow> bool" where
  "mentions_bot botId event =
     (case (if ev_platform event = lit ''discord'' then de_mentions event else None) of
        Some ids \<Rightarrow> botId \<in> set ids
      | None \<Rightarrow> includes_str (ev_text event) (lit ''<@'' @ botId @ lit ''>'') \<or>
                includes_str (ev_text event) (lit ''<@!'' @ botId @ lit ''>''))"

definition passesMentionGate :: "'w discord \<Rightarrow> discord_event \<Rightarrow> 'w env \<Rightarrow> bool \<times> 'w discord \<times> 'w env" where
  "passesMentionGate d event env =
     (if ch_type (ev_channel event) = DM \<or> \<not> dc_requireMention d then (True, d, env)
      else case dc_botId d of
        None \<Rightarrow> (False, warnMissingBotIdOnce d env)
      | Some botId \<Rightarrow> (mentions_bot botId event, d, env))"

definition dispatchEvent :: "'w discord \<Rightarrow> discord_event \<Rightarrow> ('w, delivery) comp" where
  "dispatchEvent d event env = runHandler (lit ''discord'') (map_option snd (dc_handler d)) event env"

text \<open>\<open>None\<close>: the message was dropped before dispatch.\<close>

definition handleInbound ::
    "discord_message \<Rightarrow> 'w discord \<Rightarrow> 'w env \<Rightarrow> delivery outcome option \<times> 'w discord \<times> 'w env" where
  "handleInbound msg d env =
     (if dc_handler d = None then (None, d, env)
      else if dm_author_bot msg then (None, d, env)
      else let event = normalizeEvent msg in
        case passesMentionGate d event env of
          (False, d1, env1) \<Rightarrow> (None, d1, env1)
        | (True, d1, env1) \<Rightarrow> (case dispatchEvent d1 event env1 of (r, env2) \<Rightarrow> (Some r, d1, env2)))"

definition discord_deliver ::
    "discord_event \<Rightarrow> 'w discord \<Rightarrow> 'w env \<Rightarrow> delivery outcome \<times> 'w discord \<times> 'w env" where
  "discord_deliver event d env =
     (case passesMentionGate d event env of
        (False, d1, env1) \<Rightarrow> (Returned DeliveredOk, d1, env1)
      | (True, d1, env1) \<Rightarrow>
          (case runHandler (lit ''discord'') (map_option snd (dc_handler d1)) event env1 of (r, env2) \<Rightarrow> (r, d1, env2)))"

definition discord_onInbound :: "nat \<Rightarrow> (discord_event \<Rightarrow> ('w, unit) comp) \<Rightarrow> 'w discord \<Rightarrow> 'w discord" where
  "discord_onInbound h f d = d\<lparr>dc_handler := Some (h, f)\<rparr>"

definition discord_off :: "nat \<Rightarrow> 'w discord \<Rightarrow> 'w discord" where
  "discord_off h d = (if map_option fst (dc_handler d) = Some h then d\<lparr>dc_handler := None\<rparr> else d)"

section \<open>Facts\<close>

lemma plain_parts: "part_bodies (Some Plain) = escaped_bodies splitForEscapedDiscord DISCORD_MAX_MESSAGE"
proof -
  have "bodyFor (Some Plain) = escape_markers" by (simp add: fun_eq_iff bodyFor_def escapeMarkdown_def)
  then show ?thesis by (intro ext) (simp only: part_bodies_def escaped_bodies_def)
qed

lemma marked_parts:
  "fmt \<noteq> Some Plain \<Longrightarrow> list_all (\<lambda>p. int (length p) \<le> DISCORD_MAX_MESSAGE) ps \<Longrightarrow> flat_map (part_bodies fmt) ps = Some ps"
  by (induction ps) (simp_all add: part_bodies_def bodyFor_def)

lemma renderMessages_facts:
  "\<exists>bs. renderMessages out = Some bs \<and>
     (if out_format out = Some Plain then renders_plain DISCORD_MAX_MESSAGE nl_class (out_text out) bs
      else list_all (\<lambda>b. int (length b) \<le> DISCORD_MAX_MESSAGE) bs \<and>
        filter (\<lambda>c. \<not> nl_class c) (concat bs) = filter (\<lambda>c. \<not> nl_class c) (out_text out))"
proof -
  obtain ps where ps: "parts_of (splitForDiscord (out_text out)) = Some ps"
    "list_all (\<lambda>p. int (length p) \<le> DISCORD_MAX_MESSAGE) ps"
    "filter (\<lambda>c. \<not> nl_class c) (concat ps) = filter (\<lambda>c. \<not> nl_class c) (out_text out)"
    using discord_bodies.text_splits by blast
  then show ?thesis using discord_bodies.text_renders [OF ps(1)] marked_parts [OF _ ps(2), of "out_format out"]
    by (auto simp: renderMessages_def plain_parts)
qed

section \<open>Properties\<close>

text \<open>
  A text goes out as messages within Discord's cap, whatever its length; a text declared plain is
  escaped without loss, so that a reader sees its characters, newlines at the cuts apart, and no
  character of it is taken for markup.
\<close>
theorem discord_bodies_fit_and_read_as_written:
  "\<exists>bodies. renderMessages out = Some bodies \<and> list_all (\<lambda>b. int (length b) \<le> 2000) bodies \<and>
     (if out_format out = Some Plain then
        filter (\<lambda>c. \<not> nl_class c) (shown bodies) = filter (\<lambda>c. \<not> nl_class c) (out_text out) \<and> all_literal bodies
      else filter (\<lambda>c. \<not> nl_class c) (concat bodies) = filter (\<lambda>c. \<not> nl_class c) (out_text out))"
  using renderMessages_facts [of out] by (auto simp: DISCORD_MAX_MESSAGE_def renders_plain_def split: if_splits)

text \<open>
  An edit replaces a message with exactly the body a send of the same text would make, when the send
  would make one message, and makes no request when the send would make more.
\<close>
theorem discord_edit_agrees_with_send:
  assumes "out_text out \<noteq> []" "messageId \<noteq> []" "accepts_all client"
    and "sent = map body_of (snd (snd (discord_sendMessage (\<lambda>c w. (Returned True, w)) client api out (w, []))))"
  shows "map body_of (snd (snd (discord_editMessage client api messageId out (w, [])))) =
    (if length sent = 1 then sent else [])"
proof -
  obtain bodies where b: "renderMessages out = Some bodies" using renderMessages_facts [of out] by blast
  let ?reqs = "map (\<lambda>c. Create (ch_id (out_channel out)) c (out_replyTo out)) bodies"
  obtain r w' where "send_each (recorded client) ?reqs None (w, []) = (Returned r, (w', ?reqs))"
    using send_each_accepts [OF assms(3), of ?reqs None "(w, [])"] by auto
  then have sent: "sent = bodies" using assms(1,4) b by (simp add: discord_sendMessage_def comp_def)
  have one: "\<exists>i w'. recorded client p (w, []) = (Returned i, (w', [p]))" for p
    using recorded_accepts [OF assms(3), of p "(w, [])"] by simp
  show ?thesis
  proof (cases "\<exists>c. bodies = [c]")
    case True
    then obtain c where c: "bodies = [c]" by blast
    obtain i w' where "recorded client (Patch (ch_id (out_channel out)) messageId c) (w, []) =
        (Returned i, (w', [Patch (ch_id (out_channel out)) messageId c]))" using one by blast
    then show ?thesis using assms(1,2) b c by (simp add: sent discord_editMessage_def)
  next
    case False
    then have "length bodies \<noteq> 1" by (auto simp: length_Suc_conv)
    then show ?thesis using assms(1,2) b False
      by (auto simp: sent discord_editMessage_def split: list.split)
  qed
qed

definition plain_note :: outbound where
  "plain_note = \<lparr>out_channel = \<lparr>ch_id = lit ''c'', ch_type = Group, ch_topicId = None\<rparr>, out_text = lit ''a*b'',
     out_format = Some Plain, out_replyTo = None\<rparr>"

definition counting_client :: "nat discord_client" where
  "counting_client p n = (Returned (lit ''7''), Suc n)"

theorem discord_edit_agrees_with_send_witness:
  "map body_of (snd (snd (discord_editMessage counting_client (\<lambda>e. None) (lit ''4'') plain_note (0, [])))) = [[97, 92, 42, 98]]"
proof -
  have ne: "out_text plain_note \<noteq> []" "lit ''4'' \<noteq> []" by (simp_all add: plain_note_def)
  have acc: "accepts_all counting_client" by (simp add: accepts_all_def counting_client_def)
  have "map body_of (snd (snd (discord_sendMessage (\<lambda>c w. (Returned True, w)) counting_client (\<lambda>e. None) plain_note (0, []))))
      = [[97, 92, 42, 98]]" by code_simp
  from discord_edit_agrees_with_send [OF ne acc this [symmetric]] show ?thesis by simp
qed

text \<open>
  With \<open>requireMention\<close> on, a message of a guild reaches no handler unless it mentions the bot, on the
  socket path and through \<open>deliver\<close> alike: the handler's world is untouched.
\<close>
theorem discord_gate_holds_on_both_paths:
  assumes "dc_requireMention d" "ch_type (ev_channel (normalizeEvent msg)) \<noteq> DM"
    and "case dc_botId d of None \<Rightarrow> True | Some botId \<Rightarrow> botId \<notin> set (dm_mentions msg)"
  shows "env_world (snd (snd (handleInbound msg d env))) = env_world env \<and>
     env_world (snd (snd (discord_deliver (normalizeEvent msg) d env))) = env_world env"
proof -
  have m: "mentions_bot botId (normalizeEvent msg) \<longleftrightarrow> botId \<in> set (dm_mentions msg)" for botId
    by (simp add: mentions_bot_def normalizeEvent_def Let_def del: lit_simps)
  have "\<exists>d1 env1. passesMentionGate d (normalizeEvent msg) env = (False, d1, env1) \<and> env_world env1 = env_world env"
    using assms m
    by (auto simp: passesMentionGate_def warnMissingBotIdOnce_def simp del: lit_simps split: option.splits)
  then show ?thesis by (auto simp: handleInbound_def discord_deliver_def Let_def simp del: lit_simps)
qed

definition quiet_message :: discord_message where
  "quiet_message = \<lparr>dm_id = lit ''1'', dm_channelId = lit ''2'', dm_guildId = Some (lit ''3''), dm_isThread = False,
     dm_threadId = [], dm_author_id = lit ''4'', dm_author_bot = False, dm_username = lit ''u'', dm_globalName = None,
     dm_content = lit ''hi'', dm_created = 0, dm_reference = None, dm_mentions = []\<rparr>"

definition gated_discord :: "nat discord" where
  "gated_discord = \<lparr>dc_requireMention = True, dc_connected = True, dc_warnedMissingBotId = False,
     dc_botId = Some (lit ''9''), dc_handler = Some (0, \<lambda>e env. (Returned (), env\<lparr>env_world := 5\<rparr>))\<rparr>"

theorem discord_gate_holds_on_both_paths_witness:
  "env_world (snd (snd (handleInbound quiet_message gated_discord \<lparr>env_world = 1, env_log = []\<rparr>))) = 1"
proof -
  have a: "dc_requireMention gated_discord" "ch_type (ev_channel (normalizeEvent quiet_message)) \<noteq> DM"
    by (simp_all add: gated_discord_def quiet_message_def normalizeEvent_def)
  have b: "case dc_botId gated_discord of None \<Rightarrow> True | Some botId \<Rightarrow> botId \<notin> set (dm_mentions quiet_message)"
    by (simp add: gated_discord_def quiet_message_def)
  from discord_gate_holds_on_both_paths [OF a b, of "\<lparr>env_world = 1, env_log = []\<rparr>"] show ?thesis by simp
qed

end
