(* ===== verification/SlackAdapter.thy ===== *)
theory SlackAdapter
  imports PartSender WhatsAppInbound
begin

text \<open>
  The Slack adapter (\<open>gateway-slack/src/normalize.ts\<close>, \<open>errors.ts\<close>, \<open>adapter.ts\<close>): the normalizer with its
  loop and mention gates, the error mapping, the connection with its shared attempt and overlapping
  disconnects, and sends. Bolt is a parameter: the app's start, its token check, its requests.
\<close>

section \<open>The normalizer\<close>

record slack_message =
  sm_type :: js
  sm_channel :: js
  sm_channel_type :: "js option"
  sm_user :: "js option"
  sm_text :: "js option"
  sm_ts :: js
  sm_thread_ts :: "js option"
  sm_bot_id :: "js option"
  sm_subtype :: "js option"
  sm_team_id :: "js option"

record slack_event =
  se_id :: js
  se_sender :: js
  se_channel :: channel
  se_text :: js
  se_receivedAt :: number
  se_raw :: slack_message

definition shouldSkipEvent :: "slack_message \<Rightarrow> js option \<Rightarrow> bool" where
  "shouldSkipEvent e botUserId =
     (if sm_type e \<noteq> lit ''message'' then True
      else if sm_user e \<noteq> None \<and> botUserId \<noteq> None \<and> sm_user e = botUserId then True
      else if sm_bot_id e \<noteq> None \<and> sm_user e = None then True
      else if sm_subtype e \<noteq> None \<and> sm_subtype e \<noteq> Some (lit ''thread_broadcast'') then True
      else False)"

definition resolveChannelType :: "slack_message \<Rightarrow> chan_type" where
  "resolveChannelType e =
     (if sm_thread_ts e \<noteq> None \<and> sm_thread_ts e \<noteq> Some (sm_ts e) then Thread
      else if sm_channel_type e = Some (lit ''im'') then DM
      else Group)"

definition or_empty :: "js option \<Rightarrow> js" where
  "or_empty s = (case s of None \<Rightarrow> [] | Some t \<Rightarrow> t)"

definition isMentionGated :: "slack_message \<Rightarrow> chan_type \<Rightarrow> js option \<Rightarrow> bool \<Rightarrow> bool" where
  "isMentionGated e channelType botUserId requireMention \<longleftrightarrow>
     requireMention \<and> channelType = Group \<and> sm_channel_type e = Some (lit ''channel'') \<and>
     (case botUserId of
        None \<Rightarrow> False
      | Some botId \<Rightarrow> \<not> includes_str (or_empty (sm_text e)) (lit ''<@'' @ botId @ lit ''>''))"

definition floored :: "number \<Rightarrow> number" where
  "floored x = (case x of Finite q \<Rightarrow> Finite (of_int \<lfloor>q\<rfloor>) | y \<Rightarrow> y)"

definition times_thousand :: "runtime \<Rightarrow> number \<Rightarrow> number" where
  "times_thousand rt x = (case x of Finite q \<Rightarrow> rt_thousand rt q | y \<Rightarrow> y)"

definition normalizeSlackEvent :: "runtime \<Rightarrow> slack_message \<Rightarrow> js option \<Rightarrow> bool option \<Rightarrow> slack_event option" where
  "normalizeSlackEvent rt e botUserId requireMention =
     (if shouldSkipEvent e botUserId then None
      else let channelType = resolveChannelType e;
               require = (case requireMention of None \<Rightarrow> True | Some b \<Rightarrow> b)
           in if isMentionGated e channelType botUserId require then None
              else Some \<lparr>se_id = lit ''slack-'' @ (case sm_team_id e of None \<Rightarrow> lit ''?'' | Some t \<Rightarrow> t) @ lit ''-''
                     @ sm_channel e @ lit ''-'' @ sm_ts e,
                   se_sender = (case sm_user e of None \<Rightarrow> lit ''anonymous'' | Some u \<Rightarrow> u),
                   se_channel = \<lparr>ch_id = sm_channel e, ch_type = channelType,
                     ch_topicId = (if channelType = Thread then sm_thread_ts e else None)\<rparr>,
                   se_text = or_empty (sm_text e),
                   se_receivedAt = floored (times_thousand rt (rt_number rt (sm_ts e))),
                   se_raw = e\<rparr>)"

section \<open>Errors\<close>

text \<open>What the mapping reads of a thrown value; \<open>None\<close> when it is \<open>null\<close> or \<open>undefined\<close>.\<close>

record slack_error =
  sx_data_error :: "js option"
  sx_code :: "js option"
  sx_retry_after :: "js option"
  sx_needed :: "js option"
  sx_scope :: "js option"
  sx_message :: "js option"

fun first_of :: "js option \<Rightarrow> js \<Rightarrow> js" where
  "first_of (Some s) d = s"
| "first_of None d = d"

definition mapSlackError :: "slack_error \<Rightarrow> send_result" where
  "mapSlackError e =
     (let code = first_of (sx_data_error e) (first_of (sx_code e) (lit ''platform_error'')) in
      if code = lit ''rate_limited''
      then send_refused (lit ''rate_limit'') (lit ''retry after '' @ first_of (sx_retry_after e) (lit ''?'') @ lit ''s'')
      else if code = lit ''channel_not_found''
      then send_refused (lit ''channel_not_found'') (lit ''channel id not found'')
      else if code \<in> set [lit ''not_in_channel'', lit ''missing_scope'']
      then send_refused (lit ''no_permission'') (first_of (sx_needed e) (first_of (sx_scope e) code))
      else if code \<in> set [lit ''invalid_auth'', lit ''token_revoked'', lit ''account_inactive'']
      then send_refused (lit ''auth_error'') code
      else if code \<in> set [lit ''message_limit_exceeded'', lit ''msg_too_long'']
      then send_refused (lit ''message_too_long'') code
      else send_refused (lit ''platform_error'') (code @ lit '': '' @ first_of (sx_message e) (lit ''unknown'')))"

section \<open>The connection\<close>

text \<open>
  Apps are numbered as they are constructed. \<open>sl_connecting\<close> is the attempt in flight: awaiting the app's
  start, the token check, or the stop of a failed attempt's app; it is numbered as its app. \<open>sl_stops\<close> is the
  apps that disconnects await the stop of, \<open>sl_waiting\<close> the attempts that disconnects await. \<open>sl_running\<close> is the
  apps with an open socket; a stop that rejects is taken to have closed it.
\<close>

datatype stage = Starting | Authing | CleaningUp

record slack =
  sl_app :: "nat option"
  sl_connected :: bool
  sl_botUserId :: "js option"
  sl_connecting :: "(nat \<times> stage) option"
  sl_next :: nat
  sl_running :: "nat list"
  sl_stops :: "nat list"
  sl_waiting :: "nat list"

definition newSlackAdapter :: slack where
  "newSlackAdapter = \<lparr>sl_app = None, sl_connected = False, sl_botUserId = None, sl_connecting = None, sl_next = 0,
     sl_running = [], sl_stops = [], sl_waiting = []\<rparr>"

text \<open>
  \<open>connect\<close>: at once when connected, joining the attempt in flight, or a new attempt.
\<close>

definition slack_connect :: "slack \<Rightarrow> slack" where
  "slack_connect s =
     (if sl_connected s then s
      else if sl_connecting s \<noteq> None then s
      else s\<lparr>sl_app := Some (sl_next s), sl_next := Suc (sl_next s), sl_connecting := Some (sl_next s, Starting)\<rparr>)"

text \<open>The \<open>catch\<close> of \<open>_doConnect\<close>: the app still held is stopped, and the fields are cleared.\<close>

definition connect_failed :: "slack \<Rightarrow> slack" where
  "connect_failed s =
     (case sl_app s of
        Some a \<Rightarrow> s\<lparr>sl_connecting := Some (a, CleaningUp)\<rparr>
      | None \<Rightarrow> s\<lparr>sl_app := None, sl_botUserId := None, sl_connecting := None\<rparr>)"

definition app_started :: "bool \<Rightarrow> slack \<Rightarrow> slack" where
  "app_started ok s =
     (case sl_connecting s of
        Some (a, Starting) \<Rightarrow>
          if \<not> ok then connect_failed s
          else let s1 = s\<lparr>sl_running := a # sl_running s\<rparr>
               in if sl_app s1 = None then connect_failed s1 else s1\<lparr>sl_connecting := Some (a, Authing)\<rparr>
      | _ \<Rightarrow> s)"

definition auth_tested :: "js option \<Rightarrow> slack \<Rightarrow> slack" where
  "auth_tested userId s =
     (case sl_connecting s of
        Some (a, Authing) \<Rightarrow>
          (case userId of
             None \<Rightarrow> connect_failed s
           | Some u \<Rightarrow> s\<lparr>sl_botUserId := Some u, sl_connected := True, sl_connecting := None\<rparr>)
      | _ \<Rightarrow> s)"

definition cleaned_up :: "slack \<Rightarrow> slack" where
  "cleaned_up s =
     (case sl_connecting s of
        Some (a, CleaningUp) \<Rightarrow>
          s\<lparr>sl_running := removeAll a (sl_running s), sl_app := None, sl_botUserId := None, sl_connecting := None\<rparr>
      | _ \<Rightarrow> s)"

definition begin_stop :: "slack \<Rightarrow> slack" where
  "begin_stop s = (case sl_app s of None \<Rightarrow> s | Some a \<Rightarrow> s\<lparr>sl_stops := sl_stops s @ [a]\<rparr>)"

definition slack_disconnect :: "slack \<Rightarrow> slack" where
  "slack_disconnect s =
     (case sl_connecting s of
        Some (k, st) \<Rightarrow> s\<lparr>sl_waiting := sl_waiting s @ [k]\<rparr>
      | None \<Rightarrow> begin_stop s)"

text \<open>
  A disconnect that awaited attempt \<open>k\<close> goes on once that attempt has settled, whatever was called since: it stops
  the app the adapter holds then, be it that of a later attempt still in flight.
\<close>

definition disconnect_resumed :: "nat \<Rightarrow> slack \<Rightarrow> slack" where
  "disconnect_resumed k s =
     (if k \<in> set (sl_waiting s) \<and> map_option fst (sl_connecting s) \<noteq> Some k
      then begin_stop (s\<lparr>sl_waiting := remove1 k (sl_waiting s)\<rparr>)
      else s)"

text \<open>A stop of app \<open>a\<close> settles: the rest of the \<open>disconnect\<close> that awaited it.\<close>

definition app_stopped :: "nat \<Rightarrow> slack \<Rightarrow> slack" where
  "app_stopped a s =
     (if a \<in> set (sl_stops s)
      then s\<lparr>sl_stops := remove1 a (sl_stops s), sl_running := removeAll a (sl_running s), sl_app := None,
          sl_connected := False, sl_botUserId := None\<rparr>
      else s)"

datatype slack_step = Connect | Started bool | Authed "js option" | CleanedUp | Disconnect | Resumed nat | Stopped nat

fun slack_next :: "slack \<Rightarrow> slack_step \<Rightarrow> slack" where
  "slack_next s Connect = slack_connect s"
| "slack_next s (Started ok) = app_started ok s"
| "slack_next s (Authed userId) = auth_tested userId s"
| "slack_next s CleanedUp = cleaned_up s"
| "slack_next s Disconnect = slack_disconnect s"
| "slack_next s (Resumed k) = disconnect_resumed k s"
| "slack_next s (Stopped a) = app_stopped a s"

section \<open>Sends\<close>

record slack_post =
  sp_channel :: js
  sp_text :: js
  sp_thread :: "js option"
  sp_mrkdwn :: bool

definition post_of :: "outbound \<Rightarrow> js \<Rightarrow> slack_post" where
  "post_of out chunk = \<lparr>sp_channel = ch_id (out_channel out), sp_text = chunk, sp_thread = ch_topicId (out_channel out),
     sp_mrkdwn = (out_format out = Some Markdown)\<rparr>"

text \<open>
  \<open>postChunk\<close>: \<open>held w\<close> says whether the adapter still holds an app in the world \<open>w\<close>; when it does not, the
  optional chain answers \<open>undefined\<close> and nothing is sent.
\<close>

definition postChunk ::
    "('w \<Rightarrow> bool) \<Rightarrow> (slack_post \<Rightarrow> 'w \<Rightarrow> js option outcome \<times> 'w) \<Rightarrow> slack_post
       \<Rightarrow> ('w, slack_post) site \<Rightarrow> js option outcome \<times> ('w, slack_post) site" where
  "postChunk held client p s = (if held (fst s) then recorded client p s else (Returned None, s))"

definition slack_sendMessage ::
    "('w \<Rightarrow> bool) \<Rightarrow> (slack_post \<Rightarrow> 'w \<Rightarrow> js option outcome \<times> 'w) \<Rightarrow> (thrown \<Rightarrow> slack_error option) \<Rightarrow> slack
       \<Rightarrow> outbound \<Rightarrow> ('w, slack_post) site \<Rightarrow> send_result outcome \<times> ('w, slack_post) site" where
  "slack_sendMessage held client read sl out s =
     (if out_text out = [] then (Returned (send_refused (lit ''empty_text'') (lit ''text is empty'')), s)
      else if sl_app sl = None \<or> \<not> sl_connected sl
      then (Returned (send_refused (lit ''not_connected'') (lit ''adapter not connected'')), s)
      else case splitForSlack (out_text out) of
        Some (Inr chunks) \<Rightarrow>
          (case send_each (postChunk held client) (map (post_of out) chunks) None s of
             (Threw err, s1) \<Rightarrow>
               ((case read err of None \<Rightarrow> Threw type_error | Some e \<Rightarrow> Returned (mapSlackError e)), s1)
           | (Returned lastId, s1) \<Rightarrow>
               (Returned (send_ok (case lastId of None \<Rightarrow> None | Some ts \<Rightarrow> ts)), s1))
      | _ \<Rightarrow> (Threw type_error, s))"

definition slack_editMessage ::
    "(js \<Rightarrow> js \<Rightarrow> js \<Rightarrow> 'w \<Rightarrow> unit outcome \<times> 'w) \<Rightarrow> (thrown \<Rightarrow> slack_error option) \<Rightarrow> slack \<Rightarrow> js \<Rightarrow> outbound
       \<Rightarrow> 'w \<Rightarrow> send_result outcome \<times> 'w" where
  "slack_editMessage update read sl messageId out w =
     (if out_text out = [] then (Returned (send_refused (lit ''empty_text'') (lit ''text is empty'')), w)
      else if sl_app sl = None \<or> \<not> sl_connected sl
      then (Returned (send_refused (lit ''not_connected'') (lit ''adapter not connected'')), w)
      else if messageId = []
      then (Returned (send_refused (lit ''invalid_message_id'') (lit ''message id is empty'')), w)
      else case splitForSlack (out_text out) of
        Some (Inr [part]) \<Rightarrow>
          (case update (ch_id (out_channel out)) messageId part w of
             (Threw err, w1) \<Rightarrow> ((case read err of None \<Rightarrow> Threw type_error | Some e \<Rightarrow> Returned (mapSlackError e)), w1)
           | (Returned _, w1) \<Rightarrow> (Returned (send_ok (Some messageId)), w1))
      | Some (Inr parts) \<Rightarrow> (Returned (edit_refusal (lit ''Slack messages'') (length parts)), w)
      | _ \<Rightarrow> (Threw type_error, w))"

section \<open>Inbound\<close>

type_synonym 'w slack_handler = "(nat \<times> (slack_event \<Rightarrow> ('w, unit) comp)) option"

definition handleMessage ::
    "runtime \<Rightarrow> js option \<Rightarrow> bool option \<Rightarrow> 'w slack_handler \<Rightarrow> slack_message \<Rightarrow> 'w env \<Rightarrow> 'w env" where
  "handleMessage rt botUserId requireMention handler e env =
     (case handler of
        None \<Rightarrow> env
      | Some (h, f) \<Rightarrow>
          (case normalizeSlackEvent rt e botUserId requireMention of
             None \<Rightarrow> env
           | Some event \<Rightarrow>
               (case f event env of
                  (Returned _, env1) \<Rightarrow> env1
                | (Threw err, env1) \<Rightarrow> write_line (lit ''[slack-adapter] handler threw: '' @ text_of err) env1)))"

definition slack_onInbound :: "nat \<Rightarrow> (slack_event \<Rightarrow> ('w, unit) comp) \<Rightarrow> 'w slack_handler" where
  "slack_onInbound h f = Some (h, f)"

definition slack_off :: "nat \<Rightarrow> 'w slack_handler \<Rightarrow> 'w slack_handler" where
  "slack_off h handler = (if map_option fst handler = Some h then None else handler)"

section \<open>What the connection holds\<close>

text \<open>With one disconnect at a time, every open socket belongs to the app the adapter holds.\<close>

definition slack_inv :: "slack \<Rightarrow> bool" where
  "slack_inv s \<longleftrightarrow>
     set (sl_running s) \<subseteq> set_option (sl_app s) \<and>
     (case sl_connecting s of
        Some (a, st) \<Rightarrow> sl_app s = Some a \<and> \<not> sl_connected s \<and> sl_stops s = [] \<and>
          (sl_waiting s = [] \<or> sl_waiting s = [a])
      | None \<Rightarrow> (sl_connected s \<longleftrightarrow> sl_app s \<noteq> None) \<and>
          (sl_stops s = [] \<and> (sl_waiting s = [] \<or> (\<exists>k. sl_waiting s = [k])) \<or>
           (\<exists>a. sl_stops s = [a] \<and> sl_app s = Some a \<and> sl_waiting s = [])))"

text \<open>
  The calls the adapter copes with: no disconnect while another stops the app or awaits an attempt, and no new
  attempt while a disconnect that awaited an earlier one has still to go on.
\<close>

fun in_order :: "slack \<Rightarrow> slack_step \<Rightarrow> bool" where
  "in_order s Disconnect = (sl_stops s = [] \<and> sl_waiting s = [])"
| "in_order s Connect = (sl_waiting s = [] \<or> sl_connected s \<or> sl_connecting s \<noteq> None)"
| "in_order s _ = True"

fun orderly :: "slack \<Rightarrow> slack_step list \<Rightarrow> bool" where
  "orderly s [] = True"
| "orderly s (e # es) = (in_order s e \<and> orderly (slack_next s e) es)"

lemmas slack_step_defs = slack_connect_def app_started_def auth_tested_def cleaned_up_def slack_disconnect_def
  disconnect_resumed_def app_stopped_def connect_failed_def begin_stop_def

lemma slack_inv_step:
  assumes "slack_inv s" "in_order s e"
  shows "slack_inv (slack_next s e)"
proof (cases "sl_connecting s")
  case None
  then show ?thesis using assms
    by (cases e) (auto simp: slack_inv_def slack_step_defs split: option.splits list.splits)
next
  case (Some p)
  obtain a st where p: "p = (a, st)" by fastforce
  show ?thesis using assms Some p
    by (cases e; cases st) (auto simp: slack_inv_def slack_step_defs split: option.splits list.splits)
qed

lemma slack_inv_run: "slack_inv s \<Longrightarrow> orderly s es \<Longrightarrow> slack_inv (foldl slack_next s es)"
  by (induction es arbitrary: s) (auto intro: slack_inv_step)

section \<open>What a send delivers\<close>

text \<open>No call of the client takes the app away.\<close>

definition keeps :: "('w \<Rightarrow> bool) \<Rightarrow> ('p \<Rightarrow> 'w \<Rightarrow> 'i outcome \<times> 'w) \<Rightarrow> bool" where
  "keeps held client \<longleftrightarrow> (\<forall>p w. held w \<longrightarrow> held (snd (client p w)))"

lemma held_send:
  assumes "keeps held client" "held (fst s)"
  shows "send_each (postChunk held client) ps lastId s = send_each (recorded client) ps lastId s"
  using assms(2)
proof (induction ps arbitrary: lastId s)
  case (Cons p ps)
  have "held (fst (snd (recorded client p s)))"
    using assms(1) Cons.prems by (auto simp: keeps_def recorded_def split: prod.split outcome.split) (metis snd_conv)+
  then show ?case using Cons by (auto simp: postChunk_def split: prod.split outcome.split)
qed simp

section \<open>Properties\<close>

text \<open>
  C7: as long as no disconnect is called while another is still stopping the app or waiting for an attempt, and no
  connect starts a new attempt while a disconnect that waited for an earlier one has still to go on, whatever else is
  called and however starts and token checks end: every open socket is the held app's, and the adapter says it is
  connected only while it holds one. Without either condition a socket leaks (\<open>overlapping_disconnects_leak_a_socket\<close>,
  \<open>retry_before_a_waiting_disconnect_leaks_a_socket\<close>).
\<close>
theorem slack_sockets_are_held:
  assumes "orderly newSlackAdapter es" "s = foldl slack_next newSlackAdapter es"
  shows "set (sl_running s) \<subseteq> set_option (sl_app s) \<and> (sl_app s \<noteq> None \<or> \<not> sl_connected s)"
proof -
  have "slack_inv newSlackAdapter" by (simp add: slack_inv_def newSlackAdapter_def)
  from slack_inv_run [OF this assms(1)] show ?thesis using assms(2)
    by (auto simp: slack_inv_def split: option.splits)
qed

theorem slack_sockets_are_held_witness:
  "set (sl_running (foldl slack_next newSlackAdapter [Connect, Disconnect, Started True, Authed (Some []), Resumed 0])) \<subseteq> {0}"
proof -
  let ?es = "[Connect, Disconnect, Started True, Authed (Some []), Resumed 0]"
  have "orderly newSlackAdapter ?es" by code_simp
  moreover have "sl_app (foldl slack_next newSlackAdapter ?es) = Some 0" by code_simp
  ultimately show ?thesis using slack_sockets_are_held [of ?es] by simp
qed

text \<open>
  Two overlapping disconnects with a connect between their ends leak a socket: the second one's end
  clears the fields of the app the connect has just constructed, which goes on to start with nothing
  holding it.
\<close>
theorem overlapping_disconnects_leak_a_socket:
  "\<exists>es. sl_app (foldl slack_next newSlackAdapter es) = None \<and>
        sl_connecting (foldl slack_next newSlackAdapter es) = None \<and>
        sl_stops (foldl slack_next newSlackAdapter es) = [] \<and>
        sl_running (foldl slack_next newSlackAdapter es) = [1]"
proof -
  let ?es = "[Connect, Started True, Authed (Some []), Disconnect, Disconnect, Stopped 0, Connect, Stopped 0, Started True]"
  have "sl_app (foldl slack_next newSlackAdapter ?es) = None" by code_simp
  moreover have "sl_connecting (foldl slack_next newSlackAdapter ?es) = None" by code_simp
  moreover have "sl_stops (foldl slack_next newSlackAdapter ?es) = []" by code_simp
  moreover have "sl_running (foldl slack_next newSlackAdapter ?es) = [1]" by code_simp
  ultimately show ?thesis by blast
qed

text \<open>
  So does a connect that is retried before a disconnect that waited for the failed attempt goes on, as a caller who
  awaited that attempt first does: the disconnect stops the app of the second attempt, and if that one fails and a
  third is made before the stop settles, the disconnect's end clears the fields of the third's app. It goes on to
  start with nothing holding it.
\<close>
theorem retry_before_a_waiting_disconnect_leaks_a_socket:
  "\<exists>es. length (filter (\<lambda>e. e = Disconnect) es) = 1 \<and>
        sl_app (foldl slack_next newSlackAdapter es) = None \<and>
        sl_connecting (foldl slack_next newSlackAdapter es) = None \<and>
        sl_stops (foldl slack_next newSlackAdapter es) = [] \<and> sl_waiting (foldl slack_next newSlackAdapter es) = [] \<and>
        sl_running (foldl slack_next newSlackAdapter es) = [2]"
proof -
  let ?es = "[Connect, Disconnect, Started False, CleanedUp, Connect, Resumed 0, Started False, CleanedUp, Connect,
    Stopped 1, Started True]"
  have "sl_app (foldl slack_next newSlackAdapter ?es) = None" by code_simp
  moreover have "sl_connecting (foldl slack_next newSlackAdapter ?es) = None" by code_simp
  moreover have "sl_stops (foldl slack_next newSlackAdapter ?es) = []" by code_simp
  moreover have "sl_waiting (foldl slack_next newSlackAdapter ?es) = []" by code_simp
  moreover have "sl_running (foldl slack_next newSlackAdapter ?es) = [2]" by code_simp
  moreover have "length (filter (\<lambda>e. e = Disconnect) ?es) = 1" by simp
  ultimately show ?thesis by blast
qed

text \<open>
  A send that answers success posted every part of the text, in order, when the adapter keeps its
  app during the send.
\<close>
theorem slack_success_posts_every_part:
  assumes "keeps held client" "held w" "splitForSlack (out_text out) = Some (Inr chunks)"
    and "slack_sendMessage held client read sl out (w, posts) = (Returned (send_ok mid), (w', posts'))"
  shows "posts' = posts @ map (post_of out) chunks"
proof -
  have ne: "out_text out \<noteq> []" "\<not> (sl_app sl = None \<or> \<not> sl_connected sl)"
    using assms(4) by (auto simp: slack_sendMessage_def send_ok_def send_refused_def split: if_splits)
  have refused: "mapSlackError e \<noteq> send_ok mid" for e mid
    by (simp add: mapSlackError_def Let_def send_ok_def send_refused_def)
  obtain r s1 where run: "send_each (recorded client) (map (post_of out) chunks) None (w, posts) = (r, s1)"
    by (cases "send_each (recorded client) (map (post_of out) chunks) None (w, posts)") (rule that)
  then have "send_each (postChunk held client) (map (post_of out) chunks) None (w, posts) = (r, s1)"
    using held_send [OF assms(1), of "(w, posts)"] assms(2) by simp
  then have "\<exists>x. r = Returned x" "s1 = (w', posts')" using assms(3,4) ne refused
    by (auto simp: slack_sendMessage_def split: outcome.splits option.splits)
  then show ?thesis using site.all_delivered run by fastforce
qed

definition slack_ready :: slack where
  "slack_ready = newSlackAdapter\<lparr>sl_app := Some 0, sl_connected := True\<rparr>"

definition slack_note :: "js \<Rightarrow> outbound" where
  "slack_note s = \<lparr>out_channel = \<lparr>ch_id = lit ''C1'', ch_type = Group, ch_topicId = None\<rparr>, out_text = s,
     out_format = None, out_replyTo = None\<rparr>"

theorem slack_success_posts_every_part_witness:
  "snd (snd (slack_sendMessage (\<lambda>n. True) (\<lambda>p n :: nat. (Returned (Some (lit ''1.2'')), Suc n)) (\<lambda>e. None) slack_ready
     (slack_note (lit ''hi'')) (0, []))) = [post_of (slack_note (lit ''hi'')) (lit ''hi'')]"
proof -
  let ?c = "\<lambda>p n :: nat. (Returned (Some (lit ''1.2'')), Suc n)"
  let ?o = "slack_note (lit ''hi'')"
  have k: "keeps (\<lambda>n. True) ?c" by (simp add: keeps_def)
  have sp: "splitForSlack (out_text ?o) = Some (Inr [lit ''hi''])" by code_simp
  have "slack_sendMessage (\<lambda>n. True) ?c (\<lambda>e. None) slack_ready ?o (0, []) =
      (Returned (send_ok (Some (lit ''1.2''))), (1, [post_of ?o (lit ''hi'')]))" by code_simp
  from slack_success_posts_every_part [OF k _ sp this] show ?thesis
    using \<open>slack_sendMessage (\<lambda>n. True) ?c (\<lambda>e. None) slack_ready ?o (0, []) = _\<close> by simp
qed

text \<open>
  When the app goes away after the first part of a text that takes several, as it does on a
  disconnect, the send answers success although no other part was posted.
\<close>
theorem slack_success_without_the_rest:
  assumes "out_text out \<noteq> []" "splitForSlack (out_text out) = Some (Inr (c # cs))" "cs \<noteq> []"
  shows "slack_sendMessage (\<lambda>gone. \<not> gone) (\<lambda>p gone. (Returned ts, True)) read slack_ready out (False, []) =
    (Returned (send_ok None), (True, [post_of out c]))"
proof -
  have rest: "send_each (postChunk (\<lambda>gone. \<not> gone) client) ps lastId (True, posts) =
      (Returned (if ps = [] then lastId else Some None), (True, posts))" for client ps lastId posts
    by (induction ps arbitrary: lastId) (auto simp: postChunk_def)
  show ?thesis using assms
    by (simp add: slack_sendMessage_def slack_ready_def newSlackAdapter_def postChunk_def recorded_def
        rest [unfolded postChunk_def [abs_def]] rest)
qed

lemma long_text_has_parts:
  assumes "splitForSlack t = Some (Inr ps)" "4000 < length t" "\<forall>c\<in>set t. \<not> is_space c"
  shows "\<exists>c cs. ps = c # cs \<and> cs \<noteq> []"
proof -
  have "filter (\<lambda>c. \<not> is_space c) (concat ps) = t"
    using slack.splits_content [OF assms(1)] assms(3) by (simp add: filter_id_conv)
  then have len: "4000 < length (concat ps)" using assms(2) length_filter_le [of "\<lambda>c. \<not> is_space c" "concat ps"] by simp
  have fit: "length p \<le> 4000" if "p \<in> set ps" for p using slack.splits_fit [OF assms(1) that] by simp
  show ?thesis
  proof (cases ps)
    case (Cons c cs)
    then have "cs \<noteq> []" using len fit [of c] by (cases cs) auto
    then show ?thesis using Cons by blast
  qed (use len in simp)
qed

theorem slack_success_without_the_rest_witness:
  "\<exists>c. slack_sendMessage (\<lambda>gone. \<not> gone) (\<lambda>p gone. (Returned None, True)) (\<lambda>e. None) slack_ready
     (slack_note (replicate 4001 97)) (False, []) = (Returned (send_ok None), (True, [post_of (slack_note (replicate 4001 97)) c]))"
proof -
  let ?o = "slack_note (replicate 4001 97)"
  have t: "out_text ?o = replicate 4001 97" by (simp add: slack_note_def)
  obtain ps where ps: "splitForSlack (out_text ?o) = Some (Inr ps)" using slack.splits_total by blast
  obtain c cs where cs: "ps = c # cs" "cs \<noteq> []"
    using long_text_has_parts [OF ps] unfolding t by (auto simp: is_space_def)
  have "out_text ?o \<noteq> []" unfolding t by simp
  from slack_success_without_the_rest [OF this ps [unfolded cs(1)] cs(2)] show ?thesis by blast
qed

end
