(* ===== verification/TelegramAdapter.thy ===== *)
theory TelegramAdapter
  imports PartSender TelegramSplit WhatsAppInbound
begin

text \<open>
  The Telegram adapter (\<open>gateway-telegram/src/parse-inbound.ts\<close>, \<open>group-policy.ts\<close>, \<open>channel.ts\<close>,
  \<open>adapter.ts\<close>): the mapping from updates to events shared by polling and webhooks, the group policy, the
  configuration of the channel, sends and edits. grammy is a parameter: its requests, its start and the
  class of what it throws. \<open>lower\<close> is \<open>toLowerCase\<close>.
\<close>

section \<open>Events\<close>

record tg_chat =
  tc_id :: rat
  tc_type :: js

record tg_message =
  tm_message_id :: rat
  tm_date :: rat
  tm_text :: "js option"
  tm_caption :: "js option"
  tm_thread :: "rat option"
  tm_reply :: "rat option"

record tg_user =
  tu_id :: rat
  tu_username :: "js option"
  tu_first_name :: "js option"

record 'r telegram_event =
  te_id :: js
  te_sender :: sender
  te_channel :: channel
  te_text :: js
  te_receivedAt :: number
  te_replyTo :: "js option"
  te_chatId :: rat
  te_messageId :: rat
  te_threadId :: "rat option"
  te_raw :: 'r

definition buildEvent :: "runtime \<Rightarrow> tg_chat \<Rightarrow> tg_message \<Rightarrow> tg_user option \<Rightarrow> 'r \<Rightarrow> 'r telegram_event" where
  "buildEvent rt chat msg from raw =
     (let channelType = (if tc_type chat = lit ''private'' then DM else if tm_thread msg \<noteq> None then Thread else Group)
      in \<lparr>te_id = lit ''tg-'' @ rt_text rt (tc_id chat) @ lit ''-'' @ rt_text rt (tm_message_id msg),
          te_sender = \<lparr>snd_id = (case from of None \<Rightarrow> lit ''anonymous'' | Some u \<Rightarrow> rt_text rt (tu_id u)),
            snd_username = (case from of None \<Rightarrow> None | Some u \<Rightarrow> tu_username u),
            snd_displayName = (case from of None \<Rightarrow> None | Some u \<Rightarrow> tu_first_name u)\<rparr>,
          te_channel = \<lparr>ch_id = rt_text rt (tc_id chat), ch_type = channelType,
            ch_topicId = map_option (rt_text rt) (tm_thread msg)\<rparr>,
          te_text = (case tm_text msg of Some t \<Rightarrow> t | None \<Rightarrow> (case tm_caption msg of Some c \<Rightarrow> c | None \<Rightarrow> [])),
          te_receivedAt = rt_thousand rt (tm_date msg),
          te_replyTo = map_option (rt_text rt) (tm_reply msg),
          te_chatId = tc_id chat, te_messageId = tm_message_id msg, te_threadId = tm_thread msg, te_raw = raw\<rparr>)"

section \<open>Webhook updates\<close>

text \<open>An object that is not an array. A number of a parsed body is finite.\<close>

fun object_of :: "json option \<Rightarrow> json option" where
  "object_of (Some (JObj fs)) = Some (JObj fs)"
| "object_of _ = None"

fun number_of :: "json option \<Rightarrow> rat option" where
  "number_of (Some (JNum q)) = Some q"
| "number_of _ = None"

definition prop_of :: "json \<Rightarrow> string \<Rightarrow> json option" where
  "prop_of v k = member_of v (lit k)"

definition narrowMessage :: "json \<Rightarrow> rat \<Rightarrow> rat \<Rightarrow> tg_message" where
  "narrowMessage msg messageId date =
     \<lparr>tm_message_id = messageId, tm_date = date, tm_text = string_of (prop_of msg ''text''),
      tm_caption = string_of (prop_of msg ''caption''), tm_thread = number_of (prop_of msg ''message_thread_id''),
      tm_reply = (case object_of (prop_of msg ''reply_to_message'') of
        None \<Rightarrow> None | Some r \<Rightarrow> number_of (prop_of r ''message_id''))\<rparr>"

definition narrowSender :: "json option \<Rightarrow> tg_user option" where
  "narrowSender value =
     (case object_of value of
        None \<Rightarrow> None
      | Some v \<Rightarrow>
          (case number_of (prop_of v ''id'') of
             None \<Rightarrow> None
           | Some i \<Rightarrow> Some \<lparr>tu_id = i, tu_username = string_of (prop_of v ''username''),
               tu_first_name = string_of (prop_of v ''first_name'')\<rparr>))"

definition finite_stamp :: "runtime \<Rightarrow> rat \<Rightarrow> bool" where
  "finite_stamp rt date = (case rt_thousand rt date of Finite q \<Rightarrow> True | _ \<Rightarrow> False)"

definition parseInbound :: "runtime \<Rightarrow> json \<Rightarrow> json telegram_event option" where
  "parseInbound rt payload =
     (case object_of (Some payload) of
        None \<Rightarrow> None
      | Some update \<Rightarrow>
          (case object_of (prop_of update ''message'') of
             None \<Rightarrow> None
           | Some msg \<Rightarrow>
               (case (number_of (prop_of msg ''message_id''), number_of (prop_of msg ''date'')) of
                  (Some messageId, Some date) \<Rightarrow>
                    if \<not> finite_stamp rt date then None
                    else (case object_of (prop_of msg ''chat'') of
                       None \<Rightarrow> None
                     | Some chat \<Rightarrow>
                         (case (number_of (prop_of chat ''id''), string_of (prop_of chat ''type'')) of
                            (Some i, Some t) \<Rightarrow>
                              Some (buildEvent rt \<lparr>tc_id = i, tc_type = t\<rparr> (narrowMessage msg messageId date)
                                (narrowSender (prop_of msg ''from'')) payload)
                          | _ \<Rightarrow> None))
                | _ \<Rightarrow> None)))"

section \<open>The group policy\<close>

record tg_policy =
  po_botUsername :: js
  po_botId :: rat

text \<open>An update as the policy reads it: the chat, the message, and the author of the message replied to.\<close>

record tg_update =
  up_chat :: "tg_chat option"
  up_message :: "tg_message option"
  up_reply_from :: "rat option"

definition text_or_caption :: "tg_message option \<Rightarrow> js" where
  "text_or_caption m =
     (case m of
        None \<Rightarrow> []
      | Some msg \<Rightarrow> (case tm_text msg of Some t \<Rightarrow> t | None \<Rightarrow> (case tm_caption msg of Some c \<Rightarrow> c | None \<Rightarrow> [])))"

definition shouldRespondInChat :: "(js \<Rightarrow> js) \<Rightarrow> tg_update \<Rightarrow> tg_policy \<Rightarrow> bool" where
  "shouldRespondInChat lower up policy =
     (case up_chat up of
        None \<Rightarrow> False
      | Some chat \<Rightarrow>
          if tc_type chat = lit ''private'' then True
          else let txt = text_or_caption (up_message up) in
            if prefix (lit ''/'') txt then True
            else if up_reply_from up = Some (po_botId policy) then True
            else includes_str (lower txt) (64 # lower (po_botUsername policy)))"

text \<open>
  \<open>new RegExp("@" + botUsername, "gi")\<close> for a username of letters, digits and underscores, as Telegram
  issues: matching ignores the case of ASCII letters.
\<close>

definition same_letter :: "cu \<Rightarrow> cu \<Rightarrow> bool" where
  "same_letter a b \<longleftrightarrow> a = b \<or> 65 \<le> a \<and> a \<le> 90 \<and> b = a + 32 \<or> 65 \<le> b \<and> b \<le> 90 \<and> a = b + 32"

definition starts_like :: "js \<Rightarrow> js \<Rightarrow> bool" where
  "starts_like p s \<longleftrightarrow> list_all2 same_letter p (take (length p) s)"

function remove_mentions :: "js \<Rightarrow> js \<Rightarrow> js" where
  "remove_mentions username [] = []"
| "remove_mentions username (c # s) =
     (if starts_like (64 # username) (c # s) then remove_mentions username (drop (length username) s)
      else c # remove_mentions username s)"
  by pat_completeness auto
termination
  by (relation "measure (\<lambda>(_, s). length s)") auto

definition stripBotMention :: "js \<Rightarrow> js \<Rightarrow> js" where
  "stripBotMention txt botUsername = js_trim (remove_mentions botUsername txt)"

section \<open>The channel's configuration\<close>

definition invalid_config :: "js \<Rightarrow> js \<Rightarrow> config_error" where
  "invalid_config key expected =
     GatewayConfigurationError (lit ''gateway-telegram'') (lit ''invalid_config'')
       (Some (lit ''gateway-telegram: config.'' @ key @ lit '' must be '' @ expected)) (Some key)"

definition readToken :: "json \<Rightarrow> config_error + js" where
  "readToken config =
     (case string_of (prop_of config ''token'') of
        None \<Rightarrow> Inl (invalid_config (lit ''token'') (lit ''a string''))
      | Some token \<Rightarrow>
          if token = []
          then Inl (GatewayConfigurationError (lit ''gateway-telegram'') (lit ''token_required'')
            (Some (lit ''gateway-telegram: config.token is empty'')) (Some (lit ''token'')))
          else Inr token)"

fun string_list :: "json list \<Rightarrow> js list option" where
  "string_list [] = Some []"
| "string_list (v # vs) =
     (case (string_of (Some v), string_list vs) of (Some s, Some ss) \<Rightarrow> Some (s # ss) | _ \<Rightarrow> None)"

definition readAllowedUsers :: "json \<Rightarrow> config_error + js list option" where
  "readAllowedUsers config =
     (case prop_of config ''allowedUsers'' of
        None \<Rightarrow> Inr None
      | Some JNull \<Rightarrow> Inr None
      | Some (JArr vs) \<Rightarrow>
          (case string_list vs of
             Some ids \<Rightarrow> Inr (Some ids)
           | None \<Rightarrow> Inl (invalid_config (lit ''allowedUsers'') (lit ''an array of user id strings'')))
      | Some v \<Rightarrow> Inl (invalid_config (lit ''allowedUsers'') (lit ''an array of user id strings'')))"

record 'w telegram =
  tg_allowedUsers :: js_set
  tg_connected :: bool
  tg_handler :: "(nat \<times> (nat telegram_event \<Rightarrow> ('w, unit) comp)) option"

definition newTelegramAdapter :: "js list option \<Rightarrow> 'w telegram" where
  "newTelegramAdapter allowedUsers =
     \<lparr>tg_allowedUsers = set_of (case allowedUsers of None \<Rightarrow> [] | Some us \<Rightarrow> us), tg_connected = False, tg_handler = None\<rparr>"

definition telegram_create :: "json \<Rightarrow> config_error + js \<times> 'w telegram" where
  "telegram_create config =
     (case readToken config of
        Inl err \<Rightarrow> Inl err
      | Inr token \<Rightarrow>
          (case readAllowedUsers config of
             Inl err \<Rightarrow> Inl err
           | Inr allowedUsers \<Rightarrow> Inr (token, newTelegramAdapter allowedUsers)))"

section \<open>The connection\<close>

definition telegram_connect ::
    "('w \<Rightarrow> unit outcome \<times> 'w) \<Rightarrow> 'w telegram \<Rightarrow> 'w env \<Rightarrow> bool outcome \<times> 'w telegram \<times> 'w env" where
  "telegram_connect init t env =
     (if tg_connected t then (Returned True, t, env)
      else case init (env_world env) of
        (Returned _, w) \<Rightarrow> (Returned True, t\<lparr>tg_connected := True\<rparr>, env\<lparr>env_world := w\<rparr>)
      | (Threw err, w) \<Rightarrow>
          (case message_of err of
             None \<Rightarrow> (Threw type_error, t, env\<lparr>env_world := w\<rparr>)
           | Some m \<Rightarrow> (Returned False, t, write_line (lit ''[telegram] connect failed: '' @ m) (env\<lparr>env_world := w\<rparr>))))"

definition telegram_disconnect :: "('w \<Rightarrow> unit outcome \<times> 'w) \<Rightarrow> 'w telegram \<Rightarrow> 'w env \<Rightarrow> 'w telegram \<times> 'w env" where
  "telegram_disconnect stop t env =
     (if \<not> tg_connected t then (t, env)
      else let t1 = t\<lparr>tg_connected := False\<rparr> in
        case stop (env_world env) of
          (Returned _, w) \<Rightarrow> (t1, env\<lparr>env_world := w\<rparr>)
        | (Threw cause, w) \<Rightarrow> (t1, write_line (lit ''[theokit-gateway-telegram] bot.stop() failed during disconnect: ''
            @ text_of cause) (env\<lparr>env_world := w\<rparr>)))"

section \<open>Sends and edits\<close>

text \<open>The library's error classes: the API error with its description and code, the transport error.\<close>

datatype grammy_error = GrammyError js nat | HttpError js

definition telegram_mapSendError :: "(js \<Rightarrow> js) \<Rightarrow> (thrown \<Rightarrow> grammy_error option) \<Rightarrow> thrown \<Rightarrow> send_result outcome" where
  "telegram_mapSendError lower class err =
     (case class err of
        Some (GrammyError desc code) \<Rightarrow>
          (let description = lower desc in
           Returned (send_refused
             (if includes_str description (lit ''rate limit'') \<or> code = 429 then lit ''rate_limited''
              else if includes_str description (lit ''forbidden'') \<or> code = 403 then lit ''no_permission''
              else if includes_str description (lit ''parse'') then lit ''markdown_error''
              else lit ''telegram_'' @ dec code) desc))
      | Some (HttpError m) \<Rightarrow> Returned (send_refused (lit ''network_error'') m)
      | None \<Rightarrow>
          (case message_of err of None \<Rightarrow> Threw type_error | Some m \<Rightarrow> Returned (send_refused (lit ''unknown'') m)))"

fun mapFormat :: "format option \<Rightarrow> js option" where
  "mapFormat (Some Markdown) = Some (lit ''Markdown'')"
| "mapFormat (Some Html) = Some (lit ''HTML'')"
| "mapFormat _ = None"

text \<open>A request: the chat, the text, the parse mode, then the thread and the reply, or the edited message.\<close>

datatype tg_request =
    SendMessage number js "js option" "number option" "number option"
  | EditText number nat js "js option"

fun tg_text :: "tg_request \<Rightarrow> js" where
  "tg_text (SendMessage chat s mode thread reply) = s"
| "tg_text (EditText chat i s mode) = s"

definition invalid_channel :: "js \<Rightarrow> send_result" where
  "invalid_channel channelId =
     send_refused (lit ''invalid_channel'') (lit ''channel.id '' @ quoted channelId @ lit '' not numeric'')"

definition telegram_sendMessage ::
    "runtime \<Rightarrow> (js \<Rightarrow> js) \<Rightarrow> (thrown \<Rightarrow> grammy_error option) \<Rightarrow> (tg_request \<Rightarrow> 'w \<Rightarrow> js outcome \<times> 'w) \<Rightarrow> outbound
       \<Rightarrow> ('w, tg_request) site \<Rightarrow> send_result outcome \<times> ('w, tg_request) site" where
  "telegram_sendMessage rt lower class client out s =
     (if out_text out = [] then (Returned (send_refused (lit ''empty_text'') (lit ''text is empty'')), s)
      else let chat = rt_number rt (ch_id (out_channel out)) in
        if chat = NaN then (Returned (invalid_channel (ch_id (out_channel out))), s)
        else case splitForTelegram (out_text out) of
          None \<Rightarrow> (Threw type_error, s)
        | Some chunks \<Rightarrow>
            (case send_each (recorded client)
                (map (\<lambda>c. SendMessage chat c (mapFormat (out_format out))
                   (map_option (rt_number rt) (ch_topicId (out_channel out)))
                   (map_option (rt_number rt) (out_replyTo out))) chunks) None s of
               (Threw err, s1) \<Rightarrow> (telegram_mapSendError lower class err, s1)
             | (Returned lastId, s1) \<Rightarrow> (Returned (send_ok lastId), s1)))"

text \<open>The safe integers end at \<open>2^53 - 1\<close>; a longer digit string rounds to a number above it.\<close>

definition parseMessageId :: "js \<Rightarrow> nat option" where
  "parseMessageId messageId =
     (if messageId = [] \<or> \<not> list_all is_digit messageId then None
      else let i = digits_value messageId in if 0 < i \<and> i < 2 ^ 53 then Some i else None)"

definition isNotModified :: "(js \<Rightarrow> js) \<Rightarrow> (thrown \<Rightarrow> grammy_error option) \<Rightarrow> thrown \<Rightarrow> bool" where
  "isNotModified lower class err =
     (case class err of
        Some (GrammyError desc code) \<Rightarrow> includes_str (lower desc) (lit ''message is not modified'')
      | _ \<Rightarrow> False)"

definition telegram_editMessage ::
    "runtime \<Rightarrow> (js \<Rightarrow> js) \<Rightarrow> (thrown \<Rightarrow> grammy_error option) \<Rightarrow> (tg_request \<Rightarrow> 'w \<Rightarrow> js outcome \<times> 'w) \<Rightarrow> js
       \<Rightarrow> outbound \<Rightarrow> ('w, tg_request) site \<Rightarrow> send_result outcome \<times> ('w, tg_request) site" where
  "telegram_editMessage rt lower class client messageId out s =
     (if out_text out = [] then (Returned (send_refused (lit ''empty_text'') (lit ''text is empty'')), s)
      else case parseMessageId messageId of
        None \<Rightarrow> (Returned (send_refused (lit ''invalid_message_id'')
          (lit ''message id '' @ quoted messageId @ lit '' is not a positive integer'')), s)
      | Some i \<Rightarrow>
          (let chat = rt_number rt (ch_id (out_channel out)) in
           if chat = NaN then (Returned (invalid_channel (ch_id (out_channel out))), s)
           else case splitForTelegram (out_text out) of
             Some [part] \<Rightarrow>
               (case recorded client (EditText chat i part (mapFormat (out_format out))) s of
                  (Returned _, s1) \<Rightarrow> (Returned (send_ok (Some messageId)), s1)
                | (Threw err, s1) \<Rightarrow>
                    (if isNotModified lower class err then Returned (send_ok (Some messageId))
                     else telegram_mapSendError lower class err, s1))
           | Some parts \<Rightarrow> (Returned (edit_refusal (lit ''Telegram messages'') (length parts)), s)
           | None \<Rightarrow> (Threw type_error, s)))"

section \<open>Inbound by polling\<close>

text \<open>A grammy context: its number stands for the raw value, then what the adapter reads of it.\<close>

record tg_context =
  gx_raw :: nat
  gx_chat :: "tg_chat option"
  gx_message :: "tg_message option"
  gx_from :: "tg_user option"
  gx_is_bot :: bool

definition normalizeContext :: "runtime \<Rightarrow> tg_context \<Rightarrow> nat telegram_event option" where
  "normalizeContext rt ctx =
     (case (gx_chat ctx, gx_message ctx) of
        (Some chat, Some msg) \<Rightarrow> Some (buildEvent rt chat msg (gx_from ctx) (gx_raw ctx))
      | _ \<Rightarrow> None)"

definition telegram_dispatch :: "'w telegram \<Rightarrow> nat telegram_event \<Rightarrow> ('w, delivery) comp" where
  "telegram_dispatch t event env = runHandler (lit ''telegram'') (map_option snd (tg_handler t)) event env"

definition telegram_handleInbound :: "runtime \<Rightarrow> tg_context \<Rightarrow> 'w telegram \<Rightarrow> 'w env \<Rightarrow> delivery outcome option \<times> 'w env" where
  "telegram_handleInbound rt ctx t env =
     (if tg_handler t = None then (None, env)
      else if gx_is_bot ctx then (None, env)
      else if tg_allowedUsers t \<noteq> [] \<and>
              \<not> has (tg_allowedUsers t) (case gx_from ctx of None \<Rightarrow> [] | Some u \<Rightarrow> rt_text rt (tu_id u))
      then (None, env)
      else case normalizeContext rt ctx of
        None \<Rightarrow> (None, env)
      | Some event \<Rightarrow> (case telegram_dispatch t event env of (r, env1) \<Rightarrow> (Some r, env1)))"

definition telegram_onInbound :: "nat \<Rightarrow> (nat telegram_event \<Rightarrow> ('w, unit) comp) \<Rightarrow> 'w telegram \<Rightarrow> 'w telegram" where
  "telegram_onInbound h f t = t\<lparr>tg_handler := Some (h, f)\<rparr>"

definition telegram_off :: "nat \<Rightarrow> 'w telegram \<Rightarrow> 'w telegram" where
  "telegram_off h t = (if map_option fst (tg_handler t) = Some h then t\<lparr>tg_handler := None\<rparr> else t)"

definition startTyping :: "runtime \<Rightarrow> (number \<Rightarrow> 'w \<Rightarrow> unit outcome \<times> 'w) \<Rightarrow> js \<Rightarrow> 'w \<Rightarrow> 'w" where
  "startTyping rt action channelId w =
     (let chatId = rt_number rt channelId in if chatId = NaN then w else snd (action chatId w))"

definition telegram_deliver :: "'w telegram \<Rightarrow> nat telegram_event \<Rightarrow> ('w, delivery) comp" where
  "telegram_deliver t event env = runHandler (lit ''telegram'') (map_option snd (tg_handler t)) event env"

section \<open>Updates as JSON\<close>

definition plain_numbers :: runtime where
  "plain_numbers = \<lparr>rt_number = (\<lambda>s. NaN), rt_text = (\<lambda>q. []), rt_thousand = (\<lambda>q. Finite (1000 * q)), rt_now = 0\<rparr>"

text \<open>A message as Telegram's API writes it in an update.\<close>

definition field :: "string \<Rightarrow> ('a \<Rightarrow> json) \<Rightarrow> 'a option \<Rightarrow> (js \<times> json) list" where
  "field k f v = (case v of None \<Rightarrow> [] | Some x \<Rightarrow> [(lit k, f x)])"

definition user_json :: "tg_user \<Rightarrow> json" where
  "user_json u = JObj ([(lit ''id'', JNum (tu_id u))] @ field ''first_name'' JStr (tu_first_name u)
     @ field ''username'' JStr (tu_username u))"

definition message_fields :: "tg_chat \<Rightarrow> tg_message \<Rightarrow> tg_user option \<Rightarrow> (js \<times> json) list" where
  "message_fields chat msg from =
     [(lit ''message_id'', JNum (tm_message_id msg))] @ field ''from'' user_json from
     @ [(lit ''chat'', JObj [(lit ''id'', JNum (tc_id chat)), (lit ''type'', JStr (tc_type chat))]),
        (lit ''date'', JNum (tm_date msg))]
     @ field ''message_thread_id'' JNum (tm_thread msg)
     @ field ''reply_to_message'' (\<lambda>r. JObj [(lit ''message_id'', JNum r)]) (tm_reply msg)
     @ field ''text'' JStr (tm_text msg) @ field ''caption'' JStr (tm_caption msg)"

definition update_json :: "rat \<Rightarrow> tg_chat \<Rightarrow> tg_message \<Rightarrow> tg_user option \<Rightarrow> json" where
  "update_json update chat msg from =
     JObj [(lit ''update_id'', JNum update), (lit ''message'', JObj (message_fields chat msg from))]"












section \<open>Properties\<close>


definition tg_sample :: tg_message where
  "tg_sample = \<lparr>tm_message_id = 5, tm_date = 1700000000, tm_text = Some (lit ''hi''), tm_caption = None,
     tm_thread = None, tm_reply = Some 4\<rparr>"


text \<open>
  By polling, an update of a bot, or of a sender outside a non-empty list of allowed users, reaches
  no handler: it leaves no trace in the world or on standard error.
\<close>
theorem polled_strangers_are_dropped:
  assumes "gx_is_bot ctx \<or>
     tg_allowedUsers t \<noteq> [] \<and> \<not> has (tg_allowedUsers t) (case gx_from ctx of None \<Rightarrow> [] | Some u \<Rightarrow> rt_text rt (tu_id u))"
  shows "telegram_handleInbound rt ctx t env = (None, env)"
  using assms by (auto simp: telegram_handleInbound_def)

text \<open>
  A parsed update has a finite time, the platform's chat and message ids as its addresses, and the
  type of chat the message's fields say.
\<close>
theorem parsed_updates_are_finite:
  assumes "parseInbound rt payload = Some ev"
  shows "\<exists>q. te_receivedAt ev = Finite q \<and> ch_id (te_channel ev) = rt_text rt (te_chatId ev) \<and>
     te_id ev = lit ''tg-'' @ rt_text rt (te_chatId ev) @ lit ''-'' @ rt_text rt (te_messageId ev) \<and>
     (ch_type (te_channel ev) \<noteq> Thread \<or> te_threadId ev \<noteq> None) \<and> te_raw ev = payload"
proof -
  obtain chat m u where ev: "ev = buildEvent rt chat m u payload" and fin: "finite_stamp rt (tm_date m)"
    using assms by (auto simp: parseInbound_def narrowMessage_def split: option.splits if_splits)
  obtain q where "rt_thousand rt (tm_date m) = Finite q"
    using fin by (auto simp: finite_stamp_def split: number.splits)
  then show ?thesis by (auto simp: ev buildEvent_def Let_def simp del: lit_simps)
qed

theorem polled_strangers_are_dropped_witness:
  "telegram_handleInbound plain_numbers \<lparr>gx_raw = 0, gx_chat = None, gx_message = None, gx_from = None, gx_is_bot = True\<rparr>
     (newTelegramAdapter None) \<lparr>env_world = 3 :: nat, env_log = []\<rparr> = (None, \<lparr>env_world = 3, env_log = []\<rparr>)"
  by (rule polled_strangers_are_dropped) simp

theorem parsed_updates_are_finite_witness:
  "\<exists>ev :: json telegram_event. \<exists>q. parseInbound plain_numbers
     (update_json 1 \<lparr>tc_id = 9, tc_type = lit ''private''\<rparr> tg_sample None) = Some ev \<and> te_receivedAt ev = Finite q"
proof -
  have "parseInbound plain_numbers (update_json 1 \<lparr>tc_id = 9, tc_type = lit ''private''\<rparr> tg_sample None) \<noteq> None"
    by code_simp
  then obtain ev where "parseInbound plain_numbers (update_json 1 \<lparr>tc_id = 9, tc_type = lit ''private''\<rparr> tg_sample None) = Some ev"
    by blast
  from parsed_updates_are_finite [OF this] this show ?thesis by blast
qed

text \<open>
  The same filters do not stand between \<open>deliver\<close> and the handler: an event of a stranger, parsed from a
  webhook, is handed on.
\<close>

lemma deliver_hands_on_strangers:
  assumes "tg_handler t = Some (h, f)" "f event env = (Returned (), env1)"
  shows "telegram_deliver t event env = (Returned DeliveredOk, env1)"
  using assms by (simp add: telegram_deliver_def runHandler_def)

text \<open>A username that starts another one is cut out of it.\<close>

lemma strip_cuts_longer_names: "stripBotMention (lit ''@theory hi'') (lit ''theo'') = lit ''ry hi''"
  by code_simp

end
