(* ===== verification/MattermostAdapter.thy ===== *)
theory MattermostAdapter
  imports PartSender Json
begin

text \<open>
  The Mattermost adapter (\<open>gateway-mattermost/src/normalize.ts\<close>, \<open>filters.ts\<close>, \<open>client.ts\<close>, \<open>adapter.ts\<close>):
  posts from the websocket, the rule that decides which of them a handler sees, the cache of channels,
  the life cycle of sockets and listeners, sends and edits. The SDK is a parameter: how a connection
  attempt ends, what the server answers and what it throws. \<open>parse\<close> is \<open>JSON.parse\<close>, \<open>None\<close> when it throws.
\<close>

section \<open>Posts\<close>

record mm_post =
  mp_id :: js
  mp_user_id :: js
  mp_channel_id :: js
  mp_root_id :: js
  mp_message :: js
  mp_create_at :: rat
  mp_metadata :: "json option"

text \<open>A channel as the server answers it; the fields the code reads may be missing.\<close>

record mm_channel =
  mc_type :: "js option"
  mc_team_id :: "js option"

record ws_message =
  ws_event :: js
  ws_data :: "json option"

definition text_or :: "js \<Rightarrow> json option \<Rightarrow> js" where
  "text_or d v = (case v of Some (JStr s) \<Rightarrow> s | _ \<Rightarrow> d)"

definition number_or :: "rat \<Rightarrow> json option \<Rightarrow> rat" where
  "number_or d v = (case v of Some (JNum q) \<Rightarrow> q | _ \<Rightarrow> d)"

text \<open>Reading a member of a parsed \<open>null\<close> throws, which the function catches as well.\<close>

definition parsePostFromWS :: "(js \<Rightarrow> json option) \<Rightarrow> ws_message \<Rightarrow> mm_post option" where
  "parsePostFromWS parse msg =
     (case string_of (chained (ws_data msg) (lit ''post'')) of
        None \<Rightarrow> None
      | Some raw \<Rightarrow>
          (case parse raw of
             None \<Rightarrow> None
           | Some parsed \<Rightarrow>
               (case (string_of (member_of parsed (lit ''id'')), string_of (member_of parsed (lit ''user_id'')),
                      string_of (member_of parsed (lit ''channel_id'')), string_of (member_of parsed (lit ''message''))) of
                  (Some i, Some u, Some c, Some m) \<Rightarrow>
                    Some \<lparr>mp_id = i, mp_user_id = u, mp_channel_id = c,
                      mp_root_id = text_or [] (member_of parsed (lit ''root_id'')), mp_message = m,
                      mp_create_at = number_or 0 (member_of parsed (lit ''create_at'')),
                      mp_metadata = member_of parsed (lit ''metadata'')\<rparr>
                | _ \<Rightarrow> None)))"

definition normalizeMattermostType :: "mm_channel option \<Rightarrow> js" where
  "normalizeMattermostType channel =
     (case channel of None \<Rightarrow> lit ''O'' | Some ch \<Rightarrow> (case mc_type ch of None \<Rightarrow> lit ''O'' | Some t \<Rightarrow> t))"

definition mapChannelType :: "js \<Rightarrow> bool \<Rightarrow> chan_type" where
  "mapChannelType rawType hasRootId =
     (if hasRootId then Thread else if rawType = lit ''D'' then DM else Group)"

record mm_event =
  mm_id :: js
  mm_sender :: sender
  mm_chan :: channel
  mm_text :: js
  mm_receivedAt :: rat
  mm_postId :: js
  mm_channelId :: js
  mm_teamId :: js
  mm_rootId :: "js option"
  mm_channelType :: js
  mm_raw :: mm_post

definition postToMessageEvent :: "rat \<Rightarrow> mm_post \<Rightarrow> mm_channel option \<Rightarrow> js option \<Rightarrow> mm_event" where
  "postToMessageEvent now post channel senderUsername =
     (let rawType = normalizeMattermostType channel;
          channelType = mapChannelType rawType (mp_root_id post \<noteq> [])
      in \<lparr>mm_id = mp_id post,
          mm_sender = \<lparr>snd_id = mp_user_id post, snd_username = senderUsername, snd_displayName = None\<rparr>,
          mm_chan = \<lparr>ch_id = mp_channel_id post, ch_type = channelType,
            ch_topicId = (if channelType = Thread then Some (mp_root_id post) else None)\<rparr>,
          mm_text = mp_message post,
          mm_receivedAt = (if 0 < mp_create_at post then mp_create_at post else now),
          mm_postId = mp_id post, mm_channelId = mp_channel_id post,
          mm_teamId = (case channel of None \<Rightarrow> [] | Some ch \<Rightarrow> (case mc_team_id ch of None \<Rightarrow> [] | Some t \<Rightarrow> t)),
          mm_rootId = (if mp_root_id post \<noteq> [] then Some (mp_root_id post) else None),
          mm_channelType = rawType, mm_raw = post\<rparr>)"

section \<open>Which posts are answered\<close>

text \<open>
  \<open>hasMentionWithBoundary\<close>: the pattern \<open>(^|[^\w])@name(?![\w.])\<close>, the metacharacters of the name escaped,
  tried at every position; \<open>pv\<close> is the unit before it.
\<close>

definition is_word :: "cu \<Rightarrow> bool" where
  "is_word c \<longleftrightarrow> in_cls word_char c"

definition mention_here :: "js \<Rightarrow> cu option \<Rightarrow> js \<Rightarrow> bool" where
  "mention_here name pv s \<longleftrightarrow>
     (case pv of None \<Rightarrow> True | Some p \<Rightarrow> \<not> is_word p) \<and> prefix (64 # name) s \<and>
     (case drop (Suc (length name)) s of [] \<Rightarrow> True | d # _ \<Rightarrow> \<not> is_word d \<and> d \<noteq> 46)"

fun mention_from :: "js \<Rightarrow> cu option \<Rightarrow> js \<Rightarrow> bool" where
  "mention_from name pv [] = mention_here name pv []"
| "mention_from name pv (c # s) = (mention_here name pv (c # s) \<or> mention_from name (Some c) s)"

definition hasMentionWithBoundary :: "js \<Rightarrow> js \<Rightarrow> bool" where
  "hasMentionWithBoundary s botUsername = mention_from botUsername None s"

text \<open>
  \<open>metadata?.mentions?.includes(botUserId) ?? false\<close> on metadata nothing has checked: a string has an
  \<open>includes\<close> too, of any other value but a list the call throws (\<open>None\<close>).
\<close>

definition mention_listed :: "js \<Rightarrow> json option \<Rightarrow> bool option" where
  "mention_listed botUserId metadata = optional_includes (chained metadata (lit ''mentions'')) botUserId"

definition shouldRespond :: "mm_post \<Rightarrow> chan_type \<Rightarrow> js \<Rightarrow> js \<Rightarrow> bool \<Rightarrow> bool option" where
  "shouldRespond post channelType botUserId botUsername requireMention =
     (if mp_user_id post = botUserId then Some False
      else if channelType = DM then Some True
      else if \<not> requireMention then Some True
      else case mention_listed botUserId (mp_metadata post) of
        None \<Rightarrow> None
      | Some True \<Rightarrow> Some True
      | Some False \<Rightarrow> Some (botUsername \<noteq> [] \<and> hasMentionWithBoundary (mp_message post) botUsername))"

section \<open>Sockets, listeners and channels\<close>

text \<open>What \<open>connectMattermost\<close> answers: a socket, named by the handle's index, the bot and a channel cache.\<close>

record mm_handle =
  mh_botUserId :: js
  mh_botUsername :: js
  mh_channelCache :: "(js, mm_channel) jsmap"

text \<open>
  A post whose channel is being read: the handle its listener closed over, the post, the sender's name
  of the message, and the channel when the cache had it.
\<close>

record mm_lookup =
  lk_handle :: nat
  lk_post :: mm_post
  lk_sender_name :: "json option"
  lk_cached :: "mm_channel option"

text \<open>
  The adapter: its fields, every handle a connection attempt has made, the attempts in flight, the open
  sockets a listener is attached to, and the posts whose channel is being read.
\<close>

record 'w mattermost =
  mm_requireMention :: bool
  mm_handle :: "nat option"
  mm_wsListener :: "nat option"
  mm_connected :: bool
  mm_inbound :: "(nat \<times> (mm_event \<Rightarrow> ('w, unit) comp)) option"
  mm_handles :: "mm_handle list"
  mm_attempts :: nat
  mm_listening :: "nat list"
  mm_lookups :: "mm_lookup list"

definition newMattermostAdapter :: "js \<Rightarrow> js \<Rightarrow> bool option \<Rightarrow> config_error + 'w mattermost" where
  "newMattermostAdapter baseUrl accessToken requireMention =
     (if baseUrl = [] then
        Inl (GatewayConfigurationError (lit ''gateway-mattermost'') (lit ''base_url_required'')
          (Some (lit ''gateway-mattermost: opts.baseUrl is empty (e.g. \"https://mattermost.acme.com\")'')) None)
      else if accessToken = [] then
        Inl (GatewayConfigurationError (lit ''gateway-mattermost'') (lit ''access_token_required'')
          (Some (lit ''gateway-mattermost: opts.accessToken is empty (generate one in System Console ''
            @ [0x2192] @ lit '' Integrations '' @ [0x2192] @ lit '' Bot Accounts)'')) None)
      else Inr \<lparr>mm_requireMention = (case requireMention of None \<Rightarrow> True | Some b \<Rightarrow> b), mm_handle = None,
        mm_wsListener = None, mm_connected = False, mm_inbound = None, mm_handles = [], mm_attempts = 0,
        mm_listening = [], mm_lookups = []\<rparr>)"

text \<open>\<open>wsUrlFromBase\<close>: one trailing slash and the scheme dropped.\<close>

definition strip_scheme :: "js \<Rightarrow> js" where
  "strip_scheme s =
     (if prefix (lit ''https://'') s then drop 8 s else if prefix (lit ''http://'') s then drop 7 s else s)"

definition wsUrlFromBase :: "js \<Rightarrow> js" where
  "wsUrlFromBase baseUrl =
     (let trimmed = (if baseUrl \<noteq> [] \<and> last baseUrl = 47 then butlast baseUrl else baseUrl);
          wsScheme = (if prefix (lit ''https://'') trimmed then lit ''wss://'' else lit ''ws://'')
      in wsScheme @ strip_scheme trimmed @ lit ''/api/v4/websocket'')"

text \<open>
  \<open>connect\<close>: nothing when connected, otherwise an attempt. \<open>mm_connect_settles\<close> is its end: the bot's id and
  name, with a new handle whose socket the listener is attached to, or an error.
\<close>

definition mm_connect :: "'w mattermost \<Rightarrow> 'w mattermost" where
  "mm_connect s = (if mm_connected s then s else s\<lparr>mm_attempts := Suc (mm_attempts s)\<rparr>)"

definition attachWsListener :: "nat \<Rightarrow> 'w mattermost \<Rightarrow> 'w mattermost" where
  "attachWsListener h s = s\<lparr>mm_wsListener := Some h, mm_listening := h # mm_listening s\<rparr>"

definition mm_connect_settles ::
    "(js \<times> js) outcome \<Rightarrow> 'w mattermost \<Rightarrow> 'w env \<Rightarrow> bool option \<times> 'w mattermost \<times> 'w env" where
  "mm_connect_settles result s env =
     (case mm_attempts s of
        0 \<Rightarrow> (None, s, env)
      | Suc n \<Rightarrow>
          (case result of
             Threw err \<Rightarrow> (Some False, s\<lparr>mm_attempts := n\<rparr>,
               write_line (lit ''[gateway-mattermost] connect failed: '' @ text_of err) env)
           | Returned (userId, username) \<Rightarrow>
               (let h = length (mm_handles s);
                    s1 = s\<lparr>mm_attempts := n, mm_handle := Some h, mm_handles := mm_handles s
                      @ [\<lparr>mh_botUserId = userId, mh_botUsername = username, mh_channelCache = []\<rparr>]\<rparr>
                in (Some True, (attachWsListener h s1)\<lparr>mm_connected := True\<rparr>, env))))"

text \<open>A closed socket calls no listener, removed or not.\<close>

definition mm_disconnect :: "'w mattermost \<Rightarrow> 'w mattermost" where
  "mm_disconnect s =
     (if \<not> mm_connected s then s
      else s\<lparr>mm_listening := (case mm_handle s of None \<Rightarrow> mm_listening s | Some h \<Rightarrow> removeAll h (mm_listening s)),
        mm_handle := None, mm_wsListener := None, mm_connected := False, mm_inbound := None\<rparr>)"

definition mm_onInbound :: "nat \<Rightarrow> (mm_event \<Rightarrow> ('w, unit) comp) \<Rightarrow> 'w mattermost \<Rightarrow> 'w mattermost" where
  "mm_onInbound h f s = s\<lparr>mm_inbound := Some (h, f)\<rparr>"

definition mm_off :: "nat \<Rightarrow> 'w mattermost \<Rightarrow> 'w mattermost" where
  "mm_off h s = (if map_option fst (mm_inbound s) = Some h then s\<lparr>mm_inbound := None\<rparr> else s)"

section \<open>From the socket to the handler\<close>

text \<open>
  The synchronous half of the listener: a posted event that parses asks for its channel. An event that
  comes over a socket no listener is attached to any more reaches nothing.
\<close>

definition posted :: "(js \<Rightarrow> json option) \<Rightarrow> nat \<Rightarrow> ws_message \<Rightarrow> 'w mattermost \<Rightarrow> 'w mattermost" where
  "posted parse h msg s =
     (if h \<notin> set (mm_listening s) \<or> ws_event msg \<noteq> lit ''posted'' then s
      else case parsePostFromWS parse msg of
        None \<Rightarrow> s
      | Some post \<Rightarrow>
          s\<lparr>mm_lookups := mm_lookups s @
            [\<lparr>lk_handle = h, lk_post = post, lk_sender_name = chained (ws_data msg) (lit ''sender_name''),
              lk_cached = jm_get (mh_channelCache (mm_handles s ! h)) (mp_channel_id post)\<rparr>]\<rparr>)"

definition cache_channel :: "js \<Rightarrow> mm_channel \<Rightarrow> (js, mm_channel) jsmap \<Rightarrow> (js, mm_channel) jsmap" where
  "cache_channel channelId channel cache =
     jm_set channelId channel
       (if 200 \<le> length cache
        then (case jm_keys cache of [] \<Rightarrow> cache | firstKey # _ \<Rightarrow> jm_delete firstKey cache) else cache)"

text \<open>What \<open>getChannelCached\<close> returns, and the cache after it: \<open>answer\<close> is the server's, \<open>None\<close> a rejection.\<close>

definition getChannelCached :: "mm_channel option \<Rightarrow> mm_lookup \<Rightarrow> 'w mattermost \<Rightarrow> mm_channel option \<times> 'w mattermost" where
  "getChannelCached answer lk s =
     (case lk_cached lk of
        Some channel \<Rightarrow> (Some channel, s)
      | None \<Rightarrow>
          (case answer of
             None \<Rightarrow> (None, s)
           | Some channel \<Rightarrow>
               (let h = lk_handle lk; handle = mm_handles s ! h
                in (Some channel, s\<lparr>mm_handles := (mm_handles s)[h := handle
                     \<lparr>mh_channelCache := cache_channel (mp_channel_id (lk_post lk)) channel (mh_channelCache handle)\<rparr>]\<rparr>))))"

definition sender_username :: "json option \<Rightarrow> js option" where
  "sender_username v =
     (case v of Some (JStr s) \<Rightarrow> Some (case s of c # r \<Rightarrow> if c = 64 then r else s | [] \<Rightarrow> []) | _ \<Rightarrow> None)"

text \<open>
  \<open>processPostedEvent\<close> once the channel is there; \<open>no_includes\<close> is the message of the \<open>TypeError\<close> the
  mention list may throw, which the listener reports.
\<close>

definition processPostedEvent ::
    "js \<Rightarrow> rat \<Rightarrow> mm_lookup \<Rightarrow> mm_channel option \<Rightarrow> 'w mattermost \<Rightarrow> 'w env \<Rightarrow> 'w env" where
  "processPostedEvent no_includes now lk channel s env =
     (let post = lk_post lk; handle = mm_handles s ! lk_handle lk;
          channelType = mapChannelType (normalizeMattermostType channel) (mp_root_id post \<noteq> [])
      in case shouldRespond post channelType (mh_botUserId handle) (mh_botUsername handle) (mm_requireMention s) of
           None \<Rightarrow> write_line (lit ''[gateway-mattermost] processPostedEvent failed: '' @ no_includes) env
         | Some False \<Rightarrow> env
         | Some True \<Rightarrow>
             (case mm_inbound s of
                None \<Rightarrow> env
              | Some (_, f) \<Rightarrow>
                  (case f (postToMessageEvent now post channel (sender_username (lk_sender_name lk))) env of
                     (Threw err, env1) \<Rightarrow>
                       write_line (lit ''[gateway-mattermost] handler threw: '' @ text_of err) env1
                   | (Returned _, env1) \<Rightarrow> env1)))"

text \<open>The lookup at a position ends, and its post goes on.\<close>

definition channel_read ::
    "js \<Rightarrow> rat \<Rightarrow> nat \<Rightarrow> mm_channel option \<Rightarrow> 'w mattermost \<Rightarrow> 'w env \<Rightarrow> 'w mattermost \<times> 'w env" where
  "channel_read no_includes now i answer s env =
     (if length (mm_lookups s) \<le> i then (s, env)
      else let lk = mm_lookups s ! i in
        case getChannelCached answer lk s of
          (channel, s1) \<Rightarrow>
            (s1\<lparr>mm_lookups := take i (mm_lookups s) @ drop (Suc i) (mm_lookups s)\<rparr>,
             processPostedEvent no_includes now lk channel s1 env))"

definition mm_deliver :: "mm_event \<Rightarrow> 'w mattermost \<Rightarrow> ('w, delivery) comp" where
  "mm_deliver event s env = runHandler (lit ''mattermost'') (map_option snd (mm_inbound s)) event env"

text \<open>What can happen to an adapter, between two awaits of its code.\<close>

datatype 'w mm_step =
    MmConnect
  | MmConnected "(js \<times> js) outcome"
  | MmDisconnect
  | MmOnInbound nat "mm_event \<Rightarrow> ('w, unit) comp"
  | MmOff nat
  | MmPosted nat ws_message
  | MmChannel rat nat "mm_channel option"

fun mm_next :: "(js \<Rightarrow> json option) \<Rightarrow> js \<Rightarrow> 'w mattermost \<times> 'w env \<Rightarrow> 'w mm_step \<Rightarrow> 'w mattermost \<times> 'w env" where
  "mm_next parse te (s, env) MmConnect = (mm_connect s, env)"
| "mm_next parse te (s, env) (MmConnected result) = snd (mm_connect_settles result s env)"
| "mm_next parse te (s, env) MmDisconnect = (mm_disconnect s, env)"
| "mm_next parse te (s, env) (MmOnInbound h f) = (mm_onInbound h f s, env)"
| "mm_next parse te (s, env) (MmOff h) = (mm_off h s, env)"
| "mm_next parse te (s, env) (MmPosted h msg) = (posted parse h msg s, env)"
| "mm_next parse te (s, env) (MmChannel now i answer) = channel_read te now i answer s env"

section \<open>Sends and edits\<close>

definition renderPosts :: "outbound \<Rightarrow> js list option" where
  "renderPosts out =
     (if out_format out \<noteq> Some Plain then parts_of (splitForMattermost (out_text out))
      else case parts_of (splitForMattermost (out_text out)) of
        None \<Rightarrow> None
      | Some parts \<Rightarrow> flat_map (escaped_bodies splitForEscapedMattermost MATTERMOST_MAX_POST) parts)"

text \<open>What the mapping reads of a thrown value that is neither \<open>null\<close> nor \<open>undefined\<close>.\<close>

record mm_rest_error =
  re_status_code :: "int option"
  re_message :: "js option"
  re_text :: js

definition mapMattermostError :: "mm_rest_error \<Rightarrow> send_result" where
  "mapMattermostError e =
     (let status = (case re_status_code e of None \<Rightarrow> 0 | Some n \<Rightarrow> n);
          message_or = (\<lambda>d. case re_message e of None \<Rightarrow> d | Some m \<Rightarrow> m)
      in if status = 429 then send_refused (lit ''rate_limit'') (message_or (lit ''Mattermost rate limit''))
         else if status = 401 \<or> status = 403
         then send_refused (lit ''permission_denied'') (message_or (lit ''Mattermost auth/permission error''))
         else if status = 400
         then send_refused (lit ''invalid_request'') (message_or (lit ''Mattermost rejected request''))
         else send_refused (lit ''send_failed'') (message_or (re_text e)))"

datatype mm_request = CreatePost js js "js option" | PatchPost js js

definition mm_not_connected :: send_result where
  "mm_not_connected = send_refused (lit ''not_connected'') (lit ''MattermostAdapter.connect() not called'')"

definition mm_empty_text :: send_result where
  "mm_empty_text = send_refused (lit ''empty_text'') (lit ''outbound text is empty'')"

text \<open>
  A request goes out over the handle the adapter holds at that moment, \<open>held\<close> of the world; without
  one reading \<open>this.handle.client\<close> throws.
\<close>

definition over_handle ::
    "('w \<Rightarrow> bool) \<Rightarrow> (mm_request \<Rightarrow> 'w \<Rightarrow> js outcome \<times> 'w) \<Rightarrow> mm_request
       \<Rightarrow> ('w, mm_request) site \<Rightarrow> js outcome \<times> ('w, mm_request) site" where
  "over_handle held client p s =
     (if held (fst s) then recorded client p s
      else (Threw (ThrownError (lit ''Cannot read properties of undefined (reading 'client')'')), s))"

definition post_for :: "outbound \<Rightarrow> js \<Rightarrow> mm_request" where
  "post_for out message =
     CreatePost (ch_id (out_channel out)) message
       (if ch_type (out_channel out) = Thread then ch_topicId (out_channel out) else None)"

definition mm_sendMessage ::
    "('w \<Rightarrow> bool) \<Rightarrow> (mm_request \<Rightarrow> 'w \<Rightarrow> js outcome \<times> 'w) \<Rightarrow> (thrown \<Rightarrow> mm_rest_error option) \<Rightarrow> outbound
       \<Rightarrow> ('w, mm_request) site \<Rightarrow> send_result outcome \<times> ('w, mm_request) site" where
  "mm_sendMessage held client read out s =
     (if out_text out = [] then (Returned mm_empty_text, s)
      else if \<not> held (fst s) then (Returned mm_not_connected, s)
      else case renderPosts out of
        None \<Rightarrow> (Threw type_error, s)
      | Some posts \<Rightarrow>
          (case send_each (over_handle held client) (map (post_for out) posts) None s of
             (Threw err, s1) \<Rightarrow>
               ((case read err of None \<Rightarrow> Threw type_error | Some e \<Rightarrow> Returned (mapMattermostError e)), s1)
           | (Returned lastId, s1) \<Rightarrow> (Returned (send_ok lastId), s1)))"

definition mm_editMessage ::
    "('w \<Rightarrow> bool) \<Rightarrow> (mm_request \<Rightarrow> 'w \<Rightarrow> js outcome \<times> 'w) \<Rightarrow> (thrown \<Rightarrow> mm_rest_error option) \<Rightarrow> js \<Rightarrow> outbound
       \<Rightarrow> ('w, mm_request) site \<Rightarrow> send_result outcome \<times> ('w, mm_request) site" where
  "mm_editMessage held client read messageId out s =
     (if out_text out = [] then (Returned mm_empty_text, s)
      else if \<not> held (fst s) then (Returned mm_not_connected, s)
      else if messageId = []
      then (Returned (send_refused (lit ''invalid_message_id'') (lit ''message id is empty'')), s)
      else case renderPosts out of
        Some [message] \<Rightarrow>
          (case over_handle held client (PatchPost messageId message) s of
             (Threw err, s1) \<Rightarrow>
               ((case read err of None \<Rightarrow> Threw type_error | Some e \<Rightarrow> Returned (mapMattermostError e)), s1)
           | (Returned _, s1) \<Rightarrow> (Returned (send_ok (Some messageId)), s1))
      | Some posts \<Rightarrow> (Returned (edit_refusal (lit ''Mattermost posts'') (length posts)), s)
      | None \<Rightarrow> (Threw type_error, s))"

section \<open>Mentions\<close>

text \<open>
  The reference: an occurrence of the name after an \<open>@\<close>, with no word character before the \<open>@\<close>, and neither a word
  character nor a full stop after the name.
\<close>

definition mention_ends :: "js \<Rightarrow> bool" where
  "mention_ends s \<longleftrightarrow> (case s of [] \<Rightarrow> True | d # _ \<Rightarrow> \<not> is_word d \<and> d \<noteq> 46)"

lemma mention_here_iff:
  "mention_here name pv s \<longleftrightarrow>
     (case pv of None \<Rightarrow> True | Some p \<Rightarrow> \<not> is_word p) \<and> (\<exists>post. s = 64 # name @ post \<and> mention_ends post)"
  by (auto simp: mention_here_def mention_ends_def prefix_def)

lemma mention_from_iff:
  "mention_from name pv s \<longleftrightarrow>
     (\<exists>pre post. s = pre @ 64 # name @ post \<and> mention_ends post \<and>
        (case (if pre = [] then pv else Some (last pre)) of None \<Rightarrow> True | Some p \<Rightarrow> \<not> is_word p))"
proof (induction s arbitrary: pv)
  case Nil
  then show ?case by (simp add: mention_here_iff)
next
  case (Cons c s)
  show ?case (is "?l \<longleftrightarrow> ?r")
  proof
    assume ?l
    then consider "mention_here name pv (c # s)" | "mention_from name (Some c) s" by auto
    then show ?r
    proof cases
      case 1
      then obtain post where "c # s = 64 # name @ post" "mention_ends post"
        "case pv of None \<Rightarrow> True | Some p \<Rightarrow> \<not> is_word p" by (auto simp: mention_here_iff)
      then show ?thesis by (intro exI [of _ "[]"] exI [of _ post]) simp
    next
      case 2
      then obtain pre post where "s = pre @ 64 # name @ post" "mention_ends post"
        "case (if pre = [] then Some c else Some (last pre)) of None \<Rightarrow> True | Some p \<Rightarrow> \<not> is_word p"
        using Cons.IH [of "Some c"] by blast
      then show ?thesis by (intro exI [of _ "c # pre"] exI [of _ post]) (auto split: if_splits)
    qed
  next
    assume ?r
    then obtain pre post where s: "c # s = pre @ 64 # name @ post" "mention_ends post"
      "case (if pre = [] then pv else Some (last pre)) of None \<Rightarrow> True | Some p \<Rightarrow> \<not> is_word p" by blast
    show ?l
    proof (cases pre)
      case Nil
      then show ?thesis using s by (auto simp: mention_here_iff)
    next
      case (Cons d pre')
      have "\<exists>pre post. s = pre @ 64 # name @ post \<and> mention_ends post \<and>
          (case (if pre = [] then Some c else Some (last pre)) of None \<Rightarrow> True | Some p \<Rightarrow> \<not> is_word p)"
        using s Cons by (intro exI [of _ pre'] exI [of _ post]) (auto split: if_splits)
      then show ?thesis using Cons.IH by simp
    qed
  qed
qed

lemma mention_before_full_stop: "\<not> hasMentionWithBoundary (lit ''thanks @theo.'') (lit ''theo'')"
  by code_simp

section \<open>Steps\<close>

definition handle_ok :: "mm_handle \<Rightarrow> bool" where
  "handle_ok h \<longleftrightarrow> jm_inv (mh_channelCache h) \<and> length (mh_channelCache h) \<le> 200"

lemma cache_channel_ok:
  assumes "jm_inv cache" "length cache \<le> 200"
  shows "jm_inv (cache_channel i ch cache) \<and> length (cache_channel i ch cache) \<le> 200"
proof -
  have "jm_keys cache \<noteq> []" if "200 \<le> length cache" using that by (auto simp flip: length_jm_keys)
  then have "cache_channel i ch cache =
      jm_set i ch (if 200 \<le> length (jm_keys cache) then jm_delete (hd (jm_keys cache)) cache else cache)"
    by (auto simp: cache_channel_def split: list.split)
  moreover have "length (jm_keys (jm_set i ch
      (if 200 \<le> length (jm_keys cache) then jm_delete (hd (jm_keys cache)) cache else cache))) \<le> 200"
    by (rule jm.evict_then_put_bounded [OF assms(1)]) (simp_all add: assms(2))
  ultimately show ?thesis using assms(1) by (simp only: length_jm_keys) (simp add: map_facts)
qed

lemma handle_ok_update:
  "list_all handle_ok hs \<Longrightarrow> handle_ok x \<Longrightarrow> list_all handle_ok (hs[i := x])"
  using set_update_subset_insert [of hs i x] by (auto simp: list_all_iff)

lemma getChannelCached_handles:
  assumes "list_all handle_ok (mm_handles s)" "lk_handle lk < length (mm_handles s)"
  shows "list_all handle_ok (mm_handles (snd (getChannelCached answer lk s)))"
proof -
  let ?h = "mm_handles s ! lk_handle lk"
  have "handle_ok ?h" using assms by (simp add: list_all_length)
  then have "handle_ok (?h\<lparr>mh_channelCache := cache_channel i ch (mh_channelCache ?h)\<rparr>)" for i ch
    using cache_channel_ok by (simp add: handle_ok_def)
  then show ?thesis using assms(1) handle_ok_update [OF assms(1)]
    by (simp add: getChannelCached_def Let_def split: option.split)
qed

lemma getChannelCached_keeps:
  "getChannelCached answer lk s = (ch, s') \<Longrightarrow>
     mm_requireMention s' = mm_requireMention s \<and> mm_handle s' = mm_handle s \<and> mm_connected s' = mm_connected s \<and>
     mm_inbound s' = mm_inbound s \<and> mm_attempts s' = mm_attempts s \<and> mm_listening s' = mm_listening s \<and>
     length (mm_handles s') = length (mm_handles s)"
  by (auto simp: getChannelCached_def Let_def split: option.splits)

definition mm_caches :: "'w mattermost \<Rightarrow> bool" where
  "mm_caches s \<longleftrightarrow> list_all handle_ok (mm_handles s) \<and>
     list_all (\<lambda>h. h < length (mm_handles s)) (mm_listening s) \<and>
     list_all (\<lambda>lk. lk_handle lk < length (mm_handles s)) (mm_lookups s)"

lemma mm_caches_channel:
  assumes "mm_caches s"
  shows "mm_caches (fst (channel_read te now i answer s env))"
proof (cases "length (mm_lookups s) \<le> i")
  case False
  let ?lk = "mm_lookups s ! i"
  obtain ch s1 where r: "getChannelCached answer ?lk s = (ch, s1)" by fastforce
  have "lk_handle ?lk < length (mm_handles s)" using assms False by (simp add: mm_caches_def list_all_length)
  then have "list_all handle_ok (mm_handles s1)"
    using getChannelCached_handles [of s ?lk answer] assms r by (simp add: mm_caches_def)
  moreover have "list_all P (take i xs @ drop (Suc i) xs)" if "list_all P xs" for P and xs :: "mm_lookup list"
    using that by (auto simp: list_all_iff dest: in_set_takeD in_set_dropD)
  ultimately show ?thesis using assms False r getChannelCached_keeps [OF r]
    by (simp add: channel_read_def mm_caches_def)
qed (use assms in \<open>simp add: channel_read_def\<close>)

lemma mm_caches_step:
  assumes "mm_caches s"
  shows "mm_caches (fst (mm_next parse te (s, env) e))"
proof (cases e)
  case (MmConnected result)
  then show ?thesis using assms
    by (auto simp: mm_caches_def mm_connect_settles_def attachWsListener_def Let_def handle_ok_def list_all_iff less_SucI
        split: nat.split outcome.split)
next
  case (MmPosted h msg)
  then show ?thesis using assms
    by (auto simp: mm_caches_def posted_def list_all_iff split: option.split)
next
  case MmDisconnect
  then show ?thesis using assms
    by (auto simp: mm_caches_def mm_disconnect_def list_all_iff split: option.split)
next
  case (MmChannel now i answer)
  then show ?thesis using mm_caches_channel [OF assms] by simp
qed (use assms in \<open>simp_all add: mm_caches_def mm_connect_def mm_onInbound_def mm_off_def\<close>)

definition mm_sockets :: "'w mattermost \<Rightarrow> bool" where
  "mm_sockets s \<longleftrightarrow> set (mm_listening s) = set_option (mm_handle s) \<and> (mm_connected s \<longleftrightarrow> mm_handle s \<noteq> None) \<and>
     (mm_attempts s = 0 \<or> mm_attempts s = 1 \<and> \<not> mm_connected s)"

lemma mm_sockets_step:
  assumes "mm_sockets s" "e = MmConnect \<Longrightarrow> mm_attempts s = 0"
  shows "mm_sockets (fst (mm_next parse te (s, env) e))"
proof (cases e)
  case (MmConnected result)
  then show ?thesis using assms(1)
    by (auto simp: mm_sockets_def mm_connect_settles_def attachWsListener_def Let_def split: nat.split outcome.split)
next
  case MmDisconnect
  then show ?thesis using assms(1) by (auto simp: mm_sockets_def mm_disconnect_def simp flip: set_empty split: option.split)
next
  case (MmPosted h msg)
  then show ?thesis using assms(1) by (auto simp: mm_sockets_def posted_def simp del: lit_simps split: option.split)
next
  case (MmChannel now i answer)
  obtain ch s1 where r: "getChannelCached answer (mm_lookups s ! i) s = (ch, s1)" by fastforce
  show ?thesis using assms(1) r getChannelCached_keeps [OF r] MmChannel
    by (auto simp: channel_read_def mm_sockets_def)
next
  case MmConnect
  then show ?thesis using assms by (simp add: mm_sockets_def mm_connect_def)
qed (use assms(1) in \<open>auto simp: mm_sockets_def mm_onInbound_def mm_off_def\<close>)

fun one_attempt :: "(js \<Rightarrow> json option) \<Rightarrow> js \<Rightarrow> 'w mattermost \<times> 'w env \<Rightarrow> 'w mm_step list \<Rightarrow> bool" where
  "one_attempt parse te c [] = True"
| "one_attempt parse te c (e # es) =
     ((case e of MmConnect \<Rightarrow> mm_attempts (fst c) = 0 | _ \<Rightarrow> True) \<and> one_attempt parse te (mm_next parse te c e) es)"

lemma mm_sockets_run:
  "mm_sockets (fst c) \<Longrightarrow> one_attempt parse te c es \<Longrightarrow> mm_sockets (fst (foldl (mm_next parse te) c es))"
proof (induction es arbitrary: c)
  case (Cons e es)
  have "mm_sockets (fst (mm_next parse te c e))"
    using mm_sockets_step [of "fst c" e parse te "snd c"] Cons.prems by (cases e) simp_all
  then show ?case using Cons.IH Cons.prems(2) by simp
qed simp

lemma mm_caches_run: "mm_caches (fst c) \<Longrightarrow> mm_caches (fst (foldl (mm_next parse te) c es))"
proof (induction es arbitrary: c)
  case (Cons e es)
  have "mm_caches (fst (mm_next parse te c e))"
    using mm_caches_step [of "fst c" parse te "snd c" e] Cons.prems by simp
  then show ?case using Cons.IH by simp
qed simp

lemma new_mattermost:
  assumes "newMattermostAdapter url token rm = Inr s"
  shows "mm_sockets s \<and> mm_caches s"
  using assms by (auto simp: newMattermostAdapter_def mm_sockets_def mm_caches_def simp del: lit_simps split: if_splits)

text \<open>Without a handler no step touches the world.\<close>

lemma silent_step:
  assumes "mm_inbound s = None" "case e of MmOnInbound h f \<Rightarrow> False | _ \<Rightarrow> True"
  shows "mm_inbound (fst (mm_next parse te (s, env) e)) = None \<and>
    env_world (snd (mm_next parse te (s, env) e)) = env_world env"
proof (cases e)
  case (MmConnected result)
  then show ?thesis using assms(1)
    by (auto simp: mm_connect_settles_def attachWsListener_def Let_def simp del: lit_simps split: nat.split outcome.split)
next
  case (MmChannel now i answer)
  obtain ch s1 where r: "getChannelCached answer (mm_lookups s ! i) s = (ch, s1)" by fastforce
  then have "mm_inbound s1 = None" using getChannelCached_keeps [OF r] assms(1) by simp
  then show ?thesis using assms(1) r MmChannel
    by (auto simp: channel_read_def processPostedEvent_def Let_def simp del: lit_simps split: option.split bool.split)
next
  case (MmPosted h msg)
  then show ?thesis using assms(1) by (auto simp: posted_def simp del: lit_simps split: option.split)
next
  case (MmOnInbound h f)
  then show ?thesis using assms(2) by simp
qed (use assms(1) in \<open>simp_all add: mm_connect_def mm_disconnect_def mm_off_def\<close>)

lemma silent_run:
  "mm_inbound (fst c) = None \<Longrightarrow> list_all (\<lambda>e. case e of MmOnInbound h f \<Rightarrow> False | _ \<Rightarrow> True) es \<Longrightarrow>
     env_world (snd (foldl (mm_next parse te) c es)) = env_world (snd c)"
proof (induction es arbitrary: c)
  case (Cons e es)
  from Cons.prems(2) have "case e of MmOnInbound h f \<Rightarrow> False | _ \<Rightarrow> True" by simp
  note step = silent_step [OF Cons.prems(1) this, of parse te "snd c"]
  then show ?case using Cons.IH [of "mm_next parse te c e"] Cons.prems(2) by simp
qed simp

lemma mattermost_handed_on:
  assumes "env_world (processPostedEvent te now lk channel s env) \<noteq> env_world env"
  shows "mp_user_id (lk_post lk) \<noteq> mh_botUserId (mm_handles s ! lk_handle lk) \<and> mm_inbound s \<noteq> None \<and>
    (mp_root_id (lk_post lk) = [] \<and> normalizeMattermostType channel = lit ''D'' \<or> \<not> mm_requireMention s \<or>
     mention_listed (mh_botUserId (mm_handles s ! lk_handle lk)) (mp_metadata (lk_post lk)) = Some True \<or>
     hasMentionWithBoundary (mp_message (lk_post lk)) (mh_botUsername (mm_handles s ! lk_handle lk)))"
proof -
  let ?h = "mm_handles s ! lk_handle lk"
  let ?t = "mapChannelType (normalizeMattermostType channel) (mp_root_id (lk_post lk) \<noteq> [])"
  have yes: "shouldRespond (lk_post lk) ?t (mh_botUserId ?h) (mh_botUsername ?h) (mm_requireMention s) = Some True"
    and h: "mm_inbound s \<noteq> None"
    using assms by (auto simp: processPostedEvent_def Let_def simp del: lit_simps split: option.splits bool.splits)
  have "?t = DM \<longleftrightarrow> mp_root_id (lk_post lk) = [] \<and> normalizeMattermostType channel = lit ''D''"
    by (simp add: mapChannelType_def del: lit_simps)
  with yes h show ?thesis
    by (auto simp: shouldRespond_def simp del: lit_simps split: if_splits option.splits bool.splits)
qed

lemma renderPosts_facts:
  "\<exists>bs. renderPosts out = Some bs \<and>
     (if out_format out = Some Plain then renders_plain MATTERMOST_MAX_POST is_space (out_text out) bs
      else list_all (\<lambda>b. int (length b) \<le> MATTERMOST_MAX_POST) bs \<and>
        filter (\<lambda>c. \<not> is_space c) (concat bs) = filter (\<lambda>c. \<not> is_space c) (out_text out))"
proof -
  obtain ps where ps: "parts_of (splitForMattermost (out_text out)) = Some ps"
    "list_all (\<lambda>p. int (length p) \<le> MATTERMOST_MAX_POST) ps"
    "filter (\<lambda>c. \<not> is_space c) (concat ps) = filter (\<lambda>c. \<not> is_space c) (out_text out)"
    using mattermost_bodies.text_splits by blast
  then show ?thesis using mattermost_bodies.text_renders [OF ps(1)] by (auto simp: renderPosts_def)
qed

section \<open>Properties\<close>

text \<open>
  As long as no connect is called while another is still in flight, whatever else happens and however
  attempts end, the sockets with a listener are exactly the held handle's, and the adapter says it is
  connected exactly while it holds one.
\<close>
theorem mattermost_sockets_are_held:
  assumes "newMattermostAdapter url token requireMention = Inr s0" "one_attempt parse te (s0, env0) es"
    and "s = fst (foldl (mm_next parse te) (s0, env0) es)"
  shows "set (mm_listening s) = set_option (mm_handle s) \<and> (mm_connected s \<longleftrightarrow> mm_handle s \<noteq> None)"
proof -
  have "mm_sockets s" using mm_sockets_run [of "(s0, env0)" parse te es] new_mattermost [OF assms(1)] assms(2,3) by simp
  then show ?thesis by (simp add: mm_sockets_def)
qed

definition mm_sample :: "nat mattermost" where
  "mm_sample = \<lparr>mm_requireMention = True, mm_handle = None, mm_wsListener = None, mm_connected = False, mm_inbound = None,
     mm_handles = [], mm_attempts = 0, mm_listening = [], mm_lookups = []\<rparr>"

definition quiet_env :: "nat env" where
  "quiet_env = \<lparr>env_world = 0, env_log = []\<rparr>"

lemma mm_sample_new: "newMattermostAdapter (lit ''h'') (lit ''t'') None = Inr mm_sample"
  by (simp add: newMattermostAdapter_def mm_sample_def)

theorem mattermost_sockets_are_held_witness:
  "set (mm_listening (fst (foldl (mm_next (\<lambda>s. None) []) (mm_sample, quiet_env)
     [MmConnect, MmConnected (Returned (lit ''b'', lit ''theo''))]))) = {0}"
proof -
  let ?es = "[MmConnect, MmConnected (Returned (lit ''b'', lit ''theo''))]"
  have "one_attempt (\<lambda>s. None) [] (mm_sample, quiet_env) ?es" by (simp add: mm_sample_def)
  moreover have "mm_handle (fst (foldl (mm_next (\<lambda>s. None) []) (mm_sample, quiet_env) ?es)) = Some 0"
    by (simp add: mm_sample_def mm_connect_def mm_connect_settles_def attachWsListener_def Let_def)
  ultimately show ?thesis using mattermost_sockets_are_held [OF mm_sample_new _ refl, of "\<lambda>s. None" "[]" quiet_env ?es] by simp
qed

text \<open>
  Two overlapping connects leak a socket: the second handle replaces the first, and a disconnect closes
  only the second, so the first goes on delivering posts to an adapter that says it is disconnected.
\<close>
theorem overlapping_connects_leak_a_listener:
  "\<exists>es. mm_listening (fst (foldl (mm_next (\<lambda>s. None) te) (mm_sample, quiet_env) es)) = [0] \<and>
     mm_handle (fst (foldl (mm_next (\<lambda>s. None) te) (mm_sample, quiet_env) es)) = None \<and>
     \<not> mm_connected (fst (foldl (mm_next (\<lambda>s. None) te) (mm_sample, quiet_env) es)) \<and>
     mm_attempts (fst (foldl (mm_next (\<lambda>s. None) te) (mm_sample, quiet_env) es)) = 0"
  by (rule exI [of _ "[MmConnect, MmConnect, MmConnected (Returned ([], [])), MmConnected (Returned ([], [])), MmDisconnect]"])
    (simp add: mm_sample_def mm_connect_def mm_connect_settles_def attachWsListener_def mm_disconnect_def Let_def)

text \<open>
  Whatever happens, overlapping connects included, the channel cache of every handle stays within 200
  entries, each channel once.
\<close>
theorem mattermost_caches_are_bounded:
  assumes "newMattermostAdapter url token requireMention = Inr s0" "s = fst (foldl (mm_next parse te) (s0, env0) es)"
  shows "list_all (\<lambda>h. length (mh_channelCache h) \<le> 200 \<and> distinct (map fst (mh_channelCache h))) (mm_handles s)"
proof -
  have "mm_caches s" using mm_caches_run [of "(s0, env0)" parse te es] new_mattermost [OF assms(1)] assms(2) by simp
  then have "list_all handle_ok (mm_handles s)" by (simp add: mm_caches_def)
  then show ?thesis by (simp add: handle_ok_def jm_inv_def list_all_iff)
qed

theorem mattermost_caches_are_bounded_witness:
  "list_all (\<lambda>h. length (mh_channelCache h) \<le> 200 \<and> distinct (map fst (mh_channelCache h)))
     (mm_handles (fst (foldl (mm_next (\<lambda>s. None) []) (mm_sample, quiet_env) [MmConnect, MmConnected (Returned ([], []))])))"
  by (rule mattermost_caches_are_bounded [OF mm_sample_new refl])

text \<open>
  Once disconnected, and until a handler is subscribed again, nothing that arrives, was already being
  looked up or connects afterwards reaches user code.
\<close>
theorem disconnected_mattermost_reaches_no_handler:
  assumes "mm_connected s" "list_all (\<lambda>e. case e of MmOnInbound h f \<Rightarrow> False | _ \<Rightarrow> True) es"
  shows "env_world (snd (foldl (mm_next parse te) (mm_next parse te (s, env) MmDisconnect) es)) = env_world env"
  using silent_run [of "mm_next parse te (s, env) MmDisconnect" es parse te] assms
  by (simp add: mm_disconnect_def)

theorem disconnected_mattermost_reaches_no_handler_witness:
  "env_world (snd (foldl (mm_next (\<lambda>s. None) []) (mm_next (\<lambda>s. None) []
     (mm_sample\<lparr>mm_connected := True, mm_handle := Some 0, mm_inbound := Some (1, \<lambda>e env. (Returned (), env\<lparr>env_world := 9\<rparr>))\<rparr>, quiet_env)
     MmDisconnect) [MmChannel 0 0 None])) = 0"
  using disconnected_mattermost_reaches_no_handler
    [of "mm_sample\<lparr>mm_connected := True, mm_handle := Some 0, mm_inbound := Some (1, \<lambda>e env. (Returned (), env\<lparr>env_world := 9\<rparr>))\<rparr>"
      "[MmChannel 0 0 None]" "\<lambda>s. None" "[]" quiet_env]
  by (simp add: quiet_env_def)

text \<open>
  A post that reaches user code is not the bot's own, and is addressed to it: a direct message outside a
  thread, a listed mention or the name as a word, unless mentions are not required.
\<close>
theorem mattermost_hands_on_the_addressed:
  assumes "env_world (processPostedEvent te now lk channel s env) \<noteq> env_world env"
    and "post = lk_post lk" "handle = mm_handles s ! lk_handle lk"
  shows "mp_user_id post \<noteq> mh_botUserId handle \<and> mm_inbound s \<noteq> None \<and>
    (mp_root_id post = [] \<and> normalizeMattermostType channel = lit ''D'' \<or> \<not> mm_requireMention s \<or>
     mention_listed (mh_botUserId handle) (mp_metadata post) = Some True \<or>
     hasMentionWithBoundary (mp_message post) (mh_botUsername handle))"
  unfolding assms(2,3) by (rule mattermost_handed_on [OF assms(1)])

definition mm_connected_sample :: "nat mattermost" where
  "mm_connected_sample = mm_sample\<lparr>mm_connected := True, mm_handle := Some 0,
     mm_handles := [\<lparr>mh_botUserId = lit ''b'', mh_botUsername = lit ''theo'', mh_channelCache = []\<rparr>],
     mm_inbound := Some (1, \<lambda>e env. (Returned (), env\<lparr>env_world := 9\<rparr>))\<rparr>"

definition mm_direct :: "js \<Rightarrow> mm_lookup" where
  "mm_direct rootId = \<lparr>lk_handle = 0, lk_post = \<lparr>mp_id = lit ''p'', mp_user_id = lit ''u'', mp_channel_id = lit ''c'',
     mp_root_id = rootId, mp_message = lit ''hi'', mp_create_at = 5, mp_metadata = None\<rparr>, lk_sender_name = None,
     lk_cached = None\<rparr>"

theorem mattermost_hands_on_the_addressed_witness:
  "mp_user_id (lk_post (mm_direct [])) \<noteq> mh_botUserId (mm_handles mm_connected_sample ! 0)"
proof -
  have "env_world (processPostedEvent [] 0 (mm_direct []) (Some \<lparr>mc_type = Some (lit ''D''), mc_team_id = None\<rparr>)
      mm_connected_sample quiet_env) \<noteq> env_world quiet_env" by code_simp
  from mattermost_hands_on_the_addressed [OF this refl refl] show ?thesis by (simp add: mm_direct_def)
qed

text \<open>
  A reply in a thread of a direct-message channel is a thread to the adapter: where mentions are required
  and it has none, it reaches nobody, although every direct message is to be answered.
\<close>
theorem direct_thread_needs_a_mention:
  assumes "mp_root_id (lk_post lk) \<noteq> []" "mm_requireMention s"
    and "mention_listed (mh_botUserId (mm_handles s ! lk_handle lk)) (mp_metadata (lk_post lk)) = Some False"
    and "\<not> hasMentionWithBoundary (mp_message (lk_post lk)) (mh_botUsername (mm_handles s ! lk_handle lk))"
  shows "processPostedEvent te now lk (Some \<lparr>mc_type = Some (lit ''D''), mc_team_id = team\<rparr>) s env = env"
  using assms by (simp add: processPostedEvent_def shouldRespond_def mapChannelType_def Let_def)

theorem direct_thread_needs_a_mention_witness:
  "processPostedEvent [] 0 (mm_direct (lit ''r'')) (Some \<lparr>mc_type = Some (lit ''D''), mc_team_id = None\<rparr>)
     mm_connected_sample quiet_env = quiet_env"
  by (rule direct_thread_needs_a_mention; code_simp)

definition mention_begins :: "js \<Rightarrow> bool" where
  "mention_begins pre \<longleftrightarrow> pre = [] \<or> \<not> is_word (last pre)"

text \<open>
  The search for a mention finds one exactly where the text holds \<open>@\<close> and the name with no word character
  before and neither a word character nor a full stop after.
\<close>
theorem mention_search_is_the_occurrence:
  "hasMentionWithBoundary s name \<longleftrightarrow>
     (\<exists>pre post. s = pre @ lit ''@'' @ name @ post \<and> mention_begins pre \<and> mention_ends post)"
  unfolding hasMentionWithBoundary_def mention_from_iff
  by (auto simp: mention_begins_def split: if_splits)

text \<open>
  A text goes out as posts within Mattermost's cap, whatever its length; declared plain it is escaped
  without loss, so that a reader sees its characters, white space at the cuts apart, and no character of
  it is taken for markup.
\<close>
theorem mattermost_posts_fit_and_read_as_written:
  "\<exists>bodies. renderPosts out = Some bodies \<and> list_all (\<lambda>b. int (length b) \<le> 16383) bodies \<and>
     (if out_format out = Some Plain then
        filter (\<lambda>c. \<not> is_space c) (shown bodies) = filter (\<lambda>c. \<not> is_space c) (out_text out) \<and> all_literal bodies
      else filter (\<lambda>c. \<not> is_space c) (concat bodies) = filter (\<lambda>c. \<not> is_space c) (out_text out))"
  using renderPosts_facts [of out] by (auto simp: MATTERMOST_MAX_POST_def renders_plain_def split: if_splits)

text \<open>The fields of a post as the server writes it into the event.\<close>

definition post_json :: "mm_post \<Rightarrow> json" where
  "post_json p = JObj ([(lit ''id'', JStr (mp_id p)), (lit ''user_id'', JStr (mp_user_id p)),
     (lit ''channel_id'', JStr (mp_channel_id p)), (lit ''root_id'', JStr (mp_root_id p)),
     (lit ''message'', JStr (mp_message p)), (lit ''create_at'', JNum (mp_create_at p))]
     @ (case mp_metadata p of None \<Rightarrow> [] | Some v \<Rightarrow> [(lit ''metadata'', v)]))"

text \<open>A post written into a websocket event is read back from it whole.\<close>
theorem posted_events_read_back:
  assumes "parse raw = Some (post_json p)"
  shows "parsePostFromWS parse \<lparr>ws_event = e, ws_data = Some (JObj [(lit ''post'', JStr raw)])\<rparr> = Some p"
  using assms by (cases p) (auto simp: parsePostFromWS_def post_json_def text_or_def number_or_def split: option.split)

theorem posted_events_read_back_witness:
  "parsePostFromWS (\<lambda>s. Some (post_json (lk_post (mm_direct []))))
     \<lparr>ws_event = [], ws_data = Some (JObj [(lit ''post'', JStr [])])\<rparr> = Some (lk_post (mm_direct []))"
  by (rule posted_events_read_back) (rule refl)

end
