(* ===== verification/MatrixAdapter.thy ===== *)
theory MatrixAdapter
  imports PartSender Json JsMap
begin

text \<open>
  The Matrix adapter (\<open>gateway-matrix/src/alias.ts\<close>, \<open>sync.ts\<close>, \<open>room-state.ts\<close>, \<open>normalize.ts\<close>,
  \<open>replace-content.ts\<close>, \<open>adapter.ts\<close>): the alias cache, the filter of the timeline, the mention gate, the
  life cycle of clients and timeline listeners, sends and edits. matrix-js-sdk is a parameter: which optional
  methods a client has, what it answers and what it throws.
\<close>

section \<open>Events of the timeline\<close>

text \<open>The content is what the sender wrote, of any shape.\<close>

record timeline_event =
  tl_id :: "js option"
  tl_sender :: "js option"
  tl_type :: js
  tl_content :: json
  tl_ts :: int

record matrix_room =
  mr_roomId :: js
  mr_members :: nat

definition shouldDispatchSyncEvent :: "js \<Rightarrow> int \<Rightarrow> int \<Rightarrow> timeline_event \<Rightarrow> bool" where
  "shouldDispatchSyncEvent botUserId freshnessWindowMs now event =
     (if tl_type event \<noteq> lit ''m.room.message'' then False
      else if tl_sender event = Some botUserId then False
      else if tl_ts event < now - freshnessWindowMs then False
      else True)"

definition detectChannelType :: "matrix_room option \<Rightarrow> chan_type" where
  "detectChannelType room = (case room of None \<Rightarrow> Group | Some r \<Rightarrow> if mr_members r = 2 then DM else Group)"

text \<open>
  An event the handler sees; \<open>xe_raw\<close> is what \<open>raw?.getContent?.()\<close> answers, \<open>None\<close> for \<open>undefined\<close>: an event
  handed to \<open>deliver\<close> need not come from the SDK.
\<close>

record matrix_event =
  xe_id :: js
  xe_platform :: platform
  xe_sender :: js
  xe_channel :: channel
  xe_text :: json
  xe_receivedAt :: int
  xe_roomId :: js
  xe_eventId :: js
  xe_memberCount :: nat
  xe_raw :: "json option"

definition matrixEventToMessageEvent :: "timeline_event \<Rightarrow> matrix_room \<Rightarrow> matrix_event option" where
  "matrixEventToMessageEvent event room =
     (case (tl_id event, tl_sender event) of
        (Some eventId, Some sender) \<Rightarrow>
          Some \<lparr>xe_id = eventId, xe_platform = lit ''matrix'', xe_sender = sender,
            xe_channel = \<lparr>ch_id = mr_roomId room, ch_type = detectChannelType (Some room), ch_topicId = None\<rparr>,
            xe_text = or_default (member_of (tl_content event) (lit ''body'')) (JStr []),
            xe_receivedAt = tl_ts event, xe_roomId = mr_roomId room, xe_eventId = eventId,
            xe_memberCount = mr_members room, xe_raw = Some (tl_content event)\<rparr>
      | _ \<Rightarrow> None)"

section \<open>The mention gate\<close>

text \<open>\<open>None\<close>: the gate throws on content that is not shaped as declared.\<close>

definition content_mentions :: "js \<Rightarrow> json \<Rightarrow> bool option" where
  "content_mentions botId content =
     (if content = JNull then None
      else case member_of content (lit ''m.mentions'') of
        Some JNull \<Rightarrow> None
      | Some mentions \<Rightarrow> optional_includes (member_of mentions (lit ''user_ids'')) botId
      | None \<Rightarrow>
          (case js_includes (or_default (member_of content (lit ''body'')) (JStr [])) botId of
             Some False \<Rightarrow> js_includes (or_default (member_of content (lit ''formatted_body'')) (JStr [])) botId
           | r \<Rightarrow> r))"

definition matrix_gate :: "js \<Rightarrow> bool \<Rightarrow> matrix_event \<Rightarrow> bool option" where
  "matrix_gate botId requireMention event =
     (if ch_type (xe_channel event) = DM \<or> \<not> requireMention then Some True
      else case (if xe_platform event = lit ''matrix'' then xe_raw event else None) of
        None \<Rightarrow> js_includes (xe_text event) botId
      | Some content \<Rightarrow> content_mentions botId content)"

section \<open>The adapter's state\<close>

text \<open>
  What a connect that has not returned waits for: the SDK module, the answer to \<open>whoami\<close>, \<open>startClient\<close>.
\<close>

datatype mx_phase = Loading | Checking | StartingClient

text \<open>
  Clients are numbered as they are made, listeners as they are attached. Besides its fields: the connects
  in flight, how many clients and listeners there have been, and the listeners attached, each with its client.
\<close>

record 'w matrix =
  mx_userId :: js
  mx_requireMention :: bool
  mx_freshness :: int
  mx_client :: "nat option"
  mx_subscription :: "(nat \<times> nat) option"
  mx_inbound :: "(nat \<times> (matrix_event \<Rightarrow> ('w, unit) comp)) option"
  mx_aliases :: "(js, js) jsmap"
  mx_connected :: bool
  mx_warnedEncrypted :: "(js, unit) jsmap"
  mx_tearingDown :: bool
  mx_warnedAboutFormat :: bool
  mx_connects :: "mx_phase list"
  mx_made :: nat
  mx_attached :: nat
  mx_listeners :: "(nat \<times> nat) list"

definition matrix_error :: "string \<Rightarrow> js \<Rightarrow> config_error" where
  "matrix_error code message = GatewayConfigurationError (lit ''gateway-matrix'') (lit code) (Some message) None"

definition newMatrixAdapter :: "js \<Rightarrow> js \<Rightarrow> js \<Rightarrow> int option \<Rightarrow> bool option \<Rightarrow> config_error + 'w matrix" where
  "newMatrixAdapter homeserverUrl accessToken userId freshnessWindowMs requireMention =
     (if homeserverUrl = [] then
        Inl (matrix_error ''homeserver_url_required''
          (lit ''gateway-matrix: opts.homeserverUrl is empty (e.g. \"https://matrix.org\")''))
      else if accessToken = [] then
        Inl (matrix_error ''access_token_required''
          (lit ''gateway-matrix: opts.accessToken is empty (Element '' @ [0x2192] @ lit '' Settings '' @ [0x2192]
           @ lit '' Help & About '' @ [0x2192] @ lit '' Advanced '' @ [0x2192] @ lit '' Access Token)''))
      else if userId = [] \<or> \<not> prefix (lit ''@'') userId then
        Inl (matrix_error ''user_id_required''
          (lit ''gateway-matrix: opts.userId must be a Matrix user id (e.g. \"@bot:matrix.org\")''))
      else Inr \<lparr>mx_userId = userId, mx_requireMention = (case requireMention of None \<Rightarrow> True | Some b \<Rightarrow> b),
        mx_freshness = (case freshnessWindowMs of None \<Rightarrow> 60000 | Some n \<Rightarrow> n), mx_client = None,
        mx_subscription = None, mx_inbound = None, mx_aliases = [], mx_connected = False,
        mx_warnedEncrypted = [], mx_tearingDown = False, mx_warnedAboutFormat = False, mx_connects = [],
        mx_made = 0, mx_attached = 0, mx_listeners = []\<rparr>)"

section \<open>Connecting and disconnecting\<close>

definition mx_connect :: "'w matrix \<Rightarrow> 'w matrix" where
  "mx_connect s =
     (if mx_connected s then s else s\<lparr>mx_tearingDown := False, mx_connects := mx_connects s @ [Loading]\<rparr>)"

definition attachSync :: "'w matrix \<Rightarrow> 'w matrix" where
  "attachSync s =
     (case mx_client s of
        None \<Rightarrow> s
      | Some c \<Rightarrow> s\<lparr>mx_subscription := Some (c, mx_attached s), mx_attached := Suc (mx_attached s),
          mx_listeners := (c, mx_attached s) # mx_listeners s\<rparr>)"

definition drop_connect :: "nat \<Rightarrow> 'w matrix \<Rightarrow> 'w matrix" where
  "drop_connect i s = s\<lparr>mx_connects := take i (mx_connects s) @ drop (Suc i) (mx_connects s)\<rparr>"

text \<open>
  The connect at a position goes on: its await ends well (\<open>None\<close>) or throws. Each stage reads \<open>this.client\<close>
  anew; where another connect's success and a disconnect have cleared it, the read of its method throws.
\<close>

definition connect_resumes :: "nat \<Rightarrow> thrown option \<Rightarrow> 'w matrix \<Rightarrow> 'w env \<Rightarrow> bool option \<times> 'w matrix \<times> 'w env" where
  "connect_resumes i result s env =
     (if length (mx_connects s) \<le> i then (None, s, env)
      else
        let failed = (\<lambda>err. (Some False, drop_connect i s,
                write_line (lit ''[gateway-matrix] connect failed: '' @ text_of err) env))
        in case result of
             Some err \<Rightarrow> failed err
           | None \<Rightarrow>
               (case mx_connects s ! i of
                  Loading \<Rightarrow>
                    (None, s\<lparr>mx_client := Some (mx_made s), mx_made := Suc (mx_made s),
                       mx_connects := (mx_connects s)[i := Checking]\<rparr>, env)
                | Checking \<Rightarrow>
                    if mx_client s = None
                    then failed (ThrownError (lit ''Cannot read properties of undefined (reading 'startClient')''))
                    else (None, s\<lparr>mx_connects := (mx_connects s)[i := StartingClient]\<rparr>, env)
                | StartingClient \<Rightarrow> (Some True, (attachSync (drop_connect i s))\<lparr>mx_connected := True\<rparr>, env)))"

definition mx_disconnect :: "'w matrix \<Rightarrow> 'w matrix" where
  "mx_disconnect s =
     (if \<not> mx_connected s then s
      else s\<lparr>mx_tearingDown := True,
        mx_listeners := (case mx_subscription s of None \<Rightarrow> mx_listeners s | Some l \<Rightarrow> removeAll l (mx_listeners s)),
        mx_subscription := None, mx_client := None, mx_connected := False, mx_inbound := None, mx_aliases := []\<rparr>)"

definition mx_onInbound :: "nat \<Rightarrow> (matrix_event \<Rightarrow> ('w, unit) comp) \<Rightarrow> 'w matrix \<Rightarrow> 'w matrix" where
  "mx_onInbound h f s = s\<lparr>mx_inbound := Some (h, f)\<rparr>"

definition mx_off :: "nat \<Rightarrow> 'w matrix \<Rightarrow> 'w matrix" where
  "mx_off h s = (if map_option fst (mx_inbound s) = Some h then s\<lparr>mx_inbound := None\<rparr> else s)"

section \<open>Requests while a client is torn down\<close>

text \<open>What the code reads of a thrown object; \<open>None\<close> where the member is missing or of another type.\<close>

record abort_view =
  av_name :: "js option"
  av_code :: "int option"
  av_message :: "js option"

definition ascii_lower :: "cu \<Rightarrow> cu" where
  "ascii_lower c = (if 65 \<le> c \<and> c \<le> 90 then c + 32 else c)"

text \<open>\<open>None\<close>: the thrown value is no object.\<close>

definition isAbortError :: "abort_view option \<Rightarrow> bool" where
  "isAbortError err =
     (case err of
        None \<Rightarrow> False
      | Some e \<Rightarrow>
          if av_name e = Some (lit ''AbortError'') then True
          else if av_code e = Some 20 then True
          else (case av_message e of None \<Rightarrow> False | Some m \<Rightarrow> includes_str (map ascii_lower m) (lit ''aborted'')))"

text \<open>How the promise of a request ends for the SDK; \<open>None\<close>: it never settles.\<close>

definition teardownSafeFetch :: "(thrown \<Rightarrow> abort_view option) \<Rightarrow> bool \<Rightarrow> 'a outcome \<Rightarrow> 'a outcome option" where
  "teardownSafeFetch view tearingDown result =
     (case result of
        Returned a \<Rightarrow> Some (Returned a)
      | Threw err \<Rightarrow> if tearingDown \<and> isAbortError (view err) then None else Some (Threw err))"

section \<open>The SDK, the alias cache, encrypted rooms\<close>

text \<open>A request names the client it is made on.\<close>

datatype mx_request =
    GetRoomIdForAlias nat js
  | SendTextMessage nat js js
  | SendMessage nat js json

text \<open>
  The adapter is part of the world a request runs in: while it is awaited, another task may connect,
  disconnect or resolve an alias. A request answers the room's or the event's id.
\<close>

type_synonym 'w mx_world = "'w matrix \<times> 'w env"

record 'w mx_sdk =
  sk_call :: "mx_request \<Rightarrow> 'w mx_world \<Rightarrow> js outcome \<times> 'w mx_world"
  sk_has_sendMessage :: "nat \<Rightarrow> bool"
  sk_isRoomEncrypted :: "nat \<Rightarrow> 'w env \<Rightarrow> js \<Rightarrow> bool outcome option"

type_synonym 'w mx_site = "('w mx_world, mx_request \<times> js outcome) site"

text \<open>Every request is kept with its answer, also one that threw: it may have reached the homeserver.\<close>

definition asked ::
    "(mx_request \<Rightarrow> 'w mx_world \<Rightarrow> js outcome \<times> 'w mx_world) \<Rightarrow> mx_request \<Rightarrow> 'w mx_site \<Rightarrow> js outcome \<times> 'w mx_site" where
  "asked call p s = (case call p (fst s) of (r, w) \<Rightarrow> (r, (w, snd s @ [(p, r)])))"

definition in_adapter :: "('w matrix \<Rightarrow> 'w matrix) \<Rightarrow> 'w mx_site \<Rightarrow> 'w mx_site" where
  "in_adapter f s = (case s of ((m, env), reqs) \<Rightarrow> ((f m, env), reqs))"

definition adapter_of :: "'w mx_site \<Rightarrow> 'w matrix" where
  "adapter_of s = fst (fst s)"

definition isEncrypted :: "'w mx_sdk \<Rightarrow> js \<Rightarrow> 'w matrix \<Rightarrow> 'w env \<Rightarrow> bool" where
  "isEncrypted sdk roomId m env =
     (case mx_client m of
        None \<Rightarrow> False
      | Some c \<Rightarrow>
          (case sk_isRoomEncrypted sdk c env roomId of
             None \<Rightarrow> False
           | Some (Returned b) \<Rightarrow> b
           | Some (Threw err) \<Rightarrow> False))"

definition warnEncryptedOnce :: "js \<Rightarrow> 'w matrix \<Rightarrow> 'w env \<Rightarrow> 'w matrix \<times> 'w env" where
  "warnEncryptedOnce roomId m env =
     (if jm_get (mx_warnedEncrypted m) roomId \<noteq> None then (m, env)
      else (m\<lparr>mx_warnedEncrypted := jm_set roomId () (mx_warnedEncrypted m)\<rparr>,
        write_line (lit ''[gateway-matrix] room '' @ roomId
          @ lit '' is end-to-end encrypted; skipping (E2EE deferred to v0.2)'') env))"

definition alias_resolve :: "(js \<Rightarrow> js) \<Rightarrow> 'w mx_sdk \<Rightarrow> nat \<Rightarrow> js \<Rightarrow> 'w mx_site \<Rightarrow> js outcome \<times> 'w mx_site" where
  "alias_resolve stringify sdk c refOrId s =
     (if prefix (lit ''!'') refOrId then (Returned refOrId, s)
      else if \<not> prefix (lit ''#'') refOrId then
        (Threw (ThrownError (lit ''gateway-matrix: invalid room reference '' @ stringify refOrId
           @ lit '' '' @ [0x2014] @ lit '' expected '!' (room id) or '#' (alias)'')), s)
      else case jm_get (mx_aliases (adapter_of s)) refOrId of
        Some roomId \<Rightarrow> (Returned roomId, s)
      | None \<Rightarrow>
          (case asked (sk_call sdk) (GetRoomIdForAlias c refOrId) s of
             (Threw err, s1) \<Rightarrow> (Threw err, s1)
           | (Returned roomId, s1) \<Rightarrow>
               (Returned roomId, in_adapter (\<lambda>m. m\<lparr>mx_aliases := jm_set refOrId roomId (mx_aliases m)\<rparr>) s1)))"

section \<open>Contents\<close>

definition textContent :: "js \<Rightarrow> bool \<Rightarrow> json_object" where
  "textContent t html =
     [(lit ''msgtype'', JStr (lit ''m.text'')), (lit ''body'', JStr t)] @
     (if html then [(lit ''format'', JStr (lit ''org.matrix.custom.html'')), (lit ''formatted_body'', JStr t)] else [])"

definition replaceContent :: "js \<Rightarrow> outbound \<Rightarrow> json" where
  "replaceContent originalEventId out =
     (let html = (out_format out = Some Html) in
      JObj (textContent (lit ''* '' @ out_text out) html @
        [(lit ''m.new_content'', JObj (textContent (out_text out) html)),
         (lit ''m.relates_to'', JObj [(lit ''rel_type'', JStr (lit ''m.replace'')), (lit ''event_id'', JStr originalEventId)])]))"

section \<open>Errors\<close>

text \<open>What the mapping reads of a thrown value that is neither \<open>null\<close> nor \<open>undefined\<close>.\<close>

record mx_rest_error =
  xr_httpStatus :: "int option"
  xr_errcode :: "js option"
  xr_message :: "js option"
  xr_text :: js

definition isMalformedRequest :: "mx_rest_error \<Rightarrow> bool" where
  "isMalformedRequest e \<longleftrightarrow>
     xr_httpStatus e = Some 400 \<and>
     (xr_errcode e = Some (lit ''M_BAD_JSON'') \<or> xr_errcode e = Some (lit ''M_INVALID_PARAM''))"

definition mapMatrixError :: "mx_rest_error \<Rightarrow> send_result" where
  "mapMatrixError e =
     (let status = (case xr_httpStatus e of None \<Rightarrow> 0 | Some n \<Rightarrow> n);
          message_or = (\<lambda>d. case xr_message e of None \<Rightarrow> d | Some m \<Rightarrow> m)
      in if status = 429 \<or> xr_errcode e = Some (lit ''M_LIMIT_EXCEEDED'')
         then send_refused (lit ''rate_limit'') (message_or (lit ''Matrix rate limit''))
         else if status = 401 \<or> status = 403 \<or> xr_errcode e = Some (lit ''M_FORBIDDEN'')
         then send_refused (lit ''permission_denied'') (message_or (lit ''Matrix permission error''))
         else if status = 404 \<or> xr_errcode e = Some (lit ''M_NOT_FOUND'')
         then send_refused (lit ''not_found'') (message_or (lit ''Matrix resource not found''))
         else send_refused (lit ''send_failed'') (message_or (xr_text e)))"

text \<open>A \<open>catch\<close> that maps; on \<open>null\<close> and \<open>undefined\<close> the mapping throws.\<close>

definition mapped :: "(thrown \<Rightarrow> mx_rest_error option) \<Rightarrow> thrown \<Rightarrow> send_result outcome" where
  "mapped read err = (case read err of None \<Rightarrow> Threw type_error | Some e \<Rightarrow> Returned (mapMatrixError e))"

section \<open>Sends and edits\<close>

definition format_name :: "format \<Rightarrow> js" where
  "format_name f = (case f of Plain \<Rightarrow> lit ''plain'' | Markdown \<Rightarrow> lit ''markdown'' | Html \<Rightarrow> lit ''html'')"

definition warnFormatUnsupported :: "format option \<Rightarrow> 'w matrix \<Rightarrow> 'w env \<Rightarrow> 'w matrix \<times> 'w env" where
  "warnFormatUnsupported fmt m env =
     (case fmt of
        Some Markdown \<Rightarrow>
          if mx_warnedAboutFormat m then (m, env)
          else (m\<lparr>mx_warnedAboutFormat := True\<rparr>,
            write_line (lit ''[gateway-matrix] format='' @ quoted (format_name Markdown)
              @ lit '' was declared, and Matrix has no markdown mode '' @ [0x2014]
              @ lit '' its only markup type is HTML. Sending as plain text; this is logged once.'') env)
      | _ \<Rightarrow> (m, env))"

definition undefined_read :: "string \<Rightarrow> thrown" where
  "undefined_read k = ThrownError (lit ''Cannot read properties of undefined (reading '' @ [39] @ lit k @ [39, 41])"

definition lift_world :: "('w matrix \<Rightarrow> 'w env \<Rightarrow> 'w matrix \<times> 'w env) \<Rightarrow> 'w mx_site \<Rightarrow> 'w mx_site" where
  "lift_world f s = (case s of ((m, env), reqs) \<Rightarrow> (f m env, reqs))"

text \<open>The client is read again after the room was resolved; a disconnect may have cleared it.\<close>

definition sendHonouringFormat ::
    "'w mx_sdk \<Rightarrow> (thrown \<Rightarrow> mx_rest_error option) \<Rightarrow> js \<Rightarrow> outbound \<Rightarrow> 'w mx_site \<Rightarrow> js outcome \<times> 'w mx_site" where
  "sendHonouringFormat sdk read roomId out s =
     (case mx_client (adapter_of s) of
        None \<Rightarrow>
          (if out_format out \<noteq> Some Html
           then (Threw (undefined_read ''sendTextMessage''), lift_world (warnFormatUnsupported (out_format out)) s)
           else (Threw (undefined_read ''sendMessage''), s))
      | Some c \<Rightarrow>
          if out_format out \<noteq> Some Html \<or> \<not> sk_has_sendMessage sdk c
          then asked (sk_call sdk) (SendTextMessage c roomId (out_text out))
                 (lift_world (warnFormatUnsupported (out_format out)) s)
          else (case asked (sk_call sdk) (SendMessage c roomId (JObj (textContent (out_text out) True))) s of
                  (Returned eventId, s1) \<Rightarrow> (Returned eventId, s1)
                | (Threw err, s1) \<Rightarrow>
                    (case read err of
                       None \<Rightarrow> (Threw (undefined_read ''httpStatus''), s1)
                     | Some e \<Rightarrow>
                         if \<not> isMalformedRequest e then (Threw err, s1)
                         else asked (sk_call sdk) (SendTextMessage c roomId (out_text out))
                           (lift_world (\<lambda>m env. (m, write_line (lit
                             ''[gateway-matrix] homeserver rejected the formatted body; retrying as plain text'') env)) s1))))"

definition encrypted_refusal :: "js \<Rightarrow> send_result" where
  "encrypted_refusal roomId = send_refused (lit ''encrypted_room_unsupported'')
     (lit ''Matrix room '' @ roomId @ lit '' is encrypted; E2EE deferred to v0.2'')"

definition mx_empty_text :: send_result where
  "mx_empty_text = send_refused (lit ''empty_text'') (lit ''outbound text is empty'')"

definition mx_not_connected :: send_result where
  "mx_not_connected = send_refused (lit ''not_connected'') (lit ''MatrixAdapter.connect() not called'')"

definition room_encrypted :: "'w mx_sdk \<Rightarrow> js \<Rightarrow> 'w mx_site \<Rightarrow> bool" where
  "room_encrypted sdk roomId s = (case s of ((m, env), reqs) \<Rightarrow> isEncrypted sdk roomId m env)"

definition mx_sendMessage ::
    "(js \<Rightarrow> js) \<Rightarrow> 'w mx_sdk \<Rightarrow> (thrown \<Rightarrow> mx_rest_error option) \<Rightarrow> outbound
       \<Rightarrow> 'w mx_site \<Rightarrow> send_result outcome \<times> 'w mx_site" where
  "mx_sendMessage stringify sdk read out s =
     (if out_text out = [] then (Returned mx_empty_text, s)
      else case mx_client (adapter_of s) of
        None \<Rightarrow> (Returned mx_not_connected, s)
      | Some c \<Rightarrow>
          (case alias_resolve stringify sdk c (ch_id (out_channel out)) s of
             (Threw err, s1) \<Rightarrow> (mapped read err, s1)
           | (Returned roomId, s1) \<Rightarrow>
               if room_encrypted sdk roomId s1
               then (Returned (encrypted_refusal roomId), lift_world (warnEncryptedOnce roomId) s1)
               else (case sendHonouringFormat sdk read roomId out s1 of
                       (Threw err, s2) \<Rightarrow> (mapped read err, s2)
                     | (Returned eventId, s2) \<Rightarrow> (Returned (send_ok (Some eventId)), s2))))"

definition mx_editMessage ::
    "(js \<Rightarrow> js) \<Rightarrow> 'w mx_sdk \<Rightarrow> (thrown \<Rightarrow> mx_rest_error option) \<Rightarrow> js \<Rightarrow> outbound
       \<Rightarrow> 'w mx_site \<Rightarrow> send_result outcome \<times> 'w mx_site" where
  "mx_editMessage stringify sdk read messageId out s =
     (if out_text out = [] then (Returned mx_empty_text, s)
      else case mx_client (adapter_of s) of
        None \<Rightarrow> (Returned mx_not_connected, s)
      | Some c \<Rightarrow>
          if messageId = []
          then (Returned (send_refused (lit ''invalid_message_id'') (lit ''message id is empty'')), s)
          else if \<not> sk_has_sendMessage sdk c
          then (Returned (send_refused (lit ''edit_unsupported'')
                 (lit ''matrix client has no sendMessage, so it cannot send an m.replace event'')), s)
          else (case alias_resolve stringify sdk c (ch_id (out_channel out)) s of
             (Threw err, s1) \<Rightarrow> (mapped read err, s1)
           | (Returned roomId, s1) \<Rightarrow>
               if room_encrypted sdk roomId s1
               then (Returned (encrypted_refusal roomId), lift_world (warnEncryptedOnce roomId) s1)
               else (case asked (sk_call sdk) (SendMessage c roomId (replaceContent messageId out))
                            (lift_world (warnFormatUnsupported (out_format out)) s1) of
                       (Threw err, s2) \<Rightarrow> (mapped read err, s2)
                     | (Returned _, s2) \<Rightarrow> (Returned (send_ok (Some messageId)), s2))))"

section \<open>From the timeline to the handler\<close>

text \<open>\<open>type_err\<close> is the message of the \<open>TypeError\<close> the gate may throw, which the listener reports.\<close>

definition dispatchTimelineEvent ::
    "js \<Rightarrow> 'w mx_sdk \<Rightarrow> timeline_event \<Rightarrow> matrix_room \<Rightarrow> 'w matrix \<Rightarrow> 'w env \<Rightarrow> 'w matrix \<times> 'w env" where
  "dispatchTimelineEvent type_err sdk event room m env =
     (if isEncrypted sdk (mr_roomId room) m env then warnEncryptedOnce (mr_roomId room) m env
      else case matrixEventToMessageEvent event room of
        None \<Rightarrow> (m, env)
      | Some normalized \<Rightarrow>
          (case matrix_gate (mx_userId m) (mx_requireMention m) normalized of
             None \<Rightarrow> (m, write_line (lit ''[gateway-matrix] dispatchTimelineEvent failed: '' @ type_err) env)
           | Some False \<Rightarrow> (m, env)
           | Some True \<Rightarrow>
               (case mx_inbound m of
                  None \<Rightarrow> (m, env)
                | Some (_, f) \<Rightarrow>
                    (case f normalized env of
                       (Threw err, env1) \<Rightarrow>
                         (m, write_line (lit ''[gateway-matrix] handler threw: '' @ text_of err) env1)
                     | (Returned _, env1) \<Rightarrow> (m, env1)))))"

definition on_timeline ::
    "js \<Rightarrow> 'w mx_sdk \<Rightarrow> int \<Rightarrow> timeline_event \<Rightarrow> matrix_room \<Rightarrow> 'w matrix \<Rightarrow> 'w env \<Rightarrow> 'w matrix \<times> 'w env" where
  "on_timeline type_err sdk now event room m env =
     (if shouldDispatchSyncEvent (mx_userId m) (mx_freshness m) now event
      then dispatchTimelineEvent type_err sdk event room m env else (m, env))"

text \<open>An event of a client's timeline is handled once by every listener attached to that client.\<close>

definition timeline ::
    "js \<Rightarrow> 'w mx_sdk \<Rightarrow> nat \<Rightarrow> int \<Rightarrow> timeline_event \<Rightarrow> matrix_room \<Rightarrow> 'w matrix \<times> 'w env \<Rightarrow> 'w matrix \<times> 'w env" where
  "timeline type_err sdk c now event room w =
     foldl (\<lambda>(m, env) l. on_timeline type_err sdk now event room m env) w
       (filter (\<lambda>l. fst l = c) (mx_listeners (fst w)))"

definition mx_deliver :: "thrown \<Rightarrow> matrix_event \<Rightarrow> 'w matrix \<Rightarrow> ('w, delivery) comp" where
  "mx_deliver type_err event m env =
     (case matrix_gate (mx_userId m) (mx_requireMention m) event of
        None \<Rightarrow> (Threw type_err, env)
      | Some False \<Rightarrow> (Returned DeliveredOk, env)
      | Some True \<Rightarrow> runHandler (lit ''matrix'') (map_option snd (mx_inbound m)) event env)"

section \<open>Steps\<close>

datatype 'w mx_step =
    MxConnect
  | MxResume nat "thrown option"
  | MxDisconnect
  | MxOnInbound nat "matrix_event \<Rightarrow> ('w, unit) comp"
  | MxOff nat

fun mx_next :: "'w mx_world \<Rightarrow> 'w mx_step \<Rightarrow> 'w mx_world" where
  "mx_next (s, env) MxConnect = (mx_connect s, env)"
| "mx_next (s, env) (MxResume i result) = snd (connect_resumes i result s env)"
| "mx_next (s, env) MxDisconnect = (mx_disconnect s, env)"
| "mx_next (s, env) (MxOnInbound h f) = (mx_onInbound h f s, env)"
| "mx_next (s, env) (MxOff h) = (mx_off h s, env)"

text \<open>With one connect at a time there is one listener, on the held client, exactly while connected.\<close>

definition mx_inv :: "'w matrix \<Rightarrow> bool" where
  "mx_inv s \<longleftrightarrow>
     mx_listeners s = (case mx_subscription s of None \<Rightarrow> [] | Some l \<Rightarrow> [l]) \<and>
     (mx_connected s \<longleftrightarrow> mx_subscription s \<noteq> None) \<and>
     (\<forall>l. mx_subscription s = Some l \<longrightarrow> mx_client s = Some (fst l)) \<and>
     (mx_connects s = [] \<or>
      (\<exists>p. mx_connects s = [p] \<and> \<not> mx_connected s \<and> (p = Loading \<or> mx_client s \<noteq> None)))"

lemma mx_inv_resumes:
  assumes "mx_inv s"
  shows "mx_inv (fst (snd (connect_resumes i result s env)))"
proof (cases "length (mx_connects s) \<le> i")
  case False
  then obtain p where p: "mx_connects s = [p]" "i = 0" "\<not> mx_connected s" "p = Loading \<or> mx_client s \<noteq> None"
    using assms by (auto simp: mx_inv_def)
  then have "mx_subscription s = None" using assms by (cases "mx_subscription s") (auto simp: mx_inv_def)
  then have idle: "mx_subscription s = None" "mx_listeners s = []" using assms by (simp_all add: mx_inv_def)
  show ?thesis
  proof (cases result)
    case (Some err)
    then show ?thesis using p idle by (simp add: connect_resumes_def Let_def mx_inv_def drop_connect_def)
  next
    case None
    then show ?thesis using p idle
      by (cases p) (auto simp: connect_resumes_def Let_def mx_inv_def drop_connect_def attachSync_def)
  qed
qed (use assms in \<open>simp add: connect_resumes_def\<close>)

lemma mx_inv_step:
  assumes "mx_inv (fst w)" "e = MxConnect \<Longrightarrow> mx_connects (fst w) = []"
  shows "mx_inv (fst (mx_next w e))"
proof (cases w)
  case (Pair s env)
  then have inv: "mx_inv s" using assms(1) by simp
  show ?thesis
  proof (cases e)
    case (MxResume i result)
    then show ?thesis using mx_inv_resumes [OF inv] Pair by simp
  next
    case MxConnect
    then show ?thesis using inv assms(2) Pair by (auto simp: mx_connect_def mx_inv_def)
  next
    case MxDisconnect
    then show ?thesis using inv Pair by (auto simp: mx_disconnect_def mx_inv_def)
  qed (use inv Pair in \<open>auto simp: mx_onInbound_def mx_off_def mx_inv_def\<close>)
qed

fun one_connect :: "'w mx_world \<Rightarrow> 'w mx_step list \<Rightarrow> bool" where
  "one_connect w [] = True"
| "one_connect w (e # es) =
     ((case e of MxConnect \<Rightarrow> mx_connects (fst w) = [] | _ \<Rightarrow> True) \<and> one_connect (mx_next w e) es)"

lemma mx_inv_run: "mx_inv (fst w) \<Longrightarrow> one_connect w es \<Longrightarrow> mx_inv (fst (foldl mx_next w es))"
proof (induction es arbitrary: w)
  case (Cons e es)
  have "mx_inv (fst (mx_next w e))" using mx_inv_step [of w e] Cons.prems by (cases e) simp_all
  then show ?case using Cons.IH Cons.prems(2) by simp
qed simp

lemma new_matrix: "newMatrixAdapter url token user fresh rm = Inr s \<Longrightarrow> mx_inv s"
  by (auto simp: newMatrixAdapter_def mx_inv_def simp del: lit_simps split: if_splits)

section \<open>What a send puts into a room\<close>

lemma asked_requests: "asked call p s = (r, s') \<Longrightarrow> snd s' = snd s @ [(p, r)]"
  by (auto simp: asked_def split: prod.splits)

lemma lift_requests [simp]: "snd (lift_world f s) = snd s" "snd (in_adapter g s) = snd s"
  by (auto simp: lift_world_def in_adapter_def split: prod.split)

lemma alias_requests:
  assumes "alias_resolve stringify sdk c ref s = (r, s')"
  shows "snd s' = snd s \<or> (\<exists>x. snd s' = snd s @ [(GetRoomIdForAlias c ref, x)])"
proof -
  obtain x s1 where x: "asked (sk_call sdk) (GetRoomIdForAlias c ref) s = (x, s1)" by (rule prod.exhaust)
  then show ?thesis using assms asked_requests [OF x]
    by (cases x) (auto simp: alias_resolve_def simp del: lit_simps split: if_splits option.splits)
qed

text \<open>The messages that carry a text: as plain text, or as HTML where it was declared.\<close>

definition carries :: "outbound \<Rightarrow> mx_request \<Rightarrow> bool" where
  "carries out msg \<longleftrightarrow>
     (\<exists>c room. msg = SendTextMessage c room (out_text out) \<or>
        out_format out = Some Html \<and> msg = SendMessage c room (JObj (textContent (out_text out) True)))"

definition plain_post :: "outbound \<Rightarrow> mx_request \<Rightarrow> bool" where
  "plain_post out msg \<longleftrightarrow> (\<exists>c room. msg = SendTextMessage c room (out_text out))"

definition refused_as_malformed :: "(thrown \<Rightarrow> mx_rest_error option) \<Rightarrow> js outcome \<Rightarrow> bool" where
  "refused_as_malformed read r \<longleftrightarrow>
     (\<exists>err e. r = Threw err \<and> read err = Some e \<and> xr_httpStatus e = Some 400 \<and>
        xr_errcode e \<in> {Some (lit ''M_BAD_JSON''), Some (lit ''M_INVALID_PARAM'')})"

text \<open>
  What a send may post: nothing; one message; or HTML that the homeserver refuses as malformed, and then the
  plain text. HTML so refused is never the last.
\<close>

definition posts_once :: "(thrown \<Rightarrow> mx_rest_error option) \<Rightarrow> outbound \<Rightarrow> (mx_request \<times> js outcome) list \<Rightarrow> bool" where
  "posts_once read out posts \<longleftrightarrow>
     (case posts of
        [] \<Rightarrow> True
      | [(p, r)] \<Rightarrow> carries out p \<and> (plain_post out p \<or> \<not> refused_as_malformed read r)
      | [(p, r), (p', r')] \<Rightarrow> carries out p \<and> \<not> plain_post out p \<and> refused_as_malformed read r \<and> plain_post out p'
      | _ \<Rightarrow> False)"

definition last_answer :: "(mx_request \<times> js outcome) list \<Rightarrow> js option" where
  "last_answer posts = (case rev posts of (p, Returned i) # ps \<Rightarrow> Some i | _ \<Rightarrow> None)"

lemma refused_as_malformed_iff: "refused_as_malformed read (Threw err) \<longleftrightarrow> (\<exists>e. read err = Some e \<and> isMalformedRequest e)"
  by (auto simp: refused_as_malformed_def isMalformedRequest_def simp del: lit_simps)

lemma format_requests:
  assumes "sendHonouringFormat sdk read roomId out s = (r, s')"
  shows "\<exists>posts. snd s' = snd s @ posts \<and> posts_once read out posts \<and> last_answer posts = (case r of Returned i \<Rightarrow> Some i | Threw err \<Rightarrow> None)"
proof (cases "mx_client (adapter_of s)")
  case None
  then show ?thesis using assms
    by (intro exI [of _ "[]"]) (auto simp: sendHonouringFormat_def posts_once_def last_answer_def simp del: lit_simps split: if_splits)
next
  case (Some c)
  let ?p = "SendTextMessage c roomId (out_text out)" and ?m = "SendMessage c roomId (JObj (textContent (out_text out) True))"
  show ?thesis
  proof (cases "out_format out \<noteq> Some Html \<or> \<not> sk_has_sendMessage sdk c")
    case True
    then have "asked (sk_call sdk) ?p (lift_world (warnFormatUnsupported (out_format out)) s) = (r, s')"
      using assms Some by (auto simp: sendHonouringFormat_def)
    from asked_requests [OF this] show ?thesis
      by (intro exI [of _ "[(?p, r)]"]) (auto simp: posts_once_def carries_def plain_post_def last_answer_def split: outcome.split)
  next
    case False
    obtain x s1 where x: "asked (sk_call sdk) ?m s = (x, s1)" by (rule prod.exhaust)
    note s1 = asked_requests [OF x]
    have m: "carries out ?m" "\<not> plain_post out ?m" using False by (auto simp: carries_def plain_post_def)
    show ?thesis
    proof (cases "refused_as_malformed read x")
      case True
      then obtain err e where e: "x = Threw err" "read err = Some e" "isMalformedRequest e"
        using refused_as_malformed_iff by (cases x) (auto simp: refused_as_malformed_def)
      then have "\<exists>f. asked (sk_call sdk) ?p (lift_world f s1) = (r, s')"
        using assms Some False x by (auto simp: sendHonouringFormat_def simp del: lit_simps)
      then obtain f where "asked (sk_call sdk) ?p (lift_world f s1) = (r, s')" by blast
      from asked_requests [OF this] show ?thesis using s1 m True
        by (intro exI [of _ "[(?m, x), (?p, r)]"]) (auto simp: posts_once_def plain_post_def last_answer_def split: outcome.split)
    next
      case ok: False
      have "s' = s1 \<and> (case x of Returned i \<Rightarrow> r = Returned i | Threw err \<Rightarrow> \<exists>err'. r = Threw err')"
      proof (cases x)
        case (Threw err)
        then show ?thesis using assms Some False x ok refused_as_malformed_iff [of read err]
          by (auto simp: sendHonouringFormat_def simp del: lit_simps split: option.splits if_splits)
      qed (use assms Some False x in \<open>auto simp: sendHonouringFormat_def\<close>)
      then show ?thesis using s1 m ok
        by (intro exI [of _ "[(?m, x)]"]) (auto simp: posts_once_def last_answer_def split: outcome.splits)
    qed
  qed
qed

lemma mapped_refuses: "mapped read err \<noteq> Returned (send_ok mid)"
  by (auto simp: mapped_def mapMatrixError_def Let_def send_ok_def send_refused_def simp del: lit_simps split: option.split)

lemma mapped_no_ok: "mapped read err = Returned r \<Longrightarrow> \<not> sr_ok r"
  by (auto simp: mapped_def mapMatrixError_def Let_def simp del: lit_simps split: option.splits if_splits)

section \<open>Properties\<close>

text \<open>
  C26: as long as no connect is called while another is in flight, whatever else happens and however the
  stages of a connect end, the adapter has one timeline listener, on the client it holds, while it
  says it is connected, and none otherwise: no message is handled twice or after a disconnect.
\<close>
theorem matrix_listens_once:
  assumes "newMatrixAdapter url token userId fresh requireMention = Inr s0" "one_connect (s0, env0) es"
    and "s = fst (foldl mx_next (s0, env0) es)"
  shows "if mx_connected s then \<exists>c l. mx_listeners s = [(c, l)] \<and> mx_client s = Some c else mx_listeners s = []"
proof -
  have "mx_inv s" using mx_inv_run [of "(s0, env0)" es] new_matrix [OF assms(1)] assms(2,3) by simp
  then show ?thesis by (cases "mx_subscription s") (auto simp: mx_inv_def)
qed

definition mx_sample :: "nat matrix" where
  "mx_sample = \<lparr>mx_userId = lit ''@b:h'', mx_requireMention = True, mx_freshness = 60000, mx_client = None,
     mx_subscription = None, mx_inbound = None, mx_aliases = [], mx_connected = False, mx_warnedEncrypted = [],
     mx_tearingDown = False, mx_warnedAboutFormat = False, mx_connects = [], mx_made = 0, mx_attached = 0,
     mx_listeners = []\<rparr>"

lemma mx_sample_new: "newMatrixAdapter (lit ''h'') (lit ''t'') (lit ''@b:h'') None None = Inr mx_sample"
  by (simp add: newMatrixAdapter_def mx_sample_def)

definition mx_quiet :: "nat env" where
  "mx_quiet = \<lparr>env_world = 0, env_log = []\<rparr>"

definition connecting :: "'w mx_step list" where
  "connecting = [MxConnect, MxResume 0 None, MxResume 0 None, MxResume 0 None]"

lemmas mx_evaluation = mx_sample_def mx_quiet_def connecting_def mx_connect_def connect_resumes_def attachSync_def
  drop_connect_def mx_disconnect_def Let_def

theorem matrix_listens_once_witness:
  "mx_listeners (fst (foldl mx_next (mx_sample, mx_quiet) connecting)) = [(0, 0)]"
proof -
  have "one_connect (mx_sample, mx_quiet) connecting" by (simp add: mx_evaluation)
  moreover have "mx_connected (fst (foldl mx_next (mx_sample, mx_quiet) connecting))"
    "mx_client (fst (foldl mx_next (mx_sample, mx_quiet) connecting)) = Some 0"
    "mx_attached (fst (foldl mx_next (mx_sample, mx_quiet) connecting)) = 1" by (simp_all add: mx_evaluation)
  ultimately obtain l where "mx_listeners (fst (foldl mx_next (mx_sample, mx_quiet) connecting)) = [(0, l)]"
    using matrix_listens_once [OF mx_sample_new _ refl, of mx_quiet connecting] by auto
  moreover have "map snd (mx_listeners (fst (foldl mx_next (mx_sample, mx_quiet) connecting))) = [0]"
    by (simp add: mx_evaluation)
  ultimately show ?thesis by simp
qed

text \<open>
  Two overlapping connects attach two listeners to one client, since each stage goes on with the client the
  adapter holds by then: every message is handled twice.
\<close>
theorem overlapping_connects_listen_twice:
  "\<exists>es. mx_listeners (fst (foldl mx_next (mx_sample, mx_quiet) es)) = [(1, 1), (1, 0)] \<and>
     mx_connects (fst (foldl mx_next (mx_sample, mx_quiet) es)) = [] \<and>
     mx_client (fst (foldl mx_next (mx_sample, mx_quiet) es)) = Some 1"
  by (rule exI [of _ "[MxConnect, MxConnect, MxResume 0 None, MxResume 1 None, MxResume 0 None, MxResume 1 None,
      MxResume 0 None, MxResume 0 None]"]) (simp add: mx_evaluation)

text \<open>
  C18: a send posts its text at most twice: a second time, as plain text, only where the first was HTML that the
  homeserver refused as malformed, so nothing is posted again that another failure, such as a timeout, may
  have let through. It answers success exactly when the last post was acknowledged, with that post's event. Before
  it at most one alias was looked up. This holds whatever other tasks do to the adapter meanwhile.
\<close>
theorem matrix_send_is_all_or_nothing:
  assumes "mx_sendMessage stringify sdk read out s = (result, s')"
  shows "\<exists>lookups posts. snd s' = snd s @ lookups @ posts \<and> length lookups \<le> 1 \<and>
    list_all (\<lambda>(p, r). \<exists>c. p = GetRoomIdForAlias c (ch_id (out_channel out))) lookups \<and> posts_once read out posts \<and>
    (case last_answer posts of
       Some i \<Rightarrow> result = Returned (send_ok (Some i))
     | None \<Rightarrow> \<not> (\<exists>r. result = Returned r \<and> sr_ok r))"
proof (cases "out_text out = [] \<or> mx_client (adapter_of s) = None")
  case True
  then have "result = Returned mx_empty_text \<or> result = Returned mx_not_connected" "s' = s"
    using assms by (auto simp: mx_sendMessage_def split: if_splits option.splits)
  then show ?thesis
    by (intro exI [of _ "[]"]) (auto simp: mx_empty_text_def mx_not_connected_def posts_once_def last_answer_def)
next
  case False
  then obtain c where c: "mx_client (adapter_of s) = Some c" "out_text out \<noteq> []" by auto
  obtain x s1 where x: "alias_resolve stringify sdk c (ch_id (out_channel out)) s = (x, s1)" by (rule prod.exhaust)
  obtain lookups where l: "length lookups \<le> 1" "snd s1 = snd s @ lookups"
    "list_all (\<lambda>(p, r). \<exists>c. p = GetRoomIdForAlias c (ch_id (out_channel out))) lookups"
    using alias_requests [OF x] that [of "[]"] that [of "[(GetRoomIdForAlias c (ch_id (out_channel out)), _)]"] by auto
  have "\<exists>posts. snd s' = snd s1 @ posts \<and> posts_once read out posts \<and>
    (case last_answer posts of Some i \<Rightarrow> result = Returned (send_ok (Some i)) | None \<Rightarrow> \<not> (\<exists>r. result = Returned r \<and> sr_ok r))"
  proof (cases "\<exists>room. x = Returned room \<and> \<not> room_encrypted sdk room s1")
    case True
    then obtain room where room: "x = Returned room" "\<not> room_encrypted sdk room s1" by blast
    obtain y s2 where y: "sendHonouringFormat sdk read room out s1 = (y, s2)" by (rule prod.exhaust)
    have "s' = s2" "result = (case y of Returned i \<Rightarrow> Returned (send_ok (Some i)) | Threw err \<Rightarrow> mapped read err)"
      using assms c x room y by (auto simp: mx_sendMessage_def split: outcome.splits)
    then show ?thesis using format_requests [OF y] mapped_no_ok by (fastforce split: outcome.splits)
  next
    case False
    then have "snd s' = snd s1 \<and> \<not> (\<exists>r. result = Returned r \<and> sr_ok r)"
      using assms c x mapped_no_ok by (cases x) (auto simp: mx_sendMessage_def encrypted_refusal_def)
    then show ?thesis by (intro exI [of _ "[]"]) (simp add: posts_once_def last_answer_def)
  qed
  then show ?thesis using l by fastforce
qed

text \<open>An SDK that accepts everything and answers the number of the request; no room is encrypted.\<close>

definition open_sdk :: "nat mx_sdk" where
  "open_sdk = \<lparr>sk_call = (\<lambda>p (m, env). (Returned (lit ''$1''), (m, env\<lparr>env_world := Suc (env_world env)\<rparr>))),
     sk_has_sendMessage = (\<lambda>c. True), sk_isRoomEncrypted = (\<lambda>c env room. Some (Returned False))\<rparr>"

definition mx_note :: "format option \<Rightarrow> js \<Rightarrow> outbound" where
  "mx_note fmt room = \<lparr>out_channel = \<lparr>ch_id = room, ch_type = Group, ch_topicId = None\<rparr>, out_text = lit ''hi'',
     out_format = fmt, out_replyTo = None\<rparr>"

definition mx_held :: "nat matrix" where
  "mx_held = mx_sample\<lparr>mx_client := Some 0, mx_connected := True\<rparr>"

definition html_refused :: mx_rest_error where
  "html_refused = \<lparr>xr_httpStatus = Some 400, xr_errcode = Some (lit ''M_BAD_JSON''), xr_message = None, xr_text = []\<rparr>"

text \<open>An SDK that refuses HTML.\<close>

definition plain_sdk :: "nat mx_sdk" where
  "plain_sdk = open_sdk\<lparr>sk_call := (\<lambda>p w. (case p of SendMessage c room j \<Rightarrow> Threw (ThrownError []) | _ \<Rightarrow> Returned (lit ''$1''), w))\<rparr>"

theorem matrix_send_is_all_or_nothing_witness:
  "\<exists>posts. snd (snd (mx_sendMessage (\<lambda>s. s) plain_sdk (\<lambda>e. Some html_refused) (mx_note (Some Html) (lit ''!r'')) ((mx_held, mx_quiet), []))) = posts
     \<and> length posts = 2 \<and> posts_once (\<lambda>e. Some html_refused) (mx_note (Some Html) (lit ''!r'')) posts"
proof -
  let ?r = "mx_sendMessage (\<lambda>s. s) plain_sdk (\<lambda>e. Some html_refused) (mx_note (Some Html) (lit ''!r'')) ((mx_held, mx_quiet), [])"
  have two: "list_all (\<lambda>(p, r). case p of GetRoomIdForAlias c a \<Rightarrow> False | _ \<Rightarrow> True) (snd (snd ?r))" "length (snd (snd ?r)) = 2" by code_simp+
  obtain r s' where r: "?r = (r, s')" by (rule prod.exhaust)
  from matrix_send_is_all_or_nothing [OF r] obtain lookups posts where l: "snd s' = lookups @ posts"
    "list_all (\<lambda>(p, r). \<exists>c. p = GetRoomIdForAlias c (ch_id (out_channel (mx_note (Some Html) (lit ''!r''))))) lookups"
    "posts_once (\<lambda>e. Some html_refused) (mx_note (Some Html) (lit ''!r'')) posts" by auto
  then have "lookups = []" using two(1) r by (cases lookups) auto
  then show ?thesis using l two r by auto
qed

text \<open>
  In a room the client says is encrypted nothing is sent: a send and an edit answer the refusal and make
  no request but the alias lookup that named the room.
\<close>
theorem encrypted_rooms_get_nothing:
  assumes "alias_resolve stringify sdk c (ch_id (out_channel out)) s = (Returned room, s1)"
    and "mx_client (adapter_of s) = Some c" "room_encrypted sdk room s1" "out_text out \<noteq> []"
  shows "fst (mx_sendMessage stringify sdk read out s) = Returned (encrypted_refusal room) \<and>
    snd (snd (mx_sendMessage stringify sdk read out s)) = snd s1 \<and>
    snd (snd (mx_editMessage stringify sdk read messageId out s)) \<in> {snd s, snd s1}"
  using assms by (auto simp: mx_sendMessage_def mx_editMessage_def simp del: lit_simps)

theorem encrypted_rooms_get_nothing_witness:
  "map fst (snd (snd (mx_sendMessage (\<lambda>s. s) (open_sdk\<lparr>sk_isRoomEncrypted := \<lambda>c env room. Some (Returned True)\<rparr>) (\<lambda>e. None)
     (mx_note None (lit ''#r'')) ((mx_held, mx_quiet), [])))) = [GetRoomIdForAlias 0 (lit ''#r'')]"
proof -
  let ?sdk = "open_sdk\<lparr>sk_isRoomEncrypted := \<lambda>c env room. Some (Returned True)\<rparr>"
  let ?s = "((mx_held, mx_quiet), [])"
  let ?a = "alias_resolve (\<lambda>s. s) ?sdk 0 (ch_id (out_channel (mx_note None (lit ''#r'')))) ?s"
  have a: "?a = (Returned (lit ''$1''), snd ?a)" "map fst (snd (snd ?a)) = [GetRoomIdForAlias 0 (lit ''#r'')]"
    "mx_client (adapter_of ?s) = Some 0" "room_encrypted ?sdk (lit ''$1'') (snd ?a)" "out_text (mx_note None (lit ''#r'')) \<noteq> []"
    by (simp_all add: alias_resolve_def mx_note_def adapter_of_def mx_held_def mx_sample_def asked_def
        open_sdk_def in_adapter_def room_encrypted_def isEncrypted_def)
  from encrypted_rooms_get_nothing [OF a(1) a(3,4,5)] a(2) show ?thesis by simp
qed

text \<open>
  With mentions required, a message of a room of more than two that does not mention the bot in a way the
  gate can read reaches no handler: not from the timeline, through however many listeners, and not
  through \<open>deliver\<close>.
\<close>
theorem matrix_gate_holds_on_both_paths:
  assumes "matrixEventToMessageEvent event room = Some normalized"
    and "matrix_gate (mx_userId m) (mx_requireMention m) normalized \<noteq> Some True"
  shows "env_world (snd (dispatchTimelineEvent te sdk event room m env)) = env_world env \<and>
    env_world (snd (mx_deliver err normalized m env)) = env_world env"
  using assms
  by (auto simp: dispatchTimelineEvent_def mx_deliver_def warnEncryptedOnce_def simp del: lit_simps
      split: option.split bool.split)

definition mx_group_room :: matrix_room where
  "mx_group_room = \<lparr>mr_roomId = lit ''!r'', mr_members = 5\<rparr>"

definition mx_event_of :: "json \<Rightarrow> timeline_event" where
  "mx_event_of content = \<lparr>tl_id = Some (lit ''$e''), tl_sender = Some (lit ''@u:h''), tl_type = lit ''m.room.message'',
     tl_content = content, tl_ts = 0\<rparr>"

theorem matrix_gate_holds_on_both_paths_witness:
  "env_world (snd (dispatchTimelineEvent [] open_sdk (mx_event_of (JObj [(lit ''body'', JStr (lit ''hi''))])) mx_group_room
     mx_held mx_quiet)) = 0"
proof -
  let ?e = "mx_event_of (JObj [(lit ''body'', JStr (lit ''hi''))])"
  obtain n where n: "matrixEventToMessageEvent ?e mx_group_room = Some n"
    by (simp add: matrixEventToMessageEvent_def mx_event_of_def)
  have "matrix_gate (mx_userId mx_held) (mx_requireMention mx_held) (the (matrixEventToMessageEvent ?e mx_group_room)) = Some False"
    by code_simp
  then have "matrix_gate (mx_userId mx_held) (mx_requireMention mx_held) n \<noteq> Some True" using n by simp
  from matrix_gate_holds_on_both_paths [OF n this, of "[]" open_sdk mx_quiet undefined]
  show ?thesis by (simp add: mx_quiet_def)
qed

text \<open>
  A message whose sender wrote \<open>null\<close> as its mentions makes \<open>deliver\<close> reject in a room of more than two,
  although \<open>deliver\<close> promises one of three answers.
\<close>
theorem null_mentions_reject_deliver:
  "\<exists>normalized. matrixEventToMessageEvent (mx_event_of (JObj [(lit ''m.mentions'', JNull)])) mx_group_room = Some normalized \<and>
     (\<forall>(m :: 'w matrix) env. mx_requireMention m \<longrightarrow> mx_deliver err normalized m env = (Threw err, env))"
  by (simp add: matrixEventToMessageEvent_def mx_event_of_def mx_group_room_def mx_deliver_def matrix_gate_def
      detectChannelType_def content_mentions_def)

text \<open>
  An event of the bot itself, older than the freshness window, or of another type than a message, changes
  nothing, however many listeners its client has.
\<close>
theorem unwanted_events_change_nothing:
  assumes "tl_sender event = Some (mx_userId m) \<or> tl_ts event < now - mx_freshness m \<or> tl_type event \<noteq> lit ''m.room.message''"
  shows "timeline te sdk c now event room (m, env) = (m, env)"
proof -
  have idle: "on_timeline te sdk now event room m env = (m, env)"
    using assms by (auto simp: on_timeline_def shouldDispatchSyncEvent_def)
  have "foldl (\<lambda>(m, env) l. on_timeline te sdk now event room m env) (m, env) ls = (m, env)" for ls :: "(nat \<times> nat) list"
    by (induction ls) (simp_all add: idle)
  then show ?thesis by (simp add: timeline_def)
qed

theorem unwanted_events_change_nothing_witness:
  "timeline [] open_sdk 0 60001 (mx_event_of JNull) mx_group_room (mx_held, mx_quiet) = (mx_held, mx_quiet)"
  by (rule unwanted_events_change_nothing) (simp add: mx_event_of_def mx_held_def mx_sample_def)

text \<open>
  An alias is looked up once: after it has been resolved, resolving it again, over whichever client, makes
  no request and answers the same room, until a disconnect forgets it.
\<close>
theorem aliases_are_looked_up_once:
  assumes "alias_resolve stringify sdk c ref s = (Returned room, s1)"
  shows "alias_resolve stringify sdk c' ref s1 = (Returned room, s1)"
proof (cases "\<not> prefix (lit ''!'') ref \<and> jm_get (mx_aliases (adapter_of s)) ref = None")
  case True
  then obtain s2 where "s1 = in_adapter (\<lambda>m. m\<lparr>mx_aliases := jm_set ref room (mx_aliases m)\<rparr>) s2"
    and hash: "prefix (lit ''#'') ref"
    using assms(1) by (auto simp: alias_resolve_def simp del: lit_simps split: if_splits prod.splits outcome.splits)
  then have "mx_aliases (adapter_of s1) = jm_set ref room (mx_aliases (adapter_of s2))"
    by (cases s2) (auto simp: in_adapter_def adapter_of_def split: prod.split)
  then have "jm_get (mx_aliases (adapter_of s1)) ref = Some room"
    by (simp add: jm_get_def jm_set_def update_conv')
  then show ?thesis using True hash by (simp add: alias_resolve_def del: lit_simps)
next
  case False
  then show ?thesis using assms(1)
    by (auto simp: alias_resolve_def simp del: lit_simps split: if_splits option.splits prod.splits outcome.splits)
qed

theorem aliases_are_looked_up_once_witness:
  "map fst (snd (snd (alias_resolve (\<lambda>s. s) open_sdk 0 (lit ''#a'') (snd (alias_resolve (\<lambda>s. s) open_sdk 0 (lit ''#a'') ((mx_held, mx_quiet), []))))))
     = [GetRoomIdForAlias 0 (lit ''#a'')]"
proof -
  let ?r = "alias_resolve (\<lambda>s. s) open_sdk 0 (lit ''#a'') ((mx_held, mx_quiet), [])"
  have r: "?r = (Returned (lit ''$1''), snd ?r)" "map fst (snd (snd ?r)) = [GetRoomIdForAlias 0 (lit ''#a'')]"
    by (simp_all add: alias_resolve_def adapter_of_def mx_held_def mx_sample_def asked_def open_sdk_def in_adapter_def)
  from aliases_are_looked_up_once [OF r(1), of 0] r(2) show ?thesis by simp
qed

text \<open>
  A connect that failed at the credential check leaves its client in place: the adapter says it is not
  connected and a disconnect does nothing, but a send goes out over that client.
\<close>
theorem failed_connect_still_sends:
  "\<exists>es. let m = fst (foldl mx_next (mx_sample, mx_quiet) es) in
     mx_connects m = [] \<and> \<not> mx_connected m \<and> mx_disconnect m = m \<and>
     map fst (snd (snd (mx_sendMessage (\<lambda>s. s) open_sdk (\<lambda>e. None) (mx_note None (lit ''!r'')) ((m, mx_quiet), []))))
       = [SendTextMessage 0 (lit ''!r'') (lit ''hi'')]"
proof -
  let ?es = "[MxConnect, MxResume 0 None, MxResume 0 (Some (ThrownError []))]"
  have m: "fst (foldl mx_next (mx_sample, mx_quiet) ?es) = mx_sample\<lparr>mx_client := Some 0, mx_made := 1\<rparr>"
    by (simp add: mx_evaluation)
  have "map fst (snd (snd (mx_sendMessage (\<lambda>s. s) open_sdk (\<lambda>e. None) (mx_note None (lit ''!r''))
      ((mx_sample\<lparr>mx_client := Some 0, mx_made := 1\<rparr>, mx_quiet), [])))) = [SendTextMessage 0 (lit ''!r'') (lit ''hi'')]"
    by code_simp
  then show ?thesis by (intro exI [of _ ?es]) (unfold Let_def m, simp add: mx_sample_def mx_disconnect_def)
qed

text \<open>
  An edit puts in place of a message what a send of the same text would have put there: its new content is
  the plain text, or the HTML where the caller declared HTML, and it names the message it replaces.
\<close>
theorem edit_content_is_the_send:
  "member_of (replaceContent messageId out) (lit ''m.new_content'') = Some (JObj (textContent (out_text out) (out_format out = Some Html))) \<and>
   chained (member_of (replaceContent messageId out) (lit ''m.relates_to'')) (lit ''event_id'') = Some (JStr messageId) \<and>
   (out_format out = Some Html \<longleftrightarrow> member_of (replaceContent messageId out) (lit ''format'') \<noteq> None)"
  by (simp add: replaceContent_def textContent_def Let_def)

end
