(* ===== verification/WebhookServer.thy ===== *)
theory WebhookServer
  imports Json Utf8
begin

text \<open>
  The shared half of the webhook servers (\<open>core/webhook/express-server.ts\<close>): the capture of a raw body under a
  limit, as a machine over the events of the request stream, and the start and stop of a listener, as a
  machine over the calls and the answers of \<open>listen\<close>. The locale \<open>signed_route\<close> is what the routes of the
  platforms share: a request whose signature does not hold leaves everything as it was.
\<close>

section \<open>The contract of a signed route\<close>

text \<open>\<open>view\<close> is the part of the state that counts; a route may write a line about what it refuses.\<close>

locale signed_route =
  fixes view :: "'s \<Rightarrow> 'v"
    and genuine :: "'s \<Rightarrow> 'r \<Rightarrow> bool"
    and serve :: "'r \<Rightarrow> 's \<Rightarrow> 'a \<times> 's"
  assumes forged_changes_nothing: "\<not> genuine s r \<Longrightarrow> view (snd (serve r s)) = view s"
    and same_key: "genuine (snd (serve r s)) = genuine s"
    and view_is_enough: "view s = view t \<Longrightarrow> genuine s = genuine t \<and> view (snd (serve r s)) = view (snd (serve r t))"
begin

lemma runs_of_one_view:
  "view s = view t \<Longrightarrow> view (foldl (\<lambda>s r. snd (serve r s)) s rs) = view (foldl (\<lambda>s r. snd (serve r s)) t rs)"
proof (induction rs arbitrary: s t)
  case (Cons r rs)
  show ?case using Cons.IH [OF conjunct2 [OF view_is_enough [OF Cons.prems, of r]]] by simp
qed simp

text \<open>Forged requests are invisible: a run is the run of its genuine requests.\<close>

lemma forged_requests_are_invisible:
  "view (foldl (\<lambda>s r. snd (serve r s)) s rs) = view (foldl (\<lambda>s r. snd (serve r s)) s (filter (genuine s) rs))"
proof (induction rs arbitrary: s)
  case (Cons r rs)
  show ?case
  proof (cases "genuine s r")
    case True
    then show ?thesis using Cons [of "snd (serve r s)"] by (simp add: same_key)
  next
    case False
    then have "view (foldl (\<lambda>s r. snd (serve r s)) (snd (serve r s)) rs) = view (foldl (\<lambda>s r. snd (serve r s)) s rs)"
      by (intro runs_of_one_view forged_changes_nothing)
    with False Cons [of s] show ?thesis by simp
  qed
qed simp

end

section \<open>The raw body\<close>

text \<open>A header as Node gives it.\<close>

datatype header = NoHeader | OneHeader js | ManyHeaders "js list"

datatype capture_answer = Next | NextError thrown | AnswerTooLarge

text \<open>\<open>rc_answers\<close> is the calls that end the request, one at most.\<close>

record capture =
  rc_maxBytes :: "rat option"
  rc_buf :: js
  rc_bytes :: int
  rc_refused :: bool
  rc_settled :: bool
  rc_rawBody :: "js option"
  rc_answers :: "capture_answer list"
  rc_log :: "js list"

text \<open>The check of the limit when the middleware is made; a double that is no number or infinite is refused.\<close>

definition rawBodyCapture :: "number option \<Rightarrow> bool" where
  "rawBodyCapture maxBytes = (case maxBytes of None \<Rightarrow> True | Some (Finite q) \<Rightarrow> 0 \<le> q | Some _ \<Rightarrow> False)"

definition declaredLength :: "runtime \<Rightarrow> header \<Rightarrow> rat" where
  "declaredLength rt h =
     (case (case h of NoHeader \<Rightarrow> NaN | OneHeader s \<Rightarrow> rt_number rt s
                    | ManyHeaders [] \<Rightarrow> NaN | ManyHeaders (s # _) \<Rightarrow> rt_number rt s) of
        Finite q \<Rightarrow> q
      | _ \<Rightarrow> 0)"

definition over :: "rat \<Rightarrow> rat option \<Rightarrow> bool" where
  "over bytes maxBytes = (case maxBytes of None \<Rightarrow> False | Some m \<Rightarrow> m < bytes)"

text \<open>What the middleware starts with: a stream someone drained is answered at once, with an empty body.\<close>

definition newCapture :: "runtime \<Rightarrow> js \<Rightarrow> rat option \<Rightarrow> header \<Rightarrow> bool \<Rightarrow> capture" where
  "newCapture rt tag maxBytes contentLength drained =
     \<lparr>rc_maxBytes = maxBytes, rc_buf = [], rc_bytes = 0,
      rc_refused = (\<not> drained \<and> over (declaredLength rt contentLength) maxBytes), rc_settled = drained,
      rc_rawBody = (if drained then Some [] else None), rc_answers = (if drained then [Next] else []),
      rc_log = (if drained
        then [lit ''['' @ tag @ lit ''] raw body already consumed before signature capture '' @ [0x2014]
              @ lit '' mount this router BEFORE any global body parser, or signature verification cannot see the bytes it ''
              @ lit ''must hash'' @ [nl]]
        else [])\<rparr>"

definition answerTooLarge :: "runtime \<Rightarrow> js \<Rightarrow> capture \<Rightarrow> capture" where
  "answerTooLarge rt tag c = c
     \<lparr>rc_answers := rc_answers c @ [AnswerTooLarge],
      rc_log := rc_log c @ [lit ''['' @ tag @ lit ''] refused a request (413): body larger than ''
        @ rt_text rt (case rc_maxBytes c of None \<Rightarrow> 0 | Some m \<Rightarrow> m) @ lit '' bytes'' @ [nl]]\<rparr>"

datatype stream_event = Data js | End | StreamError thrown

text \<open>The listeners, once the middleware has subscribed them; a drained stream has none.\<close>

fun on_stream :: "runtime \<Rightarrow> js \<Rightarrow> capture \<Rightarrow> stream_event \<Rightarrow> capture" where
  "on_stream rt tag c (Data chunk) =
     (if rc_refused c \<or> rc_settled c then c
      else let bytes = rc_bytes c + byteLength chunk; c1 = c\<lparr>rc_bytes := bytes\<rparr> in
        if over (of_int bytes) (rc_maxBytes c) then c1\<lparr>rc_refused := True, rc_buf := []\<rparr>
        else c1\<lparr>rc_buf := rc_buf c @ chunk\<rparr>)"
| "on_stream rt tag c End =
     (if rc_settled c then c
      else if rc_refused c then answerTooLarge rt tag (c\<lparr>rc_settled := True\<rparr>)
      else c\<lparr>rc_settled := True, rc_rawBody := Some (rc_buf c), rc_answers := rc_answers c @ [Next]\<rparr>)"
| "on_stream rt tag c (StreamError err) =
     (if rc_settled c then c
      else if rc_refused c then c\<lparr>rc_settled := True\<rparr>
      else c\<lparr>rc_settled := True, rc_answers := rc_answers c @ [NextError err]\<rparr>)"

definition captured :: "runtime \<Rightarrow> js \<Rightarrow> rat option \<Rightarrow> header \<Rightarrow> stream_event list \<Rightarrow> capture" where
  "captured rt tag maxBytes contentLength es = foldl (on_stream rt tag) (newCapture rt tag maxBytes contentLength False) es"

section \<open>The listener\<close>

text \<open>
  Listeners are numbered as \<open>listen\<close> makes them; \<open>ll_opening\<close> are those whose bind has not answered,
  \<open>ll_bound\<close> those that answered, \<open>ll_closed\<close> those \<open>close\<close> was called on.
\<close>

record lifecycle_state =
  ll_injected :: bool
  ll_started :: bool
  ll_stopped :: bool
  ll_listener :: "nat option"
  ll_made :: nat
  ll_opening :: "nat list"
  ll_bound :: "nat list"
  ll_closed :: "nat list"

definition listenerLifecycle :: "bool \<Rightarrow> lifecycle_state" where
  "listenerLifecycle injected =
     \<lparr>ll_injected = injected, ll_started = False, ll_stopped = False, ll_listener = None, ll_made = 0,
      ll_opening = [], ll_bound = [], ll_closed = []\<rparr>"

definition ll_start :: "lifecycle_state \<Rightarrow> lifecycle_state" where
  "ll_start s =
     (if ll_started s \<or> ll_injected s then s\<lparr>ll_started := True\<rparr>
      else s\<lparr>ll_stopped := False, ll_listener := Some (ll_made s), ll_made := Suc (ll_made s),
             ll_opening := ll_opening s @ [ll_made s]\<rparr>)"

definition ll_binds :: "nat \<Rightarrow> lifecycle_state \<Rightarrow> lifecycle_state" where
  "ll_binds l s =
     (if l \<notin> set (ll_opening s) then s
      else s\<lparr>ll_opening := removeAll l (ll_opening s), ll_bound := ll_bound s @ [l], ll_started := True\<rparr>)"

definition ll_bind_fails :: "nat \<Rightarrow> lifecycle_state \<Rightarrow> lifecycle_state" where
  "ll_bind_fails l s =
     (if l \<notin> set (ll_opening s) then s
      else s\<lparr>ll_opening := removeAll l (ll_opening s), ll_listener := None\<rparr>)"

definition ll_stop :: "lifecycle_state \<Rightarrow> lifecycle_state" where
  "ll_stop s =
     (if ll_stopped s then s
      else s\<lparr>ll_stopped := True, ll_started := False, ll_listener := None,
             ll_closed := ll_closed s @ (case ll_listener s of None \<Rightarrow> [] | Some l \<Rightarrow> [l])\<rparr>)"

datatype ll_event = StartCalled | Binds nat | BindFails nat | StopCalled

fun ll_step :: "lifecycle_state \<Rightarrow> ll_event \<Rightarrow> lifecycle_state" where
  "ll_step s StartCalled = ll_start s"
| "ll_step s (Binds l) = ll_binds l s"
| "ll_step s (BindFails l) = ll_bind_fails l s"
| "ll_step s StopCalled = ll_stop s"

text \<open>A caller that waits for each call to end before the next.\<close>

fun one_call :: "lifecycle_state \<Rightarrow> ll_event list \<Rightarrow> bool" where
  "one_call s [] = True"
| "one_call s (e # es) =
     ((case e of StartCalled \<Rightarrow> ll_opening s = [] | StopCalled \<Rightarrow> ll_opening s = [] | _ \<Rightarrow> True) \<and> one_call (ll_step s e) es)"

section \<open>Lemmas\<close>

definition chunk_of :: "stream_event \<Rightarrow> js" where
  "chunk_of e = (case e of Data c \<Rightarrow> c | _ \<Rightarrow> [])"

definition is_data :: "stream_event \<Rightarrow> bool" where
  "is_data e = (case e of Data c \<Rightarrow> True | _ \<Rightarrow> False)"

text \<open>What came before the stream ended or failed.\<close>

definition body_of :: "stream_event list \<Rightarrow> js" where
  "body_of es = concat (map chunk_of (takeWhile is_data es))"

lemma settled_stays: "rc_settled c \<Longrightarrow> foldl (on_stream rt tag) c es = c"
proof (induction es)
  case (Cons e es)
  then show ?case by (cases e) simp_all
qed simp

lemma data_run:
  assumes "list_all is_data es" "\<not> rc_settled c" "rc_answers c = []" "byteLength (rc_buf c) \<le> rc_bytes c"
    and "if rc_refused c then rc_buf c = [] else \<not> over (of_int (rc_bytes c)) (rc_maxBytes c)"
    and "foldl (on_stream rt tag) c es = c'"
  shows "\<not> rc_settled c' \<and> rc_answers c' = [] \<and> rc_maxBytes c' = rc_maxBytes c \<and>
    (if rc_refused c' then rc_buf c' = []
     else rc_buf c' = rc_buf c @ concat (map chunk_of es) \<and> \<not> over (of_int (rc_bytes c')) (rc_maxBytes c)) \<and>
    byteLength (rc_buf c') \<le> rc_bytes c' \<and> (rc_refused c \<longrightarrow> rc_refused c')"
  using assms
proof (induction es arbitrary: c)
  case (Cons e es)
  then obtain chunk where e: "e = Data chunk" by (cases e) (auto simp: is_data_def)
  let ?c = "on_stream rt tag c e"
  have "byteLength (rc_buf c @ chunk) \<le> rc_bytes c + byteLength chunk"
    using byteLength_append_le [of "rc_buf c" chunk] Cons.prems(4) by simp
  moreover have "0 \<le> rc_bytes c + byteLength chunk"
    using byteLength_nonneg [of "rc_buf c"] byteLength_nonneg [of chunk] Cons.prems(4) by linarith
  ultimately have c: "\<not> rc_settled ?c" "rc_answers ?c = []" "byteLength (rc_buf ?c) \<le> rc_bytes ?c" "rc_maxBytes ?c = rc_maxBytes c"
    "if rc_refused ?c then rc_buf ?c = [] else \<not> over (of_int (rc_bytes ?c)) (rc_maxBytes ?c)"
    "rc_refused c \<longrightarrow> rc_refused ?c" "\<not> rc_refused ?c \<longrightarrow> rc_buf ?c = rc_buf c @ chunk"
    using Cons.prems(2-5) by (auto simp: e Let_def)
  have all: "list_all is_data es" using Cons.prems(1) by simp
  from Cons.IH [OF all c(1,2,3,5)] Cons.prems(6) c show ?case by (auto simp: e chunk_of_def split: if_splits)
qed (auto split: if_splits)

lemma capture_run:
  assumes "rawBodyCapture (map_option Finite maxBytes)"
  shows "\<exists>c. foldl (on_stream rt tag) (newCapture rt tag maxBytes h False) (takeWhile is_data es) = c \<and>
    \<not> rc_settled c \<and> rc_answers c = [] \<and> rc_maxBytes c = maxBytes \<and>
    (if rc_refused c then rc_buf c = []
     else rc_buf c = body_of es \<and> \<not> over (of_int (rc_bytes c)) maxBytes) \<and> byteLength (rc_buf c) \<le> rc_bytes c"
proof -
  let ?n = "newCapture rt tag maxBytes h False"
  have "list_all is_data (takeWhile is_data es)" by (auto simp: list_all_iff dest: set_takeWhileD)
  moreover have n: "\<not> rc_settled ?n" "rc_answers ?n = []" "rc_buf ?n = []" "rc_maxBytes ?n = maxBytes" "rc_bytes ?n = 0"
    by (simp_all add: newCapture_def)
  moreover have "byteLength (rc_buf ?n) \<le> rc_bytes ?n" using n by simp
  moreover have "if rc_refused ?n then rc_buf ?n = [] else \<not> over (of_int (rc_bytes ?n)) (rc_maxBytes ?n)"
    using assms n by (auto simp: over_def rawBodyCapture_def split: option.splits)
  ultimately show ?thesis using data_run [of "takeWhile is_data es" ?n rt tag, OF _ _ _ _ _ refl]
    by (simp only: body_of_def n) (simp add: n body_of_def)
qed

section \<open>Properties\<close>

text \<open>
  C35: a request body is answered at most once, whatever the stream does; the route behind the middleware sees
  it only as everything that came before the end, and only within the limit; and at no time does the buffer
  hold more than the limit.
\<close>
theorem raw_bodies_are_bounded:
  assumes "rawBodyCapture (map_option Finite maxBytes)" "c = captured rt tag maxBytes h es"
  shows "length (rc_answers c) \<le> 1 \<and> \<not> over (of_int (byteLength (rc_buf c))) maxBytes \<and>
    (Next \<in> set (rc_answers c) \<longrightarrow> rc_rawBody c = Some (body_of es) \<and> \<not> over (of_int (byteLength (body_of es))) maxBytes)"
proof -
  obtain c0 where c0: "foldl (on_stream rt tag) (newCapture rt tag maxBytes h False) (takeWhile is_data es) = c0"
    "\<not> rc_settled c0" "rc_answers c0 = []" "rc_maxBytes c0 = maxBytes"
    "if rc_refused c0 then rc_buf c0 = []
     else rc_buf c0 = body_of es \<and> \<not> over (of_int (rc_bytes c0)) maxBytes" "byteLength (rc_buf c0) \<le> rc_bytes c0"
    using capture_run [OF assms(1), of rt tag h es] by auto
  have small: "\<not> over (of_int (byteLength (rc_buf c0))) maxBytes"
  proof (cases "rc_refused c0")
    case True
    then show ?thesis using c0(5) assms(1) by (auto simp: over_def rawBodyCapture_def split: option.splits)
  next
    case False
    then show ?thesis using c0(5,6) by (auto simp: over_def split: option.splits)
  qed
  have c: "c = foldl (on_stream rt tag) c0 (dropWhile is_data es)"
    unfolding assms(2) captured_def c0(1) [symmetric] foldl_append [symmetric] by simp
  show ?thesis
  proof (cases "dropWhile is_data es")
    case Nil
    have "c = c0" unfolding c Nil by simp
    then show ?thesis using c0 small by simp
  next
    case (Cons e rest)
    have "\<not> is_data e" using Cons hd_dropWhile [of is_data es] by simp
    then have "rc_settled (on_stream rt tag c0 e)" using c0(2)
      by (cases e) (auto simp: is_data_def answerTooLarge_def)
    then have "c = on_stream rt tag c0 e" using c Cons settled_stays by simp
    then show ?thesis using c0 small \<open>\<not> is_data e\<close>
      by (cases e) (auto simp: is_data_def answerTooLarge_def split: if_splits)
  qed
qed

definition no_numerals :: runtime where
  "no_numerals = \<lparr>rt_number = \<lambda>s. NaN, rt_text = \<lambda>q. [], rt_thousand = \<lambda>q. NaN, rt_now = 0\<rparr>"

theorem raw_bodies_are_bounded_witness:
  "rc_answers (captured no_numerals [] (Some 3) NoHeader
     [Data [97], Data [98], End, End]) = [Next]"
proof -
  let ?c = "captured no_numerals [] (Some 3) NoHeader
     [Data [97], Data [98], End, End]"
  have r: "rawBodyCapture (map_option Finite (Some 3))" by (simp add: rawBodyCapture_def)
  have "Next \<in> set (rc_answers ?c)" by code_simp
  moreover have "length (rc_answers ?c) \<le> 1" using raw_bodies_are_bounded [OF r refl] by blast
  ultimately show ?thesis by (cases "rc_answers ?c") auto
qed

text \<open>
  Under a caller that awaits each call, start and stop are what they say: when no bind is pending, every
  listener that bound was closed or is the one held, and the server counts as started exactly while it holds
  one; a restart after a stop listens again.
\<close>
theorem listener_is_held:
  assumes "one_call (listenerLifecycle False) es" "s = foldl ll_step (listenerLifecycle False) es" "ll_opening s = []"
  shows "set (ll_bound s) - set (ll_closed s) = set_option (ll_listener s) \<and> (ll_started s \<longleftrightarrow> ll_listener s \<noteq> None)"
proof -
  define ok where "ok s \<longleftrightarrow> \<not> ll_injected s \<and> set (ll_closed s) \<subseteq> set (ll_bound s) \<and>
      (\<forall>l\<in>set (ll_opening s) \<union> set (ll_bound s). l < ll_made s) \<and>
      (if ll_opening s = []
       then set (ll_bound s) - set (ll_closed s) = set_option (ll_listener s) \<and> (ll_started s \<longleftrightarrow> ll_listener s \<noteq> None) \<and>
         (ll_stopped s \<longrightarrow> ll_listener s = None)
       else (\<exists>l. ll_opening s = [l] \<and> ll_listener s = Some l \<and> l \<notin> set (ll_bound s)) \<and> set (ll_bound s) \<subseteq> set (ll_closed s) \<and>
         \<not> ll_stopped s \<and> \<not> ll_started s)" for s :: lifecycle_state
  have step: "ok (ll_step s e)" if "ok s" "one_call s (e # es)" for s e es
    using that by (cases e) (auto simp: ok_def ll_start_def ll_binds_def ll_bind_fails_def ll_stop_def less_SucI
      split: if_splits option.splits)
  have "ok (foldl ll_step s es)" if "ok s" "one_call s es" for s
    using that step by (induction es arbitrary: s) (simp, metis foldl_Cons one_call.simps(2))
  from this [OF _ assms(1)] have "ok s" unfolding assms(2) by (simp add: ok_def listenerLifecycle_def)
  with assms(3) show ?thesis by (simp add: ok_def)
qed

theorem listener_is_held_witness:
  "set (ll_bound (foldl ll_step (listenerLifecycle False) [StartCalled, Binds 0, StopCalled, StartCalled, Binds 1]))
     - set (ll_closed (foldl ll_step (listenerLifecycle False) [StartCalled, Binds 0, StopCalled, StartCalled, Binds 1])) = {1}"
proof -
  let ?es = "[StartCalled, Binds 0, StopCalled, StartCalled, Binds 1]"
  have o: "one_call (listenerLifecycle False) ?es" "ll_opening (foldl ll_step (listenerLifecycle False) ?es) = []"
    "ll_listener (foldl ll_step (listenerLifecycle False) ?es) = Some 1" by code_simp+
  from listener_is_held [OF o(1) refl o(2)] o(3) show ?thesis by simp
qed

text \<open>
  Two starts in flight leak a listener: the bind of the second fails on the port the first holds, and its
  failure forgets the listener of the first, which no stop closes.
\<close>
theorem overlapping_starts_leak:
  "\<exists>es. let s = foldl ll_step (listenerLifecycle False) es in
     0 \<in> set (ll_bound s) \<and> 0 \<notin> set (ll_closed s) \<and> ll_stopped s \<and> ll_listener s = None"
proof -
  let ?es = "[StartCalled, StartCalled, Binds 0, BindFails 1, StopCalled]"
  have "0 \<in> set (ll_bound (foldl ll_step (listenerLifecycle False) ?es))"
    "0 \<notin> set (ll_closed (foldl ll_step (listenerLifecycle False) ?es))"
    "ll_stopped (foldl ll_step (listenerLifecycle False) ?es)"
    "ll_listener (foldl ll_step (listenerLifecycle False) ?es) = None" by code_simp+
  then show ?thesis unfolding Let_def by blast
qed

end
