(* ===== verification/LineAdapter.thy ===== *)
theory LineAdapter
  imports PartSender Stores WebhookServer
begin

text \<open>
  The LINE adapter (\<open>gateway-line/src\<close>: \<open>adapter.ts\<close>, \<open>normalize.ts\<close>, \<open>signature.ts\<close>, \<open>webhook-server.ts\<close>,
  \<open>channel.ts\<close>). The HMAC in Base64, the reading of a body as an envelope of its declared types, the clock and
  the answers of LINE are parameters. Handlers are named by numbers; user code called with an event answers
  the calls it makes on the adapter and how it ends.
\<close>

section \<open>Events\<close>

record line_source =
  ls_type :: js
  ls_userId :: "js option"
  ls_groupId :: "js option"
  ls_roomId :: "js option"

record line_message =
  lm_type :: js
  lm_id :: "js option"
  lm_text :: "js option"
  lm_mentionees :: "js option list option"

record line_raw =
  lw_type :: js
  lw_timestamp :: "int option"
  lw_source :: "line_source option"
  lw_replyToken :: "js option"
  lw_message :: "line_message option"

record line_block =
  lb_sourceType :: js
  lb_sourceId :: js
  lb_messageId :: js
  lb_mentionees :: "js list"
  lb_replyToken :: "js option"
  lb_raw :: line_raw

record line_event =
  le_id :: js
  le_sender :: sender
  le_channel :: channel
  le_text :: js
  le_receivedAt :: int
  le_line :: line_block

definition mapSourceType :: "js \<Rightarrow> chan_type" where
  "mapSourceType sourceType = (if sourceType = lit ''user'' then DM else Group)"

definition or_else :: "'a option \<Rightarrow> 'a option \<Rightarrow> 'a option" where
  "or_else a b = (case a of None \<Rightarrow> b | Some x \<Rightarrow> Some x)"

definition mentioned_users :: "js option list option \<Rightarrow> js list" where
  "mentioned_users ms =
     map the (filter (\<lambda>m. m \<noteq> None \<and> m \<noteq> Some []) (case ms of None \<Rightarrow> [] | Some xs \<Rightarrow> xs))"

definition lineEventToMessageEvent :: "int \<Rightarrow> line_raw \<Rightarrow> line_event option" where
  "lineEventToMessageEvent now event =
     (if lw_type event \<noteq> lit ''message'' then None
      else case (lw_message event, lw_source event) of
        (Some m, Some source) \<Rightarrow>
          if lm_type m \<noteq> lit ''text'' then None
          else (case or_else (ls_userId source) (or_else (ls_groupId source) (ls_roomId source)) of
             None \<Rightarrow> None
           | Some sourceId \<Rightarrow>
               if sourceId = [] then None
               else let stamp = (case lw_timestamp event of None \<Rightarrow> now | Some t \<Rightarrow> t) in
                 Some \<lparr>le_id = (case lm_id m of None \<Rightarrow> lit ''line-'' @ dec (nat stamp) | Some i \<Rightarrow> i),
                   le_sender = \<lparr>snd_id = (case ls_userId source of None \<Rightarrow> sourceId | Some u \<Rightarrow> u), snd_username = None,
                     snd_displayName = None\<rparr>,
                   le_channel = \<lparr>ch_id = the (or_else (ls_groupId source) (or_else (ls_roomId source)
                       (or_else (ls_userId source) (Some sourceId)))),
                     ch_type = mapSourceType (ls_type source), ch_topicId = None\<rparr>,
                   le_text = (case lm_text m of None \<Rightarrow> [] | Some t \<Rightarrow> t), le_receivedAt = stamp,
                   le_line = \<lparr>lb_sourceType = ls_type source, lb_sourceId = sourceId,
                     lb_messageId = (case lm_id m of None \<Rightarrow> [] | Some i \<Rightarrow> i),
                     lb_mentionees = mentioned_users (lm_mentionees m), lb_replyToken = lw_replyToken event,
                     lb_raw = event\<rparr>\<rparr>)
      | _ \<Rightarrow> None)"

section \<open>Signatures\<close>

text \<open>\<open>hmac\<close> is HMAC-SHA256 as bytes; \<open>timingSafeEqual\<close> compares the bytes of the two texts.\<close>

type_synonym hmac = "js \<Rightarrow> js \<Rightarrow> int list"

definition computeLineSignature :: "hmac \<Rightarrow> js \<Rightarrow> js \<Rightarrow> js" where
  "computeLineSignature hmac channelSecret rawBody = base64 (hmac channelSecret rawBody)"

definition verifyLineSignature :: "hmac \<Rightarrow> js \<Rightarrow> js \<Rightarrow> js option \<Rightarrow> bool" where
  "verifyLineSignature hmac channelSecret rawBody signatureHeader =
     (case signatureHeader of
        None \<Rightarrow> False
      | Some s \<Rightarrow>
          if s = [] then False
          else let a = utf8 (computeLineSignature hmac channelSecret rawBody); b = utf8 s in
            if length a \<noteq> length b then False else a = b)"

section \<open>The adapter\<close>

text \<open>
  \<open>la_connects\<close> are the connects in flight, \<open>False\<close> while the SDK loads and \<open>True\<close> once the client made is asked
  who it is; \<open>la_trace\<close> is the calls made to handlers.
\<close>

record line_adapter =
  la_channelSecret :: js
  la_botUserId :: "js option"
  la_requireMention :: bool
  la_tokens :: reply_cache
  la_client :: "nat option"
  la_connected :: bool
  la_inbound :: "nat option"
  la_warnedAboutFormat :: bool
  la_connects :: "(nat \<times> bool) list"
  la_made :: nat
  la_trace :: "(nat \<times> line_event) list"
  la_log :: "js list"

definition line_error :: "string \<Rightarrow> js \<Rightarrow> config_error" where
  "line_error code message = GatewayConfigurationError (lit ''gateway-line'') (lit code) (Some message) None"

definition newLineAdapter :: "js \<Rightarrow> js \<Rightarrow> js option \<Rightarrow> bool option \<Rightarrow> config_error + line_adapter" where
  "newLineAdapter channelSecret channelAccessToken botUserId requireMention =
     (if channelSecret = []
      then Inl (line_error ''channel_secret_required''
        (lit ''gateway-line: opts.channelSecret is empty (D408 requires signing '' @ [0x2014] @ lit '' no insecure mode)''))
      else if channelAccessToken = []
      then Inl (line_error ''access_token_required'' (lit ''gateway-line: opts.channelAccessToken is empty''))
      else Inr \<lparr>la_channelSecret = channelSecret, la_botUserId = botUserId,
        la_requireMention = (case requireMention of None \<Rightarrow> True | Some b \<Rightarrow> b), la_tokens = newReplyTokenCache None None,
        la_client = None, la_connected = False, la_inbound = None, la_warnedAboutFormat = False, la_connects = [],
        la_made = 0, la_trace = [], la_log = []\<rparr>)"

section \<open>The channel's configuration\<close>

definition line_invalid :: "string \<Rightarrow> string \<Rightarrow> config_error" where
  "line_invalid key expected =
     GatewayConfigurationError (lit ''gateway-line'') (lit ''invalid_config'')
       (Some (lit ''gateway-line: config.'' @ lit key @ lit '' must be '' @ lit expected)) (Some (lit key))"

definition line_requiredString :: "json \<Rightarrow> string \<Rightarrow> config_error + js" where
  "line_requiredString config key =
     (case string_of (member_of config (lit key)) of None \<Rightarrow> Inl (line_invalid key ''a string'') | Some v \<Rightarrow> Inr v)"

text \<open>An absent value, \<open>null\<close> and the empty string are no value; any other must pass the check.\<close>

definition line_optional :: "json \<Rightarrow> string \<Rightarrow> (json \<Rightarrow> 'a option) \<Rightarrow> string \<Rightarrow> config_error + 'a option" where
  "line_optional config key check expected =
     (case member_of config (lit key) of
        None \<Rightarrow> Inr None
      | Some v \<Rightarrow>
          if v = JNull \<or> v = JStr [] then Inr None
          else (case check v of None \<Rightarrow> Inl (line_invalid key expected) | Some x \<Rightarrow> Inr (Some x)))"

fun line_isBoolean :: "json \<Rightarrow> bool option" where
  "line_isBoolean (JBool b) = Some b"
| "line_isBoolean _ = None"

record line_options =
  lo_channelSecret :: js
  lo_channelAccessToken :: js
  lo_botUserId :: "js option"
  lo_requireMention :: "bool option"

definition line_buildOptions :: "json \<Rightarrow> config_error + line_options" where
  "line_buildOptions config =
     (case line_requiredString config ''channelSecret'' of
        Inl err \<Rightarrow> Inl err
      | Inr secret \<Rightarrow>
     (case line_requiredString config ''channelAccessToken'' of
        Inl err \<Rightarrow> Inl err
      | Inr token \<Rightarrow>
     (case line_optional config ''botUserId'' (\<lambda>v. string_of (Some v)) ''a string'' of
        Inl err \<Rightarrow> Inl err
      | Inr botUserId \<Rightarrow>
     (case line_optional config ''requireMention'' line_isBoolean ''a boolean'' of
        Inl err \<Rightarrow> Inl err
      | Inr mention \<Rightarrow>
          Inr \<lparr>lo_channelSecret = secret, lo_channelAccessToken = token, lo_botUserId = botUserId, lo_requireMention = mention\<rparr>))))"

definition line_create :: "json \<Rightarrow> config_error + line_adapter" where
  "line_create config =
     (case line_buildOptions config of
        Inl err \<Rightarrow> Inl err
      | Inr opts \<Rightarrow> newLineAdapter (lo_channelSecret opts) (lo_channelAccessToken opts) (lo_botUserId opts) (lo_requireMention opts))"

section \<open>The connection\<close>

definition la_say :: "js \<Rightarrow> line_adapter \<Rightarrow> line_adapter" where
  "la_say line a = a\<lparr>la_log := la_log a @ [line]\<rparr>"

definition line_connect :: "line_adapter \<Rightarrow> line_adapter" where
  "line_connect a =
     (if la_connected a then a
      else a\<lparr>la_connects := la_connects a @ [(la_made a, False)], la_made := Suc (la_made a)\<rparr>)"

definition line_connect_failed :: "nat \<Rightarrow> thrown \<Rightarrow> line_adapter \<Rightarrow> line_adapter" where
  "line_connect_failed k err a =
     la_say (lit ''[gateway-line] connect failed: '' @ text_of err @ [nl])
       (a\<lparr>la_connects := filter (\<lambda>p. fst p \<noteq> k) (la_connects a)\<rparr>)"

text \<open>The client was made, or making it threw.\<close>

definition line_client_made :: "nat \<Rightarrow> thrown option \<Rightarrow> line_adapter \<Rightarrow> line_adapter" where
  "line_client_made k threw a =
     (if (k, False) \<notin> set (la_connects a) then a
      else case threw of
        Some err \<Rightarrow> line_connect_failed k err a
      | None \<Rightarrow> a\<lparr>la_client := Some k, la_connects := map (\<lambda>p. if p = (k, False) then (k, True) else p) (la_connects a)\<rparr>)"

definition line_bot_info :: "nat \<Rightarrow> thrown option \<Rightarrow> line_adapter \<Rightarrow> line_adapter" where
  "line_bot_info k threw a =
     (if (k, True) \<notin> set (la_connects a) then a
      else case threw of
        Some err \<Rightarrow> line_connect_failed k err a
      | None \<Rightarrow> a\<lparr>la_connected := True, la_connects := filter (\<lambda>p. fst p \<noteq> k) (la_connects a)\<rparr>)"

definition line_disconnect :: "line_adapter \<Rightarrow> line_adapter" where
  "line_disconnect a =
     a\<lparr>la_connected := False, la_client := None, la_inbound := None, la_tokens := token_clear (la_tokens a)\<rparr>"

definition line_onInbound :: "nat \<Rightarrow> line_adapter \<Rightarrow> line_adapter" where
  "line_onInbound h a = a\<lparr>la_inbound := Some h\<rparr>"

definition line_off :: "nat \<Rightarrow> line_adapter \<Rightarrow> line_adapter" where
  "line_off h a = (if la_inbound a = Some h then a\<lparr>la_inbound := None\<rparr> else a)"

section \<open>Inbound\<close>

definition passesMentionGuard :: "line_event \<Rightarrow> line_adapter \<Rightarrow> bool" where
  "passesMentionGuard event a =
     (if \<not> la_requireMention a then True
      else if ch_type (le_channel event) = DM then True
      else case la_botUserId a of None \<Rightarrow> True | Some botId \<Rightarrow> botId \<in> set (lb_mentionees (le_line event)))"

text \<open>What a handler does to the adapter while it runs; \<open>LineSends\<close> is what a send to a target takes from the tokens.\<close>

datatype line_op = LineDisconnects | LineSubscribes nat | LineUnsubscribes nat | LineSends js int

fun line_apply :: "line_adapter \<Rightarrow> line_op \<Rightarrow> line_adapter" where
  "line_apply a LineDisconnects = line_disconnect a"
| "line_apply a (LineSubscribes h) = line_onInbound h a"
| "line_apply a (LineUnsubscribes h) = line_off h a"
| "line_apply a (LineSends target now) = a\<lparr>la_tokens := snd (token_take target now (la_tokens a))\<rparr>"

type_synonym line_user = "(nat \<times> line_event) list \<Rightarrow> nat \<Rightarrow> line_event \<Rightarrow> line_op list \<times> thrown option"

definition dispatchSingleEvent ::
    "line_user \<Rightarrow> int \<Rightarrow> line_raw \<times> line_event option \<Rightarrow> nat option \<Rightarrow> line_adapter \<Rightarrow> line_adapter" where
  "dispatchSingleEvent user now p handler a =
     (case snd p of
        None \<Rightarrow> a
      | Some event \<Rightarrow>
          let a1 = (case lw_replyToken (fst p) of
                None \<Rightarrow> a
              | Some token \<Rightarrow>
                  if snd_id (le_sender event) = [] then a
                  else a\<lparr>la_tokens := token_put (snd_id (le_sender event)) token now (la_tokens a)\<rparr>)
          in if \<not> passesMentionGuard event a1 then a1
             else case handler of
               None \<Rightarrow> a1
             | Some h \<Rightarrow>
                 (case user (la_trace a1) h event of
                    (ops, threw) \<Rightarrow>
                      let a2 = foldl line_apply (a1\<lparr>la_trace := la_trace a1 @ [(h, event)]\<rparr>) ops in
                      (case threw of
                         None \<Rightarrow> a2
                       | Some err \<Rightarrow> la_say (lit ''[gateway-line] handler threw: '' @ text_of err @ [nl]) a2)))"

text \<open>An entry of the events array: \<open>null\<close>, a primitive, or an object of the declared type.\<close>

datatype line_entry = NullEntry | Primitive | Entry line_raw

fun normalized_entries :: "int \<Rightarrow> line_entry list \<Rightarrow> (line_raw \<times> line_event option) list option" where
  "normalized_entries now [] = Some []"
| "normalized_entries now (NullEntry # es) = None"
| "normalized_entries now (Primitive # es) = normalized_entries now es"
| "normalized_entries now (Entry ev # es) =
     map_option (Cons (ev, lineEventToMessageEvent now ev)) (normalized_entries now es)"

datatype dispatch_answer = DispatchOk | DispatchNoHandler

text \<open>
  The clock is read again for each event, after the calls of those before; \<open>None\<close> is the rejection a
  \<open>null\<close> entry causes.
\<close>

definition dispatchWebhookBody ::
    "line_user \<Rightarrow> ((nat \<times> line_event) list \<Rightarrow> int) \<Rightarrow> line_entry list \<Rightarrow> line_adapter \<Rightarrow> dispatch_answer option \<times> line_adapter" where
  "dispatchWebhookBody user clock entries a =
     (let handler = la_inbound a in
      case normalized_entries (clock (la_trace a)) entries of
        None \<Rightarrow> (None, a)
      | Some events \<Rightarrow>
          if handler = None \<and> list_ex (\<lambda>p. case snd p of None \<Rightarrow> False | Some e \<Rightarrow> passesMentionGuard e a) events
          then (Some DispatchNoHandler, a)
          else (Some DispatchOk,
            foldl (\<lambda>a p. dispatchSingleEvent user (clock (la_trace a)) p handler a) a events))"

text \<open>\<open>deliver\<close>, with a subscribed handler as a computation.\<close>

definition line_deliver :: "(nat \<Rightarrow> line_event \<Rightarrow> ('w, unit) comp) \<Rightarrow> line_adapter \<Rightarrow> line_event \<Rightarrow> ('w, delivery) comp" where
  "line_deliver handlers a event env =
     (if \<not> passesMentionGuard event a then (Returned DeliveredOk, env)
      else runHandler (lit ''line'') (map_option handlers (la_inbound a)) event env)"

section \<open>The webhook routes\<close>

text \<open>A body as \<open>JSON.parse\<close> answers it: no JSON, \<open>null\<close>, a value without an events array, or one with it.\<close>

datatype line_body = NotJson | NullBody | NoEvents | Envelope "line_entry list"

record line_request =
  lq_rawBody :: js
  lq_signature :: "js option"

text \<open>The server's route: the status it answers, \<open>None\<close> when it throws, which express answers.\<close>

definition handlerFactory ::
    "hmac \<Rightarrow> (js \<Rightarrow> line_body) \<Rightarrow> line_user \<Rightarrow> ((nat \<times> line_event) list \<Rightarrow> int) \<Rightarrow> line_request \<Rightarrow> line_adapter
       \<Rightarrow> int option \<times> line_adapter" where
  "handlerFactory hmac parse user clock req a =
     (if \<not> verifyLineSignature hmac (la_channelSecret a) (lq_rawBody req) (lq_signature req) then (Some 401, a)
      else case parse (lq_rawBody req) of
        NotJson \<Rightarrow> (Some 400, a)
      | NullBody \<Rightarrow> (None, a)
      | NoEvents \<Rightarrow> (Some 400, a)
      | Envelope entries \<Rightarrow>
          (case dispatchWebhookBody user clock entries a of
             (Some _, a1) \<Rightarrow> (Some 200, a1)
           | (None, a1) \<Rightarrow> (Some 200, la_say (lit ''[gateway-line] webhook dispatch failed: '' @ text_of type_error @ [nl]) a1)))"

definition isEnvelope :: "line_body \<Rightarrow> bool" where
  "isEnvelope body = (case body of Envelope entries \<Rightarrow> list_all (\<lambda>e. case e of Entry ev \<Rightarrow> True | _ \<Rightarrow> False) entries | _ \<Rightarrow> False)"

datatype ingest_answer = Delivered | Malformed | NoHandlerFor

definition ingest :: "line_user \<Rightarrow> ((nat \<times> line_event) list \<Rightarrow> int) \<Rightarrow> line_body \<Rightarrow> line_adapter \<Rightarrow> ingest_answer option \<times> line_adapter" where
  "ingest user clock body a =
     (if \<not> isEnvelope body then (Some Malformed, a)
      else case body of
        Envelope entries \<Rightarrow>
          (case dispatchWebhookBody user clock entries a of
             (Some DispatchNoHandler, a1) \<Rightarrow> (Some NoHandlerFor, a1)
           | (Some DispatchOk, a1) \<Rightarrow> (Some Delivered, a1)
           | (None, a1) \<Rightarrow> (None, a1))
      | _ \<Rightarrow> (Some Malformed, a))"

text \<open>The first header whose name is the one asked for, in lower case; \<open>lower\<close> is \<open>toLowerCase\<close>.\<close>

fun line_headerValue :: "(js \<Rightarrow> js) \<Rightarrow> (js \<times> js option) list \<Rightarrow> js \<Rightarrow> js option" where
  "line_headerValue lower [] name = None"
| "line_headerValue lower ((key, v) # hs) name = (if lower key = name then v else line_headerValue lower hs name)"

definition line_verify :: "hmac \<Rightarrow> (js \<Rightarrow> js) \<Rightarrow> line_adapter \<Rightarrow> js \<Rightarrow> (js \<times> js option) list \<Rightarrow> bool" where
  "line_verify hmac lower a rawBody headers =
     verifyLineSignature hmac (la_channelSecret a) rawBody (line_headerValue lower headers (lit ''x-line-signature''))"

section \<open>Sending\<close>

text \<open>What the mapping reads of a thrown value that is neither \<open>null\<close> nor \<open>undefined\<close>.\<close>

record line_rest_error =
  lx_status :: "int option"
  lx_message :: "js option"
  lx_text :: js

definition mapLineError :: "line_rest_error \<Rightarrow> send_result" where
  "mapLineError e =
     (let status = (case lx_status e of None \<Rightarrow> 0 | Some n \<Rightarrow> n);
          message_or = (\<lambda>d. case lx_message e of None \<Rightarrow> d | Some m \<Rightarrow> m)
      in if status = 429 then send_refused (lit ''rate_limit'') (message_or (lit ''LINE rate limit''))
         else if status = 401 \<or> status = 403 then send_refused (lit ''permission_denied'') (message_or (lit ''LINE auth error''))
         else if status = 400 then send_refused (lit ''invalid_request'') (message_or (lit ''LINE rejected request''))
         else send_refused (lit ''send_failed'') (message_or (lx_text e)))"

datatype line_call = ReplyMessage js js | PushMessage js js

text \<open>
  A request runs in a world that holds the adapter: another task may disconnect it meanwhile. Each turn of
  the loop reads the client again; without one the call throws, which is mapped like any failure.
\<close>

type_synonym 'w line_site = "(line_adapter \<times> 'w, line_call) site"

definition line_do ::
    "(line_call \<Rightarrow> line_adapter \<times> 'w \<Rightarrow> unit outcome \<times> (line_adapter \<times> 'w)) \<Rightarrow> line_call \<Rightarrow> 'w line_site
       \<Rightarrow> unit outcome \<times> 'w line_site" where
  "line_do client call s =
     (if la_client (fst (fst s)) = None then (Threw type_error, s) else recorded client call s)"

definition first_call :: "js \<Rightarrow> js option \<Rightarrow> js \<Rightarrow> line_call" where
  "first_call target token part = (case token of Some t \<Rightarrow> ReplyMessage t part | None \<Rightarrow> PushMessage target part)"

fun line_calls :: "js \<Rightarrow> js option \<Rightarrow> js list \<Rightarrow> line_call list" where
  "line_calls target token [] = []"
| "line_calls target token (p # ps) = first_call target token p # map (PushMessage target) ps"

definition line_mapped :: "(thrown \<Rightarrow> line_rest_error option) \<Rightarrow> thrown \<Rightarrow> send_result outcome" where
  "line_mapped read err = (case read err of None \<Rightarrow> Threw type_error | Some e \<Rightarrow> Returned (mapLineError e))"

definition in_line :: "(line_adapter \<Rightarrow> line_adapter) \<Rightarrow> 'w line_site \<Rightarrow> 'w line_site" where
  "in_line f s = (case s of ((a, w), calls) \<Rightarrow> ((f a, w), calls))"

definition line_warnFormatUnsupported :: "format option \<Rightarrow> line_adapter \<Rightarrow> line_adapter" where
  "line_warnFormatUnsupported fmt a =
     (if fmt = None \<or> fmt = Some Plain \<or> la_warnedAboutFormat a then a
      else la_say (lit ''[gateway-line] format='' @ quoted (if fmt = Some Html then lit ''html'' else lit ''markdown'')
        @ lit '' was declared, and a LINE text message cannot carry it '' @ [0x2014]
        @ lit '' there is no markup field on this message type. Sending as-is; this is logged once.'' @ [nl])
        (a\<lparr>la_warnedAboutFormat := True\<rparr>))"

text \<open>\<open>stamp\<close> is the id of the last message, which the clock gives; \<open>None\<close> is the error of a limit that is none.\<close>

definition line_sendMessage ::
    "(js \<Rightarrow> js list) \<Rightarrow> (line_call \<Rightarrow> line_adapter \<times> 'w \<Rightarrow> unit outcome \<times> (line_adapter \<times> 'w)) \<Rightarrow> (thrown \<Rightarrow> line_rest_error option)
       \<Rightarrow> int \<Rightarrow> (line_adapter \<times> 'w \<Rightarrow> nat \<Rightarrow> js) \<Rightarrow> outbound \<Rightarrow> 'w line_site \<Rightarrow> (send_result outcome \<times> 'w line_site) option" where
  "line_sendMessage seg client read now stamp out s =
     (if out_text out = [] then Some (Returned (send_refused (lit ''empty_text'') (lit ''outbound text is empty'')), s)
      else if la_client (fst (fst s)) = None
      then Some (Returned (send_refused (lit ''not_connected'') (lit ''LineAdapter.connect() not called'')), s)
      else case splitForLine seg (out_text out) None of
        Inl err \<Rightarrow> None
      | Inr parts \<Rightarrow>
          let target = ch_id (out_channel out);
              s1 = in_line (line_warnFormatUnsupported (out_format out)) s;
              token = fst (token_take target now (la_tokens (fst (fst s1))));
              s2 = in_line (\<lambda>a. a\<lparr>la_tokens := snd (token_take target now (la_tokens a))\<rparr>) s1;
              s3 = (if token = None \<and> parts \<noteq> []
                    then in_line (la_say (lit ''[gateway-line] no reply token for '' @ target @ lit '' '' @ [0x2014] @ lit '' using push API'' @ [nl])) s2
                    else s2)
          in case send_each (line_do client) (line_calls target token parts) None s3 of
               (Threw err, s4) \<Rightarrow> Some (line_mapped read err, s4)
             | (Returned sent, s4) \<Rightarrow>
                 Some (Returned (send_ok (if sent = None then None else Some (stamp (fst s4) (length parts - 1)))), s4))"

interpretation line_sender: part_sender "line_do client" snd
  for client :: "line_call \<Rightarrow> line_adapter \<times> 'w \<Rightarrow> unit outcome \<times> (line_adapter \<times> 'w)"
  by unfold_locales (auto simp: line_do_def recorded_def split: prod.splits outcome.splits if_splits)

section \<open>The signed route\<close>

lemma line_apply_keeps [simp]:
  "la_channelSecret (foldl line_apply a ops) = la_channelSecret a" "la_trace (foldl line_apply a ops) = la_trace a"
  "la_requireMention (foldl line_apply a ops) = la_requireMention a" "la_botUserId (foldl line_apply a ops) = la_botUserId a"
proof -
  have one: "la_channelSecret (line_apply a op) = la_channelSecret a \<and> la_trace (line_apply a op) = la_trace a \<and>
    la_requireMention (line_apply a op) = la_requireMention a \<and> la_botUserId (line_apply a op) = la_botUserId a" for a op
    by (cases op) (simp_all add: line_disconnect_def line_onInbound_def line_off_def)
  show "la_channelSecret (foldl line_apply a ops) = la_channelSecret a" "la_trace (foldl line_apply a ops) = la_trace a"
    "la_requireMention (foldl line_apply a ops) = la_requireMention a" "la_botUserId (foldl line_apply a ops) = la_botUserId a"
    by (induction ops arbitrary: a) (simp_all add: one)
qed

lemma la_say_keeps [simp]:
  "la_channelSecret (la_say l a) = la_channelSecret a" "la_trace (la_say l a) = la_trace a"
  "la_requireMention (la_say l a) = la_requireMention a" "la_botUserId (la_say l a) = la_botUserId a"
  by (simp_all add: la_say_def)

lemma guard_reads:
  "la_requireMention a' = la_requireMention a \<Longrightarrow> la_botUserId a' = la_botUserId a \<Longrightarrow>
     passesMentionGuard e a' = passesMentionGuard e a"
  by (simp add: passesMentionGuard_def)

lemma token_cached:
  assumes "a1 = (case lw_replyToken ev of None \<Rightarrow> a
     | Some token \<Rightarrow> if snd_id (le_sender event) = [] then a
        else a\<lparr>la_tokens := token_put (snd_id (le_sender event)) token now (la_tokens a)\<rparr>)"
  shows "la_channelSecret a1 = la_channelSecret a" "la_trace a1 = la_trace a"
    "la_requireMention a1 = la_requireMention a" "la_botUserId a1 = la_botUserId a"
  unfolding assms by (simp_all split: option.split)

lemma dispatchSingleEvent_facts:
  "la_channelSecret (dispatchSingleEvent user now p handler a) = la_channelSecret a \<and>
   la_requireMention (dispatchSingleEvent user now p handler a) = la_requireMention a \<and>
   la_botUserId (dispatchSingleEvent user now p handler a) = la_botUserId a \<and>
   la_trace (dispatchSingleEvent user now p handler a) = la_trace a @
     (case snd p of None \<Rightarrow> [] | Some e \<Rightarrow> if passesMentionGuard e a then (case handler of None \<Rightarrow> [] | Some h \<Rightarrow> [(h, e)]) else [])"
proof (cases "snd p")
  case (Some e)
  define a1 where "a1 = (case lw_replyToken (fst p) of None \<Rightarrow> a
     | Some token \<Rightarrow> if snd_id (le_sender e) = [] then a
        else a\<lparr>la_tokens := token_put (snd_id (le_sender e)) token now (la_tokens a)\<rparr>)"
  note a1 = token_cached [OF a1_def]
  have guard: "passesMentionGuard e a1 = passesMentionGuard e a" by (rule guard_reads) (simp_all add: a1)
  have d: "dispatchSingleEvent user now p handler a =
    (if \<not> passesMentionGuard e a then a1
     else case handler of None \<Rightarrow> a1
     | Some h \<Rightarrow> (case user (la_trace a1) h e of (ops, threw) \<Rightarrow>
         let a2 = foldl line_apply (a1\<lparr>la_trace := la_trace a1 @ [(h, e)]\<rparr>) ops in
         (case threw of None \<Rightarrow> a2 | Some err \<Rightarrow> la_say (lit ''[gateway-line] handler threw: '' @ text_of err @ [nl]) a2)))"
    unfolding dispatchSingleEvent_def Some by (simp only: option.case a1_def [symmetric] Let_def guard)
  show ?thesis unfolding d by (simp add: Some a1 Let_def split: option.split prod.split)
qed (simp add: dispatchSingleEvent_def)

lemma dispatchSingleEvent_keeps:
  "la_channelSecret (dispatchSingleEvent user now p handler a) = la_channelSecret a"
  "passesMentionGuard e (dispatchSingleEvent user now p handler a) = passesMentionGuard e a"
  using dispatchSingleEvent_facts guard_reads by blast+

lemma dispatchSingleEvent_trace:
  "la_trace (dispatchSingleEvent user now p handler a) = la_trace a @
     (case snd p of None \<Rightarrow> [] | Some e \<Rightarrow> if passesMentionGuard e a then (case handler of None \<Rightarrow> [] | Some h \<Rightarrow> [(h, e)]) else [])"
  using dispatchSingleEvent_facts by blast

lemma dispatch_all_keeps:
  "la_channelSecret (foldl (\<lambda>a p. dispatchSingleEvent user (clock (la_trace a)) p handler a) a events) = la_channelSecret a"
  by (induction events arbitrary: a) (simp_all add: dispatchSingleEvent_keeps)

lemma dispatchWebhookBody_secret:
  "dispatchWebhookBody user clock entries a = (x, a') \<Longrightarrow> la_channelSecret a' = la_channelSecret a"
  by (auto simp: dispatchWebhookBody_def Let_def dispatch_all_keeps split: option.splits if_splits)

text \<open>
  A LINE request is genuine exactly when its header is the Base64 of the HMAC of the raw body under the
  channel secret.
\<close>
theorem line_signature_is_the_hmac:
  "verifyLineSignature hmac channelSecret rawBody header \<longleftrightarrow>
     hmac channelSecret rawBody \<noteq> [] \<and> header = Some (base64 (hmac channelSecret rawBody))"
proof (cases header)
  case (Some s)
  have "utf8 (base64 (hmac channelSecret rawBody)) = utf8 s \<longleftrightarrow> base64 (hmac channelSecret rawBody) = s"
    by (rule same_ascii) (simp add: base64_ascii)
  then show ?thesis using base64_empty [of "hmac channelSecret rawBody"]
    by (auto simp: verifyLineSignature_def computeLineSignature_def Some Let_def)
qed (simp add: verifyLineSignature_def)

text \<open>A genuine request carries the Base64 of the HMAC of its raw body under the channel secret.\<close>

definition genuine_line :: "hmac \<Rightarrow> line_adapter \<Rightarrow> line_request \<Rightarrow> bool" where
  "genuine_line hmac a req \<longleftrightarrow>
     hmac (la_channelSecret a) (lq_rawBody req) \<noteq> [] \<and>
     lq_signature req = Some (base64 (hmac (la_channelSecret a) (lq_rawBody req)))"

lemma genuine_verified: "genuine_line hmac a req = verifyLineSignature hmac (la_channelSecret a) (lq_rawBody req) (lq_signature req)"
  by (simp add: genuine_line_def line_signature_is_the_hmac)

interpretation line_server: signed_route "\<lambda>a. a" "genuine_line hmac" "handlerFactory hmac parse user clock"
  for hmac :: hmac and parse :: "js \<Rightarrow> line_body" and user :: line_user and clock :: "(nat \<times> line_event) list \<Rightarrow> int"
proof
  fix s :: line_adapter and r :: line_request
  show "\<not> genuine_line hmac s r \<Longrightarrow> snd (handlerFactory hmac parse user clock r s) = s"
    by (simp add: genuine_verified handlerFactory_def)
  have "la_channelSecret (snd (handlerFactory hmac parse user clock r s)) = la_channelSecret s"
    by (auto simp: handlerFactory_def dest: dispatchWebhookBody_secret split: line_body.splits prod.splits option.splits)
  then show "genuine_line hmac (snd (handlerFactory hmac parse user clock r s)) = genuine_line hmac s"
    by (simp add: genuine_line_def fun_eq_iff)
qed simp

section \<open>What a batch delivers\<close>

definition line_delivered :: "int \<Rightarrow> line_adapter \<Rightarrow> line_entry list \<Rightarrow> line_event list" where
  "line_delivered now a entries = filter (\<lambda>e. passesMentionGuard e a)
     (concat (map (\<lambda>en. case en of Entry ev \<Rightarrow> (case lineEventToMessageEvent now ev of None \<Rightarrow> [] | Some e \<Rightarrow> [e]) | _ \<Rightarrow> []) entries))"

lemma dispatch_all_trace:
  assumes "normalized_entries now entries = Some events"
  shows "la_trace (foldl (\<lambda>a p. dispatchSingleEvent user (clock (la_trace a)) p (Some h) a) a events) =
    la_trace a @ map (Pair h) (line_delivered now a entries)"
  using assms
proof (induction entries arbitrary: a events rule: normalized_entries.induct)
  case (4 now ev es)
  then obtain rest where r: "normalized_entries now es = Some rest" "events = (ev, lineEventToMessageEvent now ev) # rest" by auto
  have "line_delivered now (dispatchSingleEvent user (clock (la_trace a)) (hd events) (Some h) a) es = line_delivered now a es"
    by (simp add: line_delivered_def dispatchSingleEvent_keeps)
  with 4(1) [OF r(1)] show ?case
    by (simp add: r dispatchSingleEvent_trace line_delivered_def split: option.splits)
qed (simp_all add: line_delivered_def)

lemma nothing_delivered:
  assumes "normalized_entries now entries = Some events"
    "\<not> list_ex (\<lambda>p. case snd p of None \<Rightarrow> False | Some e \<Rightarrow> passesMentionGuard e a) events"
  shows "line_delivered now a entries = []"
  using assms
proof (induction entries arbitrary: events rule: normalized_entries.induct)
  case (4 now ev es)
  then obtain rest where "normalized_entries now es = Some rest" "events = (ev, lineEventToMessageEvent now ev) # rest" by auto
  with 4 show ?case by (cases "lineEventToMessageEvent now ev") (auto simp: line_delivered_def)
qed (simp_all add: line_delivered_def)

lemma idle_dispatch_trace:
  "la_trace (foldl (\<lambda>a p. dispatchSingleEvent user (clock (la_trace a)) p None a) a events) = la_trace a"
  by (induction events arbitrary: a) (simp_all add: dispatchSingleEvent_trace split: option.splits)

text \<open>An adapter made from a configuration has the secret that is written there, never an empty one.\<close>

lemma created_with_a_secret:
  assumes "line_create config = Inr a"
  shows "member_of config (lit ''channelSecret'') = Some (JStr (la_channelSecret a)) \<and> la_channelSecret a \<noteq> []"
  using assms by (auto simp: line_create_def line_buildOptions_def line_requiredString_def newLineAdapter_def string_of_iff
    split: sum.splits option.splits if_splits)

text \<open>A request an application verifies carries the HMAC of its body in some spelling of the header's name.\<close>

lemma verified_over_the_channel:
  assumes "line_verify hmac lower a rawBody headers"
  shows "\<exists>key. lower key = lit ''x-line-signature'' \<and> (key, Some (base64 (hmac (la_channelSecret a) rawBody))) \<in> set headers"
proof -
  have "\<exists>key. lower key = name \<and> (key, Some v) \<in> set headers" if "line_headerValue lower headers name = Some v" for name v
    using that by (induction headers) (auto split: if_splits)
  moreover obtain s where s: "line_headerValue lower headers (lit ''x-line-signature'') = Some s"
    "utf8 (base64 (hmac (la_channelSecret a) rawBody)) = utf8 s"
    using assms by (auto simp: line_verify_def verifyLineSignature_def computeLineSignature_def Let_def split: option.splits if_splits)
  ultimately show ?thesis using same_ascii [of "base64 (hmac (la_channelSecret a) rawBody)" s] by (auto simp: base64_ascii simp del: lit_simps)
qed

section \<open>Properties\<close>

text \<open>
  C34: the route answers 401 to exactly the requests that do not carry the Base64 of the HMAC of their raw body
  under the channel secret, one without a signature among them, and such a request leaves no trace: a run of
  requests leaves the adapter as the genuine ones alone do.
\<close>
theorem forged_line_requests_are_invisible:
  "(fst (handlerFactory hmac parse user clock req a) = Some 401 \<longleftrightarrow> \<not> genuine_line hmac a req) \<and>
   foldl (\<lambda>a req. snd (handlerFactory hmac parse user clock req a)) a reqs =
     foldl (\<lambda>a req. snd (handlerFactory hmac parse user clock req a)) a (filter (genuine_line hmac a) reqs)"
proof
  show "fst (handlerFactory hmac parse user clock req a) = Some 401 \<longleftrightarrow> \<not> genuine_line hmac a req"
    by (auto simp: handlerFactory_def genuine_verified split: line_body.split prod.split option.split)
qed (rule line_server.forged_requests_are_invisible)

lemma envelope_entries: "isEnvelope body \<Longrightarrow> \<exists>entries. body = Envelope entries"
  by (cases body) (simp_all add: isEnvelope_def)

lemma envelope_normalizes:
  "list_all (\<lambda>e. case e of Entry ev \<Rightarrow> True | _ \<Rightarrow> False) entries \<Longrightarrow> \<exists>events. normalized_entries now entries = Some events"
  by (induction entries) (auto split: line_entry.splits)

text \<open>
  An ingest always answers. \<open>Delivered\<close> says that each text event of the batch that passes the mention
  guard reached the handler subscribed when it began, in the order of the batch, whatever the handlers did
  meanwhile; the other answers say that nothing was done, so LINE may be told to deliver again.
\<close>
theorem line_batches_are_delivered_whole:
  assumes "ingest user clock (Envelope entries) a = (answer, a')"
  shows "case answer of
     Some Delivered \<Rightarrow> (case la_inbound a of
         None \<Rightarrow> la_trace a' = la_trace a \<and> line_delivered (clock (la_trace a)) a entries = []
       | Some h \<Rightarrow> la_trace a' = la_trace a @ map (Pair h) (line_delivered (clock (la_trace a)) a entries))
   | Some Malformed \<Rightarrow> a' = a \<and> \<not> isEnvelope (Envelope entries)
   | Some NoHandlerFor \<Rightarrow> a' = a \<and> la_inbound a = None
   | None \<Rightarrow> False"
proof (cases "isEnvelope (Envelope entries)")
  case True
  then obtain events where n: "normalized_entries (clock (la_trace a)) entries = Some events"
    using envelope_normalizes by (auto simp: isEnvelope_def)
  show ?thesis
  proof (cases "la_inbound a")
    case None
    show ?thesis
    proof (cases "list_ex (\<lambda>p. case snd p of None \<Rightarrow> False | Some e \<Rightarrow> passesMentionGuard e a) events")
      case True
      then show ?thesis using assms \<open>isEnvelope _\<close> None by (auto simp: ingest_def dispatchWebhookBody_def n)
    next
      case False
      then have "line_delivered (clock (la_trace a)) a entries = []" by (rule nothing_delivered [OF n])
      then show ?thesis using assms False \<open>isEnvelope _\<close>
        by (auto simp: ingest_def dispatchWebhookBody_def n None idle_dispatch_trace)
    qed
  next
    case (Some h)
    then show ?thesis using assms True dispatch_all_trace [OF n, of user clock h a]
      by (auto simp: ingest_def dispatchWebhookBody_def n)
  qed
qed (use assms in \<open>auto simp: ingest_def\<close>)


definition group_text :: "js \<Rightarrow> line_raw" where
  "group_text token = \<lparr>lw_type = lit ''message'', lw_timestamp = Some 7,
     lw_source = Some \<lparr>ls_type = lit ''group'', ls_userId = Some (lit ''U1''), ls_groupId = Some (lit ''G1''), ls_roomId = None\<rparr>,
     lw_replyToken = Some token,
     lw_message = Some \<lparr>lm_type = lit ''text'', lm_id = Some (lit ''m1''), lm_text = Some (lit ''hello''), lm_mentionees = None\<rparr>\<rparr>"

definition fresh_line :: line_adapter where
  "fresh_line = projr (newLineAdapter (lit ''s'') (lit ''t'') None None)"

definition to_user :: outbound where
  "to_user = \<lparr>out_channel = \<lparr>ch_id = lit ''U1'', ch_type = DM, ch_topicId = None\<rparr>, out_text = lit ''hi'',
     out_format = None, out_replyTo = None\<rparr>"

definition by_units :: "js \<Rightarrow> js list" where
  "by_units = map (\<lambda>c. [c])"

theorem line_batches_are_delivered_whole_witness:
  "la_trace (snd (ingest (\<lambda>tr h e. ([LineUnsubscribes 3], None)) (\<lambda>tr. 1)
     (Envelope [Entry (group_text [1]), Entry (group_text [2])]) (line_onInbound 3 fresh_line)))
   = map (Pair 3) (line_delivered 1 (line_onInbound 3 fresh_line) [Entry (group_text [1]), Entry (group_text [2])])"
proof -
  let ?user = "\<lambda>tr h e. ([LineUnsubscribes 3], None)"
  let ?r = "ingest ?user (\<lambda>tr. 1) (Envelope [Entry (group_text [1]), Entry (group_text [2])]) (line_onInbound 3 fresh_line)"
  have r: "?r = (Some Delivered, snd ?r)" by code_simp
  have h: "la_inbound (line_onInbound 3 fresh_line) = Some 3" "la_trace (line_onInbound 3 fresh_line) = []" by code_simp+
  from line_batches_are_delivered_whole [OF r] h show ?thesis by simp
qed

text \<open>
  What a send hands to LINE: the parts in order, the first as a reply while the target has a fresh token and
  the rest as pushes, cut short by the first failure. It answers ok exactly when LINE took every part.
\<close>
theorem line_sends_reply_first:
  assumes "is_segmenter seg"
    and "line_sendMessage seg client read now stamp out ((a, w), calls) = Some (r, s, calls')"
  shows "\<exists>parts n. concat parts = out_text out \<and>
    calls' = calls @ take n (line_calls (ch_id (out_channel out)) (fst (token_take (ch_id (out_channel out)) now (la_tokens a))) parts) \<and>
    ((\<exists>i. r = Returned (send_ok i)) \<longleftrightarrow> parts \<noteq> [] \<and> length parts \<le> n)"
proof (cases "out_text out = [] \<or> la_client a = None")
  case True
  then have "calls' = calls" "\<nexists>i. r = Returned (send_ok i)"
    using assms(2) by (auto simp: line_sendMessage_def send_ok_def send_refused_def split: if_splits)
  then show ?thesis by (intro exI [of _ "[out_text out]"] exI [of _ 0]) simp
next
  case False
  then obtain parts where parts: "splitForLine seg (out_text out) None = Inr parts"
    using assms(2) by (auto simp: line_sendMessage_def split: sum.splits)
  have whole: "concat parts = out_text out"
    using chunkByGrapheme_concat [OF assms(1) parts [unfolded splitForLine_def]] .
  then have some: "parts \<noteq> []" using False by auto
  let ?target = "ch_id (out_channel out)"
  let ?token = "fst (token_take ?target now (la_tokens a))"
  have w: "la_tokens (line_warnFormatUnsupported f a) = la_tokens a" for f
    by (simp add: line_warnFormatUnsupported_def la_say_def)
  let ?s2 = "((line_warnFormatUnsupported (out_format out) a)\<lparr>la_tokens := snd (token_take ?target now (la_tokens a))\<rparr>, w)"
  define s3 where "s3 = (if ?token = None then in_line (la_say (lit ''[gateway-line] no reply token for '' @ ?target @ lit '' '' @ [0x2014]
      @ lit '' using push API'' @ [nl])) (?s2, calls) else (?s2, calls))"
  have ready: "(out_text out = []) = False" "(la_client a = None) = False" using False by simp_all
  have "line_sendMessage seg client read now stamp out ((a, w), calls) =
    (case send_each (line_do client) (line_calls ?target ?token parts) None s3 of
       (Threw err, s4) \<Rightarrow> Some (line_mapped read err, s4)
     | (Returned sent, s4) \<Rightarrow>
         Some (Returned (send_ok (if sent = None then None else Some (stamp (fst s4) (length parts - 1)))), s4))"
    by (simp only: line_sendMessage_def ready if_False parts sum.case Let_def s3_def in_line_def prod.case fst_conv w some simp_thms)
  then have sent: "(case send_each (line_do client) (line_calls ?target ?token parts) None s3 of
       (Threw err, s4) \<Rightarrow> Some (line_mapped read err, s4)
     | (Returned sent, s4) \<Rightarrow>
         Some (Returned (send_ok (if sent = None then None else Some (stamp (fst s4) (length parts - 1)))), s4)) = Some (r, s, calls')"
    using assms(2) by simp
  have s3: "snd s3 = calls" by (simp add: s3_def in_line_def)
  have len: "length (line_calls ?target ?token parts) = length parts" by (cases parts) simp_all
  have refused: "line_mapped read err \<noteq> Returned (send_ok i)" for err i
    by (simp add: line_mapped_def mapLineError_def Let_def send_ok_def send_refused_def split: option.split)
  obtain x s4 where e: "send_each (line_do client) (line_calls ?target ?token parts) None s3 = (x, s4)" by (rule prod.exhaust)
  show ?thesis
  proof (cases x)
    case (Returned sent)
    then have "snd s4 = calls @ line_calls ?target ?token parts" using line_sender.all_delivered e s3 by fastforce
    then show ?thesis using sent e Returned whole some len
      by (intro exI [of _ parts] exI [of _ "length parts"]) auto
  next
    case (Threw err)
    then obtain n where "n < length parts" "snd s4 = calls @ take n (line_calls ?target ?token parts)"
      using line_sender.some_delivered e s3 len by metis
    then show ?thesis using sent e Threw whole refused
      by (intro exI [of _ parts] exI [of _ n]) auto
  qed
qed


definition connected_line :: line_adapter where
  "connected_line = line_bot_info 0 None (line_client_made 0 None (line_connect (line_onInbound 3 fresh_line)))"

definition line_accepts :: "line_call \<Rightarrow> line_adapter \<times> unit \<Rightarrow> unit outcome \<times> (line_adapter \<times> unit)" where
  "line_accepts c s = (Returned (), s)"

definition line_says_hi :: "line_adapter \<Rightarrow> (send_result outcome \<times> unit line_site) option" where
  "line_says_hi a = line_sendMessage by_units line_accepts (\<lambda>err. None) 8 (\<lambda>s k. [1]) to_user ((a, ()), [])"

lemma by_units_segments: "is_segmenter by_units"
proof -
  have "concat (map (\<lambda>c. [c]) t) = t" for t :: js by (induction t) simp_all
  then show ?thesis by (auto simp: is_segmenter_def by_units_def)
qed

theorem line_sends_reply_first_witness:
  "\<exists>parts n. concat parts = lit ''hi'' \<and> parts \<noteq> [] \<and> length parts \<le> n \<and>
     take n (line_calls (lit ''U1'') None parts) = [PushMessage (lit ''U1'') (lit ''hi'')]"
proof -
  have r: "line_says_hi connected_line = Some (Returned (send_ok (Some [1])),
      (la_say (lit ''[gateway-line] no reply token for U1 '' @ [0x2014] @ lit '' using push API'' @ [nl]) connected_line, ()),
      [PushMessage (lit ''U1'') (lit ''hi'')])" by code_simp
  have t: "out_text to_user = lit ''hi''" "ch_id (out_channel to_user) = lit ''U1''"
    "fst (token_take (lit ''U1'') 8 (la_tokens connected_line)) = None" by code_simp+
  from line_sends_reply_first [OF by_units_segments r [unfolded line_says_hi_def], unfolded t] obtain parts n where
    "concat parts = lit ''hi''" "[PushMessage (lit ''U1'') (lit ''hi'')] = [] @ take n (line_calls (lit ''U1'') None parts)"
    "(\<exists>i. (Returned (send_ok (Some [1])) :: send_result outcome) = Returned (send_ok i)) \<longleftrightarrow> parts \<noteq> [] \<and> length parts \<le> n" by blast
  then show ?thesis by (intro exI [of _ parts] exI [of _ n]) (auto simp del: lit_simps)
qed

text \<open>
  A reply token is kept under the speaker's user id wherever he spoke: a message to the user himself, after
  he spoke in a group, is sent as the reply to what he said in the group.
\<close>
theorem dm_is_answered_in_the_group:
  "\<exists>event token a s. lineEventToMessageEvent 1 event = Some a \<and> ch_type (le_channel a) = Group \<and>
     lw_replyToken event = Some token \<and> ch_type (out_channel to_user) = DM \<and>
     line_says_hi (snd (dispatchWebhookBody (\<lambda>tr h e. ([], None)) (\<lambda>tr. 1) [Entry event] connected_line)) =
       Some (Returned (send_ok (Some [1])), (s, ()), [ReplyMessage token (lit ''hi'')])"
proof -
  let ?e = "group_text (lit ''T'')"
  let ?a = "snd (dispatchWebhookBody (\<lambda>tr h e. ([], None)) (\<lambda>tr. 1) [Entry ?e] connected_line)"
  have "lineEventToMessageEvent 1 ?e = Some (the (lineEventToMessageEvent 1 ?e))"
    "ch_type (le_channel (the (lineEventToMessageEvent 1 ?e))) = Group" "lw_replyToken ?e = Some (lit ''T'')"
    "ch_type (out_channel to_user) = DM"
    "line_says_hi ?a = Some (Returned (send_ok (Some [1])), (fst (fst (snd (the (line_says_hi ?a)))), ()), [ReplyMessage (lit ''T'') (lit ''hi'')])"
    by code_simp+
  then show ?thesis by blast
qed

text \<open>
  The server's route acknowledges a batch that the dispatch refused: LINE is told 200, and no handler ever
  sees the event.
\<close>
theorem unserved_batch_is_acknowledged:
  "\<exists>event a. lineEventToMessageEvent 1 event \<noteq> None \<and>
     dispatchWebhookBody (\<lambda>tr h e. ([], None)) (\<lambda>tr. 1) [Entry event] a = (Some DispatchNoHandler, a) \<and>
     handlerFactory (\<lambda>k b. [7]) (\<lambda>b. Envelope [Entry event]) (\<lambda>tr h e. ([], None)) (\<lambda>tr. 1)
       \<lparr>lq_rawBody = [1], lq_signature = Some (base64 [7])\<rparr> a = (Some 200, a)"
proof -
  let ?e = "group_text (lit ''T'')"
  have "lineEventToMessageEvent 1 ?e \<noteq> None"
     "dispatchWebhookBody (\<lambda>tr h e. ([], None)) (\<lambda>tr. 1) [Entry ?e] fresh_line = (Some DispatchNoHandler, fresh_line)"
     "handlerFactory (\<lambda>k b. [7]) (\<lambda>b. Envelope [Entry ?e]) (\<lambda>tr h e. ([], None)) (\<lambda>tr. 1)
       \<lparr>lq_rawBody = [1], lq_signature = Some (base64 [7])\<rparr> fresh_line = (Some 200, fresh_line)" by code_simp+
  then show ?thesis by blast
qed

text \<open>
  A disconnect while a connect asks LINE who it is leaves an adapter that counts as connected, whose next
  connect does nothing, and that has no client to send with.
\<close>
theorem connected_without_a_client:
  "\<exists>a. a = line_bot_info 0 None (line_disconnect (line_client_made 0 None (line_connect fresh_line))) \<and>
     la_connected a \<and> line_connect a = a \<and>
     line_says_hi a = Some (Returned (send_refused (lit ''not_connected'') (lit ''LineAdapter.connect() not called'')), (a, ()), [])"
proof -
  let ?a = "line_bot_info 0 None (line_disconnect (line_client_made 0 None (line_connect fresh_line)))"
  have "la_connected ?a" "line_connect ?a = ?a"
    "line_says_hi ?a = Some (Returned (send_refused (lit ''not_connected'') (lit ''LineAdapter.connect() not called'')), (?a, ()), [])"
    by code_simp+
  then show ?thesis by blast
qed

end
