(* ===== verification/WebhookSession.thy ===== *)
theory WebhookSession
  imports Effects
begin

text \<open>
  The session of the adapters that are dialled into, Nextcloud Talk's and Google Chat's, whose \<open>connect\<close>,
  \<open>openSession\<close> and \<open>disconnect\<close> are the same code but for the check made first: an attempt makes its check,
  starts a listener and gives it up again when a disconnect overtook it. The adapters' records extend the
  session; the label is what their lines on standard error begin with.
\<close>

section \<open>The session\<close>

text \<open>
  Attempts and their listeners are numbered alike. \<open>sn_answers\<close> is what each attempt answered; \<open>sn_up\<close> and
  \<open>sn_down\<close> are the listeners that started and those stopped.
\<close>

datatype session_phase = Checking | StartingListener | StoppingListener

record session =
  sn_server :: "nat option"
  sn_connected :: bool
  sn_connecting :: "nat option"
  sn_generation :: nat
  sn_attempts :: "(nat \<times> nat \<times> session_phase) list"
  sn_next :: nat
  sn_answers :: "(nat \<times> bool) list"
  sn_up :: "nat list"
  sn_down :: "nat list"
  sn_log :: "js list"

definition session_say :: "js \<Rightarrow> js \<Rightarrow> 'a session_scheme \<Rightarrow> 'a session_scheme" where
  "session_say label line t = t\<lparr>sn_log := sn_log t @ [[91] @ label @ lit ''] '' @ line @ [nl]]\<rparr>"

text \<open>A second caller shares the answer of the attempt in flight.\<close>

definition session_connect :: "'a session_scheme \<Rightarrow> 'a session_scheme" where
  "session_connect t =
     (if sn_connected t \<or> sn_connecting t \<noteq> None then t
      else t\<lparr>sn_connecting := Some (sn_next t), sn_next := Suc (sn_next t),
             sn_attempts := sn_attempts t @ [(sn_next t, sn_generation t, Checking)]\<rparr>)"

text \<open>The answer of an attempt, and the \<open>finally\<close> after it, which clears only what is still its own.\<close>

definition session_answer :: "nat \<Rightarrow> bool \<Rightarrow> 'a session_scheme \<Rightarrow> 'a session_scheme" where
  "session_answer k ok t =
     t\<lparr>sn_attempts := filter (\<lambda>(i, g, p). i \<noteq> k) (sn_attempts t), sn_answers := sn_answers t @ [(k, ok)]\<rparr>"

definition overtaken :: "js \<Rightarrow> nat \<Rightarrow> 'a session_scheme \<Rightarrow> 'a session_scheme" where
  "overtaken label k t =
     session_answer k False (session_say label (lit ''connect failed: disconnect() was called before connect finished'') t)"

definition phase_of :: "nat \<Rightarrow> 'a session_scheme \<Rightarrow> (nat \<times> session_phase) option" where
  "phase_of k t = map_of (sn_attempts t) k"

definition session_cleared :: "nat \<Rightarrow> 'a session_scheme \<Rightarrow> 'a session_scheme" where
  "session_cleared k t =
     (if phase_of k t = None \<and> sn_connecting t = Some k then t\<lparr>sn_connecting := None\<rparr> else t)"

definition to_phase :: "nat \<Rightarrow> session_phase \<Rightarrow> 'a session_scheme \<Rightarrow> 'a session_scheme" where
  "to_phase k p t = t\<lparr>sn_attempts := map (\<lambda>(i, g, q). if i = k then (i, g, p) else (i, g, q)) (sn_attempts t)\<rparr>"

text \<open>The check answered: the line of its refusal, or nothing.\<close>

definition session_checked :: "js \<Rightarrow> nat \<Rightarrow> js option \<Rightarrow> 'a session_scheme \<Rightarrow> 'a session_scheme" where
  "session_checked label k refusal t =
     (case phase_of k t of
        Some (g, Checking) \<Rightarrow>
          (case refusal of
             Some line \<Rightarrow> session_answer k False (session_say label line t)
           | None \<Rightarrow>
               if g \<noteq> sn_generation t then overtaken label k t
               else to_phase k StartingListener t)
      | _ \<Rightarrow> t)"

definition session_listens :: "js \<Rightarrow> nat \<Rightarrow> thrown option \<Rightarrow> 'a session_scheme \<Rightarrow> 'a session_scheme" where
  "session_listens label k threw t =
     (case phase_of k t of
        Some (g, StartingListener) \<Rightarrow>
          (case threw of
             Some err \<Rightarrow>
               session_answer k False (session_say label (lit ''connect failed: listener did not start: '' @ text_of err) t)
           | None \<Rightarrow>
               let t1 = t\<lparr>sn_up := sn_up t @ [k]\<rparr> in
               if g \<noteq> sn_generation t then to_phase k StoppingListener (t1\<lparr>sn_down := sn_down t @ [k]\<rparr>)
               else session_answer k True (t1\<lparr>sn_server := Some k, sn_connected := True\<rparr>))
      | _ \<Rightarrow> t)"

definition session_stopped :: "js \<Rightarrow> nat \<Rightarrow> 'a session_scheme \<Rightarrow> 'a session_scheme" where
  "session_stopped label k t =
     (case phase_of k t of
        Some (g, StoppingListener) \<Rightarrow> overtaken label k t
      | _ \<Rightarrow> t)"

definition session_disconnect :: "'a session_scheme \<Rightarrow> 'a session_scheme" where
  "session_disconnect t =
     t\<lparr>sn_generation := Suc (sn_generation t), sn_connected := False, sn_connecting := None, sn_server := None,
       sn_down := sn_down t @ (case sn_server t of None \<Rightarrow> [] | Some l \<Rightarrow> [l])\<rparr>"

text \<open>The fields of a new adapter's session.\<close>

definition fresh_session :: "'a session_scheme \<Rightarrow> bool" where
  "fresh_session t \<longleftrightarrow> sn_server t = None \<and> \<not> sn_connected t \<and> sn_connecting t = None \<and> sn_attempts t = [] \<and>
     sn_up t = [] \<and> sn_down t = []"

section \<open>The listener\<close>

text \<open>What an attempt in flight knows, and what holds of the listeners.\<close>

definition attempt_ok :: "'a session_scheme \<Rightarrow> nat \<Rightarrow> nat \<Rightarrow> session_phase \<Rightarrow> bool" where
  "attempt_ok t k g p \<longleftrightarrow> k < sn_next t \<and> (p \<noteq> StoppingListener \<longrightarrow> k \<notin> set (sn_up t)) \<and> g \<le> sn_generation t \<and>
     (g = sn_generation t \<longrightarrow> sn_connecting t = Some k \<and> \<not> sn_connected t \<and> p \<noteq> StoppingListener)"

definition listeners_ok :: "'a session_scheme \<Rightarrow> bool" where
  "listeners_ok t \<longleftrightarrow> (\<forall>k \<in> set (sn_up t). k < sn_next t) \<and> set (sn_down t) \<subseteq> set (sn_up t) \<and>
     set (sn_up t) - set (sn_down t) = set_option (sn_server t) \<and>
     (sn_connected t \<longleftrightarrow> sn_server t \<noteq> None)"

definition session_inv :: "'a session_scheme \<Rightarrow> bool" where
  "session_inv t \<longleftrightarrow> (\<forall>k g p. phase_of k t = Some (g, p) \<longrightarrow> attempt_ok t k g p) \<and> listeners_ok t"

lemma inv_attempt: "session_inv t \<Longrightarrow> phase_of k t = Some (g, p) \<Longrightarrow> attempt_ok t k g p"
  by (simp add: session_inv_def)

lemma inv_listeners: "session_inv t \<Longrightarrow> listeners_ok t"
  by (simp add: session_inv_def)

lemma session_invI:
  "(\<And>k g p. phase_of k t = Some (g, p) \<Longrightarrow> attempt_ok t k g p) \<Longrightarrow> listeners_ok t \<Longrightarrow> session_inv t"
  by (simp add: session_inv_def)

lemma phase_to_phase:
  "phase_of j (to_phase k p t) = (if j = k then map_option (\<lambda>(g, q). (g, p)) (phase_of k t) else phase_of j t)"
proof -
  have "map_of (map (\<lambda>(i, g, q). if i = k then (i, g, p) else (i, g, q)) xs) j =
    (if j = k then map_option (\<lambda>(g, q). (g, p)) (map_of xs k) else map_of xs j)" for xs :: "(nat \<times> nat \<times> session_phase) list"
    by (induction xs) auto
  then show ?thesis by (simp add: phase_of_def to_phase_def)
qed

lemma phase_answer: "phase_of j (session_answer k ok t) = (if j = k then None else phase_of j t)"
proof -
  have "map_of (filter (\<lambda>(i, g, p). i \<noteq> k) xs) j = (if j = k then None else map_of xs j)" for xs :: "(nat \<times> nat \<times> session_phase) list"
    by (induction xs) auto
  then show ?thesis by (simp add: phase_of_def session_answer_def)
qed

lemma session_frame [simp]:
  "phase_of k (session_say label l t) = phase_of k t" "sn_next (session_say label l t) = sn_next t" "sn_up (session_say label l t) = sn_up t"
  "sn_generation (session_say label l t) = sn_generation t" "sn_connecting (session_say label l t) = sn_connecting t" "sn_down (session_say label l t) = sn_down t"
  "sn_server (session_say label l t) = sn_server t" "sn_connected (session_say label l t) = sn_connected t"
  "session.more (session_say label l t) = session.more t"
  "sn_next (session_answer k ok t) = sn_next t" "sn_up (session_answer k ok t) = sn_up t" "sn_down (session_answer k ok t) = sn_down t"
  "sn_generation (session_answer k ok t) = sn_generation t" "sn_server (session_answer k ok t) = sn_server t"
  "sn_connected (session_answer k ok t) = sn_connected t"
  "sn_connecting (session_answer k ok t) = sn_connecting t"
  "sn_next (to_phase k p t) = sn_next t" "sn_up (to_phase k p t) = sn_up t" "sn_down (to_phase k p t) = sn_down t"
  "sn_generation (to_phase k p t) = sn_generation t" "sn_server (to_phase k p t) = sn_server t"
  "sn_connected (to_phase k p t) = sn_connected t" "sn_connecting (to_phase k p t) = sn_connecting t"
  by (simp_all add: session_say_def phase_of_def session_answer_def to_phase_def)

lemma inv_say [simp]: "session_inv (session_say label l t) = session_inv t"
  by (simp add: session_inv_def attempt_ok_def listeners_ok_def)

lemma inv_answer:
  assumes "session_inv t" shows "session_inv (session_answer k False t)"
proof (rule session_invI)
  fix j g p assume "phase_of j (session_answer k False t) = Some (g, p)"
  then have "j \<noteq> k" "phase_of j t = Some (g, p)" by (auto simp: phase_answer split: if_splits)
  then show "attempt_ok (session_answer k False t) j g p" using inv_attempt [OF assms] by (auto simp: attempt_ok_def)
qed (use inv_listeners [OF assms] in \<open>simp add: listeners_ok_def\<close>)

lemma inv_connect:
  assumes "session_inv t" shows "session_inv (session_connect t)"
proof (cases "sn_connected t \<or> sn_connecting t \<noteq> None")
  case False
  have new: "map_of (sn_attempts t) (sn_next t) = None"
    using inv_attempt [OF assms, of "sn_next t"] by (cases "phase_of (sn_next t) t") (auto simp: attempt_ok_def phase_of_def)
  have c: "session_connect t = t\<lparr>sn_connecting := Some (sn_next t), sn_next := Suc (sn_next t),
      sn_attempts := sn_attempts t @ [(sn_next t, sn_generation t, Checking)]\<rparr>"
    using False by (simp add: session_connect_def)
  show ?thesis
  proof (rule session_invI)
    fix j g p assume j: "phase_of j (session_connect t) = Some (g, p)"
    show "attempt_ok (session_connect t) j g p"
    proof (cases "j = sn_next t")
      case True
      then show ?thesis using j new False inv_listeners [OF assms]
        by (auto simp: c phase_of_def map_add_def attempt_ok_def listeners_ok_def)
    next
      case other: False
      then have "phase_of j t = Some (g, p)" using j by (auto simp: c phase_of_def map_add_def split: if_splits option.splits)
      then have "attempt_ok t j g p" by (rule inv_attempt [OF assms])
      then show ?thesis using False by (auto simp: c attempt_ok_def)
    qed
  qed (use inv_listeners [OF assms] False in \<open>auto simp: c listeners_ok_def less_SucI\<close>)
qed (use assms in \<open>simp add: session_connect_def\<close>)

lemma inv_to_phase:
  assumes "session_inv t" "phase_of k t = Some (g, Checking)" shows "session_inv (to_phase k StartingListener t)"
proof (rule session_invI)
  fix j h p assume "phase_of j (to_phase k StartingListener t) = Some (h, p)"
  then have "if j = k then h = g \<and> p = StartingListener else phase_of j t = Some (h, p)"
    using assms(2) by (auto simp: phase_to_phase split: if_splits)
  then show "attempt_ok (to_phase k StartingListener t) j h p"
    using inv_attempt [OF assms] inv_attempt [OF assms(1), of j h p] by (auto simp: attempt_ok_def split: if_splits)
qed (use inv_listeners [OF assms(1)] in \<open>simp add: listeners_ok_def\<close>)

lemma phase_frame [simp]:
  "phase_of j (t\<lparr>sn_up := u\<rparr>) = phase_of j t" "phase_of j (t\<lparr>sn_down := d\<rparr>) = phase_of j t"
  "phase_of j (t\<lparr>sn_server := v\<rparr>) = phase_of j t" "phase_of j (t\<lparr>sn_connected := b\<rparr>) = phase_of j t"
  "phase_of j (t\<lparr>sn_generation := g\<rparr>) = phase_of j t" "phase_of j (t\<lparr>sn_connecting := x\<rparr>) = phase_of j t"
  by (simp_all add: phase_of_def)

lemma inv_opened:
  assumes "session_inv t" "phase_of k t = Some (sn_generation t, StartingListener)"
  shows "session_inv (session_answer k True (t\<lparr>sn_up := sn_up t @ [k], sn_server := Some k, sn_connected := True\<rparr>))"
proof -
  have k: "sn_connecting t = Some k" "k \<notin> set (sn_up t)" "k < sn_next t" "\<not> sn_connected t" using inv_attempt [OF assms] by (auto simp: attempt_ok_def)
  then have "sn_server t = None" using inv_listeners [OF assms(1)] by (auto simp: listeners_ok_def)
  then have "listeners_ok (session_answer k True (t\<lparr>sn_up := sn_up t @ [k], sn_server := Some k, sn_connected := True\<rparr>))"
    using k inv_listeners [OF assms(1)] by (auto simp: listeners_ok_def)
  moreover have "attempt_ok (session_answer k True (t\<lparr>sn_up := sn_up t @ [k], sn_server := Some k, sn_connected := True\<rparr>)) j g p"
    if "j \<noteq> k" "phase_of j t = Some (g, p)" for j g p
    using inv_attempt [OF assms(1) that(2)] that(1) k by (auto simp: attempt_ok_def)
  ultimately show ?thesis by (intro session_invI) (auto simp: phase_answer split: if_splits)
qed

lemma inv_overtaken:
  assumes "session_inv t" "phase_of k t = Some (g, StartingListener)" "g \<noteq> sn_generation t"
  shows "session_inv (to_phase k StoppingListener (t\<lparr>sn_up := sn_up t @ [k], sn_down := sn_down t @ [k]\<rparr>))"
proof -
  have k: "k \<notin> set (sn_up t)" "k < sn_next t" "g \<le> sn_generation t"
    using inv_attempt [OF assms(1,2)] by (auto simp: attempt_ok_def)
  have "attempt_ok (to_phase k StoppingListener (t\<lparr>sn_up := sn_up t @ [k], sn_down := sn_down t @ [k]\<rparr>)) j h p"
    if "if j = k then h = g \<and> p = StoppingListener else phase_of j t = Some (h, p)" for j h p
    using that k assms(3) inv_attempt [OF assms(1), of j h p] by (auto simp: attempt_ok_def split: if_splits)
  moreover have "listeners_ok (to_phase k StoppingListener (t\<lparr>sn_up := sn_up t @ [k], sn_down := sn_down t @ [k]\<rparr>))"
    using k inv_listeners [OF assms(1)] by (auto simp: listeners_ok_def)
  ultimately show ?thesis using assms(2) by (intro session_invI) (auto simp: phase_to_phase split: if_splits)
qed

lemma inv_listener:
  assumes "session_inv t" shows "session_inv (session_listens label k threw t)"
  using assms inv_opened [OF assms, of k] inv_overtaken [OF assms, of k]
  by (auto simp: session_listens_def Let_def intro: inv_answer split: option.splits session_phase.splits)

lemma inv_disconnect:
  assumes "session_inv t" shows "session_inv (session_disconnect t)"
proof (rule session_invI)
  fix j g p assume "phase_of j (session_disconnect t) = Some (g, p)"
  then have "attempt_ok t j g p" by (intro inv_attempt [OF assms]) (simp add: session_disconnect_def)
  then show "attempt_ok (session_disconnect t) j g p" by (auto simp: attempt_ok_def session_disconnect_def)
next
  show "listeners_ok (session_disconnect t)"
    using inv_listeners [OF assms] by (cases "sn_server t") (auto simp: listeners_ok_def session_disconnect_def)
qed

lemma inv_checked: "session_inv t \<Longrightarrow> session_inv (session_checked label k refusal t)"
  by (auto simp: session_checked_def overtaken_def intro: inv_answer inv_to_phase split: option.splits session_phase.splits)

lemma inv_stopped: "session_inv t \<Longrightarrow> session_inv (session_stopped label k t)"
  by (auto simp: session_stopped_def overtaken_def intro: inv_answer split: option.splits session_phase.splits)

lemma inv_cleared:
  assumes "session_inv t" shows "session_inv (session_cleared k t)"
proof (rule session_invI)
  fix j g p assume "phase_of j (session_cleared k t) = Some (g, p)"
  then have "phase_of j t = Some (g, p)" by (simp add: session_cleared_def split: if_splits)
  with inv_attempt [OF assms this] show "attempt_ok (session_cleared k t) j g p" by (auto simp: attempt_ok_def session_cleared_def)
qed (use inv_listeners [OF assms] in \<open>simp add: listeners_ok_def session_cleared_def\<close>)

lemma session_inv_fresh: "fresh_session t \<Longrightarrow> session_inv t"
  by (simp add: fresh_session_def session_inv_def listeners_ok_def phase_of_def)

lemmas session_steps = inv_connect inv_checked inv_listener inv_stopped inv_disconnect inv_cleared

end
