(* ===== verification/NextcloudTalk.thy ===== *)
theory NextcloudTalk
  imports PartSender WebhookServer WebhookSession
begin

text \<open>
  The Nextcloud Talk adapter (\<open>gateway-nextcloud-talk/src\<close>: \<open>adapter.ts\<close>, \<open>normalize.ts\<close>, \<open>signature.ts\<close>,
  \<open>webhook-server.ts\<close>). The HMAC, \<open>JSON.parse\<close>, the case mapping, the random values, the answers of
  \<open>fetch\<close> and of the listener are parameters; the adapter is a machine over the steps between its awaits.
\<close>

section \<open>Signatures\<close>

definition hex_digit :: "int \<Rightarrow> cu" where
  "hex_digit n = (if n mod 16 < 10 then 48 + n mod 16 else 87 + n mod 16)"

definition hex :: "int list \<Rightarrow> js" where
  "hex bs = concat (map (\<lambda>b. [hex_digit (b div 16), hex_digit b]) bs)"

definition talkSignature :: "(js \<Rightarrow> js \<Rightarrow> int list) \<Rightarrow> js \<Rightarrow> js \<Rightarrow> js \<Rightarrow> js" where
  "talkSignature hmac secret random payload = hex (hmac secret (random @ payload))"

definition verifyTalkSignature ::
    "(js \<Rightarrow> js \<Rightarrow> int list) \<Rightarrow> (js \<Rightarrow> js) \<Rightarrow> js \<Rightarrow> js option \<Rightarrow> js \<Rightarrow> js option \<Rightarrow> bool" where
  "verifyTalkSignature hmac lower secret random rawBody signature =
     (case (random, signature) of
        (Some r, Some s) \<Rightarrow>
          if r = [] \<or> s = [] then False
          else let expected = utf8 (talkSignature hmac secret r rawBody); received = utf8 (lower s) in
            if length expected \<noteq> length received then False else expected = received
      | _ \<Rightarrow> False)"

section \<open>Events\<close>

text \<open>A body is read as its declared type without a check, so ids and names are whatever JSON value is there.\<close>

record talk_event =
  nt_id :: json
  nt_senderId :: json
  nt_displayName :: json
  nt_roomToken :: json
  nt_text :: js
  nt_receivedAt :: rat
  nt_replyToId :: "json option"
  nt_raw :: json

datatype talk_outcome = TalkEvent talk_event | Ignored | Unreadable js

text \<open>\<open>messageOf\<close>: \<open>JSON.parse\<close> converts what it is given to a text.\<close>

definition messageOf :: "runtime \<Rightarrow> (js \<Rightarrow> json option) \<Rightarrow> json option \<Rightarrow> js option" where
  "messageOf rt parse content =
     (case content of
        None \<Rightarrow> None
      | Some v \<Rightarrow>
          (case js_String rt v of
             None \<Rightarrow> None
           | Some s \<Rightarrow>
               (case parse s of
                  Some (JObj fs) \<Rightarrow> string_of (map_of fs (lit ''message''))
                | _ \<Rightarrow> None)))"

text \<open>\<open>None\<close> is the error of a template over an id that has no text.\<close>

definition talkBodyToMessageEvent :: "runtime \<Rightarrow> (js \<Rightarrow> json option) \<Rightarrow> json \<Rightarrow> rat \<Rightarrow> talk_outcome option" where
  "talkBodyToMessageEvent rt parse body receivedAt =
     (let actor = member_of body (lit ''actor''); object = member_of body (lit ''object''); target = member_of body (lit ''target'')
      in if member_of body (lit ''type'') \<noteq> Some (JStr (lit ''Create'')) \<or>
            chained actor (lit ''type'') \<noteq> Some (JStr (lit ''Person'')) then Some Ignored
         else case (chained actor (lit ''id''), chained object (lit ''id''), chained target (lit ''id'')) of
           (Some actorId, Some objectId, Some targetId) \<Rightarrow>
             (case messageOf rt parse (chained object (lit ''content'')) of
                None \<Rightarrow>
                  (case js_String rt objectId of
                     None \<Rightarrow> None
                   | Some i \<Rightarrow> Some (Unreadable (lit ''message '' @ i @ lit '': its content is not Talk''  @ [39] @ lit ''s JSON'')))
              | Some text \<Rightarrow>
                  Some (TalkEvent \<lparr>nt_id = objectId, nt_senderId = actorId,
                    nt_displayName = or_default (chained actor (lit ''name'')) actorId, nt_roomToken = targetId, nt_text = text,
                    nt_receivedAt = receivedAt,
                    nt_replyToId = chained (chained (chained object (lit ''inReplyTo'')) (lit ''object'')) (lit ''id''),
                    nt_raw = body\<rparr>))
         | _ \<Rightarrow> Some (Unreadable (lit ''a Create without actor.id, object.id or target.id'')))"

definition parseObject :: "(js \<Rightarrow> json option) \<Rightarrow> js \<Rightarrow> json option" where
  "parseObject parse rawBody = (case parse rawBody of Some (JObj fs) \<Rightarrow> Some (JObj fs) | _ \<Rightarrow> None)"

section \<open>The adapter\<close>

text \<open>The session with the adapter's own fields; \<open>nt_calls\<close> is the calls made to handlers.\<close>

record talk = session +
  nt_secret :: js
  nt_baseUrl :: js
  nt_handler :: "nat option"
  nt_warnedAboutHtml :: bool
  nt_calls :: "(nat \<times> talk_event) list"

definition talk_label :: js where
  "talk_label = lit ''gateway-nextcloud-talk''"

definition strip_slashes :: "js \<Rightarrow> js" where
  "strip_slashes s = rev (dropWhile (\<lambda>c. c = 47) (rev s))"

definition newTalkAdapter :: "js \<Rightarrow> js \<Rightarrow> thrown + talk" where
  "newTalkAdapter secret baseUrl =
     (if length secret < 40 \<or> 128 < length secret
      then Inl (ThrownError (lit ''gateway-nextcloud-talk: opts.secret must be 40 to 128 characters, as occ talk:bot:install requires; got ''
        @ dec (length secret)))
      else Inr \<lparr>sn_server = None, sn_connected = False, sn_connecting = None, sn_generation = 0, sn_attempts = [], sn_next = 0,
        sn_answers = [], sn_up = [], sn_down = [], sn_log = [], nt_secret = secret, nt_baseUrl = strip_slashes baseUrl,
        nt_handler = None, nt_warnedAboutHtml = False, nt_calls = []\<rparr>)"

definition talk_connect :: "talk \<Rightarrow> talk" where
  "talk_connect t = session_connect t"

text \<open>The answer to the capabilities read: a rejection, a status, or a JSON value, or no answer in time.\<close>

datatype capabilities = CapThrew thrown | CapStatus int | CapJson json | CapTimeout js

definition readFeatures :: "capabilities \<Rightarrow> js + js list" where
  "readFeatures c =
     (case c of
        CapThrew err \<Rightarrow> Inl (lit ''capabilities could not be read: '' @ text_of err)
      | CapTimeout ms \<Rightarrow> Inl (lit ''no capabilities answer within '' @ ms @ lit '' ms'')
      | CapStatus n \<Rightarrow> Inl (lit ''capabilities answered HTTP '' @ (if n < 0 then [45] @ dec (nat (- n)) else dec (nat n)))
      | CapJson answer \<Rightarrow>
          if answer = JNull then Inl (lit ''capabilities could not be read: '' @ text_of type_error)
          else (case chained (chained (chained (chained (member_of answer (lit ''ocs'')) (lit ''data'')) (lit ''capabilities''))
                  (lit ''spreed'')) (lit ''features'') of
            Some (JArr vs) \<Rightarrow> Inr (concat (map (\<lambda>v. case string_of (Some v) of None \<Rightarrow> [] | Some s \<Rightarrow> [s]) vs))
          | _ \<Rightarrow> Inl (lit ''the server reports no Talk (spreed) capabilities'')))"

text \<open>The check of an attempt: \<open>serverHasBots\<close>, or the line that says why not.\<close>

definition serverHasBots :: "capabilities \<Rightarrow> js option" where
  "serverHasBots c =
     (case readFeatures c of
        Inl reason \<Rightarrow> Some (lit ''connect failed: '' @ reason)
      | Inr features \<Rightarrow>
          if lit ''bots-v1'' \<notin> set features
          then Some (lit ''connect failed: the server'' @ [39] @ lit ''s Talk has no '' @ quoted (lit ''bots-v1'') @ lit '' feature'')
          else None)"

definition talk_checked :: "nat \<Rightarrow> capabilities \<Rightarrow> talk \<Rightarrow> talk" where
  "talk_checked k c t = session_checked talk_label k (serverHasBots c) t"

definition talk_listens :: "nat \<Rightarrow> thrown option \<Rightarrow> talk \<Rightarrow> talk" where
  "talk_listens k threw t = session_listens talk_label k threw t"

definition talk_stopped :: "nat \<Rightarrow> talk \<Rightarrow> talk" where
  "talk_stopped k t = session_stopped talk_label k t"

definition talk_cleared :: "nat \<Rightarrow> talk \<Rightarrow> talk" where
  "talk_cleared k t = session_cleared k t"

definition talk_disconnect :: "talk \<Rightarrow> talk" where
  "talk_disconnect t = session_disconnect t"

definition talk_onInbound :: "nat \<Rightarrow> talk \<Rightarrow> talk" where
  "talk_onInbound h t = t\<lparr>nt_handler := Some h\<rparr>"

definition talk_off :: "nat \<Rightarrow> talk \<Rightarrow> talk" where
  "talk_off h t = (if nt_handler t = Some h then t\<lparr>nt_handler := None\<rparr> else t)"

section \<open>Webhooks\<close>

record talk_request =
  tq_random :: "js option"
  tq_signature :: "js option"
  tq_rawBody :: js

text \<open>
  \<open>handleRequest\<close>: the status and the error of the answer, \<open>None\<close> when it rejects. The handler is called
  and not awaited: what it does is other steps of the machine.
\<close>

definition handleRequest ::
    "(js \<Rightarrow> js \<Rightarrow> int list) \<Rightarrow> (js \<Rightarrow> js) \<Rightarrow> runtime \<Rightarrow> (js \<Rightarrow> json option) \<Rightarrow> talk_request \<Rightarrow> talk \<Rightarrow> (int \<times> js option) option \<times> talk" where
  "handleRequest hmac lower rt parse req t =
     (if \<not> verifyTalkSignature hmac lower (nt_secret t) (tq_random req) (tq_rawBody req) (tq_signature req)
      then (Some (401, Some (lit ''invalid signature'')), session_say talk_label (lit ''refused a webhook (401): signature missing or wrong'') t)
      else case parseObject parse (tq_rawBody req) of
        None \<Rightarrow> (Some (400, Some (lit ''the body is not a JSON object'')), t)
      | Some body \<Rightarrow>
          (case talkBodyToMessageEvent rt parse body (rt_now rt) of
             None \<Rightarrow> (None, t)
           | Some (Unreadable reason) \<Rightarrow> (Some (200, None), session_say talk_label (lit ''dropped a webhook: '' @ reason) t)
           | Some Ignored \<Rightarrow> (Some (200, None), t)
           | Some (TalkEvent event) \<Rightarrow>
               (case nt_handler t of
                  None \<Rightarrow> (Some (503, Some (lit ''no handler'')), t)
                | Some h \<Rightarrow> (Some (200, None), t\<lparr>nt_calls := nt_calls t @ [(h, event)]\<rparr>))))"

definition talk_deliver :: "(nat \<Rightarrow> talk_event \<Rightarrow> ('w, unit) comp) \<Rightarrow> talk \<Rightarrow> talk_event \<Rightarrow> ('w, delivery) comp" where
  "talk_deliver handlers t event = runHandler (lit ''nextcloud_talk'') (map_option handlers (nt_handler t)) event"

section \<open>Runs\<close>

datatype talk_step_event =
    TalkConnect
  | FeaturesRead nat capabilities
  | ListenerAnswers nat "thrown option"
  | ListenerStopped nat
  | TalkCleared nat
  | TalkDisconnect
  | TalkSubscribe nat
  | TalkUnsubscribe nat
  | TalkWebhook talk_request

fun talk_step ::
    "(js \<Rightarrow> js \<Rightarrow> int list) \<Rightarrow> (js \<Rightarrow> js) \<Rightarrow> runtime \<Rightarrow> (js \<Rightarrow> json option) \<Rightarrow> talk \<Rightarrow> talk_step_event \<Rightarrow> talk" where
  "talk_step hmac lower rt parse t TalkConnect = talk_connect t"
| "talk_step hmac lower rt parse t (FeaturesRead k c) = talk_checked k c t"
| "talk_step hmac lower rt parse t (ListenerAnswers k threw) = talk_listens k threw t"
| "talk_step hmac lower rt parse t (ListenerStopped k) = talk_stopped k t"
| "talk_step hmac lower rt parse t (TalkCleared k) = talk_cleared k t"
| "talk_step hmac lower rt parse t TalkDisconnect = talk_disconnect t"
| "talk_step hmac lower rt parse t (TalkSubscribe h) = talk_onInbound h t"
| "talk_step hmac lower rt parse t (TalkUnsubscribe h) = talk_off h t"
| "talk_step hmac lower rt parse t (TalkWebhook req) = snd (handleRequest hmac lower rt parse req t)"

section \<open>Sending\<close>

record talk_post =
  tp_url :: js
  tp_random :: js
  tp_signature :: js
  tp_message :: js
  tp_referenceId :: js

text \<open>
  The site of a send: the world \<open>fetch\<close> runs in, how many random values were drawn, and the posts made with
  the status each got (\<open>None\<close> when \<open>fetch\<close> rejected). \<open>randoms n\<close> is the \<open>n\<close>-th draw of
  \<open>randomBytes(32).toString("hex")\<close>.
\<close>

record 'w talk_site =
  ts_world :: 'w
  ts_drawn :: nat
  ts_posts :: "(talk_post \<times> int option) list"

definition sendError :: "int \<Rightarrow> send_result" where
  "sendError status =
     (if status = 401
      then send_refused (lit ''talk_unauthorized'')
        (lit ''Talk refused the bot'' @ [39] @ lit ''s signature (401): check that secret matches the installed bot'')
      else if status = 400
      then send_refused (lit ''talk_bad_request'')
        (lit ''Talk refused the message (400): the room may not exist or the bot is not in it'')
      else send_refused (lit ''talk_http_error'') (lit ''Talk answered HTTP '' @ dec (nat status)))"

definition talk_request_for :: "(js \<Rightarrow> js \<Rightarrow> int list) \<Rightarrow> (nat \<Rightarrow> js) \<Rightarrow> talk \<Rightarrow> js \<Rightarrow> js \<Rightarrow> nat \<Rightarrow> talk_post" where
  "talk_request_for hmac randoms t room text n =
     \<lparr>tp_url = nt_baseUrl t @ lit ''/ocs/v2.php/apps/spreed/api/v1/bot/'' @ room @ lit ''/message'', tp_random = randoms n,
      tp_signature = talkSignature hmac (nt_secret t) (randoms n) text, tp_message = text, tp_referenceId = randoms (Suc n)\<rparr>"

definition post_part ::
    "(js \<Rightarrow> js \<Rightarrow> int list) \<Rightarrow> (nat \<Rightarrow> js) \<Rightarrow> (talk_post \<Rightarrow> 'w \<Rightarrow> int outcome \<times> 'w) \<Rightarrow> talk \<Rightarrow> js \<Rightarrow> js \<Rightarrow> 'w talk_site
       \<Rightarrow> send_result \<times> 'w talk_site" where
  "post_part hmac randoms fetch t room text s =
     (let req = talk_request_for hmac randoms t room text (ts_drawn s);
          logged = (\<lambda>status w. s\<lparr>ts_world := w, ts_drawn := ts_drawn s + 2, ts_posts := ts_posts s @ [(req, status)]\<rparr>)
      in case fetch req (ts_world s) of
        (Threw err, w) \<Rightarrow> (send_refused (lit ''talk_http_error'') (text_of err), logged None w)
      | (Returned status, w) \<Rightarrow>
          (if status = 201 then send_ok (Some (tp_referenceId req)) else sendError status, logged (Some status) w))"

fun sendParts ::
    "(js \<Rightarrow> js \<Rightarrow> int list) \<Rightarrow> (nat \<Rightarrow> js) \<Rightarrow> (talk_post \<Rightarrow> 'w \<Rightarrow> int outcome \<times> 'w) \<Rightarrow> talk \<Rightarrow> js \<Rightarrow> nat \<Rightarrow> nat \<Rightarrow> js list
       \<Rightarrow> js option \<Rightarrow> 'w talk_site \<Rightarrow> send_result \<times> 'w talk_site" where
  "sendParts hmac randoms fetch t room parts index [] first s = (send_ok first, s)"
| "sendParts hmac randoms fetch t room parts index (p # ps) first s =
     (case post_part hmac randoms fetch t room p s of
        (result, s1) \<Rightarrow>
          if sr_ok result
          then sendParts hmac randoms fetch t room parts (Suc index) ps (if first = None then sr_messageId result else first) s1
          else (case sr_error result of
              None \<Rightarrow> (result, s1)
            | Some e \<Rightarrow>
                if parts = 1 then (result, s1)
                else (send_refused (err_code e)
                  (lit ''part '' @ dec (Suc index) @ lit '' of '' @ dec parts @ lit '': '' @ err_message e), s1)))"

definition room_token :: "js \<Rightarrow> bool" where
  "room_token room \<longleftrightarrow> room \<noteq> [] \<and> list_all (\<lambda>c. 48 \<le> c \<and> c \<le> 57 \<or> 65 \<le> c \<and> c \<le> 90 \<or> 97 \<le> c \<and> c \<le> 122) room"

definition talk_textFor :: "outbound \<Rightarrow> talk \<Rightarrow> js \<times> talk" where
  "talk_textFor out t =
     (out_text out,
      if out_format out = Some Html \<and> \<not> nt_warnedAboutHtml t
      then session_say talk_label (lit ''format='' @ quoted (lit ''html'') @ lit '' was declared and Talk has no html mode; sending the text unchanged. Logged once.'')
        (t\<lparr>nt_warnedAboutHtml := True\<rparr>)
      else t)"

definition talk_sendMessage ::
    "(js \<Rightarrow> js) \<Rightarrow> (js \<Rightarrow> js \<Rightarrow> int list) \<Rightarrow> (nat \<Rightarrow> js) \<Rightarrow> (talk_post \<Rightarrow> 'w \<Rightarrow> int outcome \<times> 'w) \<Rightarrow> outbound \<Rightarrow> talk \<Rightarrow> 'w talk_site
       \<Rightarrow> (send_result \<times> talk \<times> 'w talk_site) option" where
  "talk_sendMessage stringify hmac randoms fetch out t s =
     (let room = ch_id (out_channel out) in
      if out_text out = [] then Some (send_refused (lit ''empty_text'') (lit ''outbound text is empty''), t, s)
      else if \<not> room_token room
      then Some (send_refused (lit ''invalid_room'')
        (lit ''channel.id must be a Talk room token (letters and digits), got '' @ stringify room), t, s)
      else if \<not> sn_connected t
      then Some (send_refused (lit ''not_connected'') (lit ''NextcloudTalkAdapter.connect() has not succeeded''), t, s)
      else case talk_textFor out t of
        (text, t1) \<Rightarrow>
          (case splitForTalk text None of
             Inl err \<Rightarrow> None
           | Inr parts \<Rightarrow>
               (case sendParts hmac randoms fetch t1 room (length parts) 0 parts None s of
                  (r, s1) \<Rightarrow> Some (r, t1, s1))))"

section \<open>The session\<close>

lemma talk_keeps [simp]:
  "session_inv (t\<lparr>nt_handler := h\<rparr>) = session_inv t" "session_inv (t\<lparr>nt_calls := cs\<rparr>) = session_inv t"
  by (simp_all add: session_inv_def attempt_ok_def listeners_ok_def phase_of_def)

lemma talk_request_keeps: "session_inv t \<Longrightarrow> session_inv (snd (handleRequest hmac lower rt parse req t))"
  by (auto simp: handleRequest_def split: option.splits talk_outcome.splits)

lemma talk_step_keeps: "session_inv t \<Longrightarrow> session_inv (talk_step hmac lower rt parse t e)"
  by (cases e) (auto simp: talk_connect_def talk_checked_def talk_listens_def talk_stopped_def talk_cleared_def talk_disconnect_def
    talk_onInbound_def talk_off_def intro: session_steps talk_request_keeps)

lemma talk_run_keeps: "session_inv t \<Longrightarrow> session_inv (foldl (talk_step hmac lower rt parse) t es)"
  by (induction es arbitrary: t) (simp_all add: talk_step_keeps)

lemma new_talk: "newTalkAdapter secret baseUrl = Inr t \<Longrightarrow> session_inv t"
  by (rule session_inv_fresh) (auto simp: newTalkAdapter_def fresh_session_def split: if_splits)

lemma talk_say [simp]:
  "nt_secret (session_say label l t) = nt_secret t" "nt_handler (session_say label l t) = nt_handler t"
  "nt_calls (session_say label l t) = nt_calls t"
  by (simp_all add: session_say_def)

section \<open>Webhooks\<close>

definition genuine_talk :: "(js \<Rightarrow> js \<Rightarrow> int list) \<Rightarrow> (js \<Rightarrow> js) \<Rightarrow> talk \<Rightarrow> talk_request \<Rightarrow> bool" where
  "genuine_talk hmac lower t req =
     verifyTalkSignature hmac lower (nt_secret t) (tq_random req) (tq_rawBody req) (tq_signature req)"

text \<open>What a request may change but the log.\<close>

definition talk_view :: "talk \<Rightarrow> js \<times> nat option \<times> (nat \<times> talk_event) list" where
  "talk_view t = (nt_secret t, nt_handler t, nt_calls t)"

interpretation talk_route: signed_route talk_view "genuine_talk hmac lower" "handleRequest hmac lower rt parse"
  for hmac :: "js \<Rightarrow> js \<Rightarrow> int list" and lower :: "js \<Rightarrow> js" and rt :: runtime and parse :: "js \<Rightarrow> json option"
proof
  fix s t :: talk and r :: talk_request
  show "\<not> genuine_talk hmac lower s r \<Longrightarrow> talk_view (snd (handleRequest hmac lower rt parse r s)) = talk_view s"
    by (simp add: genuine_talk_def handleRequest_def talk_view_def)
  have "nt_secret (snd (handleRequest hmac lower rt parse r s)) = nt_secret s"
    by (simp add: handleRequest_def split: option.splits talk_outcome.splits)
  then show "genuine_talk hmac lower (snd (handleRequest hmac lower rt parse r s)) = genuine_talk hmac lower s"
    by (simp add: genuine_talk_def fun_eq_iff)
  assume v: "talk_view s = talk_view t"
  then have "talk_view (snd (handleRequest hmac lower rt parse r s)) = talk_view (snd (handleRequest hmac lower rt parse r t))"
    by (auto simp: talk_view_def handleRequest_def split: option.splits talk_outcome.splits)
  with v show "genuine_talk hmac lower s = genuine_talk hmac lower t \<and>
    talk_view (snd (handleRequest hmac lower rt parse r s)) = talk_view (snd (handleRequest hmac lower rt parse r t))"
    by (simp add: genuine_talk_def talk_view_def fun_eq_iff)
qed

section \<open>Sends\<close>

lemma hex_digit_ascii: "hex_digit n < 0x80" "\<not> (65 \<le> hex_digit n \<and> hex_digit n \<le> 90)"
  by (auto simp: hex_digit_def)

lemma hex_ascii: "c \<in> set (hex bs) \<Longrightarrow> c < 0x80 \<and> \<not> (65 \<le> c \<and> c \<le> 90)"
  using hex_digit_ascii by (auto simp: hex_def)

lemma hex_empty: "hex bs = [] \<longleftrightarrow> bs = []"
  by (cases bs) (simp_all add: hex_def)

text \<open>\<open>toLowerCase\<close> as far as it matters: it leaves ASCII without capitals alone.\<close>

definition keeps_lower :: "(js \<Rightarrow> js) \<Rightarrow> bool" where
  "keeps_lower lower \<longleftrightarrow> (\<forall>s. (\<forall>c \<in> set s. c < 0x80 \<and> \<not> (65 \<le> c \<and> c \<le> 90)) \<longrightarrow> lower s = s)"

lemma keeps_hex: "keeps_lower lower \<Longrightarrow> lower (hex bs) = hex bs"
  using hex_ascii by (auto simp: keeps_lower_def)

lemma own_signature_verifies:
  assumes "keeps_lower lower" "random \<noteq> []" "hmac secret (random @ text) \<noteq> []"
  shows "verifyTalkSignature hmac lower secret (Some random) text (Some (talkSignature hmac secret random text))"
  using assms keeps_hex [of lower "hmac secret (random @ text)"] hex_empty
  by (simp add: verifyTalkSignature_def talkSignature_def Let_def)

definition took :: "talk_post \<times> int option \<Rightarrow> bool" where
  "took p \<longleftrightarrow> snd p = Some 201"

lemma sendParts_posts:
  assumes "sendParts hmac randoms fetch t room parts index ps first s = (r, s')"
  shows "\<exists>n posts. ts_posts s' = ts_posts s @ posts \<and> map (\<lambda>p. tp_message (fst p)) posts = take n ps \<and>
    list_all (\<lambda>p. \<exists>k. fst p = talk_request_for hmac randoms t room (tp_message (fst p)) k) posts \<and>
    list_all took (butlast posts) \<and> (sr_ok r \<longleftrightarrow> length posts = length ps \<and> list_all took posts)"
  using assms
proof (induction ps arbitrary: index first s)
  case Nil
  then show ?case by (intro exI [of _ 0] exI [of _ "[]"]) auto
next
  case (Cons p ps)
  obtain result s1 where p: "post_part hmac randoms fetch t room p s = (result, s1)" by fastforce
  obtain status where s1: "ts_posts s1 = ts_posts s @ [(talk_request_for hmac randoms t room p (ts_drawn s), status)]"
    and ok: "sr_ok result \<longleftrightarrow> status = Some 201"
    using p by (auto simp: post_part_def Let_def sendError_def split: prod.splits outcome.splits if_splits)
  let ?p = "(talk_request_for hmac randoms t room p (ts_drawn s), status)"
  have m: "tp_message (fst ?p) = p" by (simp add: talk_request_for_def)
  have tk: "took ?p \<longleftrightarrow> sr_ok result" using ok by (simp add: took_def)
  show ?case
  proof (cases "sr_ok result")
    case True
    then have "sendParts hmac randoms fetch t room parts (Suc index) ps (if first = None then sr_messageId result else first) s1 = (r, s')"
      using Cons.prems p by simp
    from Cons.IH [OF this] obtain n posts where h: "ts_posts s' = ts_posts s1 @ posts"
      "map (\<lambda>p. tp_message (fst p)) posts = take n ps"
      "list_all (\<lambda>p. \<exists>k. fst p = talk_request_for hmac randoms t room (tp_message (fst p)) k) posts"
      "list_all took (butlast posts)" "sr_ok r \<longleftrightarrow> length posts = length ps \<and> list_all took posts" by blast
    show ?thesis using h s1 m tk True
      by (intro exI [of _ "Suc n"] exI [of _ "?p # posts"]) auto
  next
    case False
    then have "s' = s1" "\<not> sr_ok r" using Cons.prems p by (auto split: option.splits if_splits)
    then show ?thesis using s1 m tk False
      by (intro exI [of _ 1] exI [of _ "[?p]"]) auto
  qed
qed


section \<open>Properties\<close>

text \<open>
  C36: whatever the order of connects, answers and disconnects: a listener that started is the one held or was
  stopped, and the adapter counts as connected exactly while it holds one.
\<close>
theorem talk_listeners_are_held:
  assumes "newTalkAdapter secret baseUrl = Inr t0" "t = foldl (talk_step hmac lower rt parse) t0 es"
  shows "set (sn_up t) - set (sn_down t) = set_option (sn_server t) \<and> (sn_connected t \<longleftrightarrow> sn_server t \<noteq> None)"
  using inv_listeners [OF talk_run_keeps [OF new_talk [OF assms(1)]]] unfolding assms(2) listeners_ok_def by blast

text \<open>
  A webhook whose signature does not hold reaches nothing but the log: the handlers are called as by the
  genuine requests alone.
\<close>
theorem forged_talk_webhooks_call_nobody:
  "nt_calls (foldl (\<lambda>t req. snd (handleRequest hmac lower rt parse req t)) t reqs) =
   nt_calls (foldl (\<lambda>t req. snd (handleRequest hmac lower rt parse req t)) t (filter (genuine_talk hmac lower t) reqs))"
  using talk_route.forged_requests_are_invisible [of hmac lower rt parse t reqs] by (simp add: talk_view_def)

text \<open>
  A message a person wrote is taken or refused, never lost between the two: 200 means that the handler
  subscribed then was called with it once, any other status that nobody was.
\<close>
theorem talk_messages_are_taken_or_refused:
  assumes "genuine_talk hmac lower t req" "parseObject parse (tq_rawBody req) = Some body"
    "talkBodyToMessageEvent rt parse body (rt_now rt) = Some (TalkEvent event)"
    "handleRequest hmac lower rt parse req t = (answer, t')"
  shows "if answer = Some (200, None) then \<exists>h. nt_handler t = Some h \<and> t' = t\<lparr>nt_calls := nt_calls t @ [(h, event)]\<rparr>
     else answer = Some (503, Some (lit ''no handler'')) \<and> nt_handler t = None \<and> t' = t"
  using assms by (auto simp: handleRequest_def genuine_talk_def split: option.splits)

text \<open>
  C37: what a send posts to a room: the parts of the text from the first on, each within Talk's limit of code
  points and each under a signature that the adapter's own check accepts. It answers ok exactly when Talk
  took every part, and it stops at the first that was not taken.
\<close>
theorem talk_posts_are_signed:
  assumes "keeps_lower lower" "\<And>n. randoms n \<noteq> []" "\<And>k m. hmac k m \<noteq> []"
    and "talk_sendMessage stringify hmac randoms fetch out t s = Some (r, t', s')"
  shows "\<exists>parts n posts. concat parts = out_text out \<and> list_all (\<lambda>p. length (code_points p) \<le> 32000) parts \<and>
    ts_posts s' = ts_posts s @ posts \<and> map (\<lambda>p. tp_message (fst p)) posts = take n parts \<and>
    list_all (\<lambda>p. verifyTalkSignature hmac lower (nt_secret t) (Some (tp_random (fst p))) (tp_message (fst p))
      (Some (tp_signature (fst p)))) posts \<and>
    list_all took (butlast posts) \<and> (sr_ok r \<longleftrightarrow> parts \<noteq> [] \<and> length posts = length parts \<and> list_all took posts)"
proof -
  obtain parts where parts: "splitForTalk (out_text out) None = Inr parts" using talk.splits_total by blast
  have cut: "list_all (\<lambda>p. length (code_points p) \<le> 32000) parts"
    using talk.splits_fit [OF parts] by (auto simp: list_all_iff TALK_MAX_LENGTH_def)
  have whole: "concat parts = out_text out" using talk.splits_content [OF parts] by simp
  obtain t1 where t1: "talk_textFor out t = (out_text out, t1)" "nt_secret t1 = nt_secret t"
    by (cases "out_format out = Some Html \<and> \<not> nt_warnedAboutHtml t") (simp_all add: talk_textFor_def)
  consider "s' = s" "\<not> sr_ok r"
    | "out_text out \<noteq> []" "sendParts hmac randoms fetch t1 (ch_id (out_channel out)) (length parts) 0 parts None s = (r, s')"
    using assms(4) parts t1(1)
    by (auto simp: talk_sendMessage_def Let_def split: if_splits prod.splits)
  then show ?thesis
  proof cases
    case 1
    have "length ([] :: (talk_post \<times> int option) list) = length parts \<longrightarrow> parts = []" by simp
    then show ?thesis using 1 cut whole by (intro exI [of _ parts] exI [of _ 0] exI [of _ "[]"]) auto
  next
    case 2
    have some: "parts \<noteq> []" using whole 2(1) by auto
    have signed: "verifyTalkSignature hmac lower (nt_secret t) (Some (tp_random p)) (tp_message p) (Some (tp_signature p))"
      if "p = talk_request_for hmac randoms t1 room (tp_message p) k" for p room k
      using own_signature_verifies [OF assms(1), of "randoms k" hmac "nt_secret t" "tp_message p"] assms(2,3) t1(2)
      by (subst (1 3) that) (simp add: talk_request_for_def)
    from sendParts_posts [OF 2(2)] obtain n posts where "ts_posts s' = ts_posts s @ posts"
      "map (\<lambda>p. tp_message (fst p)) posts = take n parts"
      "list_all (\<lambda>p. \<exists>k. fst p = talk_request_for hmac randoms t1 (ch_id (out_channel out)) (tp_message (fst p)) k) posts"
      "list_all took (butlast posts)" "sr_ok r \<longleftrightarrow> length posts = length parts \<and> list_all took posts" by blast
    then show ?thesis using cut whole some signed
      by (intro exI [of _ parts] exI [of _ n] exI [of _ posts]) (auto simp: list_all_iff)
  qed
qed


section \<open>Witnesses\<close>

definition fresh_talk :: talk where
  "fresh_talk = projr (newTalkAdapter (replicate 40 97) (lit ''https://c/''))"

definition has_bots :: capabilities where
  "has_bots = CapJson (JObj [(lit ''ocs'', JObj [(lit ''data'', JObj [(lit ''capabilities'', JObj [(lit ''spreed'',
     JObj [(lit ''features'', JArr [JStr (lit ''bots-v1'')])])])])])])"

definition talk_hmac :: "js \<Rightarrow> js \<Rightarrow> int list" where
  "talk_hmac k b = [171]"

definition overtaken_then_open :: "talk_step_event list" where
  "overtaken_then_open = [TalkConnect, FeaturesRead 0 has_bots, TalkDisconnect, TalkConnect, ListenerAnswers 0 None,
     FeaturesRead 1 has_bots, ListenerAnswers 1 None, ListenerStopped 0]"

definition open_talk :: talk where
  "open_talk = foldl (talk_step talk_hmac (\<lambda>s. s) no_numerals (\<lambda>s. None)) fresh_talk overtaken_then_open"

lemma fresh_talk_made: "newTalkAdapter (replicate 40 97) (lit ''https://c/'') = Inr fresh_talk"
  by (simp add: fresh_talk_def newTalkAdapter_def del: lit_simps)

theorem talk_listeners_are_held_witness:
  "sn_up open_talk = [0, 1] \<and> {0, 1} - set (sn_down open_talk) = {1 :: nat} \<and> sn_connected open_talk"
proof -
  have "sn_up open_talk = [0, 1]" "sn_server open_talk = Some 1" by code_simp+
  then show ?thesis using talk_listeners_are_held [OF fresh_talk_made open_talk_def] by simp
qed

definition talk_body :: json where
  "talk_body = JObj [(lit ''type'', JStr (lit ''Create'')),
     (lit ''actor'', JObj [(lit ''type'', JStr (lit ''Person'')), (lit ''id'', JStr (lit ''users/a''))]),
     (lit ''object'', JObj [(lit ''id'', JStr (lit ''7'')), (lit ''content'', JStr (lit ''c''))]),
     (lit ''target'', JObj [(lit ''id'', JStr (lit ''room1''))])]"

definition talk_parse :: "js \<Rightarrow> json option" where
  "talk_parse s = Some (if s = lit ''c'' then JObj [(lit ''message'', JStr (lit ''hi''))] else talk_body)"

definition talk_req :: talk_request where
  "talk_req = \<lparr>tq_random = Some [1], tq_signature = Some (lit ''ab''), tq_rawBody = [2]\<rparr>"

definition talk_said :: talk_event where
  "talk_said = \<lparr>nt_id = JStr (lit ''7''), nt_senderId = JStr (lit ''users/a''), nt_displayName = JStr (lit ''users/a''),
     nt_roomToken = JStr (lit ''room1''), nt_text = lit ''hi'', nt_receivedAt = 0, nt_replyToId = None, nt_raw = talk_body\<rparr>"

theorem talk_messages_are_taken_or_refused_witness:
  "handleRequest talk_hmac (\<lambda>s. s) no_numerals talk_parse talk_req fresh_talk = (Some (503, Some (lit ''no handler'')), fresh_talk)"
proof -
  have h: "genuine_talk talk_hmac (\<lambda>s. s) fresh_talk talk_req" by code_simp
  have p: "parseObject talk_parse (tq_rawBody talk_req) = Some talk_body"
    by (simp add: parseObject_def talk_parse_def talk_req_def talk_body_def)
  have e: "talkBodyToMessageEvent no_numerals talk_parse talk_body (rt_now no_numerals) = Some (TalkEvent talk_said)"
    by (simp add: talkBodyToMessageEvent_def talk_body_def talk_said_def messageOf_def talk_parse_def no_numerals_def)
  have n: "nt_handler fresh_talk = None" by (simp add: fresh_talk_def newTalkAdapter_def)
  obtain answer t' where r: "handleRequest talk_hmac (\<lambda>s. s) no_numerals talk_parse talk_req fresh_talk = (answer, t')" by fastforce
  show ?thesis using talk_messages_are_taken_or_refused [OF h p e r] n unfolding r by (auto split: if_splits)
qed

definition talk_out :: outbound where
  "talk_out = \<lparr>out_channel = \<lparr>ch_id = lit ''room1'', ch_type = Group, ch_topicId = None\<rparr>, out_text = lit ''hi'',
     out_format = None, out_replyTo = None\<rparr>"

theorem talk_posts_are_signed_witness:
  "\<exists>p. verifyTalkSignature talk_hmac (\<lambda>s. s) (nt_secret open_talk) (Some (tp_random p)) (lit ''hi'') (Some (tp_signature p)) \<and>
     snd (snd (the (talk_sendMessage (\<lambda>s. s) talk_hmac (\<lambda>n. [7]) (\<lambda>p w. (Returned 201, w)) talk_out open_talk
       \<lparr>ts_world = (), ts_drawn = 0, ts_posts = []\<rparr>))) = \<lparr>ts_world = (), ts_drawn = 2, ts_posts = [(p, Some 201)]\<rparr>"
proof -
  let ?r = "talk_sendMessage (\<lambda>s. s) talk_hmac (\<lambda>n. [7]) (\<lambda>p w. (Returned 201, w)) talk_out open_talk
       \<lparr>ts_world = (), ts_drawn = 0, ts_posts = []\<rparr>"
  let ?p = "talk_request_for talk_hmac (\<lambda>n. [7]) open_talk (lit ''room1'') (lit ''hi'') 0"
  have parts: "splitForTalk (lit ''hi'') None = Inr [lit ''hi'']"
    by (simp add: splitForTalk_def TALK_MAX_LENGTH_def talk_cut.simps [of _ 32000 0] talk_cut.simps [of _ 32000 32000] is_high_def)
  have "sn_connected open_talk" by code_simp
  then have r: "?r = Some (send_ok (Some [7]), open_talk, \<lparr>ts_world = (), ts_drawn = 2, ts_posts = [(?p, Some 201)]\<rparr>)"
    by (simp add: talk_sendMessage_def talk_out_def room_token_def talk_textFor_def parts [simplified] post_part_def Let_def talk_request_for_def)
  have m: "tp_message ?p = lit ''hi''" by (simp add: talk_request_for_def)
  have k: "keeps_lower (\<lambda>s. s)" "\<And>n :: nat. [7 :: int] \<noteq> []" "\<And>k m. talk_hmac k m \<noteq> []"
    by (simp_all add: keeps_lower_def talk_hmac_def)
  from talk_posts_are_signed [OF k r] m show ?thesis by (intro exI [of _ ?p]) (auto simp: r simp del: lit_simps)
qed

end
