(* ===== verification/GoogleChatToken.thy ===== *)
theory GoogleChatToken
  imports Json JsMap "HOL-Library.Multiset"
begin

text \<open>
  The tokens of Google Chat (\<open>gateway-google-chat/src\<close>: \<open>rs256.ts\<close>, \<open>verify-token.ts\<close>, \<open>key-set.ts\<close>,
  \<open>access-token.ts\<close>): the check of an inbound request, the cache of Google's keys as a machine over lookups and
  reads, the access token client as a machine over callers and exchanges. \<open>JSON.parse\<close>, base64url and RSA are
  parameters. Times are in ms; the sums of a clock and a lifetime are taken as exact.
\<close>

section \<open>Tokens\<close>

record 'k crypto =
  cy_parse :: "js \<Rightarrow> json option"
  cy_decode :: "js \<Rightarrow> js"
  cy_verify :: "js \<Rightarrow> 'k \<Rightarrow> js \<Rightarrow> bool option"
  cy_publicKey :: "json \<Rightarrow> 'k option"

record decoded_jwt =
  dj_header :: json_object
  dj_payload :: json_object
  dj_signedPart :: js
  dj_signature :: js

fun jwt_object :: "json option \<Rightarrow> json_object option" where
  "jwt_object (Some (JObj fs)) = Some fs"
| "jwt_object _ = None"

definition decodeJwt :: "'k crypto \<Rightarrow> js \<Rightarrow> decoded_jwt option" where
  "decodeJwt cy token =
     (case split_on 46 token of
        [header, payload, signature] \<Rightarrow>
          (case (jwt_object (cy_parse cy (cy_decode cy header)), jwt_object (cy_parse cy (cy_decode cy payload))) of
             (Some h, Some p) \<Rightarrow>
               Some \<lparr>dj_header = h, dj_payload = p, dj_signedPart = header @ [46] @ payload, dj_signature = signature\<rparr>
           | _ \<Rightarrow> None)
      | _ \<Rightarrow> None)"

text \<open>A verification that throws is no verification.\<close>

definition chatVerifiesRs256 :: "'k crypto \<Rightarrow> decoded_jwt \<Rightarrow> 'k \<Rightarrow> bool" where
  "chatVerifiesRs256 cy jwt key \<longleftrightarrow>
     map_of (dj_header jwt) (lit ''alg'') = Some (JStr (lit ''RS256'')) \<and> cy_verify cy (dj_signedPart jwt) key (dj_signature jwt) = Some True"

section \<open>The check of a request\<close>

definition ISSUERS :: "js list" where
  "ISSUERS = [lit ''https://accounts.google.com'', lit ''accounts.google.com'']"

definition CHAT_SERVICE_ACCOUNT :: js where
  "CHAT_SERVICE_ACCOUNT = lit ''chat@system.gserviceaccount.com''"

definition EXPIRY_SKEW_MS :: rat where
  "EXPIRY_SKEW_MS = 60000"

datatype chat_verdict = ChatAccepted | ChatRefused int js

definition refuse_token :: "string \<Rightarrow> chat_verdict" where
  "refuse_token reason = ChatRefused 401 (lit reason)"

definition not_expired :: "runtime \<Rightarrow> json option \<Rightarrow> bool" where
  "not_expired rt expiry \<longleftrightarrow>
     (case expiry of
        Some (JNum q) \<Rightarrow> (case rt_thousand rt q of Finite ms \<Rightarrow> rt_now rt < ms + EXPIRY_SKEW_MS | Infinite neg \<Rightarrow> \<not> neg | NaN \<Rightarrow> True)
      | _ \<Rightarrow> False)"

definition claimsFault :: "runtime \<Rightarrow> json_object \<Rightarrow> js \<Rightarrow> chat_verdict option" where
  "claimsFault rt claims audience =
     (if (case string_of (map_of claims (lit ''iss'')) of None \<Rightarrow> True | Some iss \<Rightarrow> iss \<notin> set ISSUERS)
      then Some (refuse_token ''wrong issuer'')
      else if map_of claims (lit ''aud'') \<noteq> Some (JStr audience) then Some (refuse_token ''wrong audience'')
      else if map_of claims (lit ''email'') \<noteq> Some (JStr CHAT_SERVICE_ACCOUNT) then Some (refuse_token ''not sent by Google Chat'')
      else if map_of claims (lit ''email_verified'') \<noteq> Some (JBool True)
      then Some (refuse_token ''the sender's email is not verified'')
      else if \<not> not_expired rt (map_of claims (lit ''exp'')) then Some (refuse_token ''the token has expired'')
      else None)"

text \<open>\<open>/^Bearer\s+(\S+)$/i\<close>: the letters in either case, white space, and a rest without any.\<close>

definition bearer_token :: "js \<Rightarrow> js option" where
  "bearer_token s =
     (let rest = drop 6 s; token = dropWhile is_space rest in
      if length s < 6 \<or> \<not> list_all2 letter_of (lit ''bearer'') (take 6 s) then None
      else if takeWhile is_space rest = [] \<or> token = [] \<or> list_ex is_space token then None
      else Some token)"

datatype 'k key_answer = KeyFound 'k | KeyUnknown | KeysUnavailable js

definition verifyChatRequest ::
    "runtime \<Rightarrow> 'k crypto \<Rightarrow> (js \<Rightarrow> 'k key_answer) \<Rightarrow> js \<Rightarrow> js option \<Rightarrow> chat_verdict" where
  "verifyChatRequest rt cy forKid audience authorization =
     (case bearer_token (case authorization of None \<Rightarrow> [] | Some a \<Rightarrow> a) of
        None \<Rightarrow> refuse_token ''no bearer token''
      | Some token \<Rightarrow>
          (case decodeJwt cy token of
             None \<Rightarrow> refuse_token ''the token is not a JWT''
           | Some jwt \<Rightarrow>
               (case string_of (map_of (dj_header jwt) (lit ''kid'')) of
                  None \<Rightarrow> refuse_token ''the token names no key''
                | Some kid \<Rightarrow>
                    (case forKid kid of
                       KeysUnavailable reason \<Rightarrow> ChatRefused 503 reason
                     | KeyUnknown \<Rightarrow> refuse_token ''the token's key is not in Google's published set''
                     | KeyFound key \<Rightarrow>
                         if \<not> chatVerifiesRs256 cy jwt key then refuse_token ''the signature does not verify''
                         else (case claimsFault rt (dj_payload jwt) audience of None \<Rightarrow> ChatAccepted | Some v \<Rightarrow> v)))))"

section \<open>Google's keys\<close>

definition UNKNOWN_KID_REFETCH_FLOOR_MS :: rat where
  "UNKNOWN_KID_REFETCH_FLOOR_MS = 60000"

text \<open>The RSA keys of a document by \<open>kid\<close>; \<open>cy_publicKey\<close> is \<open>createPublicKey\<close> where it answers an RSA key.\<close>

definition add_key :: "'k crypto \<Rightarrow> (js, 'k) jsmap \<Rightarrow> json \<Rightarrow> (js, 'k) jsmap" where
  "add_key cy keys entry =
     (case string_of (member_of entry (lit ''kid'')) of
        None \<Rightarrow> keys
      | Some kid \<Rightarrow>
          if kid = [] then keys
          else (case cy_publicKey cy entry of None \<Rightarrow> keys | Some key \<Rightarrow> jm_set kid key keys))"

definition rsaKeys :: "'k crypto \<Rightarrow> json \<Rightarrow> (js, 'k) jsmap" where
  "rsaKeys cy document =
     (case member_of document (lit ''keys'') of Some (JArr entries) \<Rightarrow> foldl (add_key cy) [] entries | _ \<Rightarrow> [])"

text \<open>\<open>/(?:^|,)\s*max-age=(\d+)/i\<close>: the digits of the first directive that begins so.\<close>

definition decimal_digit :: "cu \<Rightarrow> bool" where
  "decimal_digit c \<longleftrightarrow> 48 \<le> c \<and> c \<le> 57"

definition same_char :: "cu \<Rightarrow> cu \<Rightarrow> bool" where
  "same_char x c \<longleftrightarrow> c = x \<or> (97 \<le> x \<and> x \<le> 122 \<and> c = x - 32)"

definition max_age_here :: "js \<Rightarrow> js option" where
  "max_age_here s =
     (let t = dropWhile is_space s; digits = takeWhile decimal_digit (drop 8 t) in
      if length t < 8 \<or> \<not> list_all2 same_char (lit ''max-age='') (take 8 t) \<or> digits = [] then None else Some digits)"

fun max_age_after_comma :: "js \<Rightarrow> js option" where
  "max_age_after_comma [] = None"
| "max_age_after_comma (c # s) =
     (if c = 44 then (case max_age_here s of Some d \<Rightarrow> Some d | None \<Rightarrow> max_age_after_comma s)
      else max_age_after_comma s)"

definition maxAgeMs :: "runtime \<Rightarrow> js option \<Rightarrow> number" where
  "maxAgeMs rt cacheControl =
     (let s = (case cacheControl of None \<Rightarrow> [] | Some h \<Rightarrow> h) in
      case (case max_age_here s of Some d \<Rightarrow> Some d | None \<Rightarrow> max_age_after_comma s) of
        None \<Rightarrow> Finite 0
      | Some digits \<Rightarrow> (case rt_number rt digits of Finite q \<Rightarrow> rt_thousand rt q | x \<Rightarrow> x))"

definition after_now :: "rat \<Rightarrow> number \<Rightarrow> number" where
  "after_now now d = (case d of Finite q \<Rightarrow> Finite (now + q) | x \<Rightarrow> x)"

definition before :: "rat \<Rightarrow> number \<Rightarrow> bool" where
  "before now t \<longleftrightarrow> (case t of Finite q \<Rightarrow> now < q | Infinite neg \<Rightarrow> \<not> neg | NaN \<Rightarrow> False)"

record 'k held_keys =
  hk_keys :: "(js, 'k) jsmap"
  hk_freshUntil :: number

text \<open>The answer to a read: the name of what \<open>fetch\<close> threw, or a status, a document (\<open>None\<close>: no JSON) and its header.\<close>

datatype keys_response = KeysThrew js | KeysResponse int "json option" "js option"

definition http_ok :: "int \<Rightarrow> bool" where
  "http_ok status \<longleftrightarrow> 200 \<le> status \<and> status \<le> 299"

definition readGoogleKeySet :: "runtime \<Rightarrow> 'k crypto \<Rightarrow> keys_response \<Rightarrow> js + 'k held_keys" where
  "readGoogleKeySet rt cy response =
     (case response of
        KeysThrew errName \<Rightarrow> Inl (lit ''the request failed ('' @ errName @ lit '')'')
      | KeysResponse status doc cacheControl \<Rightarrow>
          if \<not> http_ok status then Inl (lit ''HTTP '' @ dec (nat status))
          else (case doc of
            None \<Rightarrow> Inl (lit ''the document is not JSON'')
          | Some d \<Rightarrow>
              if rsaKeys cy d = [] then Inl (lit ''the document lists no usable RSA key'')
              else Inr \<lparr>hk_keys = rsaKeys cy d, hk_freshUntil = after_now (rt_now rt) (maxAgeMs rt cacheControl)\<rparr>))"

text \<open>
  The cache. \<open>gk_waiting\<close> are the lookups that await the read in flight, \<open>gk_answers\<close> what each lookup got,
  \<open>gk_starts\<close> when each read started; no start yet is minus infinity.
\<close>

record 'k key_cache =
  gk_held :: "'k held_keys option"
  gk_lastReadStartedAt :: "rat option"
  gk_reading :: bool
  gk_lastFailure :: js
  gk_waiting :: "(nat \<times> js) list"
  gk_answers :: "(nat \<times> js \<times> 'k key_answer) list"
  gk_starts :: "rat list"

definition googleKeySet :: "'k key_cache" where
  "googleKeySet = \<lparr>gk_held = None, gk_lastReadStartedAt = None, gk_reading = False,
     gk_lastFailure = lit ''no read has completed'', gk_waiting = [], gk_answers = [], gk_starts = []\<rparr>"

definition key_answer_now :: "js \<Rightarrow> js \<Rightarrow> 'k key_cache \<Rightarrow> 'k key_answer" where
  "key_answer_now url kid g =
     (case gk_held g of
        None \<Rightarrow> KeysUnavailable (lit ''Google's key set at '' @ url @ lit '' could not be read: '' @ gk_lastFailure g)
      | Some h \<Rightarrow> (case jm_get (hk_keys h) kid of None \<Rightarrow> KeyUnknown | Some key \<Rightarrow> KeyFound key))"

definition answer_lookup :: "js \<Rightarrow> nat \<times> js \<Rightarrow> 'k key_cache \<Rightarrow> 'k key_cache" where
  "answer_lookup url q g = g\<lparr>gk_answers := gk_answers g @ [(fst q, snd q, key_answer_now url (snd q) g)]\<rparr>"

definition may_read :: "rat \<Rightarrow> 'k key_cache \<Rightarrow> bool" where
  "may_read now g \<longleftrightarrow>
     (case gk_lastReadStartedAt g of None \<Rightarrow> True | Some startedAt \<Rightarrow> UNKNOWN_KID_REFETCH_FLOOR_MS \<le> now - startedAt)"

definition forKid :: "js \<Rightarrow> rat \<Rightarrow> nat \<Rightarrow> js \<Rightarrow> 'k key_cache \<Rightarrow> 'k key_cache" where
  "forKid url now n kid g =
     (if (case gk_held g of None \<Rightarrow> False | Some h \<Rightarrow> before now (hk_freshUntil h) \<and> jm_get (hk_keys h) kid \<noteq> None)
      then answer_lookup url (n, kid) g
      else if gk_reading g then g\<lparr>gk_waiting := gk_waiting g @ [(n, kid)]\<rparr>
      else if may_read now g
      then g\<lparr>gk_reading := True, gk_lastReadStartedAt := Some now, gk_starts := gk_starts g @ [now],
             gk_waiting := gk_waiting g @ [(n, kid)]\<rparr>
      else answer_lookup url (n, kid) g)"

definition key_read_ends :: "js \<Rightarrow> js + 'k held_keys \<Rightarrow> 'k key_cache \<Rightarrow> 'k key_cache" where
  "key_read_ends url outcome g =
     (if \<not> gk_reading g then g
      else let g1 = (case outcome of Inl reason \<Rightarrow> g\<lparr>gk_lastFailure := reason\<rparr> | Inr h \<Rightarrow> g\<lparr>gk_held := Some h\<rparr>)
        in foldl (\<lambda>g q. answer_lookup url q g) (g1\<lparr>gk_reading := False, gk_waiting := []\<rparr>) (gk_waiting g))"

datatype key_event = KeyLookup rat nat js | KeyReadEnds runtime keys_response

fun key_step :: "js \<Rightarrow> 'k crypto \<Rightarrow> 'k key_cache \<Rightarrow> key_event \<Rightarrow> 'k key_cache" where
  "key_step url cy g (KeyLookup now n kid) = forKid url now n kid g"
| "key_step url cy g (KeyReadEnds rt response) = key_read_ends url (readGoogleKeySet rt cy response) g"

section \<open>Access tokens\<close>

definition REFRESH_MARGIN_MS :: rat where
  "REFRESH_MARGIN_MS = 60000"

definition ASSERTION_LIFETIME_S :: int where
  "ASSERTION_LIFETIME_S = 3600"

record assertion_claims =
  ac_iss :: js
  ac_scope :: js
  ac_aud :: js
  ac_iat :: int
  ac_exp :: int

definition assertion_for :: "js \<Rightarrow> rat \<Rightarrow> assertion_claims" where
  "assertion_for serviceAccountEmail now =
     (let issuedAt = floor (now / 1000) in
      \<lparr>ac_iss = serviceAccountEmail, ac_scope = lit ''https://www.googleapis.com/auth/chat.bot'',
       ac_aud = lit ''https://oauth2.googleapis.com/token'', ac_iat = issuedAt, ac_exp = issuedAt + ASSERTION_LIFETIME_S\<rparr>)"

text \<open>The answer to an exchange: how what \<open>fetch\<close> threw reads, or a status and a document (\<open>None\<close>: no JSON).\<close>

datatype token_response = TokenThrew js | TokenResponse int "json option"

record access_tokens =
  at_held :: "(js \<times> number) option"
  at_pending :: bool
  at_waiting :: "nat list"
  at_answers :: "(nat \<times> (js + js)) list"
  at_exchanges :: "assertion_claims list"

definition newAccessTokenClient :: access_tokens where
  "newAccessTokenClient = \<lparr>at_held = None, at_pending = False, at_waiting = [], at_answers = [], at_exchanges = []\<rparr>"

text \<open>\<open>now < expiresAt - REFRESH_MARGIN_MS\<close>.\<close>

definition lasts :: "rat \<Rightarrow> number \<Rightarrow> bool" where
  "lasts now expiresAt \<longleftrightarrow> before (now + REFRESH_MARGIN_MS) expiresAt"

definition access_token :: "js \<Rightarrow> rat \<Rightarrow> nat \<Rightarrow> access_tokens \<Rightarrow> access_tokens" where
  "access_token serviceAccountEmail now n c =
     (case at_held c of
        Some (token, expiresAt) \<Rightarrow>
          if lasts now expiresAt then c\<lparr>at_answers := at_answers c @ [(n, Inr token)]\<rparr>
          else if at_pending c then c\<lparr>at_waiting := at_waiting c @ [n]\<rparr>
          else c\<lparr>at_pending := True, at_waiting := at_waiting c @ [n], at_exchanges := at_exchanges c @ [assertion_for serviceAccountEmail now]\<rparr>
      | None \<Rightarrow>
          if at_pending c then c\<lparr>at_waiting := at_waiting c @ [n]\<rparr>
          else c\<lparr>at_pending := True, at_waiting := at_waiting c @ [n], at_exchanges := at_exchanges c @ [assertion_for serviceAccountEmail now]\<rparr>)"

definition exchanged :: "runtime \<Rightarrow> token_response \<Rightarrow> js + js \<times> number" where
  "exchanged rt response =
     (case response of
        TokenThrew described \<Rightarrow> Inl (lit ''token request failed: '' @ described)
      | TokenResponse status answer \<Rightarrow>
          (case (http_ok status, string_of (chained answer (lit ''access_token''))) of
             (True, Some token) \<Rightarrow>
               Inr (token, after_now (rt_now rt)
                 (case chained answer (lit ''expires_in'') of Some (JNum q) \<Rightarrow> rt_thousand rt q | _ \<Rightarrow> Finite 0))
           | _ \<Rightarrow> Inl (lit ''token endpoint answered HTTP '' @ dec (nat status)
               @ (case string_of (chained answer (lit ''error'')) of None \<Rightarrow> [] | Some e \<Rightarrow> lit '': '' @ e))))"

definition exchange_ends :: "js + js \<times> number \<Rightarrow> access_tokens \<Rightarrow> access_tokens" where
  "exchange_ends outcome c =
     (if \<not> at_pending c then c
      else c\<lparr>at_pending := False, at_waiting := [], at_held := (case outcome of Inr h \<Rightarrow> Some h | Inl e \<Rightarrow> at_held c),
        at_answers := at_answers c @ map (\<lambda>n. (n, case outcome of Inr h \<Rightarrow> Inr (fst h) | Inl e \<Rightarrow> Inl e)) (at_waiting c)\<rparr>)"

datatype token_event = TokenAsked rat nat | ExchangeEnds runtime token_response

fun token_client_step :: "js \<Rightarrow> access_tokens \<Rightarrow> token_event \<Rightarrow> access_tokens" where
  "token_client_step email c (TokenAsked now n) = access_token email now n c"
| "token_client_step email c (ExchangeEnds rt response) = exchange_ends (exchanged rt response) c"

section \<open>Lemmas\<close>

text \<open>Whatever is in a set of keys was made of an entry of the document with that \<open>kid\<close>.\<close>

lemma add_key_get:
  "jm_get (add_key cy keys entry) kid = Some key \<Longrightarrow>
     jm_get keys kid = Some key \<or> member_of entry (lit ''kid'') = Some (JStr kid) \<and> cy_publicKey cy entry = Some key"
  by (auto simp: add_key_def jm_get_def jm_set_def update_conv' string_of_iff simp del: lit_simps split: option.splits if_splits)

lemma rsaKeys_get:
  assumes "jm_get (rsaKeys cy doc) kid = Some key"
  shows "\<exists>entries. \<exists>entry \<in> set entries. member_of doc (lit ''keys'') = Some (JArr entries) \<and>
    member_of entry (lit ''kid'') = Some (JStr kid) \<and> cy_publicKey cy entry = Some key"
proof -
  have "jm_get keys kid = Some key \<or> (\<exists>entry \<in> set entries. member_of entry (lit ''kid'') = Some (JStr kid) \<and> cy_publicKey cy entry = Some key)"
    if "jm_get (foldl (add_key cy) keys entries) kid = Some key" for keys entries
    using that
  proof (induction entries arbitrary: keys)
    case (Cons e es)
    from Cons.IH [of "add_key cy keys e"] Cons.prems add_key_get [of cy keys e kid key] show ?case by (auto simp del: lit_simps)
  qed simp
  moreover obtain entries where "member_of doc (lit ''keys'') = Some (JArr entries)" "jm_get (foldl (add_key cy) [] entries) kid = Some key"
    using assms by (auto simp: rsaKeys_def jm_get_def simp del: lit_simps split: option.splits json.splits)
  ultimately show ?thesis by (fastforce simp: jm_get_def simp del: lit_simps)
qed

text \<open>A document that a read of the key set got.\<close>

definition read_documents :: "key_event list \<Rightarrow> json set" where
  "read_documents es = {doc. \<exists>rt status h. KeyReadEnds rt (KeysResponse status (Some doc) h) \<in> set es \<and> http_ok status}"

definition listed :: "'k crypto \<Rightarrow> json set \<Rightarrow> js \<Rightarrow> 'k \<Rightarrow> bool" where
  "listed cy docs kid key \<longleftrightarrow> (\<exists>doc \<in> docs. jm_get (rsaKeys cy doc) kid = Some key)"

fun spaced :: "rat \<Rightarrow> rat list \<Rightarrow> bool" where
  "spaced d (x # y # ys) \<longleftrightarrow> d \<le> y - x \<and> spaced d (y # ys)"
| "spaced d _ \<longleftrightarrow> True"

lemma spaced_snoc: "spaced d xs \<Longrightarrow> (xs \<noteq> [] \<Longrightarrow> d \<le> y - last xs) \<Longrightarrow> spaced d (xs @ [y])"
  by (induction d xs rule: spaced.induct) auto

definition cache_inv :: "'k crypto \<Rightarrow> json set \<Rightarrow> 'k key_cache \<Rightarrow> bool" where
  "cache_inv cy docs g \<longleftrightarrow>
     spaced UNKNOWN_KID_REFETCH_FLOOR_MS (gk_starts g) \<and>
     gk_lastReadStartedAt g = (if gk_starts g = [] then None else Some (last (gk_starts g))) \<and>
     (gk_waiting g \<noteq> [] \<longrightarrow> gk_reading g) \<and>
     (\<forall>h kid key. gk_held g = Some h \<longrightarrow> jm_get (hk_keys h) kid = Some key \<longrightarrow> listed cy docs kid key) \<and>
     (\<forall>n kid key. (n, kid, KeyFound key) \<in> set (gk_answers g) \<longrightarrow> listed cy docs kid key)"

lemma inv_answered:
  assumes "cache_inv cy docs g" shows "cache_inv cy docs (answer_lookup url q g)"
  using assms by (auto simp: cache_inv_def answer_lookup_def key_answer_now_def split: option.splits)

lemma inv_all_answered: "cache_inv cy docs g \<Longrightarrow> cache_inv cy docs (foldl (\<lambda>g q. answer_lookup url q g) g qs)"
  by (induction qs arbitrary: g) (simp_all add: inv_answered)

lemma inv_lookup:
  assumes "cache_inv cy docs g" shows "cache_inv cy docs (forKid url now n kid g)"
proof -
  have "cache_inv cy docs (g\<lparr>gk_reading := True, gk_lastReadStartedAt := Some now, gk_starts := gk_starts g @ [now],
      gk_waiting := gk_waiting g @ [(n, kid)]\<rparr>)" if "may_read now g"
    using assms that by (auto simp: cache_inv_def may_read_def intro!: spaced_snoc split: option.splits if_splits)
  moreover have "cache_inv cy docs (g\<lparr>gk_waiting := gk_waiting g @ [(n, kid)]\<rparr>)" if "gk_reading g"
    using assms that by (auto simp: cache_inv_def)
  moreover have "cache_inv cy docs (answer_lookup url (n, kid) g)" by (rule inv_answered [OF assms])
  ultimately show ?thesis
    by (cases "case gk_held g of None \<Rightarrow> False | Some h \<Rightarrow> before now (hk_freshUntil h) \<and> jm_get (hk_keys h) kid \<noteq> None";
      cases "gk_reading g"; cases "may_read now g") (simp_all only: forKid_def if_True if_False)
qed

lemma listed_mono: "listed cy docs kid key \<Longrightarrow> docs \<subseteq> docs' \<Longrightarrow> listed cy docs' kid key"
  by (auto simp: listed_def)

lemma inv_mono: "cache_inv cy docs g \<Longrightarrow> docs \<subseteq> docs' \<Longrightarrow> cache_inv cy docs' g"
  using listed_mono [of cy docs _ _ docs'] by (auto simp: cache_inv_def)

lemma read_listed:
  assumes "readGoogleKeySet rt cy response = Inr h" "jm_get (hk_keys h) kid = Some key"
  shows "\<exists>status doc hd. response = KeysResponse status (Some doc) hd \<and> http_ok status \<and> jm_get (rsaKeys cy doc) kid = Some key"
  using assms by (cases response) (auto simp: readGoogleKeySet_def split: if_splits option.splits)

lemma inv_read_ends:
  assumes "cache_inv cy docs g" "\<And>h kid key. outcome = Inr h \<Longrightarrow> jm_get (hk_keys h) kid = Some key \<Longrightarrow> listed cy docs kid key"
  shows "cache_inv cy docs (key_read_ends url outcome g)"
proof (cases "gk_reading g")
  case True
  let ?g1 = "case outcome of Inl reason \<Rightarrow> g\<lparr>gk_lastFailure := reason\<rparr> | Inr h \<Rightarrow> g\<lparr>gk_held := Some h\<rparr>"
  have "cache_inv cy docs (?g1\<lparr>gk_reading := False, gk_waiting := []\<rparr>)"
    using assms by (auto simp: cache_inv_def split: sum.splits)
  from inv_all_answered [OF this] True show ?thesis by (simp add: key_read_ends_def Let_def)
qed (use assms(1) in \<open>simp add: key_read_ends_def\<close>)

lemma cache_run: "cache_inv cy (read_documents es) (foldl (key_step url cy) googleKeySet es)"
proof (induction es rule: rev_induct)
  case Nil
  show ?case by (simp add: cache_inv_def googleKeySet_def)
next
  case (snoc e es)
  have sub: "read_documents es \<subseteq> read_documents (es @ [e])" by (auto simp: read_documents_def)
  note inv = inv_mono [OF snoc.IH sub]
  show ?case
  proof (cases e)
    case (KeyLookup now n kid)
    then show ?thesis using inv_lookup [OF inv, of url now n kid] by simp
  next
    case (KeyReadEnds rt response)
    have "listed cy (read_documents (es @ [e])) kid key" if "readGoogleKeySet rt cy response = Inr h" "jm_get (hk_keys h) kid = Some key" for h kid key
      using read_listed [OF that] by (auto simp: listed_def read_documents_def KeyReadEnds)
    then show ?thesis using inv_read_ends [OF inv, of "readGoogleKeySet rt cy response" url] by (simp add: KeyReadEnds)
  qed
qed

section \<open>Properties\<close>

lemma fault_is_refusal: "claimsFault rt claims audience \<noteq> Some ChatAccepted"
  by (simp add: claimsFault_def refuse_token_def)

lemma accepted_steps:
  assumes "verifyChatRequest rt cy lookup audience authorization = ChatAccepted"
  shows "\<exists>a token jwt kid key. authorization = Some a \<and> bearer_token a = Some token \<and> decodeJwt cy token = Some jwt \<and>
    map_of (dj_header jwt) (lit ''kid'') = Some (JStr kid) \<and> lookup kid = KeyFound key \<and> chatVerifiesRs256 cy jwt key \<and>
    claimsFault rt (dj_payload jwt) audience = None"
proof -
  obtain token where t: "bearer_token (case authorization of None \<Rightarrow> [] | Some a \<Rightarrow> a) = Some token"
    using assms by (auto simp: verifyChatRequest_def refuse_token_def split: option.splits)
  then obtain a where a: "authorization = Some a" by (cases authorization) (simp_all add: bearer_token_def)
  then have token: "bearer_token a = Some token" using t by simp
  obtain jwt where jwt: "decodeJwt cy token = Some jwt"
    using assms t by (auto simp: verifyChatRequest_def refuse_token_def split: option.splits)
  obtain kid where kid: "map_of (dj_header jwt) (lit ''kid'') = Some (JStr kid)"
    using assms t jwt by (auto simp: verifyChatRequest_def refuse_token_def string_of_iff simp del: lit_simps split: option.splits)
  obtain key where key: "lookup kid = KeyFound key"
    using assms t jwt kid by (auto simp: verifyChatRequest_def refuse_token_def simp del: lit_simps split: key_answer.splits)
  have "string_of (map_of (dj_header jwt) (lit ''kid'')) = Some kid" using kid by (simp only: string_of.simps)
  then have "verifyChatRequest rt cy lookup audience authorization =
    (if \<not> chatVerifiesRs256 cy jwt key then refuse_token ''the signature does not verify''
     else case claimsFault rt (dj_payload jwt) audience of None \<Rightarrow> ChatAccepted | Some v \<Rightarrow> v)"
    using t jwt key by (simp only: verifyChatRequest_def option.case key_answer.case)
  then have "chatVerifiesRs256 cy jwt key" "claimsFault rt (dj_payload jwt) audience = None"
    using assms fault_is_refusal [of rt "dj_payload jwt" audience]
    by (cases "chatVerifiesRs256 cy jwt key"; cases "claimsFault rt (dj_payload jwt) audience"; simp add: refuse_token_def)+
  then show ?thesis using a token jwt kid key by blast
qed

lemma decoded_parts:
  assumes "decodeJwt cy token = Some jwt"
  shows "\<exists>h p sig. split_on 46 token = [h, p, sig] \<and> dj_signedPart jwt = h @ [46] @ p \<and> dj_signature jwt = sig \<and>
    cy_parse cy (cy_decode cy h) = Some (JObj (dj_header jwt)) \<and> cy_parse cy (cy_decode cy p) = Some (JObj (dj_payload jwt))"
proof -
  have o: "v = Some (JObj fs)" if "jwt_object v = Some fs" for v fs using that by (cases v rule: jwt_object.cases) auto
  show ?thesis using assms by (auto simp: decodeJwt_def dest!: o split: list.splits option.splits)
qed

lemma claims_hold:
  assumes "claimsFault rt claims audience = None"
  shows "\<exists>iss q. map_of claims (lit ''iss'') = Some (JStr iss) \<and> iss \<in> {lit ''https://accounts.google.com'', lit ''accounts.google.com''} \<and>
    map_of claims (lit ''aud'') = Some (JStr audience) \<and>
    map_of claims (lit ''email'') = Some (JStr (lit ''chat@system.gserviceaccount.com'')) \<and>
    map_of claims (lit ''email_verified'') = Some (JBool True) \<and> map_of claims (lit ''exp'') = Some (JNum q) \<and>
    rt_thousand rt q \<noteq> Infinite True \<and> (\<forall>ms. rt_thousand rt q = Finite ms \<longrightarrow> rt_now rt - 60000 < ms)"
proof -
  have "not_expired rt (map_of claims (lit ''exp''))"
    using assms by (auto simp: claimsFault_def simp del: lit_simps split: if_splits)
  then obtain q where q: "map_of claims (lit ''exp'') = Some (JNum q)" "rt_thousand rt q \<noteq> Infinite True"
    "\<forall>ms. rt_thousand rt q = Finite ms \<longrightarrow> rt_now rt - 60000 < ms"
    by (auto simp: not_expired_def EXPIRY_SKEW_MS_def simp del: lit_simps split: option.splits json.splits number.splits)
  then show ?thesis using assms
    by (auto simp: claimsFault_def string_of_iff ISSUERS_def CHAT_SERVICE_ACCOUNT_def simp del: lit_simps split: if_splits option.splits)
qed

text \<open>
  C39: a request that passes was signed for this app by Chat: its header is a bearer token of three parts whose
  header names RS256 and a key; the first two parts verify under a key that a key document the cache has read
  lists under that name; and the payload names an issuer of Google's, this audience, Chat's account with a
  verified address, and an expiry that lies at most a minute, the skew allowed, in the past. What is looked up is
  taken from the answers of the key cache, after any run of lookups and reads.
\<close>
theorem accepted_chat_request_is_signed:
  assumes "verifyChatRequest rt cy lookup audience authorization = ChatAccepted"
    "\<And>kid key. lookup kid = KeyFound key \<Longrightarrow>
       \<exists>n. (n, kid, KeyFound key) \<in> set (gk_answers (foldl (key_step url cy) googleKeySet es))"
  shows "\<exists>a token h p sig hd pl kid key iss q. authorization = Some a \<and> bearer_token a = Some token \<and> split_on 46 token = [h, p, sig] \<and>
    cy_parse cy (cy_decode cy h) = Some (JObj hd) \<and> cy_parse cy (cy_decode cy p) = Some (JObj pl) \<and>
    map_of hd (lit ''alg'') = Some (JStr (lit ''RS256'')) \<and> map_of hd (lit ''kid'') = Some (JStr kid) \<and>
    listed cy (read_documents es) kid key \<and> cy_verify cy (h @ [46] @ p) key sig = Some True \<and>
    map_of pl (lit ''iss'') = Some (JStr iss) \<and> iss \<in> {lit ''https://accounts.google.com'', lit ''accounts.google.com''} \<and>
    map_of pl (lit ''aud'') = Some (JStr audience) \<and>
    map_of pl (lit ''email'') = Some (JStr (lit ''chat@system.gserviceaccount.com'')) \<and>
    map_of pl (lit ''email_verified'') = Some (JBool True) \<and> map_of pl (lit ''exp'') = Some (JNum q) \<and>
    rt_thousand rt q \<noteq> Infinite True \<and> (\<forall>ms. rt_thousand rt q = Finite ms \<longrightarrow> rt_now rt - 60000 < ms)"
proof -
  obtain a token jwt kid key where c: "authorization = Some a" "bearer_token a = Some token" "decodeJwt cy token = Some jwt"
    "map_of (dj_header jwt) (lit ''kid'') = Some (JStr kid)" "lookup kid = KeyFound key" "chatVerifiesRs256 cy jwt key"
    "claimsFault rt (dj_payload jwt) audience = None"
    using accepted_steps [OF assms(1)] by blast
  obtain h p sig where parts: "split_on 46 token = [h, p, sig]" "dj_signedPart jwt = h @ [46] @ p" "dj_signature jwt = sig"
    "cy_parse cy (cy_decode cy h) = Some (JObj (dj_header jwt))" "cy_parse cy (cy_decode cy p) = Some (JObj (dj_payload jwt))"
    using decoded_parts [OF c(3)] by blast
  obtain iss q where claims: "map_of (dj_payload jwt) (lit ''iss'') = Some (JStr iss)"
    "iss \<in> {lit ''https://accounts.google.com'', lit ''accounts.google.com''}" "map_of (dj_payload jwt) (lit ''aud'') = Some (JStr audience)"
    "map_of (dj_payload jwt) (lit ''email'') = Some (JStr (lit ''chat@system.gserviceaccount.com''))"
    "map_of (dj_payload jwt) (lit ''email_verified'') = Some (JBool True)" "map_of (dj_payload jwt) (lit ''exp'') = Some (JNum q)"
    "rt_thousand rt q \<noteq> Infinite True" "\<forall>ms. rt_thousand rt q = Finite ms \<longrightarrow> rt_now rt - 60000 < ms"
    using claims_hold [OF c(7)] by blast
  obtain n where "(n, kid, KeyFound key) \<in> set (gk_answers (foldl (key_step url cy) googleKeySet es))"
    using assms(2) [OF c(5)] by blast
  then have l: "listed cy (read_documents es) kid key" using cache_run [of cy es url] unfolding cache_inv_def by blast
  have signed: "map_of (dj_header jwt) (lit ''alg'') = Some (JStr (lit ''RS256''))" "cy_verify cy (h @ [46] @ p) key sig = Some True"
    using c(6) parts(2,3) by (simp_all only: chatVerifiesRs256_def simp_thms)
  show ?thesis by (intro exI conjI) (rule c(1,2,4) parts(1,4,5) signed l claims)+
qed

text \<open>
  Requests do not drive reads: whatever is asked and answered, two reads of Google's keys start at least a
  minute apart, and no lookup waits unless a read is in flight. A key is only ever answered for a name under
  which a document lists it that a read got.
\<close>
theorem google_key_reads_are_paced:
  fixes cy :: "'k crypto"
  shows "let g = foldl (key_step url cy) googleKeySet es in
    spaced 60000 (gk_starts g) \<and> (gk_reading g \<or> gk_waiting g = []) \<and>
    {(kid, key) | n kid key. (n, kid, KeyFound key) \<in> set (gk_answers g)} \<subseteq>
      {(kid, key) | kid key. listed cy (read_documents es) kid key}"
  using cache_run [where cy = cy and es = es and url = url] unfolding Let_def cache_inv_def UNKNOWN_KID_REFETCH_FLOOR_MS_def by blast

text \<open>Who asked for a token.\<close>

definition token_callers :: "token_event list \<Rightarrow> nat list" where
  "token_callers es = concat (map (\<lambda>e. case e of TokenAsked now n \<Rightarrow> [n] | _ \<Rightarrow> []) es)"

text \<open>
  Callers share exchanges: at most one is in flight, whoever asks meanwhile waits for it, and each caller is
  answered once for each time it asked, none twice and none forgotten.
\<close>
theorem token_callers_share_one_exchange:
  "let c = foldl (token_client_step email) newAccessTokenClient es in
     mset (map fst (at_answers c)) + mset (at_waiting c) = mset (token_callers es) \<and> (at_pending c \<longleftrightarrow> at_waiting c \<noteq> [])"
proof (induction es rule: rev_induct)
  case Nil
  show ?case by (simp add: newAccessTokenClient_def token_callers_def)
next
  case (snoc e es)
  then show ?case
    by (cases e) (auto simp: Let_def token_callers_def access_token_def exchange_ends_def multiset.map_comp comp_def split: option.splits)
qed

text \<open>
  A runtime small enough to evaluate: tokens are three texts, the JSON of each by its letter, and a signature
  verifies when it is the key.
\<close>

definition sample_rt :: runtime where
  "sample_rt = \<lparr>rt_number = \<lambda>s. NaN, rt_text = \<lambda>q. [], rt_thousand = \<lambda>q. Finite (1000 * q), rt_now = 5\<rparr>"

definition sample_header :: json_object where
  "sample_header = [(lit ''alg'', JStr (lit ''RS256'')), (lit ''kid'', JStr (lit ''k1''))]"

definition sample_payload :: json_object where
  "sample_payload = [(lit ''iss'', JStr (lit ''accounts.google.com'')), (lit ''aud'', JStr (lit ''https://app'')),
     (lit ''email'', JStr CHAT_SERVICE_ACCOUNT), (lit ''email_verified'', JBool True), (lit ''exp'', JNum 1)]"

definition sample_crypto :: "js crypto" where
  "sample_crypto = \<lparr>cy_parse = \<lambda>s. if s = lit ''h'' then Some (JObj sample_header) else if s = lit ''p'' then Some (JObj sample_payload) else None,
     cy_decode = \<lambda>s. s, cy_verify = \<lambda>m k s. Some (k = s), cy_publicKey = \<lambda>e. string_of (member_of e (lit ''n''))\<rparr>"

text \<open>The document of a read after a first lookup, and the answers that the cache then gives.\<close>

definition sample_reads :: "key_event list" where
  "sample_reads = [KeyLookup 5 0 (lit ''k1''), KeyReadEnds sample_rt (KeysResponse 200
     (Some (JObj [(lit ''keys'', JArr [JObj [(lit ''kid'', JStr (lit ''k1'')), (lit ''n'', JStr (lit ''s''))]])])) None)]"

definition sample_lookup :: "js \<Rightarrow> js key_answer" where
  "sample_lookup kid = (if kid = lit ''k1'' then KeyFound (lit ''s'') else KeyUnknown)"

lemma sample_passes:
  "verifyChatRequest sample_rt sample_crypto sample_lookup (lit ''https://app'') (Some (lit ''Bearer h.p.s'')) = ChatAccepted"
proof -
  have b: "bearer_token (lit ''Bearer h.p.s'') = Some (lit ''h.p.s'')" by code_simp
  have d: "decodeJwt sample_crypto (lit ''h.p.s'') = Some \<lparr>dj_header = sample_header, dj_payload = sample_payload,
      dj_signedPart = lit ''h.p'', dj_signature = lit ''s''\<rparr>" by (simp add: decodeJwt_def sample_crypto_def)
  have k: "string_of (map_of sample_header (lit ''kid'')) = Some (lit ''k1'')" by (simp add: sample_header_def)
  have v: "chatVerifiesRs256 sample_crypto \<lparr>dj_header = sample_header, dj_payload = sample_payload,
      dj_signedPart = lit ''h.p'', dj_signature = lit ''s''\<rparr> (lit ''s'')"
    by (simp add: chatVerifiesRs256_def sample_header_def sample_crypto_def)
  have c: "claimsFault sample_rt sample_payload (lit ''https://app'') = None"
    by (simp add: claimsFault_def sample_payload_def ISSUERS_def not_expired_def sample_rt_def EXPIRY_SKEW_MS_def)
  have l: "sample_lookup (lit ''k1'') = KeyFound (lit ''s'')" by (simp add: sample_lookup_def)
  show ?thesis
    unfolding verifyChatRequest_def option.case b d decoded_jwt.select_convs k l key_answer.case by (simp only: v c simp_thms if_False option.case)
qed

theorem accepted_chat_request_is_signed_witness:
  "\<exists>h p sig key. split_on 46 (lit ''h.p.s'') = [h, p, sig] \<and> cy_verify sample_crypto (h @ [46] @ p) key sig = Some True \<and>
     (\<exists>kid. listed sample_crypto (read_documents sample_reads) kid key)"
proof -
  have b: "bearer_token (lit ''Bearer h.p.s'') = Some (lit ''h.p.s'')" by code_simp
  have "gk_answers (foldl (key_step [] sample_crypto) googleKeySet sample_reads) = [(0, lit ''k1'', KeyFound (lit ''s''))]" by code_simp
  then have k: "\<exists>n. (n, kid, KeyFound key) \<in> set (gk_answers (foldl (key_step [] sample_crypto) googleKeySet sample_reads))"
    if "sample_lookup kid = KeyFound key" for kid key
    using that by (auto simp: sample_lookup_def simp del: lit_simps split: if_splits)
  obtain a token h p sig key kid where "Some (lit ''Bearer h.p.s'') = Some a" "bearer_token a = Some token" "split_on 46 token = [h, p, sig]"
    "listed sample_crypto (read_documents sample_reads) kid key" "cy_verify sample_crypto (h @ [46] @ p) key sig = Some True"
    using accepted_chat_request_is_signed [OF sample_passes k] by blast
  then show ?thesis using b by (auto simp del: lit_simps)
qed

end
