(* ===== verification/GoogleChat.thy ===== *)
theory GoogleChat
  imports Runner Dialect WebhookServer WebhookSession GoogleChatToken
begin

text \<open>
  The Google Chat adapter (\<open>gateway-google-chat/src\<close>: \<open>adapter.ts\<close>, \<open>normalize.ts\<close>, \<open>webhook-server.ts\<close>) over the
  session of \<open>WebhookSession\<close> and the token checks of \<open>GoogleChatToken\<close>. What the key set answers and what
  \<open>fetch\<close> and the token client answer are arguments.
\<close>

section \<open>Events\<close>

text \<open>A body is read as its declared type without a check, so names and text are whatever JSON value is there.\<close>

record chat_event =
  gc_id :: json
  gc_senderId :: json
  gc_displayName :: "json option"
  gc_space :: json
  gc_type :: chan_type
  gc_text :: json
  gc_receivedAt :: rat
  gc_spaceType :: "json option"
  gc_threadName :: "json option"
  gc_raw :: json

text \<open>\<open>message?.argumentText?.trim() ?? ""\<close>; \<open>None\<close> is the error of a value that has no \<open>trim\<close>.\<close>

fun trimmed_argument :: "json option \<Rightarrow> js option" where
  "trimmed_argument None = Some []"
| "trimmed_argument (Some JNull) = Some []"
| "trimmed_argument (Some (JStr s)) = Some (js_trim s)"
| "trimmed_argument _ = None"

definition textOf :: "json option \<Rightarrow> json option" where
  "textOf message =
     (case trimmed_argument (chained message (lit ''argumentText'')) of
        None \<Rightarrow> None
      | Some argument \<Rightarrow> Some (if argument = [] then or_default (chained message (lit ''text'')) (JStr []) else JStr argument))"

definition isDirectMessage :: "json option \<Rightarrow> bool" where
  "isDirectMessage spc \<longleftrightarrow> chained spc (lit ''type'') = Some (JStr (lit ''DM'')) \<or>
     chained spc (lit ''spaceType'') = Some (JStr (lit ''DIRECT_MESSAGE''))"

text \<open>The outer option is the error, the inner one \<open>undefined\<close>.\<close>

definition chatEventToMessageEvent :: "json \<Rightarrow> rat \<Rightarrow> chat_event option option" where
  "chatEventToMessageEvent body receivedAt =
     (if member_of body (lit ''type'') \<noteq> Some (JStr (lit ''MESSAGE'')) then Some None
      else let message = member_of body (lit ''message''); spc = member_of body (lit ''space''); user = member_of body (lit ''user'') in
        case textOf message of
          None \<Rightarrow> None
        | Some text \<Rightarrow>
            (case (chained message (lit ''name''), chained spc (lit ''name''), chained user (lit ''name'')) of
               (Some messageName, Some spaceName, Some senderId) \<Rightarrow>
                 if text = JStr [] then Some None
                 else Some (Some \<lparr>gc_id = messageName, gc_senderId = senderId,
                   gc_displayName = (case chained user (lit ''displayName'') of None \<Rightarrow> None | Some d \<Rightarrow> if js_truthy d then Some d else None),
                   gc_space = spaceName, gc_type = (if isDirectMessage spc then DM else Group), gc_text = text,
                   gc_receivedAt = receivedAt, gc_spaceType = chained spc (lit ''spaceType''),
                   gc_threadName = chained (chained message (lit ''thread'')) (lit ''name''), gc_raw = body\<rparr>)
             | _ \<Rightarrow> Some None))"

section \<open>The adapter\<close>

text \<open>\<open>gc_tokens\<close> is the attempt whose token client is kept; \<open>gc_calls\<close> is the calls made to handlers.\<close>

record chat = session +
  gc_audience :: js
  gc_tokens :: "nat option"
  gc_handler :: "nat option"
  gc_warnedAboutHtml :: bool
  gc_calls :: "(nat \<times> chat_event) list"

definition chat_label :: js where
  "chat_label = lit ''gateway-google-chat''"

definition newChatAdapter :: "js \<Rightarrow> chat" where
  "newChatAdapter audience =
     \<lparr>sn_server = None, sn_connected = False, sn_connecting = None, sn_generation = 0, sn_attempts = [], sn_next = 0,
      sn_answers = [], sn_up = [], sn_down = [], sn_log = [], gc_audience = audience, gc_tokens = None, gc_handler = None,
      gc_warnedAboutHtml = False, gc_calls = []\<rparr>"

definition chat_connect :: "chat \<Rightarrow> chat" where
  "chat_connect c = session_connect c"

text \<open>
  The check of an attempt: the key is read, then the first token is asked for. Its answers are an unreadable
  key, a token, the error of the exchange, or none in time.
\<close>

datatype first_token = BadKey thrown | GotToken | TokenFailed thrown | TokenTimeout

definition firstToken :: "first_token \<Rightarrow> js option" where
  "firstToken answer =
     (case answer of
        BadKey err \<Rightarrow> Some (lit ''connect failed: privateKey is not a PEM key: '' @ text_of err)
      | GotToken \<Rightarrow> None
      | TokenFailed err \<Rightarrow> Some (lit ''connect failed: '' @ text_of err)
      | TokenTimeout \<Rightarrow> Some (lit ''connect failed: no access token in time''))"

definition chat_checked :: "nat \<Rightarrow> first_token \<Rightarrow> chat \<Rightarrow> chat" where
  "chat_checked k answer c = session_checked chat_label k (firstToken answer) c"

text \<open>The token client is kept with the listener.\<close>

definition chat_listens :: "nat \<Rightarrow> thrown option \<Rightarrow> chat \<Rightarrow> chat" where
  "chat_listens k threw c =
     (let c1 = session_listens chat_label k threw c in
      if phase_of k c = Some (sn_generation c, StartingListener) \<and> threw = None then c1\<lparr>gc_tokens := Some k\<rparr> else c1)"

definition chat_stopped :: "nat \<Rightarrow> chat \<Rightarrow> chat" where
  "chat_stopped k c = session_stopped chat_label k c"

definition chat_cleared :: "nat \<Rightarrow> chat \<Rightarrow> chat" where
  "chat_cleared k c = session_cleared k c"

definition chat_disconnect :: "chat \<Rightarrow> chat" where
  "chat_disconnect c = session_disconnect c"

definition chat_onInbound :: "nat \<Rightarrow> chat \<Rightarrow> chat" where
  "chat_onInbound h c = c\<lparr>gc_handler := Some h\<rparr>"

definition chat_off :: "nat \<Rightarrow> chat \<Rightarrow> chat" where
  "chat_off h c = (if gc_handler c = Some h then c\<lparr>gc_handler := None\<rparr> else c)"

section \<open>Requests\<close>

record chat_request =
  cq_authorization :: "js option"
  cq_rawBody :: js

text \<open>
  \<open>handleRequest\<close> from the moment the key set has answered: the status and the error, \<open>None\<close> when it rejects.
  The handler is called and not awaited: what it does is other steps of the machine.
\<close>

definition chat_handleRequest ::
    "runtime \<Rightarrow> 'k crypto \<Rightarrow> (js \<Rightarrow> 'k key_answer) \<Rightarrow> chat_request \<Rightarrow> chat \<Rightarrow> (int \<times> js option) option \<times> chat" where
  "chat_handleRequest rt cy lookup req c =
     (case verifyChatRequest rt cy lookup (gc_audience c) (cq_authorization req) of
        ChatRefused status reason \<Rightarrow>
          (Some (status, Some reason),
           session_say chat_label (lit ''refused a request ('' @ dec (nat status) @ lit ''): '' @ reason) c)
      | ChatAccepted \<Rightarrow>
          (case cy_parse cy (cq_rawBody req) of
             None \<Rightarrow> (Some (400, Some (lit ''the body is not JSON'')), c)
           | Some (JObj fs) \<Rightarrow>
               (case chatEventToMessageEvent (JObj fs) (rt_now rt) of
                  None \<Rightarrow> (None, c)
                | Some None \<Rightarrow> (Some (200, None), c)
                | Some (Some event) \<Rightarrow>
                    (case gc_handler c of
                       None \<Rightarrow> (Some (503, Some (lit ''no handler'')), c)
                     | Some h \<Rightarrow> (Some (200, None), c\<lparr>gc_calls := gc_calls c @ [(h, event)]\<rparr>)))
           | Some body \<Rightarrow> (Some (400, Some (lit ''the body is not a JSON object'')), c)))"

text \<open>\<open>/^Bearer \S/\<close>, before the body is read.\<close>

definition bears_token :: "js option \<Rightarrow> bool" where
  "bears_token authorization =
     (case authorization of
        None \<Rightarrow> False
      | Some a \<Rightarrow> take 7 a = lit ''Bearer '' \<and> (case drop 7 a of [] \<Rightarrow> False | x # _ \<Rightarrow> \<not> is_space x))"

definition chat_route ::
    "runtime \<Rightarrow> 'k crypto \<Rightarrow> (js \<Rightarrow> 'k key_answer) \<Rightarrow> chat_request \<Rightarrow> chat \<Rightarrow> (int \<times> js option) option \<times> chat" where
  "chat_route rt cy lookup req c =
     (if \<not> bears_token (cq_authorization req)
      then (Some (401, Some (lit ''no bearer token'')), session_say chat_label (lit ''refused a request (401): no bearer token'') c)
      else chat_handleRequest rt cy lookup req c)"

definition chat_deliver :: "(nat \<Rightarrow> chat_event \<Rightarrow> ('w, unit) comp) \<Rightarrow> chat \<Rightarrow> chat_event \<Rightarrow> ('w, delivery) comp" where
  "chat_deliver handlers c event = runHandler (lit ''google_chat'') (map_option handlers (gc_handler c)) event"

section \<open>Runs\<close>

datatype chat_step_event =
    ChatConnect
  | FirstToken nat first_token
  | ChatListens nat "thrown option"
  | ChatStopped nat
  | ChatCleared nat
  | ChatDisconnect
  | ChatSubscribe nat
  | ChatUnsubscribe nat
  | ChatRequest runtime chat_request

fun chat_step :: "'k crypto \<Rightarrow> (js \<Rightarrow> 'k key_answer) \<Rightarrow> chat \<Rightarrow> chat_step_event \<Rightarrow> chat" where
  "chat_step cy lookup c ChatConnect = chat_connect c"
| "chat_step cy lookup c (FirstToken k answer) = chat_checked k answer c"
| "chat_step cy lookup c (ChatListens k threw) = chat_listens k threw c"
| "chat_step cy lookup c (ChatStopped k) = chat_stopped k c"
| "chat_step cy lookup c (ChatCleared k) = chat_cleared k c"
| "chat_step cy lookup c ChatDisconnect = chat_disconnect c"
| "chat_step cy lookup c (ChatSubscribe h) = chat_onInbound h c"
| "chat_step cy lookup c (ChatUnsubscribe h) = chat_off h c"
| "chat_step cy lookup c (ChatRequest rt req) = snd (chat_route rt cy lookup req c)"

section \<open>Sending\<close>

record chat_post =
  cp_url :: js
  cp_authorization :: js
  cp_text :: js

text \<open>The site of a send: the world, and the posts made.\<close>

record 'w chat_site =
  cs_world :: 'w
  cs_posts :: "chat_post list"

definition space_name :: "js \<Rightarrow> bool" where
  "space_name s \<longleftrightarrow> take 7 s = lit ''spaces/'' \<and> drop 7 s \<noteq> [] \<and>
     list_all (\<lambda>x. 48 \<le> x \<and> x \<le> 57 \<or> 65 \<le> x \<and> x \<le> 90 \<or> 97 \<le> x \<and> x \<le> 122 \<or> x = 95 \<or> x = 45) (drop 7 s)"

definition chat_textFor :: "outbound \<Rightarrow> chat \<Rightarrow> js \<times> chat" where
  "chat_textFor out c =
     (if out_format out = Some Markdown
      then (case channelRendering (lit ''google_chat'') of Inr r \<Rightarrow> translate r (out_text out) | Inl e \<Rightarrow> out_text out, c)
      else (out_text out,
        if out_format out = Some Html \<and> \<not> gc_warnedAboutHtml c
        then session_say chat_label (lit ''format='' @ quoted (lit ''html'')
            @ lit '' was declared and Google Chat has no html mode; sending the text unchanged. Logged once.'')
          (c\<lparr>gc_warnedAboutHtml := True\<rparr>)
        else c))"

text \<open>A response: its status and its document, \<open>None\<close> when it is not JSON.\<close>

definition chat_post_message ::
    "(chat_post \<Rightarrow> 'w \<Rightarrow> (int \<times> json option) outcome \<times> 'w) \<Rightarrow> js \<Rightarrow> js \<Rightarrow> js \<Rightarrow> 'w chat_site \<Rightarrow> send_result \<times> 'w chat_site" where
  "chat_post_message fetch spc text token s =
     (let req = \<lparr>cp_url = lit ''https://chat.googleapis.com/v1/'' @ spc @ lit ''/messages'',
            cp_authorization = lit ''Bearer '' @ token, cp_text = text\<rparr>;
          logged = (\<lambda>w. s\<lparr>cs_world := w, cs_posts := cs_posts s @ [req]\<rparr>)
      in case fetch req (cs_world s) of
        (Threw err, w) \<Rightarrow> (send_refused (lit ''google_chat_http_error'') (text_of err), logged w)
      | (Returned (status, answer), w) \<Rightarrow>
          (if \<not> http_ok status
           then send_refused (lit ''google_chat_http_error'') (lit ''Chat API answered HTTP '' @ dec (nat status))
           else send_ok (string_of (chained answer (lit ''name''))), logged w))"

text \<open>\<open>token\<close> is what the token client answers the send.\<close>

definition chat_sendMessage ::
    "('w \<Rightarrow> js outcome \<times> 'w) \<Rightarrow> (chat_post \<Rightarrow> 'w \<Rightarrow> (int \<times> json option) outcome \<times> 'w) \<Rightarrow> outbound \<Rightarrow> chat \<Rightarrow> 'w chat_site
       \<Rightarrow> send_result \<times> chat \<times> 'w chat_site" where
  "chat_sendMessage token fetch out c s =
     (let spc = ch_id (out_channel out) in
      if out_text out = [] then (send_refused (lit ''empty_text'') (lit ''outbound text is empty''), c, s)
      else if \<not> space_name spc
      then (send_refused (lit ''invalid_space'') (lit ''channel.id must be a space name, spaces/<id>, got '' @ quoted spc), c, s)
      else if \<not> sn_connected c \<or> gc_tokens c = None
      then (send_refused (lit ''not_connected'') (lit ''GoogleChatAdapter.connect() has not succeeded''), c, s)
      else case token (cs_world s) of
        (Threw err, w) \<Rightarrow> (send_refused (lit ''google_chat_auth_error'') (text_of err), c, s\<lparr>cs_world := w\<rparr>)
      | (Returned t, w) \<Rightarrow>
          (case chat_textFor out c of
             (text, c1) \<Rightarrow>
               (case chat_post_message fetch spc text t (s\<lparr>cs_world := w\<rparr>) of (r, s1) \<Rightarrow> (r, c1, s1))))"

section \<open>The session\<close>

definition chat_inv :: "chat \<Rightarrow> bool" where
  "chat_inv c \<longleftrightarrow> session_inv c \<and> (sn_connected c \<longrightarrow> gc_tokens c = sn_server c)"

lemma chat_say [simp]:
  "gc_audience (session_say label l c) = gc_audience c" "gc_handler (session_say label l c) = gc_handler c"
  "gc_calls (session_say label l c) = gc_calls c" "gc_tokens (session_say label l c) = gc_tokens c"
  by (simp_all add: session_say_def)

lemma chat_keeps [simp]:
  "session_inv (c\<lparr>gc_handler := h\<rparr>) = session_inv c" "session_inv (c\<lparr>gc_calls := cs\<rparr>) = session_inv c"
  "session_inv (c\<lparr>gc_tokens := ts\<rparr>) = session_inv c"
  by (simp_all add: session_inv_def attempt_ok_def listeners_ok_def phase_of_def)

lemma session_keeps_tokens [simp]:
  "gc_tokens (session_answer k ok c) = gc_tokens c" "gc_tokens (to_phase k p c) = gc_tokens c"
  "gc_tokens (session_connect c) = gc_tokens c" "gc_tokens (session_checked label k r c) = gc_tokens c"
  "gc_tokens (session_listens label k threw c) = gc_tokens c" "gc_tokens (session_stopped label k c) = gc_tokens c"
  "gc_tokens (session_cleared k c) = gc_tokens c"
  by (simp_all add: session_answer_def to_phase_def session_connect_def session_checked_def session_listens_def session_stopped_def
    session_cleared_def overtaken_def Let_def split: option.split session_phase.split)

text \<open>Only a listener that starts in time makes the adapter connected.\<close>

lemma stays_unconnected:
  "sn_connected (session_connect c) = sn_connected c" "sn_server (session_connect c) = sn_server c"
  "sn_connected (session_checked label k r c) = sn_connected c" "sn_server (session_checked label k r c) = sn_server c"
  "sn_connected (session_stopped label k c) = sn_connected c" "sn_server (session_stopped label k c) = sn_server c"
  "sn_connected (session_cleared k c) = sn_connected c" "sn_server (session_cleared k c) = sn_server c"
  by (simp_all add: session_connect_def session_checked_def session_stopped_def session_cleared_def overtaken_def split: option.split session_phase.split)

lemma listens_connects:
  "\<not> (phase_of k c = Some (sn_generation c, StartingListener) \<and> threw = None) \<Longrightarrow>
     sn_connected (session_listens label k threw c) = sn_connected c \<and> sn_server (session_listens label k threw c) = sn_server c"
  "phase_of k c = Some (sn_generation c, StartingListener) \<Longrightarrow> sn_server (session_listens label k None c) = Some k"
  by (auto simp: session_listens_def Let_def split: option.splits session_phase.splits)

lemma chat_route_keeps: "chat_inv c \<Longrightarrow> chat_inv (snd (chat_route rt cy lookup req c))"
  by (auto simp: chat_inv_def chat_route_def chat_handleRequest_def split: option.splits chat_verdict.splits json.splits)

lemma chat_step_keeps: "chat_inv c \<Longrightarrow> chat_inv (chat_step cy lookup c e)"
proof (cases e)
  case (ChatListens k threw)
  then show "chat_inv c \<Longrightarrow> ?thesis"
    using listens_connects(1) [of k c threw chat_label] listens_connects(2) [of k c chat_label] inv_listener [of c chat_label k threw]
    by (auto simp: chat_inv_def chat_listens_def Let_def)
next
  case ChatDisconnect
  then show "chat_inv c \<Longrightarrow> ?thesis" using inv_disconnect [of c]
    by (simp add: chat_inv_def chat_disconnect_def) (simp add: session_disconnect_def)
next
  case (ChatRequest rt req)
  then show "chat_inv c \<Longrightarrow> ?thesis" by (simp add: chat_route_keeps)
qed (simp_all add: chat_inv_def chat_connect_def chat_checked_def chat_stopped_def chat_cleared_def chat_onInbound_def chat_off_def
  stays_unconnected inv_connect inv_checked inv_stopped inv_cleared)

lemma chat_run_keeps: "chat_inv (foldl (chat_step cy lookup) (newChatAdapter audience) es)"
proof -
  have "chat_inv (newChatAdapter audience)" unfolding chat_inv_def
    by (intro conjI session_inv_fresh) (simp_all add: newChatAdapter_def fresh_session_def)
  then have "chat_inv c \<Longrightarrow> chat_inv (foldl (chat_step cy lookup) c es)" for c
    by (induction es arbitrary: c) (simp_all add: chat_step_keeps)
  then show ?thesis using \<open>chat_inv (newChatAdapter audience)\<close> by blast
qed

section \<open>Requests\<close>

definition genuine_chat :: "runtime \<Rightarrow> 'k crypto \<Rightarrow> (js \<Rightarrow> 'k key_answer) \<Rightarrow> chat \<Rightarrow> chat_request \<Rightarrow> bool" where
  "genuine_chat rt cy lookup c req \<longleftrightarrow> bears_token (cq_authorization req) \<and>
     verifyChatRequest rt cy lookup (gc_audience c) (cq_authorization req) = ChatAccepted"

text \<open>What a request may change but the log.\<close>

definition chat_view :: "chat \<Rightarrow> js \<times> nat option \<times> (nat \<times> chat_event) list" where
  "chat_view c = (gc_audience c, gc_handler c, gc_calls c)"

interpretation chat_webhook: signed_route chat_view "genuine_chat rt cy lookup" "chat_route rt cy lookup"
  for rt :: runtime and cy :: "'k crypto" and lookup :: "js \<Rightarrow> 'k key_answer"
proof
  fix s t :: chat and r :: chat_request
  show "\<not> genuine_chat rt cy lookup s r \<Longrightarrow> chat_view (snd (chat_route rt cy lookup r s)) = chat_view s"
    by (auto simp: genuine_chat_def chat_route_def chat_handleRequest_def chat_view_def split: chat_verdict.splits)
  have "gc_audience (snd (chat_route rt cy lookup r s)) = gc_audience s"
    by (simp add: chat_route_def chat_handleRequest_def split: option.splits chat_verdict.splits json.splits)
  then show "genuine_chat rt cy lookup (snd (chat_route rt cy lookup r s)) = genuine_chat rt cy lookup s"
    by (simp add: genuine_chat_def fun_eq_iff)
  assume v: "chat_view s = chat_view t"
  then have "chat_view (snd (chat_route rt cy lookup r s)) = chat_view (snd (chat_route rt cy lookup r t))"
    by (auto simp: chat_view_def chat_route_def chat_handleRequest_def split: option.splits chat_verdict.splits json.splits)
  with v show "genuine_chat rt cy lookup s = genuine_chat rt cy lookup t \<and>
    chat_view (snd (chat_route rt cy lookup r s)) = chat_view (snd (chat_route rt cy lookup r t))"
    by (simp add: genuine_chat_def chat_view_def fun_eq_iff)
qed

section \<open>Properties\<close>

text \<open>
  Whatever the order of connects, answers and disconnects: a listener that started is the one held or was
  stopped; the adapter counts as connected exactly while it holds one, and then sends with the token client
  of the attempt that started it.
\<close>
theorem chat_listeners_are_held:
  "let c = foldl (chat_step cy lookup) (newChatAdapter audience) es in
     set (sn_up c) - set (sn_down c) = set_option (sn_server c) \<and>
     (if sn_connected c then sn_server c \<noteq> None \<and> gc_tokens c = sn_server c else sn_server c = None)"
  using chat_run_keeps [of cy lookup audience es] unfolding Let_def chat_inv_def session_inv_def listeners_ok_def by auto

text \<open>
  A request that Chat did not sign for this app reaches nothing but the log: the handlers are called as by
  the genuine requests alone.
\<close>
theorem forged_chat_requests_call_nobody:
  "gc_calls (foldl (\<lambda>c req. snd (chat_route rt cy lookup req c)) c reqs) =
   gc_calls (foldl (\<lambda>c req. snd (chat_route rt cy lookup req c)) c (filter (genuine_chat rt cy lookup c) reqs))"
  using chat_webhook.forged_requests_are_invisible [of rt cy lookup c reqs] by (simp add: chat_view_def)

text \<open>
  The route's first check is stricter than the check proper: it refuses as bearing no token a header whose
  scheme is written in lower case, which the check accepts.
\<close>
theorem lower_case_bearer_is_refused:
  "\<exists>a. verifyChatRequest sample_rt sample_crypto sample_lookup (lit ''https://app'') (Some a) = ChatAccepted \<and>
     fst (chat_route sample_rt sample_crypto sample_lookup \<lparr>cq_authorization = Some a, cq_rawBody = b\<rparr> c) =
       Some (401, Some (lit ''no bearer token''))"
proof -
  have b: "bearer_token (lit ''bearer h.p.s'') = bearer_token (lit ''Bearer h.p.s'')" by code_simp
  have "verifyChatRequest sample_rt sample_crypto sample_lookup (lit ''https://app'') (Some (lit ''bearer h.p.s'')) = ChatAccepted"
    using sample_passes unfolding verifyChatRequest_def option.case b .
  moreover have "\<not> bears_token (Some (lit ''bearer h.p.s''))" by (simp add: bears_token_def)
  ultimately show ?thesis by (intro exI [of _ "lit ''bearer h.p.s''"]) (simp add: chat_route_def del: lit_simps)
qed

end
