(* ===== verification/ChildSession.thy ===== *)
theory ChildSession
  imports JsonRpc Runner
begin

text \<open>
  The session of the adapters that own a child process, Signal's and iMessage's, whose \<open>connect\<close>,
  \<open>openSession\<close>, \<open>startChild\<close>, \<open>endChild\<close> and \<open>onChildClosed\<close> are the same code but for names: a child is started,
  a first request tells whether it works, and it is ended or dropped when it closes. The adapters' records
  extend the session. The child's JSON-RPC client is \<open>JsonRpc\<close>'s; of it the session sees whether it is open and
  the outcomes its requests are answered with.
\<close>

section \<open>The session\<close>

text \<open>What a package calls itself, its program and the request that opens a session.\<close>

record child_kind =
  ck_label :: js
  ck_program :: js
  ck_method :: js

text \<open>
  Attempts and their children are numbered alike. \<open>cs_waiting\<close> is the attempts whose first request is not
  answered; \<open>cs_answers\<close> is what each attempt answered, \<open>None\<close> when it rejected; \<open>cs_started\<close> is the children
  started, \<open>cs_ended\<close> those the adapter ended, \<open>cs_closed\<close> those whose client closed by itself.
\<close>

record child_session =
  cs_current :: "nat option"
  cs_connected :: bool
  cs_connecting :: "nat option"
  cs_next :: nat
  cs_waiting :: "nat list"
  cs_answers :: "(nat \<times> bool option) list"
  cs_started :: "nat list"
  cs_ended :: "nat list"
  cs_closed :: "nat list"
  cs_log :: "js list"

definition child_say :: "child_kind \<Rightarrow> js \<Rightarrow> 'a child_session_scheme \<Rightarrow> 'a child_session_scheme" where
  "child_say kind line s = s\<lparr>cs_log := cs_log s @ [[91] @ ck_label kind @ lit ''] '' @ line @ [nl]]\<rparr>"

text \<open>The client of a child takes lines and requests until the adapter or the child closes it.\<close>

definition client_open :: "nat \<Rightarrow> 'a child_session_scheme \<Rightarrow> bool" where
  "client_open k s \<longleftrightarrow> k \<in> set (cs_started s) \<and> k \<notin> set (cs_ended s) \<and> k \<notin> set (cs_closed s)"

definition attempt_answers :: "nat \<Rightarrow> bool option \<Rightarrow> 'a child_session_scheme \<Rightarrow> 'a child_session_scheme" where
  "attempt_answers k ok s =
     s\<lparr>cs_waiting := filter (\<lambda>j. j \<noteq> k) (cs_waiting s), cs_answers := cs_answers s @ [(k, ok)]\<rparr>"

text \<open>
  \<open>connect\<close> up to the first await. A caller while an attempt is in flight shares its answer. \<open>threw\<close> is what
  spawning the child threw, if it did.
\<close>

definition child_connect :: "child_kind \<Rightarrow> thrown option \<Rightarrow> 'a child_session_scheme \<Rightarrow> 'a child_session_scheme" where
  "child_connect kind threw s =
     (if cs_connected s \<or> cs_connecting s \<noteq> None then s
      else let k = cs_next s; s1 = s\<lparr>cs_connecting := Some k, cs_next := Suc k\<rparr> in
        case threw of
          Some err \<Rightarrow>
            attempt_answers k (Some False)
              (child_say kind (lit ''connect failed: could not start '' @ ck_program kind @ lit '': '' @ text_of err) s1)
        | None \<Rightarrow> s1\<lparr>cs_started := cs_started s1 @ [k], cs_current := Some k, cs_waiting := cs_waiting s1 @ [k]\<rparr>)"

text \<open>
  Ending a child: its client is closed, its stdin ended and the child signalled, at once (Signal) or after a
  time to exit (iMessage). A second call does nothing.
\<close>

definition end_session :: "nat \<Rightarrow> 'a child_session_scheme \<Rightarrow> 'a child_session_scheme" where
  "end_session k s =
     (let s1 = (if cs_current s = Some k then s\<lparr>cs_current := None, cs_connected := False\<rparr> else s)
      in if k \<in> set (cs_ended s1) then s1 else s1\<lparr>cs_ended := cs_ended s1 @ [k]\<rparr>)"

definition describe_outcome :: "runtime \<Rightarrow> child_kind \<Rightarrow> rpc_outcome \<Rightarrow> js option" where
  "describe_outcome rt kind outcome =
     (case outcome of
        RpcError code message data \<Rightarrow>
          (case (js_String rt code, js_String rt message) of
             (Some c, Some m) \<Rightarrow> Some (ck_method kind @ lit '' answered '' @ c @ lit '': '' @ m)
           | _ \<Rightarrow> None)
      | RpcTimeout \<Rightarrow> Some (ck_method kind @ lit '' was not answered in time'')
      | _ \<Rightarrow> Some (ck_program kind @ lit '' ended before answering '' @ ck_method kind))"

text \<open>The first request is answered: the rest of \<open>openSession\<close>. A template that throws makes the attempt reject.\<close>

definition child_answered :: "runtime \<Rightarrow> child_kind \<Rightarrow> nat \<Rightarrow> rpc_outcome \<Rightarrow> 'a child_session_scheme \<Rightarrow> 'a child_session_scheme" where
  "child_answered rt kind k outcome s =
     (if k \<notin> set (cs_waiting s) then s
      else case outcome of
        RpcResult v \<Rightarrow>
          if cs_current s = Some k then attempt_answers k (Some True) (s\<lparr>cs_connected := True\<rparr>)
          else attempt_answers k (Some False) (child_say kind (lit ''connect failed: '' @ the (describe_outcome rt kind (RpcResult v))) s)
      | _ \<Rightarrow>
          (case describe_outcome rt kind outcome of
             None \<Rightarrow> attempt_answers k None s
           | Some line \<Rightarrow>
               let s1 = child_say kind (lit ''connect failed: '' @ line) s
               in attempt_answers k (Some False) (if cs_current s1 = Some k then end_session k s1 else s1)))"

text \<open>The \<open>finally\<close> of \<open>connect\<close>, some steps after the answer.\<close>

definition child_cleared :: "nat \<Rightarrow> 'a child_session_scheme \<Rightarrow> 'a child_session_scheme" where
  "child_cleared k s =
     (if k \<notin> set (cs_waiting s) \<and> cs_connecting s = Some k then s\<lparr>cs_connecting := None\<rparr> else s)"

text \<open>The client closes by itself, the child having failed or closed: \<open>onChildClosed\<close>.\<close>

definition child_closed :: "child_kind \<Rightarrow> nat \<Rightarrow> js \<Rightarrow> 'a child_session_scheme \<Rightarrow> 'a child_session_scheme" where
  "child_closed kind k reason s =
     (if \<not> client_open k s then s
      else let s1 = s\<lparr>cs_closed := cs_closed s @ [k]\<rparr> in
        if cs_current s1 = Some k
        then (child_say kind (ck_program kind @ lit '' '' @ reason) s1)\<lparr>cs_current := None, cs_connected := False\<rparr>
        else s1)"

definition fresh_child :: "'a child_session_scheme \<Rightarrow> bool" where
  "fresh_child s \<longleftrightarrow> cs_current s = None \<and> \<not> cs_connected s \<and> cs_connecting s = None \<and> cs_waiting s = [] \<and>
     cs_started s = [] \<and> cs_ended s = [] \<and> cs_closed s = []"

text \<open>What a send answers; the message of a refusal is what the child gave, a string by its declared type.\<close>

datatype child_send = Sent "js option" | NotSent js json

section \<open>The children\<close>

text \<open>
  Every child that runs is the current one; a session is connected only while it has one; at most one attempt
  waits, the one \<open>connect\<close> shares.
\<close>

definition child_inv :: "'a child_session_scheme \<Rightarrow> bool" where
  "child_inv s \<longleftrightarrow>
     (\<forall>k \<in> set (cs_started s). k < cs_next s) \<and> set (cs_ended s) \<union> set (cs_closed s) \<subseteq> set (cs_started s) \<and>
     (\<forall>k. client_open k s \<longleftrightarrow> cs_current s = Some k) \<and>
     (\<forall>k \<in> set (cs_waiting s). cs_connecting s = Some k \<and> \<not> cs_connected s) \<and>
     (cs_connected s \<longrightarrow> cs_current s \<noteq> None) \<and>
     (\<forall>k. cs_current s = Some k \<longrightarrow> cs_connected s \<or> k \<in> set (cs_waiting s))"

lemma child_invI:
  assumes "\<And>k. k \<in> set (cs_started s) \<Longrightarrow> k < cs_next s"
    "\<And>k. k \<in> set (cs_ended s) \<or> k \<in> set (cs_closed s) \<Longrightarrow> k \<in> set (cs_started s)"
    "\<And>k. client_open k s \<longleftrightarrow> cs_current s = Some k"
    "\<And>k. k \<in> set (cs_waiting s) \<Longrightarrow> cs_connecting s = Some k" "\<And>k. k \<in> set (cs_waiting s) \<Longrightarrow> \<not> cs_connected s"
    "cs_connected s \<Longrightarrow> cs_current s \<noteq> None"
    "\<And>k. cs_current s = Some k \<Longrightarrow> \<not> cs_connected s \<Longrightarrow> k \<in> set (cs_waiting s)"
  shows "child_inv s"
  unfolding child_inv_def using assms by blast

lemma child_invD:
  assumes "child_inv s"
  shows "k \<in> set (cs_started s) \<Longrightarrow> k < cs_next s" "k \<in> set (cs_ended s) \<or> k \<in> set (cs_closed s) \<Longrightarrow> k \<in> set (cs_started s)"
    "client_open k s \<longleftrightarrow> cs_current s = Some k"
    "k \<in> set (cs_waiting s) \<Longrightarrow> cs_connecting s = Some k" "k \<in> set (cs_waiting s) \<Longrightarrow> \<not> cs_connected s"
    "cs_connected s \<Longrightarrow> cs_current s \<noteq> None" "cs_current s = Some k \<Longrightarrow> \<not> cs_connected s \<Longrightarrow> k \<in> set (cs_waiting s)"
  using assms unfolding child_inv_def by blast+

lemma child_inv_fresh: "fresh_child s \<Longrightarrow> child_inv s"
  by (rule child_invI) (auto simp: fresh_child_def client_open_def)

text \<open>A step that leaves the children and what is known of them alone.\<close>

lemma child_inv_cong:
  assumes "cs_current s = cs_current t" "cs_connected s = cs_connected t" "cs_connecting s = cs_connecting t"
    "cs_next s = cs_next t" "cs_waiting s = cs_waiting t" "cs_started s = cs_started t" "cs_ended s = cs_ended t"
    "cs_closed s = cs_closed t"
  shows "child_inv s = child_inv t"
  using assms by (simp add: child_inv_def client_open_def)

lemma client_open_say [simp]: "client_open k (child_say kind l s) = client_open k s"
  by (simp add: child_say_def client_open_def)

lemma child_say_same [simp]:
  "cs_current (child_say kind l s) = cs_current s" "cs_waiting (child_say kind l s) = cs_waiting s"
  "cs_connected (child_say kind l s) = cs_connected s" "cs_connecting (child_say kind l s) = cs_connecting s"
  "cs_ended (child_say kind l s) = cs_ended s" "cs_started (child_say kind l s) = cs_started s"
  "cs_closed (child_say kind l s) = cs_closed s" "cs_next (child_say kind l s) = cs_next s"
  by (simp_all add: child_say_def)

lemma child_inv_say [simp]: "child_inv (child_say kind l s) = child_inv s"
  by (rule child_inv_cong) simp_all

lemma child_inv_answers:
  assumes "child_inv s" "cs_current s = Some k \<Longrightarrow> cs_connected s" shows "child_inv (attempt_answers k a s)"
  using assms(2) child_invD [OF assms(1)]
  by (intro child_invI) (auto simp: attempt_answers_def client_open_def)

lemma child_inv_connect:
  assumes "child_inv s" shows "child_inv (child_connect kind threw s)"
proof (cases "cs_connected s \<or> cs_connecting s \<noteq> None")
  case True
  then show ?thesis using assms by (simp add: child_connect_def)
next
  case False
  then have w: "cs_waiting s = []" using child_invD(4) [OF assms] by (cases "cs_waiting s") auto
  then have c: "cs_current s = None" using child_invD(7) [OF assms] False by (cases "cs_current s") auto
  let ?s = "s\<lparr>cs_connecting := Some (cs_next s), cs_next := Suc (cs_next s)\<rparr>"
  have n: "k < Suc (cs_next s)" if "k \<in> set (cs_started s)" for k using child_invD(1) [OF assms that] by simp
  have i: "child_inv ?s"
    using False w c n child_invD(2,3) [OF assms] by (intro child_invI) (simp_all add: client_open_def)
  have new: "cs_next s \<notin> set (cs_started s)" using child_invD(1) [OF assms] by blast
  show ?thesis
  proof (cases threw)
    case (Some err)
    have "child_inv (attempt_answers (cs_next s) a (child_say kind l ?s))" for a l
      by (rule child_inv_answers) (use c i in simp_all)
    then show ?thesis using False Some by (simp add: child_connect_def Let_def del: lit_simps)
  next
    case None
    have o: "client_open k s = False" for k using child_invD(3) [OF assms] c by simp
    have "child_inv (?s\<lparr>cs_started := cs_started s @ [cs_next s], cs_current := Some (cs_next s), cs_waiting := [cs_next s]\<rparr>)"
      using False n new child_invD(2) [OF assms] o
      by (intro child_invI) (auto simp: client_open_def)
    then show ?thesis using None False w by (simp add: child_connect_def Let_def)
  qed
qed

lemma child_inv_end:
  assumes "child_inv s" "k \<in> set (cs_started s)" shows "child_inv (end_session k s)"
proof (cases "k \<in> set (cs_ended s)")
  case True
  then have "cs_current s \<noteq> Some k" using child_invD(3) [OF assms(1), of k] by (simp add: client_open_def)
  with True show ?thesis using assms(1) by (simp add: end_session_def)
next
  case False
  show ?thesis
  proof (cases "cs_current s = Some k")
    case True
    then have "client_open j s \<longleftrightarrow> j = k" for j using child_invD(3) [OF assms(1), of j] by auto
    then show ?thesis using False True child_invD(1,2,4) [OF assms(1)] assms(2)
      by (intro child_invI) (auto simp: end_session_def client_open_def)
  next
    case other: False
    have "child_inv (s\<lparr>cs_ended := cs_ended s @ [k]\<rparr>)"
    proof (rule child_invI)
      fix j
      show "client_open j (s\<lparr>cs_ended := cs_ended s @ [k]\<rparr>) \<longleftrightarrow> cs_current (s\<lparr>cs_ended := cs_ended s @ [k]\<rparr>) = Some j"
        using child_invD(3) [OF assms(1), of j] other by (auto simp: client_open_def)
    qed (use child_invD [OF assms(1)] assms(2) in auto)
    then show ?thesis using False other by (simp add: end_session_def)
  qed
qed

lemma current_started: "child_inv s \<Longrightarrow> cs_current s = Some k \<Longrightarrow> k \<in> set (cs_started s)"
  using child_invD(3) [of s k] by (simp add: client_open_def)

lemma end_session_current: "cs_current (end_session k s) \<noteq> Some k"
  by (simp add: end_session_def Let_def)

lemma child_inv_answered:
  assumes "child_inv s" "describe_outcome rt kind outcome \<noteq> None" shows "child_inv (child_answered rt kind k outcome s)"
proof (cases "k \<in> set (cs_waiting s)")
  case True
  have yes: "child_inv (attempt_answers k (Some True) (s\<lparr>cs_connected := True\<rparr>))" if c: "cs_current s = Some k"
  proof -
    have w: "filter (\<lambda>j. j \<noteq> k) (cs_waiting s) = []"
      using child_invD(4) [OF assms(1)] child_invD(4) [OF assms(1) True] by (auto simp: filter_empty_conv)
    have "client_open j (attempt_answers k (Some True) (s\<lparr>cs_connected := True\<rparr>)) \<longleftrightarrow> client_open j s" for j
      by (simp add: attempt_answers_def client_open_def)
    then show ?thesis using c w child_invD(1-3) [OF assms(1)] by (intro child_invI) (auto simp: attempt_answers_def)
  qed
  have no: "child_inv (attempt_answers k a (child_say kind l s))" if "cs_current s \<noteq> Some k" for a l
    by (rule child_inv_answers) (use that assms(1) in simp_all)
  have ended: "child_inv (attempt_answers k a (end_session k (child_say kind l s)))" if "cs_current s = Some k" for a l
    by (rule child_inv_answers) (use end_session_current current_started [OF assms(1) that] assms(1) in \<open>auto intro: child_inv_end\<close>)
  show ?thesis
    using True assms(2) yes no ended by (cases outcome) (auto simp: child_answered_def Let_def simp del: lit_simps)
qed (simp add: child_answered_def assms(1))

lemma child_inv_cleared:
  assumes "child_inv s" shows "child_inv (child_cleared k s)"
proof (cases "k \<notin> set (cs_waiting s) \<and> cs_connecting s = Some k")
  case True
  then have "cs_waiting s = []" using child_invD(4) [OF assms] by (cases "cs_waiting s") auto
  then show ?thesis using True child_invD [OF assms]
    by (intro child_invI) (auto simp: child_cleared_def client_open_def)
next
  case False
  then show ?thesis using assms by (auto simp: child_cleared_def)
qed

lemma child_inv_closed:
  assumes "child_inv s" shows "child_inv (child_closed kind k reason s)"
proof (cases "client_open k s")
  case True
  then have c: "cs_current s = Some k" using child_invD(3) [OF assms] by simp
  have "client_open j s \<longleftrightarrow> j = k" for j using child_invD(3) [OF assms, of j] c by auto
  then show ?thesis using True c child_invD(1,2,4) [OF assms]
    by (intro child_invI) (auto simp: child_closed_def Let_def child_say_def client_open_def simp del: lit_simps)
qed (simp add: child_closed_def assms)

lemmas child_steps = child_inv_connect child_inv_answered child_inv_cleared child_inv_closed

end
