(* ===== verification/SignalText.thy ===== *)
theory SignalText
  imports JsString
begin

text \<open>
  Markdown markers into Signal's text styles (\<open>gateway-signal/src/text-style.ts\<close>): the bare text and the ranges
  that style it, counted in UTF-16 code units. \<open>word\<close> is the test of the pattern for a letter or a digit.
\<close>

section \<open>Runs\<close>

datatype style = Bold | Italic | Strikethrough | Monospace

definition MARKERS :: "(js \<times> style) list" where
  "MARKERS = [([42, 42], Bold), ([126, 126], Strikethrough), ([96], Monospace), ([42], Italic), ([95], Italic)]"

record run =
  rn_style :: style
  rn_inner :: js
  rn_end :: nat

text \<open>\<open>text[k] ?? ""\<close>.\<close>

definition unit_at :: "js \<Rightarrow> int \<Rightarrow> js" where
  "unit_at text k = (if 0 \<le> k \<and> nat k < length text then [text ! nat k] else [])"

definition insideWord :: "(js \<Rightarrow> bool) \<Rightarrow> js \<Rightarrow> nat \<Rightarrow> nat \<Rightarrow> bool" where
  "insideWord word text before after \<longleftrightarrow> word (unit_at text (int before - 1)) \<or> word (unit_at text (int after))"

definition runAt :: "(js \<Rightarrow> bool) \<Rightarrow> js \<Rightarrow> nat \<Rightarrow> run option" where
  "runAt word text i =
     (case find (\<lambda>(marker, sty). prefix marker (drop i text)) MARKERS of
        None \<Rightarrow> None
      | Some (marker, sty) \<Rightarrow>
          let opn = i + length marker; cls = index_of text marker opn; inner = js_slice text (int opn) cls in
          if cls \<le> int opn then None
          else if js_trim inner \<noteq> inner then None
          else if marker = [95] \<and> insideWord word text i (nat cls + 1) then None
          else Some \<lparr>rn_style = sty, rn_inner = inner, rn_end = nat cls + length marker\<rparr>)"

lemma index_in_found:
  "index_in b s i = j \<Longrightarrow> j \<noteq> -1 \<Longrightarrow> int i \<le> j \<and> prefix b (drop (nat j - i) s)"
proof (induction s arbitrary: i)
  case (Cons c s)
  show ?case
  proof (cases "prefix b (c # s)")
    case False
    then have "index_in b s (Suc i) = j" using Cons.prems(1) by simp
    from Cons.IH [OF this Cons.prems(2)] have "int (Suc i) \<le> j \<and> prefix b (drop (nat j - Suc i) s)" .
    moreover from this have "nat j - i = Suc (nat j - Suc i)" by linarith
    ultimately show ?thesis by simp
  qed (use Cons.prems in auto)
qed (auto split: if_splits)

lemma index_of_found:
  assumes "index_of t b p = j" "int p < j"
  shows "prefix b (drop (nat j) t)"
proof -
  have "index_in b (drop (min p (length t)) t) (min p (length t)) = j" using assms(1) by (simp add: index_of_def Let_def)
  from index_in_found [OF this] assms(2) have i: "int (min p (length t)) \<le> j"
    "prefix b (drop (nat j - min p (length t)) (drop (min p (length t)) t))" by auto
  have "nat j - min p (length t) + min p (length t) = nat j" using i(1) by linarith
  with i(2) show ?thesis by (simp add: add.commute)
qed

text \<open>A run is its marker, its inside and its marker again.\<close>

lemma run_parts:
  assumes "runAt word t i = Some r"
  obtains m where "(m, rn_style r) \<in> set MARKERS" "drop i t = m @ rn_inner r @ m @ drop (rn_end r) t" "rn_inner r \<noteq> []"
    "rn_end r = i + 2 * length m + length (rn_inner r)" "rn_end r \<le> length t"
proof -
  obtain m sty where f: "find (\<lambda>(marker, sty). prefix marker (drop i t)) MARKERS = Some (m, sty)"
    using assms by (auto simp: runAt_def split: option.splits)
  then have m: "(m, sty) \<in> set MARKERS" "prefix m (drop i t)"
    by (auto simp: find_Some_iff) (metis nth_mem)
  define opn where "opn = i + length m"
  define j where "j = index_of t m opn"
  have j: "int opn < j" and r: "r = \<lparr>rn_style = sty, rn_inner = js_slice t (int opn) j, rn_end = nat j + length m\<rparr>"
    using assms f by (auto simp: runAt_def Let_def opn_def j_def split: if_splits)
  have p: "prefix m (drop (nat j) t)" using index_of_found [OF j_def [symmetric] j] .
  have "m \<noteq> []" using m(1) by (auto simp: MARKERS_def)
  then have len: "nat j + length m \<le> length t" using prefix_length_le [OF p] by (cases m) simp_all
  have inner: "js_slice t (int opn) j = take (nat j - opn) (drop opn t)"
    using j len by (simp add: js_slice_def slice_pos_def min_def)
  have d1: "drop i t = m @ drop opn t" using m(2) by (auto simp: prefix_def opn_def) (metis append_eq_conv_conj drop_drop add.commute)
  have d2: "drop (nat j) t = m @ drop (nat j + length m) t"
    using p by (auto simp: prefix_def) (metis append_eq_conv_conj drop_drop add.commute)
  have "drop opn t = take (nat j - opn) (drop opn t) @ drop (nat j) t"
    using j by (metis add_diff_inverse_nat append_take_drop_id drop_drop less_imp_not_less nat_less_iff of_nat_0_le_iff
      zless_nat_eq_int_zless le_less not_less add.commute)
  with d1 d2 have d3: "drop i t = m @ js_slice t (int opn) j @ m @ drop (nat j + length m) t" using inner by simp
  have "length (js_slice t (int opn) j) = nat j - opn" using inner len by simp
  moreover have "0 < nat j - opn" using j by linarith
  ultimately have "js_slice t (int opn) j \<noteq> []" "nat j = opn + length (js_slice t (int opn) j)" by (metis list.size(3) not_less_zero, linarith)
  then show ?thesis using that [of m] m(1) r len d3 by (simp add: opn_def)
qed


section \<open>Ranges\<close>

text \<open>A range is written \<open>start:length:STYLE\<close>; \<open>shift\<close> reads it back and writes it moved.\<close>

type_synonym style_range = "nat \<times> nat \<times> style"

fun style_name :: "style \<Rightarrow> js" where
  "style_name Bold = lit ''BOLD''"
| "style_name Italic = lit ''ITALIC''"
| "style_name Strikethrough = lit ''STRIKETHROUGH''"
| "style_name Monospace = lit ''MONOSPACE''"

definition range_entry :: "style_range \<Rightarrow> js" where
  "range_entry e = (case e of (s, l, sty) \<Rightarrow> dec s @ [58] @ dec l @ [58] @ style_name sty)"

definition shift_range :: "nat \<Rightarrow> style_range \<Rightarrow> style_range" where
  "shift_range n e = (case e of (s, l, sty) \<Rightarrow> (s + n, l, sty))"

lemma run_shrinks:
  assumes "runAt word t i = Some r" shows "i < rn_end r" "length (rn_inner r) < length t" "rn_end r \<le> length t"
proof -
  obtain m where m: "(m, rn_style r) \<in> set MARKERS" "rn_end r = i + 2 * length m + length (rn_inner r)" "rn_end r \<le> length t"
    using run_parts [OF assms] by metis
  then have "m \<noteq> []" by (auto simp: MARKERS_def)
  with m(2,3) show "i < rn_end r" "length (rn_inner r) < length t" "rn_end r \<le> length t" by (cases m; simp)+
qed

lemma run_progress: "runAt word t i = Some r \<Longrightarrow> length t - rn_end r < length t - i"
  using run_shrinks [of word t i r] by linarith

function style_loop ::
    "(js \<Rightarrow> bool) \<Rightarrow> js \<Rightarrow> nat \<Rightarrow> js \<Rightarrow> style_range list \<Rightarrow> js \<times> style_range list" where
  "style_loop word text i message entries =
     (if i < length text then
        (case runAt word text i of
           None \<Rightarrow> style_loop word text (i + 1) (message @ [text ! i]) entries
         | Some r \<Rightarrow>
             let start = length message in
             if rn_style r = Monospace
             then style_loop word text (rn_end r) (message @ rn_inner r) (entries @ [(start, length (rn_inner r), Monospace)])
             else let (nested, inside) = style_loop word (rn_inner r) 0 [] [] in
               style_loop word text (rn_end r) (message @ nested)
                 (entries @ [(start, length nested, rn_style r)] @ map (shift_range start) inside))
      else (message, entries))"
  by pat_completeness auto

termination
  by (relation "measures [\<lambda>(word, t, i, m, es). length t, \<lambda>(word, t, i, m, es). length t - i]")
    (auto dest: run_shrinks run_progress)

declare style_loop.simps [simp del]

definition toTextStyle :: "(js \<Rightarrow> bool) \<Rightarrow> js \<Rightarrow> js \<times> js list" where
  "toTextStyle word text = (case style_loop word text 0 [] [] of (message, entries) \<Rightarrow> (message, map range_entry entries))"

section \<open>Properties\<close>

definition style_marker :: "cu \<Rightarrow> bool" where
  "style_marker c \<longleftrightarrow> c \<in> {42, 95, 96, 126}"

definition range_in :: "nat \<Rightarrow> nat \<Rightarrow> style_range \<Rightarrow> bool" where
  "range_in lo hi e \<longleftrightarrow> (case e of (s, l, sty) \<Rightarrow> lo \<le> s \<and> 0 < l \<and> s + l \<le> hi)"

lemma range_in_shift: "range_in 0 k e \<Longrightarrow> range_in n (n + k) (shift_range n e)"
  by (auto simp: range_in_def shift_range_def split: prod.splits)

lemma range_in_mono: "range_in lo hi e \<Longrightarrow> lo' \<le> lo \<Longrightarrow> hi \<le> hi' \<Longrightarrow> range_in lo' hi' e"
  by (auto simp: range_in_def split: prod.splits)

text \<open>What the loop adds from a place on: everything there but markers, and ranges within what it adds.\<close>

lemma loop_adds:
  "style_loop word t i m es = (m', es') \<Longrightarrow>
     \<exists>added new. m' = m @ added \<and> es' = es @ new \<and> (i < length t \<longrightarrow> added \<noteq> []) \<and>
       filter (\<lambda>c. \<not> style_marker c) added = filter (\<lambda>c. \<not> style_marker c) (drop i t) \<and> subseq added (drop i t) \<and>
       list_all (range_in (length m) (length m')) new"
proof (induction word t i m es arbitrary: m' es' rule: style_loop.induct)
  case (1 word t i m es)
  show ?case
  proof (cases "i < length t")
    case False
    then show ?thesis using 1(5) by (simp add: style_loop.simps [of word t i])
  next
    case True
    show ?thesis
    proof (cases "runAt word t i")
      case None
      then have "style_loop word t (i + 1) (m @ [t ! i]) es = (m', es')" using 1(5) True by (simp add: style_loop.simps [of word t i])
      from 1(1) [OF True None this] obtain added new where h: "m' = (m @ [t ! i]) @ added" "es' = es @ new"
        "filter (\<lambda>c. \<not> style_marker c) added = filter (\<lambda>c. \<not> style_marker c) (drop (i + 1) t)" "subseq added (drop (i + 1) t)"
        "list_all (range_in (length (m @ [t ! i])) (length m')) new" by blast
      have d: "drop i t = t ! i # drop (i + 1) t" using True by (simp add: Cons_nth_drop_Suc)
      show ?thesis using h unfolding d
        by (intro exI [of _ "t ! i # added"] exI [of _ new]) (auto simp: list_all_iff intro: range_in_mono)
    next
      case (Some r)
      obtain mk where p: "(mk, rn_style r) \<in> set MARKERS" "drop i t = mk @ rn_inner r @ mk @ drop (rn_end r) t" "rn_inner r \<noteq> []"
        using run_parts [OF Some] by metis
      have mk: "filter (\<lambda>c. \<not> style_marker c) mk = []" using p(1) by (auto simp: MARKERS_def style_marker_def)
      have sub: "subseq (x @ y) (drop i t)" if "subseq x (rn_inner r)" "subseq y (drop (rn_end r) t)" for x y
        unfolding p(2) using that by (metis list_emb_append_mono list_emb_append2)
      show ?thesis
      proof (cases "rn_style r = Monospace")
        case mono: True
        then have "style_loop word t (rn_end r) (m @ rn_inner r) (es @ [(length m, length (rn_inner r), Monospace)]) = (m', es')"
          using 1(5) True Some by (simp add: style_loop.simps [of word t i] Let_def)
        from 1(2) [OF True Some refl mono this] obtain added new where h: "m' = (m @ rn_inner r) @ added"
          "es' = (es @ [(length m, length (rn_inner r), Monospace)]) @ new"
          "filter (\<lambda>c. \<not> style_marker c) added = filter (\<lambda>c. \<not> style_marker c) (drop (rn_end r) t)" "subseq added (drop (rn_end r) t)"
          "list_all (range_in (length (m @ rn_inner r)) (length m')) new" by blast
        have "range_in (length m) (length m') (length m, length (rn_inner r), Monospace)" using p(3) h(1) by (simp add: range_in_def)
        then show ?thesis using h p(3) mk sub [OF subseq_order.refl h(4)] unfolding p(2)
          by (intro exI [of _ "rn_inner r @ added"] exI [of _ "(length m, length (rn_inner r), Monospace) # new"])
            (auto simp: list_all_iff intro: range_in_mono)
      next
        case other: False
        obtain nested inside where n: "style_loop word (rn_inner r) 0 [] [] = (nested, inside)" by fastforce
        then have rest: "style_loop word t (rn_end r) (m @ nested)
            (es @ [(length m, length nested, rn_style r)] @ map (shift_range (length m)) inside) = (m', es')"
          using 1(5) True Some other by (simp add: style_loop.simps [of word t i] Let_def)
        from 1(3) [OF True Some refl other n] obtain a where a: "nested = a" "a \<noteq> []"
          "filter (\<lambda>c. \<not> style_marker c) a = filter (\<lambda>c. \<not> style_marker c) (rn_inner r)" "subseq a (rn_inner r)"
          "list_all (range_in 0 (length nested)) inside" using p(3) by auto
        from 1(4) [OF True Some refl other n [symmetric] refl rest] obtain added new where h: "m' = (m @ nested) @ added"
          "es' = (es @ [(length m, length nested, rn_style r)] @ map (shift_range (length m)) inside) @ new"
          "filter (\<lambda>c. \<not> style_marker c) added = filter (\<lambda>c. \<not> style_marker c) (drop (rn_end r) t)" "subseq added (drop (rn_end r) t)"
          "list_all (range_in (length (m @ nested)) (length m')) new" by blast
        have r1: "range_in (length m) (length m') (length m, length nested, rn_style r)" using a(1,2) h(1) by (simp add: range_in_def)
        have r2: "list_all (range_in (length m) (length m')) (map (shift_range (length m)) inside)"
          using a(5) h(1) range_in_shift range_in_mono by (fastforce simp: list_all_iff)
        have r3: "list_all (range_in (length m) (length m')) new" using h(5) by (auto simp: list_all_iff intro: range_in_mono)
        show ?thesis using h(1-3) a(1-3) mk sub [OF a(4) h(4)] r1 r2 r3 unfolding p(2)
          by (intro exI [of _ "nested @ added"]
              exI [of _ "(length m, length nested, rn_style r) # map (shift_range (length m)) inside @ new"]) auto
      qed
    qed
  qed
qed

text \<open>\<open>shift\<close> works on the written entry; \<open>Number\<close> reads back the digits \<open>String\<close> wrote.\<close>

definition shift_entry :: "nat \<Rightarrow> js \<Rightarrow> js" where
  "shift_entry n entry =
     (case split_on 58 entry of
        [s, l, sty] \<Rightarrow> dec (digits_value s + n) @ [58] @ l @ [58] @ sty
      | _ \<Rightarrow> [])"

lemma shift_entry_range: "shift_entry n (range_entry e) = range_entry (shift_range n e)"
proof -
  obtain s l sty where e: "e = (s, l, sty)" using prod_cases3 by blast
  have "58 \<notin> set (dec k)" for k using dec_digits [of k] by (auto simp: list_all_iff is_digit_def)
  moreover have "58 \<notin> set (style_name sty)" by (cases sty) simp_all
  ultimately show ?thesis
    by (simp add: e range_entry_def shift_range_def shift_entry_def split_on_append split_on_field)
qed

text \<open>
  C40: what is sent for a markdown text, whatever its markers: the text without some of its markers and nothing
  else lost or moved, never empty for a text that is not; each range that styles it is within it and not
  empty.
\<close>
theorem styled_ranges_fit:
  "case style_loop word text 0 [] [] of (message, entries) \<Rightarrow>
     toTextStyle word text = (message, map range_entry entries) \<and> list_all (range_in 0 (length message)) entries \<and>
     subseq message text \<and> filter (\<lambda>c. \<not> style_marker c) message = filter (\<lambda>c. \<not> style_marker c) text \<and>
     (message = [] \<longleftrightarrow> text = [])"
proof -
  obtain message entries where l: "style_loop word text 0 [] [] = (message, entries)" by fastforce
  from loop_adds [OF l] obtain added where "message = added" "0 < length text \<longrightarrow> added \<noteq> []"
    "filter (\<lambda>c. \<not> style_marker c) added = filter (\<lambda>c. \<not> style_marker c) text" "subseq added text"
    "list_all (range_in 0 (length message)) entries" by auto
  then show ?thesis by (auto simp: l toTextStyle_def)
qed

text \<open>
  A code span is not literal when a marker before it finds its partner inside: of \<open>*a `b* c`\<close> the italic run
  ends in the code.
\<close>
theorem code_span_is_cut:
  "toTextStyle (\<lambda>s. True) (lit ''*a `b* c`'') = (lit ''a `b c`'', [lit ''0:4:ITALIC''])"
proof -
  have "style_loop (\<lambda>s. True) (lit ''*a `b* c`'') 0 [] [] = (lit ''a `b c`'', [(0, 4, Italic)])" by code_simp
  then show ?thesis by (simp add: toTextStyle_def range_entry_def dec.simps)
qed

end
