(* ===== verification/SignalAdapter.thy ===== *)
theory SignalAdapter
  imports ChildSession SignalText
begin

text \<open>
  The Signal adapter (\<open>gateway-signal/src\<close>: \<open>adapter.ts\<close>, \<open>normalize.ts\<close>) over a session with \<open>signal-cli\<close>: what its
  notifications become, the life of the child, and sends. An envelope is read as its declared type without a
  check, so its fields are whatever JSON value is there.
\<close>

section \<open>Events\<close>

record signal_event =
  sg_id :: js
  sg_senderId :: json
  sg_displayName :: "json option"
  sg_channelId :: json
  sg_channelType :: chan_type
  sg_text :: js
  sg_receivedAt :: rat
  sg_timestamp :: json
  sg_sourceNumber :: "json option"
  sg_sourceUuid :: "json option"
  sg_groupId :: "json option"
  sg_raw :: json

definition GROUP_PREFIX :: js where
  "GROUP_PREFIX = lit ''group.''"

definition messageText :: "json \<Rightarrow> js option" where
  "messageText envelope =
     (case string_of (chained (member_of envelope (lit ''dataMessage'')) (lit ''message'')) of
        None \<Rightarrow> None
      | Some s \<Rightarrow> if s = [] then None else Some s)"

definition sentAt :: "json \<Rightarrow> rat \<Rightarrow> json" where
  "sentAt envelope receivedAt =
     or_default (coalesce (member_of envelope (lit ''timestamp''))
       (chained (member_of envelope (lit ''dataMessage'')) (lit ''timestamp''))) (JNum receivedAt)"

text \<open>\<open>channelOf\<close>: \<open>None\<close> is the error of a template over a group id that has no text.\<close>

definition channelOf :: "runtime \<Rightarrow> json option \<Rightarrow> json \<Rightarrow> (json \<times> chan_type) option" where
  "channelOf rt groupId dmId =
     (case groupId of
        None \<Rightarrow> Some (dmId, DM)
      | Some g \<Rightarrow> (case js_String rt g of None \<Rightarrow> None | Some s \<Rightarrow> Some (JStr (GROUP_PREFIX @ s), Group)))"

text \<open>
  The outer option is the error thrown: an envelope that is \<open>null\<close>, or an id, a time or a group id with no text.
  The inner one is an envelope that makes no event.
\<close>

definition signalEnvelopeToMessageEvent :: "runtime \<Rightarrow> json \<Rightarrow> rat \<Rightarrow> signal_event option option" where
  "signalEnvelopeToMessageEvent rt envelope receivedAt =
     (if envelope = JNull then None
      else case messageText envelope of
        None \<Rightarrow> Some None
      | Some text \<Rightarrow>
          let number = coalesce (member_of envelope (lit ''sourceNumber'')) (member_of envelope (lit ''source''));
              uuid = member_of envelope (lit ''sourceUuid'')
          in case coalesce uuid number of
            None \<Rightarrow> Some None
          | Some senderId \<Rightarrow>
              let timestamp = sentAt envelope receivedAt;
                  groupId = chained (chained (member_of envelope (lit ''dataMessage'')) (lit ''groupInfo'')) (lit ''groupId'');
                  name = member_of envelope (lit ''sourceName'')
              in case (js_String rt senderId, js_String rt timestamp, channelOf rt groupId (or_default number senderId)) of
                (Some i, Some at_time, Some (channelId, type)) \<Rightarrow>
                  Some (Some \<lparr>sg_id = i @ [58] @ at_time, sg_senderId = senderId,
                    sg_displayName = (case name of None \<Rightarrow> None | Some n \<Rightarrow> if js_truthy n then Some n else None),
                    sg_channelId = channelId, sg_channelType = type, sg_text = text, sg_receivedAt = receivedAt,
                    sg_timestamp = timestamp, sg_sourceNumber = number, sg_sourceUuid = uuid, sg_groupId = groupId,
                    sg_raw = envelope\<rparr>)
              | _ \<Rightarrow> None)"

section \<open>The adapter\<close>

text \<open>
  The session with the adapter's own fields; \<open>sg_calls\<close> is the calls made to handlers. \<open>sg_crashed\<close>: an exception
  left the listener of the child's output, and the process ended.
\<close>

record signal = child_session +
  sg_account :: js
  sg_configDir :: "js option"
  sg_handler :: "nat option"
  sg_warnedAboutHtml :: bool
  sg_calls :: "(nat \<times> signal_event) list"
  sg_crashed :: bool

definition signal_kind :: child_kind where
  "signal_kind = \<lparr>ck_label = lit ''gateway-signal'', ck_program = lit ''signal-cli'', ck_method = lit ''listGroups''\<rparr>"

definition E164 :: "js \<Rightarrow> bool" where
  "E164 s \<longleftrightarrow> (case s of
       c # d # ds \<Rightarrow> c = 43 \<and> 49 \<le> d \<and> d \<le> 57 \<and> 6 \<le> length ds \<and> length ds \<le> 14 \<and> list_all is_digit ds
     | _ \<Rightarrow> False)"

definition newSignalAdapter :: "js \<Rightarrow> js option \<Rightarrow> thrown + signal" where
  "newSignalAdapter account configDir =
     (if \<not> E164 account
      then Inl (ThrownError (lit ''gateway-signal: opts.account must be the registered number in E.164 form (e.g. ''
        @ quoted (lit ''+5511999990000'') @ lit ''), got '' @ quoted account))
      else Inr \<lparr>cs_current = None, cs_connected = False, cs_connecting = None, cs_next = 0, cs_waiting = [], cs_answers = [],
        cs_started = [], cs_ended = [], cs_closed = [], cs_log = [], sg_account = account, sg_configDir = configDir,
        sg_handler = None, sg_warnedAboutHtml = False, sg_calls = [], sg_crashed = False\<rparr>)"

text \<open>The arguments \<open>signal-cli\<close> is started with.\<close>

definition signal_args :: "signal \<Rightarrow> js list" where
  "signal_args s =
     [lit ''-a'', sg_account s] @ (case sg_configDir s of None \<Rightarrow> [] | Some d \<Rightarrow> [lit ''--config'', d]) @ [lit ''jsonRpc'']"

definition signal_connect :: "thrown option \<Rightarrow> signal \<Rightarrow> signal" where
  "signal_connect threw s = child_connect signal_kind threw s"

definition signal_answered :: "runtime \<Rightarrow> nat \<Rightarrow> rpc_outcome \<Rightarrow> signal \<Rightarrow> signal" where
  "signal_answered rt k outcome s = child_answered rt signal_kind k outcome s"

definition signal_cleared :: "nat \<Rightarrow> signal \<Rightarrow> signal" where
  "signal_cleared k s = child_cleared k s"

definition signal_closed :: "nat \<Rightarrow> js \<Rightarrow> signal \<Rightarrow> signal" where
  "signal_closed k reason s = child_closed signal_kind k reason s"

text \<open>\<open>endChild\<close>, which is all that \<open>disconnect\<close> does.\<close>

definition signal_disconnect :: "signal \<Rightarrow> signal" where
  "signal_disconnect s = (case cs_current s of None \<Rightarrow> s\<lparr>cs_connected := False\<rparr> | Some k \<Rightarrow> end_session k s)"

definition signal_onInbound :: "nat \<Rightarrow> signal \<Rightarrow> signal" where
  "signal_onInbound h s = s\<lparr>sg_handler := Some h\<rparr>"

definition signal_off :: "nat \<Rightarrow> signal \<Rightarrow> signal" where
  "signal_off h s = (if sg_handler s = Some h then s\<lparr>sg_handler := None\<rparr> else s)"

definition signal_deliver :: "(nat \<Rightarrow> signal_event \<Rightarrow> ('w, unit) comp) \<Rightarrow> signal \<Rightarrow> signal_event \<Rightarrow> ('w, delivery) comp" where
  "signal_deliver handlers s event = runHandler (lit ''signal'') (map_option handlers (sg_handler s)) event"

text \<open>
  \<open>onNotification\<close>, called by the open client of child \<open>k\<close>. The handler is called and not awaited: what it does
  is other steps of the machine.
\<close>

definition signal_notified :: "runtime \<Rightarrow> nat \<Rightarrow> js \<Rightarrow> json option \<Rightarrow> signal \<Rightarrow> signal" where
  "signal_notified rt k mth params s =
     (if \<not> client_open k s \<or> mth \<noteq> lit ''receive'' then s
      else case chained params (lit ''envelope'') of
        None \<Rightarrow> s
      | Some envelope \<Rightarrow>
          (case signalEnvelopeToMessageEvent rt envelope (rt_now rt) of
             None \<Rightarrow> s\<lparr>sg_crashed := True\<rparr>
           | Some None \<Rightarrow> s
           | Some (Some event) \<Rightarrow>
               (case sg_handler s of
                  None \<Rightarrow> s
                | Some h \<Rightarrow> s\<lparr>sg_calls := sg_calls s @ [(h, event)]\<rparr>)))"

section \<open>Sending\<close>

datatype signal_target = Recipient js | GroupId js

record signal_params =
  sp_target :: signal_target
  sp_message :: js
  sp_textStyle :: "js list option"

datatype signal_send = AnsweredAtOnce child_send | Asks nat signal_params

definition withoutGroupPrefix :: "js \<Rightarrow> js" where
  "withoutGroupPrefix i = (if prefix GROUP_PREFIX i then drop (length GROUP_PREFIX) i else i)"

definition signal_body :: "(js \<Rightarrow> bool) \<Rightarrow> outbound \<Rightarrow> signal \<Rightarrow> (js \<times> js list option) \<times> signal" where
  "signal_body word out s =
     (if out_format out = Some Markdown
      then case toTextStyle word (out_text out) of
        (message, entries) \<Rightarrow> ((message, if entries = [] then None else Some entries), s)
      else ((out_text out, None),
        if out_format out = Some Html \<and> \<not> sg_warnedAboutHtml s
        then child_say signal_kind (lit ''format='' @ quoted (lit ''html'') @
          lit '' was declared and Signal has no html mode; sending the text unchanged. Logged once.'') (s\<lparr>sg_warnedAboutHtml := True\<rparr>)
        else s))"

text \<open>\<open>sendMessage\<close> up to its one await: what it answers at once, or what it asks the child's client.\<close>

definition signal_sendMessage :: "(js \<Rightarrow> bool) \<Rightarrow> outbound \<Rightarrow> signal \<Rightarrow> signal_send \<times> signal" where
  "signal_sendMessage word out s =
     (if out_text out = [] then (AnsweredAtOnce (NotSent (lit ''empty_text'') (JStr (lit ''outbound text is empty''))), s)
      else case (cs_connected s, cs_current s) of
        (True, Some k) \<Rightarrow>
          let target = (if ch_type (out_channel out) = DM then Recipient (ch_id (out_channel out))
                        else GroupId (withoutGroupPrefix (ch_id (out_channel out))))
          in (case signal_body word out s of
                ((message, entries), s1) \<Rightarrow>
                  (Asks k \<lparr>sp_target = target, sp_message = message, sp_textStyle = entries\<rparr>, s1))
      | _ \<Rightarrow> (AnsweredAtOnce (NotSent (lit ''not_connected'') (JStr (lit ''SignalAdapter.connect() has not succeeded''))), s))"

definition signal_toSendResult :: "runtime \<Rightarrow> rpc_outcome \<Rightarrow> child_send" where
  "signal_toSendResult rt outcome =
     (case outcome of
        RpcResult result \<Rightarrow>
          (case chained result (lit ''timestamp'') of
             Some (JNum n) \<Rightarrow> Sent (Some (rt_text rt n))
           | _ \<Rightarrow> Sent None)
      | RpcError code message data \<Rightarrow> NotSent (lit ''signal_rpc_error'') message
      | RpcTimeout \<Rightarrow> NotSent (lit ''timeout'') (JStr (lit ''signal-cli did not answer the send in time''))
      | RpcDisconnected \<Rightarrow> NotSent (lit ''disconnected'') (JStr (lit ''signal-cli is not running'')))"

section \<open>Runs\<close>

datatype signal_step_event =
    SignalConnect "thrown option"
  | SignalAnswered nat rpc_outcome
  | SignalCleared nat
  | SignalClosed nat js
  | SignalDisconnect
  | SignalSubscribe nat
  | SignalUnsubscribe nat
  | SignalNotified nat js "json option"
  | SignalSend outbound

fun signal_step :: "runtime \<Rightarrow> (js \<Rightarrow> bool) \<Rightarrow> signal \<Rightarrow> signal_step_event \<Rightarrow> signal" where
  "signal_step rt word s e =
     (if sg_crashed s then s
      else case e of
        SignalConnect threw \<Rightarrow> signal_connect threw s
      | SignalAnswered k outcome \<Rightarrow> signal_answered rt k outcome s
      | SignalCleared k \<Rightarrow> signal_cleared k s
      | SignalClosed k reason \<Rightarrow> signal_closed k reason s
      | SignalDisconnect \<Rightarrow> signal_disconnect s
      | SignalSubscribe h \<Rightarrow> signal_onInbound h s
      | SignalUnsubscribe h \<Rightarrow> signal_off h s
      | SignalNotified k mth params \<Rightarrow> signal_notified rt k mth params s
      | SignalSend out \<Rightarrow> snd (signal_sendMessage word out s))"

section \<open>The child\<close>

lemma signal_keeps [simp]:
  "child_inv (s\<lparr>sg_handler := h\<rparr>) = child_inv s" "child_inv (s\<lparr>sg_calls := cs\<rparr>) = child_inv s"
  "child_inv (s\<lparr>sg_warnedAboutHtml := w\<rparr>) = child_inv s" "child_inv (s\<lparr>sg_crashed := c\<rparr>) = child_inv s"
  by (rule child_inv_cong; simp)+

lemma signal_say [simp]:
  "sg_calls (child_say kind l s) = sg_calls s" "sg_crashed (child_say kind l s) = sg_crashed s"
  "sg_handler (child_say kind l s) = sg_handler s"
  by (simp_all add: child_say_def)

lemma signal_disconnect_keeps: "child_inv s \<Longrightarrow> child_inv (signal_disconnect s)"
proof (cases "cs_current s")
  case None
  moreover assume "child_inv s"
  ultimately show ?thesis using child_invD(6) [of s] child_inv_cong [of "s\<lparr>cs_connected := False\<rparr>" s]
    by (auto simp: signal_disconnect_def)
qed (auto simp: signal_disconnect_def intro: child_inv_end current_started)

lemma signal_body_same [simp]:
  "child_inv (snd (signal_body word out s)) = child_inv s" "sg_calls (snd (signal_body word out s)) = sg_calls s"
  "cs_current (snd (signal_body word out s)) = cs_current s" "cs_connected (snd (signal_body word out s)) = cs_connected s"
  by (simp_all add: signal_body_def del: lit_simps split: prod.splits)

lemma signal_send_state: "snd (signal_sendMessage word out s) \<in> {s, snd (signal_body word out s)}"
  by (simp add: signal_sendMessage_def Let_def split: option.splits bool.splits prod.splits del: lit_simps)

lemma signal_send_keeps: "child_inv s \<Longrightarrow> child_inv (snd (signal_sendMessage word out s))"
  using signal_send_state [of word out s] by auto

lemma signal_notified_keeps: "child_inv s \<Longrightarrow> child_inv (signal_notified rt k mth params s)"
  by (simp add: signal_notified_def split: option.splits)

text \<open>
  An attempt rejects when the error its first request is answered with cannot be told: the code or the message is
  an object that hides \<open>toString\<close>, and the template throws. Its child is then left as it is.
\<close>

definition none_rejected :: "signal \<Rightarrow> bool" where
  "none_rejected s \<longleftrightarrow> (\<forall>k. (k, None) \<notin> set (cs_answers s))"

lemma signal_step_answers: "set (cs_answers s) \<subseteq> set (cs_answers (signal_step rt word s e))"
proof (cases e)
  case (SignalSend out)
  have "cs_answers (snd (signal_body word out s)) = cs_answers s"
    by (simp add: signal_body_def child_say_def del: lit_simps split: prod.splits)
  then show ?thesis using SignalSend signal_send_state [of word out s] by auto
qed (auto simp: signal_connect_def signal_answered_def signal_cleared_def signal_closed_def signal_onInbound_def
  signal_off_def signal_disconnect_def signal_notified_def child_connect_def child_answered_def child_cleared_def
  child_closed_def end_session_def attempt_answers_def child_say_def Let_def simp del: lit_simps
  split: option.splits rpc_outcome.splits)

lemma signal_step_keeps:
  assumes "child_inv s" "none_rejected (signal_step rt word s e)"
  shows "child_inv (signal_step rt word s e)"
proof (cases e)
  case (SignalAnswered k outcome)
  show ?thesis
  proof (cases "describe_outcome rt signal_kind outcome = None \<and> k \<in> set (cs_waiting s)")
    case True
    then have "signal_step rt word s e \<in> {s, attempt_answers k None s}"
      using SignalAnswered by (cases outcome) (auto simp: signal_answered_def child_answered_def describe_outcome_def)
    then show ?thesis using assms by (auto simp: none_rejected_def attempt_answers_def)
  next
    case False
    then show ?thesis using SignalAnswered assms(1) child_inv_answered [OF assms(1), of rt signal_kind outcome k]
      by (auto simp: signal_answered_def child_answered_def)
  qed
qed (use assms(1) in \<open>auto simp: signal_connect_def signal_cleared_def signal_closed_def signal_onInbound_def signal_off_def
    intro: child_steps signal_disconnect_keeps signal_notified_keeps signal_send_keeps\<close>)

lemma none_rejected_before: "none_rejected (signal_step rt word s e) \<Longrightarrow> none_rejected s"
  using signal_step_answers [of s rt word e] by (auto simp: none_rejected_def simp del: signal_step.simps)

lemma signal_run_keeps:
  "child_inv s \<Longrightarrow> none_rejected (foldl (signal_step rt word) s es) \<Longrightarrow> child_inv (foldl (signal_step rt word) s es)"
  by (induction es rule: rev_induct) (simp_all add: signal_step_keeps none_rejected_before del: signal_step.simps)

lemma new_signal: "newSignalAdapter account configDir = Inr s \<Longrightarrow> child_inv s"
  by (rule child_inv_fresh) (auto simp: newSignalAdapter_def fresh_child_def split: if_splits)

text \<open>Without a child there is nothing that calls a handler, until the next \<open>connect\<close>.\<close>

definition signal_down :: "signal \<Rightarrow> bool" where
  "signal_down s \<longleftrightarrow> child_inv s \<and> cs_current s = None"

fun starts_child :: "signal_step_event \<Rightarrow> bool" where
  "starts_child (SignalConnect threw) = True"
| "starts_child _ = False"

lemma signal_down_step:
  assumes "signal_down s" "\<not> starts_child e"
  shows "signal_down (signal_step rt word s e) \<and> sg_calls (signal_step rt word s e) = sg_calls s"
proof -
  have i: "child_inv s" and c: "cs_current s = None" using assms(1) by (simp_all add: signal_down_def)
  have o: "\<not> client_open k s" for k using child_invD(3) [OF i] c by simp
  have "cs_current (signal_step rt word s e) = None \<and> sg_calls (signal_step rt word s e) = sg_calls s"
  proof (cases e)
    case (SignalAnswered k outcome)
    then show ?thesis using c
      by (auto simp: signal_answered_def child_answered_def attempt_answers_def Let_def simp del: lit_simps
        split: rpc_outcome.splits option.splits)
  next
    case (SignalSend out)
    then show ?thesis using c signal_send_state [of word out s] by auto
  qed (use c o assms(2) in \<open>auto simp: signal_cleared_def child_cleared_def signal_closed_def child_closed_def signal_disconnect_def
    signal_onInbound_def signal_off_def signal_notified_def\<close>)
  moreover have "child_inv (signal_step rt word s e)"
  proof (cases e)
    case (SignalAnswered k outcome)
    show ?thesis
    proof (cases "describe_outcome rt signal_kind outcome")
      case None
      then have "signal_step rt word s e \<in> {s, attempt_answers k None s}"
        using SignalAnswered by (cases outcome) (auto simp: signal_answered_def child_answered_def describe_outcome_def)
      then show ?thesis using i c child_inv_answers [of s k None] by auto
    next
      case (Some line)
      then show ?thesis using SignalAnswered i by (auto simp: signal_answered_def intro: child_steps)
    qed
  qed (use i in \<open>auto simp: signal_connect_def signal_cleared_def signal_closed_def signal_onInbound_def signal_off_def
    intro: child_steps signal_disconnect_keeps signal_notified_keeps signal_send_keeps\<close>)
  ultimately show ?thesis by (simp add: signal_down_def)
qed

lemma signal_down_run:
  "signal_down s \<Longrightarrow> list_all (\<lambda>e. \<not> starts_child e) es \<Longrightarrow>
     signal_down (foldl (signal_step rt word) s es) \<and> sg_calls (foldl (signal_step rt word) s es) = sg_calls s"
  by (induction es arbitrary: s) (simp_all add: signal_down_step del: signal_step.simps)

lemma disconnect_downs: "child_inv s \<Longrightarrow> signal_down (signal_disconnect s)"
  using signal_disconnect_keeps [of s]
  by (auto simp: signal_down_def signal_disconnect_def end_session_def Let_def split: option.splits)

section \<open>Replies\<close>

lemma group_prefix_stripped: "GROUP_PREFIX @ g = c \<Longrightarrow> withoutGroupPrefix c = g"
  by (auto simp: withoutGroupPrefix_def)

lemma event_channel:
  assumes "signalEnvelopeToMessageEvent rt env now = Some (Some ev)"
  shows "\<exists>dm. channelOf rt (sg_groupId ev) dm = Some (sg_channelId ev, sg_channelType ev) \<and>
    (dm = or_default (sg_sourceNumber ev) (sg_senderId ev)) \<and> sg_text ev \<noteq> []"
  using assms by (auto simp: signalEnvelopeToMessageEvent_def messageText_def Let_def split: option.splits if_splits)

section \<open>Properties\<close>

text \<open>
  Whatever the order of connects, answers, closings and disconnects, as long as no attempt has rejected: of the
  children started only the current one is neither ended nor closed, and the adapter counts as connected only while
  it has one. \<open>rejected_attempt_leaves_a_child\<close> is a run in which an attempt rejects.
\<close>
theorem signal_children_are_held:
  assumes "newSignalAdapter account configDir = Inr s0" "s = foldl (signal_step rt word) s0 es" "none_rejected s"
  shows "{k. client_open k s} = set_option (cs_current s) \<and> (cs_connected s \<longrightarrow> cs_current s \<noteq> None)"
proof -
  have i: "child_inv s" using signal_run_keeps [OF new_signal [OF assms(1)]] assms(2,3) by blast
  show ?thesis using child_invD(3,6) [OF i] by auto
qed

text \<open>
  C16: after a disconnect no handler is called before the next connect, whatever the children still tell and
  whatever the attempts in flight are answered, provided that no attempt has rejected before the disconnect. An
  attempt rejects when \<open>listGroups\<close> is answered with an error whose code or message is an object that hides
  \<open>toString\<close>; its child is then not ended, and once the next connect has replaced it no disconnect ends it
  (\<open>rejected_attempt_leaves_a_child\<close>).
\<close>
theorem disconnected_signal_calls_nobody:
  assumes "newSignalAdapter account configDir = Inr s0" "s = foldl (signal_step rt word) s0 es"
    "\<forall>k. (k, None) \<notin> set (cs_answers s)" "list_all (\<lambda>e. \<not> starts_child e) later"
  shows "sg_calls (foldl (signal_step rt word) (signal_disconnect s) later) = sg_calls s"
proof -
  have i: "child_inv s"
    using signal_run_keeps [OF new_signal [OF assms(1)]] assms(2,3) unfolding none_rejected_def by blast
  have "sg_calls (signal_disconnect s) = sg_calls s"
    by (simp add: signal_disconnect_def end_session_def Let_def split: option.splits)
  then show ?thesis using signal_down_run [OF disconnect_downs [OF i] assms(4)] by simp
qed

text \<open>
  C38: a reply to the channel of an event asks \<open>signal-cli\<close> to send to where the event came from: to the group the
  envelope named, without the prefix its channel carries, or to the sender's number.
\<close>
theorem signal_replies_go_back:
  assumes "signalEnvelopeToMessageEvent rt env now = Some (Some ev)"
    "sg_channelId ev = JStr c" "ch_id (out_channel out) = c" "ch_type (out_channel out) = sg_channelType ev"
    "out_text out \<noteq> []" "cs_connected s" "cs_current s = Some k"
  shows "\<exists>p. fst (signal_sendMessage word out s) = Asks k p \<and>
    (case sg_groupId ev of
       None \<Rightarrow> sp_target p = Recipient c \<and> or_default (sg_sourceNumber ev) (sg_senderId ev) = JStr c
     | Some g \<Rightarrow> (\<exists>t. js_String rt g = Some t \<and> sp_target p = GroupId t)) \<and> sp_message p \<noteq> []"
proof -
  obtain message entries s1 where b: "signal_body word out s = ((message, entries), s1)" by (metis prod.collapse)
  have m: "message \<noteq> []"
  proof (cases "out_format out = Some Markdown")
    case True
    obtain msg es where l: "style_loop word (out_text out) 0 [] [] = (msg, es)" by fastforce
    have "msg \<noteq> []" using loop_adds [OF l] assms(5) by auto
    then show ?thesis using b True l by (auto simp: signal_body_def toTextStyle_def)
  next
    case False
    then show ?thesis using b assms(5) by (simp add: signal_body_def)
  qed
  show ?thesis
    using event_channel [OF assms(1)] assms(2-7) b m
    by (auto simp: signal_sendMessage_def channelOf_def group_prefix_stripped split: option.splits)
qed

section \<open>Runs of a new adapter\<close>

definition signal_rt :: runtime where
  "signal_rt = \<lparr>rt_number = (\<lambda>s. NaN), rt_text = (\<lambda>q. lit ''7''), rt_thousand = (\<lambda>q. NaN), rt_now = 7\<rparr>"

definition fresh_signal :: signal where
  "fresh_signal = \<lparr>cs_current = None, cs_connected = False, cs_connecting = None, cs_next = 0, cs_waiting = [], cs_answers = [],
     cs_started = [], cs_ended = [], cs_closed = [], cs_log = [], sg_account = lit ''+5511999990000'', sg_configDir = None,
     sg_handler = None, sg_warnedAboutHtml = False, sg_calls = [], sg_crashed = False\<rparr>"

lemma fresh_signal_made: "newSignalAdapter (lit ''+5511999990000'') None = Inr fresh_signal"
  by (simp add: newSignalAdapter_def fresh_signal_def E164_def is_digit_def)

definition signal_run :: "signal_step_event list \<Rightarrow> signal" where
  "signal_run es = foldl (signal_step signal_rt (\<lambda>s. True)) fresh_signal es"

definition signal_note :: "json option" where
  "signal_note = Some (JObj [(lit ''envelope'', JObj [(lit ''sourceNumber'', JStr (lit ''+1'')),
     (lit ''dataMessage'', JObj [(lit ''message'', JStr (lit ''hi'')),
        (lit ''groupInfo'', JObj [(lit ''groupId'', JStr (lit ''g''))])])])])"

definition open_signal :: signal where
  "open_signal = signal_run [SignalConnect None, SignalAnswered 0 (RpcResult None), SignalCleared 0, SignalSubscribe 3,
     SignalNotified 0 (lit ''receive'') signal_note]"

definition hidden_text :: json where
  "hidden_text = JObj [(lit ''toString'', JNum 1)]"

theorem signal_children_are_held_witness:
  "cs_started open_signal = [0] \<and> {k. client_open k open_signal} = {0} \<and> cs_connected open_signal"
proof -
  have "cs_started open_signal = [0]" "cs_current open_signal = Some 0" "cs_connected open_signal"
    "cs_answers open_signal = [(0, Some True)]" by code_simp+
  then show ?thesis
    using signal_children_are_held [OF fresh_signal_made open_signal_def [unfolded signal_run_def]]
    by (simp add: none_rejected_def)
qed

theorem disconnected_signal_calls_nobody_witness:
  "length (sg_calls open_signal) = 1 \<and>
   sg_calls (foldl (signal_step signal_rt (\<lambda>s. True)) (signal_disconnect open_signal)
     [SignalAnswered 0 (RpcError (JNum 1) (hidden_text) None), SignalNotified 0 (lit ''receive'') signal_note]) =
   sg_calls open_signal"
proof -
  have l: "list_all (\<lambda>e. \<not> starts_child e)
      [SignalAnswered 0 (RpcError (JNum 1) (hidden_text) None), SignalNotified 0 (lit ''receive'') signal_note]" by simp
  have "length (sg_calls open_signal) = 1" "cs_answers open_signal = [(0, Some True)]" by code_simp+
  then show ?thesis
    using disconnected_signal_calls_nobody [OF fresh_signal_made open_signal_def [unfolded signal_run_def] _ l] by simp
qed

definition signal_group_out :: outbound where
  "signal_group_out = \<lparr>out_channel = \<lparr>ch_id = lit ''group.g'', ch_type = Group, ch_topicId = None\<rparr>, out_text = lit ''hi'',
     out_format = None, out_replyTo = None\<rparr>"

theorem signal_replies_go_back_witness:
  "\<exists>p. fst (signal_sendMessage (\<lambda>s. True) signal_group_out open_signal) = Asks 0 p \<and> sp_target p = GroupId (lit ''g'') \<and> sp_message p \<noteq> []"
proof -
  let ?env = "the (chained signal_note (lit ''envelope''))"
  let ?ev = "the (the (signalEnvelopeToMessageEvent signal_rt ?env 7))"
  have e: "signalEnvelopeToMessageEvent signal_rt ?env 7 = Some (Some ?ev)" "sg_channelId ?ev = JStr (lit ''group.g'')"
    "sg_channelType ?ev = Group" "sg_groupId ?ev = Some (JStr (lit ''g''))"
    by (simp_all add: signalEnvelopeToMessageEvent_def signal_note_def messageText_def coalesce_def sentAt_def channelOf_def
      signal_rt_def GROUP_PREFIX_def Let_def)
  have o: "ch_id (out_channel signal_group_out) = lit ''group.g''" "ch_type (out_channel signal_group_out) = sg_channelType ?ev"
    "out_text signal_group_out \<noteq> []" using e(3) by (simp_all add: signal_group_out_def)
  have "cs_connected open_signal" "cs_current open_signal = Some 0" by code_simp+
  from signal_replies_go_back [OF e(1,2) o this, of "\<lambda>s. True"] show ?thesis using e(4) by auto
qed

text \<open>
  A connect while the attempt that a disconnect overtook has still to answer shares its false answer: no child is
  started, and the adapter stays down.
\<close>
theorem connect_shares_an_overtaken_attempt:
  "let s = signal_run [SignalConnect None, SignalDisconnect, SignalConnect None, SignalAnswered 0 RpcDisconnected, SignalCleared 0]
   in cs_started s = [0] \<and> cs_answers s = [(0, Some False)] \<and> cs_connecting s = None \<and> \<not> cs_connected s"
  by code_simp

text \<open>
  A \<open>listGroups\<close> answered with an error whose message hides \<open>toString\<close>: the attempt rejects and its child is not
  ended. The next connect starts a second child in its place; the disconnect ends that one, and the first still
  calls the handler.
\<close>
theorem rejected_attempt_leaves_a_child:
  "let s = signal_run [SignalSubscribe 3, SignalConnect None, SignalAnswered 0 (RpcError (JNum 1) hidden_text None), SignalCleared 0,
       SignalConnect None, SignalAnswered 1 (RpcResult None), SignalCleared 1, SignalDisconnect];
     s' = signal_run [SignalSubscribe 3, SignalConnect None, SignalAnswered 0 (RpcError (JNum 1) hidden_text None), SignalCleared 0,
       SignalConnect None, SignalAnswered 1 (RpcResult None), SignalCleared 1, SignalDisconnect,
       SignalNotified 0 (lit ''receive'') signal_note]
   in cs_answers s = [(0, None), (1, Some True)] \<and> cs_started s = [0, 1] \<and> cs_ended s = [1] \<and>
     sg_calls s = [] \<and> map fst (sg_calls s') = [3]"
  by code_simp

text \<open>A child whose stdin failed is dropped, not ended: a disconnect after that leaves it running.\<close>
theorem dropped_child_is_not_ended:
  "let s = signal_run [SignalConnect None, SignalAnswered 0 (RpcResult None), SignalCleared 0,
     SignalClosed 0 (lit ''stdin: EPIPE''), SignalDisconnect]
   in cs_started s = [0] \<and> cs_ended s = []"
  by code_simp

end
