(* ===== verification/IMessageAdapter.thy ===== *)
theory IMessageAdapter
  imports ChildSession Dialect "HOL-Library.Option_ord"
begin

text \<open>
  The iMessage adapter (\<open>gateway-imessage/src\<close>: \<open>adapter.ts\<close>, \<open>normalize.ts\<close>, \<open>errors.ts\<close>) over a session with
  \<open>imsg\<close>: the queue of rows and the cursor a new session resumes after, sends and what their errors say.
\<close>

section \<open>Events\<close>

text \<open>The normalizer checks what it reads, but for the participants.\<close>

record imessage_event =
  im_guid :: js
  im_sender :: js
  im_channelId :: js
  im_isGroup :: bool
  im_text :: js
  im_receivedAt :: rat
  im_chatId :: rat
  im_participants :: json
  im_raw :: json

definition imessageRowToMessageEvent :: "runtime \<Rightarrow> json \<Rightarrow> rat \<Rightarrow> imessage_event option" where
  "imessageRowToMessageEvent rt row receivedAt =
     (if member_of row (lit ''is_from_me'') \<noteq> Some (JBool False) then None
      else case string_of (member_of row (lit ''text'')) of
        None \<Rightarrow> None
      | Some text \<Rightarrow>
          if text = [] then None
          else case (member_of row (lit ''chat_id''), string_of (member_of row (lit ''guid'')), string_of (member_of row (lit ''sender''))) of
            (Some (JNum chatId), Some guid, Some who) \<Rightarrow>
              Some \<lparr>im_guid = guid, im_sender = who, im_channelId = rt_text rt chatId,
                im_isGroup = (member_of row (lit ''is_group'') = Some (JBool True)), im_text = text, im_receivedAt = receivedAt,
                im_chatId = chatId, im_participants = or_default (member_of row (lit ''participants'')) (JArr []), im_raw = row\<rparr>
          | _ \<Rightarrow> None)"

section \<open>Errors of a send\<close>

definition OUTCOME_UNCERTAIN :: json where
  "OUTCOME_UNCERTAIN = JNum (- 32001)"

definition SEND_LANE_BLOCKED :: json where
  "SEND_LANE_BLOCKED = JNum (- 32004)"

definition wasNotStarted :: "json option \<Rightarrow> bool" where
  "wasNotStarted data \<longleftrightarrow>
     (case data of
        Some v \<Rightarrow> member_of v (lit ''state'') = Some (JStr (lit ''not_started'')) \<and> member_of v (lit ''retry_safe'') = Some (JBool True)
      | None \<Rightarrow> False)"

text \<open>The result of the send, and whether the child must be ended.\<close>

definition imessage_mapSendError :: "json \<Rightarrow> json \<Rightarrow> json option \<Rightarrow> child_send \<times> bool" where
  "imessage_mapSendError code message data =
     (if code = SEND_LANE_BLOCKED then (NotSent (lit ''imsg_send_lane_blocked'') message, True)
      else if wasNotStarted data then (NotSent (lit ''imsg_not_sent'') message, False)
      else if code = OUTCOME_UNCERTAIN then (NotSent (lit ''imsg_outcome_uncertain'') message, False)
      else (NotSent (lit ''imsg_error'') message, False))"

section \<open>The adapter\<close>

text \<open>
  The session with the adapter's own fields. \<open>im_rows\<close> is the rows that wait, each with the child that wrote it;
  \<open>im_running\<close> is the row in its handler, as its id if it has one. \<open>im_asked\<close> is the children a send awaits;
  \<open>im_subscribed\<close> is what each child was told to resume after, \<open>im_calls\<close> the calls made to handlers.
\<close>

record imessage = child_session +
  im_dbPath :: "js option"
  im_handler :: "nat option"
  im_warnedAboutHtml :: bool
  im_lastRowId :: "rat option"
  im_rows :: "(nat \<times> json) list"
  im_running :: "rat option option"
  im_asked :: "nat list"
  im_subscribed :: "(nat \<times> rat option) list"
  im_calls :: "(nat \<times> imessage_event) list"

definition imessage_kind :: child_kind where
  "imessage_kind = \<lparr>ck_label = lit ''gateway-imessage'', ck_program = lit ''imsg'', ck_method = lit ''watch.subscribe''\<rparr>"

definition newIMessageAdapter :: "js option \<Rightarrow> imessage" where
  "newIMessageAdapter dbPath =
     \<lparr>cs_current = None, cs_connected = False, cs_connecting = None, cs_next = 0, cs_waiting = [], cs_answers = [],
      cs_started = [], cs_ended = [], cs_closed = [], cs_log = [], im_dbPath = dbPath, im_handler = None,
      im_warnedAboutHtml = False, im_lastRowId = None, im_rows = [], im_running = None, im_asked = [], im_subscribed = [],
      im_calls = []\<rparr>"

definition imessage_args :: "imessage \<Rightarrow> js list" where
  "imessage_args s = [lit ''rpc''] @ (case im_dbPath s of None \<Rightarrow> [] | Some d \<Rightarrow> [lit ''--db'', d])"

text \<open>A child that starts is asked at once to subscribe, from the cursor if there is one.\<close>

definition imessage_connect :: "thrown option \<Rightarrow> imessage \<Rightarrow> imessage" where
  "imessage_connect threw s =
     (let s1 = child_connect imessage_kind threw s
      in if cs_connected s \<or> cs_connecting s \<noteq> None \<or> threw \<noteq> None then s1
         else s1\<lparr>im_subscribed := im_subscribed s1 @ [(cs_next s, im_lastRowId s1)]\<rparr>)"

definition imessage_answered :: "runtime \<Rightarrow> nat \<Rightarrow> rpc_outcome \<Rightarrow> imessage \<Rightarrow> imessage" where
  "imessage_answered rt k outcome s = child_answered rt imessage_kind k outcome s"

definition imessage_cleared :: "nat \<Rightarrow> imessage \<Rightarrow> imessage" where
  "imessage_cleared k s = child_cleared k s"

definition imessage_closed :: "nat \<Rightarrow> js \<Rightarrow> imessage \<Rightarrow> imessage" where
  "imessage_closed k reason s = child_closed imessage_kind k reason s"

text \<open>A child that the adapter ended exits: the listener \<open>endSession\<close> added.\<close>

definition imessage_exited :: "nat \<Rightarrow> js \<Rightarrow> imessage \<Rightarrow> imessage" where
  "imessage_exited k how s = (if k \<in> set (cs_ended s) then child_say imessage_kind (lit ''imsg exited with '' @ how) s else s)"

definition imessage_disconnect :: "imessage \<Rightarrow> imessage" where
  "imessage_disconnect s = (case cs_current s of None \<Rightarrow> s | Some k \<Rightarrow> end_session k s)"

definition imessage_onInbound :: "nat \<Rightarrow> imessage \<Rightarrow> imessage" where
  "imessage_onInbound h s = s\<lparr>im_handler := Some h\<rparr>"

definition imessage_off :: "nat \<Rightarrow> imessage \<Rightarrow> imessage" where
  "imessage_off h s = (if im_handler s = Some h then s\<lparr>im_handler := None\<rparr> else s)"

definition imessage_deliver :: "(nat \<Rightarrow> imessage_event \<Rightarrow> ('w, unit) comp) \<Rightarrow> imessage \<Rightarrow> imessage_event \<Rightarrow> ('w, delivery) comp" where
  "imessage_deliver handlers s event = runHandler (lit ''imessage'') (map_option handlers (im_handler s)) event"

section \<open>Rows\<close>

text \<open>\<open>onNotification\<close>, called by the open client of child \<open>k\<close>.\<close>

definition imessage_notified :: "nat \<Rightarrow> js \<Rightarrow> json option \<Rightarrow> imessage \<Rightarrow> imessage" where
  "imessage_notified k mth params s =
     (if \<not> client_open k s \<or> mth \<noteq> lit ''message'' then s
      else case chained params (lit ''message'') of
        None \<Rightarrow> s
      | Some row \<Rightarrow> s\<lparr>im_rows := im_rows s @ [(k, row)]\<rparr>)"

definition row_id :: "json \<Rightarrow> rat option" where
  "row_id row = (case member_of row (lit ''id'') of Some (JNum n) \<Rightarrow> Some n | _ \<Rightarrow> None)"

definition move_cursor :: "rat option \<Rightarrow> imessage \<Rightarrow> imessage" where
  "move_cursor rowId s =
     (case rowId of
        None \<Rightarrow> s
      | Some r \<Rightarrow> s\<lparr>im_lastRowId := Some (case im_lastRowId s of None \<Rightarrow> r | Some l \<Rightarrow> max r l)\<rparr>)"

text \<open>
  The turn of the row that waits first, once the one before it is done: \<open>handleRow\<close> up to its await. A row
  that is \<open>null\<close> makes it throw, which the queue contains.
\<close>

definition handleRow :: "runtime \<Rightarrow> imessage \<Rightarrow> imessage" where
  "handleRow rt s =
     (case (im_running s, im_rows s) of
        (None, (k, row) # rest) \<Rightarrow>
          let s1 = s\<lparr>im_rows := rest\<rparr> in
          if cs_current s1 \<noteq> Some k then s1
          else if row = JNull then child_say imessage_kind (lit ''handler threw: '' @ text_of type_error) s1
          else if (case (row_id row, im_lastRowId s1) of (Some r, Some l) \<Rightarrow> r \<le> l | _ \<Rightarrow> False) then s1
          else (case imessageRowToMessageEvent rt row (rt_now rt) of
              None \<Rightarrow> move_cursor (row_id row) s1
            | Some event \<Rightarrow>
                (case im_handler s1 of
                   None \<Rightarrow> s1
                 | Some h \<Rightarrow> s1\<lparr>im_running := Some (row_id row), im_calls := im_calls s1 @ [(h, event)]\<rparr>))
      | _ \<Rightarrow> s)"

text \<open>The handler of the running row settles; \<open>runHandler\<close> contains what it threw.\<close>

definition handler_settles :: "thrown option \<Rightarrow> imessage \<Rightarrow> imessage" where
  "handler_settles threw s =
     (case im_running s of
        None \<Rightarrow> s
      | Some rowId \<Rightarrow>
          move_cursor rowId
            (s\<lparr>im_running := None,
               cs_log := cs_log s @ (case threw of None \<Rightarrow> [] | Some err \<Rightarrow> [lit ''[imessage] handler threw: '' @ text_of err @ [nl]])\<rparr>))"

section \<open>Sending\<close>

record imessage_params =
  ip_chatId :: nat
  ip_text :: js

datatype imessage_send = ToldAtOnce child_send | AsksChild nat imessage_params

text \<open>\<open>toChatId\<close>: \<open>/^[1-9]\d*$/\<close> and a safe integer; what is longer rounds to a number above the last one.\<close>

definition toChatId :: "js \<Rightarrow> nat option" where
  "toChatId i =
     (case i of
        c # ds \<Rightarrow>
          if 49 \<le> c \<and> c \<le> 57 \<and> list_all is_digit ds \<and> digits_value i < 2 ^ 53 then Some (digits_value i) else None
      | [] \<Rightarrow> None)"

definition imessage_textFor :: "outbound \<Rightarrow> imessage \<Rightarrow> js \<times> imessage" where
  "imessage_textFor out s =
     (if out_format out = Some Markdown
      then (case channelRendering (lit ''imessage'') of Inr r \<Rightarrow> translate r (out_text out) | Inl e \<Rightarrow> out_text out, s)
      else (out_text out,
        if out_format out = Some Html \<and> \<not> im_warnedAboutHtml s
        then child_say imessage_kind (lit ''format='' @ quoted (lit ''html'') @
          lit '' was declared and iMessage has no html mode; sending the text unchanged. Logged once.'') (s\<lparr>im_warnedAboutHtml := True\<rparr>)
        else s))"

definition imessage_sendMessage :: "outbound \<Rightarrow> imessage \<Rightarrow> imessage_send \<times> imessage" where
  "imessage_sendMessage out s =
     (if out_text out = [] then (ToldAtOnce (NotSent (lit ''empty_text'') (JStr (lit ''outbound text is empty''))), s)
      else case toChatId (ch_id (out_channel out)) of
        None \<Rightarrow>
          (ToldAtOnce (NotSent (lit ''invalid_chat_id'')
            (JStr (lit ''channel.id must be imsg'' @ [39] @ lit ''s chat id, a positive integer, got '' @ quoted (ch_id (out_channel out))))), s)
      | Some chatId \<Rightarrow>
          (case (cs_connected s, cs_current s) of
             (True, Some k) \<Rightarrow>
               (case imessage_textFor out s of
                  (text, s1) \<Rightarrow> (AsksChild k \<lparr>ip_chatId = chatId, ip_text = text\<rparr>, s1\<lparr>im_asked := im_asked s1 @ [k]\<rparr>))
           | _ \<Rightarrow> (ToldAtOnce (NotSent (lit ''not_connected'') (JStr (lit ''IMessageAdapter.connect() has not succeeded''))), s)))"

definition sentResult :: "runtime \<Rightarrow> json option \<Rightarrow> child_send" where
  "sentResult rt result =
     (case (chained result (lit ''guid''), chained result (lit ''id'')) of
        (Some (JStr guid), _) \<Rightarrow> Sent (Some guid)
      | (_, Some (JNum n)) \<Rightarrow> Sent (Some (rt_text rt n))
      | _ \<Rightarrow> Sent None)"

definition imessage_toSendResult :: "runtime \<Rightarrow> nat \<Rightarrow> rpc_outcome \<Rightarrow> imessage \<Rightarrow> child_send \<times> imessage" where
  "imessage_toSendResult rt k outcome s =
     (case outcome of
        RpcResult result \<Rightarrow> (sentResult rt result, s)
      | RpcError code message data \<Rightarrow>
          (case imessage_mapSendError code message data of
             (result, endChild) \<Rightarrow> (result, if endChild then end_session k s else s))
      | RpcTimeout \<Rightarrow> (NotSent (lit ''timeout'') (JStr (lit ''imsg did not answer the send in time'')), s)
      | RpcDisconnected \<Rightarrow> (NotSent (lit ''transport_closed'') (JStr (lit ''imsg ended before answering the send'')), s))"

section \<open>Runs\<close>

datatype imessage_step_event =
    IMessageConnect "thrown option"
  | IMessageAnswered nat rpc_outcome
  | IMessageCleared nat
  | IMessageClosed nat js
  | IMessageExited nat js
  | IMessageDisconnect
  | IMessageSubscribe nat
  | IMessageUnsubscribe nat
  | RowArrives nat js "json option"
  | RowTurn
  | HandlerSettles "thrown option"
  | IMessageSend outbound
  | SendAnswered nat rpc_outcome

text \<open>A send is answered once, on a child it was asked of.\<close>

fun imessage_step :: "runtime \<Rightarrow> imessage \<Rightarrow> imessage_step_event \<Rightarrow> imessage" where
  "imessage_step rt s (IMessageConnect threw) = imessage_connect threw s"
| "imessage_step rt s (IMessageAnswered k outcome) = imessage_answered rt k outcome s"
| "imessage_step rt s (IMessageCleared k) = imessage_cleared k s"
| "imessage_step rt s (IMessageClosed k reason) = imessage_closed k reason s"
| "imessage_step rt s (IMessageExited k how) = imessage_exited k how s"
| "imessage_step rt s IMessageDisconnect = imessage_disconnect s"
| "imessage_step rt s (IMessageSubscribe h) = imessage_onInbound h s"
| "imessage_step rt s (IMessageUnsubscribe h) = imessage_off h s"
| "imessage_step rt s (RowArrives k mth params) = imessage_notified k mth params s"
| "imessage_step rt s RowTurn = handleRow rt s"
| "imessage_step rt s (HandlerSettles threw) = handler_settles threw s"
| "imessage_step rt s (IMessageSend out) = snd (imessage_sendMessage out s)"
| "imessage_step rt s (SendAnswered k outcome) =
     (if k \<in> set (im_asked s) then snd (imessage_toSendResult rt k outcome (s\<lparr>im_asked := remove1 k (im_asked s)\<rparr>)) else s)"

section \<open>The child\<close>

definition imessage_inv :: "imessage \<Rightarrow> bool" where
  "imessage_inv s \<longleftrightarrow> child_inv s \<and> set (im_asked s) \<subseteq> set (cs_started s)"

lemma imessage_keeps [simp]:
  "child_inv (s\<lparr>im_handler := h\<rparr>) = child_inv s" "child_inv (s\<lparr>im_calls := cs\<rparr>) = child_inv s"
  "child_inv (s\<lparr>im_warnedAboutHtml := w\<rparr>) = child_inv s" "child_inv (s\<lparr>im_rows := r\<rparr>) = child_inv s"
  "child_inv (s\<lparr>im_running := u\<rparr>) = child_inv s" "child_inv (s\<lparr>im_asked := a\<rparr>) = child_inv s"
  "child_inv (s\<lparr>im_subscribed := b\<rparr>) = child_inv s" "child_inv (s\<lparr>im_lastRowId := l\<rparr>) = child_inv s"
  "child_inv (s\<lparr>cs_log := lg\<rparr>) = child_inv s"
  by (rule child_inv_cong; simp)+

text \<open>What no step of the session reads or changes.\<close>

definition row_view :: "imessage \<Rightarrow> rat option \<times> (nat \<times> json) list \<times> rat option option \<times> (nat \<times> rat option) list \<times> (nat \<times> imessage_event) list" where
  "row_view s = (im_lastRowId s, im_rows s, im_running s, im_subscribed s, im_calls s)"

lemma imessage_say [simp]:
  "im_asked (child_say kind l s) = im_asked s" "row_view (child_say kind l s) = row_view s"
  by (simp_all add: child_say_def row_view_def)

lemma imessage_session [simp]:
  "im_asked (child_connect kind threw s) = im_asked s" "row_view (child_connect kind threw s) = row_view s"
  "im_asked (child_answered rt kind k outcome s) = im_asked s" "row_view (child_answered rt kind k outcome s) = row_view s"
  "im_asked (child_cleared k s) = im_asked s" "row_view (child_cleared k s) = row_view s"
  "im_asked (child_closed kind k reason s) = im_asked s" "row_view (child_closed kind k reason s) = row_view s"
  "im_asked (end_session k s) = im_asked s" "row_view (end_session k s) = row_view s"
  by (simp_all add: child_connect_def child_answered_def child_cleared_def child_closed_def end_session_def attempt_answers_def
    child_say_def row_view_def Let_def del: lit_simps split: option.splits rpc_outcome.splits)

lemma imessage_started:
  "set (cs_started s) \<subseteq> set (cs_started (child_connect kind threw s))"
  "cs_started (child_answered rt kind k outcome s) = cs_started s" "cs_started (child_cleared k s) = cs_started s"
  "cs_started (child_closed kind k reason s) = cs_started s" "cs_started (end_session k s) = cs_started s"
  by (auto simp: child_connect_def child_answered_def child_cleared_def child_closed_def end_session_def attempt_answers_def
    child_say_def Let_def simp del: lit_simps split: option.splits rpc_outcome.splits)

lemma move_cursor_same [simp]:
  "child_inv (move_cursor r s) = child_inv s" "im_asked (move_cursor r s) = im_asked s" "cs_started (move_cursor r s) = cs_started s"
  by (simp_all add: move_cursor_def split: option.splits)

lemma handleRow_same [simp]:
  "child_inv (handleRow rt s) = child_inv s" "im_asked (handleRow rt s) = im_asked s" "cs_started (handleRow rt s) = cs_started s"
  by (simp_all add: handleRow_def Let_def split: option.splits list.splits prod.splits)

lemma textFor_same [simp]:
  "child_inv (snd (imessage_textFor out s)) = child_inv s" "im_asked (snd (imessage_textFor out s)) = im_asked s"
  "cs_started (snd (imessage_textFor out s)) = cs_started s" "row_view (snd (imessage_textFor out s)) = row_view s"
  by (simp_all add: imessage_textFor_def row_view_def child_say_def child_inv_def client_open_def del: lit_simps)

fun imessage_tellable :: "runtime \<Rightarrow> imessage_step_event \<Rightarrow> bool" where
  "imessage_tellable rt (IMessageAnswered k outcome) = (describe_outcome rt imessage_kind outcome \<noteq> None)"
| "imessage_tellable rt _ = True"

lemma imessage_send_state:
  "snd (imessage_sendMessage out s) = s \<or>
   (\<exists>k. cs_current s = Some k \<and>
      snd (imessage_sendMessage out s) = snd (imessage_textFor out s) \<lparr>im_asked := im_asked s @ [k]\<rparr>)"
  by (auto simp: imessage_sendMessage_def split_beta simp del: lit_simps split: option.splits bool.splits)

lemma imessage_send_inv:
  assumes "imessage_inv s" shows "imessage_inv (snd (imessage_sendMessage out s))"
  using imessage_send_state [of out s] assms current_started [of s] by (auto simp: imessage_inv_def)

lemma imessage_toSend_state:
  "snd (imessage_toSendResult rt k outcome s) = s \<or> snd (imessage_toSendResult rt k outcome s) = end_session k s"
  by (simp add: imessage_toSendResult_def split_beta split: rpc_outcome.splits)

lemma imessage_step_inv:
  assumes "imessage_inv s" "imessage_tellable rt e" shows "imessage_inv (imessage_step rt s e)"
proof -
  have i: "child_inv s" and a: "set (im_asked s) \<subseteq> set (cs_started s)" using assms(1) by (simp_all add: imessage_inv_def)
  show ?thesis
  proof (cases e)
    case (IMessageConnect threw)
    then show ?thesis using child_inv_connect [OF i] a imessage_started(1) [of s imessage_kind threw]
      by (auto simp: imessage_inv_def imessage_connect_def Let_def)
  next
    case (SendAnswered k outcome)
    let ?s = "s\<lparr>im_asked := remove1 k (im_asked s)\<rparr>"
    have "imessage_inv ?s" using i a set_remove1_subset [of k "im_asked s"] by (auto simp: imessage_inv_def)
    moreover have "imessage_inv (end_session k ?s)" if "k \<in> set (im_asked s)"
      using that a calculation child_inv_end [of ?s k] by (auto simp: imessage_inv_def imessage_started)
    ultimately show ?thesis using SendAnswered assms(1) imessage_toSend_state [of rt k outcome ?s] by auto
  next
    case IMessageDisconnect
    then show ?thesis using assms(1) child_inv_end [OF i] current_started [OF i]
      by (auto simp: imessage_disconnect_def imessage_inv_def imessage_started split: option.splits)
  next
    case (IMessageSend out)
    then show ?thesis using imessage_send_inv [OF assms(1)] by simp
  qed (use i a assms(2) in \<open>auto simp: imessage_inv_def imessage_answered_def imessage_cleared_def imessage_closed_def
    imessage_exited_def imessage_onInbound_def imessage_off_def imessage_notified_def handler_settles_def imessage_started
    child_inv_answered child_inv_cleared child_inv_closed simp del: lit_simps split: option.splits\<close>)
qed

lemma imessage_run_inv: "imessage_inv s \<Longrightarrow> list_all (imessage_tellable rt) es \<Longrightarrow> imessage_inv (foldl (imessage_step rt) s es)"
  by (induction es arbitrary: s) (simp_all add: imessage_step_inv)

lemma new_imessage: "imessage_inv (newIMessageAdapter dbPath)"
  by (simp add: imessage_inv_def newIMessageAdapter_def child_inv_fresh fresh_child_def)

section \<open>The cursor\<close>

text \<open>The ids of the rows handed to handlers, in order; the one in its handler; what the cursor covers.\<close>

definition call_ids :: "imessage \<Rightarrow> rat list" where
  "call_ids s = concat (map (\<lambda>c. case row_id (im_raw (snd c)) of None \<Rightarrow> [] | Some r \<Rightarrow> [r]) (im_calls s))"

definition running_ids :: "imessage \<Rightarrow> rat set" where
  "running_ids s = (case im_running s of Some (Some q) \<Rightarrow> {q} | _ \<Rightarrow> {})"

definition covered :: "imessage \<Rightarrow> rat \<Rightarrow> bool" where
  "covered s r \<longleftrightarrow> Some r \<le> im_lastRowId s"

definition rows_inv :: "imessage \<Rightarrow> bool" where
  "rows_inv s \<longleftrightarrow> sorted_wrt (<) (call_ids s) \<and> set (call_ids s) \<subseteq> {r. covered s r} \<union> running_ids s \<and>
     sorted (map snd (im_subscribed s) @ [im_lastRowId s])"

lemma rows_inv_view: "row_view s = row_view t \<Longrightarrow> rows_inv s = rows_inv t"
  by (simp add: rows_inv_def call_ids_def running_ids_def covered_def row_view_def)

lemma row_view_cong:
  "row_view (s\<lparr>im_handler := h\<rparr>) = row_view s" "row_view (s\<lparr>im_asked := a\<rparr>) = row_view s" "row_view (s\<lparr>cs_log := l\<rparr>) = row_view s"
  by (simp_all add: row_view_def)

lemma rows_inv_rows [simp]: "rows_inv (s\<lparr>im_rows := r\<rparr>) = rows_inv s"
  by (simp add: rows_inv_def call_ids_def running_ids_def covered_def)

lemma move_cursor_up:
  "im_lastRowId s \<le> im_lastRowId (move_cursor r s)" "Some q \<le> im_lastRowId (move_cursor (Some q) s)"
  by (auto simp: move_cursor_def split: option.splits)

lemma move_cursor_rows [simp]:
  "call_ids (move_cursor r s) = call_ids s" "running_ids (move_cursor r s) = running_ids s"
  "im_subscribed (move_cursor r s) = im_subscribed s"
  by (simp_all add: move_cursor_def call_ids_def running_ids_def split: option.splits)

lemma sorted_up: "sorted (xs @ [a]) \<Longrightarrow> a \<le> b \<Longrightarrow> sorted (xs @ [b])"
  by (auto simp: sorted_append intro: order_trans)

lemma covered_up: "covered s q \<Longrightarrow> covered (move_cursor r s) q"
  using move_cursor_up(1) [of s r] by (auto simp: covered_def intro: order_trans)

lemma rows_inv_cursor: "rows_inv s \<Longrightarrow> rows_inv (move_cursor r s)"
  using sorted_up [OF _ move_cursor_up(1) [of s r]] covered_up [of s] by (auto simp: rows_inv_def)

lemma rows_inv_settled:
  assumes "rows_inv s" "im_running s = Some r" shows "rows_inv (move_cursor r (s\<lparr>im_running := None, cs_log := l\<rparr>))"
proof -
  let ?s = "s\<lparr>im_running := None, cs_log := l\<rparr>"
  have c: "call_ids ?s = call_ids s" "running_ids ?s = {}" by (simp_all add: call_ids_def running_ids_def)
  have "covered (move_cursor r ?s) q" if "q \<in> set (call_ids s)" for q
  proof (cases "covered s q")
    case True
    then show ?thesis using move_cursor_up(1) [of ?s r] by (auto simp: covered_def intro: order_trans)
  next
    case False
    then have "r = Some q" using that assms by (auto simp: rows_inv_def running_ids_def split: option.splits)
    then show ?thesis using move_cursor_up(2) [of q ?s] by (simp add: covered_def)
  qed
  then show ?thesis using assms(1) c sorted_up [OF _ move_cursor_up(1) [of ?s r], of "map snd (im_subscribed s)"]
    by (simp add: rows_inv_def subset_iff)
qed

lemma event_raw: "imessageRowToMessageEvent rt row now = Some ev \<Longrightarrow> im_raw ev = row"
  by (auto simp: imessageRowToMessageEvent_def split: if_splits option.splits json.splits)

lemma rows_inv_called:
  assumes "rows_inv s" "im_running s = None" "im_raw ev = row" "\<And>r. row_id row = Some r \<Longrightarrow> \<not> covered s r"
  shows "rows_inv (s\<lparr>im_running := Some (row_id row), im_calls := im_calls s @ [(h, ev)]\<rparr>)"
proof -
  have cov: "covered s q" if "q \<in> set (call_ids s)" for q
    using that assms(1,2) by (auto simp: rows_inv_def running_ids_def)
  have "q < r" if "q \<in> set (call_ids s)" "row_id row = Some r" for q r
    using cov [OF that(1)] assms(4) [OF that(2)] by (cases "im_lastRowId s") (auto simp: covered_def)
  then show ?thesis using assms(1,3) cov
    by (cases "row_id row") (auto simp: rows_inv_def call_ids_def running_ids_def covered_def sorted_wrt_append)
qed

lemma rows_inv_turn:
  assumes "rows_inv s" shows "rows_inv (handleRow rt s)"
proof (cases "im_running s = None \<and> im_rows s \<noteq> []")
  case True
  then obtain k row rest where r: "im_rows s = (k, row) # rest" "im_running s = None" by (cases "im_rows s") auto
  let ?s = "s\<lparr>im_rows := rest\<rparr>"
  have i: "rows_inv ?s" using assms by simp
  define seen where "seen = (case (row_id row, im_lastRowId s) of (Some r, Some l) \<Rightarrow> r \<le> l | _ \<Rightarrow> False)"
  have n: "\<not> covered ?s q" if "\<not> seen" "row_id row = Some q" for q
    using that by (auto simp: covered_def seen_def split: option.splits)
  have step: "handleRow rt s =
     (if cs_current s \<noteq> Some k then ?s
      else if row = JNull then child_say imessage_kind (lit ''handler threw: '' @ text_of type_error) ?s
      else if seen then ?s
      else (case imessageRowToMessageEvent rt row (rt_now rt) of
          None \<Rightarrow> move_cursor (row_id row) ?s
        | Some event \<Rightarrow>
            (case im_handler ?s of
               None \<Rightarrow> ?s
             | Some h \<Rightarrow> ?s\<lparr>im_running := Some (row_id row), im_calls := im_calls ?s @ [(h, event)]\<rparr>)))"
    using r by (simp add: handleRow_def seen_def Let_def del: lit_simps)
  have "rows_inv (?s\<lparr>im_running := Some (row_id row), im_calls := im_calls ?s @ [(h, event)]\<rparr>)"
    if "imessageRowToMessageEvent rt row (rt_now rt) = Some event" "\<not> seen" for h event
    by (rule rows_inv_called [OF i _ event_raw [OF that(1)]]) (use r n that(2) in auto)
  moreover have "rows_inv (child_say imessage_kind l ?s)" for l
    using i rows_inv_view [of "child_say imessage_kind l ?s" ?s] by simp
  ultimately show ?thesis unfolding step using i rows_inv_cursor [OF i]
    by (simp del: lit_simps rows_inv_rows split: option.split)
next
  case False
  then show ?thesis using assms by (auto simp: handleRow_def split: option.splits list.splits)
qed


lemma row_view_updates:
  "row_view (s\<lparr>im_asked := a\<rparr>) = row_view s" "row_view (s\<lparr>im_handler := h\<rparr>) = row_view s"
  by (simp_all add: row_view_def)

lemma rows_inv_step:
  assumes "rows_inv s" shows "rows_inv (imessage_step rt s e)"
proof (cases e)
  case (IMessageConnect threw)
  define t where "t = child_connect imessage_kind threw s"
  have i: "rows_inv t" using assms rows_inv_view [of t s] by (simp add: t_def)
  have "rows_inv (t\<lparr>im_subscribed := im_subscribed t @ [(cs_next s, im_lastRowId t)]\<rparr>)"
    using i by (auto simp: rows_inv_def call_ids_def running_ids_def covered_def sorted_append)
  then show ?thesis using IMessageConnect i by (simp add: imessage_connect_def t_def [symmetric])
next
  case (SendAnswered k outcome)
  let ?s = "s\<lparr>im_asked := remove1 k (im_asked s)\<rparr>"
  have "row_view (snd (imessage_toSendResult rt k outcome ?s)) = row_view s"
    using imessage_toSend_state [of rt k outcome ?s] by (auto simp: row_view_updates)
  from rows_inv_view [OF this] show ?thesis using SendAnswered assms by simp
next
  case (IMessageSend out)
  have "row_view (snd (imessage_sendMessage out s)) = row_view s"
    using imessage_send_state [of out s] by (auto simp: row_view_updates)
  from rows_inv_view [OF this] show ?thesis using IMessageSend assms by simp
next
  case (HandlerSettles threw)
  then show ?thesis using assms rows_inv_settled [OF assms] by (simp add: handler_settles_def split: option.split)
next
  case (RowArrives k mth params)
  then show ?thesis using assms by (simp add: imessage_notified_def del: lit_simps split: option.split)
next
  case IMessageDisconnect
  have "row_view (imessage_disconnect s) = row_view s" by (simp add: imessage_disconnect_def split: option.split)
  from rows_inv_view [OF this] show ?thesis using IMessageDisconnect assms by simp
next
  case (IMessageExited k how)
  have "row_view (imessage_exited k how s) = row_view s" by (simp add: imessage_exited_def)
  from rows_inv_view [OF this] show ?thesis using IMessageExited assms by simp
next
  case (IMessageAnswered k outcome)
  then show ?thesis using assms rows_inv_view [of "imessage_answered rt k outcome s" s] by (simp add: imessage_answered_def)
next
  case (IMessageCleared k)
  then show ?thesis using assms rows_inv_view [of "imessage_cleared k s" s] by (simp add: imessage_cleared_def)
next
  case (IMessageClosed k reason)
  then show ?thesis using assms rows_inv_view [of "imessage_closed k reason s" s] by (simp add: imessage_closed_def)
next
  case (IMessageSubscribe h)
  then show ?thesis using assms rows_inv_view [OF row_view_updates(2)] by (simp add: imessage_onInbound_def)
next
  case (IMessageUnsubscribe h)
  then show ?thesis using assms rows_inv_view [OF row_view_updates(2)] by (simp add: imessage_off_def)
qed (simp add: rows_inv_turn assms)

lemma rows_inv_run: "rows_inv s \<Longrightarrow> rows_inv (foldl (imessage_step rt) s es)"
  by (induction es arbitrary: s) (simp_all add: rows_inv_step)

lemma new_rows: "rows_inv (newIMessageAdapter dbPath)"
  by (simp add: rows_inv_def newIMessageAdapter_def call_ids_def)

section \<open>Properties\<close>

text \<open>
  C10: whatever the order of connects, closings, rows, turns and handlers: the rows handed to handlers go up in their
  ids, so that none is handed twice, whichever children wrote it; the cursor covers each but the one in its
  handler; and it never goes back from one subscription to the next.
\<close>
theorem imessage_rows_go_up:
  "let s = foldl (imessage_step rt) (newIMessageAdapter dbPath) es
   in sorted_wrt (<) (call_ids s) \<and> set (call_ids s) \<subseteq> {r. covered s r} \<union> running_ids s \<and>
      sorted (map snd (im_subscribed s) @ [im_lastRowId s])"
  using rows_inv_run [OF new_rows] by (simp add: rows_inv_def)

text \<open>
  Of the children started only the current one is neither ended nor closed, and the adapter counts as connected
  only while it has one, whatever the order of what happens and whatever a send makes the adapter end, provided that
  every error the first request is answered with can be told: one whose code or message is an object that hides
  \<open>toString\<close> makes the attempt reject and leaves its child.
\<close>
theorem imessage_children_are_held:
  assumes "list_all (imessage_tellable rt) es" "s = foldl (imessage_step rt) (newIMessageAdapter dbPath) es"
  shows "{k. client_open k s} = set_option (cs_current s) \<and> (cs_connected s \<longrightarrow> cs_current s \<noteq> None)"
proof -
  have i: "child_inv s" using imessage_run_inv [OF new_imessage assms(1)] unfolding assms(2) imessage_inv_def by blast
  show ?thesis using child_invD(3,6) [OF i] by auto
qed

text \<open>
  A send that failed is told as not sent only where \<open>imsg\<close> said that it had not started; and the child is given
  up only for a blocked lane.
\<close>
theorem imessage_not_sent_means_not_started:
  "case imessage_toSendResult rt k (RpcError code message data) s of
     (result, s') \<Rightarrow> (result = NotSent (lit ''imsg_not_sent'') message \<longleftrightarrow> wasNotStarted data \<and> code \<noteq> SEND_LANE_BLOCKED) \<and>
       s' = (if code = SEND_LANE_BLOCKED then end_session k s else s)"
  by (simp add: imessage_toSendResult_def imessage_mapSendError_def)

text \<open>The digits of a chat id are read back: a reply to the channel of an event asks for the chat it came from.\<close>

definition prints_naturals :: "runtime \<Rightarrow> bool" where
  "prints_naturals rt \<longleftrightarrow> (\<forall>n < 2 ^ 53. rt_text rt (of_nat n) = dec n)"

lemma dec_starts: "0 < n \<Longrightarrow> \<exists>c ds. dec n = c # ds \<and> 49 \<le> c \<and> c \<le> 57"
proof (induction n rule: dec.induct)
  case (1 n)
  show ?case
  proof (cases "n < 10")
    case True
    then show ?thesis using 1(2) by (subst dec.simps) simp
  next
    case False
    then have "0 < n div 10" by (simp add: div_greater_zero_iff)
    with 1(1) [OF False] show ?thesis using False by (subst dec.simps) auto
  qed
qed

lemma toChatId_dec:
  assumes "0 < n" "n < 2 ^ 53" shows "toChatId (dec n) = Some n"
proof -
  obtain c ds where d: "dec n = c # ds" "49 \<le> c" "c \<le> 57" using dec_starts [OF assms(1)] by blast
  then show ?thesis using assms(2) dec_digits [of n] digits_value_dec [of n, unfolded d(1)] by (simp add: toChatId_def)
qed

theorem imessage_replies_go_back:
  assumes "prints_naturals rt" "imessageRowToMessageEvent rt row now = Some ev" "im_chatId ev = of_nat n" "0 < n" "n < 2 ^ 53"
    "ch_id (out_channel out) = im_channelId ev" "out_text out \<noteq> []" "cs_connected s" "cs_current s = Some k"
  shows "\<exists>text. fst (imessage_sendMessage out s) = AsksChild k \<lparr>ip_chatId = n, ip_text = text\<rparr>"
proof -
  have "im_channelId ev = rt_text rt (im_chatId ev)"
    using assms(2) by (auto simp: imessageRowToMessageEvent_def split: if_splits option.splits json.splits)
  then have "toChatId (ch_id (out_channel out)) = Some n"
    using assms(1,3-6) toChatId_dec by (simp add: prints_naturals_def)
  then show ?thesis using assms(7-9) by (simp add: imessage_sendMessage_def split_beta)
qed

section \<open>Runs of a new adapter\<close>

definition imessage_rt :: runtime where
  "imessage_rt = \<lparr>rt_number = (\<lambda>s. NaN), rt_text = (\<lambda>q. dec (nat \<lfloor>q\<rfloor>)), rt_thousand = (\<lambda>q. NaN), rt_now = 7\<rparr>"

definition imessage_run :: "imessage_step_event list \<Rightarrow> imessage" where
  "imessage_run es = foldl (imessage_step imessage_rt) (newIMessageAdapter None) es"

definition imessage_row :: "rat \<Rightarrow> json" where
  "imessage_row n = JObj [(lit ''id'', JNum n), (lit ''is_from_me'', JBool False), (lit ''text'', JStr (lit ''hi'')),
     (lit ''chat_id'', JNum 4), (lit ''guid'', JStr (lit ''g'')), (lit ''sender'', JStr (lit ''a''))]"

definition row_note :: "rat \<Rightarrow> json option" where
  "row_note n = Some (JObj [(lit ''message'', imessage_row n)])"

definition imessage_opens :: "imessage_step_event list" where
  "imessage_opens = [IMessageConnect None, IMessageAnswered 0 (RpcResult None), IMessageCleared 0]"

definition open_imessage :: imessage where
  "open_imessage = foldl (imessage_step imessage_rt) (newIMessageAdapter None) imessage_opens"

theorem imessage_children_are_held_witness:
  "cs_started open_imessage = [0] \<and> {k. client_open k open_imessage} = {0} \<and> cs_connected open_imessage"
proof -
  have t: "list_all (imessage_tellable imessage_rt) imessage_opens" by (simp add: describe_outcome_def imessage_opens_def)
  have "cs_started open_imessage = [0]" "cs_current open_imessage = Some 0" "cs_connected open_imessage" by code_simp+
  then show ?thesis using imessage_children_are_held [OF t open_imessage_def] by simp
qed

definition chat_out :: outbound where
  "chat_out = \<lparr>out_channel = \<lparr>ch_id = lit ''4'', ch_type = DM, ch_topicId = None\<rparr>, out_text = lit ''hi'',
     out_format = None, out_replyTo = None\<rparr>"

theorem imessage_replies_go_back_witness:
  "\<exists>text. fst (imessage_sendMessage chat_out open_imessage) = AsksChild 0 \<lparr>ip_chatId = 4, ip_text = text\<rparr>"
proof -
  let ?ev = "the (imessageRowToMessageEvent imessage_rt (imessage_row 1) 7)"
  have p: "prints_naturals imessage_rt" by (simp add: prints_naturals_def imessage_rt_def)
  have e: "imessageRowToMessageEvent imessage_rt (imessage_row 1) 7 = Some ?ev" "im_chatId ?ev = of_nat 4" "im_channelId ?ev = lit ''4''"
    by (simp_all add: imessageRowToMessageEvent_def imessage_row_def imessage_rt_def dec.simps)
  have o: "ch_id (out_channel chat_out) = im_channelId ?ev" "out_text chat_out \<noteq> []" using e(3) by (simp_all add: chat_out_def)
  have c: "cs_connected open_imessage" "cs_current open_imessage = Some 0" by code_simp+
  show ?thesis by (rule imessage_replies_go_back [OF p e(1,2) _ _ o c]) simp_all
qed

text \<open>
  A row that waits when its child closes is lost if no row was finished before the next connect: the new child
  is told of no cursor, and the old child's row is not started. Row 1 is in its handler, row 2 waits.
\<close>
theorem first_rows_are_lost:
  "let s = imessage_run (imessage_opens @ [IMessageSubscribe 3, RowArrives 0 (lit ''message'') (row_note 1), RowTurn,
       RowArrives 0 (lit ''message'') (row_note 2), IMessageClosed 0 (lit ''exited with code 1''), IMessageConnect None,
       HandlerSettles None, RowTurn])
   in call_ids s = [1] \<and> im_rows s = [] \<and> im_subscribed s = [(0, None), (1, None)]"
  by code_simp

end
