(* ===== verification/SmsAdapter.thy ===== *)
theory SmsAdapter
  imports SmsSplit Runner WebhookServer
begin

text \<open>
  The SMS adapter (\<open>gateway-sms/src\<close>: \<open>adapter.ts\<close>, \<open>backend/\<close>, \<open>parse-inbound.ts\<close>, \<open>webhook-server.ts\<close>,
  \<open>webhook-verifier.ts\<close>) over its three backends. The providers' SDKs, the phone-number library,
  \<open>JSON.parse\<close> and \<open>decodeURIComponent\<close> are parameters.
\<close>

section \<open>Options\<close>

datatype sms_backend = Twilio | Plivo | Vonage

text \<open>Each variant's credentials: account and auth token; auth id and auth token; API key, API secret, signature secret.\<close>

datatype sms_credentials = TwilioCredentials js js | PlivoCredentials js js | VonageCredentials js js js

record sms_options =
  so_credentials :: sms_credentials
  so_fromNumber :: js
  so_publicUrl :: js
  so_defaultCountry :: "js option"

fun backend_of :: "sms_credentials \<Rightarrow> sms_backend" where
  "backend_of (TwilioCredentials sid token) = Twilio"
| "backend_of (PlivoCredentials i token) = Plivo"
| "backend_of (VonageCredentials key secret signing) = Vonage"

definition backend_name :: "sms_backend \<Rightarrow> js" where
  "backend_name b = (case b of Twilio \<Rightarrow> lit ''twilio'' | Plivo \<Rightarrow> lit ''plivo'' | Vonage \<Rightarrow> lit ''vonage'')"

fun secretFromOpts :: "sms_credentials \<Rightarrow> js" where
  "secretFromOpts (TwilioCredentials sid token) = token"
| "secretFromOpts (PlivoCredentials i token) = token"
| "secretFromOpts (VonageCredentials key secret signing) = signing"

section \<open>What a provider posts\<close>

text \<open>
  What the model is given of the runtime and the libraries: the clock and the texts of numbers; \<open>JSON.parse\<close>;
  \<open>decodeURIComponent\<close>, which throws on a malformed escape; \<open>JSON.stringify\<close> of a string; the number library,
  which throws with a message or answers a valid number in E.164.
\<close>

record sms_runtime =
  sx_runtime :: runtime
  sx_parse :: "js \<Rightarrow> json option"
  sx_decode :: "js \<Rightarrow> js option"
  sx_stringify :: "json \<Rightarrow> js"
  sx_phone :: "json \<Rightarrow> js option \<Rightarrow> js + js option"

definition normalizeE164 :: "sms_runtime \<Rightarrow> js option \<Rightarrow> json \<Rightarrow> js + js" where
  "normalizeE164 rt country input =
     (if input = JStr [] \<or> input = JArr [] then Inl (lit ''gateway-sms: phone number is empty'')
      else case sx_phone rt input country of
        Inl err \<Rightarrow> Inl err
      | Inr None \<Rightarrow> Inl (lit ''gateway-sms: invalid phone number '' @ sx_stringify rt input)
      | Inr (Some e164) \<Rightarrow> Inr e164)"

text \<open>A form-encoded body: \<open>None\<close> is the error of a malformed escape. Assigning \<open>__proto__\<close> adds nothing.\<close>

definition form_text :: "sms_runtime \<Rightarrow> js \<Rightarrow> js option" where
  "form_text rt s = sx_decode rt (map (\<lambda>c. if c = 43 then 32 else c) s)"

definition form_pair :: "sms_runtime \<Rightarrow> js \<Rightarrow> (js, json) jsmap option \<Rightarrow> (js, json) jsmap option" where
  "form_pair rt pair params =
     (case params of
        None \<Rightarrow> None
      | Some m \<Rightarrow>
          if pair = [] then Some m
          else case (case cut_at 61 pair of None \<Rightarrow> (pair, []) | Some kv \<Rightarrow> kv) of
            (k, v) \<Rightarrow>
              (case (form_text rt k, form_text rt v) of
                 (Some key, Some val) \<Rightarrow> Some (if key = lit ''__proto__'' then m else jm_set key (JStr val) m)
               | _ \<Rightarrow> None))"

definition parseFormUrlEncoded :: "sms_runtime \<Rightarrow> js \<Rightarrow> json option" where
  "parseFormUrlEncoded rt body = map_option JObj (fold (form_pair rt) (split_on 38 body) (Some []))"

record signature_context =
  sc_headers :: "(js \<times> js) list"
  sc_rawBody :: js
  sc_url :: js

record sms_inbound =
  si_from :: js
  si_to :: js
  si_body :: json
  si_messageId :: json
  si_receivedAt :: rat
  si_raw :: json

text \<open>The fields of a body, each with the names a backend reads it under; or the error that reading it throws.\<close>

definition named :: "json \<Rightarrow> string list \<Rightarrow> json" where
  "named params names = or_default (foldr (\<lambda>n v. coalesce (member_of params (lit n)) v) names None) (JStr [])"

definition inbound_from ::
    "sms_runtime \<Rightarrow> js option \<Rightarrow> json \<Rightarrow> string list \<Rightarrow> string list \<Rightarrow> string list \<Rightarrow> string list \<Rightarrow> js + sms_inbound" where
  "inbound_from rt country params froms tos bodies ids =
     (if params = JNull then Inl (text_of type_error)
      else case normalizeE164 rt country (named params froms) of
        Inl err \<Rightarrow> Inl err
      | Inr who \<Rightarrow>
          (case normalizeE164 rt country (named params tos) of
             Inl err \<Rightarrow> Inl err
           | Inr to_whom \<Rightarrow>
               Inr \<lparr>si_from = who, si_to = to_whom, si_body = named params bodies, si_messageId = named params ids,
                 si_receivedAt = rt_now (sx_runtime rt), si_raw = params\<rparr>))"

definition parsed_or_empty :: "sms_runtime \<Rightarrow> js \<Rightarrow> json" where
  "parsed_or_empty rt body = (case sx_parse rt body of None \<Rightarrow> JObj [] | Some v \<Rightarrow> v)"

definition uri_malformed :: js where
  "uri_malformed = lit ''URI malformed''"

definition twilio_parseInbound :: "sms_runtime \<Rightarrow> js option \<Rightarrow> signature_context \<Rightarrow> js + sms_inbound" where
  "twilio_parseInbound rt country ctx =
     (case parseFormUrlEncoded rt (sc_rawBody ctx) of
        None \<Rightarrow> Inl uri_malformed
      | Some params \<Rightarrow> inbound_from rt country params [''From''] [''To''] [''Body''] [''MessageSid'', ''SmsMessageSid''])"

definition plivo_parseInbound :: "sms_runtime \<Rightarrow> js option \<Rightarrow> signature_context \<Rightarrow> js + sms_inbound" where
  "plivo_parseInbound rt country ctx =
     (let json_body = includes_str (case map_of (sc_headers ctx) (lit ''content-type'') of None \<Rightarrow> [] | Some t \<Rightarrow> t) (lit ''application/json'')
      in case (if json_body then Some (parsed_or_empty rt (sc_rawBody ctx)) else parseFormUrlEncoded rt (sc_rawBody ctx)) of
        None \<Rightarrow> Inl uri_malformed
      | Some params \<Rightarrow> inbound_from rt country params [''From''] [''To''] [''Text'', ''text''] [''MessageUUID'', ''message_uuid''])"

definition vonage_parseInbound :: "sms_runtime \<Rightarrow> js option \<Rightarrow> signature_context \<Rightarrow> js + sms_inbound" where
  "vonage_parseInbound rt country ctx =
     inbound_from rt country (parsed_or_empty rt (sc_rawBody ctx)) [''msisdn'', ''from''] [''to''] [''text''] [''messageId'', ''message-id'']"

definition backend_parseInbound :: "sms_runtime \<Rightarrow> sms_options \<Rightarrow> signature_context \<Rightarrow> js + sms_inbound" where
  "backend_parseInbound rt opts ctx =
     (case backend_of (so_credentials opts) of
        Twilio \<Rightarrow> twilio_parseInbound rt (so_defaultCountry opts) ctx
      | Plivo \<Rightarrow> plivo_parseInbound rt (so_defaultCountry opts) ctx
      | Vonage \<Rightarrow> vonage_parseInbound rt (so_defaultCountry opts) ctx)"

record sms_event =
  se_id :: json
  se_from :: js
  se_to :: js
  se_text :: json
  se_receivedAt :: rat
  se_backend :: sms_backend
  se_raw :: json

definition inboundToMessageEvent :: "sms_inbound \<Rightarrow> sms_backend \<Rightarrow> sms_event" where
  "inboundToMessageEvent i b =
     \<lparr>se_id = si_messageId i, se_from = si_from i, se_to = si_to i, se_text = si_body i, se_receivedAt = si_receivedAt i,
      se_backend = b, se_raw = si_raw i\<rparr>"

text \<open>\<open>parse-inbound.ts\<close>, for a route of the application's own; \<open>None\<close> is its \<open>null\<close>.\<close>

definition sms_parseInbound :: "sms_runtime \<Rightarrow> sms_options \<Rightarrow> signature_context \<Rightarrow> sms_event option" where
  "sms_parseInbound rt opts ctx =
     (case backend_parseInbound rt opts ctx of
        Inl err \<Rightarrow> None
      | Inr inbound \<Rightarrow>
          if si_messageId inbound = JStr [] then None
          else Some (inboundToMessageEvent inbound (backend_of (so_credentials opts))))"

section \<open>Signatures\<close>

text \<open>
  The SDKs' checks; \<open>None\<close> for a call that throws. A loaded SDK of Plivo or Vonage may lack its function.
\<close>

record sms_sdk =
  sd_validateRequest :: "js \<Rightarrow> js \<Rightarrow> js \<Rightarrow> json \<Rightarrow> bool option"
  sd_validateV3 :: "(js \<Rightarrow> js \<Rightarrow> js \<Rightarrow> js \<Rightarrow> js \<Rightarrow> bool option) option"
  sd_verifyJwt :: "(js \<Rightarrow> js \<Rightarrow> bool option) option"

definition line_end :: "cu \<Rightarrow> bool" where
  "line_end c \<longleftrightarrow> c \<in> {10, 13, 0x2028, 0x2029}"

text \<open>\<open>/^Bearer\s+(.+)$/i\<close>; white space gives back its last unit when nothing else is left for the group.\<close>

definition bearer_rest :: "js \<Rightarrow> js option" where
  "bearer_rest s =
     (let rest = drop 6 s; spaces = takeWhile is_space rest; token = dropWhile is_space rest in
      if length s < 6 \<or> \<not> list_all2 letter_of (lit ''bearer'') (take 6 s) \<or> spaces = [] then None
      else if token \<noteq> [] then (if list_ex line_end token then None else Some token)
      else if 2 \<le> length spaces \<and> \<not> line_end (last spaces) then Some [last spaces]
      else None)"

definition twilio_verify :: "sms_runtime \<Rightarrow> sms_sdk \<Rightarrow> js \<Rightarrow> signature_context \<Rightarrow> bool option" where
  "twilio_verify rt sdk token ctx =
     (case map_of (sc_headers ctx) (lit ''x-twilio-signature'') of
        None \<Rightarrow> Some False
      | Some signature \<Rightarrow>
          (case parseFormUrlEncoded rt (sc_rawBody ctx) of
             None \<Rightarrow> None
           | Some params \<Rightarrow>
               (case sd_validateRequest sdk token signature (sc_url ctx) params of None \<Rightarrow> Some False | Some ok \<Rightarrow> Some ok)))"

definition plivo_verify :: "sms_sdk \<Rightarrow> js \<Rightarrow> signature_context \<Rightarrow> bool" where
  "plivo_verify sdk token ctx =
     (case (sd_validateV3 sdk, map_of (sc_headers ctx) (lit ''x-plivo-signature-v3''),
            map_of (sc_headers ctx) (lit ''x-plivo-signature-v3-nonce'')) of
        (Some check, Some signature, Some nonce) \<Rightarrow>
          (case check (lit ''POST'') (sc_url ctx) nonce token signature of None \<Rightarrow> False | Some ok \<Rightarrow> ok)
      | _ \<Rightarrow> False)"

definition vonage_verify :: "sms_sdk \<Rightarrow> js \<Rightarrow> signature_context \<Rightarrow> bool" where
  "vonage_verify sdk secret ctx =
     (case map_of (sc_headers ctx) (lit ''authorization'') of
        None \<Rightarrow> False
      | Some auth \<Rightarrow>
          (case (bearer_rest auth, sd_verifyJwt sdk) of
             (Some token, Some check) \<Rightarrow> (case check token secret of None \<Rightarrow> False | Some ok \<Rightarrow> ok)
           | _ \<Rightarrow> False))"

text \<open>
  \<open>verifySignature\<close> of the backend chosen, once its SDK is loaded. \<open>None\<close>: Twilio's reads the form outside its
  \<open>try\<close>, so a malformed escape throws.
\<close>

definition backend_verify :: "sms_runtime \<Rightarrow> sms_sdk \<Rightarrow> bool \<Rightarrow> sms_credentials \<Rightarrow> signature_context \<Rightarrow> bool option" where
  "backend_verify rt sdk loaded creds ctx =
     (if \<not> loaded then Some False
      else case creds of
        TwilioCredentials sid token \<Rightarrow> twilio_verify rt sdk token ctx
      | PlivoCredentials i token \<Rightarrow> Some (plivo_verify sdk token ctx)
      | VonageCredentials key secret signing \<Rightarrow> Some (vonage_verify sdk signing ctx))"

section \<open>The adapter\<close>

text \<open>
  The adapter with its backend: whether the SDK is loaded and the client made. \<open>sm_opening\<close> and \<open>sm_closing\<close> count
  the connects and disconnects that await their backend; \<open>sm_calls\<close> is the calls made to handlers.
\<close>

record sms =
  sm_options :: sms_options
  sm_loaded :: bool
  sm_client :: bool
  sm_connected :: bool
  sm_handler :: "nat option"
  sm_warnedAboutFormat :: bool
  sm_opening :: nat
  sm_closing :: nat
  sm_calls :: "(nat \<times> sms_event) list"
  sm_log :: "js list"

definition newSmsAdapter :: "sms_options \<Rightarrow> (js \<times> js) + sms" where
  "newSmsAdapter opts =
     (if secretFromOpts (so_credentials opts) = []
      then Inl (lit ''signing_secret_required'',
        lit ''gateway-sms: backend='' @ quoted (backend_name (backend_of (so_credentials opts)))
          @ lit '' requires a signing secret (would accept unsigned webhooks)'')
      else Inr \<lparr>sm_options = opts, sm_loaded = False, sm_client = False, sm_connected = False, sm_handler = None,
        sm_warnedAboutFormat = False, sm_opening = 0, sm_closing = 0, sm_calls = [], sm_log = []\<rparr>)"

text \<open>\<open>connect\<close> up to the backend's, and what follows: the SDK could be loaded, or \<open>connect\<close> rejects.\<close>

definition sms_connect :: "sms \<Rightarrow> sms" where
  "sms_connect s = (if sm_connected s then s else s\<lparr>sm_opening := Suc (sm_opening s)\<rparr>)"

definition sms_opened :: "bool \<Rightarrow> sms \<Rightarrow> sms" where
  "sms_opened installed s =
     (case sm_opening s of
        0 \<Rightarrow> s
      | Suc n \<Rightarrow>
          if sm_client s then s\<lparr>sm_opening := n, sm_connected := True\<rparr>
          else if installed then s\<lparr>sm_opening := n, sm_loaded := True, sm_client := True, sm_connected := True\<rparr>
          else s\<lparr>sm_opening := n\<rparr>)"

definition sms_disconnect :: "sms \<Rightarrow> sms" where
  "sms_disconnect s = (if \<not> sm_connected s then s else s\<lparr>sm_client := False, sm_closing := Suc (sm_closing s)\<rparr>)"

definition sms_disconnected :: "sms \<Rightarrow> sms" where
  "sms_disconnected s =
     (case sm_closing s of 0 \<Rightarrow> s | Suc n \<Rightarrow> s\<lparr>sm_closing := n, sm_connected := False, sm_handler := None\<rparr>)"

definition sms_onInbound :: "nat \<Rightarrow> sms \<Rightarrow> sms" where
  "sms_onInbound h s = s\<lparr>sm_handler := Some h\<rparr>"

definition sms_off :: "nat \<Rightarrow> sms \<Rightarrow> sms" where
  "sms_off h s = (if sm_handler s = Some h then s\<lparr>sm_handler := None\<rparr> else s)"

definition sms_deliver :: "(nat \<Rightarrow> sms_event \<Rightarrow> ('w, unit) comp) \<Rightarrow> sms \<Rightarrow> sms_event \<Rightarrow> ('w, delivery) comp" where
  "sms_deliver handlers s event = runHandler (lit ''sms'') (map_option handlers (sm_handler s)) event"

definition sms_verifySignature :: "sms_runtime \<Rightarrow> sms_sdk \<Rightarrow> sms \<Rightarrow> signature_context \<Rightarrow> bool option" where
  "sms_verifySignature rt sdk s ctx = backend_verify rt sdk (sm_loaded s) (so_credentials (sm_options s)) ctx"

definition buildEventFromCtx :: "sms_runtime \<Rightarrow> sms \<Rightarrow> signature_context \<Rightarrow> js + sms_event" where
  "buildEventFromCtx rt s ctx =
     (case backend_parseInbound rt (sm_options s) ctx of
        Inl err \<Rightarrow> Inl err
      | Inr inbound \<Rightarrow> Inr (inboundToMessageEvent inbound (backend_of (so_credentials (sm_options s)))))"

text \<open>\<open>dispatchEvent\<close>: whether a handler took the event. What the handler throws is written and contained.\<close>

definition sms_dispatchEvent :: "sms_event \<Rightarrow> sms \<Rightarrow> bool \<times> sms" where
  "sms_dispatchEvent event s =
     (case sm_handler s of
        None \<Rightarrow> (False, s)
      | Some h \<Rightarrow> (True, s\<lparr>sm_calls := sm_calls s @ [(h, event)]\<rparr>))"

datatype sms_dispatch = DispatchOk | DispatchNoHandler | DispatchParseFailed

text \<open>\<open>dispatchInbound\<close>, the way in for who calls it directly; \<open>None\<close> when the check throws.\<close>

definition sms_dispatchInbound :: "sms_runtime \<Rightarrow> sms_sdk \<Rightarrow> signature_context \<Rightarrow> sms \<Rightarrow> sms_dispatch option \<times> sms" where
  "sms_dispatchInbound rt sdk ctx s =
     (case sms_verifySignature rt sdk s ctx of
        None \<Rightarrow> (None, s)
      | Some False \<Rightarrow> (Some DispatchParseFailed, s)
      | Some True \<Rightarrow>
          (case buildEventFromCtx rt s ctx of
             Inl err \<Rightarrow> (Some DispatchParseFailed, s)
           | Inr event \<Rightarrow>
               (case sms_dispatchEvent event s of
                  (took, s1) \<Rightarrow> (Some (if took then DispatchOk else DispatchNoHandler), s1))))"

section \<open>The webhook route\<close>

text \<open>A request as Express gives it; \<open>lower\<close> is \<open>toLowerCase\<close>.\<close>

record sms_request =
  sq_headers :: "(js \<times> header) list"
  sq_rawBody :: "js option"
  sq_secure :: bool
  sq_host :: "js option"
  sq_originalUrl :: js

definition header_text :: "header \<Rightarrow> js" where
  "header_text h =
     (case h of
        NoHeader \<Rightarrow> []
      | OneHeader v \<Rightarrow> v
      | ManyHeaders vs \<Rightarrow> (case joined [44] (map Some vs) of None \<Rightarrow> [] | Some t \<Rightarrow> t))"

definition signedUrl :: "sms_request \<Rightarrow> (js \<times> js) list \<Rightarrow> js \<Rightarrow> js" where
  "signedUrl req headers publicUrl =
     (if publicUrl \<noteq> [] then publicUrl
      else (case map_of headers (lit ''x-forwarded-proto'') of
              Some proto \<Rightarrow> proto
            | None \<Rightarrow> if sq_secure req then lit ''https'' else lit ''http'')
        @ lit ''://'' @ (case sq_host req of None \<Rightarrow> lit ''localhost'' | Some h \<Rightarrow> h) @ sq_originalUrl req)"

definition buildSignatureContext :: "(js \<Rightarrow> js) \<Rightarrow> sms_request \<Rightarrow> js \<Rightarrow> signature_context" where
  "buildSignatureContext lower req publicUrl =
     (let headers = fold (\<lambda>(k, v) m. jm_set (lower k) (header_text v) m) (sq_headers req) [] in
      \<lparr>sc_headers = headers, sc_rawBody = (case sq_rawBody req of None \<Rightarrow> [] | Some b \<Rightarrow> b),
       sc_url = signedUrl req headers publicUrl\<rparr>)"

text \<open>The handler of the route: a status and a text; \<open>None\<close> when it throws, which Express answers with 500.\<close>

definition sms_route ::
    "(js \<Rightarrow> js) \<Rightarrow> sms_runtime \<Rightarrow> sms_sdk \<Rightarrow> sms_request \<Rightarrow> sms \<Rightarrow> (int \<times> js) option \<times> sms" where
  "sms_route lower rt sdk req s =
     (let ctx = buildSignatureContext lower req (so_publicUrl (sm_options s)) in
      case sms_verifySignature rt sdk s ctx of
        None \<Rightarrow> (None, s)
      | Some False \<Rightarrow> (Some (401, lit ''invalid signature''), s)
      | Some True \<Rightarrow>
          (case buildEventFromCtx rt s ctx of
             Inl err \<Rightarrow> (Some (400, lit ''parse failed: '' @ err), s)
           | Inr event \<Rightarrow> (Some (204, []), snd (sms_dispatchEvent event s))))"

text \<open>\<open>smsWebhookVerifier\<close>, for a route of a framework: the URL chosen and the reason of a refusal.\<close>

definition verifier_context :: "(js \<times> js) list \<Rightarrow> js \<Rightarrow> js \<Rightarrow> js option \<Rightarrow> js option \<Rightarrow> signature_context" where
  "verifier_context headers rawBody requestUrl optsUrl adapterUrl =
     \<lparr>sc_headers = headers, sc_rawBody = rawBody,
      sc_url = (case optsUrl of Some u \<Rightarrow> u | None \<Rightarrow> (case adapterUrl of Some u \<Rightarrow> u | None \<Rightarrow> requestUrl))\<rparr>"

definition smsWebhookVerifier ::
    "(signature_context \<Rightarrow> bool option) \<Rightarrow> (js \<times> js) list \<Rightarrow> js \<Rightarrow> js \<Rightarrow> js option \<Rightarrow> js option \<Rightarrow> js option option" where
  "smsWebhookVerifier verify headers rawBody requestUrl optsUrl adapterUrl =
     (case verify (verifier_context headers rawBody requestUrl optsUrl adapterUrl) of
        None \<Rightarrow> None
      | Some True \<Rightarrow> Some None
      | Some False \<Rightarrow> Some (Some (lit ''signature mismatch'')))"

section \<open>Sending\<close>

text \<open>The providers' answers, and what the adapter reads of an error one throws.\<close>

record vonage_message =
  vm_dashed :: "js option"
  vm_messageId :: "js option"
  vm_status :: "js option"

datatype sms_response =
    TwilioMessage js
  | PlivoCreated "js list option" "js list option" "js option"
  | VonageSent "vonage_message list option"

record rest_error =
  re_status :: "int option"
  re_statusCode :: "int option"
  re_responseStatus :: "int option"
  re_message :: "js option"
  re_text :: js

datatype sms_answer = Responded sms_response | Failed rest_error

definition first_of :: "'a list option \<Rightarrow> 'a option" where
  "first_of xs = (case xs of Some (x # ys) \<Rightarrow> Some x | _ \<Rightarrow> None)"

definition or_else_some :: "'a option \<Rightarrow> 'a option \<Rightarrow> 'a option" where
  "or_else_some a b = (case a of None \<Rightarrow> b | Some x \<Rightarrow> Some x)"

fun sms_sent :: "sms_response \<Rightarrow> send_result" where
  "sms_sent (TwilioMessage sid) = send_ok (Some sid)"
| "sms_sent (PlivoCreated uuids uuids' apiId) =
     send_ok (or_else_some (first_of uuids) (or_else_some (first_of uuids') (or_else_some apiId (Some []))))"
| "sms_sent (VonageSent messages) =
     (let msg = first_of messages;
          i = or_else_some (Option.bind msg vm_dashed) (or_else_some (Option.bind msg vm_messageId) (Some []))
      in case Option.bind msg vm_status of
           Some status \<Rightarrow>
             if status \<noteq> lit ''0'' then send_refused (lit ''send_failed'') (lit ''Vonage returned status='' @ status) else send_ok i
         | None \<Rightarrow> send_ok i)"

definition status_of :: "sms_backend \<Rightarrow> rest_error \<Rightarrow> int" where
  "status_of b e =
     (case (case b of
              Twilio \<Rightarrow> re_status e
            | Plivo \<Rightarrow> or_else_some (re_statusCode e) (re_status e)
            | Vonage \<Rightarrow> or_else_some (re_status e) (re_responseStatus e)) of
        None \<Rightarrow> 0
      | Some n \<Rightarrow> n)"

definition provider_name :: "sms_backend \<Rightarrow> js" where
  "provider_name b = (case b of Twilio \<Rightarrow> lit ''Twilio'' | Plivo \<Rightarrow> lit ''Plivo'' | Vonage \<Rightarrow> lit ''Vonage'')"

text \<open>Vonage's copy has no case for 400.\<close>

definition sms_mapError :: "sms_backend \<Rightarrow> rest_error \<Rightarrow> send_result" where
  "sms_mapError b e =
     (let status = status_of b e; said = (\<lambda>d. case re_message e of Some m \<Rightarrow> m | None \<Rightarrow> d) in
      if status = 429 then send_refused (lit ''rate_limit'') (said (provider_name b @ lit '' rate limit''))
      else if status = 401 \<or> status = 403
      then send_refused (lit ''permission_denied'') (said (provider_name b @ lit '' auth error''))
      else if status = 400 \<and> b \<noteq> Vonage
      then send_refused (lit ''invalid_request'') (said (provider_name b @ lit '' rejected request''))
      else send_refused (lit ''send_failed'') (said (re_text e)))"

text \<open>One part on the backend: \<open>post\<close> is the provider's client on the world, its last component what was posted.\<close>

definition backend_send ::
    "(js \<Rightarrow> js \<Rightarrow> 'w \<Rightarrow> sms_answer \<times> 'w) \<Rightarrow> sms \<Rightarrow> js \<Rightarrow> js \<Rightarrow> 'w \<times> js list \<Rightarrow> send_result \<times> 'w \<times> js list" where
  "backend_send post s to_whom body site =
     (if \<not> sm_client s
      then (send_refused (lit ''not_connected'')
        (provider_name (backend_of (so_credentials (sm_options s))) @ lit ''Backend.connect() not called''), site)
      else case post to_whom body (fst site) of
        (Responded r, w) \<Rightarrow> (sms_sent r, w, snd site @ [body])
      | (Failed e, w) \<Rightarrow> (sms_mapError (backend_of (so_credentials (sm_options s))) e, w, snd site @ [body]))"

fun index_in_parts :: "js \<Rightarrow> js list \<Rightarrow> nat" where
  "index_in_parts p [] = 0"
| "index_in_parts p (q # qs) = (if p = q then 0 else Suc (index_in_parts p qs))"

text \<open>The loop over the parts; the last result is what it answers when all went.\<close>

fun send_sms_parts ::
    "(js \<Rightarrow> js \<Rightarrow> 'w \<Rightarrow> sms_answer \<times> 'w) \<Rightarrow> sms \<Rightarrow> js \<Rightarrow> js list \<Rightarrow> js list \<Rightarrow> send_result option \<Rightarrow> 'w \<times> js list
       \<Rightarrow> send_result \<times> 'w \<times> js list" where
  "send_sms_parts post s to_whom parts [] lastResult site =
     (case lastResult of
        Some r \<Rightarrow> (r, site)
      | None \<Rightarrow> (send_refused (lit ''send_failed'') (lit ''no parts sent''), site))"
| "send_sms_parts post s to_whom parts (p # ps) lastResult site =
     (case backend_send post s to_whom p site of
        (r, site1) \<Rightarrow>
          if sr_ok r then send_sms_parts post s to_whom parts ps (Some r) site1
          else (send_refused (case sr_error r of None \<Rightarrow> lit ''partial_send_failure'' | Some e \<Rightarrow> err_code e)
            (lit ''partial send failed after '' @ dec (index_in_parts p parts) @ lit ''/'' @ dec (length parts) @ lit '': '' @
               (case sr_error r of None \<Rightarrow> lit ''unknown'' | Some e \<Rightarrow> err_message e)), site1))"

definition sms_warnFormatUnsupported :: "format option \<Rightarrow> sms \<Rightarrow> sms" where
  "sms_warnFormatUnsupported fmt s =
     (if fmt = None \<or> fmt = Some Plain \<or> sm_warnedAboutFormat s then s
      else s\<lparr>sm_warnedAboutFormat := True,
             sm_log := sm_log s @ [lit ''[gateway-sms] format='' @ quoted (if fmt = Some Html then lit ''html'' else lit ''markdown'')
               @ lit '' was declared, and SMS cannot carry it '' @ [0x2014]
               @ lit '' the medium is plain text. Sending unformatted; this is logged once.'' @ [nl]]\<rparr>)"

text \<open>\<open>sendMessage\<close>; \<open>Inl\<close> is the error of the splitter, which rejects. \<open>seg\<close> is the grapheme segmenter.\<close>

definition sms_sendMessage ::
    "sms_runtime \<Rightarrow> (js \<Rightarrow> js list) \<Rightarrow> (js \<Rightarrow> js \<Rightarrow> 'w \<Rightarrow> sms_answer \<times> 'w) \<Rightarrow> outbound \<Rightarrow> sms \<Rightarrow> 'w \<times> js list
       \<Rightarrow> (sms_error + send_result) \<times> sms \<times> 'w \<times> js list" where
  "sms_sendMessage rt seg post out s site =
     (if out_text out = [] then (Inr (send_refused (lit ''empty_text'') (lit ''outbound text is empty'')), s, site)
      else case normalizeE164 rt (so_defaultCountry (sm_options s)) (JStr (ch_id (out_channel out))) of
        Inl err \<Rightarrow> (Inr (send_refused (lit ''invalid_phone_number'') err), s, site)
      | Inr to_whom \<Rightarrow>
          (case splitForSMS seg (out_text out) None of
             Inl e \<Rightarrow> (Inl e, s, site)
           | Inr parts \<Rightarrow>
               let s1 = sms_warnFormatUnsupported (out_format out) s in
               (case send_sms_parts post s1 to_whom parts parts None site of
                  (r, site1) \<Rightarrow> (Inr r, s1, site1))))"

section \<open>The route\<close>

text \<open>
  What a request must bring, provider by provider: the SDK is loaded and its check accepts the signature the
  request carries, under the adapter's own secret, for the URL and, at Twilio, for the form of the body.
\<close>

fun signed_by :: "sms_runtime \<Rightarrow> sms_sdk \<Rightarrow> sms_credentials \<Rightarrow> signature_context \<Rightarrow> bool" where
  "signed_by rt sdk (TwilioCredentials sid token) ctx \<longleftrightarrow>
     (\<exists>signature params. map_of (sc_headers ctx) (lit ''x-twilio-signature'') = Some signature \<and>
        parseFormUrlEncoded rt (sc_rawBody ctx) = Some params \<and>
        sd_validateRequest sdk token signature (sc_url ctx) params = Some True)"
| "signed_by rt sdk (PlivoCredentials i token) ctx \<longleftrightarrow>
     (\<exists>signature nonce check. map_of (sc_headers ctx) (lit ''x-plivo-signature-v3'') = Some signature \<and>
        map_of (sc_headers ctx) (lit ''x-plivo-signature-v3-nonce'') = Some nonce \<and> sd_validateV3 sdk = Some check \<and>
        check (lit ''POST'') (sc_url ctx) nonce token signature = Some True)"
| "signed_by rt sdk (VonageCredentials key secret signing) ctx \<longleftrightarrow>
     (\<exists>auth token check. map_of (sc_headers ctx) (lit ''authorization'') = Some auth \<and> bearer_rest auth = Some token \<and>
        sd_verifyJwt sdk = Some check \<and> check token signing = Some True)"

definition genuine_sms :: "(js \<Rightarrow> js) \<Rightarrow> sms_runtime \<Rightarrow> sms_sdk \<Rightarrow> sms \<Rightarrow> sms_request \<Rightarrow> bool" where
  "genuine_sms lower rt sdk s req \<longleftrightarrow>
     sm_loaded s \<and> signed_by rt sdk (so_credentials (sm_options s)) (buildSignatureContext lower req (so_publicUrl (sm_options s)))"

lemma checked_means_signed: "backend_verify rt sdk loaded creds ctx = Some True \<longleftrightarrow> loaded \<and> signed_by rt sdk creds ctx"
  by (cases creds) (auto simp: backend_verify_def twilio_verify_def plivo_verify_def vonage_verify_def simp del: lit_simps split: option.splits)

lemma genuine_iff:
  "genuine_sms lower rt sdk s req \<longleftrightarrow>
     sms_verifySignature rt sdk s (buildSignatureContext lower req (so_publicUrl (sm_options s))) = Some True"
  by (simp add: genuine_sms_def sms_verifySignature_def checked_means_signed)

text \<open>All that a request may change is the calls; what it reads is named beside them.\<close>

definition sms_view :: "sms \<Rightarrow> sms_options \<times> bool \<times> nat option \<times> (nat \<times> sms_event) list" where
  "sms_view s = (sm_options s, sm_loaded s, sm_handler s, sm_calls s)"

lemma route_keeps:
  "sm_options (snd (sms_route lower rt sdk req s)) = sm_options s" "sm_loaded (snd (sms_route lower rt sdk req s)) = sm_loaded s"
  by (simp_all add: sms_route_def sms_dispatchEvent_def Let_def del: lit_simps split: option.splits bool.splits sum.splits)

interpretation sms_webhook: signed_route sms_view "genuine_sms lower rt sdk" "sms_route lower rt sdk"
  for lower :: "js \<Rightarrow> js" and rt :: sms_runtime and sdk :: sms_sdk
proof
  fix s t :: sms and r :: sms_request
  show "\<not> genuine_sms lower rt sdk s r \<Longrightarrow> sms_view (snd (sms_route lower rt sdk r s)) = sms_view s"
    by (auto simp: genuine_iff sms_route_def Let_def simp del: lit_simps split: option.splits bool.splits)
  show "genuine_sms lower rt sdk (snd (sms_route lower rt sdk r s)) = genuine_sms lower rt sdk s"
    by (simp add: genuine_sms_def route_keeps fun_eq_iff)
  assume v: "sms_view s = sms_view t"
  then have "sms_view (snd (sms_route lower rt sdk r s)) = sms_view (snd (sms_route lower rt sdk r t))"
    by (auto simp: sms_view_def sms_route_def sms_verifySignature_def buildEventFromCtx_def sms_dispatchEvent_def Let_def
      simp del: lit_simps split: option.splits bool.splits sum.splits)
  with v show "genuine_sms lower rt sdk s = genuine_sms lower rt sdk t \<and>
    sms_view (snd (sms_route lower rt sdk r s)) = sms_view (snd (sms_route lower rt sdk r t))"
    by (simp add: genuine_sms_def sms_view_def fun_eq_iff)
qed

section \<open>Sends\<close>

lemma mapError_refuses [simp]: "sr_error (sms_mapError b e) \<noteq> None" "\<not> sr_ok (sms_mapError b e)"
  by (simp_all add: sms_mapError_def Let_def send_refused_def)

lemma backend_send_posts:
  assumes "backend_send post s to_whom p site = (r, site1)"
  shows "snd site1 = snd site @ (if sm_client s then [p] else [])" "sr_ok r \<Longrightarrow> sm_client s"
  using assms by (auto simp: backend_send_def simp del: lit_simps split: if_splits prod.splits sms_answer.splits)

text \<open>What was posted is a prefix of the parts, all of them exactly when the loop answers well.\<close>

lemma parts_posted:
  assumes "send_sms_parts post s to_whom parts ps lastResult site = (r, site1)" "\<forall>l. lastResult = Some l \<longrightarrow> sr_ok l"
  shows "\<exists>n \<le> length ps. snd site1 = snd site @ take n ps \<and> (sr_ok r \<longrightarrow> n = length ps)"
  using assms
proof (induction ps arbitrary: lastResult site)
  case Nil
  then show ?case by (auto split: option.splits)
next
  case (Cons p ps)
  obtain r1 s1 where b: "backend_send post s to_whom p site = (r1, s1)" by (cases "backend_send post s to_whom p site")
  note h = backend_send_posts [OF b]
  show ?case
  proof (cases "sr_ok r1")
    case True
    then have "send_sms_parts post s to_whom parts ps (Some r1) s1 = (r, site1)" using Cons.prems(1) b by simp
    from Cons.IH [OF this] True obtain n where "n \<le> length ps" "snd site1 = snd s1 @ take n ps" "sr_ok r \<longrightarrow> n = length ps" by auto
    then show ?thesis using h(1) h(2) [OF True] by (intro exI [of _ "Suc n"]) auto
  next
    case False
    then have "\<not> sr_ok r" "site1 = s1" using Cons.prems(1) b by auto
    then show ?thesis using h(1) by (intro exI [of _ "if sm_client s then 1 else 0"]) auto
  qed
qed

section \<open>Properties\<close>

text \<open>
  C17: a webhook calls a handler only if the SDK is loaded and its check accepts the signature the request carries
  under the adapter's secret; every other request, also one without a signature, changes no call: the handlers
  are called as by the genuine requests alone.
\<close>
theorem forged_sms_webhooks_call_nobody:
  "sm_calls (foldl (\<lambda>s req. snd (sms_route lower rt sdk req s)) s reqs) =
   sm_calls (foldl (\<lambda>s req. snd (sms_route lower rt sdk req s)) s (filter (genuine_sms lower rt sdk s) reqs))"
  using sms_webhook.forged_requests_are_invisible [of lower rt sdk s reqs] by (simp add: sms_view_def)

text \<open>
  The package's own route and a route of the application's read the same event from a body, but for a message
  without an id: the application's reads nothing, the package's hands on an event whose id is empty.
\<close>
theorem sms_routes_read_alike:
  "sms_parseInbound rt (sm_options s) ctx =
     (case buildEventFromCtx rt s ctx of
        Inl err \<Rightarrow> None
      | Inr event \<Rightarrow> if se_id event = JStr [] then None else Some event)"
  by (cases "backend_parseInbound rt (sm_options s) ctx") (simp_all add: sms_parseInbound_def buildEventFromCtx_def inboundToMessageEvent_def)

text \<open>
  A reply leaves as its parts in their order, from the first on, and is told as sent only when every part was
  posted; where it is not, the first part that failed is the last that was tried.
\<close>
theorem sms_parts_leave_in_order:
  assumes "sms_sendMessage rt seg post out s site = (Inr r, s1, site1)"
  shows "\<exists>parts n. n \<le> length parts \<and> snd site1 = snd site @ take n parts \<and>
     (sr_ok r \<longrightarrow> n = length parts \<and> splitForSMS seg (out_text out) None = Inr parts \<and> out_text out \<noteq> [])"
proof (cases "out_text out = []")
  case True
  then show ?thesis using assms by (intro exI [of _ "[]"] exI [of _ 0]) (auto simp: sms_sendMessage_def)
next
  case False
  show ?thesis
  proof (cases "normalizeE164 rt (so_defaultCountry (sm_options s)) (JStr (ch_id (out_channel out)))")
    case (Inl err)
    then show ?thesis using assms False by (intro exI [of _ "[]"] exI [of _ 0]) (auto simp: sms_sendMessage_def)
  next
    case (Inr to_whom)
    then obtain parts where p: "splitForSMS seg (out_text out) None = Inr parts"
      "send_sms_parts post s1 to_whom parts parts None site = (r, site1)"
      using assms False by (auto simp: sms_sendMessage_def Let_def split: sum.splits prod.splits)
    then show ?thesis using parts_posted [OF p(2)] False by blast
  qed
qed

text \<open>Plivo's and Vonage's checks read neither the body nor anything that covers it: any body passes under a good header.\<close>
theorem sms_bodies_are_not_signed:
  "plivo_verify sdk token (ctx\<lparr>sc_rawBody := b\<rparr>) = plivo_verify sdk token ctx \<and>
   vonage_verify sdk secret (ctx\<lparr>sc_rawBody := b\<rparr>) = vonage_verify sdk secret ctx"
  by (auto simp: plivo_verify_def vonage_verify_def simp del: lit_simps split: option.split)

text \<open>A disconnect while a connect awaits its SDK is ignored: the adapter comes up afterwards.\<close>
theorem disconnect_during_sms_connect_is_ignored:
  "case newSmsAdapter opts of
     Inl err \<Rightarrow> secretFromOpts (so_credentials opts) = []
   | Inr s \<Rightarrow> sm_connected (sms_opened True (sms_disconnect (sms_connect s)))"
  by (simp add: newSmsAdapter_def sms_connect_def sms_disconnect_def sms_opened_def)

text \<open>A genuine message that finds no handler, as after a disconnect, is acknowledged all the same, and lost.\<close>
theorem unserved_sms_is_acknowledged:
  assumes "genuine_sms lower rt sdk s req" "sm_handler s = None"
    "buildEventFromCtx rt s (buildSignatureContext lower req (so_publicUrl (sm_options s))) = Inr event"
  shows "sms_route lower rt sdk req s = (Some (204, []), s)"
  using assms by (simp add: genuine_iff sms_route_def sms_dispatchEvent_def Let_def)

section \<open>An adapter at work\<close>

definition sms_rt :: sms_runtime where
  "sms_rt = \<lparr>sx_runtime = no_numerals, sx_parse = (\<lambda>s. None), sx_decode = (\<lambda>s. if s = lit ''%zz'' then None else Some s),
     sx_stringify = (\<lambda>v. []), sx_phone = (\<lambda>v c. case v of JStr s \<Rightarrow> Inr (Some s) | _ \<Rightarrow> Inl [])\<rparr>"

definition twilio_options :: sms_options where
  "twilio_options = \<lparr>so_credentials = TwilioCredentials (lit ''AC'') (lit ''t''), so_fromNumber = lit ''+1'',
     so_publicUrl = lit ''https://a/'', so_defaultCountry = None\<rparr>"

definition twilio_sdk :: sms_sdk where
  "twilio_sdk = \<lparr>sd_validateRequest = (\<lambda>token sig url params. Some (sig = lit ''good'')), sd_validateV3 = None, sd_verifyJwt = None\<rparr>"

definition open_sms :: sms where
  "open_sms = \<lparr>sm_options = twilio_options, sm_loaded = True, sm_client = True, sm_connected = True, sm_handler = None,
     sm_warnedAboutFormat = False, sm_opening = 0, sm_closing = 0, sm_calls = [], sm_log = []\<rparr>"

definition sms_post :: sms_request where
  "sms_post = \<lparr>sq_headers = [(lit ''x-twilio-signature'', OneHeader (lit ''good''))],
     sq_rawBody = Some (lit ''From=+2&To=+1&Body=hi&MessageSid=M''), sq_secure = True, sq_host = None, sq_originalUrl = []\<rparr>"

theorem unserved_sms_is_acknowledged_witness:
  "sms_route (\<lambda>s. s) sms_rt twilio_sdk sms_post open_sms = (Some (204, []), open_sms)"
proof -
  let ?ctx = "buildSignatureContext (\<lambda>s. s) sms_post (so_publicUrl (sm_options open_sms))"
  have g: "genuine_sms (\<lambda>s. s) sms_rt twilio_sdk open_sms sms_post" unfolding genuine_iff by code_simp
  have "\<not> isl (buildEventFromCtx sms_rt open_sms ?ctx)" by code_simp
  then obtain event where e: "buildEventFromCtx sms_rt open_sms ?ctx = Inr event" by (auto simp: isl_def sum.case_eq_if) (metis sum.exhaust)
  show ?thesis by (rule unserved_sms_is_acknowledged [OF g _ e]) (simp add: open_sms_def)
qed

text \<open>
  A malformed escape in the body makes Twilio's check throw, where the contract has it answer \<open>false\<close>: anyone
  who can reach the route makes it fail rather than refuse.
\<close>
theorem malformed_form_makes_the_check_throw:
  "let req = sms_post\<lparr>sq_headers := [(lit ''x-twilio-signature'', OneHeader [])], sq_rawBody := Some (lit ''From=%zz'')\<rparr>
   in sms_route (\<lambda>s. s) sms_rt twilio_sdk req open_sms = (None, open_sms)"
  by code_simp

definition sms_out :: outbound where
  "sms_out = \<lparr>out_channel = \<lparr>ch_id = lit ''+2'', ch_type = DM, ch_topicId = None\<rparr>, out_text = lit ''hi'',
     out_format = None, out_replyTo = None\<rparr>"

theorem sms_parts_leave_in_order_witness:
  "splitForSMS (map (\<lambda>c. [c])) (lit ''hi'') None = Inr [lit ''hi'']"
proof -
  have "sms_sendMessage sms_rt (map (\<lambda>c. [c])) (\<lambda>t b w. (Responded (TwilioMessage b), w)) sms_out open_sms ((), []) =
    (Inr (send_ok (Some (lit ''hi''))), open_sms, (), [lit ''hi''])" by code_simp
  from sms_parts_leave_in_order [OF this] show ?thesis by (auto simp: sms_out_def)
qed

end
