(* ===== verification/TeamsAdapter.thy ===== *)
theory TeamsAdapter
  imports PartSender Dialect Json
begin

text \<open>
  The Teams adapter (\<open>gateway-teams/src\<close>: \<open>adapter.ts\<close>, \<open>normalize.ts\<close>, \<open>mention-gate.ts\<close>, \<open>errors.ts\<close>). The SDK's
  app, the token request and \<open>Date.parse\<close> are parameters; what the SDK hands on is a JSON value, read as its
  declared type without a check. The adapter is a machine over the steps between its awaits.
\<close>

section \<open>Activities\<close>

text \<open>\<open>/<at(?:\s+[^>]*)?>([^<]*)<\/at>/gi\<close>, its optional group as two alternatives in their order.\<close>

definition either_case :: "cu \<Rightarrow> cls" where
  "either_case c = Cls False [(c, c), (c - 32, c - 32)]"

definition AT_TAG :: pattern where
  "AT_TAG =
     (let opening = [One (only CHR ''<''), One (either_case 97), One (either_case 116)];
          closing = [One (only CHR ''>''), Rep (Some 0) (Cls True [(60, 60)]) 0 None True, One (only CHR ''<''),
            One (only CHR ''/''), One (either_case 97), One (either_case 116), One (only CHR ''>'')]
      in [opening @ [Rep None space 1 None True, Rep None (Cls True [(62, 62)]) 0 None True] @ closing, opening @ closing])"

definition first_group :: "js \<Rightarrow> captures \<Rightarrow> js" where
  "first_group matched caps = (case map_of caps 0 of None \<Rightarrow> [] | Some s \<Rightarrow> s)"

text \<open>A name with its special characters escaped matches itself, wherever it stands.\<close>

function remove_all :: "js \<Rightarrow> js \<Rightarrow> js" where
  "remove_all name [] = []"
| "remove_all name (c # s) =
     (if name \<noteq> [] \<and> prefix name (c # s) then remove_all name (drop (length name) (c # s)) else c # remove_all name s)"
  by pat_completeness auto

termination
  by (relation "measure (\<lambda>(n, s). length s)") auto

definition stripTeamsMentions :: "js \<Rightarrow> js option \<Rightarrow> js" where
  "stripTeamsMentions text botDisplayName =
     (let cleaned = replace_all AT_TAG first_group None text;
          unnamed = (case botDisplayName of None \<Rightarrow> cleaned | Some name \<Rightarrow> remove_all name cleaned)
      in js_trim (replace_all [[Rep None space 1 None True]] (\<lambda>m caps. [sp]) None unnamed))"

record teams_runtime =
  tr_runtime :: runtime
  tr_dateParse :: "js \<Rightarrow> number"

text \<open>The channel of an activity and the warning about a conversation type nobody knows; \<open>None\<close> when the template throws.\<close>

definition channelMapping :: "runtime \<Rightarrow> json option \<Rightarrow> json option \<Rightarrow> ((chan_type \<times> json option) \<times> js list) option" where
  "channelMapping rt conv channelData =
     (case chained conv (lit ''conversationType'') of
        None \<Rightarrow> Some ((DM, None), [])
      | Some t \<Rightarrow>
          if t = JStr (lit ''personal'') then Some ((DM, None), [])
          else if t = JStr (lit ''groupChat'') then Some ((Group, None), [])
          else if t = JStr (lit ''channel'')
          then Some ((Group, coalesce (chained (chained channelData (lit ''channel'')) (lit ''id'')) (chained channelData (lit ''teamsChannelId''))), [])
          else (case js_String rt t of
              None \<Rightarrow> None
            | Some s \<Rightarrow> Some ((DM, None), [lit ''[teams] unknown conversationType: '' @ s @ [sp, 0x2014] @ lit '' defaulting to dm'' @ [nl]])))"

record teams_event =
  te_id :: json
  te_senderId :: json
  te_displayName :: "json option"
  te_channelId :: json
  te_channelType :: chan_type
  te_topicId :: "json option"
  te_text :: js
  te_receivedAt :: rat
  te_conversationType :: json
  te_tenantId :: "json option"
  te_teamChannelId :: "json option"
  te_teamId :: "json option"
  te_raw :: json

text \<open>An activity that is not \<open>null\<close>; \<open>None\<close> is the error of a text or a type that has no text.\<close>

definition normalizeTeamsActivity :: "teams_runtime \<Rightarrow> json \<Rightarrow> js option \<Rightarrow> (teams_event \<times> js list) option" where
  "normalizeTeamsActivity rt act botDisplayName =
     (let conv = member_of act (lit ''conversation''); from_field = member_of act (lit ''from''); channelData = member_of act (lit ''channelData'');
          now = rt_now (tr_runtime rt)
      in case (channelMapping (tr_runtime rt) conv channelData, or_default (member_of act (lit ''text'')) (JStr [])) of
        (Some ((type, topic), warnings), JStr said) \<Rightarrow>
          Some (\<lparr>te_id = or_default (member_of act (lit ''id'')) (JStr (lit ''unknown'')),
             te_senderId = or_default (coalesce (chained from_field (lit ''id'')) (chained from_field (lit ''aadObjectId''))) (JStr (lit ''anonymous'')),
             te_displayName = chained from_field (lit ''name''),
             te_channelId = or_default (chained conv (lit ''id'')) (JStr (lit ''unknown'')), te_channelType = type, te_topicId = topic,
             te_text = stripTeamsMentions said botDisplayName,
             te_receivedAt = (case string_of (member_of act (lit ''timestamp'')) of
                 None \<Rightarrow> now
               | Some ts \<Rightarrow> (case tr_dateParse rt ts of Finite q \<Rightarrow> q | _ \<Rightarrow> now)),
             te_conversationType = or_default (chained conv (lit ''conversationType'')) (JStr (lit ''personal'')),
             te_tenantId = chained conv (lit ''tenantId''),
             te_teamChannelId = coalesce (chained (chained channelData (lit ''channel'')) (lit ''id'')) (chained channelData (lit ''teamsChannelId'')),
             te_teamId = coalesce (chained (chained channelData (lit ''team'')) (lit ''id'')) (chained channelData (lit ''teamsTeamId'')),
             te_raw = act\<rparr>, warnings)
      | _ \<Rightarrow> None)"

section \<open>The mention gate\<close>

datatype bot_mention = Mentioned | Unmentioned | NoRecipient

text \<open>\<open>===\<close> on two JSON values: objects and lists are equal to themselves alone, and no two here are one.\<close>

fun strictly_equal :: "json \<Rightarrow> json \<Rightarrow> bool" where
  "strictly_equal (JArr a) b = False"
| "strictly_equal (JObj a) b = False"
| "strictly_equal a b = (a = b)"

text \<open>\<open>some\<close> over the entities, up to the first that matches; a \<open>null\<close> among them throws.\<close>

fun some_mention :: "json \<Rightarrow> json list \<Rightarrow> bool option" where
  "some_mention botId [] = Some False"
| "some_mention botId (e # es) =
     (if e = JNull then None
      else if member_of e (lit ''type'') = Some (JStr (lit ''mention'')) \<and>
        (case chained (member_of e (lit ''mentioned'')) (lit ''id'') of None \<Rightarrow> False | Some i \<Rightarrow> strictly_equal i botId)
      then Some True
      else some_mention botId es)"

definition readBotMention :: "json \<Rightarrow> bot_mention option" where
  "readBotMention raw =
     (case chained (member_of raw (lit ''recipient'')) (lit ''id'') of
        None \<Rightarrow> Some NoRecipient
      | Some botId \<Rightarrow>
          (case or_default (member_of raw (lit ''entities'')) (JArr []) of
             JArr es \<Rightarrow> map_option (\<lambda>b. if b then Mentioned else Unmentioned) (some_mention botId es)
           | _ \<Rightarrow> None))"

section \<open>Errors\<close>

text \<open>What is read of a value the SDK throws; its text is \<open>String(err)\<close>.\<close>

datatype sdk_error =
    NullError
  | TextError js
  | ObjectError "json option" "json option" "json option" js

definition teams_network_error :: "js \<Rightarrow> bool" where
  "teams_network_error s \<longleftrightarrow> list_ex (\<lambda>p. occurs_in p s)
     [lit ''econn'', lit ''enotfound'', lit ''etimedout'', lit ''ehostunreach'', lit ''eai_again'', lit ''fetch failed'']"

definition codeForTeamsStatus :: "rat \<Rightarrow> js option" where
  "codeForTeamsStatus status =
     (if status = 401 \<or> status = 403 then Some (lit ''auth_failed'')
      else if status = 429 then Some (lit ''rate_limit'')
      else if status = 408 then Some (lit ''timeout'')
      else if status = 400 \<or> status = 404 then Some (lit ''invalid_request'')
      else if 500 \<le> status then Some (lit ''server_error'')
      else None)"

definition mapTeamsError :: "sdk_error \<Rightarrow> send_result" where
  "mapTeamsError err =
     (case err of
        NullError \<Rightarrow> send_refused (lit ''unknown'') (lit ''Unknown error'')
      | TextError s \<Rightarrow> send_refused (lit ''unknown'') s
      | ObjectError status statusCode msg text \<Rightarrow>
          let message = (case string_of msg of None \<Rightarrow> text | Some m \<Rightarrow> if m = [] then text else m);
              known = (case coalesce status statusCode of Some (JNum n) \<Rightarrow> codeForTeamsStatus n | _ \<Rightarrow> None)
          in case known of
               Some code \<Rightarrow> send_refused code message
             | None \<Rightarrow> send_refused (if teams_network_error message then lit ''server_error'' else lit ''unknown'') message)"

text \<open>\<open>(e.statusCode ?? e.status) === 400\<close>; \<open>None\<close> is the error of reading a property of \<open>null\<close>.\<close>

definition isMalformedActivity :: "sdk_error \<Rightarrow> bool option" where
  "isMalformedActivity err =
     (case err of
        NullError \<Rightarrow> None
      | TextError s \<Rightarrow> Some False
      | ObjectError status statusCode msg text \<Rightarrow> Some (coalesce statusCode status = Some (JNum 400)))"

section \<open>The connection\<close>

record teams_options =
  to_clientId :: js
  to_clientSecret :: js
  to_tenantId :: js
  to_botDisplayName :: "js option"
  to_requireMention :: "bool option"

text \<open>
  Attempts and the apps they make are numbered alike; an attempt is what it awaits. \<open>ta_made\<close> is the apps made and
  listened to, \<open>ta_stopped\<close> the stops asked for, in order; \<open>ta_closing\<close> counts the disconnects that await a stop.
\<close>

datatype teams_phase = MakingApp | InitializingApp | VerifyingToken | StoppingApp

record teams_adapter =
  ta_options :: teams_options
  ta_app :: "nat option"
  ta_connected :: bool
  ta_handler :: "nat option"
  ta_warnedMissingRecipient :: bool
  ta_seen :: "js list"
  ta_attempts :: "(nat \<times> teams_phase) list"
  ta_next :: nat
  ta_made :: "nat list"
  ta_stopped :: "nat list"
  ta_closing :: nat
  ta_answers :: "(nat \<times> bool) list"
  ta_calls :: "(nat \<times> teams_event) list"
  ta_log :: "js list"

definition teams_say :: "js \<Rightarrow> teams_adapter \<Rightarrow> teams_adapter" where
  "teams_say line s = s\<lparr>ta_log := ta_log s @ [lit ''[teams] '' @ line @ [nl]]\<rparr>"

text \<open>A key that is missing or empty makes the constructor throw.\<close>

definition newTeamsAdapter :: "teams_options \<Rightarrow> thrown + teams_adapter" where
  "newTeamsAdapter opts =
     (case find (\<lambda>(k, v). v = []) [(lit ''clientId'', to_clientId opts), (lit ''clientSecret'', to_clientSecret opts),
          (lit ''tenantId'', to_tenantId opts)] of
        Some (k, v) \<Rightarrow> Inl (ThrownError (lit ''TeamsAdapter: '' @ k @ lit '' is required and must be a non-empty string''))
      | None \<Rightarrow> Inr \<lparr>ta_options = opts, ta_app = None, ta_connected = False, ta_handler = None, ta_warnedMissingRecipient = False,
          ta_seen = [], ta_attempts = [], ta_next = 0, ta_made = [], ta_stopped = [], ta_closing = 0, ta_answers = [],
          ta_calls = [], ta_log = []\<rparr>)"

definition teams_at :: "nat \<Rightarrow> teams_phase \<Rightarrow> teams_adapter \<Rightarrow> bool" where
  "teams_at k p s \<longleftrightarrow> map_of (ta_attempts s) k = Some p"

definition teams_to :: "nat \<Rightarrow> teams_phase \<Rightarrow> teams_adapter \<Rightarrow> teams_adapter" where
  "teams_to k p s = s\<lparr>ta_attempts := map (\<lambda>(i, q). (i, if i = k then p else q)) (ta_attempts s)\<rparr>"

definition teams_answer :: "nat \<Rightarrow> bool \<Rightarrow> teams_adapter \<Rightarrow> teams_adapter" where
  "teams_answer k ok s =
     s\<lparr>ta_attempts := filter (\<lambda>(i, q). i \<noteq> k) (ta_attempts s), ta_answers := ta_answers s @ [(k, ok)]\<rparr>"

definition teams_connect :: "teams_adapter \<Rightarrow> teams_adapter" where
  "teams_connect s =
     (if ta_connected s \<and> ta_app s \<noteq> None then s
      else s\<lparr>ta_attempts := ta_attempts s @ [(ta_next s, MakingApp)], ta_next := Suc (ta_next s)\<rparr>)"

text \<open>The \<open>catch\<close> of \<open>connect\<close>.\<close>

definition teams_connect_failed :: "nat \<Rightarrow> thrown \<Rightarrow> teams_adapter \<Rightarrow> teams_adapter" where
  "teams_connect_failed k err s =
     teams_answer k False ((teams_say (lit ''connect failed: '' @ text_of err) s)\<lparr>ta_app := None, ta_connected := False\<rparr>)"

definition teams_made :: "nat \<Rightarrow> thrown option \<Rightarrow> teams_adapter \<Rightarrow> teams_adapter" where
  "teams_made k threw s =
     (if \<not> teams_at k MakingApp s then s
      else case threw of
        Some err \<Rightarrow> teams_connect_failed k err s
      | None \<Rightarrow> teams_to k InitializingApp (s\<lparr>ta_app := Some k, ta_made := ta_made s @ [k]\<rparr>))"

definition teams_initialized :: "nat \<Rightarrow> thrown option \<Rightarrow> teams_adapter \<Rightarrow> teams_adapter" where
  "teams_initialized k threw s =
     (if \<not> teams_at k InitializingApp s then s
      else case threw of
        Some err \<Rightarrow> teams_connect_failed k err s
      | None \<Rightarrow> teams_to k VerifyingToken s)"

text \<open>The answer to the token request: granted, refused with a status and a reason, or thrown.\<close>

datatype token_answer = TokenOk | TokenRefused js "js option" | TokenThrew thrown

definition teams_verified :: "nat \<Rightarrow> token_answer \<Rightarrow> teams_adapter \<Rightarrow> teams_adapter" where
  "teams_verified k token s =
     (if \<not> teams_at k VerifyingToken s then s
      else case token of
        TokenThrew err \<Rightarrow> teams_connect_failed k err s
      | TokenOk \<Rightarrow> teams_answer k True (s\<lparr>ta_connected := True\<rparr>)
      | TokenRefused status reason \<Rightarrow>
          let s1 = teams_say (lit ''connect failed: Microsoft rejected the credential ('' @ status @ lit '')''
            @ (case reason of None \<Rightarrow> [] | Some e \<Rightarrow> lit '': '' @ e)) s in
          (case ta_app s1 of
             None \<Rightarrow> teams_connect_failed k type_error s1
           | Some app \<Rightarrow> teams_to k StoppingApp (s1\<lparr>ta_stopped := ta_stopped s1 @ [app]\<rparr>)))"

definition teams_stop_settled :: "nat \<Rightarrow> thrown option \<Rightarrow> teams_adapter \<Rightarrow> teams_adapter" where
  "teams_stop_settled k threw s =
     (if \<not> teams_at k StoppingApp s then s
      else case threw of
        Some err \<Rightarrow> teams_connect_failed k err s
      | None \<Rightarrow> teams_answer k False (s\<lparr>ta_app := None, ta_connected := False\<rparr>))"

text \<open>\<open>disconnect\<close>: the stop, whose failure is swallowed, and what follows it.\<close>

definition teams_down :: "teams_adapter \<Rightarrow> teams_adapter" where
  "teams_down s = s\<lparr>ta_app := None, ta_connected := False, ta_handler := None, ta_seen := []\<rparr>"

definition teams_disconnect :: "teams_adapter \<Rightarrow> teams_adapter" where
  "teams_disconnect s =
     (case ta_app s of
        None \<Rightarrow> teams_down s
      | Some app \<Rightarrow> s\<lparr>ta_stopped := ta_stopped s @ [app], ta_closing := Suc (ta_closing s)\<rparr>)"

definition teams_disconnected :: "teams_adapter \<Rightarrow> teams_adapter" where
  "teams_disconnected s = (case ta_closing s of 0 \<Rightarrow> s | Suc n \<Rightarrow> teams_down (s\<lparr>ta_closing := n\<rparr>))"

definition teams_onInbound :: "nat \<Rightarrow> teams_adapter \<Rightarrow> teams_adapter" where
  "teams_onInbound h s = s\<lparr>ta_handler := Some h\<rparr>"

definition teams_off :: "nat \<Rightarrow> teams_adapter \<Rightarrow> teams_adapter" where
  "teams_off h s = (if ta_handler s = Some h then s\<lparr>ta_handler := None\<rparr> else s)"

section \<open>Dispatch\<close>

definition MAX_SEEN_CONVERSATIONS :: nat where
  "MAX_SEEN_CONVERSATIONS = 1000"

text \<open>A set keeps the order in which its elements came.\<close>

definition set_add :: "js \<Rightarrow> js list \<Rightarrow> js list" where
  "set_add x xs = (if x \<in> set xs then xs else xs @ [x])"

definition trackConversation :: "json option \<Rightarrow> teams_adapter \<Rightarrow> teams_adapter" where
  "trackConversation convId s =
     (case string_of convId of
        None \<Rightarrow> s
      | Some i \<Rightarrow>
          if i = [] then s
          else s\<lparr>ta_seen := set_add i (if MAX_SEEN_CONVERSATIONS \<le> length (ta_seen s) then tl (ta_seen s) else ta_seen s)\<rparr>)"

definition NO_RECIPIENT_WARNING :: js where
  "NO_RECIPIENT_WARNING = lit ''dropping group messages: requireMention is on and the activity names no recipient id''"

definition teams_passesMentionGate :: "teams_event \<Rightarrow> teams_adapter \<Rightarrow> (bool \<times> teams_adapter) option" where
  "teams_passesMentionGate event s =
     (if te_channelType event = DM \<or> to_requireMention (ta_options s) = Some False then Some (True, s)
      else case readBotMention (te_raw event) of
        None \<Rightarrow> None
      | Some verdict \<Rightarrow>
          Some (verdict = Mentioned,
            if verdict = NoRecipient \<and> \<not> ta_warnedMissingRecipient s
            then teams_say NO_RECIPIENT_WARNING (s\<lparr>ta_warnedMissingRecipient := True\<rparr>)
            else s))"

definition dispatch_failed :: "js \<Rightarrow> teams_adapter \<Rightarrow> teams_adapter" where
  "dispatch_failed reason s = teams_say (lit ''inbound dispatch failed: '' @ reason) s"

text \<open>
  \<open>_dispatchActivity\<close>, and the \<open>catch\<close> around it. \<open>raw\<close> is what the app emits, an envelope or an activity. The
  handler's own failure is contained in \<open>handler\<close>'s other steps.
\<close>

definition dispatchActivity :: "teams_runtime \<Rightarrow> json \<Rightarrow> teams_adapter \<Rightarrow> teams_adapter" where
  "dispatchActivity rt raw s =
     (case ta_handler s of
        None \<Rightarrow> s
      | Some h \<Rightarrow>
          let activity = or_default (chained (Some raw) (lit ''activity'')) raw in
          if activity = JNull then dispatch_failed (text_of type_error) s
          else if member_of activity (lit ''type'') \<noteq> Some (JStr (lit ''message'')) then s
          else (case normalizeTeamsActivity rt activity (to_botDisplayName (ta_options s)) of
              None \<Rightarrow> dispatch_failed (text_of type_error) s
            | Some (event, warnings) \<Rightarrow>
                let s1 = s\<lparr>ta_log := ta_log s @ warnings\<rparr> in
                (case teams_passesMentionGate event s1 of
                   None \<Rightarrow> dispatch_failed (text_of type_error) s1
                 | Some (False, s2) \<Rightarrow> s2
                 | Some (True, s2) \<Rightarrow>
                     let s3 = trackConversation (chained (member_of activity (lit ''conversation'')) (lit ''id'')) s2 in
                     s3\<lparr>ta_calls := ta_calls s3 @ [(h, event)]\<rparr>)))"

text \<open>\<open>deliver\<close>: a dropped event answers \<open>ok\<close>; \<open>None\<close> when the gate throws.\<close>

definition teams_deliver ::
    "(nat \<Rightarrow> teams_event \<Rightarrow> ('w, unit) comp) \<Rightarrow> teams_event \<Rightarrow> teams_adapter \<Rightarrow> 'w env \<Rightarrow> (delivery outcome \<times> teams_adapter \<times> 'w env) option" where
  "teams_deliver handlers event s env =
     (case teams_passesMentionGate event s of
        None \<Rightarrow> None
      | Some (False, s1) \<Rightarrow> Some (Returned DeliveredOk, s1, env)
      | Some (True, s1) \<Rightarrow>
          (case runHandler (lit ''teams'') (map_option handlers (ta_handler s1)) event env of
             (r, env1) \<Rightarrow> Some (r, s1, env1)))"

datatype teams_step_event =
    TeamsConnect
  | TeamsMade nat "thrown option"
  | TeamsInitialized nat "thrown option"
  | TeamsVerified nat token_answer
  | TeamsStopSettled nat "thrown option"
  | TeamsDisconnect
  | TeamsDisconnected
  | TeamsSubscribe nat
  | TeamsUnsubscribe nat
  | TeamsActivity nat json

text \<open>Every app made and listened to hands its activities on, the one held or not.\<close>

fun teams_step :: "teams_runtime \<Rightarrow> teams_adapter \<Rightarrow> teams_step_event \<Rightarrow> teams_adapter" where
  "teams_step rt s TeamsConnect = teams_connect s"
| "teams_step rt s (TeamsMade k threw) = teams_made k threw s"
| "teams_step rt s (TeamsInitialized k threw) = teams_initialized k threw s"
| "teams_step rt s (TeamsVerified k token) = teams_verified k token s"
| "teams_step rt s (TeamsStopSettled k threw) = teams_stop_settled k threw s"
| "teams_step rt s TeamsDisconnect = teams_disconnect s"
| "teams_step rt s TeamsDisconnected = teams_disconnected s"
| "teams_step rt s (TeamsSubscribe h) = teams_onInbound h s"
| "teams_step rt s (TeamsUnsubscribe h) = teams_off h s"
| "teams_step rt s (TeamsActivity k raw) = (if k \<in> set (ta_made s) then dispatchActivity rt raw s else s)"

section \<open>Sending\<close>

record teams_post =
  tx_conversation :: js
  tx_activity :: "js option"
  tx_text :: js
  tx_textFormat :: "js option"

definition activityFormat :: "format option \<Rightarrow> js option" where
  "activityFormat fmt =
     (if fmt = Some Markdown then Some (lit ''markdown'') else if fmt = Some Html then Some (lit ''xml'') else None)"

text \<open>
  The SDK's REST client on the world, for a send (no activity named) or an edit: the id of the answer, or what it
  throws. The site records each request with its answer, and the lines on standard error.
\<close>

type_synonym 'w teams_client = "teams_post \<Rightarrow> 'w \<Rightarrow> (sdk_error + js option) \<times> 'w"

record 'w teams_site =
  tw_world :: 'w
  tw_posts :: "(teams_post \<times> (sdk_error + js option)) list"
  tw_log :: "js list"

definition teams_request :: "'w teams_client \<Rightarrow> teams_post \<Rightarrow> 'w teams_site \<Rightarrow> (sdk_error + js option) \<times> 'w teams_site" where
  "teams_request client post w =
     (case client post (tw_world w) of
        (r, w1) \<Rightarrow> (r, w\<lparr>tw_world := w1, tw_posts := tw_posts w @ [(post, r)]\<rparr>))"

definition teams_not_connected :: send_result where
  "teams_not_connected = send_refused (lit ''not_connected'') (lit ''TeamsAdapter not connected.'')"

definition teams_empty :: send_result where
  "teams_empty = send_refused (lit ''empty_text'') (lit ''Empty text rejected.'')"

definition reduced_to_nothing :: send_result where
  "reduced_to_nothing = send_refused (lit ''empty_text'') (lit ''Text reduced to zero parts after splitting.'')"

text \<open>One part in the format declared; a payload judged malformed is sent once more as plain text.\<close>

definition sendPartHonouringFormat ::
    "'w teams_client \<Rightarrow> teams_adapter \<Rightarrow> js \<Rightarrow> js \<Rightarrow> format option \<Rightarrow> 'w teams_site \<Rightarrow> send_result outcome \<times> 'w teams_site" where
  "sendPartHonouringFormat client s channelId part fmt w =
     (if ta_app s = None then (Returned teams_not_connected, w)
      else let post = \<lparr>tx_conversation = channelId, tx_activity = None, tx_text = part, tx_textFormat = activityFormat fmt\<rparr> in
        case teams_request client post w of
          (Inr i, w1) \<Rightarrow> (Returned (send_ok i), w1)
        | (Inl err, w1) \<Rightarrow>
            (case isMalformedActivity err of
               None \<Rightarrow> (Threw type_error, w1)
             | Some False \<Rightarrow> (Returned (mapTeamsError err), w1)
             | Some True \<Rightarrow>
                 (case teams_request client (post\<lparr>tx_textFormat := None\<rparr>)
                     (w1\<lparr>tw_log := tw_log w1 @
                       [lit ''[gateway-teams] the service rejected the formatted activity; retrying as plain text'' @ [nl]]\<rparr>) of
                    (Inr i, w2) \<Rightarrow> (Returned (send_ok i), w2)
                  | (Inl err2, w2) \<Rightarrow> (Returned (mapTeamsError err2), w2))))"

fun teams_send_parts ::
    "'w teams_client \<Rightarrow> teams_adapter \<Rightarrow> js \<Rightarrow> format option \<Rightarrow> js list \<Rightarrow> js option \<Rightarrow> 'w teams_site \<Rightarrow> send_result outcome \<times> 'w teams_site" where
  "teams_send_parts client s channelId fmt [] lastId w = (Returned (send_ok lastId), w)"
| "teams_send_parts client s channelId fmt (p # ps) lastId w =
     (case sendPartHonouringFormat client s channelId p fmt w of
        (Threw err, w1) \<Rightarrow> (Threw err, w1)
      | (Returned sent, w1) \<Rightarrow>
          if sr_ok sent
          then teams_send_parts client s channelId fmt ps (case sr_messageId sent of None \<Rightarrow> lastId | Some i \<Rightarrow> Some i) w1
          else (Returned sent, w1))"

definition teams_sendMessage :: "'w teams_client \<Rightarrow> outbound \<Rightarrow> teams_adapter \<Rightarrow> 'w teams_site \<Rightarrow> send_result outcome \<times> 'w teams_site" where
  "teams_sendMessage client out s w =
     (if out_text out = [] then (Returned teams_empty, w)
      else if \<not> ta_connected s \<or> ta_app s = None then (Returned teams_not_connected, w)
      else case splitForTeams (out_text out) of
        Some (Inr parts) \<Rightarrow>
          if parts = [] then (Returned reduced_to_nothing, w)
          else teams_send_parts client s (ch_id (out_channel out)) (out_format out) parts None w
      | _ \<Rightarrow> (Threw type_error, w))"

text \<open>\<open>editMessage\<close>; whichever call the SDK has, the edit is one request.\<close>

definition teams_editMessage :: "'w teams_client \<Rightarrow> js \<Rightarrow> outbound \<Rightarrow> teams_adapter \<Rightarrow> 'w teams_site \<Rightarrow> send_result outcome \<times> 'w teams_site" where
  "teams_editMessage client messageId out s w =
     (if out_text out = [] then (Returned teams_empty, w)
      else if \<not> ta_connected s \<or> ta_app s = None then (Returned teams_not_connected, w)
      else if messageId = [] then (Returned (send_refused (lit ''invalid_message_id'') (lit ''message id is empty'')), w)
      else case splitForTeams (out_text out) of
        Some (Inr []) \<Rightarrow> (Returned reduced_to_nothing, w)
      | Some (Inr [part]) \<Rightarrow>
          (case teams_request client \<lparr>tx_conversation = ch_id (out_channel out), tx_activity = Some messageId, tx_text = part,
              tx_textFormat = activityFormat (out_format out)\<rparr> w of
             (Inl err, w1) \<Rightarrow> (Returned (mapTeamsError err), w1)
           | (Inr i, w1) \<Rightarrow> (Returned (send_ok (Some messageId)), w1))
      | Some (Inr parts) \<Rightarrow>
          (Returned (send_refused (lit ''edit_too_long'')
            (lit ''text needs '' @ dec (length parts) @ lit '' Teams activities; an edit replaces one'')), w)
      | _ \<Rightarrow> (Threw type_error, w))"

section \<open>The gate\<close>

text \<open>What the gate lets through: a direct message, or one that mentions its recipient when that is asked for.\<close>

definition meant_for_the_bot :: "teams_options \<Rightarrow> teams_event \<Rightarrow> bool" where
  "meant_for_the_bot opts ev \<longleftrightarrow>
     te_channelType ev = DM \<or> to_requireMention opts = Some False \<or> readBotMention (te_raw ev) = Some Mentioned"

definition teams_inv :: "teams_adapter \<Rightarrow> bool" where
  "teams_inv s \<longleftrightarrow> list_all (\<lambda>c. meant_for_the_bot (ta_options s) (snd c)) (ta_calls s) \<and>
     length (ta_seen s) \<le> MAX_SEEN_CONVERSATIONS \<and> distinct (ta_seen s)"

lemma teams_say_same [simp]:
  "ta_options (teams_say l s) = ta_options s" "ta_calls (teams_say l s) = ta_calls s" "ta_seen (teams_say l s) = ta_seen s"
  "ta_handler (teams_say l s) = ta_handler s" "teams_inv (teams_say l s) = teams_inv s"
  by (simp_all add: teams_say_def teams_inv_def)

lemma gate_lets:
  assumes "teams_passesMentionGate ev s = Some (b, s1)"
  shows "b \<Longrightarrow> meant_for_the_bot (ta_options s) ev" "teams_inv s1 = teams_inv s" "ta_options s1 = ta_options s" "ta_calls s1 = ta_calls s"
  using assms by (auto simp: teams_passesMentionGate_def meant_for_the_bot_def teams_inv_def split: if_splits option.splits)

lemma set_add_bound: "length xs < m \<Longrightarrow> length (set_add x xs) \<le> m" "distinct xs \<Longrightarrow> distinct (set_add x xs)"
  by (simp_all add: set_add_def)

lemma track_inv: "teams_inv s \<Longrightarrow> teams_inv (trackConversation c s)"
  using set_add_bound(1) [of "tl (ta_seen s)" 1000] set_add_bound(1) [of "ta_seen s" 1000]
  by (auto simp: trackConversation_def teams_inv_def MAX_SEEN_CONVERSATIONS_def set_add_bound(2) distinct_tl split: option.splits)

lemma track_same [simp]: "ta_options (trackConversation c s) = ta_options s" "ta_calls (trackConversation c s) = ta_calls s"
  by (simp_all add: trackConversation_def split: option.splits)

lemma inv_call: "teams_inv s \<Longrightarrow> meant_for_the_bot (ta_options s) ev \<Longrightarrow> teams_inv (s\<lparr>ta_calls := ta_calls s @ [(h, ev)]\<rparr>)"
  by (simp add: teams_inv_def)

lemma inv_log [simp]: "teams_inv (s\<lparr>ta_log := l\<rparr>) = teams_inv s"
  by (simp add: teams_inv_def)

lemma dispatch_inv:
  assumes "teams_inv s" shows "teams_inv (dispatchActivity rt raw s)"
proof -
  have "teams_inv (t\<lparr>ta_calls := ta_calls t @ [(h, ev)]\<rparr>)"
    if "teams_passesMentionGate ev (s\<lparr>ta_log := l\<rparr>) = Some (True, s2)" "t = trackConversation c s2" for t h ev l s2 c
    using gate_lets [OF that(1)] track_inv [of s2 c] assms that(2) inv_call [of "trackConversation c s2" ev h] by simp
  then show ?thesis using assms gate_lets(2)
    by (auto simp: dispatchActivity_def dispatch_failed_def Let_def simp del: lit_simps split: option.splits prod.splits bool.splits)
qed

lemma teams_answer_inv [simp]: "teams_inv (teams_answer k ok s) = teams_inv s"
  by (simp add: teams_answer_def teams_inv_def)

lemma failed_inv [simp]: "teams_inv (teams_connect_failed k err s) = teams_inv s"
  by (simp add: teams_connect_failed_def) (simp add: teams_inv_def)

lemma teams_to_inv [simp]: "teams_inv (teams_to k p s) = teams_inv s"
  by (simp add: teams_to_def teams_inv_def)

lemma connection_inv [simp]:
  "teams_inv (s\<lparr>ta_app := a\<rparr>) = teams_inv s" "teams_inv (s\<lparr>ta_connected := c\<rparr>) = teams_inv s" "teams_inv (s\<lparr>ta_stopped := l\<rparr>) = teams_inv s"
  "teams_inv (s\<lparr>ta_made := l\<rparr>) = teams_inv s" "teams_inv (s\<lparr>ta_handler := h\<rparr>) = teams_inv s" "teams_inv (s\<lparr>ta_closing := n\<rparr>) = teams_inv s"
  "teams_inv (s\<lparr>ta_attempts := xs\<rparr>) = teams_inv s" "teams_inv (s\<lparr>ta_next := n\<rparr>) = teams_inv s"
  by (simp_all add: teams_inv_def)

lemma down_inv: "teams_inv s \<Longrightarrow> teams_inv (teams_down s)"
  by (simp add: teams_down_def teams_inv_def)

lemma teams_step_inv: "teams_inv s \<Longrightarrow> teams_inv (teams_step rt s e)"
  by (cases e) (simp_all add: teams_connect_def teams_made_def teams_initialized_def teams_verified_def teams_stop_settled_def
    teams_disconnect_def teams_disconnected_def teams_onInbound_def teams_off_def dispatch_inv down_inv Let_def
    del: lit_simps split: option.split token_answer.split nat.split)

lemma teams_run_inv: "teams_inv s \<Longrightarrow> teams_inv (foldl (teams_step rt) s es)"
  by (induction es arbitrary: s) (simp_all add: teams_step_inv)

lemma new_teams: "newTeamsAdapter opts = Inr s \<Longrightarrow> teams_inv s \<and> ta_options s = opts"
  by (auto simp: newTeamsAdapter_def teams_inv_def split: option.splits prod.splits)

section \<open>Sends\<close>

text \<open>
  The requests one part may make: one in the format declared, and where that is answered with status 400, one more as
  plain text. A part is acknowledged when its last request returned.
\<close>

definition said_malformed :: "sdk_error + js option \<Rightarrow> bool" where
  "said_malformed r \<longleftrightarrow>
     (\<exists>status statusCode msg text. r = Inl (ObjectError status statusCode msg text) \<and> coalesce statusCode status = Some (JNum 400))"

definition part_tries :: "js \<Rightarrow> format option \<Rightarrow> js \<Rightarrow> (teams_post \<times> (sdk_error + js option)) list \<Rightarrow> bool" where
  "part_tries conversation fmt p posts \<longleftrightarrow>
     (let post = (\<lambda>f. \<lparr>tx_conversation = conversation, tx_activity = None, tx_text = p, tx_textFormat = f\<rparr>) in
        (\<exists>r. posts = [(post (activityFormat fmt), r)] \<and> \<not> said_malformed r) \<or>
        (\<exists>r r'. posts = [(post (activityFormat fmt), r), (post None, r')] \<and> said_malformed r))"

definition acknowledged :: "(teams_post \<times> (sdk_error + js option)) list \<Rightarrow> bool" where
  "acknowledged posts \<longleftrightarrow> posts \<noteq> [] \<and> \<not> isl (snd (last posts))"

lemma said_malformed_iff: "said_malformed (Inl err) \<longleftrightarrow> isMalformedActivity err = Some True"
  by (cases err) (simp_all add: said_malformed_def isMalformedActivity_def)

lemma request_recorded:
  assumes "teams_request client post w = (r, w1)"
  shows "tw_posts w1 = tw_posts w @ [(post, r)]"
  using assms by (auto simp: teams_request_def split: prod.splits)

lemma mapTeamsError_refuses [simp]: "\<not> sr_ok (mapTeamsError e)"
  by (simp add: mapTeamsError_def Let_def send_refused_def split: sdk_error.splits option.splits)

lemma part_sent:
  assumes "sendPartHonouringFormat client s channelId p fmt w = (r, w1)" "ta_app s \<noteq> None"
  shows "\<exists>posts. tw_posts w1 = tw_posts w @ posts \<and> part_tries channelId fmt p posts \<and>
    ((\<exists>sent. r = Returned sent \<and> sr_ok sent) \<longleftrightarrow> acknowledged posts)"
proof -
  let ?post = "\<lparr>tx_conversation = channelId, tx_activity = None, tx_text = p, tx_textFormat = activityFormat fmt\<rparr>"
  obtain r1 w2 where q: "teams_request client ?post w = (r1, w2)" by fastforce
  show ?thesis
  proof (cases "said_malformed r1")
    case True
    then obtain err where e: "r1 = Inl err" "isMalformedActivity err = Some True"
      using said_malformed_iff by (cases r1) (auto simp: said_malformed_def)
    let ?w = "w2\<lparr>tw_log := tw_log w2 @
      [lit ''[gateway-teams] the service rejected the formatted activity; retrying as plain text'' @ [nl]]\<rparr>"
    obtain r2 w3 where q2: "teams_request client (?post\<lparr>tx_textFormat := None\<rparr>) ?w = (r2, w3)" by fastforce
    show ?thesis using assms e q q2 True request_recorded [OF q] request_recorded [OF q2]
      by (intro exI [of _ "[(?post, r1), (?post\<lparr>tx_textFormat := None\<rparr>, r2)]"])
        (auto simp: sendPartHonouringFormat_def part_tries_def acknowledged_def simp del: lit_simps split: sum.splits)
  next
    case False
    then have m: "r1 = Inl err \<Longrightarrow> isMalformedActivity err \<noteq> Some True" for err using said_malformed_iff by auto
    show ?thesis using assms q False request_recorded [OF q] m
      by (intro exI [of _ "[(?post, r1)]"])
        (auto simp: sendPartHonouringFormat_def part_tries_def acknowledged_def simp del: lit_simps split: sum.splits option.splits bool.splits)
  qed
qed

lemma parts_tried:
  assumes "teams_send_parts client s channelId fmt ps lastId w = (r, w1)" "ta_app s \<noteq> None"
  shows "\<exists>tries. tw_posts w1 = tw_posts w @ concat tries \<and> length tries \<le> length ps \<and>
    list_all2 (part_tries channelId fmt) (take (length tries) ps) tries \<and> list_all acknowledged (butlast tries) \<and>
    (if \<exists>sent. r = Returned sent \<and> sr_ok sent then length tries = length ps \<and> list_all acknowledged tries
     else tries \<noteq> [] \<and> \<not> acknowledged (last tries))"
  using assms
proof (induction ps arbitrary: lastId w)
  case Nil
  then show ?case by (intro exI [of _ "[]"]) auto
next
  case (Cons p ps)
  obtain r1 w2 where q: "sendPartHonouringFormat client s channelId p fmt w = (r1, w2)" by fastforce
  obtain posts where p: "tw_posts w2 = tw_posts w @ posts" "part_tries channelId fmt p posts"
    "(\<exists>sent. r1 = Returned sent \<and> sr_ok sent) \<longleftrightarrow> acknowledged posts" using part_sent [OF q Cons.prems(2)] by blast
  show ?case
  proof (cases "acknowledged posts")
    case True
    then obtain sent where sent: "r1 = Returned sent" "sr_ok sent" using p(3) by blast
    then have "teams_send_parts client s channelId fmt ps (case sr_messageId sent of None \<Rightarrow> lastId | Some i \<Rightarrow> Some i) w2 = (r, w1)"
      using Cons.prems q by simp
    from Cons.IH [OF this Cons.prems(2)] obtain tries where t: "tw_posts w1 = tw_posts w2 @ concat tries" "length tries \<le> length ps"
      "list_all2 (part_tries channelId fmt) (take (length tries) ps) tries" "list_all acknowledged (butlast tries)"
      "if \<exists>sent. r = Returned sent \<and> sr_ok sent then length tries = length ps \<and> list_all acknowledged tries
       else tries \<noteq> [] \<and> \<not> acknowledged (last tries)" by blast
    then show ?thesis using p(1,2) True by (intro exI [of _ "posts # tries"]) (auto split: if_splits)
  next
    case False
    then have "w1 = w2" "\<not> (\<exists>sent. r = Returned sent \<and> sr_ok sent)"
      using Cons.prems q p(3) by (auto split: outcome.splits if_splits)
    then show ?thesis using p False by (intro exI [of _ "[posts]"]) auto
  qed
qed

section \<open>Properties\<close>

text \<open>
  C23: whatever the app, held or given up, hands on: a handler is called only with a direct message or, while mentions
  are asked for, with one that mentions its recipient; and the conversations remembered stay within their bound,
  each once.
\<close>
theorem teams_calls_pass_the_gate:
  assumes "newTeamsAdapter opts = Inr s0" "s = foldl (teams_step rt) s0 es"
  shows "(\<forall>(h, ev) \<in> set (ta_calls s). meant_for_the_bot (ta_options s) ev) \<and>
    length (ta_seen s) \<le> 1000 \<and> distinct (ta_seen s)"
  using teams_run_inv [OF conjunct1 [OF new_teams [OF assms(1)]], of rt es] assms(2)
  by (auto simp: teams_inv_def list_all_iff MAX_SEEN_CONVERSATIONS_def)

text \<open>
  C19: a reply is posted part by part, from the first on: a part is posted in the format declared and, only where the
  service answers that with status 400, once more as plain text; the next part is posted only after the one before
  was acknowledged. The send is told as done exactly when every part was acknowledged, and otherwise the part
  that failed is the last posted. The adapter keeps its app while the send runs.
\<close>
theorem teams_reply_is_a_prefix:
  assumes "splitForTeams (out_text out) = Some (Inr parts)" "parts \<noteq> []" "ta_connected s" "ta_app s \<noteq> None" "out_text out \<noteq> []"
    "teams_sendMessage client out s w = (r, w1)"
  shows "\<exists>tries. tw_posts w1 = tw_posts w @ concat tries \<and> length tries \<le> length parts \<and>
    list_all2 (part_tries (ch_id (out_channel out)) (out_format out)) (take (length tries) parts) tries \<and>
    list_all acknowledged (butlast tries) \<and>
    (if \<exists>sent. r = Returned sent \<and> sr_ok sent then length tries = length parts \<and> list_all acknowledged tries
     else tries \<noteq> [] \<and> \<not> acknowledged (last tries))"
proof -
  have "teams_send_parts client s (ch_id (out_channel out)) (out_format out) parts None w = (r, w1)"
    using assms by (auto simp: teams_sendMessage_def)
  from parts_tried [OF this assms(4)] show ?thesis .
qed

section \<open>Runs of a new adapter\<close>

definition teams_options1 :: teams_options where
  "teams_options1 = \<lparr>to_clientId = lit ''c'', to_clientSecret = lit ''s'', to_tenantId = lit ''t'', to_botDisplayName = None,
     to_requireMention = None\<rparr>"

definition fresh_teams :: teams_adapter where
  "fresh_teams = \<lparr>ta_options = teams_options1, ta_app = None, ta_connected = False, ta_handler = None,
     ta_warnedMissingRecipient = False, ta_seen = [], ta_attempts = [], ta_next = 0, ta_made = [], ta_stopped = [],
     ta_closing = 0, ta_answers = [], ta_calls = [], ta_log = []\<rparr>"

lemma fresh_teams_made: "newTeamsAdapter teams_options1 = Inr fresh_teams"
  by (simp add: newTeamsAdapter_def fresh_teams_def teams_options1_def)

definition teams_rt :: teams_runtime where
  "teams_rt = \<lparr>tr_runtime = \<lparr>rt_number = (\<lambda>s. NaN), rt_text = (\<lambda>q. []), rt_thousand = (\<lambda>q. NaN), rt_now = 7\<rparr>, tr_dateParse = (\<lambda>s. NaN)\<rparr>"

definition teams_run :: "teams_step_event list \<Rightarrow> teams_adapter" where
  "teams_run es = foldl (teams_step teams_rt) fresh_teams es"

definition teams_opens :: "teams_step_event list" where
  "teams_opens = [TeamsConnect, TeamsMade 0 None, TeamsInitialized 0 None, TeamsVerified 0 TokenOk, TeamsSubscribe 3]"

definition group_said :: "js \<Rightarrow> json" where
  "group_said who = JObj [(lit ''type'', JStr (lit ''message'')), (lit ''text'', JStr (lit ''<at>Bot</at>  hi'')),
     (lit ''conversation'', JObj [(lit ''id'', JStr (lit ''g'')), (lit ''conversationType'', JStr (lit ''groupChat''))]),
     (lit ''recipient'', JObj [(lit ''id'', JStr (lit ''bot''))]),
     (lit ''entities'', JArr [JObj [(lit ''type'', JStr (lit ''mention'')), (lit ''mentioned'', JObj [(lit ''id'', JStr who)])]])]"

theorem teams_calls_pass_the_gate_witness:
  "map (\<lambda>c. te_text (snd c)) (ta_calls (teams_run (teams_opens @ [TeamsActivity 0 (group_said (lit ''ann'')), TeamsActivity 0 (group_said (lit ''bot''))])))
     = [lit ''Bot hi''] \<and>
   length (ta_seen (teams_run (teams_opens @ [TeamsActivity 0 (group_said (lit ''ann'')), TeamsActivity 0 (group_said (lit ''bot''))]))) \<le> 1000"
proof -
  have "map (\<lambda>c. te_text (snd c)) (ta_calls (teams_run (teams_opens @ [TeamsActivity 0 (group_said (lit ''ann'')), TeamsActivity 0 (group_said (lit ''bot''))])))
     = [lit ''Bot hi'']" by code_simp
  then show ?thesis using teams_calls_pass_the_gate [OF fresh_teams_made refl] unfolding teams_run_def by blast
qed

text \<open>An attempt whose token request throws drops its app without stopping it; the app still hands messages on.\<close>
theorem failed_attempt_leaves_its_app:
  "let s = teams_run [TeamsSubscribe 3, TeamsConnect, TeamsMade 0 None, TeamsInitialized 0 None,
       TeamsVerified 0 (TokenThrew (ThrownError (lit ''timeout''))), TeamsDisconnect, TeamsSubscribe 3, TeamsActivity 0 (group_said (lit ''bot''))]
   in ta_made s = [0] \<and> ta_stopped s = [] \<and> ta_answers s = [(0, False)] \<and> length (ta_calls s) = 1"
  by code_simp

text \<open>Two connects that overlap make two apps; a disconnect stops the one held, and a message is delivered by both.\<close>
theorem overlapping_connects_make_two_apps:
  "let s = teams_run [TeamsSubscribe 3, TeamsConnect, TeamsConnect, TeamsMade 0 None, TeamsMade 1 None, TeamsInitialized 0 None,
       TeamsInitialized 1 None, TeamsVerified 0 TokenOk, TeamsVerified 1 TokenOk, TeamsActivity 0 (group_said (lit ''bot'')),
       TeamsActivity 1 (group_said (lit ''bot'')), TeamsDisconnect, TeamsDisconnected]
   in ta_made s = [0, 1] \<and> ta_stopped s = [1] \<and> length (ta_calls s) = 2"
  by code_simp

text \<open>A disconnect while the token is asked for does not stop the attempt from answering that it is connected.\<close>
theorem connect_answers_true_after_a_disconnect:
  "let s = teams_run [TeamsConnect, TeamsMade 0 None, TeamsInitialized 0 None, TeamsDisconnect, TeamsDisconnected, TeamsVerified 0 TokenOk]
   in ta_answers s = [(0, True)] \<and> ta_app s = None \<and> ta_stopped s = [0]"
  by code_simp

definition teams_out :: outbound where
  "teams_out = \<lparr>out_channel = \<lparr>ch_id = lit ''g'', ch_type = Group, ch_topicId = None\<rparr>, out_text = lit ''hi'',
     out_format = Some Markdown, out_replyTo = None\<rparr>"

text \<open>A service that takes plain text alone.\<close>

definition plain_only :: "unit teams_client" where
  "plain_only post w = (if tx_textFormat post = None then Inr (Some (lit ''7'')) else Inl (ObjectError (Some (JNum 400)) None None []), w)"

theorem teams_reply_is_a_prefix_witness:
  "\<exists>posts. tw_posts (snd (teams_sendMessage plain_only teams_out (teams_run teams_opens) \<lparr>tw_world = (), tw_posts = [], tw_log = []\<rparr>))
     = posts \<and> part_tries (lit ''g'') (Some Markdown) (lit ''hi'') posts \<and> length posts = 2"
proof -
  let ?w = "\<lparr>tw_world = (), tw_posts = [], tw_log = []\<rparr> :: unit teams_site"
  let ?r = "teams_sendMessage plain_only teams_out (teams_run teams_opens) ?w"
  have p: "splitForTeams (out_text teams_out) = Some (Inr [lit ''hi''])" by code_simp
  have c: "ta_connected (teams_run teams_opens)" "ta_app (teams_run teams_opens) \<noteq> None" by code_simp+
  have t: "out_text teams_out \<noteq> []" "ch_id (out_channel teams_out) = lit ''g''" "out_format teams_out = Some Markdown"
    by (simp_all add: teams_out_def)
  have two: "length (tw_posts (snd ?r)) = 2" and ok: "fst ?r = Returned (send_ok (Some (lit ''7'')))" by code_simp+
  from teams_reply_is_a_prefix [OF p _ c t(1) prod.collapse [symmetric], of plain_only ?w] ok obtain tries where
    "tw_posts (snd ?r) = concat tries" "length tries = 1"
    "list_all2 (part_tries (lit ''g'') (Some Markdown)) (take (length tries) [lit ''hi'']) tries"
    unfolding t by (auto simp del: lit_simps)
  then show ?thesis using two by (cases tries) (auto simp del: lit_simps)
qed

end
