(* ===== verification/EmailAdapter.thy ===== *)
theory EmailAdapter
  imports Stores Runner
begin

text \<open>
  The e-mail adapter (\<open>gateway-email/src\<close>: \<open>adapter.ts\<close>, \<open>normalize.ts\<close>, \<open>filters.ts\<close>, \<open>errors.ts\<close>,
  \<open>smtp-client.ts\<close>) over the stores of \<open>Stores\<close>: mail is drained from the mailbox into a queue whose tasks run one
  at a time. The mail parser, the IMAP and SMTP libraries and \<open>toLowerCase\<close> are parameters; the adapter is a
  machine over the steps between its awaits.
\<close>

section \<open>Mail\<close>

text \<open>What the parser answers, as far as it is read. A header that is absent is \<open>None\<close>.\<close>

record address_entry =
  ae_address :: "js option"
  ae_name :: "js option"

datatype address_field = NoAddress | OneAddress "address_entry list option" | ManyAddresses "address_entry list option list"

datatype references = ReferenceText js | ReferenceList "js list"

record parsed_mail =
  pm_messageId :: "js option"
  pm_inReplyTo :: "js option"
  pm_references :: "references option"
  pm_from :: address_field
  pm_to :: address_field
  pm_cc :: address_field
  pm_subject :: "js option"
  pm_text :: "js option"
  pm_date :: "int option"
  pm_attachments :: nat

record email_event = email_fields +
  em_inReplyTo :: "js option"
  em_fromAddress :: js
  em_fromName :: "js option"
  em_recipients :: "js list"
  em_text :: js
  em_receivedAt :: int
  em_attachmentCount :: nat

text \<open>\<open>replace(/^<|>$/g, "")\<close>.\<close>

definition without_braces :: "js \<Rightarrow> js" where
  "without_braces i =
     (let opened = (case i of c # s \<Rightarrow> if c = 60 then s else i | [] \<Rightarrow> [])
      in if opened \<noteq> [] \<and> last opened = 62 then butlast opened else opened)"

definition stripBraces :: "js option \<Rightarrow> js option" where
  "stripBraces i = (case i of None \<Rightarrow> None | Some s \<Rightarrow> if s = [] then None else Some (without_braces s))"

text \<open>\<open>split(/\s+/)\<close> and the filter of what is empty.\<close>

lemma words_shrink:
  assumes "dropWhile is_space s \<noteq> []"
  shows "length (dropWhile (\<lambda>c. \<not> is_space c) (dropWhile is_space s)) < length s"
proof -
  obtain c t where d: "dropWhile is_space s = c # t" using assms by (cases "dropWhile is_space s") auto
  then have "\<not> is_space c" by (metis dropWhile_eq_Cons_conv)
  then have "length (dropWhile (\<lambda>c. \<not> is_space c) (dropWhile is_space s)) \<le> length t"
    using d by (simp add: length_dropWhile_le)
  also have "length t < length s" using d length_dropWhile_le [of is_space s] by simp
  finally show ?thesis .
qed

function words_of :: "js \<Rightarrow> js list" where
  "words_of s =
     (let t = dropWhile is_space s in
      if t = [] then [] else takeWhile (\<lambda>c. \<not> is_space c) t # words_of (dropWhile (\<lambda>c. \<not> is_space c) t))"
  by pat_completeness auto

termination
  by (relation "measure length") (use words_shrink in auto)

declare words_of.simps [simp del]

definition normalizeRefs :: "references option \<Rightarrow> js list option" where
  "normalizeRefs refs =
     (case refs of
        None \<Rightarrow> None
      | Some r \<Rightarrow>
          let arr = (case r of ReferenceText s \<Rightarrow> words_of s | ReferenceList rs \<Rightarrow> rs);
              cleaned = concat (map (\<lambda>x. case stripBraces (Some x) of None \<Rightarrow> [] | Some y \<Rightarrow> [y]) arr)
          in if cleaned = [] then None else Some cleaned)"

definition addressesFrom :: "address_field \<Rightarrow> address_entry list" where
  "addressesFrom f =
     (let entries = (\<lambda>v. case v of None \<Rightarrow> [] | Some es \<Rightarrow> es) in
      case f of
        NoAddress \<Rightarrow> []
      | OneAddress v \<Rightarrow> entries v
      | ManyAddresses vs \<Rightarrow> concat (map entries vs))"

definition truncated_note :: js where
  "truncated_note = [nl, nl] @ lit ''[truncated '' @ [0x2014] @ lit '' full body in event.email.raw]''"

definition normalizeEmail :: "(js \<Rightarrow> js) \<Rightarrow> js \<Rightarrow> int option \<Rightarrow> int \<Rightarrow> parsed_mail \<Rightarrow> email_event" where
  "normalizeEmail lower botAddress maxBodyChars now parsed =
     (let froms = addressesFrom (pm_from parsed);
          fromAddress = js_trim (lower (case froms of e # es \<Rightarrow> (case ae_address e of None \<Rightarrow> lit ''anonymous'' | Some a \<Rightarrow> a)
                                                 | [] \<Rightarrow> lit ''anonymous''));
          trimmedName = (case froms of e # es \<Rightarrow> map_option js_trim (ae_name e) | [] \<Rightarrow> None);
          botAddr = js_trim (lower botAddress);
          addresses = concat (map (\<lambda>e. case ae_address e of None \<Rightarrow> [] | Some a \<Rightarrow> [js_trim (lower a)])
                        (addressesFrom (pm_to parsed) @ addressesFrom (pm_cc parsed)));
          raw = (case pm_text parsed of None \<Rightarrow> [] | Some t \<Rightarrow> t);
          most = (case maxBodyChars of None \<Rightarrow> 50000 | Some m \<Rightarrow> m)
      in \<lparr>em_messageId = (case stripBraces (pm_messageId parsed) of None \<Rightarrow> lit ''unknown'' | Some i \<Rightarrow> i),
          em_subject = (case pm_subject parsed of None \<Rightarrow> lit ''(no subject)'' | Some t \<Rightarrow> t),
          em_references = normalizeRefs (pm_references parsed),
          em_inReplyTo = stripBraces (pm_inReplyTo parsed),
          em_fromAddress = fromAddress,
          em_fromName = (case trimmedName of None \<Rightarrow> None | Some n \<Rightarrow> if n = [] then None else Some n),
          em_recipients = filter (\<lambda>a. a \<noteq> [] \<and> a \<noteq> botAddr) addresses,
          em_text = (if most < int (length raw) then js_slice raw 0 most @ truncated_note else raw),
          em_receivedAt = (case pm_date parsed of None \<Rightarrow> now | Some d \<Rightarrow> d),
          em_attachmentCount = pm_attachments parsed\<rparr>)"

section \<open>Filters\<close>

text \<open>\<open>s.match(/<([^>]+)>/)\<close>: the group of the first match.\<close>

fun in_brackets :: "js \<Rightarrow> js option" where
  "in_brackets [] = None"
| "in_brackets (c # s) =
     (let inner = takeWhile (\<lambda>d. d \<noteq> 62) s in
      if c = 60 \<and> inner \<noteq> [] \<and> 62 \<in> set s then Some inner else in_brackets s)"

definition extractAddr :: "(js \<Rightarrow> js) \<Rightarrow> js \<Rightarrow> js" where
  "extractAddr lower s = js_trim (lower (case in_brackets s of None \<Rightarrow> s | Some a \<Rightarrow> a))"

definition noreply :: "js \<Rightarrow> bool" where
  "noreply s \<longleftrightarrow> list_ex (\<lambda>p. list_all2 letter_of (p @ [64]) (take (length p + 1) s))
     [lit ''noreply'', lit ''no-reply'', lit ''no_reply'', lit ''donotreply'', lit ''do-not-reply'', lit ''mailer-daemon'',
      lit ''postmaster'', lit ''bounce'', lit ''notifications'']"

text \<open>The headers by their lower-case names, the last of a name counting.\<close>

definition header_of :: "(js \<Rightarrow> js) \<Rightarrow> (js \<times> js) list \<Rightarrow> js \<Rightarrow> js option" where
  "header_of lower headers name = map_of (rev (map (\<lambda>(k, v). (lower k, v)) headers)) name"

definition isAutomatedSender :: "(js \<Rightarrow> js) \<Rightarrow> js \<Rightarrow> (js \<times> js) list \<Rightarrow> bool" where
  "isAutomatedSender lower fromAddress headers \<longleftrightarrow>
     noreply fromAddress \<or>
     (case header_of lower headers (lit ''auto-submitted'') of
        None \<Rightarrow> False | Some v \<Rightarrow> occurs_in (lit ''auto-generated'') v \<or> occurs_in (lit ''auto-replied'') v) \<or>
     (case header_of lower headers (lit ''precedence'') of
        None \<Rightarrow> False | Some v \<Rightarrow> occurs_in (lit ''bulk'') v \<or> occurs_in (lit ''list'') v) \<or>
     (case header_of lower headers (lit ''x-auto-response-suppress'') of
        None \<Rightarrow> False | Some v \<Rightarrow> occurs_in (lit ''all'') v)"

definition isAllowedSender :: "(js \<Rightarrow> js) \<Rightarrow> js \<Rightarrow> js list option \<Rightarrow> bool" where
  "isAllowedSender lower fromAddress allowedSenders \<longleftrightarrow>
     (case allowedSenders of
        None \<Rightarrow> True
      | Some ss \<Rightarrow> list_ex (\<lambda>s. extractAddr lower s = extractAddr lower fromAddress) ss)"

section \<open>Errors\<close>

text \<open>What is read of a value that SMTP throws; its text is \<open>String(err)\<close>.\<close>

record mail_error =
  me_code :: "js option"
  me_responseCode :: "int option"
  me_message :: "js option"
  me_name :: "js option"
  me_text :: js

datatype mail_thrown = NullMailError | TextMailError js | MailError mail_error

definition email_network_error :: "js \<Rightarrow> bool" where
  "email_network_error s \<longleftrightarrow> list_ex (\<lambda>p. occurs_in p s)
     [lit ''econn'', lit ''enotfound'', lit ''etimedout'', lit ''ehostunreach'', lit ''eai_again'', lit ''fetch failed'']"

definition code_for_response :: "int \<Rightarrow> js option" where
  "code_for_response n =
     (if n = 535 \<or> n = 530 then Some (lit ''auth_failed'')
      else if n = 421 \<or> n = 451 \<or> n = 452 then Some (lit ''rate_limit'')
      else if n = 550 \<or> n = 551 \<or> n = 553 then Some (lit ''invalid_request'')
      else if 500 \<le> n then Some (lit ''server_error'')
      else if 400 \<le> n then Some (lit ''rate_limit'')
      else None)"

definition mapEmailError :: "mail_thrown \<Rightarrow> send_result" where
  "mapEmailError err =
     (case err of
        NullMailError \<Rightarrow> send_refused (lit ''unknown'') (lit ''Unknown error'')
      | TextMailError s \<Rightarrow> send_refused (lit ''unknown'') s
      | MailError e \<Rightarrow>
          let code = (case me_code e of None \<Rightarrow> [] | Some c \<Rightarrow> c);
              message = (case me_message e of None \<Rightarrow> me_text e | Some m \<Rightarrow> if m = [] then me_text e else m)
          in send_refused
            (if code = lit ''EAUTH'' \<or> code = lit ''EAUTHENTICATION'' then lit ''auth_failed''
             else if code = lit ''EENVELOPE'' \<and> includes_str message (lit ''550'') then lit ''invalid_request''
             else if code = lit ''ECONNECTION'' \<or> code = lit ''ESOCKET'' \<or> code = lit ''ETLS'' then lit ''server_error''
             else if code = lit ''ETIMEDOUT'' then lit ''timeout''
             else case Option.bind (me_responseCode e) code_for_response of
                Some c \<Rightarrow> c
              | None \<Rightarrow>
                  if me_name e = Some (lit ''IMAP_AUTH_FAILED'') \<or> occurs_in (lit ''auth'') message then lit ''auth_failed''
                  else if email_network_error message then lit ''server_error''
                  else lit ''unknown'')
            message)"

section \<open>The adapter\<close>

record email_options =
  eo_address :: js
  eo_password :: js
  eo_imapHost :: js
  eo_smtpHost :: js
  eo_fromName :: "js option"
  eo_allowedSenders :: "js list option"
  eo_allowAutomated :: "bool option"
  eo_maxBodyChars :: "int option"

text \<open>
  A fetched message: its UID, its source, its headers. The queue's tasks run one after another; \<open>em_busy\<close> is what
  the one that runs awaits. \<open>em_arrived\<close> is the messages queued, \<open>em_turns\<close> those whose turn came, \<open>em_done\<close> the
  UIDs of those whose turn ended, \<open>em_flagged\<close> the UIDs flagged on the server; \<open>em_calls\<close> is the calls made to
  handlers, each with the message it is made for.
\<close>

record fetched_message =
  fm_uid :: int
  fm_source :: js
  fm_headers :: "(js \<times> js) list"

datatype email_task = DispatchMail fetched_message | FlushSeen

datatype email_busy = ParsingMail fetched_message | HandlingMail fetched_message | MarkingSeen "int list"

text \<open>
  An attempt to connect is what it awaits; a disconnect too, and whose it is: an attempt's that failed, or a
  caller's. Clients are numbered by the attempt that made them.
\<close>

datatype email_phase = VerifyingSmtp | ConnectingImap | StartingIdle | FirstDrain bool | GivingUp

datatype down_phase = ClosingImap | ClosingSmtp

record email =
  em_options :: email_options
  em_imap :: "nat option"
  em_smtp :: "nat option"
  em_handler :: "nat option"
  em_connected :: bool
  em_polling :: bool
  em_attempts :: "(nat \<times> email_phase) list"
  em_next :: nat
  em_answers :: "(nat \<times> bool) list"
  em_downs :: "(nat \<times> nat option \<times> down_phase) list"
  em_seenUids :: uid_set
  em_pendingSeen :: "int list"
  em_threads :: "(js, thread_context) jsmap"
  em_queue :: "email_task list"
  em_busy :: "email_busy option"
  em_arrived :: "fetched_message list"
  em_turns :: "fetched_message list"
  em_done :: "int list"
  em_flagged :: "int list"
  em_calls :: "(nat \<times> fetched_message \<times> email_event) list"
  em_log :: "js list"

definition newEmailAdapter :: "email_options \<Rightarrow> thrown + email" where
  "newEmailAdapter opts =
     (case find (\<lambda>(k, v). v = []) [(lit ''address'', eo_address opts), (lit ''password'', eo_password opts),
          (lit ''imapHost'', eo_imapHost opts), (lit ''smtpHost'', eo_smtpHost opts)] of
        Some (k, v) \<Rightarrow> Inl (ThrownError (lit ''EmailAdapter: '' @ k @ lit '' is required and must be a non-empty string''))
      | None \<Rightarrow> Inr \<lparr>em_options = opts, em_imap = None, em_smtp = None, em_handler = None, em_connected = False,
          em_polling = False, em_attempts = [], em_next = 0, em_answers = [], em_downs = [], em_seenUids = [],
          em_pendingSeen = [], em_threads = [], em_queue = [], em_busy = None, em_arrived = [], em_turns = [], em_done = [],
          em_flagged = [], em_calls = [], em_log = []\<rparr>)"

definition email_say :: "js \<Rightarrow> email \<Rightarrow> email" where
  "email_say line s = s\<lparr>em_log := em_log s @ [lit ''[email] '' @ line @ [nl]]\<rparr>"

section \<open>The connection\<close>

definition email_at :: "nat \<Rightarrow> email \<Rightarrow> email_phase option" where
  "email_at k s = map_of (em_attempts s) k"

definition email_to :: "nat \<Rightarrow> email_phase \<Rightarrow> email \<Rightarrow> email" where
  "email_to k p s = s\<lparr>em_attempts := map (\<lambda>(i, q). (i, if i = k then p else q)) (em_attempts s)\<rparr>"

definition email_answer :: "nat \<Rightarrow> bool \<Rightarrow> email \<Rightarrow> email" where
  "email_answer k ok s =
     s\<lparr>em_attempts := filter (\<lambda>(i, q). i \<noteq> k) (em_attempts s), em_answers := em_answers s @ [(k, ok)]\<rparr>"

text \<open>\<open>disconnect\<close> in its pieces: up to the first await, after the mailbox closed, after SMTP closed.\<close>

definition email_down :: "nat option \<Rightarrow> email \<Rightarrow> email" where
  "email_down whose s =
     (let s1 = s\<lparr>em_connected := False, em_handler := None, em_seenUids := uid_clear (em_seenUids s),
        em_threads := thread_clear (em_threads s)\<rparr>
      in case whose of None \<Rightarrow> s1 | Some k \<Rightarrow> email_answer k False s1)"

definition email_close_smtp :: "nat option \<Rightarrow> email \<Rightarrow> email" where
  "email_close_smtp whose s =
     (if em_smtp s = None then email_down whose s
      else s\<lparr>em_downs := em_downs s @ [(em_next s, whose, ClosingSmtp)], em_next := Suc (em_next s)\<rparr>)"

definition email_begin_down :: "nat option \<Rightarrow> email \<Rightarrow> email" where
  "email_begin_down whose s =
     (let s1 = s\<lparr>em_polling := False\<rparr> in
      if em_imap s1 = None then email_close_smtp whose s1
      else s1\<lparr>em_downs := em_downs s1 @ [(em_next s1, whose, ClosingImap)], em_next := Suc (em_next s1)\<rparr>)"

definition email_closed :: "nat \<Rightarrow> email \<Rightarrow> email" where
  "email_closed d s =
     (let s1 = s\<lparr>em_downs := filter (\<lambda>(i, w, p). i \<noteq> d) (em_downs s)\<rparr> in
      case map_of (em_downs s) d of
        None \<Rightarrow> s
      | Some (whose, ClosingImap) \<Rightarrow> email_close_smtp whose (s1\<lparr>em_imap := None\<rparr>)
      | Some (whose, ClosingSmtp) \<Rightarrow> email_down whose (s1\<lparr>em_smtp := None\<rparr>))"

definition email_disconnect :: "email \<Rightarrow> email" where
  "email_disconnect s = email_begin_down None s"

text \<open>The \<open>catch\<close> of \<open>connect\<close>.\<close>

definition email_connect_failed :: "nat \<Rightarrow> thrown \<Rightarrow> email \<Rightarrow> email" where
  "email_connect_failed k err s = email_begin_down (Some k) (email_to k GivingUp (email_say (lit ''connect failed: '' @ text_of err) s))"

definition email_connect :: "email \<Rightarrow> email" where
  "email_connect s =
     (if em_connected s then s
      else let k = em_next s in
        s\<lparr>em_imap := Some k, em_smtp := Some k, em_next := Suc k, em_attempts := em_attempts s @ [(k, VerifyingSmtp)]\<rparr>)"

definition email_verified :: "nat \<Rightarrow> thrown option \<Rightarrow> email \<Rightarrow> email" where
  "email_verified k threw s =
     (if email_at k s \<noteq> Some VerifyingSmtp then s
      else case threw of
        Some err \<Rightarrow> email_connect_failed k err s
      | None \<Rightarrow> if em_imap s = None then email_connect_failed k type_error s else email_to k ConnectingImap s)"

text \<open>The mailbox is open; \<open>idle\<close> is whether the server lets clients wait for mail.\<close>

definition email_imap_connected :: "nat \<Rightarrow> thrown option \<Rightarrow> bool \<Rightarrow> email \<Rightarrow> email" where
  "email_imap_connected k threw idle s =
     (if email_at k s \<noteq> Some ConnectingImap then s
      else case threw of
        Some err \<Rightarrow> email_connect_failed k err s
      | None \<Rightarrow>
          if em_imap s = None then email_connect_failed k type_error s
          else email_to k (if idle then StartingIdle else FirstDrain True) s)"

definition email_connected :: "nat \<Rightarrow> bool \<Rightarrow> email \<Rightarrow> email" where
  "email_connected k polls s =
     email_answer k True (s\<lparr>em_connected := True, em_polling := (em_polling s \<or> polls)\<rparr>)"

text \<open>The first drain awaits nothing when the mailbox is gone.\<close>

definition email_idle_started :: "nat \<Rightarrow> thrown option \<Rightarrow> email \<Rightarrow> email" where
  "email_idle_started k threw s =
     (if email_at k s \<noteq> Some StartingIdle then s
      else case threw of
        Some err \<Rightarrow> email_connect_failed k err s
      | None \<Rightarrow> if em_imap s = None then email_connected k False s else email_to k (FirstDrain False) s)"

text \<open>\<open>_drainUnseen\<close> after its fetch: what was fetched is queued, and a flush behind it.\<close>

definition drained :: "thrown + fetched_message list \<Rightarrow> email \<Rightarrow> email" where
  "drained answer s =
     (case answer of
        Inl err \<Rightarrow> email_say (lit ''fetchUnseen failed: '' @ text_of err) s
      | Inr messages \<Rightarrow>
          s\<lparr>em_queue := em_queue s @ map DispatchMail messages @ [FlushSeen], em_arrived := em_arrived s @ messages\<rparr>)"

definition email_first_drained :: "nat \<Rightarrow> thrown + fetched_message list \<Rightarrow> email \<Rightarrow> email" where
  "email_first_drained k answer s =
     (case email_at k s of
        Some (FirstDrain polls) \<Rightarrow> email_connected k polls (drained answer s)
      | _ \<Rightarrow> s)"

definition email_onInbound :: "nat \<Rightarrow> email \<Rightarrow> email" where
  "email_onInbound h s = s\<lparr>em_handler := Some h\<rparr>"

definition email_off :: "nat \<Rightarrow> email \<Rightarrow> email" where
  "email_off h s = (if em_handler s = Some h then s\<lparr>em_handler := None\<rparr> else s)"

definition email_deliver :: "(nat \<Rightarrow> email_event \<Rightarrow> ('w, unit) comp) \<Rightarrow> email \<Rightarrow> email_event \<Rightarrow> ('w, delivery) comp" where
  "email_deliver handlers s event = runHandler (lit ''email'') (map_option handlers (em_handler s)) event"

section \<open>The queue\<close>

text \<open>The next task starts: a message not seen yet is remembered and parsed, a flush takes what is pending.\<close>

definition email_turn :: "email \<Rightarrow> email" where
  "email_turn s =
     (case (em_busy s, em_queue s) of
        (None, DispatchMail m # rest) \<Rightarrow>
          let s1 = s\<lparr>em_queue := rest\<rparr> in
          if uid_has (fm_uid m) (em_seenUids s1) then s1
          else s1\<lparr>em_seenUids := uid_add (fm_uid m) (em_seenUids s1), em_turns := em_turns s1 @ [m],
                  em_busy := Some (ParsingMail m)\<rparr>
      | (None, FlushSeen # rest) \<Rightarrow>
          let s1 = s\<lparr>em_queue := rest\<rparr> in
          if em_imap s1 = None \<or> em_pendingSeen s1 = [] then s1
          else s1\<lparr>em_pendingSeen := [], em_busy := Some (MarkingSeen (em_pendingSeen s1))\<rparr>
      | _ \<Rightarrow> s)"

text \<open>The \<open>finally\<close> of a message's turn, however it ends.\<close>

definition turn_ends :: "int \<Rightarrow> email \<Rightarrow> email" where
  "turn_ends uid s =
     s\<lparr>em_busy := None, em_done := em_done s @ [uid],
       em_pendingSeen := (if uid \<in> set (em_pendingSeen s) then em_pendingSeen s else em_pendingSeen s @ [uid])\<rparr>"

text \<open>Which filter drops an event, as the line it writes.\<close>

definition dropped :: "(js \<Rightarrow> js) \<Rightarrow> email_options \<Rightarrow> fetched_message \<Rightarrow> email_event \<Rightarrow> js option" where
  "dropped lower opts m event =
     (if em_fromAddress event = lower (eo_address opts)
      then Some (lit ''dropped own-address loopback (uid='' @ dec (nat (fm_uid m)) @ lit '')'')
      else if eo_allowAutomated opts \<noteq> Some True \<and> isAutomatedSender lower (em_fromAddress event) (fm_headers m)
      then Some (lit ''dropped automated sender: '' @ em_fromAddress event)
      else if \<not> isAllowedSender lower (em_fromAddress event) (eo_allowedSenders opts)
      then Some (lit ''sender not in allowlist: '' @ em_fromAddress event)
      else None)"

definition email_parsed :: "(js \<Rightarrow> js) \<Rightarrow> int \<Rightarrow> thrown + parsed_mail \<Rightarrow> email \<Rightarrow> email" where
  "email_parsed lower now answer s =
     (case em_busy s of
        Some (ParsingMail m) \<Rightarrow>
          (case answer of
             Inl err \<Rightarrow> turn_ends (fm_uid m) (email_say (lit ''dispatch error: '' @ text_of err) s)
           | Inr parsed \<Rightarrow>
               let event = normalizeEmail lower (eo_address (em_options s)) (eo_maxBodyChars (em_options s)) now parsed in
               (case dropped lower (em_options s) m event of
                  Some line \<Rightarrow> turn_ends (fm_uid m) (email_say line s)
                | None \<Rightarrow>
                    let s1 = s\<lparr>em_threads := recordFromInbound (email_fields.truncate event) (em_threads s)\<rparr> in
                    (case em_handler s1 of
                       None \<Rightarrow> turn_ends (fm_uid m) s1
                     | Some h \<Rightarrow> s1\<lparr>em_busy := Some (HandlingMail m), em_calls := em_calls s1 @ [(h, m, event)]\<rparr>)))
      | _ \<Rightarrow> s)"

definition email_handled :: "thrown option \<Rightarrow> email \<Rightarrow> email" where
  "email_handled threw s =
     (case em_busy s of
        Some (HandlingMail m) \<Rightarrow>
          turn_ends (fm_uid m) (case threw of None \<Rightarrow> s | Some err \<Rightarrow> email_say (lit ''dispatch error: '' @ text_of err) s)
      | _ \<Rightarrow> s)"

definition email_marked :: "thrown option \<Rightarrow> email \<Rightarrow> email" where
  "email_marked threw s =
     (case em_busy s of
        Some (MarkingSeen uids) \<Rightarrow>
          (case threw of
             None \<Rightarrow> s\<lparr>em_busy := None, em_flagged := em_flagged s @ uids\<rparr>
           | Some err \<Rightarrow>
               (email_say (lit ''could not flag '' @ dec (length uids) @ lit '' message(s) '' @ [92] @ lit ''Seen (they will be re-delivered): '' @ text_of err) s)
                 \<lparr>em_busy := None\<rparr>)
      | _ \<Rightarrow> s)"

text \<open>\<open>EmailDrained\<close> is a drain that a notification or the timer began while the mailbox was open.\<close>

datatype email_step_event =
    EmailConnect
  | EmailVerified nat "thrown option"
  | EmailImapConnected nat "thrown option" bool
  | EmailIdleStarted nat "thrown option"
  | EmailFirstDrained nat "thrown + fetched_message list"
  | EmailDisconnect
  | EmailClosed nat
  | EmailSubscribe nat
  | EmailUnsubscribe nat
  | EmailDrained "thrown + fetched_message list"
  | EmailTurn
  | EmailParsed "thrown + parsed_mail"
  | EmailHandled "thrown option"
  | EmailMarked "thrown option"

fun email_step :: "(js \<Rightarrow> js) \<Rightarrow> int \<Rightarrow> email \<Rightarrow> email_step_event \<Rightarrow> email" where
  "email_step lower now s EmailConnect = email_connect s"
| "email_step lower now s (EmailVerified k threw) = email_verified k threw s"
| "email_step lower now s (EmailImapConnected k threw idle) = email_imap_connected k threw idle s"
| "email_step lower now s (EmailIdleStarted k threw) = email_idle_started k threw s"
| "email_step lower now s (EmailFirstDrained k answer) = email_first_drained k answer s"
| "email_step lower now s EmailDisconnect = email_disconnect s"
| "email_step lower now s (EmailClosed d) = email_closed d s"
| "email_step lower now s (EmailSubscribe h) = email_onInbound h s"
| "email_step lower now s (EmailUnsubscribe h) = email_off h s"
| "email_step lower now s (EmailDrained answer) = drained answer s"
| "email_step lower now s EmailTurn = email_turn s"
| "email_step lower now s (EmailParsed answer) = email_parsed lower now answer s"
| "email_step lower now s (EmailHandled threw) = email_handled threw s"
| "email_step lower now s (EmailMarked threw) = email_marked threw s"

section \<open>Sending\<close>

record smtp_message =
  sw_from :: "js option \<times> js"
  sw_to :: js
  sw_subject :: js
  sw_text :: js
  sw_inReplyTo :: "js option"
  sw_references :: "js list option"
  sw_html :: "js option"

definition escape_html :: "js \<Rightarrow> js" where
  "escape_html s = concat (map (\<lambda>c. if c = 38 then lit ''&amp;'' else if c = 60 then lit ''&lt;'' else if c = 62 then lit ''&gt;'' else [c]) s)"

definition htmlPartFor :: "js \<Rightarrow> format option \<Rightarrow> js option" where
  "htmlPartFor text fmt =
     (if fmt = Some Html then Some text
      else if fmt = Some Markdown then Some (lit ''<pre>'' @ escape_html text @ lit ''</pre>'')
      else None)"

text \<open>\<open>Array.from(new Set(xs))\<close>.\<close>

definition as_set :: "js list \<Rightarrow> js list" where
  "as_set xs = rev (remdups (rev xs))"

definition base_message :: "outbound \<Rightarrow> email \<Rightarrow> smtp_message" where
  "base_message out s =
     (let ctx = Option.bind (ch_topicId (out_channel out)) (\<lambda>topic. thread_lookup topic (em_threads s)) in
      \<lparr>sw_from = (eo_fromName (em_options s), eo_address (em_options s)), sw_to = ch_id (out_channel out),
       sw_subject = (case ctx of
           None \<Rightarrow> lit ''Message from agent''
         | Some c \<Rightarrow> if prefix (lit ''Re:'') (tc_subject c) then tc_subject c else lit ''Re: '' @ tc_subject c),
       sw_text = out_text out, sw_inReplyTo = map_option tc_lastMessageId ctx,
       sw_references = map_option (\<lambda>c. as_set (tc_references c @ [tc_lastMessageId c])) ctx, sw_html = None\<rparr>)"

text \<open>\<open>SmtpClient.send\<close> puts the braces back on ids, and takes them from the new one's.\<close>

definition with_braces :: "js \<Rightarrow> js" where
  "with_braces i = [60] @ i @ [62]"

definition wire_message :: "smtp_message \<Rightarrow> smtp_message" where
  "wire_message m =
     m\<lparr>sw_inReplyTo := map_option with_braces (sw_inReplyTo m),
       sw_references := (case sw_references m of None \<Rightarrow> None | Some rs \<Rightarrow> if rs = [] then None else Some (map with_braces rs))\<rparr>"

text \<open>\<open>post\<close> is \<open>sendMail\<close> on the world; the site keeps what was posted and the lines written.\<close>

definition smtp_send ::
    "(smtp_message \<Rightarrow> 'w \<Rightarrow> (mail_thrown + js option) \<times> 'w) \<Rightarrow> smtp_message \<Rightarrow> 'w \<times> smtp_message list \<Rightarrow> (mail_thrown + js) \<times> 'w \<times> smtp_message list" where
  "smtp_send post m site =
     (case post (wire_message m) (fst site) of
        (Inl err, w) \<Rightarrow> (Inl err, w, snd site @ [wire_message m])
      | (Inr i, w) \<Rightarrow> (Inr (without_braces (case i of None \<Rightarrow> [] | Some x \<Rightarrow> x)), w, snd site @ [wire_message m]))"

definition email_sendMessage ::
    "(smtp_message \<Rightarrow> 'w \<Rightarrow> (mail_thrown + js option) \<times> 'w) \<Rightarrow> outbound \<Rightarrow> email \<Rightarrow> 'w \<times> smtp_message list
       \<Rightarrow> send_result \<times> 'w \<times> smtp_message list" where
  "email_sendMessage post out s site =
     (if out_text out = [] then (send_refused (lit ''empty_text'') (lit ''Empty text rejected.''), site)
      else if \<not> em_connected s \<or> em_smtp s = None
      then (send_refused (lit ''not_connected'') (lit ''EmailAdapter not connected.''), site)
      else let base = base_message out s; html = htmlPartFor (out_text out) (out_format out) in
        case smtp_send post (base\<lparr>sw_html := html\<rparr>) site of
          (Inr i, site1) \<Rightarrow> (send_ok (Some i), site1)
        | (Inl err, site1) \<Rightarrow>
            if html = None then (mapEmailError err, site1)
            else (case smtp_send post base site1 of
                (Inr i, site2) \<Rightarrow> (send_ok (Some i), site2)
              | (Inl err2, site2) \<Rightarrow> (mapEmailError err2, site2)))"

section \<open>The queue\<close>

definition called_mails :: "email \<Rightarrow> fetched_message list" where
  "called_mails s = map (\<lambda>c. fst (snd c)) (em_calls s)"

definition queued_mails :: "email_task list \<Rightarrow> fetched_message list" where
  "queued_mails ts = concat (map (\<lambda>t. case t of DispatchMail m \<Rightarrow> [m] | FlushSeen \<Rightarrow> []) ts)"

definition marking :: "email \<Rightarrow> int list" where
  "marking s = (case em_busy s of Some (MarkingSeen uids) \<Rightarrow> uids | _ \<Rightarrow> [])"

definition turns_served :: "email \<Rightarrow> fetched_message list" where
  "turns_served s = (case em_busy s of Some (ParsingMail m) \<Rightarrow> butlast (em_turns s) | _ \<Rightarrow> em_turns s)"

text \<open>
  What mail may pass, said of the message and its event and not by the filters' own code: it is not from the bot's
  own address; unless automated mail is allowed, its address is no robot's and none of three headers, the last of each
  name counting, has a word that marks automated mail; and its sender is one of those allowed, where they are listed.
\<close>

definition robot_address :: "js \<Rightarrow> bool" where
  "robot_address a \<longleftrightarrow> (\<exists>p\<in>set [lit ''noreply@'', lit ''no-reply@'', lit ''no_reply@'', lit ''donotreply@'', lit ''do-not-reply@'',
     lit ''mailer-daemon@'', lit ''postmaster@'', lit ''bounce@'', lit ''notifications@'']. list_all2 letter_of p (take (length p) a))"

definition last_header :: "(js \<Rightarrow> js) \<Rightarrow> fetched_message \<Rightarrow> js \<Rightarrow> js option" where
  "last_header lower m name = map_option snd (find (\<lambda>h. lower (fst h) = name) (rev (fm_headers m)))"

definition marked_by :: "(js \<Rightarrow> js) \<Rightarrow> fetched_message \<Rightarrow> js \<Rightarrow> js list \<Rightarrow> bool" where
  "marked_by lower m name ws \<longleftrightarrow> (\<exists>v\<in>set_option (last_header lower m name). \<exists>w\<in>set ws. occurs_in w v)"

definition may_pass :: "(js \<Rightarrow> js) \<Rightarrow> email_options \<Rightarrow> fetched_message \<Rightarrow> email_event \<Rightarrow> bool" where
  "may_pass lower opts m ev \<longleftrightarrow>
     em_fromAddress ev \<noteq> lower (eo_address opts) \<and>
     (eo_allowAutomated opts = Some True \<or>
        \<not> robot_address (em_fromAddress ev) \<and>
        \<not> marked_by lower m (lit ''auto-submitted'') [lit ''auto-generated'', lit ''auto-replied''] \<and>
        \<not> marked_by lower m (lit ''precedence'') [lit ''bulk'', lit ''list''] \<and>
        \<not> marked_by lower m (lit ''x-auto-response-suppress'') [lit ''all'']) \<and>
     (case eo_allowedSenders opts of
        None \<Rightarrow> True
      | Some allowed \<Rightarrow> \<exists>a\<in>set allowed. extractAddr lower a = extractAddr lower (em_fromAddress ev))"

lemma find_rev_map_of: "map_of (rev (map (\<lambda>(k, v). (f k, v)) hs)) n = map_option snd (find (\<lambda>h. f (fst h) = n) (rev hs))"
proof -
  have "map_of (map (\<lambda>(k, v). (f k, v)) gs) n = map_option snd (find (\<lambda>h. f (fst h) = n) gs)" for gs
    by (induction gs) auto
  from this [of "rev hs"] show ?thesis by (simp add: rev_map)
qed

lemma header_of_last: "header_of lower (fm_headers m) n = last_header lower m n"
  by (simp only: header_of_def last_header_def find_rev_map_of)

lemma noreply_robot: "noreply a = robot_address a"
  by (simp add: noreply_def robot_address_def)

lemma marked_by_option:
  "marked_by lower m n ws \<longleftrightarrow> (case last_header lower m n of None \<Rightarrow> False | Some v \<Rightarrow> list_ex (\<lambda>w. occurs_in w v) ws)"
  by (simp add: marked_by_def list_ex_iff split: option.split)

lemma dropped_none: "dropped lower opts m ev = None \<Longrightarrow> may_pass lower opts m ev"
  by (auto simp: dropped_def may_pass_def isAutomatedSender_def isAllowedSender_def noreply_robot header_of_last
    marked_by_option list_ex_iff simp del: lit_simps split: if_splits option.splits)

definition let_through :: "(js \<Rightarrow> js) \<Rightarrow> email_options \<Rightarrow> int \<Rightarrow> nat \<times> fetched_message \<times> email_event \<Rightarrow> bool" where
  "let_through lower opts now = (\<lambda>(h, m, ev). may_pass lower opts m ev \<and>
     (\<exists>parsed. ev = normalizeEmail lower (eo_address opts) (eo_maxBodyChars opts) now parsed))"

definition email_inv :: "(js \<Rightarrow> js) \<Rightarrow> email_options \<Rightarrow> int \<Rightarrow> email \<Rightarrow> bool" where
  "email_inv lower opts now s \<longleftrightarrow> em_options s = opts \<and> list_all (let_through lower opts now) (em_calls s) \<and>
     subseq (called_mails s) (turns_served s) \<and> subseq (em_turns s @ queued_mails (em_queue s)) (em_arrived s) \<and>
     set (em_flagged s) \<union> set (marking s) \<union> set (em_pendingSeen s) \<subseteq> set (em_done s) \<and>
     (\<forall>m. em_busy s = Some (ParsingMail m) \<longrightarrow> em_turns s \<noteq> [] \<and> last (em_turns s) = m)"

text \<open>What the connection's steps leave alone.\<close>

definition queue_view ::
    "email \<Rightarrow> email_options \<times> (nat \<times> fetched_message \<times> email_event) list \<times> fetched_message list \<times> email_task list \<times> email_busy option \<times> fetched_message list \<times> int list \<times> int list \<times> int list" where
  "queue_view s = (em_options s, em_calls s, em_turns s, em_queue s, em_busy s, em_arrived s, em_flagged s, em_pendingSeen s, em_done s)"

lemma email_inv_view: "queue_view s = queue_view t \<Longrightarrow> email_inv lower opts now s = email_inv lower opts now t"
  by (cases "em_busy t") (auto simp: email_inv_def queue_view_def called_mails_def turns_served_def marking_def split: email_busy.splits)

lemma view_pieces [simp]:
  "queue_view (email_say l s) = queue_view s" "queue_view (email_answer k ok s) = queue_view s" "queue_view (email_to k p s) = queue_view s"
  "queue_view (email_down w s) = queue_view s"
  by (simp_all add: queue_view_def email_say_def email_answer_def email_to_def email_down_def Let_def split: option.split)

lemma view_updates [simp]:
  "queue_view (s\<lparr>em_imap := a\<rparr>) = queue_view s" "queue_view (s\<lparr>em_smtp := a\<rparr>) = queue_view s" "queue_view (s\<lparr>em_downs := d\<rparr>) = queue_view s"
  "queue_view (s\<lparr>em_next := n\<rparr>) = queue_view s" "queue_view (s\<lparr>em_polling := b\<rparr>) = queue_view s" "queue_view (s\<lparr>em_handler := h\<rparr>) = queue_view s"
  "queue_view (s\<lparr>em_connected := b\<rparr>) = queue_view s" "queue_view (s\<lparr>em_attempts := xs\<rparr>) = queue_view s" "queue_view (s\<lparr>em_threads := ts\<rparr>) = queue_view s"
  "queue_view (s\<lparr>em_seenUids := u\<rparr>) = queue_view s"
  by (simp_all add: queue_view_def)

lemma view_down [simp]:
  "queue_view (email_close_smtp w s) = queue_view s" "queue_view (email_begin_down w s) = queue_view s"
  "queue_view (email_closed d s) = queue_view s" "queue_view (email_connect_failed k err s) = queue_view s"
  "queue_view (email_connected k b s) = queue_view s"
  by (simp_all add: email_close_smtp_def email_begin_down_def email_closed_def email_connect_failed_def email_connected_def Let_def
    del: lit_simps split: option.split down_phase.split prod.split)

lemma view_connection:
  "queue_view (email_connect s) = queue_view s" "queue_view (email_verified k threw s) = queue_view s"
  "queue_view (email_imap_connected k threw idle s) = queue_view s" "queue_view (email_idle_started k threw s) = queue_view s"
  "queue_view (email_disconnect s) = queue_view s" "queue_view (email_onInbound h s) = queue_view s" "queue_view (email_off h s) = queue_view s"
  by (simp_all add: email_connect_def email_verified_def email_imap_connected_def email_idle_started_def email_disconnect_def
    email_onInbound_def email_off_def Let_def split: option.split)

lemma subseq_more: "subseq xs ys \<Longrightarrow> subseq xs (ys @ zs)"
  using list_emb_append_mono [of "(=)" xs ys "[]" zs] by simp

lemma subseq_butlast: "subseq xs (butlast ys) \<Longrightarrow> subseq xs ys"
  by (metis append_butlast_last_id butlast.simps(1) subseq_more)

lemma queued_append [simp]: "queued_mails (xs @ ys) = queued_mails xs @ queued_mails ys"
  by (simp add: queued_mails_def)

lemma served_updates [simp]:
  "turns_served (s\<lparr>em_queue := q\<rparr>) = turns_served s" "turns_served (s\<lparr>em_arrived := a\<rparr>) = turns_served s"
  "marking (s\<lparr>em_queue := q\<rparr>) = marking s" "marking (s\<lparr>em_arrived := a\<rparr>) = marking s"
  "called_mails (s\<lparr>em_queue := q\<rparr>) = called_mails s" "called_mails (s\<lparr>em_arrived := a\<rparr>) = called_mails s"
  by (simp_all add: turns_served_def marking_def called_mails_def split: option.split email_busy.split)

lemma drained_inv:
  assumes "email_inv lower opts now s" shows "email_inv lower opts now (drained answer s)"
proof (cases answer)
  case (Inl err)
  then show ?thesis using assms email_inv_view [of "drained answer s" s] by (simp add: drained_def)
next
  case (Inr ms)
  have "queued_mails (map DispatchMail ms @ [FlushSeen]) = ms" by (induction ms) (simp_all add: queued_mails_def)
  then show ?thesis using assms list_emb_append_mono [of "(=)" "em_turns s @ queued_mails (em_queue s)" "em_arrived s" ms ms] Inr
    by (simp add: drained_def email_inv_def)
qed

lemma turn_inv:
  assumes "email_inv lower opts now s" shows "email_inv lower opts now (email_turn s)"
proof (cases "em_busy s = None \<and> em_queue s \<noteq> []")
  case True
  then obtain t rest where q: "em_busy s = None" "em_queue s = t # rest" by (cases "em_queue s") auto
  show ?thesis
  proof (cases t)
    case (DispatchMail m)
    have "subseq (em_turns s @ queued_mails rest) (em_turns s @ m # queued_mails rest)"
      by (intro list_emb_append_mono) auto
    then have "subseq (em_turns s @ queued_mails rest) (em_arrived s)" 
      using assms q DispatchMail by (auto simp: email_inv_def queued_mails_def intro: subseq_order.trans)
    then show ?thesis using assms q DispatchMail
      by (simp add: email_turn_def email_inv_def Let_def called_mails_def turns_served_def marking_def queued_mails_def)
  next
    case FlushSeen
    then show ?thesis using assms q
      by (auto simp: email_turn_def email_inv_def Let_def called_mails_def turns_served_def marking_def queued_mails_def)
  qed
next
  case False
  then show ?thesis using assms by (auto simp: email_turn_def split: option.splits list.splits)
qed

lemma turn_ends_inv:
  assumes "email_inv lower opts now s" "em_busy s = Some (ParsingMail m) \<or> em_busy s = Some (HandlingMail m)"
  shows "email_inv lower opts now (turn_ends uid s)"
proof -
  have "subseq (called_mails s) (em_turns s)"
    using assms by (auto simp: email_inv_def turns_served_def intro: subseq_butlast)
  then show ?thesis using assms by (auto simp: email_inv_def turn_ends_def called_mails_def turns_served_def marking_def)
qed

lemma parsed_inv:
  assumes "email_inv lower opts now s" shows "email_inv lower opts now (email_parsed lower now answer s)"
proof (cases "\<exists>m. em_busy s = Some (ParsingMail m)")
  case True
  then obtain m where b: "em_busy s = Some (ParsingMail m)" by blast
  have o: "em_options s = opts" using assms by (simp add: email_inv_def)
  have say: "email_inv lower opts now (turn_ends u (email_say l s))" for u l
    by (rule turn_ends_inv [of _ _ _ _ m]) (use assms b email_inv_view [of "email_say l s" s] in \<open>simp_all add: email_say_def queue_view_def\<close>)
  have none: "email_inv lower opts now (turn_ends u (s\<lparr>em_threads := ts\<rparr>))" for u ts
    by (rule turn_ends_inv [of _ _ _ _ m]) (use assms b email_inv_view [of "s\<lparr>em_threads := ts\<rparr>" s] in simp_all)
  have call: "email_inv lower opts now (s\<lparr>em_threads := ts, em_busy := Some (HandlingMail m), em_calls := em_calls s @ [(h, m, ev)]\<rparr>)"
    if "dropped lower opts m ev = None" "ev = normalizeEmail lower (eo_address opts) (eo_maxBodyChars opts) now parsed" for h ev ts parsed
  proof -
    have t: "em_turns s = butlast (em_turns s) @ [m]" using assms b by (auto simp: email_inv_def)
    have "subseq (called_mails s @ [m]) (butlast (em_turns s) @ [m])"
      using assms b by (intro list_emb_append_mono) (auto simp: email_inv_def turns_served_def)
    then have "subseq (called_mails s @ [m]) (em_turns s)" using t by simp
    then show ?thesis using assms dropped_none [OF that(1)] that(2) b
      by (auto simp: email_inv_def called_mails_def turns_served_def marking_def let_through_def)
  qed
  show ?thesis using b o say none call
    by (auto simp: email_parsed_def Let_def simp del: lit_simps split: sum.splits option.splits)
next
  case False
  then show ?thesis using assms by (auto simp: email_parsed_def split: option.splits email_busy.splits)
qed

lemma handled_inv:
  assumes "email_inv lower opts now s" shows "email_inv lower opts now (email_handled threw s)"
proof (cases "\<exists>m. em_busy s = Some (HandlingMail m)")
  case True
  then obtain m where b: "em_busy s = Some (HandlingMail m)" by blast
  have "email_inv lower opts now (turn_ends u (email_say l s))" for u l
    by (rule turn_ends_inv [of _ _ _ _ m]) (use assms b email_inv_view [of "email_say l s" s] in \<open>simp_all add: email_say_def queue_view_def\<close>)
  then show ?thesis using b turn_ends_inv [OF assms] by (auto simp: email_handled_def simp del: lit_simps split: option.splits)
next
  case False
  then show ?thesis using assms by (auto simp: email_handled_def split: option.splits email_busy.splits)
qed

lemma marked_inv: "email_inv lower opts now s \<Longrightarrow> email_inv lower opts now (email_marked threw s)"
  by (auto simp: email_marked_def email_inv_def email_say_def called_mails_def turns_served_def marking_def simp del: lit_simps
    split: option.splits email_busy.splits)

lemma email_step_inv:
  assumes "email_inv lower opts now s" shows "email_inv lower opts now (email_step lower now s e)"
proof -
  have v: "email_inv lower opts now t" if "queue_view t = queue_view s" for t using assms email_inv_view [OF that] by simp
  have f: "email_inv lower opts now (email_connected k b (drained a s))" for k b a
    using drained_inv [OF assms] email_inv_view [of "email_connected k b (drained a s)" "drained a s"] by simp
  show ?thesis
  proof (cases e)
    case (EmailFirstDrained k answer)
    then show ?thesis using assms f by (auto simp: email_first_drained_def split: option.splits email_phase.splits)
  qed (use assms in \<open>simp_all add: v view_connection drained_inv turn_inv parsed_inv handled_inv marked_inv\<close>)
qed

lemma email_run_inv: "email_inv lower opts now s \<Longrightarrow> email_inv lower opts now (foldl (email_step lower now) s es)"
  by (induction es arbitrary: s) (simp_all add: email_step_inv)

lemma new_email: "newEmailAdapter opts = Inr s \<Longrightarrow> email_inv lower opts now s"
  by (auto simp: newEmailAdapter_def email_inv_def called_mails_def turns_served_def marking_def queued_mails_def split: option.splits prod.splits)

section \<open>Replies\<close>

lemma as_set_facts: "distinct (as_set xs)" "set (as_set xs) = set xs"
  by (simp_all add: as_set_def)

section \<open>Properties\<close>

text \<open>
  C9: whatever the order of connects, drains, parses, handlers, flushes and disconnects: mail is handed to handlers in
  the order in which it was fetched. Each call carries the event of a parse; its sender is not the bot's own address;
  unless automated mail is allowed the address is no robot's and the headers of the message handed over, the last of
  each name, mark it neither as submitted automatically nor as bulk or list mail nor as one not to answer; and its
  sender is on the list of those allowed, where there is one. Mail is flagged on the server only after its turn ended.
\<close>
theorem email_is_handled_in_order:
  assumes "newEmailAdapter opts = Inr s0" "s = foldl (email_step lower now) s0 es"
  shows "subseq (map (\<lambda>c. fst (snd c)) (em_calls s)) (em_arrived s) \<and>
    (\<forall>(h, m, ev)\<in>set (em_calls s). may_pass lower opts m ev \<and>
       (\<exists>parsed. ev = normalizeEmail lower (eo_address opts) (eo_maxBodyChars opts) now parsed)) \<and>
    set (em_flagged s) \<subseteq> set (em_done s)"
proof -
  have i: "email_inv lower opts now s" unfolding assms(2) by (rule email_run_inv [OF new_email [OF assms(1)]])
  have "subseq (called_mails s) (em_turns s)" using i by (auto simp: email_inv_def turns_served_def intro: subseq_butlast split: option.splits email_busy.splits)
  moreover have "subseq (em_turns s) (em_arrived s)" using i unfolding email_inv_def by (metis list_emb_append_mono append_Nil2 list_emb_Nil subseq_order.trans subseq_order.refl)
  ultimately have "subseq (called_mails s) (em_arrived s)" by (rule subseq_order.trans)
  then show ?thesis using i by (auto simp: email_inv_def called_mails_def let_through_def list_all_iff)
qed

text \<open>
  C20: a reply to a thread that is remembered is one of that thread: its subject is a reply's, it answers the last
  message, and it names each message of the thread once; it carries the text as given, and each thing posted for it
  does.
\<close>
theorem email_replies_stay_in_their_thread:
  assumes "ch_topicId (out_channel out) = Some topic" "thread_lookup topic (em_threads s) = Some c"
    "out_text out \<noteq> []" "em_connected s" "em_smtp s \<noteq> None"
  shows "\<exists>posts r w. email_sendMessage post out s site = (r, w, snd site @ posts) \<and> posts \<noteq> [] \<and> length posts \<le> 2 \<and>
    list_all (\<lambda>m. prefix (lit ''Re:'') (sw_subject m) \<and> sw_to m = ch_id (out_channel out) \<and> sw_text m = out_text out \<and>
      sw_inReplyTo m = Some (with_braces (tc_lastMessageId c)) \<and>
      (\<exists>refs. sw_references m = Some (map with_braces refs) \<and> distinct refs \<and> set refs = set (tc_references c) \<union> {tc_lastMessageId c})) posts"
proof -
  let ?refs = "as_set (tc_references c @ [tc_lastMessageId c])"
  define ok where "ok m \<longleftrightarrow> prefix (lit ''Re:'') (sw_subject m) \<and> sw_to m = ch_id (out_channel out) \<and> sw_text m = out_text out \<and>
      sw_inReplyTo m = Some (with_braces (tc_lastMessageId c)) \<and>
      (\<exists>refs. sw_references m = Some (map with_braces refs) \<and> distinct refs \<and> set refs = set (tc_references c) \<union> {tc_lastMessageId c})" for m :: smtp_message
  have "set ?refs = set (tc_references c) \<union> {tc_lastMessageId c}" by (simp add: as_set_facts)
  moreover from this have "?refs \<noteq> []" by auto
  ultimately have good: "ok (wire_message (base_message out s\<lparr>sw_html := h\<rparr>))" for h
    using assms(1,2) as_set_facts(1) by (auto simp: ok_def wire_message_def base_message_def Let_def)
  have g2: "ok (wire_message (base_message out s))" using good [of None] by (simp add: ok_def wire_message_def base_message_def Let_def)
  have "\<exists>posts r w. email_sendMessage post out s site = (r, w, snd site @ posts) \<and> posts \<noteq> [] \<and> length posts \<le> 2 \<and> list_all ok posts"
    using assms(3-5) good g2 by (auto simp: email_sendMessage_def smtp_send_def Let_def split: prod.splits sum.splits)
  then show ?thesis by (simp add: ok_def [abs_def])
qed

section \<open>Runs of a new adapter\<close>

definition email_options1 :: email_options where
  "email_options1 = \<lparr>eo_address = lit ''bot@x'', eo_password = lit ''p'', eo_imapHost = lit ''i'', eo_smtpHost = lit ''s'',
     eo_fromName = None, eo_allowedSenders = None, eo_allowAutomated = None, eo_maxBodyChars = None\<rparr>"

definition fresh_email :: email where
  "fresh_email = \<lparr>em_options = email_options1, em_imap = None, em_smtp = None, em_handler = None, em_connected = False,
     em_polling = False, em_attempts = [], em_next = 0, em_answers = [], em_downs = [], em_seenUids = [], em_pendingSeen = [],
     em_threads = [], em_queue = [], em_busy = None, em_arrived = [], em_turns = [], em_done = [], em_flagged = [],
     em_calls = [], em_log = []\<rparr>"

lemma fresh_email_made: "newEmailAdapter email_options1 = Inr fresh_email"
  by (simp add: newEmailAdapter_def fresh_email_def email_options1_def)

definition email_run :: "email_step_event list \<Rightarrow> email" where
  "email_run es = foldl (email_step (\<lambda>s. s) 7) fresh_email es"

definition mail_from :: "js \<Rightarrow> parsed_mail" where
  "mail_from a = \<lparr>pm_messageId = None, pm_inReplyTo = None, pm_references = None,
     pm_from = OneAddress (Some [\<lparr>ae_address = Some a, ae_name = None\<rparr>]), pm_to = NoAddress, pm_cc = NoAddress,
     pm_subject = Some a, pm_text = Some (lit ''hi''), pm_date = None, pm_attachments = 0\<rparr>"

definition fetched :: "int \<Rightarrow> fetched_message" where
  "fetched u = \<lparr>fm_uid = u, fm_source = [], fm_headers = []\<rparr>"

definition email_opens :: "email_step_event list" where
  "email_opens = [EmailConnect, EmailVerified 0 None, EmailImapConnected 0 None False]"

definition two_mails :: "email_step_event list" where
  "two_mails = email_opens @ [EmailSubscribe 3, EmailFirstDrained 0 (Inr [fetched 4, fetched 2]), EmailTurn,
     EmailParsed (Inr (mail_from (lit ''a@y''))), EmailHandled None, EmailTurn, EmailParsed (Inr (mail_from (lit ''b@y''))),
     EmailHandled None, EmailTurn, EmailMarked None]"

definition bulk_mail :: fetched_message where
  "bulk_mail = \<lparr>fm_uid = 3, fm_source = [], fm_headers = [(lit ''precedence'', lit ''bulk'')]\<rparr>"

definition three_mails :: "email_step_event list" where
  "three_mails = email_opens @ [EmailSubscribe 3, EmailFirstDrained 0 (Inr [fetched 4, bulk_mail, fetched 2]), EmailTurn,
     EmailParsed (Inr (mail_from (lit ''a@y''))), EmailHandled None, EmailTurn, EmailParsed (Inr (mail_from (lit ''c@y''))),
     EmailTurn, EmailParsed (Inr (mail_from (lit ''b@y''))), EmailHandled None, EmailTurn, EmailMarked None]"

theorem email_is_handled_in_order_witness:
  "map (\<lambda>c. fst (snd c)) (em_calls (email_run three_mails)) = [fetched 4, fetched 2] \<and>
   subseq [fetched 4, fetched 2] (em_arrived (email_run three_mails)) \<and>
   may_pass (\<lambda>s. s) email_options1 (fetched 2) (snd (snd (em_calls (email_run three_mails) ! 1))) \<and>
   em_flagged (email_run three_mails) = [4, 3, 2]"
proof -
  let ?s = "email_run three_mails"
  have r: "map (\<lambda>c. fst (snd c)) (em_calls ?s) = [fetched 4, fetched 2]" "em_flagged ?s = [4, 3, 2]" by code_simp+
  then obtain h h' ev ev' where "em_calls ?s = [(h, fetched 4, ev), (h', fetched 2, ev')]"
    by (auto simp: map_eq_Cons_conv)
  then show ?thesis using email_is_handled_in_order [OF fresh_email_made refl, of "\<lambda>s. s" 7 three_mails] r
    unfolding email_run_def by simp
qed

definition email_reply :: outbound where
  "email_reply = \<lparr>out_channel = \<lparr>ch_id = lit ''a@y'', ch_type = DM, ch_topicId = Some (lit ''unknown'')\<rparr>, out_text = lit ''yes'',
     out_format = Some Markdown, out_replyTo = None\<rparr>"

text \<open>Mails that carry no id share the thread of the last of them: the answer to one is sent under the other's subject.\<close>
theorem mails_without_an_id_share_a_thread:
  "let s = email_run two_mails in
     em_subject (snd (snd (em_calls s ! 0))) = lit ''a@y'' \<and> sw_to (base_message email_reply s) = lit ''a@y'' \<and>
     sw_subject (base_message email_reply s) = lit ''Re: b@y''"
  by code_simp

theorem email_replies_stay_in_their_thread_witness:
  "\<exists>posts r. email_sendMessage (\<lambda>m w. (Inr None, w)) email_reply (email_run two_mails) ((), []) = (r, (), posts) \<and>
     posts \<noteq> [] \<and> list_all (\<lambda>m. sw_text m = lit ''yes'') posts"
proof -
  let ?s = "email_run two_mails"
  let ?c = "\<lparr>tc_subject = lit ''b@y'', tc_references = [], tc_lastMessageId = lit ''unknown''\<rparr>"
  have t: "ch_topicId (out_channel email_reply) = Some (lit ''unknown'')" "out_text email_reply \<noteq> []"
    "out_text email_reply = lit ''yes''" by (simp_all add: email_reply_def)
  have l: "thread_lookup (lit ''unknown'') (em_threads ?s) = Some ?c" by code_simp
  have c: "em_connected ?s" "em_smtp ?s \<noteq> None" by code_simp+
  from email_replies_stay_in_their_thread [OF t(1) l t(2) c, of "\<lambda>m w. (Inr None, w)" "((), [])"] t(3)
  show ?thesis by (auto simp: list_all_iff simp del: lit_simps)
qed

text \<open>A disconnect while the client starts to wait for mail leaves an adapter that counts as connected with no client at all.\<close>
theorem email_connected_without_clients:
  "let s = email_run [EmailConnect, EmailVerified 0 None, EmailImapConnected 0 None True, EmailDisconnect, EmailClosed 1,
       EmailClosed 2, EmailIdleStarted 0 None]
   in em_connected s \<and> em_imap s = None \<and> em_smtp s = None \<and> email_connect s = s"
  by code_simp

text \<open>Mail that finds no handler is flagged as seen all the same, and never fetched again.\<close>
theorem unserved_mail_is_flagged:
  "let s = email_run (email_opens @ [EmailFirstDrained 0 (Inr [fetched 4]), EmailTurn, EmailParsed (Inr (mail_from (lit ''a@y''))),
       EmailTurn, EmailMarked None])
   in em_calls s = [] \<and> em_flagged s = [4]"
  by code_simp

text \<open>An own address written with a space around it is not recognized in the mail the adapter receives from itself.\<close>
theorem own_address_with_a_space_loops:
  "let opts = email_options1\<lparr>eo_address := lit '' bot@x''\<rparr> in
     dropped (\<lambda>s. s) opts (fetched 4) (normalizeEmail (\<lambda>s. s) (eo_address opts) None 7 (mail_from (lit ''bot@x''))) = None"
  by code_simp

text \<open>A formatted mail is posted again after any failure, also one that does not tell whether the first was taken.\<close>
theorem timed_out_mail_is_posted_again:
  "let timedOut = MailError \<lparr>me_code = Some (lit ''ETIMEDOUT''), me_responseCode = None, me_message = None, me_name = None, me_text = []\<rparr>
   in length (snd (snd (email_sendMessage (\<lambda>m w. (Inl timedOut, w)) email_reply (email_run two_mails) ((), [])))) = 2"
  by code_simp

end
