(* ===== verification/Spec2Isabelle.thy ===== *)
theory Spec2Isabelle
  imports TelegramSplit SmsSplit RunnerLifecycle Channels IrcAdapter Stores TeamsVerifier
    JsonRpc BaileysBackend DiscordAdapter SlackAdapter TelegramAdapter MattermostAdapter MatrixAdapter
    LineAdapter NextcloudTalk GoogleChat SignalAdapter IMessageAdapter
    SmsAdapter TeamsAdapter EmailAdapter
begin

text \<open>
  A model of theokit-gateways: the core package (\<open>packages/gateway/src\<close>, called \<open>core\<close> below) and the
  decision-making parts of the platform packages (\<open>packages/gateway-<name>/src\<close>).

  How the program is put together. An application builds adapters (\<open>core/channel\<close>), gives them to a
  \<open>GatewayRunner\<close> (\<open>core/runner\<close>) and starts it. A platform adapter normalizes what its SDK or socket
  hands it into a message event and calls the runner's \<open>dispatch\<close>; hooks (\<open>core/hooks\<close>) may block it,
  a slash command or the handler runs, and a reply goes out through \<open>deliver\<close>, which asks the
  adapter to send. A send splits the text for the platform (\<open>split.ts\<close> over \<open>core/text/chunk.ts\<close>),
  rewrites or escapes its markup and posts the parts in order. What is written to standard error
  is masked first (\<open>core/security\<close>). Platforms that push over HTTP verify what arrives (Teams,
  WhatsApp Cloud, LINE, Nextcloud Talk, Google Chat, SMS) before anything reads it.

  Conventions. A JavaScript string is a list of UTF-16 code units (\<open>js\<close>, an \<open>int list\<close>), \<open>undefined\<close>
  and \<open>null\<close> are \<open>None\<close> where the code treats them alike, a value thrown is a value of \<open>thrown\<close>, and
  an \<open>async\<close> function is a function of the state of the world to an outcome (\<open>Effects\<close>). JavaScript is
  single-threaded: where awaits interleave, the code between two awaits is one step and the
  component is a state machine over those steps. What the runtime or an SDK answers is an argument
  of the definitions; nothing is assumed of it but what a statement's hypotheses say.

  Ground theories. \<open>Prelude\<close> (numbers as arguments see them, lists), \<open>JsString\<close> (slice, indexOf,
  trim, decimal), \<open>JsMap\<close> (insertion-ordered maps, and the locale of their laws), \<open>Regex\<close>
  (backtracking matches with JavaScript's priorities and \<open>replace\<close>), \<open>Utf8\<close> (encoded lengths,
  Base64), \<open>Json\<close> (parsed values, numbers, conversions), \<open>Effects\<close> (outcomes, standard error,
  \<open>core/errors\<close>), \<open>Messages\<close> (events, outbound messages, send results of \<open>core/types\<close>).

  Core components.
  \<open>Chunk\<close>: \<open>core/text/chunk.ts\<close>; \<open>chunk_loop\<close> is the \<open>while\<close> loop of \<open>chunkText\<close>, total because every cut
  is at least one unit. Bounds, content, surrogate pairs; the locale of a splitter's contract.
  \<open>Dialect\<close>: \<open>core/text/dialect.ts\<close>, \<open>channel-rendering.ts\<close>. \<open>Credentials\<close>:
  \<open>core/security/credential-patterns.ts\<close>. \<open>Session\<close>: \<open>core/session/router.ts\<close>. \<open>Hooks\<close>: \<open>core/hooks\<close>.
  \<open>Runner\<close>: dispatch, delivery and \<open>runHandler\<close> (\<open>core/runner/gateway-runner.ts\<close>,
  \<open>core/delivery/router.ts\<close>, \<open>core/adapter/base.ts\<close>). \<open>RunnerLifecycle\<close>: \<open>start()\<close> and \<open>stop()\<close> as a
  step relation over the settlements of the adapters' promises, with the invariants of what is
  connected and wired. \<open>Channels\<close>: \<open>core/channel\<close>.

  Platform components.
  \<open>Splitters\<close>, \<open>TelegramSplit\<close>, \<open>SmsSplit\<close>, \<open>IrcSplit\<close>: the \<open>split.ts\<close> of each package; Telegram's loop is
  total because a chunk that balancing empties is sent unbalanced; SMS makes at most eight passes and
  the theorem says that they are enough or that the code reports it.
  \<open>IrcLine\<close>, \<open>IrcNormalize\<close>, \<open>IrcRegistration\<close>, \<open>IrcAdapter\<close>: \<open>gateway-irc\<close>; the connection is a state machine.
  \<open>Stores\<close>: LINE's reply tokens and the e-mail stores.
  \<open>TeamsClaims\<close>, \<open>TeamsKeySet\<close>, \<open>TeamsVerifier\<close>: the verifier of \<open>gateway-teams\<close>: claims and options; the
  key-set cache as a state machine over lookups, reads and time; requests from the first byte to
  the verdict.
  \<open>JsonRpc\<close>: \<open>json-rpc.ts\<close> of \<open>gateway-signal\<close> and \<open>gateway-imessage\<close>, a step machine that refines an abstract
  table of promises, each answered once.
  \<open>WhatsAppInbound\<close>: \<open>allowlist.ts\<close>, \<open>inbound-rules.ts\<close>, \<open>own-number.ts\<close>. \<open>WhatsAppWebhook\<close>:
  \<open>backend/cloud/signature.ts\<close>, \<open>webhook.ts\<close>. \<open>WhatsAppCloud\<close>: \<open>errors.ts\<close>, \<open>backend/cloud/client.ts\<close>,
  \<open>index.ts\<close>, with a generation counter that makes late answers stale. \<open>BaileysNormalize\<close>,
  \<open>BaileysBackend\<close>: \<open>backend/baileys/normalize.ts\<close> and \<open>index.ts\<close>, a machine over attempts, sockets and the queue of
  sends; a wrapper is read through at most four levels, the code's own bound. \<open>WhatsAppBackend\<close>: the contract
  of \<open>backend-types.ts\<close> and the send loop over it. \<open>WhatsAppAdapter\<close>: \<open>adapter.ts\<close>, on either backend.
  \<open>WebhookServer\<close>: \<open>core/webhook\<close>, the capture of raw bodies and the listener's start and stop, each a machine.
  \<open>WebhookSession\<close>: the life of an adapter that checks a server, then listens, and may be disconnected at any
  await. \<open>LineAdapter\<close>, \<open>NextcloudTalk\<close>, \<open>GoogleChat\<close>: the adapters of these packages with their signatures
  and routes, the last two over such a session; \<open>GoogleChatToken\<close>: the tokens Google signs and the one it
  grants, with the caches of both. \<open>SmsAdapter\<close>: \<open>gateway-sms\<close> on its three providers.
  \<open>ChildSession\<close>: the session of an adapter with a child process, which the records of \<open>SignalAdapter\<close> (with
  \<open>SignalText\<close>, \<open>text-style.ts\<close>) and \<open>IMessageAdapter\<close> extend; the latter's rows wait in a queue, and a cursor
  tells the next child where to resume. \<open>EmailAdapter\<close>: \<open>gateway-email\<close> over \<open>Stores\<close>, its queue one task at a
  time. \<open>TeamsAdapter\<close>: \<open>adapter.ts\<close>, \<open>normalize.ts\<close>, \<open>mention-gate.ts\<close> of \<open>gateway-teams\<close>.
  \<open>PartSender\<close>: the loop that sends parts, the escaping of markers, and the locale of a platform that
  takes one part per request. \<open>DiscordAdapter\<close>, \<open>SlackAdapter\<close>, \<open>TelegramAdapter\<close>, \<open>MattermostAdapter\<close>,
  \<open>MatrixAdapter\<close>: the adapters of these packages, their connection a machine over the steps between awaits.

  Interfaces. Each locale states what a client relies on and is interpreted where the provider is
  defined: the map laws (\<open>JsMap\<close>), the splitter contract (\<open>Chunk\<close>, one interpretation per platform in
  \<open>Splitters\<close>), the part sender and the escaped texts (\<open>PartSender\<close>, over a recorded client, for Discord and
  Mattermost), the WhatsApp backend (\<open>WhatsAppBackend\<close>, interpreted on the Cloud and the Baileys backend), the signed route
  (\<open>WebhookServer\<close>, interpreted on LINE's route, on Talk's, on Google Chat's and on the SMS route).

  What the properties show. What is let in: tokens and webhooks only when verified, messages only past the
  gates, on every path alike (\<open>TeamsVerifier\<close>, \<open>GoogleChatToken\<close>, \<open>LineAdapter\<close>, \<open>NextcloudTalk\<close>, \<open>WhatsAppCloud\<close>, \<open>WhatsAppAdapter\<close>, \<open>BaileysNormalize\<close>,
  \<open>DiscordAdapter\<close>, \<open>TelegramAdapter\<close>, \<open>SmsAdapter\<close>, \<open>TeamsAdapter\<close>, \<open>EmailAdapter\<close>, \<open>Runner\<close>). Life cycles: what is connected is held and what was given up is
  closed, in every order of the awaits (\<open>RunnerLifecycle\<close> and the adapters); where an order breaks this, a
  theorem exhibits it. Calls and sends: answered once, in order, never crossed (\<open>JsonRpc\<close>, \<open>BaileysBackend\<close>); what arrives is
  handled in order (\<open>EmailAdapter\<close>, \<open>IMessageAdapter\<close>); a reply goes where its event came from (\<open>SignalAdapter\<close>,
  \<open>IMessageAdapter\<close>, \<open>EmailAdapter\<close>); a
  reply's parts fit the platform, read as written, and are posted from the first on (\<open>Chunk\<close>, the splitters,
  \<open>PartSender\<close> and its clients, \<open>MatrixAdapter\<close>). Failures of user code contained (\<open>Runner\<close>), caches and traffic
  bounded (\<open>TeamsKeySet\<close>, \<open>Stores\<close>, \<open>MattermostAdapter\<close>), secrets masked (\<open>Credentials\<close>), lines and events read
  back (\<open>IrcLine\<close>, \<open>MattermostAdapter\<close>), checked input of its declared type (\<open>WhatsAppWebhook\<close>).

  Not modelled: the SDKs (discord.js, Bolt, grammY, matrix-js-sdk, the Teams SDK, baileys), HTTP servers and
  clients, sockets and processes, which are arguments; WhatsApp's web backend, which drives a browser;
  type-level declarations, which have no behaviour; the integration harness and the repository's scripts,
  which are not part of the program. Heap identity is modelled only where the code compares objects (a
  subscribed handler, an app, a socket), by numbering them.
\<close>

end
